(* ===== verification/Prelude.thy ===== *)
theory Prelude
  imports Complex_Main "HOL-Library.Char_ord" "HOL-Library.List_Lexorder" "HOL-Library.Product_Lexorder"
begin

section \<open>Prelude: the run-time notions every component shares\<close>

text \<open>
  What the TypeScript sources take from JavaScript and from PostgreSQL, once for all
  components: exceptions as values, asynchronous methods as state-and-exception actions,
  transactions that roll back, the string operations the sources call, and the
  row-at-a-time reading of \<open>update ... where ... returning\<close>.  The locales at the end state
  the contract that every conditional \<open>update\<close> of the stores shares.

  Conventions.  A JavaScript string is a \<open>string\<close> (Latin-1 code units).  An instant is an
  \<open>int\<close> of milliseconds: \<open>toISOString\<close> and \<open>Date.parse\<close> are inverse on the values the
  code stores, so timestamps are kept parsed.  \<open>undefined\<close>, \<open>null\<close> and SQL \<open>NULL\<close> are \<open>None\<close>.
\<close>

named_theorems act_simps \<open>unfolding of the state-and-exception actions\<close>
named_theorems sql_simps \<open>rows before and after an update\<close>

subsection \<open>Errors\<close>

text \<open>The disposition of \<^verbatim>\<open>AgentMailboxAdmissionError\<close>.\<close>

datatype disposition = Ambiguous | Busy | Rejected

text \<open>
  What the code throws.  \<open>ClientError\<close> is the transport error of the Eve client, of which the
  code reads the HTTP status.
\<close>

datatype js_error =
    Error string
  | RangeError string
  | TypeError string
  | AdmissionError disposition string
  | OperationError nat string string
  | ClientError nat string
  | CoverageError nat nat

primrec error_message :: "js_error \<Rightarrow> string" where
  "error_message (Error m) = m"
| "error_message (RangeError m) = m"
| "error_message (TypeError m) = m"
| "error_message (AdmissionError d m) = m"
| "error_message (OperationError s c m) = m"
| "error_message (ClientError s m) = m"
| "error_message (CoverageError e a) = ''Agent transcript ended early.''"

type_synonym 'a res = "js_error + 'a"

subsection \<open>Actions: state passing with exceptions\<close>

type_synonym ('w, 'a) act = "'w \<Rightarrow> 'a res \<times> 'w"

definition ret :: "'a \<Rightarrow> ('w, 'a) act" where
  "ret x w = (Inr x, w)"

definition throw :: "js_error \<Rightarrow> ('w, 'a) act" where
  "throw e w = (Inl e, w)"

definition lift_res :: "'a res \<Rightarrow> ('w, 'a) act" where
  "lift_res r w = (r, w)"

definition bind_act :: "('w, 'a) act \<Rightarrow> ('a \<Rightarrow> ('w, 'b) act) \<Rightarrow> ('w, 'b) act" where
  "bind_act m f w = (case m w of (Inl e, w') \<Rightarrow> (Inl e, w') | (Inr x, w') \<Rightarrow> f x w')"

text \<open>\<^verbatim>\<open>try { return await m } catch (error) { ... }\<close>: the state reached is kept.\<close>

definition catch_act :: "('w, 'a) act \<Rightarrow> (js_error \<Rightarrow> ('w, 'a) act) \<Rightarrow> ('w, 'a) act" where
  "catch_act m h w = (case m w of (Inl e, w') \<Rightarrow> h e w' | (Inr x, w') \<Rightarrow> (Inr x, w'))"

text \<open>
  \<^verbatim>\<open>try\<close> whose handler continues differently from the normal path: the outcome as a value.
\<close>

definition attempt :: "('w, 'a) act \<Rightarrow> ('w, 'a res) act" where
  "attempt m w = (case m w of (r, w') \<Rightarrow> (Inr r, w'))"

text \<open>\<^verbatim>\<open>inTransaction\<close>: commit on return, roll back and rethrow on an exception.\<close>

definition transaction :: "('w, 'a) act \<Rightarrow> ('w, 'a) act" where
  "transaction m w = (case m w of (Inl e, _) \<Rightarrow> (Inl e, w) | (Inr x, w') \<Rightarrow> (Inr x, w'))"

text \<open>\<^verbatim>\<open>requireRow\<close>: a missing row is an exception.\<close>

definition require_row :: "string \<Rightarrow> 'a option \<Rightarrow> 'a res" where
  "require_row m r = (case r of None \<Rightarrow> Inl (Error m) | Some x \<Rightarrow> Inr x)"

text \<open>Assertions run in order; the first that fails is thrown.\<close>

fun checks :: "unit res list \<Rightarrow> unit res" where
  "checks [] = Inr ()"
| "checks (Inl e # cs) = Inl e"
| "checks (Inr _ # cs) = checks cs"

definition assert_that :: "bool \<Rightarrow> js_error \<Rightarrow> unit res" where
  "assert_that b e = (if b then Inr () else Inl e)"

lemma checks_ok_iff: "checks cs = Inr () \<longleftrightarrow> list_all (\<lambda>c. c = Inr ()) cs"
  by (induction cs rule: checks.induct) auto

lemma assert_that_ok [simp]: "assert_that b e = Inr u \<longleftrightarrow> b"
  by (auto simp: assert_that_def)

lemma require_row_ok [simp]: "require_row m r = Inr x \<longleftrightarrow> r = Some x"
  by (auto simp: require_row_def split: option.splits)

lemmas act_defs [act_simps] =
  ret_def throw_def lift_res_def bind_act_def catch_act_def attempt_def transaction_def

subsection \<open>Total-correctness triples\<close>

text \<open>
  \<open>keeps I m\<close>: the action \<open>m\<close> keeps the state property \<open>I\<close>, whether it returns or throws.
  \<open>yields I m Q\<close>: from a state with \<open>I\<close>, a value returned satisfies \<open>Q\<close> in the state reached.
\<close>

definition keeps :: "('w \<Rightarrow> bool) \<Rightarrow> ('w, 'a) act \<Rightarrow> bool" where
  "keeps I m \<longleftrightarrow> (\<forall>w. I w \<longrightarrow> I (snd (m w)))"

definition yields :: "('w \<Rightarrow> bool) \<Rightarrow> ('w, 'a) act \<Rightarrow> ('a \<Rightarrow> bool) \<Rightarrow> bool" where
  "yields I m Q \<longleftrightarrow> (\<forall>w x w'. I w \<longrightarrow> m w = (Inr x, w') \<longrightarrow> Q x)"

lemma keepsD: "keeps I m \<Longrightarrow> I w \<Longrightarrow> m w = (r, w') \<Longrightarrow> I w'"
  unfolding keeps_def by (metis snd_conv)

lemma yieldsD: "yields I m Q \<Longrightarrow> I w \<Longrightarrow> m w = (Inr x, w') \<Longrightarrow> Q x"
  unfolding yields_def by blast

lemma keeps_ret [intro, simp]: "keeps I (ret x)"
  by (simp add: keeps_def ret_def)

lemma keeps_throw [intro, simp]: "keeps I (throw e)"
  by (simp add: keeps_def throw_def)

lemma keeps_lift [intro, simp]: "keeps I (lift_res r)"
  by (simp add: keeps_def lift_res_def)

lemma keeps_bind [intro]:
  assumes "keeps I m" and "\<And>x. keeps I (f x)"
  shows "keeps I (bind_act m f)"
  unfolding keeps_def bind_act_def
  using assms by (fastforce simp: keeps_def split: prod.splits sum.splits dest: keepsD)

lemma keeps_catch [intro]:
  assumes "keeps I m" and "\<And>e. keeps I (h e)"
  shows "keeps I (catch_act m h)"
  unfolding keeps_def catch_act_def
  using assms by (fastforce simp: keeps_def split: prod.splits sum.splits dest: keepsD)

lemma keeps_attempt [intro]: "keeps I m \<Longrightarrow> keeps I (attempt m)"
  unfolding keeps_def attempt_def by (fastforce split: prod.splits)

lemma keeps_transaction [intro]: "keeps I m \<Longrightarrow> keeps I (transaction m)"
  unfolding keeps_def transaction_def by (fastforce split: prod.splits sum.splits)

lemma keeps_if [intro]: "keeps I m \<Longrightarrow> keeps I n \<Longrightarrow> keeps I (if b then m else n)"
  by simp

lemma yields_ret [simp]: "yields I (ret x) Q \<longleftrightarrow> Q x \<or> (\<forall>w. \<not> I w)"
  unfolding yields_def ret_def by auto

lemma yields_throw [simp]: "yields I (throw e) Q"
  by (simp add: yields_def throw_def)

lemma yields_bind:
  assumes "keeps I m" and "yields I m R" and "\<And>x. R x \<Longrightarrow> yields I (f x) Q"
  shows "yields I (bind_act m f) Q"
  unfolding yields_def
proof (intro allI impI)
  fix w x w' assume I: "I w" and eq: "bind_act m f w = (Inr x, w')"
  obtain r w1 where m: "m w = (r, w1)" by fastforce
  from eq m obtain y where r: "r = Inr y"
    by (cases r) (auto simp: bind_act_def)
  with m I assms(1,2) have "I w1" and "R y"
    by (auto dest: keepsD yieldsD)
  moreover from eq m r have "f y w1 = (Inr x, w')"
    by (simp add: bind_act_def)
  ultimately show "Q x" using assms(3) by (blast dest: yieldsD)
qed

lemma yields_catch:
  assumes "keeps I m" and "yields I m Q" and "\<And>e. yields I (h e) Q"
  shows "yields I (catch_act m h) Q"
  unfolding yields_def
proof (intro allI impI)
  fix w x w' assume I: "I w" and eq: "catch_act m h w = (Inr x, w')"
  obtain r w1 where m: "m w = (r, w1)" by fastforce
  show "Q x"
  proof (cases r)
    case (Inl e)
    with eq m have "h e w1 = (Inr x, w')" by (simp add: catch_act_def)
    with m I assms(1,3) show ?thesis by (blast dest: keepsD yieldsD)
  next
    case (Inr y)
    with eq m I assms(2) show ?thesis by (auto simp: catch_act_def dest: yieldsD)
  qed
qed

lemma yields_mono: "yields I m Q \<Longrightarrow> (\<And>x. Q x \<Longrightarrow> Q' x) \<Longrightarrow> yields I m Q'"
  unfolding yields_def by blast

text \<open>
  \<open>triple P m Q E\<close>: from a state with \<open>P\<close>, a value returned and the state reached satisfy
  \<open>Q\<close>, an exception and the state reached satisfy \<open>E\<close>.
\<close>

definition triple ::
  "('w \<Rightarrow> bool) \<Rightarrow> ('w, 'a) act \<Rightarrow> ('a \<Rightarrow> 'w \<Rightarrow> bool) \<Rightarrow> (js_error \<Rightarrow> 'w \<Rightarrow> bool) \<Rightarrow> bool" where
  "triple P m Q E \<longleftrightarrow> (\<forall>w. P w \<longrightarrow> (case m w of (Inr x, w') \<Rightarrow> Q x w' | (Inl e, w') \<Rightarrow> E e w'))"

lemma tripleI:
  "(\<And>w x w'. P w \<Longrightarrow> m w = (Inr x, w') \<Longrightarrow> Q x w') \<Longrightarrow>
   (\<And>w e w'. P w \<Longrightarrow> m w = (Inl e, w') \<Longrightarrow> E e w') \<Longrightarrow> triple P m Q E"
  by (auto simp: triple_def split: prod.splits sum.splits)

lemma tripleD: "triple P m Q E \<Longrightarrow> P w \<Longrightarrow> m w = (Inr x, w') \<Longrightarrow> Q x w'"
  and tripleE: "triple P m Q E \<Longrightarrow> P w \<Longrightarrow> m w = (Inl e, w') \<Longrightarrow> E e w'"
  by (force simp: triple_def)+

lemma triple_snd: "triple P m (\<lambda>_. Q) (\<lambda>_. Q) \<Longrightarrow> P w \<Longrightarrow> Q (snd (m w))"
  by (cases "m w"; cases "fst (m w)") (auto dest: tripleD tripleE)

lemma triple_weaken:
  "triple P m Q E \<Longrightarrow> (\<And>w. P' w \<Longrightarrow> P w) \<Longrightarrow> (\<And>x w. Q x w \<Longrightarrow> Q' x w) \<Longrightarrow> (\<And>e w. E e w \<Longrightarrow> E' e w) \<Longrightarrow>
   triple P' m Q' E'"
  by (rule tripleI) (blast dest: tripleD tripleE)+

lemma triple_keeps: "keeps I m \<Longrightarrow> triple I m (\<lambda>_. I) (\<lambda>_. I)"
  by (rule tripleI) (blast dest: keepsD)+

lemma triple_disj:
  "triple P m Q E \<Longrightarrow> triple P' m Q E \<Longrightarrow> triple (\<lambda>w. (P w \<or> P' w) \<and> c) m Q E"
  by (rule tripleI) (auto dest: tripleD tripleE)

lemma triple_ret: "(\<And>w. P w \<Longrightarrow> Q x w) \<Longrightarrow> triple P (ret x) Q E"
  by (simp add: triple_def ret_def)

lemma triple_throw: "(\<And>w. P w \<Longrightarrow> E e w) \<Longrightarrow> triple P (throw e) Q E"
  by (simp add: triple_def throw_def)

lemma triple_bind:
  assumes "triple P m R E" and "\<And>x. triple (R x) (f x) Q E"
  shows "triple P (bind_act m f) Q E"
proof (rule tripleI)
  fix w x w' assume "P w" and "bind_act m f w = (Inr x, w')"
  then show "Q x w'" using assms
    by (cases "m w"; cases "fst (m w)") (auto simp: bind_act_def dest: tripleD)
next
  fix w e w' assume "P w" and "bind_act m f w = (Inl e, w')"
  then show "E e w'" using assms
    by (cases "m w"; cases "fst (m w)") (auto simp: bind_act_def dest: tripleD tripleE)
qed

lemma triple_catch:
  assumes "triple P m Q R" and "\<And>e. triple (R e) (h e) Q E"
  shows "triple P (catch_act m h) Q E"
proof (rule tripleI)
  fix w x w' assume "P w" and "catch_act m h w = (Inr x, w')"
  then show "Q x w'" using assms
    by (cases "m w"; cases "fst (m w)") (auto simp: catch_act_def dest: tripleD tripleE)
next
  fix w e w' assume "P w" and "catch_act m h w = (Inl e, w')"
  then show "E e w'" using assms
    by (cases "m w"; cases "fst (m w)") (auto simp: catch_act_def dest: tripleE)
qed

lemma triple_attempt:
  assumes "triple P m (\<lambda>x. Q (Inr x)) (\<lambda>e. Q (Inl e))"
  shows "triple P (attempt m) Q E"
proof (rule tripleI)
  fix w r w' assume w: "P w" and "attempt m w = (Inr r, w')"
  then have "m w = (r, w')" by (cases "m w") (simp add: attempt_def)
  with w show "Q r w'" using tripleD [OF assms] tripleE [OF assms] by (cases r) auto
next
  fix w e w' assume "attempt m w = (Inl e, w')"
  then show "E e w'" by (cases "m w") (simp add: attempt_def)
qed

subsection \<open>Strings\<close>

text \<open>The white space that \<^verbatim>\<open>trim\<close> and \<^verbatim>\<open>\s\<close> know among the Latin-1 code units.\<close>

definition is_js_space :: "char \<Rightarrow> bool" where
  "is_js_space c \<longleftrightarrow> of_char c \<in> {9, 10, 11, 12, 13, 32, 160 :: nat}"

definition js_trim :: "string \<Rightarrow> string" where
  "js_trim s = rev (dropWhile is_js_space (rev (dropWhile is_js_space s)))"

definition starts_with :: "string \<Rightarrow> string \<Rightarrow> bool" where
  "starts_with p s \<longleftrightarrow> take (length p) s = p"

text \<open>JavaScript truthiness of an optional string: \<^verbatim>\<open>undefined\<close> and \<^verbatim>\<open>""\<close> are falsy.\<close>

definition truthy :: "string option \<Rightarrow> string option" where
  "truthy s = (if s = Some [] then None else s)"

definition digit_char :: "nat \<Rightarrow> char" where
  "digit_char n = char_of (48 + n)"

fun show_nat :: "nat \<Rightarrow> string" where
  "show_nat n = (if n < 10 then [digit_char n] else show_nat (n div 10) @ [digit_char (n mod 10)])"

declare show_nat.simps [simp del]

definition is_digit :: "char \<Rightarrow> bool" where
  "is_digit c \<longleftrightarrow> 48 \<le> (of_char c :: nat) \<and> (of_char c :: nat) \<le> 57"

definition is_upper :: "char \<Rightarrow> bool" where
  "is_upper c \<longleftrightarrow> 65 \<le> (of_char c :: nat) \<and> (of_char c :: nat) \<le> 90"

definition is_lower :: "char \<Rightarrow> bool" where
  "is_lower c \<longleftrightarrow> 97 \<le> (of_char c :: nat) \<and> (of_char c :: nat) \<le> 122"

definition is_alnum :: "char \<Rightarrow> bool" where
  "is_alnum c \<longleftrightarrow> is_digit c \<or> is_upper c \<or> is_lower c"

lemma starts_with_iff: "starts_with p s \<longleftrightarrow> (\<exists>t. s = p @ t)"
  unfolding starts_with_def by (metis append_eq_conv_conj append_take_drop_id)

lemma show_nat_nonempty [simp]: "show_nat n \<noteq> []" "[] \<noteq> show_nat n"
  by (subst show_nat.simps, simp)+

lemma of_char_digit: "n < 10 \<Longrightarrow> (of_char (digit_char n) :: nat) = 48 + n"
  by (simp add: digit_char_def of_char_of)

lemma digit_char_inj: "m < 10 \<Longrightarrow> n < 10 \<Longrightarrow> digit_char m = digit_char n \<Longrightarrow> m = n"
  by (metis add_left_cancel of_char_digit)

lemma show_nat_digits: "c \<in> set (show_nat n) \<Longrightarrow> is_digit c"
proof (induction n rule: show_nat.induct)
  case (1 n)
  then show ?case
    by (subst (asm) (2) show_nat.simps)
      (auto simp: is_digit_def of_char_digit split: if_splits)
qed

lemma show_nat_small: "n < 10 \<Longrightarrow> show_nat n = [digit_char n]"
  by (subst show_nat.simps) simp

lemma show_nat_large: "\<not> n < 10 \<Longrightarrow> show_nat n = show_nat (n div 10) @ [digit_char (n mod 10)]"
  by (subst show_nat.simps) simp

lemma show_nat_inj: "show_nat m = show_nat n \<Longrightarrow> m = n"
proof (induction m arbitrary: n rule: show_nat.induct)
  case (1 m)
  consider "m < 10" "n < 10" | "\<not> m < 10" "\<not> n < 10" | "(m < 10) \<noteq> (n < 10)" by blast
  then show ?case
  proof cases
    case 1
    with "1.prems" show ?thesis by (simp add: show_nat_small digit_char_inj)
  next
    case 2
    with "1.prems" have "show_nat (m div 10) = show_nat (n div 10)"
      and d: "digit_char (m mod 10) = digit_char (n mod 10)"
      by (simp_all add: show_nat_large)
    with "1.IH" 2 have "m div 10 = n div 10" by blast
    moreover from d have "m mod 10 = n mod 10" by (intro digit_char_inj) simp_all
    ultimately show ?thesis by (metis div_mult_mod_eq)
  next
    case 3
    with "1.prems" show ?thesis
      by (cases "m < 10") (auto simp: show_nat_small show_nat_large)
  qed
qed

subsection \<open>SQL: comparisons with NULL and conditional updates\<close>

text \<open>A comparison with \<open>NULL\<close> is not true.\<close>

definition sql_eq :: "'a option \<Rightarrow> 'a option \<Rightarrow> bool" where
  "sql_eq x y \<longleftrightarrow> x \<noteq> None \<and> x = y"

definition sql_before :: "int option \<Rightarrow> int \<Rightarrow> bool" where
  "sql_before x t = (case x of None \<Rightarrow> False | Some a \<Rightarrow> a < t)"

definition sql_at_least :: "int option \<Rightarrow> int \<Rightarrow> bool" where
  "sql_at_least x t = (case x of None \<Rightarrow> False | Some a \<Rightarrow> t \<le> a)"

definition coalesce :: "'a option \<Rightarrow> 'a option \<Rightarrow> 'a option" where
  "coalesce x y = (case x of None \<Rightarrow> y | Some a \<Rightarrow> Some a)"

text \<open>
  \<^verbatim>\<open>update t set ... where P\<close>, and the first row of its \<^verbatim>\<open>returning\<close> clause.
\<close>

definition update_where :: "('r \<Rightarrow> bool) \<Rightarrow> ('r \<Rightarrow> 'r) \<Rightarrow> 'r list \<Rightarrow> 'r list" where
  "update_where P f rs = map (\<lambda>r. if P r then f r else r) rs"

definition returning :: "('r \<Rightarrow> bool) \<Rightarrow> ('r \<Rightarrow> 'r) \<Rightarrow> 'r list \<Rightarrow> 'r option" where
  "returning P f rs = map_option f (find P rs)"

lemma sql_eq_Some [simp]: "sql_eq x (Some y) \<longleftrightarrow> x = Some y"
  by (auto simp: sql_eq_def)

lemma coalesce_None [simp]: "coalesce x None = x"
  by (cases x) (auto simp: coalesce_def)

lemma coalesce_eq_None [simp]: "coalesce x y = None \<longleftrightarrow> x = None \<and> y = None"
  by (cases x) (auto simp: coalesce_def)

lemma set_update_where [sql_simps]:
  "r' \<in> set (update_where P f rs) \<longleftrightarrow> (\<exists>r \<in> set rs. r' = (if P r then f r else r))"
  by (auto simp: update_where_def)

lemma update_where_cong:
  "(\<And>r. r \<in> set rs \<Longrightarrow> P r = Q r) \<Longrightarrow> update_where P f rs = update_where Q f rs"
  by (simp add: update_where_def)

lemma update_where_key:
  assumes "distinct (map key rs)" and "row \<in> set rs" and "key row = k" and "S row"
  shows "update_where (\<lambda>r. key r = k) f rs = update_where (\<lambda>r. key r = k \<and> S r) f rs"
proof (rule update_where_cong)
  fix r assume "r \<in> set rs"
  with assms have "key r = k \<Longrightarrow> r = row" by (metis distinct_map inj_onD)
  with assms show "(key r = k) = (key r = k \<and> S r)" by blast
qed

lemma list_all_update_where:
  "list_all Q rs \<Longrightarrow> (\<And>r. P r \<Longrightarrow> Q r \<Longrightarrow> Q (f r)) \<Longrightarrow> list_all Q (update_where P f rs)"
  by (auto simp: list_all_iff set_update_where)

lemma find_key_distinct:
  "distinct (map key rs) \<Longrightarrow> r \<in> set rs \<Longrightarrow> find (\<lambda>x. key x = key r) rs = Some r"
  by (induction rs) auto

lemma length_update_where [simp]: "length (update_where P f rs) = length rs"
  by (simp add: update_where_def)

lemma returning_Some [sql_simps]:
  "returning P f rs = Some r' \<longleftrightarrow> (\<exists>r. find P rs = Some r \<and> r' = f r)"
  by (auto simp: returning_def)

lemma find_Some_D: "find P rs = Some r \<Longrightarrow> r \<in> set rs \<and> P r"
  by (auto simp: find_Some_iff)

lemma find_None_D: "find P rs = None \<Longrightarrow> r \<in> set rs \<Longrightarrow> \<not> P r"
  by (auto simp: find_None_iff)

lemma filter_length_mono:
  "(\<And>r. r \<in> set rs \<Longrightarrow> Q (f r) \<Longrightarrow> P r) \<Longrightarrow> length (filter Q (map f rs)) \<le> length (filter P rs)"
  by (induction rs) auto

lemma distinct_map_inj: "distinct (map k rs) \<Longrightarrow> r \<in> set rs \<Longrightarrow> s \<in> set rs \<Longrightarrow> k r = k s \<Longrightarrow> r = s"
  by (metis distinct_map inj_onD)

subsection \<open>The contract of a conditional update\<close>

text \<open>
  Every store changes its rows by \<^verbatim>\<open>update ... where guard\<close> with a primary key the update
  never writes.  The locale is that contract; what every such update guarantees is proved in it
  once, and each store interprets it at its own updates.
\<close>

locale row_update =
  fixes key :: "'r \<Rightarrow> 'k"
    and guard :: "'r \<Rightarrow> bool"
    and upd :: "'r \<Rightarrow> 'r"
  assumes key_upd: "key (upd r) = key r"
begin

lemma keys: "map key (update_where guard upd rs) = map key rs"
  by (simp add: update_where_def key_upd comp_def)

lemma distinct_keys: "distinct (map key rs) \<Longrightarrow> distinct (map key (update_where guard upd rs))"
  by (simp only: keys)

lemma find_key:
  "find (\<lambda>r. key r = k) (update_where guard upd rs) =
     map_option (\<lambda>r. if guard r then upd r else r) (find (\<lambda>r. key r = k) rs)"
  by (induction rs) (auto simp: update_where_def key_upd)

lemma frame: "r \<in> set rs \<Longrightarrow> \<not> guard r \<Longrightarrow> r \<in> set (update_where guard upd rs)"
  by (force simp: set_update_where)

lemma evolve:
  assumes "\<And>r. R r r" and "\<And>r. r \<in> set rs \<Longrightarrow> guard r \<Longrightarrow> R r (upd r)"
  shows "list_all2 R rs (update_where guard upd rs)"
  using assms by (induction rs) (auto simp: update_where_def)

end

text \<open>
  An update that moves a status column does so along the edges of a transition relation, and an
  update that keeps a row property keeps it in the whole table.
\<close>

locale status_update = row_update key guard upd
  for key :: "'r \<Rightarrow> 'k" and guard :: "'r \<Rightarrow> bool" and upd :: "'r \<Rightarrow> 'r" +
  fixes status :: "'r \<Rightarrow> 's"
    and edge :: "'s \<Rightarrow> 's \<Rightarrow> bool"
    and ok :: "'r \<Rightarrow> bool"
  assumes edge_upd: "guard r \<Longrightarrow> edge (status r) (status (upd r))"
    and ok_upd: "guard r \<Longrightarrow> ok r \<Longrightarrow> ok (upd r)"
begin

lemma table_ok: "list_all ok rs \<Longrightarrow> list_all ok (update_where guard upd rs)"
  by (auto simp: list_all_iff set_update_where ok_upd)

lemma moves:
  "list_all2 (\<lambda>r r'. key r' = key r \<and> (status r' = status r \<or> edge (status r) (status r')))
     rs (update_where guard upd rs)"
  by (rule evolve) (auto simp: key_upd edge_upd)

lemma row_moves:
  assumes "r' \<in> set (update_where guard upd rs)"
  shows "\<exists>r \<in> set rs. key r' = key r \<and> (status r' = status r \<or> edge (status r) (status r'))"
  using assms by (auto simp: set_update_where key_upd intro!: edge_upd split: if_splits)

end

end
