(* ===== verification/Mailbox_Store.thy ===== *)
theory Mailbox_Store
  imports Prelude
begin

section \<open>The durable mailbox table (server/data/agent-mailbox-store.ts)\<close>

text \<open>
  The rows of \<open>agent_mailbox_items\<close> and \<open>agent_session_owners\<close> as lists of records, and
  every method of \<open>AgentMailboxStore\<close> as one action on them, with its guard from the
  \<open>where\<close> clause and its writes from the \<open>set\<close> clause.  \<open>now\<close> is the transaction
  timestamp of the statement, \<open>uuid\<close> the fresh value of \<open>randomUUID()\<close>, and \<open>locked\<close> says which
  rows another transaction holds (\<^verbatim>\<open>for update skip locked\<close>).  The table's check constraints
  are not enforced by the model: they are proved to hold.
\<close>

subsection \<open>Data\<close>

datatype mail_status =
    MAccepted | MCancelled | MCommitted | MDelivering | MFailed | MQueued | MSubmissionAmbiguous

text \<open>The literal unions of the payload; the last constructor is any value outside them.\<close>

datatype op_kind = Send | Steer | Edit | Respond | UnknownKind string

datatype exec_mode = Automation | Cautious | Standard | UnknownMode string

record operation_meta =
  op_beforeTurnId :: "string option"
  op_expectedTurnId :: "string option"
  op_kind :: op_kind
  op_operationId :: string
  op_consumptionGuard :: "string option"

record preferences =
  pf_executionMode :: exec_mode
  pf_modelId :: string
  pf_reasoning :: string

record input_response =
  ir_requestId :: string
  ir_optionId :: "string option"
  ir_text :: "string option"

record mail_payload =
  pl_clientContext :: "string list option"
  pl_operation :: "operation_meta option"
  pl_preferences :: "preferences option"
  pl_message :: "string option"
  pl_inputResponses :: "input_response list option"

record mail_row =
  mb_admissionStartedAt :: "int option"
  mb_acceptedAt :: "int option"
  mb_acceptedSessionId :: "string option"
  mb_attemptCount :: nat
  mb_availableAt :: int
  mb_claimExpiresAt :: "int option"
  mb_claimToken :: "string option"
  mb_clientMessageId :: string
  mb_committedAt :: "int option"
  mb_createdAt :: int
  mb_itemId :: string
  mb_lastError :: "string option"
  mb_payload :: mail_payload
  mb_payloadFingerprint :: string
  mb_principalId :: string
  mb_principalType :: string
  mb_issuer :: "string option"
  mb_sessionId :: string
  mb_status :: mail_status
  mb_tenantId :: string
  mb_updatedAt :: int

record session_owner =
  ow_issuer :: "string option"
  ow_principalId :: string
  ow_principalType :: string
  ow_tenantId :: string

record mail_db =
  db_owners :: "(string \<times> session_owner) list"
  db_items :: "mail_row list"

datatype enqueue_result =
    Created mail_row | Replay mail_row | Conflict mail_row
  | Forbidden | Full | MissingSession | UnsupportedEdit

record enqueue_input =
  en_clientMessageId :: string
  en_owner :: session_owner
  en_payload :: mail_payload
  en_payloadFingerprint :: string
  en_sessionId :: string

record consume_input =
  ce_beforeTurnId :: string
  ce_clientMessageId :: string
  ce_itemId :: string
  ce_owner :: session_owner
  ce_sessionId :: string

definition EDIT_ADMISSION_TIMEOUT_MS :: int where
  "EDIT_ADMISSION_TIMEOUT_MS = 120000"

definition EDIT_ADMISSION_EXPIRED :: string where
  "EDIT_ADMISSION_EXPIRED = ''edit_admission_expired''"

subsection \<open>Validation\<close>

definition assertText :: "string \<Rightarrow> string \<Rightarrow> nat \<Rightarrow> unit res" where
  "assertText v name maximum =
     assert_that (\<not> (js_trim v = [] \<or> length v > maximum))
       (Error (name @ '' must contain between 1 and '' @ show_nat maximum @ '' characters.''))"

lemma assertText_ok: "assertText v name maximum = Inr () \<longleftrightarrow> js_trim v \<noteq> [] \<and> length v \<le> maximum"
  by (auto simp: assertText_def)

definition assertOwner :: "session_owner \<Rightarrow> unit res" where
  "assertOwner ow = checks
     [assertText (ow_tenantId ow) ''tenantId'' 512,
      assertText (ow_principalId ow) ''principalId'' 512,
      assertText (ow_principalType ow) ''principalType'' 512]"

text \<open>\<^verbatim>\<open>isBoundedAgentClientContext\<close> of packages/agent-contracts/src/client-context.ts.\<close>

definition AGENT_CLIENT_CONTEXT_MAX_ENTRIES :: nat where
  "AGENT_CLIENT_CONTEXT_MAX_ENTRIES = 64"

definition AGENT_CLIENT_CONTEXT_MAX_BYTES :: nat where
  "AGENT_CLIENT_CONTEXT_MAX_BYTES = 20000 * 4"

fun utf8ByteLength :: "string \<Rightarrow> nat" where
  "utf8ByteLength [] = 0"
| "utf8ByteLength (c # cs) =
     (let cp = (of_char c :: nat)
      in (if cp \<le> 127 then 1 else if cp \<le> 2047 then 2 else if cp \<le> 65535 then 3 else 4)
         + utf8ByteLength cs)"

fun boundedEntries :: "nat \<Rightarrow> string list \<Rightarrow> bool" where
  "boundedEntries totalBytes [] = True"
| "boundedEntries totalBytes (e # es) =
     (if js_trim e = [] then False
      else let next = totalBytes + utf8ByteLength e
           in if next > AGENT_CLIENT_CONTEXT_MAX_BYTES then False else boundedEntries next es)"

definition isBoundedAgentClientContext :: "string list \<Rightarrow> bool" where
  "isBoundedAgentClientContext v \<longleftrightarrow>
     length v \<le> AGENT_CLIENT_CONTEXT_MAX_ENTRIES \<and> boundedEntries 0 v"

definition nonblank :: "string option \<Rightarrow> bool" where
  "nonblank s = (case s of None \<Rightarrow> False | Some t \<Rightarrow> js_trim t \<noteq> [])"

definition assertInputResponse :: "input_response \<Rightarrow> unit res" where
  "assertInputResponse r = checks
     [assertText (ir_requestId r) ''payload.inputResponses.requestId'' 512,
      assert_that (nonblank (ir_optionId r) \<or> nonblank (ir_text r))
        (Error ''An input response requires optionId or text.''),
      (case ir_optionId r of None \<Rightarrow> Inr () | Some v \<Rightarrow> assertText v ''payload.inputResponses.optionId'' 512),
      (case ir_text r of None \<Rightarrow> Inr () | Some v \<Rightarrow> assertText v ''payload.inputResponses.text'' 65536)]"

definition assertInputResponses :: "input_response list \<Rightarrow> unit res" where
  "assertInputResponses v = checks
     (assert_that (\<not> (length v < 1 \<or> length v > 16))
        (Error ''payload.inputResponses must contain between 1 and 16 responses.'')
      # map assertInputResponse v)"

definition is_unknown_kind :: "op_kind \<Rightarrow> bool" where
  "is_unknown_kind k = (case k of UnknownKind _ \<Rightarrow> True | _ \<Rightarrow> False)"

definition is_unknown_mode :: "exec_mode \<Rightarrow> bool" where
  "is_unknown_mode m = (case m of UnknownMode _ \<Rightarrow> True | _ \<Rightarrow> False)"

definition assertOperation :: "bool \<Rightarrow> operation_meta \<Rightarrow> unit res" where
  "assertOperation hasInputResponses opn = checks
     [assertText (op_operationId opn) ''payload.operation.operationId'' 200,
      assert_that (\<not> is_unknown_kind (op_kind opn)) (Error ''payload.operation.kind is invalid.''),
      (case truthy (op_expectedTurnId opn) of None \<Rightarrow> Inr ()
       | Some v \<Rightarrow> assertText v ''payload.operation.expectedTurnId'' 512),
      assert_that ((op_kind opn = Respond) = hasInputResponses)
        (Error ''payload.operation.kind must match the payload content.'')]"

definition assertPayload :: "mail_payload \<Rightarrow> unit res" where
  "assertPayload p =
     (let hasMessage = pl_message p \<noteq> None; hasInputResponses = pl_inputResponses p \<noteq> None
      in checks
       [assert_that (hasMessage \<noteq> hasInputResponses)
          (Error ''payload must contain exactly one message or inputResponses value.''),
        (case pl_message p of
           Some m \<Rightarrow> assertText m ''payload.message'' 65536
         | None \<Rightarrow> (case pl_inputResponses p of None \<Rightarrow> Inr () | Some rs \<Rightarrow> assertInputResponses rs)),
        (case pl_operation p of None \<Rightarrow> Inr () | Some opn \<Rightarrow> assertOperation hasInputResponses opn),
        (case pl_clientContext p of None \<Rightarrow> Inr ()
         | Some cc \<Rightarrow> assert_that (isBoundedAgentClientContext cc)
             (Error ''payload.clientContext exceeds the 20k-token transport budget.'')),
        (case pl_preferences p of None \<Rightarrow> Inr ()
         | Some pf \<Rightarrow> checks
             [assertText (pf_modelId pf) ''payload.preferences.modelId'' 200,
              assertText (pf_reasoning pf) ''payload.preferences.reasoning'' 100,
              assert_that (\<not> is_unknown_mode (pf_executionMode pf))
                (Error ''payload.preferences.executionMode is invalid.'')])])"

definition assertLease :: "int \<Rightarrow> unit res" where
  "assertLease leaseMs =
     assert_that (\<not> (leaseMs < 1000 \<or> leaseMs > 15 * 60000))
       (Error ''leaseMs must be an integer from 1000 to 900000.'')"

definition compactError :: "string option \<Rightarrow> string option" where
  "compactError v = truthy (map_option (\<lambda>s. take 2000 (js_trim s)) v)"

definition requireRow :: "'a option \<Rightarrow> 'a res" where
  "requireRow = require_row ''Agent mailbox persistence state changed unexpectedly.''"

definition toRecord :: "mail_row \<Rightarrow> mail_row" where
  "toRecord r = r\<lparr>
     mb_acceptedSessionId := truthy (mb_acceptedSessionId r),
     mb_claimToken := truthy (mb_claimToken r),
     mb_lastError := truthy (mb_lastError r),
     mb_issuer := truthy (mb_issuer r)\<rparr>"

subsection \<open>The JSON paths the queries read\<close>

definition json_kind :: "mail_row \<Rightarrow> op_kind option" where
  "json_kind r = map_option op_kind (pl_operation (mb_payload r))"

definition json_expectedTurnId :: "mail_row \<Rightarrow> string option" where
  "json_expectedTurnId r = Option.bind (pl_operation (mb_payload r)) op_expectedTurnId"

definition json_beforeTurnId :: "mail_row \<Rightarrow> string option" where
  "json_beforeTurnId r = Option.bind (pl_operation (mb_payload r)) op_beforeTurnId"

definition json_guard :: "mail_row \<Rightarrow> string option" where
  "json_guard r = Option.bind (pl_operation (mb_payload r)) op_consumptionGuard"

definition owned_by :: "session_owner \<Rightarrow> mail_row \<Rightarrow> bool" where
  "owned_by ow r \<longleftrightarrow> mb_tenantId r = ow_tenantId ow \<and> mb_principalId r = ow_principalId ow"

text \<open>A row that still counts against its session: \<^verbatim>\<open>status not in ('committed', 'cancelled')\<close>.\<close>

definition unsettled :: "mail_row \<Rightarrow> bool" where
  "unsettled r \<longleftrightarrow> mb_status r \<notin> {MCommitted, MCancelled}"

text \<open>The row order \<^verbatim>\<open>(created_at, item_id)\<close>.\<close>

definition created_before :: "mail_row \<Rightarrow> mail_row \<Rightarrow> bool" where
  "created_before a b \<longleftrightarrow> (mb_createdAt a, mb_itemId a) < (mb_createdAt b, mb_itemId b)"

subsection \<open>enqueue\<close>

definition new_row :: "string \<Rightarrow> int \<Rightarrow> enqueue_input \<Rightarrow> mail_row" where
  "new_row uuid now i = \<lparr>
     mb_admissionStartedAt = None, mb_acceptedAt = None, mb_acceptedSessionId = None,
     mb_attemptCount = 0, mb_availableAt = now, mb_claimExpiresAt = None, mb_claimToken = None,
     mb_clientMessageId = en_clientMessageId i, mb_committedAt = None, mb_createdAt = now,
     mb_itemId = ''mail_'' @ uuid, mb_lastError = None, mb_payload = en_payload i,
     mb_payloadFingerprint = en_payloadFingerprint i,
     mb_principalId = ow_principalId (en_owner i), mb_principalType = ow_principalType (en_owner i),
     mb_issuer = ow_issuer (en_owner i), mb_sessionId = en_sessionId i, mb_status = MQueued,
     mb_tenantId = ow_tenantId (en_owner i), mb_updatedAt = now\<rparr>"

definition same_client :: "enqueue_input \<Rightarrow> mail_row \<Rightarrow> bool" where
  "same_client i r \<longleftrightarrow> owned_by (en_owner i) r \<and> mb_clientMessageId r = en_clientMessageId i"

definition steers_target :: "enqueue_input \<Rightarrow> string option \<Rightarrow> mail_row \<Rightarrow> bool" where
  "steers_target i before r \<longleftrightarrow>
     mb_sessionId r = en_sessionId i \<and> owned_by (en_owner i) r \<and>
     json_kind r = Some Steer \<and> sql_eq (json_expectedTurnId r) before \<and>
     mb_status r \<notin> {MCancelled, MFailed}"

definition pending_count :: "string \<Rightarrow> mail_row list \<Rightarrow> nat" where
  "pending_count sid rs = length (filter (\<lambda>r. mb_sessionId r = sid \<and> unsettled r) rs)"

definition edit_is_unsupported :: "enqueue_input \<Rightarrow> mail_row list \<Rightarrow> bool" where
  "edit_is_unsupported i rs =
     (case pl_operation (en_payload i) of
        None \<Rightarrow> False
      | Some opn \<Rightarrow> op_kind opn = Edit \<and> (\<exists>r \<in> set rs. steers_target i (op_beforeTurnId opn) r))"

text \<open>
  The insert: a primary-key clash of the fresh id is a database error, and a clash of the unique
  key returns no row, which \<^verbatim>\<open>requireRow\<close> turns into an exception.
\<close>

definition insert_row :: "string \<Rightarrow> int \<Rightarrow> enqueue_input \<Rightarrow> (mail_db, enqueue_result) act" where
  "insert_row uuid now i db =
     (let row = new_row uuid now i
      in if \<exists>r \<in> set (db_items db). mb_itemId r = mb_itemId row
         then (Inl (Error ''duplicate key value violates unique constraint''), db)
         else if \<exists>r \<in> set (db_items db). same_client i r
         then lift_res (requireRow None) db
         else (Inr (Created (toRecord row)), db\<lparr>db_items := db_items db @ [row]\<rparr>))"

definition enqueue_tx :: "string \<Rightarrow> int \<Rightarrow> enqueue_input \<Rightarrow> (mail_db, enqueue_result) act" where
  "enqueue_tx uuid now i db =
     (case map_of (db_owners db) (en_sessionId i) of
        None \<Rightarrow> (Inr MissingSession, db)
      | Some ow \<Rightarrow>
          if ow_tenantId ow \<noteq> ow_tenantId (en_owner i) \<or> ow_principalId ow \<noteq> ow_principalId (en_owner i)
          then (Inr Forbidden, db)
          else (case find (same_client i) (db_items db) of
             Some row \<Rightarrow>
               let item = toRecord row
               in if mb_payloadFingerprint item = en_payloadFingerprint i \<and> mb_sessionId item = en_sessionId i
                  then (Inr (Replay item), db) else (Inr (Conflict item), db)
           | None \<Rightarrow>
               if edit_is_unsupported i (db_items db) then (Inr UnsupportedEdit, db)
               else if pending_count (en_sessionId i) (db_items db) \<ge> 5 then (Inr Full, db)
               else insert_row uuid now i db))"

definition enqueue :: "string \<Rightarrow> int \<Rightarrow> enqueue_input \<Rightarrow> (mail_db, enqueue_result) act" where
  "enqueue uuid now i =
     bind_act (lift_res (checks
       [assertOwner (en_owner i),
        assertText (en_sessionId i) ''sessionId'' 512,
        assertText (en_clientMessageId i) ''clientMessageId'' 200,
        assertText (en_payloadFingerprint i) ''payloadFingerprint'' 128,
        assertPayload (en_payload i)]))
     (\<lambda>_. transaction (enqueue_tx uuid now i))"

subsection \<open>claimNext\<close>

text \<open>Guarded edits whose admission window has passed are cancelled.\<close>

definition edit_expired :: "int \<Rightarrow> mail_row \<Rightarrow> bool" where
  "edit_expired now r \<longleftrightarrow>
     mb_status r \<in> {MDelivering, MAccepted, MSubmissionAmbiguous} \<and>
     json_guard r = Some ''edit-v1'' \<and>
     sql_before (mb_admissionStartedAt r) (now - EDIT_ADMISSION_TIMEOUT_MS)"

definition expire_edit :: "int \<Rightarrow> mail_row \<Rightarrow> mail_row" where
  "expire_edit now r = r\<lparr>mb_status := MCancelled, mb_claimToken := None, mb_claimExpiresAt := None,
     mb_lastError := Some EDIT_ADMISSION_EXPIRED, mb_updatedAt := now\<rparr>"

text \<open>Deliveries whose lease ran out after admission began are never replayed.\<close>

definition lease_lost :: "int \<Rightarrow> mail_row \<Rightarrow> bool" where
  "lease_lost now r \<longleftrightarrow>
     mb_status r = MDelivering \<and> sql_before (mb_claimExpiresAt r) now \<and> mb_admissionStartedAt r \<noteq> None"

definition lose_lease :: "int \<Rightarrow> mail_row \<Rightarrow> mail_row" where
  "lose_lease now r = r\<lparr>mb_status := MSubmissionAmbiguous, mb_claimToken := None, mb_claimExpiresAt := None,
     mb_lastError := Some ''The dispatcher lease expired after delivery admission began; automatic replay is disabled.'',
     mb_updatedAt := now\<rparr>"

definition claimable :: "int \<Rightarrow> mail_row \<Rightarrow> bool" where
  "claimable now r \<longleftrightarrow>
     (mb_status r = MQueued \<and> mb_availableAt r \<le> now) \<or>
     (mb_status r = MDelivering \<and> sql_before (mb_claimExpiresAt r) now \<and> mb_admissionStartedAt r = None)"

definition blocks :: "mail_row \<Rightarrow> mail_row \<Rightarrow> bool" where
  "blocks blocker item \<longleftrightarrow>
     mb_sessionId blocker = mb_sessionId item \<and> mb_itemId blocker \<noteq> mb_itemId item \<and>
     unsettled blocker \<and> created_before blocker item"

definition candidates :: "int \<Rightarrow> (string \<Rightarrow> bool) \<Rightarrow> mail_row list \<Rightarrow> mail_row list" where
  "candidates now locked rs =
     filter (\<lambda>r. claimable now r \<and> \<not> (\<exists>b \<in> set rs. blocks b r) \<and> \<not> locked (mb_itemId r)) rs"

definition claim_order :: "mail_row \<Rightarrow> int \<times> int \<times> string" where
  "claim_order r = (mb_availableAt r, mb_createdAt r, mb_itemId r)"

definition claim_row :: "string \<Rightarrow> int \<Rightarrow> int \<Rightarrow> mail_row \<Rightarrow> mail_row" where
  "claim_row token leaseMs now r = r\<lparr>mb_status := MDelivering, mb_claimToken := Some token,
     mb_claimExpiresAt := Some (now + leaseMs), mb_admissionStartedAt := None,
     mb_attemptCount := mb_attemptCount r + 1, mb_lastError := None, mb_updatedAt := now\<rparr>"

definition claim_candidate ::
  "string \<Rightarrow> int \<Rightarrow> int \<Rightarrow> (string \<Rightarrow> bool) \<Rightarrow> (mail_db, mail_row option) act" where
  "claim_candidate token leaseMs now locked db =
     (case candidates now locked (db_items db) of
        [] \<Rightarrow> (Inr None, db)
      | c # cs \<Rightarrow>
          let k = mb_itemId (arg_min_list claim_order (c # cs));
              P = (\<lambda>r. mb_itemId r = k)
          in (Inr (map_option toRecord (returning P (claim_row token leaseMs now) (db_items db))),
              db\<lparr>db_items := update_where P (claim_row token leaseMs now) (db_items db)\<rparr>))"

definition sweep :: "int \<Rightarrow> mail_row list \<Rightarrow> mail_row list" where
  "sweep now rs = update_where (lease_lost now) (lose_lease now)
     (update_where (edit_expired now) (expire_edit now) rs)"

definition claimNext ::
  "string \<Rightarrow> int option \<Rightarrow> int \<Rightarrow> (string \<Rightarrow> bool) \<Rightarrow> (mail_db, mail_row option) act" where
  "claimNext uuid options_leaseMs now locked =
     (let leaseMs = (case options_leaseMs of None \<Rightarrow> 60000 | Some l \<Rightarrow> l)
      in bind_act (lift_res (assertLease leaseMs))
        (\<lambda>_ db. claim_candidate uuid leaseMs now locked (db\<lparr>db_items := sweep now (db_items db)\<rparr>)))"

subsection \<open>Admission, deferral, acceptance, commit\<close>

text \<open>One \<^verbatim>\<open>update ... returning\<close> of the table, as a method that requires its row.\<close>

definition update_items ::
  "(mail_row \<Rightarrow> bool) \<Rightarrow> (mail_row \<Rightarrow> mail_row) \<Rightarrow> (mail_db, mail_row option) act" where
  "update_items P f db =
     (Inr (map_option toRecord (returning P f (db_items db))),
      db\<lparr>db_items := update_where P f (db_items db)\<rparr>)"

definition update_required ::
  "(mail_row \<Rightarrow> bool) \<Rightarrow> (mail_row \<Rightarrow> mail_row) \<Rightarrow> (mail_db, mail_row) act" where
  "update_required P f = bind_act (update_items P f) (\<lambda>r. lift_res (requireRow r))"

definition admission_open :: "string \<Rightarrow> string \<Rightarrow> int \<Rightarrow> mail_row \<Rightarrow> bool" where
  "admission_open k token now r \<longleftrightarrow>
     mb_itemId r = k \<and> mb_status r = MDelivering \<and> mb_claimToken r = Some token \<and>
     mb_admissionStartedAt r = None \<and> sql_at_least (mb_claimExpiresAt r) now"

definition guard_payload :: "mail_payload \<Rightarrow> mail_payload" where
  "guard_payload p = p\<lparr>pl_operation := map_option (\<lambda>opn. opn\<lparr>op_consumptionGuard := Some ''edit-v1''\<rparr>) (pl_operation p)\<rparr>"

definition open_admission :: "bool \<Rightarrow> int \<Rightarrow> mail_row \<Rightarrow> mail_row" where
  "open_admission guardEdit now r = r\<lparr>mb_admissionStartedAt := Some now, mb_updatedAt := now,
     mb_payload := (if guardEdit \<and> json_kind r = Some Edit then guard_payload (mb_payload r) else mb_payload r)\<rparr>"

definition beginAdmission :: "string \<Rightarrow> string \<Rightarrow> bool \<Rightarrow> int \<Rightarrow> (mail_db, mail_row) act" where
  "beginAdmission k token guardEdit now =
     bind_act (lift_res (checks [assertText k ''itemId'' 512, assertText token ''claimToken'' 512]))
     (\<lambda>_. update_required (admission_open k token now) (open_admission guardEdit now))"

definition consume_target :: "consume_input \<Rightarrow> mail_row \<Rightarrow> bool" where
  "consume_target i r \<longleftrightarrow>
     mb_itemId r = ce_itemId i \<and> mb_sessionId r = ce_sessionId i \<and>
     mb_clientMessageId r = ce_clientMessageId i \<and> owned_by (ce_owner i) r \<and>
     json_kind r = Some Edit \<and> json_beforeTurnId r = Some (ce_beforeTurnId i)"

definition commit_consumed :: "string \<Rightarrow> int \<Rightarrow> mail_row \<Rightarrow> mail_row" where
  "commit_consumed sid now r = r\<lparr>mb_status := MCommitted, mb_acceptedSessionId := Some sid,
     mb_acceptedAt := coalesce (mb_acceptedAt r) (Some now),
     mb_committedAt := coalesce (mb_committedAt r) (Some now),
     mb_claimToken := None, mb_claimExpiresAt := None, mb_updatedAt := now\<rparr>"

definition consume_tx :: "consume_input \<Rightarrow> int \<Rightarrow> (mail_db, bool) act" where
  "consume_tx i now db =
     (case find (consume_target i) (db_items db) of
        None \<Rightarrow> (Inr False, db)
      | Some row \<Rightarrow>
          let item = toRecord row
          in if json_guard item \<noteq> Some ''edit-v1'' then (Inr True, db)
             else if mb_status item \<notin> {MDelivering, MAccepted, MSubmissionAmbiguous, MCommitted} then (Inr False, db)
             else (Inr True, db\<lparr>db_items :=
                     update_where (\<lambda>r. mb_itemId r = ce_itemId i) (commit_consumed (ce_sessionId i) now) (db_items db)\<rparr>))"

definition consumeEdit :: "consume_input \<Rightarrow> int \<Rightarrow> (mail_db, bool) act" where
  "consumeEdit i now =
     bind_act (lift_res (assertOwner (ce_owner i))) (\<lambda>_. transaction (consume_tx i now))"

definition held_unadmitted :: "string \<Rightarrow> string \<Rightarrow> mail_row \<Rightarrow> bool" where
  "held_unadmitted k token r \<longleftrightarrow>
     mb_itemId r = k \<and> mb_status r = MDelivering \<and> mb_claimToken r = Some token \<and> mb_admissionStartedAt r = None"

definition held :: "string \<Rightarrow> string \<Rightarrow> mail_row \<Rightarrow> bool" where
  "held k token r \<longleftrightarrow> mb_itemId r = k \<and> mb_status r = MDelivering \<and> mb_claimToken r = Some token"

definition requeue :: "int \<Rightarrow> string option \<Rightarrow> int \<Rightarrow> mail_row \<Rightarrow> mail_row" where
  "requeue availableAt reason now r = r\<lparr>mb_status := MQueued, mb_claimToken := None, mb_claimExpiresAt := None,
     mb_admissionStartedAt := None, mb_availableAt := availableAt, mb_lastError := compactError reason,
     mb_updatedAt := now\<rparr>"

definition defer_item :: "string \<Rightarrow> string \<Rightarrow> int \<Rightarrow> string option \<Rightarrow> int \<Rightarrow> (mail_db, mail_row) act" where
  "defer_item k token availableAt reason now =
     bind_act (lift_res (checks [assertText k ''itemId'' 512, assertText token ''claimToken'' 512]))
     (\<lambda>_. update_required (held_unadmitted k token) (requeue availableAt reason now))"

definition deferRejectedAdmission ::
  "string \<Rightarrow> string \<Rightarrow> int \<Rightarrow> string option \<Rightarrow> int \<Rightarrow> (mail_db, mail_row) act" where
  "deferRejectedAdmission k token availableAt reason now =
     bind_act (lift_res (checks [assertText k ''itemId'' 512, assertText token ''claimToken'' 512]))
     (\<lambda>_. update_required (held k token) (requeue availableAt reason now))"

definition claimed_write ::
  "mail_status \<Rightarrow> string option \<Rightarrow> string option \<Rightarrow> int \<Rightarrow> mail_row \<Rightarrow> mail_row" where
  "claimed_write status sid err now r = r\<lparr>mb_status := status, mb_claimToken := None, mb_claimExpiresAt := None,
     mb_admissionStartedAt := mb_admissionStartedAt r,
     mb_acceptedSessionId := coalesce sid (mb_acceptedSessionId r),
     mb_acceptedAt := (if status = MAccepted then Some now else mb_acceptedAt r),
     mb_lastError := err, mb_updatedAt := now\<rparr>"

definition claimedTransition ::
  "string \<Rightarrow> string \<Rightarrow> mail_status \<Rightarrow> string option \<Rightarrow> string option \<Rightarrow> bool \<Rightarrow> int
     \<Rightarrow> (mail_db, mail_row option) act" where
  "claimedTransition k token status sid err required now =
     bind_act (lift_res (checks [assertText k ''itemId'' 512, assertText token ''claimToken'' 512]))
     (\<lambda>_. bind_act (update_items (held k token) (claimed_write status sid err now))
       (\<lambda>r. case r of
          None \<Rightarrow> if required then bind_act (lift_res (requireRow None)) (\<lambda>x. ret (Some x)) else ret None
        | Some item \<Rightarrow> ret (Some item)))"

definition accept :: "string \<Rightarrow> string \<Rightarrow> string \<Rightarrow> int \<Rightarrow> (mail_db, mail_row) act" where
  "accept k token sid now =
     bind_act (lift_res (assertText sid ''acceptedSessionId'' 512))
     (\<lambda>_. bind_act (claimedTransition k token MAccepted (Some sid) None False now)
       (\<lambda>accepted. case accepted of
          Some item \<Rightarrow> ret item
        | None \<Rightarrow> (\<lambda>db. lift_res (requireRow (map_option toRecord
            (find (\<lambda>r. mb_itemId r = k \<and> mb_status r = MCommitted \<and> mb_acceptedSessionId r = Some sid)
               (db_items db)))) db)))"

definition committable :: "string \<Rightarrow> string \<Rightarrow> mail_row \<Rightarrow> bool" where
  "committable k sid r \<longleftrightarrow> mb_itemId r = k \<and>
     mb_status r \<in> {MDelivering, MAccepted, MSubmissionAmbiguous, MCommitted} \<and>
     (mb_acceptedSessionId r = None \<or> mb_acceptedSessionId r = Some sid)"

definition commit_write :: "string \<Rightarrow> int \<Rightarrow> mail_row \<Rightarrow> mail_row" where
  "commit_write sid now r = r\<lparr>mb_status := MCommitted,
     mb_acceptedSessionId := coalesce (mb_acceptedSessionId r) (Some sid),
     mb_acceptedAt := coalesce (mb_acceptedAt r) (Some now),
     mb_committedAt := coalesce (mb_committedAt r) (Some now),
     mb_claimToken := None, mb_claimExpiresAt := None, mb_updatedAt := now\<rparr>"

definition commit :: "string \<Rightarrow> string \<Rightarrow> int \<Rightarrow> (mail_db, mail_row) act" where
  "commit k sid now =
     bind_act (lift_res (checks [assertText k ''itemId'' 512, assertText sid ''acceptedSessionId'' 512]))
     (\<lambda>_. update_required (committable k sid) (commit_write sid now))"

definition default_error :: "string \<Rightarrow> string \<Rightarrow> string" where
  "default_error message fallback = (case compactError (Some message) of None \<Rightarrow> fallback | Some m \<Rightarrow> m)"

definition fail_item :: "string \<Rightarrow> string \<Rightarrow> string \<Rightarrow> int \<Rightarrow> (mail_db, mail_row) act" where
  "fail_item k token message now =
     bind_act (claimedTransition k token MFailed None
       (Some (default_error message ''Mailbox delivery failed.'')) True now)
     (\<lambda>r. lift_res (requireRow r))"

definition markSubmissionAmbiguous :: "string \<Rightarrow> string \<Rightarrow> string \<Rightarrow> int \<Rightarrow> (mail_db, mail_row) act" where
  "markSubmissionAmbiguous k token message now =
     bind_act (claimedTransition k token MSubmissionAmbiguous None
       (Some (default_error message ''Mailbox admission is ambiguous.'')) True now)
     (\<lambda>r. lift_res (requireRow r))"

subsection \<open>The owner's methods\<close>

definition findOwned :: "session_owner \<Rightarrow> string \<Rightarrow> (mail_db, mail_row option) act" where
  "findOwned ow k =
     bind_act (lift_res (checks [assertOwner ow, assertText k ''itemId'' 512]))
     (\<lambda>_ db. (Inr (map_option toRecord (find (\<lambda>r. mb_itemId r = k \<and> owned_by ow r) (db_items db))), db))"

definition cancellable :: "session_owner \<Rightarrow> string \<Rightarrow> mail_row \<Rightarrow> bool" where
  "cancellable ow k r \<longleftrightarrow> mb_itemId r = k \<and> owned_by ow r \<and>
     (mb_status r \<in> {MQueued, MFailed} \<or> (mb_status r = MDelivering \<and> mb_admissionStartedAt r = None))"

definition cancel_write :: "int \<Rightarrow> mail_row \<Rightarrow> mail_row" where
  "cancel_write now r = r\<lparr>mb_status := MCancelled, mb_claimToken := None, mb_claimExpiresAt := None,
     mb_admissionStartedAt := None, mb_lastError := None, mb_updatedAt := now\<rparr>"

definition cancelOwned :: "session_owner \<Rightarrow> string \<Rightarrow> int \<Rightarrow> (mail_db, mail_row option) act" where
  "cancelOwned ow k now =
     bind_act (lift_res (checks [assertOwner ow, assertText k ''itemId'' 512]))
     (\<lambda>_. update_items (cancellable ow k) (cancel_write now))"

definition retryable :: "session_owner \<Rightarrow> string \<Rightarrow> mail_row \<Rightarrow> bool" where
  "retryable ow k r \<longleftrightarrow> mb_itemId r = k \<and> owned_by ow r \<and> mb_status r = MFailed"

definition retry_write :: "int \<Rightarrow> mail_row \<Rightarrow> mail_row" where
  "retry_write now r = r\<lparr>mb_status := MQueued, mb_availableAt := now, mb_lastError := None,
     mb_admissionStartedAt := None, mb_updatedAt := now\<rparr>"

definition retryOwned :: "session_owner \<Rightarrow> string \<Rightarrow> int \<Rightarrow> (mail_db, mail_row option) act" where
  "retryOwned ow k now =
     bind_act (lift_res (checks [assertOwner ow, assertText k ''itemId'' 512]))
     (\<lambda>_. update_items (retryable ow k) (retry_write now))"

subsection \<open>Session ownership (server/data/session-ownership-store.ts)\<close>

datatype ownership = OwnForbidden | OwnMissing | Owned

definition issuer_text :: "session_owner \<Rightarrow> string" where
  "issuer_text ow = (case ow_issuer ow of None \<Rightarrow> [] | Some i \<Rightarrow> i)"

definition verifyOwnership :: "string \<Rightarrow> session_owner \<Rightarrow> (mail_db, ownership) act" where
  "verifyOwnership sid ow db =
     (case map_of (db_owners db) sid of
        None \<Rightarrow> (Inr OwnMissing, db)
      | Some cur \<Rightarrow>
          (Inr (if ow_tenantId cur = ow_tenantId ow \<and> ow_principalId cur = ow_principalId ow \<and>
                   ow_principalType cur = ow_principalType ow \<and> issuer_text cur = issuer_text ow
                then Owned else OwnForbidden), db))"

definition insert_owner :: "string \<Rightarrow> session_owner \<Rightarrow> mail_db \<Rightarrow> mail_db" where
  "insert_owner sid ow db =
     (if map_of (db_owners db) sid = None then db\<lparr>db_owners := (sid, ow) # db_owners db\<rparr> else db)"

definition claimOwnership :: "string \<Rightarrow> session_owner \<Rightarrow> (mail_db, unit) act" where
  "claimOwnership sid ow =
     bind_act (lift_res (checks [assertText sid ''sessionId'' 512, assertOwner ow]))
     (\<lambda>_ db. bind_act (verifyOwnership sid ow)
        (\<lambda>o'. if o' = Owned then ret ()
              else throw (Error ''The Eve session is already owned by another authenticated principal.''))
        (insert_owner sid ow db))"

end
