(* ===== verification/Mailbox_Invariant.thy ===== *)
theory Mailbox_Invariant
  imports Mailbox_Store
begin

section \<open>What every mailbox method keeps\<close>

text \<open>
  The methods of the store as commands, the states they reach, and the invariants: the check
  constraints of the table, the two unique keys, the five-item bound per session, the status
  graph, and - for commands issued with a forward clock - the FIFO head.
\<close>

subsection \<open>Rows\<close>

text \<open>The columns no method writes after the insert.\<close>

definition mail_ident :: "mail_row \<Rightarrow> string \<times> string \<times> string \<times> string \<times> string \<times> int \<times> string" where
  "mail_ident r = (mb_itemId r, mb_tenantId r, mb_principalId r, mb_clientMessageId r,
     mb_sessionId r, mb_createdAt r, mb_payloadFingerprint r)"

definition client_key :: "mail_row \<Rightarrow> string \<times> string \<times> string" where
  "client_key r = (mb_tenantId r, mb_principalId r, mb_clientMessageId r)"

text \<open>The edges along which the store moves a row.\<close>

fun mail_edge :: "mail_status \<Rightarrow> mail_status \<Rightarrow> bool" where
  "mail_edge MQueued t = (t \<in> {MDelivering, MCancelled})"
| "mail_edge MDelivering t = (t \<in> {MDelivering, MQueued, MAccepted, MFailed, MSubmissionAmbiguous, MCommitted, MCancelled})"
| "mail_edge MAccepted t = (t \<in> {MCommitted, MCancelled})"
| "mail_edge MSubmissionAmbiguous t = (t \<in> {MCommitted, MCancelled})"
| "mail_edge MFailed t = (t \<in> {MQueued, MCancelled})"
| "mail_edge MCommitted t = (t = MCommitted)"
| "mail_edge MCancelled t = False"

text \<open>The check constraint \<^verbatim>\<open>agent_mailbox_claim\<close> and what the status says of the other columns.\<close>

definition row_ok :: "mail_row \<Rightarrow> bool" where
  "row_ok r \<longleftrightarrow>
     (if mb_status r = MDelivering
      then mb_claimToken r \<noteq> None \<and> mb_claimExpiresAt r \<noteq> None \<and> 0 < mb_attemptCount r
      else mb_claimToken r = None \<and> mb_claimExpiresAt r = None) \<and>
     (mb_status r = MQueued \<longrightarrow> mb_admissionStartedAt r = None) \<and>
     (mb_status r \<in> {MAccepted, MCommitted} \<longrightarrow> mb_acceptedSessionId r \<noteq> None \<and> mb_acceptedAt r \<noteq> None) \<and>
     (mb_status r = MCommitted \<longrightarrow> mb_committedAt r \<noteq> None)"

lemma edge_unsettled: "mail_edge s t \<Longrightarrow> t \<notin> {MCommitted, MCancelled} \<Longrightarrow> s \<notin> {MCommitted, MCancelled}"
  by (cases s) auto

subsection \<open>The table invariant\<close>

definition owners_ok :: "mail_db \<Rightarrow> bool" where
  "owners_ok db \<longleftrightarrow> (\<forall>r \<in> set (db_items db). \<exists>ow. map_of (db_owners db) (mb_sessionId r) = Some ow \<and>
     ow_tenantId ow = mb_tenantId r \<and> ow_principalId ow = mb_principalId r)"

definition db_ok :: "mail_db \<Rightarrow> bool" where
  "db_ok db \<longleftrightarrow>
     distinct (map mb_itemId (db_items db)) \<and> distinct (map client_key (db_items db)) \<and>
     list_all row_ok (db_items db) \<and> owners_ok db \<and>
     (\<forall>sid. pending_count sid (db_items db) \<le> 5)"

text \<open>The item being delivered has no unsettled predecessor in its session.\<close>

definition head_ok :: "mail_db \<Rightarrow> bool" where
  "head_ok db \<longleftrightarrow> (\<forall>r \<in> set (db_items db). mb_status r = MDelivering \<longrightarrow>
     (\<forall>b \<in> set (db_items db). \<not> blocks b r))"

lemma db_ok_distinct: "db_ok db \<Longrightarrow> distinct (map mb_itemId (db_items db))"
  by (simp add: db_ok_def)

lemma ident_maps:
  assumes "map mail_ident rs' = map mail_ident rs"
  shows "map mb_itemId rs' = map mb_itemId rs" and "map client_key rs' = map client_key rs"
    and "map (\<lambda>r. (mb_sessionId r, mb_tenantId r, mb_principalId r)) rs' =
         map (\<lambda>r. (mb_sessionId r, mb_tenantId r, mb_principalId r)) rs"
  using assms by (auto simp: mail_ident_def client_key_def list_eq_iff_nth_eq)

lemma owners_ok_ident:
  assumes "owners_ok db" and "map mail_ident rs' = map mail_ident (db_items db)"
  shows "owners_ok (db\<lparr>db_items := rs'\<rparr>)"
  unfolding owners_ok_def
proof
  fix r assume "r \<in> set (db_items (db\<lparr>db_items := rs'\<rparr>))"
  then have "mail_ident r \<in> set (map mail_ident rs')" by simp
  with assms(2) obtain r0 where "r0 \<in> set (db_items db)" and "mail_ident r = mail_ident r0" by auto
  with assms(1) show "\<exists>ow. map_of (db_owners (db\<lparr>db_items := rs'\<rparr>)) (mb_sessionId r) = Some ow \<and>
     ow_tenantId ow = mb_tenantId r \<and> ow_principalId ow = mb_principalId r"
    by (auto simp: owners_ok_def mail_ident_def)
qed

lemma blocks_ident:
  "mail_ident b' = mail_ident b \<Longrightarrow> mail_ident r' = mail_ident r \<Longrightarrow> (unsettled b' \<Longrightarrow> unsettled b) \<Longrightarrow>
   blocks b' r' \<Longrightarrow> blocks b r"
  by (auto simp: mail_ident_def blocks_def created_before_def)

subsection \<open>The shared contract of the mailbox updates\<close>

locale mail_update = status_update mail_ident guard upd mb_status mail_edge row_ok
  for guard :: "mail_row \<Rightarrow> bool" and upd :: "mail_row \<Rightarrow> mail_row"
begin

lemma pending_le: "pending_count sid (update_where guard upd rs) \<le> pending_count sid rs"
  unfolding pending_count_def update_where_def
proof (rule filter_length_mono)
  fix r assume u: "mb_sessionId (if guard r then upd r else r) = sid \<and> unsettled (if guard r then upd r else r)"
  show "mb_sessionId r = sid \<and> unsettled r"
  proof (cases "guard r")
    case True
    with u have "mb_sessionId (upd r) = sid" and "unsettled (upd r)" by simp_all
    moreover from key_upd have "mb_sessionId (upd r) = mb_sessionId r" by (simp add: mail_ident_def)
    moreover from edge_upd [OF True] edge_unsettled have "unsettled (upd r) \<Longrightarrow> unsettled r"
      by (auto simp: unsettled_def)
    ultimately show ?thesis by simp
  next
    case False
    with u show ?thesis by simp
  qed
qed

lemma db_ok_update:
  assumes "db_ok db"
  shows "db_ok (db\<lparr>db_items := update_where guard upd (db_items db)\<rparr>)"
proof -
  let ?rs = "update_where guard upd (db_items db)"
  have "map mb_itemId ?rs = map mb_itemId (db_items db)" by (rule ident_maps [OF keys])
  moreover have "map client_key ?rs = map client_key (db_items db)" by (rule ident_maps [OF keys])
  moreover have "owners_ok (db\<lparr>db_items := ?rs\<rparr>)"
    using assms keys by (auto simp: db_ok_def intro: owners_ok_ident)
  moreover have "list_all row_ok ?rs" using assms by (auto simp: db_ok_def intro: table_ok)
  moreover have "pending_count sid ?rs \<le> 5" for sid
    using assms pending_le [of sid "db_items db"] by (auto simp: db_ok_def intro: order_trans)
  ultimately show ?thesis using assms by (simp add: db_ok_def)
qed

lemma keeps_update_items: "keeps db_ok (update_items guard upd)"
  by (simp add: keeps_def update_items_def db_ok_update)

lemma keeps_update_required: "keeps db_ok (update_required guard upd)"
  unfolding update_required_def by (intro keeps_bind keeps_update_items keeps_lift)

lemma unsettled_back:
  assumes "unsettled (if guard r then upd r else r)"
  shows "unsettled r"
  using assms edge_upd [of r] edge_unsettled by (auto simp: unsettled_def split: if_splits)

lemma ident_if: "mail_ident (if guard r then upd r else r) = mail_ident r"
  by (simp add: key_upd)

end

text \<open>An update that starts no delivery keeps the FIFO head as well.\<close>

locale quiet_update = mail_update +
  assumes quiet: "guard r \<Longrightarrow> mb_status (upd r) = MDelivering \<Longrightarrow> mb_status r = MDelivering"
begin

lemma head_ok_update:
  assumes "head_ok db"
  shows "head_ok (db\<lparr>db_items := update_where guard upd (db_items db)\<rparr>)"
  unfolding head_ok_def
proof (intro ballI impI notI)
  fix r' b' assume "r' \<in> set (db_items (db\<lparr>db_items := update_where guard upd (db_items db)\<rparr>))"
    and d: "mb_status r' = MDelivering"
    and "b' \<in> set (db_items (db\<lparr>db_items := update_where guard upd (db_items db)\<rparr>))" and bl: "blocks b' r'"
  then obtain r b where r: "r \<in> set (db_items db)" "r' = (if guard r then upd r else r)"
    and b: "b \<in> set (db_items db)" "b' = (if guard b then upd b else b)"
    by (auto simp: set_update_where)
  from bl have "unsettled b'" by (simp add: blocks_def)
  then have u: "unsettled b" unfolding b(2) by (rule unsettled_back)
  have "mail_ident b' = mail_ident b" and "mail_ident r' = mail_ident r"
    unfolding b(2) r(2) by (rule ident_if)+
  with u bl have "blocks b r" by (blast intro: blocks_ident)
  moreover have "mb_status r = MDelivering"
    using d unfolding r(2) by (cases "guard r") (simp_all, metis quiet)
  ultimately show False using assms r(1) b(1) by (auto simp: head_ok_def)
qed

lemma head_update_items: "keeps head_ok (update_items guard upd)"
  by (simp add: keeps_def update_items_def head_ok_update)

lemma head_update_required: "keeps head_ok (update_required guard upd)"
  unfolding update_required_def by (intro keeps_bind head_update_items keeps_lift)

end

subsection \<open>Every update of the store meets the contract\<close>

lemmas write_defs = expire_edit_def lose_lease_def claim_row_def open_admission_def commit_consumed_def
  requeue_def claimed_write_def commit_write_def cancel_write_def retry_write_def

lemmas guard_defs = edit_expired_def lease_lost_def claimable_def admission_open_def held_unadmitted_def
  held_def committable_def cancellable_def retryable_def

interpretation expire: quiet_update "edit_expired now" "expire_edit now" for now
  by unfold_locales (auto simp: write_defs guard_defs mail_ident_def row_ok_def)

interpretation lose: quiet_update "lease_lost now" "lose_lease now" for now
  by unfold_locales (auto simp: write_defs guard_defs mail_ident_def row_ok_def)

interpretation claim: mail_update "\<lambda>r. mb_itemId r = k \<and> claimable now r" "claim_row token leaseMs now"
  for k now token leaseMs
  by unfold_locales (auto simp: write_defs guard_defs mail_ident_def row_ok_def)

interpretation admit: quiet_update "admission_open k token now" "open_admission g now" for k token g now
  by unfold_locales (auto simp: write_defs guard_defs mail_ident_def row_ok_def)

interpretation consume: quiet_update
  "\<lambda>r. mb_itemId r = k \<and> mb_status r \<in> {MDelivering, MAccepted, MSubmissionAmbiguous, MCommitted}"
  "commit_consumed sid now" for k sid now
  by unfold_locales (auto simp: write_defs guard_defs mail_ident_def row_ok_def)

interpretation deferral: quiet_update "held_unadmitted k token" "requeue avail reason now" for k token avail reason now
  by unfold_locales (auto simp: write_defs guard_defs mail_ident_def row_ok_def)

interpretation reject: quiet_update "held k token" "requeue avail reason now" for k token avail reason now
  by unfold_locales (auto simp: write_defs guard_defs mail_ident_def row_ok_def)

interpretation accepted: quiet_update "held k token" "claimed_write MAccepted (Some sid) err now"
  for k token sid err now
  by unfold_locales (auto simp: write_defs guard_defs mail_ident_def row_ok_def coalesce_def)

interpretation failed: quiet_update "held k token" "claimed_write MFailed None err now" for k token err now
  by unfold_locales (auto simp: write_defs guard_defs mail_ident_def row_ok_def)

interpretation ambiguous: quiet_update "held k token" "claimed_write MSubmissionAmbiguous None err now"
  for k token err now
  by unfold_locales (auto simp: write_defs guard_defs mail_ident_def row_ok_def)

interpretation committed: quiet_update "committable k sid" "commit_write sid now" for k sid now
  by unfold_locales (auto simp: write_defs guard_defs mail_ident_def row_ok_def)

interpretation cancel: quiet_update "cancellable ow k" "cancel_write now" for ow k now
  by unfold_locales (auto simp: write_defs guard_defs mail_ident_def row_ok_def)

interpretation retry: quiet_update "retryable ow k" "retry_write now" for ow k now
  by unfold_locales (auto simp: write_defs guard_defs mail_ident_def row_ok_def)

end
