(* ===== verification/Mailbox_Runs.thy ===== *)
theory Mailbox_Runs
  imports Mailbox_Invariant
begin

section \<open>Runs of the mailbox store\<close>

text \<open>
  A run is any sequence of store methods, called by any number of web and dispatcher processes
  with any arguments and clocks; a call that throws leaves the state its transaction leaves.
\<close>

datatype mail_cmd =
    COwner string session_owner
  | CEnqueue string int enqueue_input
  | CClaim string "int option" int "string \<Rightarrow> bool"
  | CBegin string string bool int
  | CConsume consume_input int
  | CDefer string string int "string option" int
  | CDeferRejected string string int "string option" int
  | CAccept string string string int
  | CCommit string string int
  | CFail string string string int
  | CAmbiguous string string string int
  | CCancel session_owner string int
  | CRetry session_owner string int

fun exec_cmd :: "mail_cmd \<Rightarrow> mail_db \<Rightarrow> mail_db" where
  "exec_cmd (COwner sid ow) db = snd (claimOwnership sid ow db)"
| "exec_cmd (CEnqueue uuid now i) db = snd (enqueue uuid now i db)"
| "exec_cmd (CClaim uuid l now locked) db = snd (claimNext uuid l now locked db)"
| "exec_cmd (CBegin k t g now) db = snd (beginAdmission k t g now db)"
| "exec_cmd (CConsume i now) db = snd (consumeEdit i now db)"
| "exec_cmd (CDefer k t a rs now) db = snd (defer_item k t a rs now db)"
| "exec_cmd (CDeferRejected k t a rs now) db = snd (deferRejectedAdmission k t a rs now db)"
| "exec_cmd (CAccept k t sid now) db = snd (accept k t sid now db)"
| "exec_cmd (CCommit k sid now) db = snd (commit k sid now db)"
| "exec_cmd (CFail k t m now) db = snd (fail_item k t m now db)"
| "exec_cmd (CAmbiguous k t m now) db = snd (markSubmissionAmbiguous k t m now db)"
| "exec_cmd (CCancel ow k now) db = snd (cancelOwned ow k now db)"
| "exec_cmd (CRetry ow k now) db = snd (retryOwned ow k now db)"

definition run_cmds :: "mail_cmd list \<Rightarrow> mail_db \<Rightarrow> mail_db" where
  "run_cmds cs db = fold exec_cmd cs db"

definition empty_db :: mail_db where
  "empty_db = \<lparr>db_owners = [], db_items = []\<rparr>"

lemma run_cmds_simps [simp]:
  "run_cmds [] db = db" "run_cmds (c # cs) db = run_cmds cs (exec_cmd c db)"
  "run_cmds (as @ bs) db = run_cmds bs (run_cmds as db)"
  by (simp_all add: run_cmds_def)

subsection \<open>The claimed row\<close>

lemma candidatesD:
  "r \<in> set (candidates now locked rs) \<Longrightarrow>
     r \<in> set rs \<and> claimable now r \<and> (\<forall>b \<in> set rs. \<not> blocks b r) \<and> \<not> locked (mb_itemId r)"
  by (auto simp: candidates_def)

lemma claim_candidate_cases:
  assumes "distinct (map mb_itemId (db_items db))"
  obtains "claim_candidate token leaseMs now locked db = (Inr None, db)"
  | t where "t \<in> set (db_items db)" "claimable now t" "\<forall>b \<in> set (db_items db). \<not> blocks b t"
      "\<not> locked (mb_itemId t)"
      "\<forall>c \<in> set (candidates now locked (db_items db)). claim_order t \<le> claim_order c"
      "claim_candidate token leaseMs now locked db =
         (Inr (Some (toRecord (claim_row token leaseMs now t))),
          db\<lparr>db_items := update_where (\<lambda>r. mb_itemId r = mb_itemId t \<and> claimable now r)
               (claim_row token leaseMs now) (db_items db)\<rparr>)"
proof (cases "candidates now locked (db_items db)")
  case Nil
  with that(1) show ?thesis by (simp add: claim_candidate_def)
next
  case (Cons c cs)
  let ?t = "arg_min_list claim_order (c # cs)"
  have "?t \<in> set (candidates now locked (db_items db))"
    using Cons arg_min_list_in [of "c # cs" claim_order] by simp
  note t = candidatesD [OF this]
  have "\<forall>x \<in> set (c # cs). claim_order ?t \<le> claim_order x"
    by (metis f_arg_min_list_f finite_imageI finite_set image_eqI list.distinct(1) Min_le)
  moreover have "find (\<lambda>r. mb_itemId r = mb_itemId ?t) (db_items db) = Some ?t"
    using assms t by (intro find_key_distinct) auto
  ultimately show ?thesis
    using t Cons assms
    by (intro that(2) [of ?t])
      (auto simp: claim_candidate_def Let_def returning_def simp del: arg_min_list.simps
        intro!: arg_cong [where f = "\<lambda>x. db\<lparr>db_items := x\<rparr>"] update_where_key)
qed

subsection \<open>Every command keeps the table invariant\<close>

lemma sweep_ok: "db_ok db \<Longrightarrow> db_ok (db\<lparr>db_items := sweep now (db_items db)\<rparr>)"
  using lose.db_ok_update [OF expire.db_ok_update [of db now], of now] by (simp add: sweep_def)

lemma keeps_claimNext: "keeps db_ok (claimNext uuid l now locked)"
proof -
  have "keeps db_ok (\<lambda>db. claim_candidate uuid leaseMs now locked (db\<lparr>db_items := sweep now (db_items db)\<rparr>))" for leaseMs
    unfolding keeps_def
  proof (intro allI impI)
    fix db assume "db_ok db"
    then have ok: "db_ok (db\<lparr>db_items := sweep now (db_items db)\<rparr>)" by (rule sweep_ok)
    show "db_ok (snd (claim_candidate uuid leaseMs now locked (db\<lparr>db_items := sweep now (db_items db)\<rparr>)))"
      by (cases rule: claim_candidate_cases [OF db_ok_distinct [OF ok], of uuid leaseMs now locked])
        (use ok claim.db_ok_update [OF ok] in simp_all)
  qed
  then show ?thesis unfolding claimNext_def Let_def by (intro keeps_bind keeps_lift)
qed

lemma pending_count_append:
  "pending_count sid (rs @ [r]) = pending_count sid rs + (if mb_sessionId r = sid \<and> unsettled r then 1 else 0)"
  by (simp add: pending_count_def)

lemma keeps_enqueue_tx: "keeps db_ok (enqueue_tx uuid now i)"
proof -
  have "db_ok (db\<lparr>db_items := db_items db @ [new_row uuid now i]\<rparr>)"
    if ok: "db_ok db" and ow: "map_of (db_owners db) (en_sessionId i) = Some ow"
      "ow_tenantId ow = ow_tenantId (en_owner i)" "ow_principalId ow = ow_principalId (en_owner i)"
      and fresh: "\<forall>r \<in> set (db_items db). mb_itemId r \<noteq> ''mail_'' @ uuid \<and> \<not> same_client i r"
      and cap: "pending_count (en_sessionId i) (db_items db) < 5" for db ow
  proof -
    have "row_ok (new_row uuid now i)" by (simp add: row_ok_def new_row_def)
    moreover have "client_key (new_row uuid now i) \<notin> client_key ` set (db_items db)"
      using fresh by (auto simp: client_key_def new_row_def same_client_def owned_by_def)
    moreover have "pending_count sid (db_items db @ [new_row uuid now i]) \<le> 5" for sid
      using ok cap by (auto simp: pending_count_append db_ok_def new_row_def)
    ultimately show ?thesis
      using ok ow fresh by (auto simp: db_ok_def owners_ok_def new_row_def)
  qed
  then show ?thesis
    by (auto simp: keeps_def enqueue_tx_def insert_row_def Let_def lift_res_def new_row_def find_None_iff
        split: option.splits)
qed

lemma keeps_enqueue: "keeps db_ok (enqueue uuid now i)"
  unfolding enqueue_def by (intro keeps_bind keeps_lift keeps_transaction keeps_enqueue_tx)

lemma consume_update:
  assumes "distinct (map mb_itemId (db_items db))" and "find (consume_target i) (db_items db) = Some row"
    and "mb_status row \<in> {MDelivering, MAccepted, MSubmissionAmbiguous, MCommitted}"
  shows "update_where (\<lambda>r. mb_itemId r = ce_itemId i) f (db_items db) =
     update_where (\<lambda>r. mb_itemId r = ce_itemId i \<and>
       mb_status r \<in> {MDelivering, MAccepted, MSubmissionAmbiguous, MCommitted}) f (db_items db)"
  using assms(1) by (rule update_where_key [of _ _ row])
    (use assms(2,3) in \<open>auto dest!: find_Some_D simp: consume_target_def\<close>)

lemma toRecord_simps [simp]:
  "mb_status (toRecord r) = mb_status r" "mb_itemId (toRecord r) = mb_itemId r"
  "json_guard (toRecord r) = json_guard r" "mb_sessionId (toRecord r) = mb_sessionId r"
  "mb_payloadFingerprint (toRecord r) = mb_payloadFingerprint r"
  "mb_createdAt (toRecord r) = mb_createdAt r" "json_kind (toRecord r) = json_kind r"
  "mb_attemptCount (toRecord r) = mb_attemptCount r"
  "mb_claimToken (toRecord r) = truthy (mb_claimToken r)"
  "mb_payload (toRecord r) = mb_payload r" "mb_clientMessageId (toRecord r) = mb_clientMessageId r"
  by (simp_all add: toRecord_def json_guard_def json_kind_def)

lemma keeps_consume_tx: "keeps db_ok (consume_tx i now)"
  unfolding keeps_def
proof (intro allI impI)
  fix db assume ok: "db_ok db"
  show "db_ok (snd (consume_tx i now db))"
  proof (cases "find (consume_target i) (db_items db)")
    case None
    with ok show ?thesis by (simp add: consume_tx_def)
  next
    case (Some row)
    with ok show ?thesis
      using consume_update [OF db_ok_distinct [OF ok] Some] consume.db_ok_update [OF ok]
      by (auto simp: consume_tx_def Let_def)
  qed
qed

lemma keeps_consume: "keeps db_ok (consumeEdit i now)"
  unfolding consumeEdit_def by (intro keeps_bind keeps_lift keeps_transaction keeps_consume_tx)

lemma keeps_owner: "keeps db_ok (claimOwnership sid ow)"
proof -
  have "db_ok db \<Longrightarrow> db_ok (insert_owner sid ow db)" for db
    by (auto simp: db_ok_def owners_ok_def insert_owner_def split: if_splits)
  moreover have "snd (bind_act (verifyOwnership sid ow)
        (\<lambda>o'. if o' = Owned then ret () else throw e) db) = db" for e db
    by (auto simp: bind_act_def verifyOwnership_def ret_def throw_def split: option.splits)
  ultimately show ?thesis
    unfolding claimOwnership_def by (intro keeps_bind keeps_lift) (simp add: keeps_def)
qed

lemma keeps_transition:
  assumes "keeps I (update_items (held k token) (claimed_write status sid err now))"
  shows "keeps I (claimedTransition k token status sid err required now)"
  unfolding claimedTransition_def
  by (intro keeps_bind keeps_lift assms) (auto split: option.splits)

lemma keeps_accept:
  assumes "keeps I (update_items (held k token) (claimed_write MAccepted (Some sid) None now))"
  shows "keeps I (accept k token sid now)"
  unfolding accept_def
  by (intro keeps_bind keeps_lift keeps_transition assms) (auto simp: keeps_def ret_def lift_res_def split: option.splits)

lemmas method_defs = beginAdmission_def defer_item_def deferRejectedAdmission_def commit_def
  fail_item_def markSubmissionAmbiguous_def cancelOwned_def retryOwned_def

lemma exec_cmd_ok: "db_ok db \<Longrightarrow> db_ok (exec_cmd c db)"
proof -
  have "keeps db_ok (accept k t sid now)" "keeps db_ok (fail_item k t m now)"
    "keeps db_ok (markSubmissionAmbiguous k t m now)" "keeps db_ok (commit k sid now)"
    "keeps db_ok (beginAdmission k t g now)" "keeps db_ok (defer_item k t av rs now)"
    "keeps db_ok (deferRejectedAdmission k t av rs now)" "keeps db_ok (cancelOwned ow k now)"
    "keeps db_ok (retryOwned ow k now)" for k t sid now m g av rs ow
    unfolding method_defs
    by (intro keeps_accept keeps_transition keeps_bind keeps_lift accepted.keeps_update_items
        failed.keeps_update_items ambiguous.keeps_update_items committed.keeps_update_required
        admit.keeps_update_required deferral.keeps_update_required reject.keeps_update_required
        cancel.keeps_update_items retry.keeps_update_items)+
  then show "db_ok db \<Longrightarrow> db_ok (exec_cmd c db)"
    using keeps_claimNext keeps_enqueue keeps_consume keeps_owner
    by (cases c) (simp_all add: keeps_def)
qed

lemma run_cmds_ok: "db_ok db \<Longrightarrow> db_ok (run_cmds cs db)"
  by (induction cs arbitrary: db) (auto intro: exec_cmd_ok)

lemma empty_db_ok: "db_ok empty_db"
  by (simp add: db_ok_def empty_db_def owners_ok_def pending_count_def)

end
