(* ===== verification/Mailbox_Safety.thy ===== *)
theory Mailbox_Safety
  imports Mailbox_Runs
begin

section \<open>Safety of the mailbox\<close>

subsection \<open>The FIFO head\<close>

text \<open>
  \<^verbatim>\<open>created_at\<close> is the start time of the inserting transaction.  The clock of a run is forward
  when every insert is later than the items its session already has.
\<close>

fun forward_clock :: "mail_cmd \<Rightarrow> mail_db \<Rightarrow> bool" where
  "forward_clock (CEnqueue uuid now i) db =
     (\<forall>r \<in> set (db_items db). mb_sessionId r = en_sessionId i \<longrightarrow> mb_createdAt r < now)"
| "forward_clock _ db = True"

fun forward_run :: "mail_cmd list \<Rightarrow> mail_db \<Rightarrow> bool" where
  "forward_run [] db = True"
| "forward_run (c # cs) db = (forward_clock c db \<and> forward_run cs (exec_cmd c db))"

lemma sweep_head: "head_ok db \<Longrightarrow> head_ok (db\<lparr>db_items := sweep now (db_items db)\<rparr>)"
  using lose.head_ok_update [OF expire.head_ok_update [of db now], of now] by (simp add: sweep_def)

lemma claim_head:
  assumes head: "head_ok db" and t: "t \<in> set (db_items db)" "\<forall>b \<in> set (db_items db). \<not> blocks b t"
    and dist: "distinct (map mb_itemId (db_items db))"
  shows "head_ok (db\<lparr>db_items := update_where (\<lambda>r. mb_itemId r = mb_itemId t \<and> claimable now r)
           (claim_row token leaseMs now) (db_items db)\<rparr>)"
  unfolding head_ok_def
proof (intro ballI impI notI)
  let ?g = "\<lambda>r. mb_itemId r = mb_itemId t \<and> claimable now r"
  let ?u = "claim_row token leaseMs now"
  fix r' b'
  assume "r' \<in> set (db_items (db\<lparr>db_items := update_where ?g ?u (db_items db)\<rparr>))" and d: "mb_status r' = MDelivering"
    and "b' \<in> set (db_items (db\<lparr>db_items := update_where ?g ?u (db_items db)\<rparr>))" and bl: "blocks b' r'"
  then obtain r b where r: "r \<in> set (db_items db)" "r' = (if ?g r then ?u r else r)"
    and b: "b \<in> set (db_items db)" "b' = (if ?g b then ?u b else b)"
    by (auto simp: set_update_where)
  from bl have "unsettled b'" by (simp add: blocks_def)
  then have u: "unsettled b" unfolding b(2) by (rule claim.unsettled_back)
  have "mail_ident b' = mail_ident b" and "mail_ident r' = mail_ident r"
    unfolding b(2) r(2) by (rule claim.ident_if)+
  with u bl have "blocks b r" by (blast intro: blocks_ident)
  moreover have "r = t \<or> mb_status r = MDelivering"
    using d r t(1) dist by (auto split: if_splits dest: distinct_map_inj)
  ultimately show False using head t b(1) r(1) by (auto simp: head_ok_def)
qed

lemma claimNext_head:
  assumes "head_ok db" and "db_ok db"
  shows "head_ok (snd (claimNext uuid l now locked db))"
proof -
  let ?db = "db\<lparr>db_items := sweep now (db_items db)\<rparr>"
  have head: "head_ok ?db" and ok: "db_ok ?db" using assms by (auto intro: sweep_head sweep_ok)
  have "head_ok (snd (claim_candidate uuid leaseMs now locked ?db))" for leaseMs
    using claim_head [OF head _ _ db_ok_distinct [OF ok]] head
    by (cases rule: claim_candidate_cases [OF db_ok_distinct [OF ok], of uuid leaseMs now locked]) simp_all
  then show ?thesis using assms(1)
    by (auto simp: claimNext_def Let_def bind_act_def lift_res_def split: sum.splits option.splits)
qed

text \<open>An enqueue that changes the state has passed every check and appends one queued row.\<close>

lemma new_row_simps [simp]:
  "mb_itemId (new_row uuid now i) = ''mail_'' @ uuid" "mb_status (new_row uuid now i) = MQueued"
  "mb_sessionId (new_row uuid now i) = en_sessionId i" "mb_createdAt (new_row uuid now i) = now"
  "mb_payloadFingerprint (new_row uuid now i) = en_payloadFingerprint i"
  "same_client i (new_row uuid now i)"
  by (simp_all add: new_row_def same_client_def owned_by_def)

definition enqueue_effect :: "string \<Rightarrow> int \<Rightarrow> enqueue_input \<Rightarrow> mail_db \<Rightarrow> bool" where
  "enqueue_effect uuid now i db \<longleftrightarrow>
     (\<forall>r \<in> set (db_items db). mb_itemId r \<noteq> ''mail_'' @ uuid \<and> \<not> same_client i r) \<and>
     pending_count (en_sessionId i) (db_items db) < 5 \<and>
     (\<exists>ow. map_of (db_owners db) (en_sessionId i) = Some ow \<and> ow_tenantId ow = ow_tenantId (en_owner i) \<and>
        ow_principalId ow = ow_principalId (en_owner i))"

lemma enqueue_tx_cases:
  "(snd (enqueue_tx uuid now i db) = db \<and> (\<forall>r. fst (enqueue_tx uuid now i db) \<noteq> Inr (Created r))) \<or>
   (enqueue_tx uuid now i db = (Inr (Created (toRecord (new_row uuid now i))),
      db\<lparr>db_items := db_items db @ [new_row uuid now i]\<rparr>) \<and> enqueue_effect uuid now i db)"
  by (auto simp: enqueue_tx_def insert_row_def Let_def lift_res_def requireRow_def require_row_def
      find_None_iff enqueue_effect_def split: option.splits)

definition enqueue_checks :: "enqueue_input \<Rightarrow> unit res" where
  "enqueue_checks i = checks
     [assertOwner (en_owner i), assertText (en_sessionId i) ''sessionId'' 512,
      assertText (en_clientMessageId i) ''clientMessageId'' 200,
      assertText (en_payloadFingerprint i) ''payloadFingerprint'' 128, assertPayload (en_payload i)]"

lemma enqueue_alt:
  "enqueue uuid now i db = (case enqueue_checks i of Inl e \<Rightarrow> (Inl e, db) | Inr _ \<Rightarrow> transaction (enqueue_tx uuid now i) db)"
  by (simp add: enqueue_def enqueue_checks_def bind_act_def lift_res_def)

lemma enqueue_cases:
  obtains "snd (enqueue uuid now i db) = db" "\<forall>r. fst (enqueue uuid now i db) \<noteq> Inr (Created r)"
  | "enqueue uuid now i db = (Inr (Created (toRecord (new_row uuid now i))),
       db\<lparr>db_items := db_items db @ [new_row uuid now i]\<rparr>)"
    "enqueue_effect uuid now i db" "enqueue_checks i = Inr ()"
proof (cases "enqueue_checks i")
  case (Inl e)
  with that(1) show ?thesis by (simp add: enqueue_alt)
next
  case (Inr u)
  with enqueue_tx_cases [of uuid now i db] show ?thesis
    by (cases "enqueue_tx uuid now i db") (auto simp: enqueue_alt transaction_def split: sum.splits intro: that)
qed

lemma enqueue_head:
  assumes "head_ok db" and "forward_clock (CEnqueue uuid now i) db"
  shows "head_ok (snd (enqueue uuid now i db))"
proof (cases rule: enqueue_cases [of uuid now i db])
  case 1
  with assms show ?thesis by simp
next
  case 2
  have "\<not> blocks (new_row uuid now i) r" if "r \<in> set (db_items db)" for r
    using assms(2) that by (force simp: blocks_def created_before_def new_row_def)
  moreover have "mb_status (new_row uuid now i) = MQueued" by (simp add: new_row_def)
  ultimately show ?thesis using assms(1) 2(1) by (auto simp: head_ok_def)
qed

lemma head_owner: "head_ok db \<Longrightarrow> head_ok (snd (claimOwnership sid ow db))"
  by (auto simp: claimOwnership_def bind_act_def lift_res_def insert_owner_def verifyOwnership_def
      head_ok_def ret_def throw_def split: sum.splits option.splits)

lemma consume_head:
  assumes "head_ok db" and ok: "db_ok db"
  shows "head_ok (snd (consumeEdit i now db))"
proof -
  have "head_ok (snd (consume_tx i now db))"
  proof (cases "find (consume_target i) (db_items db)")
    case None
    with assms show ?thesis by (simp add: consume_tx_def)
  next
    case (Some row)
    with assms show ?thesis
      using consume_update [OF db_ok_distinct [OF ok] Some] consume.head_ok_update [OF assms(1)]
      by (auto simp: consume_tx_def Let_def)
  qed
  with assms show ?thesis
    by (auto simp: consumeEdit_def bind_act_def lift_res_def transaction_def split: sum.splits prod.splits)
qed

lemma exec_cmd_head: "head_ok db \<Longrightarrow> db_ok db \<Longrightarrow> forward_clock c db \<Longrightarrow> head_ok (exec_cmd c db)"
proof -
  have "keeps head_ok (accept k t sid now)" "keeps head_ok (fail_item k t m now)"
    "keeps head_ok (markSubmissionAmbiguous k t m now)" "keeps head_ok (commit k sid now)"
    "keeps head_ok (beginAdmission k t g now)" "keeps head_ok (defer_item k t av rs now)"
    "keeps head_ok (deferRejectedAdmission k t av rs now)" "keeps head_ok (cancelOwned ow k now)"
    "keeps head_ok (retryOwned ow k now)" for k t sid now m g av rs ow
    unfolding method_defs
    by (intro keeps_accept keeps_transition keeps_bind keeps_lift accepted.head_update_items
        failed.head_update_items ambiguous.head_update_items committed.head_update_required
        admit.head_update_required deferral.head_update_required reject.head_update_required
        cancel.head_update_items retry.head_update_items)+
  then show "head_ok db \<Longrightarrow> db_ok db \<Longrightarrow> forward_clock c db \<Longrightarrow> head_ok (exec_cmd c db)"
    by (cases c) (auto simp: keeps_def claimNext_head enqueue_head head_owner consume_head)
qed

lemma forward_run_head: "head_ok db \<Longrightarrow> db_ok db \<Longrightarrow> forward_run cs db \<Longrightarrow> head_ok (run_cmds cs db)"
  by (induction cs arbitrary: db) (auto intro: exec_cmd_head exec_cmd_ok)

lemma empty_db_head: "head_ok empty_db"
  by (simp add: head_ok_def empty_db_def)

lemma head_unique:
  assumes "head_ok db" and "db_ok db" and "r \<in> set (db_items db)" and "r' \<in> set (db_items db)"
    and "mb_status r = MDelivering" and "mb_status r' = MDelivering" and "mb_sessionId r = mb_sessionId r'"
  shows "r = r'"
proof (rule ccontr)
  assume "r \<noteq> r'"
  with assms have "mb_itemId r \<noteq> mb_itemId r'" by (metis db_ok_distinct distinct_map_inj)
  then have "created_before r r' \<or> created_before r' r" unfolding created_before_def by auto
  with assms \<open>mb_itemId r \<noteq> mb_itemId r'\<close> have "blocks r r' \<or> blocks r' r"
    by (auto simp: blocks_def unsettled_def)
  with assms show False unfolding head_ok_def by blast
qed

subsection \<open>Rows are never deleted and settle for good\<close>

text \<open>How a whole run moves a row: its identity stays, and a settled status stays.\<close>

definition settles :: "mail_row \<Rightarrow> mail_row \<Rightarrow> bool" where
  "settles r r' \<longleftrightarrow> mail_ident r' = mail_ident r \<and>
     (mb_status r \<in> {MCommitted, MCancelled} \<longrightarrow> mb_status r' = mb_status r)"

definition table_settles :: "mail_row list \<Rightarrow> mail_row list \<Rightarrow> bool" where
  "table_settles rs rs' \<longleftrightarrow> (\<forall>r \<in> set rs. \<exists>r' \<in> set rs'. settles r r')"

lemma table_settles_refl [simp]: "table_settles rs rs"
  by (auto simp: table_settles_def settles_def)

lemma table_settles_trans: "table_settles as bs \<Longrightarrow> table_settles bs cs \<Longrightarrow> table_settles as cs"
  unfolding table_settles_def settles_def by (metis (full_types))

lemma table_settles_append [simp]: "table_settles rs (rs @ ns)"
  by (auto simp: table_settles_def settles_def)

lemma settles_update:
  assumes "\<And>r. g r \<Longrightarrow> mail_ident (u r) = mail_ident r"
    and "\<And>r. g r \<Longrightarrow> mail_edge (mb_status r) (mb_status (u r))"
  shows "table_settles rs (update_where g u rs)"
  unfolding table_settles_def
proof
  fix r assume "r \<in> set rs"
  then have "(if g r then u r else r) \<in> set (update_where g u rs)" by (auto simp: set_update_where)
  moreover have "settles r (if g r then u r else r)"
    using assms(1) [of r] assms(2) [of r] by (cases "mb_status r") (auto simp: settles_def)
  ultimately show "\<exists>r' \<in> set (update_where g u rs). settles r r'" by blast
qed

context mail_update
begin

lemma settles_where: "table_settles rs (update_where guard upd rs)"
  by (rule settles_update) (simp_all add: key_upd edge_upd)

lemma settles_items: "keeps (\<lambda>db. table_settles rs (db_items db)) (update_items guard upd)"
  by (auto simp: keeps_def update_items_def intro: table_settles_trans settles_where)

lemma settles_required: "keeps (\<lambda>db. table_settles rs (db_items db)) (update_required guard upd)"
  unfolding update_required_def by (intro keeps_bind settles_items keeps_lift)

end

lemma settles_claimNext:
  assumes "db_ok db"
  shows "table_settles (db_items db) (db_items (snd (claimNext uuid l now locked db)))"
proof -
  let ?db = "db\<lparr>db_items := sweep now (db_items db)\<rparr>"
  have sw: "table_settles (db_items db) (sweep now (db_items db))"
    unfolding sweep_def by (rule table_settles_trans [OF expire.settles_where lose.settles_where])
  have "table_settles (db_items db) (db_items (snd (claim_candidate uuid leaseMs now locked ?db)))" for leaseMs
    using sw table_settles_trans [OF sw claim.settles_where]
    by (cases rule: claim_candidate_cases [OF db_ok_distinct [OF sweep_ok [OF assms, of now]], of uuid leaseMs now locked])
      simp_all
  then show ?thesis
    by (auto simp: claimNext_def Let_def bind_act_def lift_res_def split: sum.splits option.splits)
qed

lemma settles_consume:
  assumes "db_ok db"
  shows "table_settles (db_items db) (db_items (snd (consumeEdit i now db)))"
proof -
  have "table_settles (db_items db) (db_items (snd (consume_tx i now db)))"
  proof (cases "find (consume_target i) (db_items db)")
    case None
    then show ?thesis by (simp add: consume_tx_def)
  next
    case (Some row)
    then show ?thesis
      using consume_update [OF db_ok_distinct [OF assms] Some] consume.settles_where
      by (auto simp: consume_tx_def Let_def)
  qed
  then show ?thesis
    by (auto simp: consumeEdit_def bind_act_def lift_res_def transaction_def split: sum.splits prod.splits)
qed

lemma settles_exec:
  assumes "db_ok db"
  shows "table_settles (db_items db) (db_items (exec_cmd c db))"
proof -
  let ?I = "\<lambda>db'. table_settles (db_items db) (db_items db')"
  have k: "keeps ?I (accept k t sid now)" "keeps ?I (fail_item k t m now)"
    "keeps ?I (markSubmissionAmbiguous k t m now)" "keeps ?I (commit k sid now)"
    "keeps ?I (beginAdmission k t g now)" "keeps ?I (defer_item k t av rs now)"
    "keeps ?I (deferRejectedAdmission k t av rs now)" "keeps ?I (cancelOwned ow k now)"
    "keeps ?I (retryOwned ow k now)" for k t sid now m g av rs ow
    unfolding method_defs
    by (intro keeps_accept keeps_transition keeps_bind keeps_lift accepted.settles_items
        failed.settles_items ambiguous.settles_items committed.settles_required
        admit.settles_required deferral.settles_required reject.settles_required
        cancel.settles_items retry.settles_items)+
  show ?thesis
  proof (cases c)
    case (COwner sid ow)
    then show ?thesis
      by (auto simp: claimOwnership_def bind_act_def lift_res_def insert_owner_def verifyOwnership_def
          ret_def throw_def split: sum.splits option.splits)
  next
    case (CEnqueue uuid now i)
    then show ?thesis by (cases rule: enqueue_cases [of uuid now i db]) simp_all
  qed (use k assms in \<open>auto simp: keeps_def settles_claimNext settles_consume\<close>)
qed

lemma settles_run: "db_ok db \<Longrightarrow> table_settles (db_items db) (db_items (run_cmds cs db))"
proof (induction cs arbitrary: db)
  case (Cons c cs)
  then show ?case
    by (auto intro: table_settles_trans [OF settles_exec] exec_cmd_ok)
qed simp

subsection \<open>Session owners stay\<close>

lemma owners_update_items [simp]: "db_owners (snd (update_items P f db)) = db_owners db"
  by (simp add: update_items_def)

lemma keeps_owners_items: "keeps (\<lambda>db. map_of (db_owners db) sid = Some ow) (update_items P f)"
  by (simp add: keeps_def)

lemma keeps_owners_required: "keeps (\<lambda>db. map_of (db_owners db) sid = Some ow) (update_required P f)"
  unfolding update_required_def by (intro keeps_bind keeps_owners_items keeps_lift)

lemma owners_exec:
  assumes own: "map_of (db_owners db) sid = Some ow"
  shows "map_of (db_owners (exec_cmd c db)) sid = Some ow"
proof -
  let ?I = "\<lambda>db. map_of (db_owners db) sid = Some ow"
  have k: "keeps ?I (accept k t s now)" "keeps ?I (fail_item k t m now)"
    "keeps ?I (markSubmissionAmbiguous k t m now)" "keeps ?I (commit k s now)"
    "keeps ?I (beginAdmission k t g now)" "keeps ?I (defer_item k t av rs now)"
    "keeps ?I (deferRejectedAdmission k t av rs now)" "keeps ?I (cancelOwned ow' k now)"
    "keeps ?I (retryOwned ow' k now)" for k t s now m g av rs ow'
    unfolding method_defs
    by (intro keeps_accept keeps_transition keeps_bind keeps_lift keeps_owners_items keeps_owners_required)+
  show ?thesis
  proof (cases c)
    case (COwner s o')
    with own show ?thesis
      by (auto simp: claimOwnership_def bind_act_def lift_res_def insert_owner_def verifyOwnership_def
          ret_def throw_def split: sum.splits option.splits)
  next
    case (CEnqueue uuid now i)
    with own show ?thesis by (cases rule: enqueue_cases [of uuid now i db]) simp_all
  next
    case (CClaim uuid l now locked)
    with own show ?thesis
      by (auto simp: claimNext_def claim_candidate_def Let_def bind_act_def lift_res_def
          split: sum.splits list.splits)
  next
    case (CConsume i now)
    with own show ?thesis
      by (auto simp: consumeEdit_def consume_tx_def bind_act_def lift_res_def transaction_def Let_def
          split: sum.splits option.splits)
  qed (use k own in \<open>auto simp: keeps_def\<close>)
qed

lemma owners_run: "map_of (db_owners db) sid = Some ow \<Longrightarrow> map_of (db_owners (run_cmds cs db)) sid = Some ow"
  by (induction cs arbitrary: db) (auto intro: owners_exec)

subsection \<open>Row properties under commands\<close>

text \<open>A property of every row is kept by an update that keeps it in the rows it writes.\<close>

lemma keeps_all_items:
  "(\<And>r. P r \<Longrightarrow> Q r \<Longrightarrow> Q (f r)) \<Longrightarrow> keeps (\<lambda>db. list_all Q (db_items db)) (update_items P f)"
  by (auto simp: keeps_def update_items_def list_all_iff set_update_where)

lemma keeps_all_required:
  "(\<And>r. P r \<Longrightarrow> Q r \<Longrightarrow> Q (f r)) \<Longrightarrow> keeps (\<lambda>db. list_all Q (db_items db)) (update_required P f)"
  unfolding update_required_def by (intro keeps_bind keeps_all_items keeps_lift)

text \<open>
  The item \<open>k\<close> is past admission in its \<open>n\<close>-th attempt: it is not queued, and a delivery in
  progress has its admission recorded.
\<close>

definition past_admission :: "string \<Rightarrow> nat \<Rightarrow> mail_row \<Rightarrow> bool" where
  "past_admission k n r \<longleftrightarrow> (mb_itemId r = k \<longrightarrow>
     mb_attemptCount r = n \<and> mb_status r \<noteq> MQueued \<and>
     (mb_status r = MDelivering \<longrightarrow> mb_admissionStartedAt r \<noteq> None))"

text \<open>The two commands that put an item back: a proved rejection, and the owner's retry of a failure.\<close>

fun readmits :: "string \<Rightarrow> mail_cmd \<Rightarrow> bool" where
  "readmits k (CDeferRejected k' t a rs now) = (k' = k)"
| "readmits k (CRetry ow k' now) = (k' = k)"
| "readmits k _ = False"

lemma past_admission_claim:
  assumes "db_ok db" and "list_all (past_admission k n) (db_items db)"
  shows "list_all (past_admission k n) (db_items (snd (claimNext uuid l now locked db)))"
proof -
  let ?db = "db\<lparr>db_items := sweep now (db_items db)\<rparr>"
  have sw: "list_all (past_admission k n) (sweep now (db_items db))"
    unfolding sweep_def
    by (intro list_all_update_where assms(2)) (simp_all add: past_admission_def write_defs)
  have claim: "list_all (past_admission k n) (update_where (\<lambda>r. mb_itemId r = k' \<and> claimable now r)
      (claim_row token leaseMs now) (sweep now (db_items db)))" for k' token leaseMs
    by (intro list_all_update_where sw) (auto simp: past_admission_def claimable_def write_defs)
  have "list_all (past_admission k n) (db_items (snd (claim_candidate uuid leaseMs now locked ?db)))" for leaseMs
    using sw claim
    by (cases rule: claim_candidate_cases [OF db_ok_distinct [OF sweep_ok [OF assms(1), of now]], of uuid leaseMs now locked])
      simp_all
  then show ?thesis using assms(2)
    by (auto simp: claimNext_def Let_def bind_act_def lift_res_def split: sum.splits option.splits)
qed

lemma past_admission_exec:
  assumes ok: "db_ok db" and past: "list_all (past_admission k n) (db_items db)"
    and present: "\<exists>r \<in> set (db_items db). mb_itemId r = k" and c: "\<not> readmits k c"
  shows "list_all (past_admission k n) (db_items (exec_cmd c db))"
proof -
  let ?I = "\<lambda>db. list_all (past_admission k n) (db_items db)"
  have k: "keeps ?I (accept k' t s now)" "keeps ?I (fail_item k' t m now)"
    "keeps ?I (markSubmissionAmbiguous k' t m now)" "keeps ?I (commit k' s now)"
    "keeps ?I (beginAdmission k' t g now)" "keeps ?I (defer_item k' t av rs now)"
    "keeps ?I (cancelOwned ow' k' now)" for k' t s now m g av rs ow'
    unfolding method_defs
    by (intro keeps_accept keeps_transition keeps_bind keeps_lift keeps_all_items keeps_all_required;
        auto simp: past_admission_def guard_defs write_defs)+
  have rej: "k' \<noteq> k \<Longrightarrow> keeps ?I (deferRejectedAdmission k' t av rs now)"
    and ret: "k' \<noteq> k \<Longrightarrow> keeps ?I (retryOwned ow' k' now)" for k' t av rs now ow'
    unfolding method_defs
    by (intro keeps_bind keeps_lift keeps_all_items keeps_all_required;
        auto simp: past_admission_def guard_defs write_defs)+
  show ?thesis
  proof (cases c)
    case (COwner s o')
    with past show ?thesis
      by (auto simp: claimOwnership_def bind_act_def lift_res_def insert_owner_def verifyOwnership_def
          ret_def throw_def split: sum.splits option.splits)
  next
    case (CEnqueue uuid now i)
    with past present show ?thesis
      by (cases rule: enqueue_cases [of uuid now i db]) (auto simp: enqueue_effect_def past_admission_def)
  next
    case (CConsume i now)
    have "list_all (past_admission k n) (update_where P (commit_consumed s now) (db_items db))" for P s
      by (intro list_all_update_where past) (simp add: past_admission_def write_defs)
    with past CConsume show ?thesis
      by (auto simp: consumeEdit_def consume_tx_def bind_act_def lift_res_def transaction_def Let_def
          split: sum.splits option.splits)
  qed (use k rej ret past c past_admission_claim [OF ok past] in \<open>auto simp: keeps_def\<close>)
qed

lemma past_admission_run:
  "db_ok db \<Longrightarrow> list_all (past_admission k n) (db_items db) \<Longrightarrow> \<exists>r \<in> set (db_items db). mb_itemId r = k \<Longrightarrow>
   \<forall>c \<in> set cs. \<not> readmits k c \<Longrightarrow> list_all (past_admission k n) (db_items (run_cmds cs db))"
proof (induction cs arbitrary: db)
  case (Cons c cs)
  have "\<exists>r \<in> set (db_items (exec_cmd c db)). mb_itemId r = k"
    using settles_exec [OF Cons.prems(1), of c] Cons.prems(3)
    by (fastforce simp: table_settles_def settles_def mail_ident_def)
  with Cons show ?case by (simp add: exec_cmd_ok past_admission_exec)
qed simp

end
