(* ===== verification/Mailbox_Service.thy ===== *)
theory Mailbox_Service
  imports Mailbox_Safety
begin

section \<open>The mailbox service and its dispatcher (server/agent-mailbox/service.ts)\<close>

text \<open>
  The service validates what a client sends and hands it to the store; the dispatcher claims the
  head of a session's queue, asks the runtime for the session's boundary, and delivers, defers or
  fails the item.  Both reach the store only through its interface, here the record
  \<open>mailbox_if\<close> over an arbitrary world, so that the world may hold whatever other processes do
  between two calls.  The runtime (\<open>runtime_if\<close>), the wall clock and SHA-256 are parameters.
\<close>

subsection \<open>Parsing what the client sends\<close>

definition is_id_char :: "char \<Rightarrow> bool" where
  "is_id_char c \<longleftrightarrow> is_alnum c \<or> c \<in> {CHR ''.'', CHR ''_'', CHR '':'', CHR ''-''}"

text \<open>The pattern \<^verbatim>\<open>/^[A-Za-z0-9][A-Za-z0-9._:-]{lo,hi}$/\<close>.\<close>

definition matches_id :: "nat \<Rightarrow> nat \<Rightarrow> string \<Rightarrow> bool" where
  "matches_id lo hi s = (case s of [] \<Rightarrow> False
     | c # cs \<Rightarrow> is_alnum c \<and> list_all is_id_char cs \<and> lo \<le> length cs \<and> length cs \<le> hi)"

definition parseClientMessageId :: "string \<Rightarrow> string res" where
  "parseClientMessageId v =
     (let normalized = js_trim v
      in if \<not> matches_id 7 199 normalized
         then Inl (Error ''clientMessageId must contain 8 to 200 URL-safe identifier characters.'')
         else Inr normalized)"

definition parseSessionId :: "string \<Rightarrow> string res" where
  "parseSessionId v =
     (let normalized = js_trim v
      in if length normalized = 0 \<or> length normalized > 512
         then Inl (Error ''sessionId must contain between 1 and 512 characters.'')
         else Inr normalized)"

definition parseMessage :: "string \<Rightarrow> string res" where
  "parseMessage v =
     (let normalized = js_trim v
      in if length normalized = 0 \<or> length normalized > 65536
         then Inl (Error ''message must contain between 1 and 65536 characters.'')
         else Inr normalized)"

record enqueue_options =
  eo_beforeTurnId :: "string option"
  eo_clientMessageId :: string
  eo_clientContext :: "string list option"
  eo_expectedTurnId :: "string option"
  eo_inputResponses :: "input_response list option"
  eo_operationId :: "string option"
  eo_operationKind :: "op_kind option"
  eo_message :: "string option"
  eo_owner :: session_owner
  eo_preferences :: "preferences option"
  eo_sessionId :: string

datatype mail_content = MessageContent string | ResponsesContent "input_response list"

definition parseMailboxContent :: "enqueue_options \<Rightarrow> mail_content res" where
  "parseMailboxContent opts =
     (if eo_operationKind opts = Some Respond then
        if eo_message opts \<noteq> None then Inl (Error ''A respond operation cannot contain a message.'')
        else (case eo_inputResponses opts of
            None \<Rightarrow> Inl (Error ''A respond operation requires between 1 and 16 input responses.'')
          | Some rs \<Rightarrow>
              if length rs < 1 \<or> length rs > 16
              then Inl (Error ''A respond operation requires between 1 and 16 input responses.'')
              else Inr (ResponsesContent rs))
      else if eo_inputResponses opts \<noteq> None
      then Inl (Error ''inputResponses requires operationKind respond.'')
      else map_sum id MessageContent
        (parseMessage (case eo_message opts of None \<Rightarrow> [] | Some m \<Rightarrow> m)))"

definition matches_opt :: "nat \<Rightarrow> nat \<Rightarrow> string option \<Rightarrow> bool" where
  "matches_opt lo hi v = (case v of None \<Rightarrow> True | Some s \<Rightarrow> matches_id lo hi s)"

definition parseOperation :: "enqueue_options \<Rightarrow> operation_meta option res" where
  "parseOperation i =
     (if eo_operationId i = None \<and> eo_operationKind i = None \<and> eo_expectedTurnId i = None \<and> eo_beforeTurnId i = None
      then Inr None
      else case eo_operationId i of
        None \<Rightarrow> Inl (Error ''operationId must contain 8 to 200 URL-safe identifier characters.'')
      | Some oid \<Rightarrow>
        if \<not> matches_id 7 199 oid
        then Inl (Error ''operationId must contain 8 to 200 URL-safe identifier characters.'')
        else (case eo_operationKind i of
          None \<Rightarrow> Inl (Error ''operationKind is required when operationId is provided.'')
        | Some k \<Rightarrow>
          if k = Steer \<and> eo_expectedTurnId i = None
          then Inl (Error ''expectedTurnId is required for a steering operation.'')
          else if k = Edit \<and> eo_beforeTurnId i = None
          then Inl (Error ''beforeTurnId is required for an edit operation.'')
          else if k = Respond \<and> (eo_expectedTurnId i \<noteq> None \<or> eo_beforeTurnId i \<noteq> None)
          then Inl (Error ''A respond operation cannot target an edit or steering boundary.'')
          else if \<not> matches_opt 0 511 (eo_expectedTurnId i)
          then Inl (Error ''expectedTurnId must contain up to 512 URL-safe identifier characters.'')
          else if \<not> matches_opt 0 511 (eo_beforeTurnId i)
          then Inl (Error ''beforeTurnId must contain up to 512 URL-safe identifier characters.'')
          else Inr (Some \<lparr>op_beforeTurnId = truthy (eo_beforeTurnId i), op_expectedTurnId = truthy (eo_expectedTurnId i),
                 op_kind = k, op_operationId = oid, op_consumptionGuard = None\<rparr>)))"

definition mailbox_payload :: "enqueue_options \<Rightarrow> mail_content \<Rightarrow> operation_meta option \<Rightarrow> mail_payload" where
  "mailbox_payload opts content opn = \<lparr>
     pl_clientContext = eo_clientContext opts, pl_operation = opn, pl_preferences = eo_preferences opts,
     pl_message = (case content of MessageContent m \<Rightarrow> Some m | ResponsesContent _ \<Rightarrow> None),
     pl_inputResponses = (case content of MessageContent _ \<Rightarrow> None | ResponsesContent rs \<Rightarrow> Some rs)\<rparr>"

subsection \<open>The interfaces the service calls\<close>

record 'w mailbox_if =
  mi_enqueue :: "enqueue_input \<Rightarrow> ('w, enqueue_result) act"
  mi_claimNext :: "int option \<Rightarrow> ('w, mail_row option) act"
  mi_beginAdmission :: "string \<Rightarrow> string \<Rightarrow> bool \<Rightarrow> ('w, mail_row) act"
  mi_defer :: "string \<Rightarrow> string \<Rightarrow> int \<Rightarrow> string option \<Rightarrow> ('w, mail_row) act"
  mi_deferRejectedAdmission :: "string \<Rightarrow> string \<Rightarrow> int \<Rightarrow> string option \<Rightarrow> ('w, mail_row) act"
  mi_accept :: "string \<Rightarrow> string \<Rightarrow> string \<Rightarrow> ('w, mail_row) act"
  mi_commit :: "string \<Rightarrow> string \<Rightarrow> ('w, mail_row) act"
  mi_fail :: "string \<Rightarrow> string \<Rightarrow> string \<Rightarrow> ('w, mail_row) act"
  mi_markSubmissionAmbiguous :: "string \<Rightarrow> string \<Rightarrow> string \<Rightarrow> ('w, mail_row) act"
  mi_findOwned :: "session_owner \<Rightarrow> string \<Rightarrow> ('w, mail_row option) act"

datatype boundary_state =
    BRunning "string option"
  | BWaiting
  | BTerminal "string option"

record boundary =
  bd_editAdmissionGuard :: bool
  bd_state :: boundary_state
  bd_tailIndex :: "int option"
  bd_lastEventAt :: "string option"

record deliver_input =
  dl_clientMessageId :: string
  dl_itemId :: string
  dl_owner :: session_owner
  dl_payload :: mail_payload
  dl_sessionId :: string

record 'w runtime_if =
  rt_inspect :: "session_owner \<Rightarrow> string \<Rightarrow> ('w, boundary) act"
  rt_deliver :: "deliver_input \<Rightarrow> ('w, string) act"

datatype dispatch_status = DAccepted | DCancelled | DDeferred | DFailed | DSubmissionAmbiguous

datatype dispatch_result = Idle | Dispatched mail_row dispatch_status

subsection \<open>enqueueAgentMailboxMessage\<close>

definition enqueueAgentMailboxMessage ::
  "(string \<Rightarrow> mail_payload \<Rightarrow> string) \<Rightarrow> 'w mailbox_if \<Rightarrow> enqueue_options \<Rightarrow> ('w, enqueue_result) act" where
  "enqueueAgentMailboxMessage fingerprint store opts =
     bind_act (lift_res (parseClientMessageId (eo_clientMessageId opts))) (\<lambda>clientMessageId.
     bind_act (lift_res (parseSessionId (eo_sessionId opts))) (\<lambda>sessionId.
     bind_act (lift_res (parseMailboxContent opts)) (\<lambda>content.
     bind_act (lift_res (parseOperation opts)) (\<lambda>opn.
       let payload = mailbox_payload opts content opn
       in mi_enqueue store \<lparr>en_clientMessageId = clientMessageId, en_owner = eo_owner opts,
            en_payload = payload, en_payloadFingerprint = fingerprint sessionId payload,
            en_sessionId = sessionId\<rparr>))))"

subsection \<open>dispatchNextAgentMailboxMessage\<close>

record 'w dispatch_options =
  do_busyRetryMs :: "int option"
  do_leaseMs :: "int option"
  do_now :: "'w \<Rightarrow> int"

definition DEFAULT_BUSY_RETRY_MS :: int where
  "DEFAULT_BUSY_RETRY_MS = 2000"

definition nextAttemptAt :: "'w dispatch_options \<Rightarrow> ('w, int) act" where
  "nextAttemptAt opts w =
     (let retryMs = (case do_busyRetryMs opts of None \<Rightarrow> DEFAULT_BUSY_RETRY_MS | Some d \<Rightarrow> d)
      in if retryMs < 250 \<or> retryMs > 60000
         then (Inl (Error ''busyRetryMs must be an integer from 250 to 60000.''), w)
         else (Inr (do_now opts w + retryMs), w))"

definition safeErrorMessage :: "js_error \<Rightarrow> string \<Rightarrow> string" where
  "safeErrorMessage e fallback =
     (if js_trim (error_message e) \<noteq> [] then take 2000 (js_trim (error_message e)) else fallback)"

definition ownerFromItem :: "mail_row \<Rightarrow> session_owner" where
  "ownerFromItem item = \<lparr>ow_issuer = truthy (mb_issuer item), ow_principalId = mb_principalId item,
     ow_principalType = mb_principalType item, ow_tenantId = mb_tenantId item\<rparr>"

definition canSteerBoundary :: "mail_row \<Rightarrow> string option \<Rightarrow> bool" where
  "canSteerBoundary item turnId =
     (case pl_operation (mb_payload item) of
        None \<Rightarrow> False
      | Some opn \<Rightarrow> op_kind opn = Steer \<and> op_expectedTurnId opn \<noteq> None \<and> op_expectedTurnId opn = turnId)"

definition deferClaimedMessage ::
  "'w mailbox_if \<Rightarrow> bool \<Rightarrow> int \<Rightarrow> string \<Rightarrow> mail_row \<Rightarrow> session_owner \<Rightarrow> string option \<Rightarrow> ('w, dispatch_result) act" where
  "deferClaimedMessage store admissionWasRejected availableAt claimToken item ow reason =
     catch_act
       (bind_act
         (if admissionWasRejected
          then mi_deferRejectedAdmission store (mb_itemId item) claimToken availableAt reason
          else mi_defer store (mb_itemId item) claimToken availableAt reason)
         (\<lambda>deferred. ret (Dispatched deferred DDeferred)))
       (\<lambda>e. bind_act (mi_findOwned store ow (mb_itemId item)) (\<lambda>cur.
          case cur of
            Some c \<Rightarrow> if mb_status c = MCancelled then ret (Dispatched c DCancelled) else throw e
          | None \<Rightarrow> throw e))"

text \<open>The body of the second \<^verbatim>\<open>try\<close>: admission, delivery, acceptance.\<close>

definition admit_and_deliver ::
  "'w runtime_if \<Rightarrow> 'w mailbox_if \<Rightarrow> mail_row \<Rightarrow> string \<Rightarrow> session_owner \<Rightarrow> bool \<Rightarrow> ('w, dispatch_result) act" where
  "admit_and_deliver runtime store item claimToken ow editGuard =
     bind_act (mi_beginAdmission store (mb_itemId item) claimToken (json_kind item = Some Edit \<and> editGuard)) (\<lambda>_.
     bind_act (rt_deliver runtime \<lparr>dl_clientMessageId = mb_clientMessageId item, dl_itemId = mb_itemId item,
         dl_owner = ow, dl_payload = mb_payload item, dl_sessionId = mb_sessionId item\<rparr>) (\<lambda>delivered.
     bind_act (mi_accept store (mb_itemId item) claimToken delivered) (\<lambda>accepted.
     bind_act (if json_kind item = Some Respond then mi_commit store (mb_itemId item) delivered else ret accepted)
       (\<lambda>committed. ret (Dispatched committed DAccepted)))))"

text \<open>Its \<^verbatim>\<open>catch\<close>, once the item is known not to be settled: rejected, busy, or unknown.\<close>

definition settle_failed_attempt ::
  "'w dispatch_options \<Rightarrow> 'w mailbox_if \<Rightarrow> mail_row \<Rightarrow> string \<Rightarrow> session_owner \<Rightarrow> js_error \<Rightarrow> ('w, dispatch_result) act" where
  "settle_failed_attempt opts store item claimToken ow e =
     (case e of
        AdmissionError Rejected m \<Rightarrow>
          bind_act (mi_fail store (mb_itemId item) claimToken m) (\<lambda>failed. ret (Dispatched failed DFailed))
      | AdmissionError Busy m \<Rightarrow>
          bind_act (nextAttemptAt opts) (\<lambda>availableAt.
            deferClaimedMessage store True availableAt claimToken item ow (Some m))
      | _ \<Rightarrow>
          bind_act (mi_markSubmissionAmbiguous store (mb_itemId item) claimToken
              (safeErrorMessage e ''The Agent runtime may have accepted this message, so it will not be retried automatically.''))
            (\<lambda>ambiguous. ret (Dispatched ambiguous DSubmissionAmbiguous)))"

definition after_failed_attempt ::
  "'w dispatch_options \<Rightarrow> 'w mailbox_if \<Rightarrow> mail_row \<Rightarrow> string \<Rightarrow> session_owner \<Rightarrow> js_error \<Rightarrow> ('w, dispatch_result) act" where
  "after_failed_attempt opts store item claimToken ow e =
     bind_act (mi_findOwned store ow (mb_itemId item)) (\<lambda>cur.
       case cur of
         Some c \<Rightarrow>
           if mb_status c = MCommitted then ret (Dispatched c DAccepted)
           else if mb_status c = MCancelled then ret (Dispatched c DCancelled)
           else settle_failed_attempt opts store item claimToken ow e
       | None \<Rightarrow> settle_failed_attempt opts store item claimToken ow e)"

text \<open>What the boundary decides for a claimed item.\<close>

definition dispatch_at_boundary ::
  "'w dispatch_options \<Rightarrow> 'w runtime_if \<Rightarrow> 'w mailbox_if \<Rightarrow> mail_row \<Rightarrow> string \<Rightarrow> session_owner \<Rightarrow> boundary
     \<Rightarrow> ('w, dispatch_result) act" where
  "dispatch_at_boundary opts runtime store item claimToken ow boundary =
     (let deliver = catch_act
            (admit_and_deliver runtime store item claimToken ow (bd_editAdmissionGuard boundary))
            (after_failed_attempt opts store item claimToken ow)
      in case bd_state boundary of
        BRunning turnId \<Rightarrow>
          if \<not> canSteerBoundary item turnId
          then bind_act (nextAttemptAt opts) (\<lambda>availableAt.
                 deferClaimedMessage store False availableAt claimToken item ow None)
          else deliver
      | BTerminal _ \<Rightarrow>
          bind_act (mi_fail store (mb_itemId item) claimToken
              ''The Agent session became terminal before this queued message could be delivered.'')
            (\<lambda>failed. ret (Dispatched failed DFailed))
      | BWaiting \<Rightarrow> deliver)"

definition dispatch_claimed ::
  "'w dispatch_options \<Rightarrow> 'w runtime_if \<Rightarrow> 'w mailbox_if \<Rightarrow> mail_row \<Rightarrow> string \<Rightarrow> ('w, dispatch_result) act" where
  "dispatch_claimed opts runtime store item claimToken =
     (let ow = ownerFromItem item
      in bind_act (attempt (rt_inspect runtime ow (mb_sessionId item))) (\<lambda>r. case r of
        Inl e \<Rightarrow>
          bind_act (nextAttemptAt opts) (\<lambda>availableAt.
          bind_act (mi_defer store (mb_itemId item) claimToken availableAt
              (Some (safeErrorMessage e ''The Agent session boundary could not be inspected.'')))
            (\<lambda>deferred. ret (Dispatched deferred DDeferred)))
      | Inr boundary \<Rightarrow> dispatch_at_boundary opts runtime store item claimToken ow boundary))"

definition dispatchNextAgentMailboxMessage ::
  "'w dispatch_options \<Rightarrow> 'w runtime_if \<Rightarrow> 'w mailbox_if \<Rightarrow> ('w, dispatch_result) act" where
  "dispatchNextAgentMailboxMessage opts runtime store =
     bind_act (mi_claimNext store (do_leaseMs opts)) (\<lambda>claimed. case claimed of
        None \<Rightarrow> ret Idle
      | Some item \<Rightarrow> (case truthy (mb_claimToken item) of
          None \<Rightarrow> throw (Error ''The Agent mailbox store returned a delivery lease without a claim token.'')
        | Some claimToken \<Rightarrow> dispatch_claimed opts runtime store item claimToken))"

subsection \<open>What the dispatcher reports\<close>

text \<open>The status a dispatch result stands for.\<close>

fun reports :: "dispatch_result \<Rightarrow> bool" where
  "reports Idle \<longleftrightarrow> True"
| "reports (Dispatched item DAccepted) \<longleftrightarrow> mb_status item \<in> {MAccepted, MCommitted}"
| "reports (Dispatched item DCancelled) \<longleftrightarrow> mb_status item = MCancelled"
| "reports (Dispatched item DDeferred) \<longleftrightarrow> mb_status item = MQueued"
| "reports (Dispatched item DFailed) \<longleftrightarrow> mb_status item = MFailed"
| "reports (Dispatched item DSubmissionAmbiguous) \<longleftrightarrow> mb_status item = MSubmissionAmbiguous"

text \<open>
  The contract of the store's interface, over any world with a property \<open>I\<close> that every method
  and every call of the runtime keeps: each method that returns a row returns it in the status
  its name promises.
\<close>

locale mailbox_contract =
  fixes store :: "'w mailbox_if"
    and runtime :: "'w runtime_if"
    and I :: "'w \<Rightarrow> bool"
  assumes keeps_claim: "keeps I (mi_claimNext store l)"
    and keeps_begin: "keeps I (mi_beginAdmission store k t g)"
    and keeps_defer: "keeps I (mi_defer store k t a r)"
    and keeps_deferRejected: "keeps I (mi_deferRejectedAdmission store k t a r)"
    and keeps_accept: "keeps I (mi_accept store k t s)"
    and keeps_commit: "keeps I (mi_commit store k s)"
    and keeps_fail: "keeps I (mi_fail store k t m)"
    and keeps_ambiguous: "keeps I (mi_markSubmissionAmbiguous store k t m)"
    and keeps_findOwned: "keeps I (mi_findOwned store ow k)"
    and keeps_inspect: "keeps I (rt_inspect runtime ow k)"
    and keeps_deliver: "keeps I (rt_deliver runtime i)"
    and defer_queued: "yields I (mi_defer store k t a r) (\<lambda>x. mb_status x = MQueued)"
    and deferRejected_queued: "yields I (mi_deferRejectedAdmission store k t a r) (\<lambda>x. mb_status x = MQueued)"
    and accept_accepted: "yields I (mi_accept store k t s) (\<lambda>x. mb_status x \<in> {MAccepted, MCommitted})"
    and commit_committed: "yields I (mi_commit store k s) (\<lambda>x. mb_status x = MCommitted)"
    and fail_failed: "yields I (mi_fail store k t m) (\<lambda>x. mb_status x = MFailed)"
    and ambiguous_ambiguous: "yields I (mi_markSubmissionAmbiguous store k t m) (\<lambda>x. mb_status x = MSubmissionAmbiguous)"
begin

lemmas keeps_methods = keeps_claim keeps_begin keeps_defer keeps_deferRejected keeps_accept keeps_commit
  keeps_fail keeps_ambiguous keeps_findOwned keeps_inspect keeps_deliver

lemma keeps_next: "keeps I (nextAttemptAt opts)"
  by (simp add: keeps_def nextAttemptAt_def Let_def)

lemma keeps_deferClaimed: "keeps I (deferClaimedMessage store b a t item ow r)"
  unfolding deferClaimedMessage_def
  by (intro keeps_catch keeps_bind keeps_if keeps_methods keeps_ret)
    (auto split: option.splits)

lemma keeps_settle: "keeps I (settle_failed_attempt opts store item t ow e)"
  unfolding settle_failed_attempt_def
  by (auto split: js_error.splits disposition.splits
    intro!: keeps_bind keeps_methods keeps_next keeps_deferClaimed)

lemma keeps_after: "keeps I (after_failed_attempt opts store item t ow e)"
  unfolding after_failed_attempt_def
  by (auto split: option.splits intro!: keeps_bind keeps_methods keeps_settle)

lemma keeps_admit: "keeps I (admit_and_deliver runtime store item t ow b)"
  unfolding admit_and_deliver_def by (intro keeps_bind keeps_methods keeps_if keeps_ret)

lemma keeps_boundary: "keeps I (dispatch_at_boundary opts runtime store item t ow bd)"
  unfolding dispatch_at_boundary_def Let_def
  by (auto split: boundary_state.splits
    intro!: keeps_bind keeps_catch keeps_methods keeps_next keeps_deferClaimed keeps_admit keeps_after)

lemma keeps_claimed: "keeps I (dispatch_claimed opts runtime store item t)"
  unfolding dispatch_claimed_def Let_def
  by (auto split: sum.splits intro!: keeps_bind keeps_attempt keeps_methods keeps_next keeps_boundary)

lemma keeps_dispatch: "keeps I (dispatchNextAgentMailboxMessage opts runtime store)"
  unfolding dispatchNextAgentMailboxMessage_def
  by (auto split: option.splits intro!: keeps_bind keeps_methods keeps_claimed)

lemma reports_deferClaimed: "yields I (deferClaimedMessage store b a t item ow r) reports"
  unfolding deferClaimedMessage_def
proof (rule yields_catch)
  show "keeps I (bind_act (if b then mi_deferRejectedAdmission store (mb_itemId item) t a r
      else mi_defer store (mb_itemId item) t a r) (\<lambda>deferred. ret (Dispatched deferred DDeferred)))"
    by (intro keeps_bind keeps_if keeps_methods keeps_ret)
next
  show "yields I (bind_act (if b then mi_deferRejectedAdmission store (mb_itemId item) t a r
      else mi_defer store (mb_itemId item) t a r) (\<lambda>deferred. ret (Dispatched deferred DDeferred))) reports"
    by (rule yields_bind [where R = "\<lambda>x. mb_status x = MQueued"])
      (auto intro: keeps_methods defer_queued deferRejected_queued)
next
  fix e
  show "yields I (bind_act (mi_findOwned store ow (mb_itemId item)) (\<lambda>cur. case cur of
      None \<Rightarrow> throw e | Some c \<Rightarrow> if mb_status c = MCancelled then ret (Dispatched c DCancelled) else throw e)) reports"
    by (rule yields_bind [where R = "\<lambda>_. True"]) (auto intro: keeps_methods simp: yields_def [of I "mi_findOwned store ow (mb_itemId item)"] split: option.splits)
qed

lemma yields_any: "yields I m (\<lambda>_. True)"
  by (simp add: yields_def)

lemma reports_settle: "yields I (settle_failed_attempt opts store item t ow e) reports"
proof -
  have f: "yields I (bind_act (mi_fail store (mb_itemId item) t m) (\<lambda>x. ret (Dispatched x DFailed))) reports" for m
    by (rule yields_bind [OF keeps_fail fail_failed]) simp
  have a: "yields I (bind_act (mi_markSubmissionAmbiguous store (mb_itemId item) t m)
      (\<lambda>x. ret (Dispatched x DSubmissionAmbiguous))) reports" for m
    by (rule yields_bind [OF keeps_ambiguous ambiguous_ambiguous]) simp
  have b: "yields I (bind_act (nextAttemptAt opts)
      (\<lambda>av. deferClaimedMessage store True av t item ow r)) reports" for r
    by (rule yields_bind [OF keeps_next yields_any]) (rule reports_deferClaimed)
  show ?thesis unfolding settle_failed_attempt_def
    by (auto split: js_error.splits disposition.splits intro: f a b)
qed

lemma reports_after: "yields I (after_failed_attempt opts store item t ow e) reports"
  unfolding after_failed_attempt_def
  by (rule yields_bind [OF keeps_findOwned yields_any]) (auto split: option.splits intro: reports_settle)

lemma reports_admit: "yields I (admit_and_deliver runtime store item t ow b) reports"
  unfolding admit_and_deliver_def
  apply (rule yields_bind [OF keeps_begin yields_any])
  apply (rule yields_bind [OF keeps_deliver yields_any])
  apply (rule yields_bind [OF keeps_accept accept_accepted])
  apply (rule yields_bind [where R = "\<lambda>x. mb_status x \<in> {MAccepted, MCommitted}"])
    apply (intro keeps_if keeps_commit keeps_ret)
   apply (auto intro: yields_mono [OF commit_committed])
  done

lemma reports_boundary: "yields I (dispatch_at_boundary opts runtime store item t ow bd) reports"
proof -
  have d: "yields I (catch_act (admit_and_deliver runtime store item t ow b)
      (after_failed_attempt opts store item t ow)) reports" for b
    by (rule yields_catch [OF keeps_admit reports_admit reports_after])
  have f: "yields I (bind_act (mi_fail store (mb_itemId item) t m) (\<lambda>x. ret (Dispatched x DFailed))) reports" for m
    by (rule yields_bind [OF keeps_fail fail_failed]) simp
  have b: "yields I (bind_act (nextAttemptAt opts)
      (\<lambda>av. deferClaimedMessage store False av t item ow None)) reports"
    by (rule yields_bind [OF keeps_next yields_any]) (rule reports_deferClaimed)
  show ?thesis unfolding dispatch_at_boundary_def Let_def
    by (auto split: boundary_state.splits intro: d f b)
qed

lemma reports_claimed: "yields I (dispatch_claimed opts runtime store item t) reports"
proof -
  have b: "yields I (bind_act (nextAttemptAt opts) (\<lambda>av. bind_act (mi_defer store (mb_itemId item) t av r)
      (\<lambda>x. ret (Dispatched x DDeferred)))) reports" for r
    by (rule yields_bind [OF keeps_next yields_any], rule yields_bind [OF keeps_defer defer_queued]) simp
  show ?thesis unfolding dispatch_claimed_def Let_def
    by (rule yields_bind [OF keeps_attempt [OF keeps_inspect] yields_any])
      (auto split: sum.splits intro: b reports_boundary)
qed

lemma reports_dispatch: "yields I (dispatchNextAgentMailboxMessage opts runtime store) reports"
  unfolding dispatchNextAgentMailboxMessage_def
  by (rule yields_bind [OF keeps_claim yields_any]) (auto split: option.splits intro: reports_claimed)

end

subsection \<open>What the service sends is what the store admits\<close>

lemma alnum_not_space: "is_alnum c \<Longrightarrow> \<not> is_js_space c"
  by (auto simp: is_alnum_def is_digit_def is_upper_def is_lower_def is_js_space_def)

lemma kept_dropWhile: "x \<in> set s \<Longrightarrow> \<not> P x \<Longrightarrow> x \<in> set (dropWhile P s)"
  by (induction s) auto

lemma trim_nonempty: "x \<in> set s \<Longrightarrow> \<not> is_js_space x \<Longrightarrow> js_trim s \<noteq> []"
  unfolding js_trim_def
  by (metis empty_iff empty_set kept_dropWhile rev_is_Nil_conv set_rev)

lemma trim_trim: "js_trim s \<noteq> [] \<Longrightarrow> js_trim (js_trim s) \<noteq> []"
proof -
  assume n: "js_trim s \<noteq> []"
  let ?d = "dropWhile is_js_space (rev (dropWhile is_js_space s))"
  from n have "?d \<noteq> []" by (simp add: js_trim_def)
  then have "\<not> is_js_space (hd ?d)" and "hd ?d \<in> set (js_trim s)"
    by (simp_all add: hd_dropWhile js_trim_def)
  then show ?thesis by (metis trim_nonempty)
qed

lemma matches_text: "matches_id lo hi s \<Longrightarrow> hi < m \<Longrightarrow> assertText s n m = Inr ()"
  unfolding assertText_ok matches_id_def
  using trim_nonempty [of "hd s" s] by (cases s) (auto simp: alnum_not_space)

lemma parseOperation_some:
  assumes "parseOperation opts = Inr (Some opn)" and "\<forall>k. eo_operationKind opts = Some k \<longrightarrow> \<not> is_unknown_kind k"
  shows "eo_operationKind opts = Some (op_kind opn)" and "(op_kind opn = Respond) = b \<Longrightarrow> assertOperation b opn = Inr ()"
proof -
  show "eo_operationKind opts = Some (op_kind opn)"
    using assms(1) by (auto simp: parseOperation_def split: option.splits if_splits)
  have "matches_id 7 199 (op_operationId opn)" "matches_opt 0 511 (op_expectedTurnId opn)"
    using assms(1) by (auto simp: parseOperation_def matches_opt_def truthy_def split: option.splits if_splits)
  moreover have "\<not> is_unknown_kind (op_kind opn)"
    using assms by (auto simp: parseOperation_def split: option.splits if_splits)
  ultimately show "(op_kind opn = Respond) = b \<Longrightarrow> assertOperation b opn = Inr ()"
    by (auto simp: assertOperation_def checks_ok_iff matches_text truthy_def matches_opt_def split: option.splits)
qed

text \<open>Remark (service_payload_admitted)
  What the service accepts the store admits: a message and an operation that pass the service's parsers
  pass the store's assertions, so that the store can only refuse the parts the service does not look
  at - the responses, the client context and the preferences.\<close>

theorem service_payload_admitted:
  assumes "parseMailboxContent opts = Inr content" and "parseOperation opts = Inr opn"
    and "\<forall>k. eo_operationKind opts = Some k \<longrightarrow> \<not> is_unknown_kind k"
  shows "assertPayload (mailbox_payload opts content opn) = Inr () \<longleftrightarrow>
    (\<forall>rs. eo_inputResponses opts = Some rs \<longrightarrow> list_all (\<lambda>r. assertInputResponse r = Inr ()) rs) \<and>
    (\<forall>cc. eo_clientContext opts = Some cc \<longrightarrow> isBoundedAgentClientContext cc) \<and>
    (\<forall>pf. eo_preferences opts = Some pf \<longrightarrow> assertText (pf_modelId pf) ''payload.preferences.modelId'' 200 = Inr () \<and>
       assertText (pf_reasoning pf) ''payload.preferences.reasoning'' 100 = Inr () \<and> \<not> is_unknown_mode (pf_executionMode pf))"
proof -
  have kind: "(eo_operationKind opts = Some Respond) = (\<exists>rs. content = ResponsesContent rs)"
    using assms(1) by (cases content) (auto simp: parseMailboxContent_def parseMessage_def Let_def split: if_splits option.splits)
  have m: "assertText m n 65536 = Inr ()" if "content = MessageContent m" for m n
    using assms(1) that
    by (auto simp: parseMailboxContent_def parseMessage_def Let_def assertText_ok trim_trim split: if_splits option.splits)
  have r: "content = ResponsesContent rs \<Longrightarrow> eo_inputResponses opts = Some rs \<and> \<not> (length rs < 1 \<or> length rs > 16)" for rs
    using assms(1) by (auto simp: parseMailboxContent_def parseMessage_def Let_def split: if_splits option.splits)
  have nr: "content = MessageContent m \<Longrightarrow> eo_inputResponses opts = None" for m
    using assms(1) by (auto simp: parseMailboxContent_def parseMessage_def Let_def split: if_splits option.splits)
  have o: "opn = Some o' \<Longrightarrow> assertOperation (\<exists>rs. content = ResponsesContent rs) o' = Inr ()" for o'
    using parseOperation_some [of opts o'] assms(2,3) kind by auto
  show ?thesis
  proof (cases content)
    case (MessageContent m)
    with m nr o show ?thesis
      by (auto simp: assertPayload_def mailbox_payload_def Let_def checks_ok_iff split: option.splits)
  next
    case (ResponsesContent rs)
    with r o show ?thesis
      by (auto simp: assertPayload_def mailbox_payload_def Let_def checks_ok_iff assertInputResponses_def
          list_all_iff split: option.splits)
  qed
qed

theorem service_payload_admitted_witness:
  "assertPayload (mailbox_payload \<lparr>eo_beforeTurnId = None, eo_clientMessageId = ''message1'', eo_clientContext = None,
     eo_expectedTurnId = Some ''t'', eo_inputResponses = None, eo_operationId = Some ''operation'',
     eo_operationKind = Some Steer, eo_message = Some '' hi '', eo_owner = \<lparr>ow_issuer = None, ow_principalId = ''p'',
       ow_principalType = ''user'', ow_tenantId = ''t''\<rparr>, eo_preferences = None, eo_sessionId = ''s''\<rparr>
     (MessageContent ''hi'') (Some \<lparr>op_beforeTurnId = None, op_expectedTurnId = Some ''t'', op_kind = Steer,
       op_operationId = ''operation'', op_consumptionGuard = None\<rparr>)) = Inr ()"
  by (rule service_payload_admitted [THEN iffD2])
    (simp_all add: parseMailboxContent_def parseMessage_def Let_def js_trim_def is_js_space_def parseOperation_def
      matches_id_def matches_opt_def is_alnum_def is_digit_def is_upper_def is_lower_def is_id_char_def truthy_def
      is_unknown_kind_def)

end
