(* ===== verification/Mailbox_World.thy ===== *)
theory Mailbox_World
  imports Mailbox_Service
begin

section \<open>The dispatcher against the PostgreSQL store, with other processes in between\<close>

text \<open>
  A world holds the tables, the messages the runtime has been handed, and a schedule that says, for
  the n-th call the dispatcher makes, which commands of other processes commit before it, the
  statement's time, the fresh token, which rows others hold locked, and what the runtime answers.
  Every schedule is a possible interleaving; the theorems quantify over all of them.

  Other dispatchers deliver too.  A dispatcher hands an item to the runtime only after its own
  \<open>beginAdmission\<close> of the item has returned, once for each: \<open>wl_others\<close> has an item for every such call
  of another process that succeeds, so that it counts at least the deliveries of the others.
\<close>

record world_step =
  st_others :: "mail_cmd list"
  st_now :: int
  st_uuid :: string
  st_locked :: "string \<Rightarrow> bool"
  st_boundary :: "boundary res"
  st_answer :: "deliver_input \<Rightarrow> string res"

record mail_world =
  wl_db :: mail_db
  wl_delivered :: "deliver_input list"
  wl_others :: "string list"
  wl_steps :: "nat \<Rightarrow> world_step"
  wl_calls :: nat

fun begun :: "mail_cmd \<Rightarrow> mail_db \<Rightarrow> string list" where
  "begun (CBegin k t g now) db = (case fst (beginAdmission k t g now db) of Inl e \<Rightarrow> [] | Inr r \<Rightarrow> [k])"
| "begun _ db = []"

fun all_begun :: "mail_cmd list \<Rightarrow> mail_db \<Rightarrow> string list" where
  "all_begun [] db = []"
| "all_begun (c # cs) db = begun c db @ all_begun cs (exec_cmd c db)"

text \<open>One call: the others' commands commit, then the method runs on the tables.\<close>

definition at_step :: "(world_step \<Rightarrow> (mail_db, 'a) act) \<Rightarrow> (mail_world, 'a) act" where
  "at_step f w =
     (let s = wl_steps w (wl_calls w)
      in case f s (run_cmds (st_others s) (wl_db w)) of
           (r, db) \<Rightarrow> (r, w\<lparr>wl_db := db, wl_others := wl_others w @ all_begun (st_others s) (wl_db w), wl_calls := Suc (wl_calls w)\<rparr>))"

definition world_store :: "mail_world mailbox_if" where
  "world_store = \<lparr>
     mi_enqueue = (\<lambda>i. at_step (\<lambda>s. enqueue (st_uuid s) (st_now s) i)),
     mi_claimNext = (\<lambda>l. at_step (\<lambda>s. claimNext (st_uuid s) l (st_now s) (st_locked s))),
     mi_beginAdmission = (\<lambda>k t g. at_step (\<lambda>s. beginAdmission k t g (st_now s))),
     mi_defer = (\<lambda>k t a r. at_step (\<lambda>s. defer_item k t a r (st_now s))),
     mi_deferRejectedAdmission = (\<lambda>k t a r. at_step (\<lambda>s. deferRejectedAdmission k t a r (st_now s))),
     mi_accept = (\<lambda>k t sid. at_step (\<lambda>s. accept k t sid (st_now s))),
     mi_commit = (\<lambda>k sid. at_step (\<lambda>s. commit k sid (st_now s))),
     mi_fail = (\<lambda>k t m. at_step (\<lambda>s. fail_item k t m (st_now s))),
     mi_markSubmissionAmbiguous = (\<lambda>k t m. at_step (\<lambda>s. markSubmissionAmbiguous k t m (st_now s))),
     mi_findOwned = (\<lambda>ow k. at_step (\<lambda>s. findOwned ow k))\<rparr>"

text \<open>The runtime: a delivery is on the record whatever the answer is, and others act meanwhile.\<close>

definition world_inspect :: "session_owner \<Rightarrow> string \<Rightarrow> (mail_world, boundary) act" where
  "world_inspect ow sid = at_step (\<lambda>s. lift_res (st_boundary s))"

definition world_deliver :: "deliver_input \<Rightarrow> (mail_world, string) act" where
  "world_deliver i w = at_step (\<lambda>s. lift_res (st_answer s i)) (w\<lparr>wl_delivered := wl_delivered w @ [i]\<rparr>)"

definition world_runtime :: "mail_world runtime_if" where
  "world_runtime = \<lparr>rt_inspect = world_inspect, rt_deliver = world_deliver\<rparr>"

definition dispatch :: "mail_world dispatch_options \<Rightarrow> (mail_world, dispatch_result) act" where
  "dispatch opts = dispatchNextAgentMailboxMessage opts world_runtime world_store"

subsection \<open>The store meets the dispatcher's contract\<close>

definition world_ok :: "mail_world \<Rightarrow> bool" where
  "world_ok w \<longleftrightarrow> db_ok (wl_db w)"

lemma at_step_fields [simp]:
  "wl_db (snd (at_step f w)) =
     snd (f (wl_steps w (wl_calls w)) (run_cmds (st_others (wl_steps w (wl_calls w))) (wl_db w)))"
  "wl_delivered (snd (at_step f w)) = wl_delivered w"
  "wl_others (snd (at_step f w)) = wl_others w @ all_begun (st_others (wl_steps w (wl_calls w))) (wl_db w)"
  "wl_steps (snd (at_step f w)) = wl_steps w"
  "fst (at_step f w) =
     fst (f (wl_steps w (wl_calls w)) (run_cmds (st_others (wl_steps w (wl_calls w))) (wl_db w)))"
  by (simp_all add: at_step_def Let_def split: prod.splits)

lemma yields_at_step:
  assumes "\<And>s. yields db_ok (f s) Q"
  shows "yields world_ok (at_step f) Q"
  using assms run_cmds_ok
  by (fastforce simp: yields_def world_ok_def at_step_def Let_def split: prod.splits)

text \<open>Each method as the command it is.\<close>

lemma keeps_cmd: "(\<And>db. snd (m db) = exec_cmd c db) \<Longrightarrow> keeps db_ok m"
  by (simp add: keeps_def exec_cmd_ok)

lemma keeps_world: "(\<And>s. keeps db_ok (f s)) \<Longrightarrow> keeps world_ok (at_step f)"
  by (simp add: keeps_def world_ok_def run_cmds_ok)

lemma findOwned_pure: "snd (findOwned ow k db) = db"
  by (auto simp: findOwned_def bind_act_def lift_res_def split: sum.splits)

lemma update_required_yields:
  "(\<And>r. Q (toRecord (f r))) \<Longrightarrow> yields I (update_required P f) Q"
  by (auto simp: yields_def update_required_def update_items_def bind_act_def lift_res_def requireRow_def returning_def)

lemma claimed_yields:
  "yields I (claimedTransition k t st sid err req now) (\<lambda>x. \<forall>r. x = Some r \<longrightarrow> mb_status r = st)"
  by (auto simp: yields_def claimedTransition_def update_items_def bind_act_def lift_res_def ret_def
      requireRow_def require_row_def returning_def claimed_write_def split: sum.splits option.splits if_splits)

lemma yields_lift_bind:
  "(\<And>x. yields I (f x) Q) \<Longrightarrow> yields I (bind_act (lift_res r) f) Q"
  by (auto simp: yields_def bind_act_def lift_res_def split: sum.splits)

lemma yields_required:
  assumes "yields I m (\<lambda>x. \<forall>r. x = Some r \<longrightarrow> Q r)"
  shows "yields I (bind_act m (\<lambda>r. lift_res (requireRow r))) Q"
  using assms
  by (fastforce simp: yields_def bind_act_def lift_res_def requireRow_def split: prod.splits sum.splits)

lemma accept_yields: "yields I (accept k t sid now) (\<lambda>x. mb_status x \<in> {MAccepted, MCommitted})"
  using claimed_yields [of I k t MAccepted "Some sid" None False now]
  unfolding accept_def
  by (intro yields_lift_bind)
    (fastforce simp: yields_def bind_act_def lift_res_def ret_def requireRow_def
      split: prod.splits sum.splits option.splits dest: find_Some_D)

lemma store_yields:
  "yields I (defer_item k t a r now) (\<lambda>x. mb_status x = MQueued)"
  "yields I (deferRejectedAdmission k t a r now) (\<lambda>x. mb_status x = MQueued)"
  "yields I (commit k sid now) (\<lambda>x. mb_status x = MCommitted)"
  "yields I (fail_item k t m now) (\<lambda>x. mb_status x = MFailed)"
  "yields I (markSubmissionAmbiguous k t m now) (\<lambda>x. mb_status x = MSubmissionAmbiguous)"
  unfolding method_defs
  by (intro yields_lift_bind update_required_yields yields_required claimed_yields; simp add: write_defs)+

lemmas store_fields = world_store_def world_runtime_def world_inspect_def

interpretation pg: mailbox_contract world_store world_runtime world_ok
proof
  fix l k t g a r s m ow i
  show "keeps world_ok (mi_claimNext world_store l)"
    by (simp add: store_fields keeps_world keeps_claimNext)
  show "keeps world_ok (mi_beginAdmission world_store k t g)"
    by (simp add: store_fields, intro keeps_world keeps_cmd) (rule exec_cmd.simps [symmetric])
  show "keeps world_ok (mi_defer world_store k t a r)"
    by (simp add: store_fields, intro keeps_world keeps_cmd) (rule exec_cmd.simps [symmetric])
  show "keeps world_ok (mi_deferRejectedAdmission world_store k t a r)"
    by (simp add: store_fields, intro keeps_world keeps_cmd) (rule exec_cmd.simps [symmetric])
  show "keeps world_ok (mi_accept world_store k t s)"
    by (simp add: store_fields, intro keeps_world keeps_cmd) (rule exec_cmd.simps [symmetric])
  show "keeps world_ok (mi_commit world_store k s)"
    by (simp add: store_fields, intro keeps_world keeps_cmd) (rule exec_cmd.simps [symmetric])
  show "keeps world_ok (mi_fail world_store k t m)"
    by (simp add: store_fields, intro keeps_world keeps_cmd) (rule exec_cmd.simps [symmetric])
  show "keeps world_ok (mi_markSubmissionAmbiguous world_store k t m)"
    by (simp add: store_fields, intro keeps_world keeps_cmd) (rule exec_cmd.simps [symmetric])
  show "keeps world_ok (mi_findOwned world_store ow k)"
    by (simp add: store_fields, intro keeps_world) (simp add: keeps_def findOwned_pure)
  show "keeps world_ok (rt_inspect world_runtime ow k)"
    by (simp add: store_fields, intro keeps_world) simp
  show "keeps world_ok (rt_deliver world_runtime i)"
    by (simp add: store_fields keeps_def world_deliver_def world_ok_def lift_res_def run_cmds_ok)
  show "yields world_ok (mi_defer world_store k t a r) (\<lambda>x. mb_status x = MQueued)"
    "yields world_ok (mi_deferRejectedAdmission world_store k t a r) (\<lambda>x. mb_status x = MQueued)"
    "yields world_ok (mi_accept world_store k t s) (\<lambda>x. mb_status x \<in> {MAccepted, MCommitted})"
    "yields world_ok (mi_commit world_store k s) (\<lambda>x. mb_status x = MCommitted)"
    "yields world_ok (mi_fail world_store k t m) (\<lambda>x. mb_status x = MFailed)"
    "yields world_ok (mi_markSubmissionAmbiguous world_store k t m) (\<lambda>x. mb_status x = MSubmissionAmbiguous)"
    by (simp_all add: store_fields yields_at_step store_yields accept_yields [simplified])
qed

end
