(* ===== verification/Mailbox_Theorems.thy ===== *)
theory Mailbox_Theorems
  imports Mailbox_Safety
begin

section \<open>The properties of the mailbox store\<close>

text \<open>A concrete session, owner, message and rows, for the witnesses.\<close>

definition demo_owner :: session_owner where
  "demo_owner = \<lparr>ow_issuer = None, ow_principalId = ''p'', ow_principalType = ''user'', ow_tenantId = ''t''\<rparr>"

definition demo_input :: "string \<Rightarrow> enqueue_input" where
  "demo_input cid = \<lparr>en_clientMessageId = cid, en_owner = demo_owner,
     en_payload = \<lparr>pl_clientContext = None, pl_operation = None, pl_preferences = None,
       pl_message = Some ''hi'', pl_inputResponses = None\<rparr>,
     en_payloadFingerprint = ''f'', en_sessionId = ''s''\<rparr>"

definition edit_input :: enqueue_input where
  "edit_input = (demo_input ''c'')\<lparr>en_payload := \<lparr>pl_clientContext = None,
     pl_operation = Some \<lparr>op_beforeTurnId = Some ''u'', op_expectedTurnId = None, op_kind = Edit,
       op_operationId = ''op'', op_consumptionGuard = Some ''edit-v1''\<rparr>,
     pl_preferences = None, pl_message = Some ''hi'', pl_inputResponses = None\<rparr>\<rparr>"

definition queued_row :: mail_row where
  "queued_row = new_row ''a'' 100 (demo_input ''c'')"

definition admitted_row :: "enqueue_input \<Rightarrow> mail_row" where
  "admitted_row i = (new_row ''a'' 100 i)\<lparr>mb_status := MDelivering, mb_claimToken := Some ''k'',
     mb_claimExpiresAt := Some 200, mb_attemptCount := 1, mb_admissionStartedAt := Some 150\<rparr>"

definition demo_db :: "mail_row list \<Rightarrow> mail_db" where
  "demo_db rs = \<lparr>db_owners = [(''s'', demo_owner)], db_items = rs\<rparr>"

lemmas demo_defs = demo_owner_def demo_input_def edit_input_def queued_row_def admitted_row_def demo_db_def
  new_row_def

lemma demo_ok: "db_ok (demo_db [])" "db_ok (demo_db [queued_row])"
  "db_ok (demo_db [admitted_row (demo_input c)])" "db_ok (demo_db [admitted_row edit_input])"
  by (auto simp: db_ok_def owners_ok_def row_ok_def pending_count_def demo_defs)

text \<open>C37 (mailbox_runs_ok)
  Whatever sequence of mailbox methods the web processes and dispatchers run, the table keeps its
  check constraint on claims, its two unique keys, the match between an item and the owner of its
  session, the columns each status promises, and at most five unsettled items per session.\<close>

theorem mailbox_runs_ok: "db_ok (run_cmds cs empty_db)"
  by (rule run_cmds_ok [OF empty_db_ok])

text \<open>C5 (one_delivery_per_session)
  With a forward clock (every insert later than the items of its session), two different items of
  one session are never being delivered at the same time.\<close>

theorem one_delivery_per_session:
  assumes "forward_run cs empty_db"
    and "r \<in> set (db_items (run_cmds cs empty_db))" and "r' \<in> set (db_items (run_cmds cs empty_db))"
    and "mb_status r = MDelivering" and "mb_status r' = MDelivering" and "mb_sessionId r = mb_sessionId r'"
  shows "r = r'"
  using head_unique [OF forward_run_head [OF empty_db_head empty_db_ok assms(1)] run_cmds_ok [OF empty_db_ok] assms(2-)] .

definition demo_cmds :: "mail_cmd list" where
  "demo_cmds = [COwner ''s'' demo_owner, CEnqueue ''a'' 100 (demo_input ''c''),
     CEnqueue ''b'' 101 (demo_input ''d''), CClaim ''k'' None 102 (\<lambda>_. False)]"

text \<open>The concrete runs, step by step.\<close>

lemma demo_checks: "enqueue_checks (demo_input ''c'') = Inr ()" "enqueue_checks (demo_input ''d'') = Inr ()"
  by (simp_all add: enqueue_checks_def assertOwner_def assertPayload_def assertText_ok assert_that_def checks_ok_iff
      js_trim_def is_js_space_def demo_defs)

lemma demo_owner_ok: "assertOwner demo_owner = Inr ()"
  by (simp add: assertOwner_def checks_ok_iff assertText_ok js_trim_def is_js_space_def demo_defs)

lemma demo_start: "exec_cmd (COwner ''s'' demo_owner) empty_db = demo_db []"
proof -
  have "checks [assertText ''s'' ''sessionId'' 512, assertOwner demo_owner] = Inr ()"
    by (simp add: checks_ok_iff demo_owner_ok assertText_ok js_trim_def is_js_space_def)
  then show ?thesis
    by (simp add: claimOwnership_def bind_act_def lift_res_def)
      (simp add: verifyOwnership_def insert_owner_def ret_def empty_db_def demo_db_def)
qed

lemma demo_enqueue:
  "enqueue ''a'' t (demo_input ''c'') (demo_db []) =
     (Inr (Created (new_row ''a'' t (demo_input ''c''))), demo_db [new_row ''a'' t (demo_input ''c'')])"
  by (simp add: enqueue_alt demo_checks)
    (simp add: enqueue_tx_def transaction_def insert_row_def Let_def pending_count_def
      edit_is_unsupported_def toRecord_def truthy_def demo_defs)

lemma demo_enqueue_next:
  assumes "mb_itemId r = ''mail_a''" and "mb_clientMessageId r = ''c''"
  shows "enqueue ''b'' t (demo_input ''d'') (demo_db [r]) =
     (Inr (Created (new_row ''b'' t (demo_input ''d''))), demo_db [r, new_row ''b'' t (demo_input ''d'')])"
  using assms
  by (simp add: enqueue_alt demo_checks)
    (simp add: enqueue_tx_def transaction_def insert_row_def Let_def same_client_def pending_count_def
      edit_is_unsupported_def toRecord_def truthy_def demo_defs)

lemmas claim_eval = claimNext_def assertLease_def bind_act_def lift_res_def assert_that_def claim_candidate_def
  candidates_def sweep_def update_where_def edit_expired_def lease_lost_def claimable_def blocks_def
  unsettled_def created_before_def claim_row_def Let_def returning_def claim_order_def toRecord_def truthy_def
  sql_before_def

lemma demo_claim:
  "claimNext ''k'' None 102 (\<lambda>_. False) (demo_db [queued_row, new_row ''b'' 101 (demo_input ''d'')]) =
     (Inr (Some (claim_row ''k'' 60000 102 queued_row)),
      demo_db [claim_row ''k'' 60000 102 queued_row, new_row ''b'' 101 (demo_input ''d'')])"
  by (simp add: claim_eval demo_defs)

lemma demo_claim_one:
  "t \<le> 102 \<Longrightarrow> claimNext ''k'' None 102 (\<lambda>_. False) (demo_db [new_row ''a'' t (demo_input ''c'')]) =
     (Inr (Some (claim_row ''k'' 60000 102 (new_row ''a'' t (demo_input ''c'')))),
      demo_db [claim_row ''k'' 60000 102 (new_row ''a'' t (demo_input ''c''))])"
  by (simp add: claim_eval demo_defs)

lemma demo_run:
  "run_cmds demo_cmds empty_db =
     demo_db [claim_row ''k'' 60000 102 queued_row, new_row ''b'' 101 (demo_input ''d'')]"
proof -
  have "enqueue ''b'' 101 (demo_input ''d'') (demo_db [queued_row]) =
      (Inr (Created (new_row ''b'' 101 (demo_input ''d''))), demo_db [queued_row, new_row ''b'' 101 (demo_input ''d'')])"
    by (rule demo_enqueue_next) (simp_all add: queued_row_def new_row_def demo_input_def)
  then show ?thesis
    by (simp only: demo_cmds_def run_cmds_simps demo_start exec_cmd.simps(2,3) demo_enqueue snd_conv
        queued_row_def [symmetric] demo_claim)
qed

lemma demo_forward: "forward_run demo_cmds empty_db"
  by (simp only: demo_cmds_def forward_run.simps forward_clock.simps demo_start exec_cmd.simps(2) demo_enqueue snd_conv)
    (simp add: demo_db_def new_row_def demo_input_def)

theorem one_delivery_per_session_witness:
  "\<exists>r \<in> set (db_items (run_cmds demo_cmds empty_db)). mb_status r = MDelivering \<and>
     (\<forall>r' \<in> set (db_items (run_cmds demo_cmds empty_db)). mb_status r' = MDelivering \<longrightarrow>
        mb_sessionId r = mb_sessionId r' \<longrightarrow> r = r')"
proof -
  have in_db: "claim_row ''k'' 60000 102 queued_row \<in> set (db_items (run_cmds demo_cmds empty_db))"
    by (simp add: demo_run demo_db_def)
  have "mb_status (claim_row ''k'' 60000 102 queued_row) = MDelivering" by (simp add: claim_row_def)
  with in_db one_delivery_per_session [OF demo_forward in_db] show ?thesis by blast
qed

definition skewed_cmds :: "mail_cmd list" where
  "skewed_cmds = [COwner ''s'' demo_owner, CEnqueue ''a'' 101 (demo_input ''c''), CClaim ''k'' None 102 (\<lambda>_. False),
     CEnqueue ''b'' 100 (demo_input ''d''), CClaim ''l'' None 103 (\<lambda>_. False)]"

lemma skewed_claim:
  "claimNext ''l'' None 103 (\<lambda>_. False)
     (demo_db [claim_row ''k'' 60000 102 (new_row ''a'' 101 (demo_input ''c'')), new_row ''b'' 100 (demo_input ''d'')]) =
   (Inr (Some (claim_row ''l'' 60000 103 (new_row ''b'' 100 (demo_input ''d'')))),
    demo_db [claim_row ''k'' 60000 102 (new_row ''a'' 101 (demo_input ''c'')),
      claim_row ''l'' 60000 103 (new_row ''b'' 100 (demo_input ''d''))])"
  by (simp add: claim_eval demo_defs)

lemma skewed_run:
  "run_cmds skewed_cmds empty_db =
     demo_db [claim_row ''k'' 60000 102 (new_row ''a'' 101 (demo_input ''c'')),
      claim_row ''l'' 60000 103 (new_row ''b'' 100 (demo_input ''d''))]"
proof -
  let ?a = "claim_row ''k'' 60000 102 (new_row ''a'' 101 (demo_input ''c''))"
  have "enqueue ''b'' 100 (demo_input ''d'') (demo_db [?a]) =
      (Inr (Created (new_row ''b'' 100 (demo_input ''d''))), demo_db [?a, new_row ''b'' 100 (demo_input ''d'')])"
    by (rule demo_enqueue_next) (simp_all add: claim_row_def new_row_def demo_input_def)
  moreover have "claimNext ''k'' None 102 (\<lambda>_. False) (demo_db [new_row ''a'' 101 (demo_input ''c'')]) =
      (Inr (Some ?a), demo_db [?a])"
    by (rule demo_claim_one) simp
  ultimately show ?thesis
    by (simp only: skewed_cmds_def run_cmds_simps demo_start exec_cmd.simps(2,3) demo_enqueue snd_conv skewed_claim)
qed

text \<open>Remark (clock_skew_delivers_twice)
  The forward clock is needed: \<^verbatim>\<open>created_at\<close> defaults to the start of the inserting transaction, which
  may wait for the owner row, so a later insert can carry an earlier time.  Then the newer row is
  ordered before the one being delivered, and two items of one session are delivered at once.\<close>

theorem clock_skew_delivers_twice:
  "\<exists>cs. \<exists>r \<in> set (db_items (run_cmds cs empty_db)). \<exists>r' \<in> set (db_items (run_cmds cs empty_db)).
     mb_itemId r \<noteq> mb_itemId r' \<and> mb_sessionId r = mb_sessionId r' \<and>
     mb_status r = MDelivering \<and> mb_status r' = MDelivering"
  by (rule exI [of _ skewed_cmds]) (simp add: skewed_run claim_row_def demo_db_def demo_input_def)

text \<open>Remark (claim_takes_fifo_head)
  An item that \<open>claimNext\<close> hands out was queued and due, or its lease had run out before admission; it
  is now delivering under the fresh token, and every earlier item of its session is committed or
  cancelled.\<close>

theorem claim_takes_fifo_head:
  assumes "db_ok db" and "claimNext uuid l now locked db = (Inr (Some r), db')"
  shows "mb_status r = MDelivering \<and> mb_claimToken r = truthy (Some uuid) \<and>
    (\<exists>r0 \<in> set (db_items db). mb_itemId r0 = mb_itemId r \<and> claimable now r0 \<and> \<not> locked (mb_itemId r0)) \<and>
    (\<forall>b \<in> set (db_items db'). \<not> blocks b r)"
proof -
  let ?db = "db\<lparr>db_items := sweep now (db_items db)\<rparr>"
  from assms(2) obtain leaseMs where c: "claim_candidate uuid leaseMs now locked ?db = (Inr (Some r), db')"
    by (auto simp: claimNext_def Let_def bind_act_def lift_res_def split: sum.splits option.splits)
  show ?thesis
  proof (cases rule: claim_candidate_cases [OF db_ok_distinct [OF sweep_ok [OF assms(1), of now]], of uuid leaseMs now locked])
    case 1
    with c show ?thesis by simp
  next
    case (2 t)
    let ?g = "\<lambda>r. mb_itemId r = mb_itemId t \<and> claimable now r"
    from 2 c have r: "r = toRecord (claim_row uuid leaseMs now t)"
      and db': "db_items db' = update_where ?g (claim_row uuid leaseMs now) (sweep now (db_items db))"
      by auto
    have "\<not> blocks b r" if "b \<in> set (db_items db')" for b
    proof
      assume bl: "blocks b r"
      from that obtain b0 where b0: "b0 \<in> set (sweep now (db_items db))" "b = (if ?g b0 then claim_row uuid leaseMs now b0 else b0)"
        by (auto simp: db' set_update_where)
      from bl have "unsettled b" by (simp add: blocks_def)
      then have "unsettled b0" unfolding b0(2) by (rule claim.unsettled_back)
      moreover have "mail_ident b = mail_ident b0" unfolding b0(2) by (rule claim.ident_if)
      moreover have "mail_ident r = mail_ident t" by (simp add: r mail_ident_def claim_row_def toRecord_def)
      ultimately have "blocks b0 t" using bl by (blast intro: blocks_ident)
      with 2(3) b0(1) show False by simp
    qed
    moreover have "t \<in> set (db_items db)"
      using 2(1,2) by (auto simp: sweep_def set_update_where claimable_def write_defs split: if_splits)
    ultimately show ?thesis
      using 2 by (auto simp: r toRecord_def claim_row_def)
  qed
qed

theorem claim_takes_fifo_head_witness:
  "mb_status (claim_row ''k'' 60000 102 queued_row) = MDelivering \<and>
   \<not> (\<exists>b \<in> set (db_items (snd (claimNext ''k'' None 102 (\<lambda>_. False) (demo_db [queued_row])))).
      blocks b (claim_row ''k'' 60000 102 queued_row))"
  using claim_takes_fifo_head [OF demo_ok(2), of "''k''" None 102 "\<lambda>_. False"] demo_claim_one [of 100]
  by (simp add: queued_row_def)

text \<open>C8 (no_replay_after_admission)
  Once the admission of a delivery is recorded, the item is never handed to a dispatcher again by any
  sequence of methods, unless the runtime's rejection is recorded or the owner retries a failure: it is
  never queued and its attempt count stays.\<close>

theorem no_replay_after_admission:
  assumes "db_ok db" and "r \<in> set (db_items db)" and "mb_status r = MDelivering"
    and "mb_admissionStartedAt r \<noteq> None" and "\<forall>c \<in> set cs. \<not> readmits (mb_itemId r) c"
  shows "\<exists>r' \<in> set (db_items (run_cmds cs db)). mb_itemId r' = mb_itemId r \<and>
    mb_attemptCount r' = mb_attemptCount r \<and> mb_status r' \<noteq> MQueued"
proof -
  have "past_admission (mb_itemId r) (mb_attemptCount r) x" if "x \<in> set (db_items db)" for x
    using that assms distinct_map_inj [OF db_ok_distinct [OF assms(1)], of x r] by (auto simp: past_admission_def)
  then have "list_all (past_admission (mb_itemId r) (mb_attemptCount r)) (db_items (run_cmds cs db))"
    using assms by (intro past_admission_run) (auto simp: list_all_iff)
  moreover obtain r' where "r' \<in> set (db_items (run_cmds cs db))" "mb_itemId r' = mb_itemId r"
    using settles_run [OF assms(1), of cs] assms(2)
    by (fastforce simp: table_settles_def settles_def mail_ident_def)
  ultimately show ?thesis by (auto simp: list_all_iff past_admission_def)
qed

theorem no_replay_after_admission_witness:
  "\<exists>r' \<in> set (db_items (run_cmds [CClaim ''l'' None 999 (\<lambda>_. False)] (demo_db [admitted_row (demo_input ''c'')]))).
     mb_attemptCount r' = 1 \<and> mb_status r' \<noteq> MQueued"
  using no_replay_after_admission [OF demo_ok(3) [of "''c''"], of "admitted_row (demo_input ''c'')" "[CClaim ''l'' None 999 (\<lambda>_. False)]"]
  by (auto simp: demo_defs)

text \<open>Remark (enqueue_is_idempotent)
  A message accepted once is never stored twice: after any further methods, sending the same client
  message id with the same content answers with the stored item and leaves the table as it is.\<close>

theorem enqueue_is_idempotent:
  assumes "db_ok db" and "enqueue uuid now i db = (Inr (Created item), db1)"
  shows "\<exists>item'. enqueue uuid' now' i (run_cmds cs db1) = (Inr (Replay item'), run_cmds cs db1) \<and>
    mb_itemId item' = mb_itemId item"
proof (cases rule: enqueue_cases [of uuid now i db])
  case 1
  with assms(2) show ?thesis by simp
next
  case 2
  with assms(2) have db1: "db1 = db\<lparr>db_items := db_items db @ [new_row uuid now i]\<rparr>"
    and item: "item = toRecord (new_row uuid now i)" by auto
  have ok1: "db_ok db1" using exec_cmd_ok [OF assms(1), of "CEnqueue uuid now i"] assms(2) by simp
  from settles_run [OF ok1, of cs] obtain r'
    where r': "r' \<in> set (db_items (run_cmds cs db1))" "mail_ident r' = mail_ident (new_row uuid now i)"
    by (auto simp: table_settles_def settles_def db1)
  have "same_client i r'" using r'(2) by (auto simp: mail_ident_def same_client_def owned_by_def new_row_def)
  then obtain r where f: "find (same_client i) (db_items (run_cmds cs db1)) = Some r"
    using r'(1) by (cases "find (same_client i) (db_items (run_cmds cs db1))") (auto simp: find_None_iff)
  have "distinct (map client_key (db_items (run_cmds cs db1)))"
    using run_cmds_ok [OF ok1, of cs] by (simp add: db_ok_def)
  moreover have "client_key r = client_key r'"
    using find_Some_D [OF f] \<open>same_client i r'\<close> by (simp add: client_key_def same_client_def owned_by_def)
  ultimately have "r = r'"
    using distinct_map_inj [of client_key "db_items (run_cmds cs db1)" r r'] find_Some_D [OF f] r'(1) by blast
  obtain ow where "map_of (db_owners db1) (en_sessionId i) = Some ow" "ow_tenantId ow = ow_tenantId (en_owner i)"
      "ow_principalId ow = ow_principalId (en_owner i)"
    using 2(2) by (auto simp: enqueue_effect_def db1)
  then have "map_of (db_owners (run_cmds cs db1)) (en_sessionId i) = Some ow"
    and "ow_tenantId ow = ow_tenantId (en_owner i)" and "ow_principalId ow = ow_principalId (en_owner i)"
    by (simp_all add: owners_run)
  moreover have "mb_payloadFingerprint r = en_payloadFingerprint i" "mb_sessionId r = en_sessionId i"
      "mb_itemId r = ''mail_'' @ uuid"
    using r'(2) unfolding \<open>r = r'\<close> by (simp_all add: mail_ident_def)
  ultimately have "enqueue_tx uuid' now' i (run_cmds cs db1) = (Inr (Replay (toRecord r)), run_cmds cs db1)"
    using f by (simp add: enqueue_tx_def)
  then have "enqueue uuid' now' i (run_cmds cs db1) = (Inr (Replay (toRecord r)), run_cmds cs db1)"
    using 2(3) by (simp add: enqueue_alt transaction_def)
  with \<open>mb_itemId r = _\<close> show ?thesis by (simp add: item)
qed

theorem enqueue_is_idempotent_witness:
  "\<exists>item'. enqueue ''z'' 300 (demo_input ''c'') (run_cmds [CClaim ''k'' None 200 (\<lambda>_. False)] (demo_db [queued_row])) =
     (Inr (Replay item'), run_cmds [CClaim ''k'' None 200 (\<lambda>_. False)] (demo_db [queued_row])) \<and> mb_itemId item' = ''mail_a''"
proof -
  from enqueue_is_idempotent [OF demo_ok(1) demo_enqueue [of 100], of "''z''" 300 "[CClaim ''k'' None 200 (\<lambda>_. False)]"]
  show ?thesis by (simp only: queued_row_def [symmetric]) (simp add: queued_row_def)
qed

text \<open>Remark (settled_items_stay)
  Items are never deleted, and a committed or cancelled item keeps that status through every later
  sequence of methods.\<close>

theorem settled_items_stay:
  assumes "db_ok db" and "r \<in> set (db_items db)" and "mb_status r \<in> {MCommitted, MCancelled}"
  shows "\<exists>r' \<in> set (db_items (run_cmds cs db)). mail_ident r' = mail_ident r \<and> mb_status r' = mb_status r"
  using settles_run [OF assms(1), of cs] assms(2,3) unfolding table_settles_def settles_def by blast

theorem settled_items_stay_witness:
  "\<exists>r' \<in> set (db_items (run_cmds [CRetry demo_owner ''mail_a'' 9] (demo_db [cancel_write 5 queued_row]))).
     mb_status r' = MCancelled"
proof -
  have "db_ok (demo_db [cancel_write 5 queued_row])"
    by (auto simp: db_ok_def owners_ok_def row_ok_def pending_count_def demo_defs cancel_write_def)
  from settled_items_stay [OF this, of "cancel_write 5 queued_row" "[CRetry demo_owner ''mail_a'' 9]"]
  show ?thesis by (auto simp: demo_defs cancel_write_def)
qed

text \<open>Remark (guarded_edit_consumed_or_expired)
  The consumption of a guarded edit and its expiry exclude each other: once \<open>consumeEdit\<close> has answered
  yes the item stays committed for good, and once the item is cancelled \<open>consumeEdit\<close> answers no and
  changes nothing.\<close>

theorem guarded_edit_consumed_or_expired:
  assumes ok: "db_ok db" and r: "r \<in> set (db_items db)" and t: "consume_target i r"
    and g: "json_guard r = Some ''edit-v1''" and owner: "assertOwner (ce_owner i) = Inr ()"
  shows "(fst (consumeEdit i now db) = Inr True \<longrightarrow>
      (\<exists>r' \<in> set (db_items (run_cmds cs (snd (consumeEdit i now db)))). mb_itemId r' = ce_itemId i \<and> mb_status r' = MCommitted)) \<and>
    (mb_status r = MCancelled \<longrightarrow> consumeEdit i now db = (Inr False, db))"
proof -
  obtain x where f: "find (consume_target i) (db_items db) = Some x"
    using r t by (cases "find (consume_target i) (db_items db)") (auto simp: find_None_iff)
  have "x = r"
    using find_Some_D [OF f] r t distinct_map_inj [OF db_ok_distinct [OF ok], of x r] by (auto simp: consume_target_def)
  show ?thesis
  proof (cases "mb_status r \<in> {MDelivering, MAccepted, MSubmissionAmbiguous, MCommitted}")
    case True
    let ?db = "db\<lparr>db_items := update_where (\<lambda>r. mb_itemId r = ce_itemId i) (commit_consumed (ce_sessionId i) now) (db_items db)\<rparr>"
    have e: "consumeEdit i now db = (Inr True, ?db)"
      using True f \<open>x = r\<close> g owner
      by (simp add: consumeEdit_def consume_tx_def bind_act_def lift_res_def transaction_def)
    have "commit_consumed (ce_sessionId i) now r \<in> set (db_items ?db)"
      using r t by (auto simp: set_update_where consume_target_def intro!: bexI [of _ r])
    moreover have "db_ok ?db" using keeps_consume [of i now] ok e by (auto simp: keeps_def dest: spec [of _ db])
    ultimately obtain r' where "r' \<in> set (db_items (run_cmds cs ?db))"
        "settles (commit_consumed (ce_sessionId i) now r) r'"
      using settles_run by (fastforce simp: table_settles_def)
    with t e True show ?thesis
      by (auto simp: settles_def mail_ident_def commit_consumed_def consume_target_def)
  next
    case False
    with f \<open>x = r\<close> g owner show ?thesis
      by (simp add: consumeEdit_def consume_tx_def bind_act_def lift_res_def transaction_def)
  qed
qed

theorem guarded_edit_consumed_or_expired_witness:
  "\<exists>r' \<in> set (db_items (run_cmds [CClaim ''l'' None 900000 (\<lambda>_. False)]
      (snd (consumeEdit \<lparr>ce_beforeTurnId = ''u'', ce_clientMessageId = ''c'', ce_itemId = ''mail_a'',
         ce_owner = demo_owner, ce_sessionId = ''s''\<rparr> 160 (demo_db [admitted_row edit_input]))))).
     mb_itemId r' = ''mail_a'' \<and> mb_status r' = MCommitted"
proof -
  let ?i = "\<lparr>ce_beforeTurnId = ''u'', ce_clientMessageId = ''c'', ce_itemId = ''mail_a'',
         ce_owner = demo_owner, ce_sessionId = ''s''\<rparr>"
  have "fst (consumeEdit ?i 160 (demo_db [admitted_row edit_input])) = Inr True"
    by (simp add: consumeEdit_def consume_tx_def bind_act_def lift_res_def transaction_def demo_owner_ok)
      (simp add: consume_target_def owned_by_def json_kind_def json_beforeTurnId_def json_guard_def demo_defs)
  with guarded_edit_consumed_or_expired [OF demo_ok(4), of "admitted_row edit_input" ?i 160 "[CClaim ''l'' None 900000 (\<lambda>_. False)]"] demo_owner_ok
  show ?thesis
    by (simp add: consume_target_def owned_by_def json_kind_def json_beforeTurnId_def json_guard_def demo_defs)
qed

end
