(* ===== verification/Mailbox_Dispatch.thy ===== *)
theory Mailbox_Dispatch
  imports Mailbox_World Mailbox_Theorems
begin

section \<open>What a dispatch guarantees under every interleaving\<close>

subsection \<open>A delivered item is past admission\<close>

text \<open>No other process readmits the item, and the runtime never answers that it is busy.\<close>

definition schedule_quiet :: "string \<Rightarrow> (nat \<Rightarrow> world_step) \<Rightarrow> bool" where
  "schedule_quiet k S \<longleftrightarrow>
     (\<forall>n. \<forall>c \<in> set (st_others (S n)). \<not> readmits k c) \<and>
     (\<forall>n i m. st_answer (S n) i \<noteq> Inl (AdmissionError Busy m))"

definition past_in :: "string \<Rightarrow> mail_db \<Rightarrow> bool" where
  "past_in k db \<longleftrightarrow> (\<exists>n. list_all (past_admission k n) (db_items db)) \<and> (\<exists>r \<in> set (db_items db). mb_itemId r = k)"

definition not_busy :: "js_error \<Rightarrow> bool" where
  "not_busy e \<longleftrightarrow> (\<forall>m. e \<noteq> AdmissionError Busy m)"

lemma past_in_run:
  "db_ok db \<Longrightarrow> past_in k db \<Longrightarrow> \<forall>c \<in> set cs. \<not> readmits k c \<Longrightarrow> past_in k (run_cmds cs db)"
  using past_admission_run [of db k _ cs] settles_run [of db cs]
  by (fastforce simp: past_in_def table_settles_def settles_def mail_ident_def)

text \<open>Admission begins only for an item that is not past it, and brings the item past it.\<close>

lemma begin_past:
  assumes ok: "db_ok db" and e: "beginAdmission j t g now db = (Inr x, db')"
  shows "\<not> past_in j db" and "past_in j db'"
proof -
  from e obtain r where f: "find (admission_open j t now) (db_items db) = Some r"
    and db': "db' = db\<lparr>db_items := update_where (admission_open j t now) (open_admission g now) (db_items db)\<rparr>"
    by (auto simp: beginAdmission_def update_required_def update_items_def bind_act_def lift_res_def
        requireRow_def returning_def split: sum.splits)
  have r: "r \<in> set (db_items db)" "admission_open j t now r" using find_Some_D [OF f] by auto
  then show "\<not> past_in j db" by (auto simp: past_in_def list_all_iff past_admission_def admission_open_def)
  have "list_all (past_admission j (mb_attemptCount r)) (db_items db')"
    using distinct_map_inj [OF db_ok_distinct [OF ok] _ r(1)] r(2)
    by (fastforce simp: list_all_iff db' set_update_where past_admission_def admission_open_def open_admission_def)
  moreover have "\<exists>r' \<in> set (db_items db'). mb_itemId r' = j"
    using r by (intro bexI [of _ "open_admission g now r"])
      (auto simp: db' set_update_where admission_open_def open_admission_def intro!: bexI [of _ r])
  ultimately show "past_in j db'" by (auto simp: past_in_def)
qed

subsection \<open>At most one delivery\<close>

text \<open>
  The tables in order and item \<open>k\<close> handed out at most once, by this dispatcher or by others; once it
  has been, it is past admission.
\<close>

definition deliveries_of :: "string \<Rightarrow> deliver_input list \<Rightarrow> nat" where
  "deliveries_of k L = length (filter (\<lambda>i. dl_itemId i = k) L)"

definition begun_for :: "string \<Rightarrow> string list \<Rightarrow> nat" where
  "begun_for k ks = length (filter (\<lambda>j. j = k) ks)"

definition handed :: "string \<Rightarrow> mail_world \<Rightarrow> nat" where
  "handed k w = deliveries_of k (wl_delivered w) + begun_for k (wl_others w)"

definition at_most_one :: "string \<Rightarrow> nat \<Rightarrow> mail_db \<Rightarrow> bool" where
  "at_most_one k n db \<longleftrightarrow> db_ok db \<and> n \<le> 1 \<and> (n = 1 \<longrightarrow> past_in k db)"

definition once :: "(nat \<Rightarrow> world_step) \<Rightarrow> string \<Rightarrow> mail_world \<Rightarrow> bool" where
  "once S k w \<longleftrightarrow> wl_steps w = S \<and> at_most_one k (handed k w) (wl_db w)"

lemma at_most_one_exec: "at_most_one k n db \<Longrightarrow> \<not> readmits k c \<Longrightarrow> at_most_one k n (exec_cmd c db)"
  using past_in_run [of db k "[c]"] by (auto simp: at_most_one_def exec_cmd_ok)

lemma at_most_one_cmd:
  assumes "at_most_one k n db" and "\<not> readmits k c"
  shows "at_most_one k (n + begun_for k (begun c db)) (exec_cmd c db)"
proof (cases "k \<in> set (begun c db)")
  case False
  then have "begun_for k (begun c db) = 0" by (auto simp: begun_for_def filter_empty_conv)
  then show ?thesis using at_most_one_exec [OF assms] by simp
next
  case True
  then obtain t g now r where c: "c = CBegin k t g now" "fst (beginAdmission k t g now db) = Inr r"
    by (cases c) (auto split: sum.splits dest: sym)
  then have e: "beginAdmission k t g now db = (Inr r, exec_cmd c db)" by (cases "beginAdmission k t g now db") simp
  have ok: "db_ok db" using assms(1) by (simp add: at_most_one_def)
  have "n = 0" using assms(1) begin_past(1) [OF ok e] by (auto simp: at_most_one_def)
  moreover have "begun_for k (begun c db) = 1" using c by (simp add: begun_for_def)
  ultimately show ?thesis using begin_past(2) [OF ok e] ok by (simp add: at_most_one_def exec_cmd_ok)
qed

lemma begun_for_append [simp]: "begun_for k (as @ bs) = begun_for k as + begun_for k bs"
  by (simp add: begun_for_def)

lemma at_most_one_run:
  "at_most_one k n db \<Longrightarrow> \<forall>c \<in> set cs. \<not> readmits k c \<Longrightarrow> at_most_one k (n + begun_for k (all_begun cs db)) (run_cmds cs db)"
proof (induction cs arbitrary: n db)
  case Nil
  then show ?case by (simp add: begun_for_def)
next
  case (Cons c cs)
  from Cons.IH [OF at_most_one_cmd [OF Cons.prems(1), of c]] Cons.prems(2) show ?case by (simp add: add.assoc)
qed

text \<open>The commands of the others before a call.\<close>

lemma once_others:
  assumes "schedule_quiet k S" and "once S k w"
  shows "at_most_one k (handed k w + begun_for k (all_begun (st_others (S (wl_calls w))) (wl_db w)))
    (run_cmds (st_others (S (wl_calls w))) (wl_db w))"
  using assms by (auto simp: once_def schedule_quiet_def intro!: at_most_one_run)

lemma handed_step [simp]: "handed k (snd (at_step f w)) =
    handed k w + begun_for k (all_begun (st_others (wl_steps w (wl_calls w))) (wl_db w))"
  by (simp add: handed_def)

lemma keeps_once:
  assumes "schedule_quiet k S" and "\<And>s db. snd (f s db) = exec_cmd (c s) db" and "\<And>s. \<not> readmits k (c s)"
  shows "keeps (once S k) (at_step f)"
  unfolding keeps_def
proof (intro allI impI)
  fix w assume s: "once S k w"
  then have S: "wl_steps w = S" by (simp add: once_def)
  from at_most_one_exec [OF once_others [OF assms(1) s] assms(3)]
  show "once S k (snd (at_step f w))" by (simp add: once_def assms(2) S)
qed

lemma keeps_once_pure:
  assumes "schedule_quiet k S" and "\<And>s db. snd (f s db) = db"
  shows "keeps (once S k) (at_step f)"
  unfolding keeps_def
proof (intro allI impI)
  fix w assume s: "once S k w"
  then have S: "wl_steps w = S" by (simp add: once_def)
  from once_others [OF assms(1) s] show "once S k (snd (at_step f w))" by (simp add: once_def assms(2) S)
qed

lemma once_methods:
  assumes "schedule_quiet k S"
  shows "keeps (once S k) (mi_accept world_store j t sid)"
    "keeps (once S k) (mi_commit world_store j sid)"
    "keeps (once S k) (mi_fail world_store j t m)"
    "keeps (once S k) (mi_markSubmissionAmbiguous world_store j t m)"
    "keeps (once S k) (mi_findOwned world_store ow j)"
    "keeps (once S k) (mi_beginAdmission world_store j t g)"
    "keeps (once S k) (mi_defer world_store j t a r)"
    "keeps (once S k) (mi_claimNext world_store l)"
    "keeps (once S k) (rt_inspect world_runtime ow j)"
          apply (simp_all add: store_fields)
          apply (rule keeps_once [OF assms, where c = "\<lambda>s. CAccept j t sid (st_now s)"]; simp)
         apply (rule keeps_once [OF assms, where c = "\<lambda>s. CCommit j sid (st_now s)"]; simp)
        apply (rule keeps_once [OF assms, where c = "\<lambda>s. CFail j t m (st_now s)"]; simp)
       apply (rule keeps_once [OF assms, where c = "\<lambda>s. CAmbiguous j t m (st_now s)"]; simp)
      apply (rule keeps_once_pure [OF assms findOwned_pure])
     apply (rule keeps_once [OF assms, where c = "\<lambda>s. CBegin j t g (st_now s)"]; simp)
    apply (rule keeps_once [OF assms, where c = "\<lambda>s. CDefer j t a r (st_now s)"]; simp)
   apply (rule keeps_once [OF assms, where c = "\<lambda>s. CClaim (st_uuid s) l (st_now s) (st_locked s)"]; simp)
  apply (rule keeps_once_pure [OF assms]; simp add: lift_res_def)
  done

text \<open>The store's own exceptions are plain errors.\<close>

definition plain :: "('w, 'a) act \<Rightarrow> bool" where
  "plain m \<longleftrightarrow> triple (\<lambda>_. True) m (\<lambda>_ _. True) (\<lambda>e _. not_busy e)"

lemma plain_bind: "plain m \<Longrightarrow> (\<And>x. plain (f x)) \<Longrightarrow> plain (bind_act m f)"
  unfolding plain_def by (rule triple_bind)

lemma plain_lift: "(\<And>e. r = Inl e \<Longrightarrow> not_busy e) \<Longrightarrow> plain (lift_res r)"
  by (auto simp: plain_def triple_def lift_res_def split: sum.splits)

lemma plain_update: "plain (update_items P f)"
  by (simp add: plain_def triple_def update_items_def)

lemma plain_require: "requireRow x = Inl e \<Longrightarrow> not_busy e"
  by (auto simp: requireRow_def require_row_def not_busy_def split: option.splits)

lemma plain_text: "assertText v n m = Inl e \<Longrightarrow> not_busy e"
  by (auto simp: assertText_def assert_that_def not_busy_def split: if_splits)

lemma plain_checks: "checks cs = Inl e \<Longrightarrow> (\<And>x e. x \<in> set cs \<Longrightarrow> x = Inl e \<Longrightarrow> not_busy e) \<Longrightarrow> not_busy e"
  by (induction cs rule: checks.induct) auto

lemma plain_texts: "plain (lift_res (checks [assertText a b c, assertText d e f]))"
  by (rule plain_lift, erule plain_checks) (auto dest: plain_text sym)

lemma plain_ret: "plain (ret x)"
  by (simp add: plain_def triple_ret)

lemma plain_claimed: "plain (claimedTransition k t st sid err req now)"
  unfolding claimedTransition_def
  by (intro plain_bind plain_texts plain_update)
    (auto split: option.splits intro!: plain_bind plain_lift plain_ret dest: plain_require)

lemma plain_accept: "plain (accept k t sid now)"
  unfolding accept_def
  apply (intro plain_bind plain_claimed)
   apply (rule plain_lift, erule plain_text)
  apply (auto simp: plain_def triple_def ret_def lift_res_def split: option.splits sum.splits dest: plain_require)
  done

lemma plain_commit: "plain (commit k sid now)"
  unfolding commit_def update_required_def
  by (intro plain_bind plain_texts plain_update) (rule plain_lift, erule plain_require)

lemma plain_at_step: "(\<And>s. plain (f s)) \<Longrightarrow> plain (at_step f)"
  by (fastforce simp: plain_def triple_def at_step_def Let_def split: prod.splits sum.splits)

lemma plain_begin: "plain (beginAdmission k t g now)"
  unfolding beginAdmission_def update_required_def
  by (intro plain_bind plain_texts plain_update) (rule plain_lift, erule plain_require)

lemma triple_plain: "keeps I m \<Longrightarrow> plain m \<Longrightarrow> triple I m (\<lambda>_. I) (\<lambda>e w. I w \<and> not_busy e)"
  unfolding plain_def by (rule tripleI) (blast dest: keepsD tripleE)+

subsection \<open>The steps of a dispatch\<close>

text \<open>Once this dispatcher has begun the admission of \<open>k\<close>, nobody has delivered it or will.\<close>

definition due :: "string \<Rightarrow> string \<Rightarrow> mail_world \<Rightarrow> bool" where
  "due j k w \<longleftrightarrow> (j = k \<longrightarrow> handed k w = 0 \<and> past_in k (wl_db w))"

lemma begin_due:
  assumes "schedule_quiet k S"
  shows "triple (once S k) (mi_beginAdmission world_store j t g)
     (\<lambda>_ w. once S k w \<and> due j k w) (\<lambda>e w. once S k w \<and> not_busy e)"
proof (rule tripleI)
  fix w x w' assume u: "once S k w" and eq: "mi_beginAdmission world_store j t g w = (Inr x, w')"
  let ?s = "S (wl_calls w)" and ?db = "run_cmds (st_others (S (wl_calls w))) (wl_db w)"
  have S: "wl_steps w = S" using u by (simp add: once_def)
  have e: "beginAdmission j t g (st_now ?s) ?db = (Inr x, wl_db w')"
    using eq S by (auto simp: store_fields at_step_def Let_def split: prod.splits)
  have h: "handed k w' = handed k w + begun_for k (all_begun (st_others ?s) (wl_db w))"
    using arg_cong [OF eq, of "\<lambda>x. handed k (snd x)"] by (simp add: store_fields S)
  note o = once_others [OF assms u]
  then have ok: "db_ok ?db" by (simp add: at_most_one_def)
  have "due j k w'" using begin_past [OF ok e] o by (auto simp: due_def h at_most_one_def)
  then show "once S k w' \<and> due j k w'" using keepsD [OF once_methods(6) [OF assms] u eq] by simp
next
  fix w e w' assume "once S k w" and "mi_beginAdmission world_store j t g w = (Inl e, w')"
  moreover have "plain (mi_beginAdmission world_store j t g)"
    by (simp add: store_fields plain_at_step plain_begin)
  ultimately show "once S k w' \<and> not_busy e"
    using tripleE [OF triple_plain [OF once_methods(6) [OF assms]]] by blast
qed

lemma deliver_once:
  assumes "schedule_quiet k S"
  shows "triple (\<lambda>w. once S k w \<and> due (dl_itemId i) k w) (rt_deliver world_runtime i)
     (\<lambda>_. once S k) (\<lambda>e w. once S k w \<and> not_busy e)"
proof -
  have k: "keeps (once S k) (at_step (\<lambda>s. lift_res (st_answer s i)))"
    by (rule keeps_once_pure [OF assms]) (simp add: lift_res_def)
  have "once S k (w\<lparr>wl_delivered := wl_delivered w @ [i]\<rparr>)" if "once S k w" and "due (dl_itemId i) k w" for w
    using that by (auto simp: once_def handed_def deliveries_of_def at_most_one_def due_def)
  then have "once S k (snd (rt_deliver world_runtime i w))" if "once S k w" and "due (dl_itemId i) k w" for w
    using k that unfolding keeps_def by (simp add: store_fields world_deliver_def)
  moreover have "not_busy e" if "once S k w" and "rt_deliver world_runtime i w = (Inl e, w')" for w w' e
    using assms that
    by (auto simp: store_fields world_deliver_def at_step_def Let_def lift_res_def schedule_quiet_def once_def not_busy_def)
  ultimately show ?thesis by (intro tripleI) (metis snd_conv)+
qed

subsection \<open>One dispatch\<close>

lemma keeps_next_at: "keeps I (nextAttemptAt opts)"
  by (simp add: keeps_def nextAttemptAt_def Let_def)

lemma once_deferClaimed:
  assumes "schedule_quiet k S"
  shows "keeps (once S k) (deferClaimedMessage world_store False a t item ow r)"
  unfolding deferClaimedMessage_def if_False
  by (intro keeps_catch keeps_bind once_methods [OF assms] keeps_ret) (auto split: option.splits)

lemma once_after:
  assumes "schedule_quiet k S" and "not_busy e"
  shows "keeps (once S k) (after_failed_attempt opts world_store item t ow e)"
  using assms(2) unfolding after_failed_attempt_def settle_failed_attempt_def
  by (auto split: option.splits js_error.splits disposition.splits simp: not_busy_def
      intro!: keeps_bind once_methods [OF assms(1)])

lemma triple_keepsI: "triple I m (\<lambda>_. I) (\<lambda>_. I) \<Longrightarrow> keeps I m"
  unfolding keeps_def by (blast intro: triple_snd)

lemma attempt_once:
  assumes q: "schedule_quiet k S"
  shows "keeps (once S k)
    (catch_act (admit_and_deliver world_runtime world_store item t ow g) (after_failed_attempt opts world_store item t ow))"
proof (rule triple_keepsI, rule triple_catch [where R = "\<lambda>e w. once S k w \<and> not_busy e"])
  let ?k = "mb_itemId item" and ?R = "\<lambda>e w. once S k w \<and> not_busy e"
  let ?i = "\<lparr>dl_clientMessageId = mb_clientMessageId item, dl_itemId = ?k,
       dl_owner = ow, dl_payload = mb_payload item, dl_sessionId = mb_sessionId item\<rparr>"
  have d: "triple (\<lambda>w. once S k w \<and> due ?k k w) (rt_deliver world_runtime ?i) (\<lambda>_. once S k) ?R"
    using deliver_once [OF q, of ?i] by simp
  have a: "triple (once S k) (mi_accept world_store ?k t sid) (\<lambda>_. once S k) ?R" for sid
    by (rule triple_plain [OF once_methods(1) [OF q]]) (auto simp: store_fields intro: plain_at_step plain_accept)
  have c: "triple (once S k) (mi_commit world_store ?k sid) (\<lambda>_. once S k) ?R" for sid
    by (rule triple_plain [OF once_methods(2) [OF q]]) (auto simp: store_fields intro: plain_at_step plain_commit)
  have i: "triple (once S k) (if json_kind item = Some Respond then mi_commit world_store ?k sid else ret acc) (\<lambda>_. once S k) ?R"
    for sid acc by (simp add: c triple_ret)
  show "triple (once S k) (admit_and_deliver world_runtime world_store item t ow g) (\<lambda>_. once S k) ?R"
    unfolding admit_and_deliver_def
    by (rule triple_bind [OF begin_due [OF q]], rule triple_bind [OF d], rule triple_bind [OF a],
        rule triple_bind [OF i], rule triple_ret)
next
  fix e
  show "triple (\<lambda>w. once S k w \<and> not_busy e) (after_failed_attempt opts world_store item t ow e) (\<lambda>_. once S k) (\<lambda>_. once S k)"
  proof (cases "not_busy e")
    case True
    show ?thesis using triple_keeps [OF once_after [OF q True, of opts item t ow]] True by simp
  qed (simp add: triple_def)
qed

lemma boundary_once:
  assumes "schedule_quiet k S"
  shows "keeps (once S k) (dispatch_at_boundary opts world_runtime world_store item t ow bd)"
proof -
  have "keeps (once S k) (bind_act (nextAttemptAt opts) (\<lambda>a. deferClaimedMessage world_store False a t item ow None))"
    by (intro keeps_bind keeps_next_at once_deferClaimed assms)
  moreover have "keeps (once S k) (bind_act (mi_fail world_store (mb_itemId item) t m) (\<lambda>x. ret (Dispatched x DFailed)))" for m
    by (intro keeps_bind once_methods keeps_ret assms)
  ultimately show ?thesis unfolding dispatch_at_boundary_def Let_def
    by (auto split: boundary_state.splits intro: attempt_once [OF assms])
qed

lemma dispatch_once:
  assumes q: "schedule_quiet k S"
  shows "keeps (once S k) (dispatch opts)"
proof -
  have "keeps (once S k) (bind_act (nextAttemptAt opts) (\<lambda>a.
      bind_act (mi_defer world_store j t a r) (\<lambda>x. ret (Dispatched x DDeferred))))" for j t r
    by (intro keeps_bind keeps_next_at once_methods [OF q] keeps_ret)
  then have "keeps (once S k) (dispatch_claimed opts world_runtime world_store item t)" for item t
    unfolding dispatch_claimed_def Let_def
    by (intro keeps_bind keeps_attempt once_methods [OF q]) (auto split: sum.splits intro: boundary_once [OF q])
  then show ?thesis unfolding dispatch_def dispatchNextAgentMailboxMessage_def
    by (intro keeps_bind once_methods [OF q]) (auto split: option.splits)
qed

subsection \<open>Any number of dispatches\<close>

definition dispatch_all :: "mail_world dispatch_options list \<Rightarrow> mail_world \<Rightarrow> mail_world" where
  "dispatch_all os w = fold (\<lambda>opts w. snd (dispatch opts w)) os w"

lemma dispatch_all_once:
  assumes "schedule_quiet k S"
  shows "once S k w \<Longrightarrow> once S k (dispatch_all os w)"
  using dispatch_once [OF assms] by (induction os arbitrary: w) (simp_all add: dispatch_all_def keeps_def)

text \<open>C3 (at_most_once_delivery)
  Let the tables be well formed, and let nothing put item \<open>k\<close> back: no other process defers a rejected
  delivery of it or retries it for its owner, and the runtime never answers that it rejected a delivery as busy.
  However many dispatches run, with any commands of other processes committed between their calls and
  any outcome of the runtime - errors after which nothing is known included - the deliveries of the item by
  these dispatches and the admissions that other processes, dispatchers among them, begin for it are at most one
  together.\<close>

theorem at_most_once_delivery:
  assumes "db_ok (wl_db w)" and "schedule_quiet k (wl_steps w)" and "wl_delivered w = []" and "wl_others w = []"
  shows "deliveries_of k (wl_delivered (dispatch_all os w)) + begun_for k (wl_others (dispatch_all os w)) \<le> 1"
proof -
  have "once (wl_steps w) k w"
    using assms by (simp add: once_def at_most_one_def handed_def deliveries_of_def begun_for_def)
  from dispatch_all_once [OF assms(2) this, of os] show ?thesis
    by (simp add: once_def at_most_one_def handed_def)
qed

text \<open>
  A dispatch that returns tells the truth: the item it reports as accepted, cancelled, deferred, failed
  or ambiguous carries that status, whatever other processes do between its calls; and whether it
  returns or throws, the tables keep their invariant.\<close>

theorem dispatch_reports_the_item:
  assumes "db_ok (wl_db w)"
  shows "db_ok (wl_db (snd (dispatch opts w))) \<and> (\<forall>x. fst (dispatch opts w) = Inr x \<longrightarrow> reports x)"
  using pg.keeps_dispatch [of opts] pg.reports_dispatch [of opts] assms
  by (auto simp: keeps_def yields_def world_ok_def dispatch_def) (metis prod.collapse)

end
