(* ===== verification/Mailbox_Outcome.thy ===== *)
theory Mailbox_Outcome
  imports Mailbox_Dispatch
begin

section \<open>What one undisturbed dispatch does\<close>

text \<open>
  The dispatcher refines a table: with no other process in between, a waiting session and a lease
  that lasts, a claimed item is handed to the runtime exactly once and its row ends in the status the
  runtime's answer calls for.
\<close>

fun settled_status :: "op_kind option \<Rightarrow> string res \<Rightarrow> mail_status" where
  "settled_status k (Inr sid) = (if k = Some Respond then MCommitted else MAccepted)"
| "settled_status k (Inl (AdmissionError Rejected m)) = MFailed"
| "settled_status k (Inl (AdmissionError Busy m)) = MQueued"
| "settled_status k (Inl e) = MSubmissionAmbiguous"

fun settled_report :: "string res \<Rightarrow> dispatch_status" where
  "settled_report (Inr sid) = DAccepted"
| "settled_report (Inl (AdmissionError Rejected m)) = DFailed"
| "settled_report (Inl (AdmissionError Busy m)) = DDeferred"
| "settled_report (Inl e) = DSubmissionAmbiguous"

text \<open>Nobody else acts, the session waits, the runtime has one answer, and the clock moves less than a lease.\<close>

definition calm :: "int \<Rightarrow> (deliver_input \<Rightarrow> string res) \<Rightarrow> (nat \<Rightarrow> world_step) \<Rightarrow> bool" where
  "calm T A S \<longleftrightarrow> (\<forall>n. st_others (S n) = [] \<and> st_answer (S n) = A \<and> T \<le> st_now (S n) \<and> st_now (S n) \<le> T + 1000 \<and>
     (\<exists>bd. st_boundary (S n) = Inr bd \<and> bd_state bd = BWaiting))"

definition row_at :: "mail_row \<Rightarrow> (nat \<Rightarrow> world_step) \<Rightarrow> deliver_input list \<Rightarrow> mail_world \<Rightarrow> bool" where
  "row_at r S L w \<longleftrightarrow> db_ok (wl_db w) \<and> r \<in> set (db_items (wl_db w)) \<and> wl_steps w = S \<and> wl_delivered w = L"

lemma update_hit:
  assumes "db_ok db" and "r \<in> set (db_items db)" and "guard r" and k: "mb_itemId r = k"
    and g: "\<forall>x. guard x \<longrightarrow> mb_itemId x = k"
  shows "\<exists>db'. update_items guard upd db = (Inr (Some (toRecord (upd r))), db') \<and> upd r \<in> set (db_items db')"
proof -
  obtain x where f: "find guard (db_items db) = Some x"
    using assms(2,3) by (cases "find guard (db_items db)") (auto simp: find_None_iff)
  have x: "x \<in> set (db_items db)" "guard x" using find_Some_D [OF f] by auto
  with g k have "mb_itemId x = mb_itemId r" by simp
  with x(1) assms(2) have "x = r" by (intro distinct_map_inj [OF db_ok_distinct [OF assms(1)]])
  moreover have "upd r \<in> set (update_where guard upd (db_items db))"
    unfolding set_update_where using assms(2,3) by (intro bexI [of _ r]) simp_all
  ultimately show ?thesis using f by (simp add: update_items_def returning_def)
qed

lemma required_hit:
  assumes "db_ok db" and "r \<in> set (db_items db)" and "guard r" and "mb_itemId r = k"
    and "\<forall>x. guard x \<longrightarrow> mb_itemId x = k"
  shows "\<exists>db'. update_required guard upd db = (Inr (toRecord (upd r)), db') \<and> upd r \<in> set (db_items db')"
  using update_hit [OF assms, of upd]
  by (auto simp: update_required_def bind_act_def lift_res_def requireRow_def require_row_def)

text \<open>A world call whose method succeeds on every table that holds the row.\<close>

lemma at_step_row:
  assumes "\<And>n. st_others (S n) = []" and "\<And>s. keeps db_ok (f s)"
    and "\<And>n db. db_ok db \<Longrightarrow> r \<in> set (db_items db) \<Longrightarrow>
      \<exists>x db'. f (S n) db = (Inr x, db') \<and> Q x \<and> (\<exists>r' \<in> set (db_items db'). R r')"
  shows "triple (row_at r S L) (at_step f) (\<lambda>x w. Q x \<and> (\<exists>r'. R r' \<and> row_at r' S L w)) E"
proof (rule tripleI)
  fix w x w' assume r: "row_at r S L w" and eq: "at_step f w = (Inr x, w')"
  have f: "f (S (wl_calls w)) (wl_db w) = (Inr x, wl_db w')" and "wl_steps w' = S" "wl_delivered w' = L"
    using eq r assms(1) by (auto simp: row_at_def at_step_def Let_def split: prod.splits)
  moreover have "db_ok (wl_db w')" using assms(2) r f by (auto simp: row_at_def dest: keepsD)
  ultimately show "Q x \<and> (\<exists>r'. R r' \<and> row_at r' S L w')"
    using assms(3) [of "wl_db w" "wl_calls w"] r unfolding row_at_def by (metis Pair_inject sum.inject(2))
next
  fix w e w' assume r: "row_at r S L w" and eq: "at_step f w = (Inl e, w')"
  then have "f (S (wl_calls w)) (wl_db w) = (Inl e, wl_db w')"
    using assms(1) by (auto simp: row_at_def at_step_def Let_def split: prod.splits)
  then show "E e w'" using assms(3) [of "wl_db w" "wl_calls w"] r by (auto simp: row_at_def)
qed

definition id_text :: "string \<Rightarrow> bool" where
  "id_text s \<longleftrightarrow> js_trim s \<noteq> [] \<and> length s \<le> 512"

lemma id_text_ok: "id_text k \<Longrightarrow> assertText k n 512 = Inr ()"
  by (simp add: assertText_ok id_text_def)

lemma id_texts: "id_text k \<Longrightarrow> id_text t \<Longrightarrow> checks [assertText k n 512, assertText t n' 512] = Inr ()"
  by (simp add: checks_ok_iff assertText_ok id_text_def)

text \<open>The item while it is being delivered, before and after the admission is recorded.\<close>

definition delivering :: "string \<Rightarrow> string \<Rightarrow> op_kind option \<Rightarrow> mail_row \<Rightarrow> bool" where
  "delivering k t kind r \<longleftrightarrow> mb_itemId r = k \<and> mb_status r = MDelivering \<and> mb_claimToken r = Some t \<and> json_kind r = kind"

lemma requireRow_Some [simp]: "requireRow (Some x) = Inr x"
  by (simp add: requireRow_def)

lemma step_begin:
  assumes "calm T A S" and "id_text k" "id_text t" and r: "delivering k t kind r" "mb_admissionStartedAt r = None"
    "sql_at_least (mb_claimExpiresAt r) (T + 1000)"
  shows "triple (row_at r S L) (mi_beginAdmission world_store k t g)
    (\<lambda>_ w. \<exists>r'. (delivering k t kind r' \<and> mb_itemId r' = k) \<and> row_at r' S L w) E"
proof -
  have g: "\<exists>x db'. beginAdmission k t g (st_now (S n)) db = (Inr x, db') \<and> True \<and>
      (\<exists>r' \<in> set (db_items db'). delivering k t kind r' \<and> mb_itemId r' = k)"
    if db: "db_ok db" "r \<in> set (db_items db)" for n db
  proof -
    let ?r = "open_admission g (st_now (S n)) r"
    have "st_now (S n) \<le> T + 1000" using assms(1) by (simp add: calm_def)
    then have "admission_open k t (st_now (S n)) r"
      using r by (auto simp: admission_open_def delivering_def sql_at_least_def split: option.splits)
    with required_hit [OF db, of "admission_open k t (st_now (S n))" k "open_admission g (st_now (S n))"] r(1)
    obtain db' where "update_required (admission_open k t (st_now (S n))) (open_admission g (st_now (S n))) db
        = (Inr (toRecord ?r), db')" and in_db: "?r \<in> set (db_items db')"
      by (auto simp: admission_open_def delivering_def)
    then have "beginAdmission k t g (st_now (S n)) db = (Inr (toRecord ?r), db')"
      by (simp add: beginAdmission_def bind_act_def lift_res_def id_texts assms)
    moreover have "delivering k t kind ?r"
      using r(1) by (cases "pl_operation (mb_payload r)")
        (auto simp: delivering_def open_admission_def json_kind_def guard_payload_def)
    ultimately show ?thesis using in_db r(1) by (auto simp: delivering_def)
  qed
  have "keeps db_ok (beginAdmission k t g (st_now s))" for s
    by (rule keeps_cmd [where c = "CBegin k t g (st_now s)"]) simp
  then have "triple (row_at r S L) (at_step (\<lambda>s. beginAdmission k t g (st_now s)))
    (\<lambda>x w. True \<and> (\<exists>r'. (delivering k t kind r' \<and> mb_itemId r' = k) \<and> row_at r' S L w)) E"
    using assms(1) by (intro at_step_row g) (simp_all add: calm_def)
  then show ?thesis by (simp add: store_fields)
qed

lemma held_hit:
  assumes "db_ok db" and "r \<in> set (db_items db)" and "delivering k t kind r"
  shows "\<exists>db'. update_items (held k t) upd db = (Inr (Some (toRecord (upd r))), db') \<and> upd r \<in> set (db_items db')"
  using update_hit [OF assms(1,2), of "held k t" k upd] assms(3) by (auto simp: held_def delivering_def)

lemma claimed_hit:
  assumes "db_ok db" and "r \<in> set (db_items db)" and "delivering k t kind r" and "id_text k" "id_text t"
  shows "\<exists>db'. claimedTransition k t st sid err req now db = (Inr (Some (toRecord (claimed_write st sid err now r))), db') \<and>
    claimed_write st sid err now r \<in> set (db_items db')"
  using held_hit [OF assms(1-3), of "claimed_write st sid err now"] assms(4,5)
  by (auto simp: claimedTransition_def bind_act_def lift_res_def id_texts ret_def)

text \<open>The row after each of the dispatcher's last calls, as the world sees it.\<close>

definition in_status :: "string \<Rightarrow> mail_status \<Rightarrow> mail_row \<Rightarrow> bool" where
  "in_status k st r \<longleftrightarrow> mb_itemId r = k \<and> mb_status r = st"

lemma hit_intro:
  "m = (Inr (toRecord r'), db') \<Longrightarrow> r' \<in> set (db_items db') \<Longrightarrow> Q (toRecord r') \<Longrightarrow> R r' \<Longrightarrow>
   \<exists>x db'. m = (Inr x, db') \<and> Q x \<and> (\<exists>r' \<in> set (db_items db'). R r')"
  by blast

lemma step_row:
  assumes "calm T A S" and "\<And>s. snd \<circ> f s = exec_cmd (c s)"
    and "\<And>n db. db_ok db \<Longrightarrow> r \<in> set (db_items db) \<Longrightarrow>
      \<exists>x db'. f (S n) db = (Inr x, db') \<and> Q x \<and> (\<exists>r' \<in> set (db_items db'). R r')"
  shows "triple (row_at r S L) (at_step f) (\<lambda>x w. Q x \<and> (\<exists>r'. R r' \<and> row_at r' S L w)) E"
proof (rule at_step_row)
  show "keeps db_ok (f s)" for s
    using assms(2) [of s] by (intro keeps_cmd [where c = "c s"]) (metis comp_apply)
qed (use assms(1,3) in \<open>simp_all add: calm_def\<close>)

lemma step_accept:
  assumes "calm T A S" and "id_text k" "id_text t" "id_text sid" and r: "delivering k t kind r"
  shows "triple (row_at r S L) (mi_accept world_store k t sid)
    (\<lambda>x w. mb_status x = MAccepted \<and> (\<exists>r'. (in_status k MAccepted r' \<and> mb_acceptedSessionId r' = Some sid) \<and> row_at r' S L w)) E"
  unfolding store_fields mailbox_if.simps
proof (rule step_row [OF assms(1)])
  show "snd \<circ> accept k t sid (st_now s) = exec_cmd (CAccept k t sid (st_now s))" for s by auto
next
  fix n db assume "db_ok db" "r \<in> set (db_items db)"
  from claimed_hit [OF this r assms(2,3), of MAccepted "Some sid" None False "st_now (S n)"]
  obtain db' where c: "claimedTransition k t MAccepted (Some sid) None False (st_now (S n)) db =
      (Inr (Some (toRecord (claimed_write MAccepted (Some sid) None (st_now (S n)) r))), db')"
    and in_db: "claimed_write MAccepted (Some sid) None (st_now (S n)) r \<in> set (db_items db')" by blast
  have "accept k t sid (st_now (S n)) db = (Inr (toRecord (claimed_write MAccepted (Some sid) None (st_now (S n)) r)), db')"
    by (simp add: accept_def bind_act_def [of "lift_res _"] lift_res_def id_text_ok [OF assms(4)])
      (simp add: bind_act_def c ret_def)
  then show "\<exists>x db'. accept k t sid (st_now (S n)) db = (Inr x, db') \<and> mb_status x = MAccepted \<and>
      (\<exists>r' \<in> set (db_items db'). in_status k MAccepted r' \<and> mb_acceptedSessionId r' = Some sid)"
    using in_db by (rule hit_intro) (use r in \<open>simp_all add: claimed_write_def in_status_def delivering_def coalesce_def\<close>)
qed

lemma step_commit:
  assumes "calm T A S" and "id_text k" "id_text sid" and r: "in_status k MAccepted r" "mb_acceptedSessionId r = Some sid"
  shows "triple (row_at r S L) (mi_commit world_store k sid)
    (\<lambda>x w. mb_status x = MCommitted \<and> (\<exists>r'. in_status k MCommitted r' \<and> row_at r' S L w)) E"
  unfolding store_fields mailbox_if.simps
proof (rule step_row [OF assms(1)])
  show "snd \<circ> commit k sid (st_now s) = exec_cmd (CCommit k sid (st_now s))" for s by auto
next
  fix n db assume db: "db_ok db" "r \<in> set (db_items db)"
  have "\<exists>db'. update_required (committable k sid) (commit_write sid (st_now (S n))) db
      = (Inr (toRecord (commit_write sid (st_now (S n)) r)), db') \<and> commit_write sid (st_now (S n)) r \<in> set (db_items db')"
    using r by (intro required_hit [OF db, of _ k]) (auto simp: committable_def in_status_def)
  then obtain db' where c: "commit k sid (st_now (S n)) db = (Inr (toRecord (commit_write sid (st_now (S n)) r)), db')"
    and in_db: "commit_write sid (st_now (S n)) r \<in> set (db_items db')"
    by (auto simp: commit_def bind_act_def lift_res_def id_texts assms)
  show "\<exists>x db'. commit k sid (st_now (S n)) db = (Inr x, db') \<and> mb_status x = MCommitted \<and>
      (\<exists>r' \<in> set (db_items db'). in_status k MCommitted r')"
    using c in_db by (rule hit_intro) (use r in \<open>simp_all add: commit_write_def in_status_def\<close>)
qed

lemma step_fail:
  assumes "calm T A S" and "id_text k" "id_text t" and r: "delivering k t kind r"
  shows "triple (row_at r S L) (mi_fail world_store k t m)
    (\<lambda>x w. mb_status x = MFailed \<and> (\<exists>r'. in_status k MFailed r' \<and> row_at r' S L w)) E"
  unfolding store_fields mailbox_if.simps
proof (rule step_row [OF assms(1)])
  show "snd \<circ> fail_item k t m (st_now s) = exec_cmd (CFail k t m (st_now s))" for s by auto
next
  fix n db assume "db_ok db" "r \<in> set (db_items db)"
  from claimed_hit [OF this r assms(2,3), of MFailed None "Some (default_error m ''Mailbox delivery failed.'')" True "st_now (S n)"]
  obtain db' where c: "fail_item k t m (st_now (S n)) db = (Inr (toRecord (claimed_write MFailed None (Some (default_error m ''Mailbox delivery failed.'')) (st_now (S n)) r)), db')"
    and in_db: "claimed_write MFailed None (Some (default_error m ''Mailbox delivery failed.'')) (st_now (S n)) r \<in> set (db_items db')"
    by (auto simp: fail_item_def bind_act_def lift_res_def)
  show "\<exists>x db'. fail_item k t m (st_now (S n)) db = (Inr x, db') \<and> mb_status x = MFailed \<and>
      (\<exists>r' \<in> set (db_items db'). in_status k MFailed r')"
    using c in_db by (rule hit_intro) (use r in \<open>simp_all add: claimed_write_def in_status_def delivering_def\<close>)
qed

lemma step_ambiguous:
  assumes "calm T A S" and "id_text k" "id_text t" and r: "delivering k t kind r"
  shows "triple (row_at r S L) (mi_markSubmissionAmbiguous world_store k t m)
    (\<lambda>x w. mb_status x = MSubmissionAmbiguous \<and> (\<exists>r'. in_status k MSubmissionAmbiguous r' \<and> row_at r' S L w)) E"
  unfolding store_fields mailbox_if.simps
proof (rule step_row [OF assms(1)])
  show "snd \<circ> markSubmissionAmbiguous k t m (st_now s) = exec_cmd (CAmbiguous k t m (st_now s))" for s by auto
next
  fix n db assume "db_ok db" "r \<in> set (db_items db)"
  from claimed_hit [OF this r assms(2,3), of MSubmissionAmbiguous None "Some (default_error m ''Mailbox admission is ambiguous.'')" True "st_now (S n)"]
  obtain db' where c: "markSubmissionAmbiguous k t m (st_now (S n)) db = (Inr (toRecord (claimed_write MSubmissionAmbiguous None (Some (default_error m ''Mailbox admission is ambiguous.'')) (st_now (S n)) r)), db')"
    and in_db: "claimed_write MSubmissionAmbiguous None (Some (default_error m ''Mailbox admission is ambiguous.'')) (st_now (S n)) r \<in> set (db_items db')"
    by (auto simp: markSubmissionAmbiguous_def bind_act_def lift_res_def)
  show "\<exists>x db'. markSubmissionAmbiguous k t m (st_now (S n)) db = (Inr x, db') \<and> mb_status x = MSubmissionAmbiguous \<and>
      (\<exists>r' \<in> set (db_items db'). in_status k MSubmissionAmbiguous r')"
    using c in_db by (rule hit_intro) (use r in \<open>simp_all add: claimed_write_def in_status_def delivering_def\<close>)
qed

lemma step_reject:
  assumes "calm T A S" and "id_text k" "id_text t" and r: "delivering k t kind r"
  shows "triple (row_at r S L) (mi_deferRejectedAdmission world_store k t a rs)
    (\<lambda>x w. mb_status x = MQueued \<and> (\<exists>r'. in_status k MQueued r' \<and> row_at r' S L w)) E"
  unfolding store_fields mailbox_if.simps
proof (rule step_row [OF assms(1)])
  show "snd \<circ> deferRejectedAdmission k t a rs (st_now s) = exec_cmd (CDeferRejected k t a rs (st_now s))" for s by auto
next
  fix n db assume "db_ok db" "r \<in> set (db_items db)"
  from held_hit [OF this r, of "requeue a rs (st_now (S n))"]
  obtain db' where c: "deferRejectedAdmission k t a rs (st_now (S n)) db = (Inr (toRecord (requeue a rs (st_now (S n)) r)), db')"
    and in_db: "requeue a rs (st_now (S n)) r \<in> set (db_items db')"
    by (auto simp: deferRejectedAdmission_def update_required_def bind_act_def lift_res_def id_texts assms)
  show "\<exists>x db'. deferRejectedAdmission k t a rs (st_now (S n)) db = (Inr x, db') \<and> mb_status x = MQueued \<and>
      (\<exists>r' \<in> set (db_items db'). in_status k MQueued r')"
    using c in_db by (rule hit_intro) (use r in \<open>simp_all add: requeue_def in_status_def delivering_def\<close>)
qed

lemma step_find:
  assumes "calm T A S" and r: "delivering k t kind r" and ow: "assertOwner ow = Inr ()" and k: "id_text k"
  shows "triple (row_at r S L) (mi_findOwned world_store ow k)
    (\<lambda>x w. (\<forall>c. x = Some c \<longrightarrow> mb_status c = MDelivering) \<and> row_at r S L w) E"
proof (rule tripleI)
  have pure: "findOwned ow k db = (Inr (map_option toRecord (find (\<lambda>r. mb_itemId r = k \<and> owned_by ow r) (db_items db))), db)" for db
    using k by (simp add: findOwned_def bind_act_def lift_res_def ow id_text_ok)
  { fix w x w' assume w: "row_at r S L w" and eq: "mi_findOwned world_store ow k w = (Inr x, w')"
    then have x: "x = map_option toRecord (find (\<lambda>r. mb_itemId r = k \<and> owned_by ow r) (db_items (wl_db w)))"
      and w': "row_at r S L w'"
      using assms(1) by (auto simp: store_fields at_step_def Let_def row_at_def calm_def pure)
    have "mb_status c = MDelivering" if "x = Some c" for c
    proof -
      from that x obtain d where d: "find (\<lambda>r. mb_itemId r = k \<and> owned_by ow r) (db_items (wl_db w)) = Some d" "c = toRecord d"
        by auto
      from find_Some_D [OF d(1)] w r distinct_map_inj [OF db_ok_distinct, of "wl_db w" d r] have "d = r"
        by (auto simp: row_at_def delivering_def)
      with r d show ?thesis by (simp add: delivering_def)
    qed
    with w' show "(\<forall>c. x = Some c \<longrightarrow> mb_status c = MDelivering) \<and> row_at r S L w'" by blast }
  fix w e w' assume "row_at r S L w" and "mi_findOwned world_store ow k w = (Inl e, w')"
  then show "E e w'"
    using assms(1) by (auto simp: store_fields at_step_def Let_def row_at_def calm_def pure)
qed

subsection \<open>The whole dispatch\<close>

text \<open>A result that reports the row's status, with the row in the table and the log as given.\<close>

definition settled ::
  "string \<Rightarrow> mail_status \<Rightarrow> dispatch_status \<Rightarrow> deliver_input list \<Rightarrow> dispatch_result \<Rightarrow> mail_world \<Rightarrow> bool" where
  "settled k st ds L x w \<longleftrightarrow> (\<exists>item. x = Dispatched item ds) \<and>
     (\<exists>r \<in> set (db_items (wl_db w)). in_status k st r) \<and> wl_delivered w = L"

lemma settled_ret:
  assumes "triple P m (\<lambda>x w. Q x \<and> (\<exists>r'. in_status k st r' \<and> row_at r' S L w)) E"
  shows "triple P (bind_act m (\<lambda>x. ret (Dispatched x ds))) (settled k st ds L) E"
  by (rule triple_bind [OF assms], rule triple_ret) (auto simp: settled_def row_at_def)

lemma next_ok:
  "(case do_busyRetryMs opts of None \<Rightarrow> True | Some d \<Rightarrow> 250 \<le> d \<and> d \<le> 60000) \<Longrightarrow>
   nextAttemptAt opts w = (Inr (do_now opts w + (case do_busyRetryMs opts of None \<Rightarrow> DEFAULT_BUSY_RETRY_MS | Some d \<Rightarrow> d)), w)"
  by (auto simp: nextAttemptAt_def DEFAULT_BUSY_RETRY_MS_def split: option.splits)

lemma settle_outcome:
  assumes "calm T A S" and "id_text k" "id_text t" and r: "delivering k t kind r" and k: "mb_itemId item = k"
    and o: "case do_busyRetryMs opts of None \<Rightarrow> True | Some d \<Rightarrow> 250 \<le> d \<and> d \<le> 60000"
  shows "triple (row_at r S L) (settle_failed_attempt opts world_store item t ow e)
    (settled k (settled_status kind (Inl e)) (settled_report (Inl e)) L) (\<lambda>_ _. False)"
proof -
  note fail = settled_ret [OF step_fail [OF assms(1-4)]]
  note amb = settled_ret [OF step_ambiguous [OF assms(1-4)]]
  have busy: "triple (row_at r S L) (deferClaimedMessage world_store True a t item ow rs)
      (settled k MQueued DDeferred L) (\<lambda>_ _. False)" for a rs
    unfolding deferClaimedMessage_def if_True k
    by (rule triple_catch [OF settled_ret [OF step_reject [OF assms(1-4)]], of "\<lambda>_ _. False"]) (simp add: triple_def)
  have nxt: "triple (row_at r S L) (nextAttemptAt opts) (\<lambda>_. row_at r S L) (\<lambda>_ _. False)"
    by (simp add: triple_def next_ok [OF o])
  show ?thesis unfolding settle_failed_attempt_def
    by (auto split: js_error.splits disposition.splits simp: k intro: fail amb triple_bind [OF nxt] busy)
qed

lemma after_outcome:
  assumes "calm T A S" and "id_text k" "id_text t" and r: "delivering k t kind r" and k: "mb_itemId item = k"
    and o: "case do_busyRetryMs opts of None \<Rightarrow> True | Some d \<Rightarrow> 250 \<le> d \<and> d \<le> 60000"
    and ow: "assertOwner ow = Inr ()"
  shows "triple (row_at r S L) (after_failed_attempt opts world_store item t ow e)
    (settled k (settled_status kind (Inl e)) (settled_report (Inl e)) L) (\<lambda>_ _. False)"
  unfolding after_failed_attempt_def k
proof (rule triple_bind [OF step_find [OF assms(1) r ow assms(2)]])
  fix x :: "mail_row option"
  note s = settle_outcome [OF assms(1-6), of L ow e]
  show "triple (\<lambda>w. (\<forall>c. x = Some c \<longrightarrow> mb_status c = MDelivering) \<and> row_at r S L w)
     (case x of None \<Rightarrow> settle_failed_attempt opts world_store item t ow e
      | Some c \<Rightarrow> if mb_status c = MCommitted then ret (Dispatched c DAccepted)
          else if mb_status c = MCancelled then ret (Dispatched c DCancelled)
          else settle_failed_attempt opts world_store item t ow e)
     (settled k (settled_status kind (Inl e)) (settled_report (Inl e)) L) (\<lambda>_ _. False)"
  proof (cases "\<forall>c. x = Some c \<longrightarrow> mb_status c = MDelivering")
    case True
    with s show ?thesis by (cases x) simp_all
  next
    case False
    then show ?thesis unfolding triple_def by blast
  qed
qed

lemma attempt_outcome:
  assumes "calm T A S" and "id_text (mb_itemId item)" "id_text t" and r: "delivering (mb_itemId item) t (json_kind item) r"
    and lease: "mb_admissionStartedAt r = None" "sql_at_least (mb_claimExpiresAt r) (T + 1000)"
    and o: "case do_busyRetryMs opts of None \<Rightarrow> True | Some d \<Rightarrow> 250 \<le> d \<and> d \<le> 60000"
    and ow: "assertOwner ow = Inr ()"
    and i: "i = \<lparr>dl_clientMessageId = mb_clientMessageId item, dl_itemId = mb_itemId item,
       dl_owner = ow, dl_payload = mb_payload item, dl_sessionId = mb_sessionId item\<rparr>"
    and sid: "\<And>sid. A i = Inr sid \<Longrightarrow> id_text sid"
  shows "triple (row_at r S L)
    (catch_act (admit_and_deliver world_runtime world_store item t ow g) (after_failed_attempt opts world_store item t ow))
    (settled (mb_itemId item) (settled_status (json_kind item) (A i)) (settled_report (A i)) (L @ [i])) (\<lambda>_ _. False)"
proof -
  let ?k = "mb_itemId item" and ?kind = "json_kind item"
  let ?mid = "\<lambda>L w. \<exists>r'. (delivering ?k t ?kind r' \<and> mb_itemId r' = ?k) \<and> row_at r' S L w"
  let ?done = "settled ?k (settled_status ?kind (A i)) (settled_report (A i)) (L @ [i])"
  let ?E = "\<lambda>e w. A i = Inl e \<and> ?mid (L @ [i]) w"
  have ex: "(\<And>r'. P r' \<Longrightarrow> triple (\<lambda>w. R r' w) m Q E) \<Longrightarrow> triple (\<lambda>w. \<exists>r'. P r' \<and> R r' w) m Q E"
    for P :: "mail_row \<Rightarrow> bool" and R and m :: "(mail_world, 'z) act" and Q E by (fastforce simp: triple_def)
  have deliver: "triple (?mid L) (rt_deliver world_runtime i) (\<lambda>sid w. A i = Inr sid \<and> ?mid (L @ [i]) w) ?E"
  proof (rule ex)
    fix r'
    show "triple (row_at r' S L) (rt_deliver world_runtime i)
       (\<lambda>sid w. A i = Inr sid \<and> ?mid (L @ [i]) w) ?E" if "delivering ?k t ?kind r' \<and> mb_itemId r' = ?k"
      using assms(1) that
      by (auto simp: triple_def store_fields world_deliver_def at_step_def Let_def lift_res_def calm_def row_at_def
          split: sum.splits)
  qed
  have answered: "triple (\<lambda>w. A i = Inr sid \<and> ?mid (L @ [i]) w)
     (bind_act (mi_accept world_store ?k t sid) (\<lambda>accepted.
      bind_act (if ?kind = Some Respond then mi_commit world_store ?k sid else ret accepted)
        (\<lambda>committed. ret (Dispatched committed DAccepted)))) (\<lambda>x. ?done x) ?E" for sid
  proof (cases "A i = Inr sid")
    case True
    note st = sid [OF True]
    have c: "triple (\<lambda>w. \<exists>r'. (in_status ?k MAccepted r' \<and> mb_acceptedSessionId r' = Some sid) \<and> row_at r' S (L @ [i]) w)
      (if ?kind = Some Respond then mi_commit world_store ?k sid else ret acc)
      (\<lambda>x w. True \<and> (\<exists>r'. in_status ?k (settled_status ?kind (A i)) r' \<and> row_at r' S (L @ [i]) w)) ?E" for acc
    proof (rule ex)
      fix r' assume r': "in_status ?k MAccepted r' \<and> mb_acceptedSessionId r' = Some sid"
      then show "triple (row_at r' S (L @ [i])) (if ?kind = Some Respond then mi_commit world_store ?k sid else ret acc)
        (\<lambda>x w. True \<and> (\<exists>r'. in_status ?k (settled_status ?kind (A i)) r' \<and> row_at r' S (L @ [i]) w)) ?E"
        using True triple_weaken [OF step_commit [OF assms(1,2) st, of r' "L @ [i]" ?E]]
        by (auto intro: triple_ret)
    qed
    have d: "triple (\<lambda>w. mb_status acc = MAccepted \<and> (\<exists>r'. (in_status ?k MAccepted r' \<and> mb_acceptedSessionId r' = Some sid) \<and> row_at r' S (L @ [i]) w))
      (bind_act (if ?kind = Some Respond then mi_commit world_store ?k sid else ret acc)
        (\<lambda>committed. ret (Dispatched committed DAccepted))) (\<lambda>x. ?done x) ?E" for acc
      by (rule triple_weaken [OF settled_ret [OF c, where ds = DAccepted]]) (auto simp: True)
    have a: "triple (\<lambda>w. ?mid (L @ [i]) w) (mi_accept world_store ?k t sid)
      (\<lambda>x w. mb_status x = MAccepted \<and> (\<exists>r'. (in_status ?k MAccepted r' \<and> mb_acceptedSessionId r' = Some sid) \<and> row_at r' S (L @ [i]) w)) ?E"
      by (rule ex) (blast intro: step_accept [OF assms(1-3) st])
    show ?thesis by (rule triple_weaken [OF triple_bind [OF a d]]) auto
  qed (simp add: triple_def)
  have body: "triple (row_at r S L) (admit_and_deliver world_runtime world_store item t ow g) (\<lambda>x. ?done x) ?E"
    unfolding admit_and_deliver_def i [symmetric]
    by (rule triple_bind [OF step_begin [OF assms(1-3) r lease]], rule triple_bind [OF deliver], rule answered)
  show ?thesis
  proof (rule triple_catch [OF body])
    fix e
    show "triple (?E e) (after_failed_attempt opts world_store item t ow e) (\<lambda>x. ?done x) (\<lambda>_ _. False)"
    proof (cases "A i = Inl e")
      case True
      have "triple (?mid (L @ [i])) (after_failed_attempt opts world_store item t ow e) (\<lambda>x. ?done x) (\<lambda>_ _. False)"
        unfolding True by (rule ex) (blast intro: after_outcome [OF assms(1-3) _ refl o ow])
      then show ?thesis using True by simp
    qed (simp add: triple_def)
  qed
qed

text \<open>The claim: the row it leaves is the one it returns.\<close>

lemma claim_row_at:
  assumes "db_ok db" and "claimNext uuid l now locked db = (Inr (Some item), db')"
  shows "\<exists>r \<in> set (db_items db'). item = toRecord r \<and> delivering (mb_itemId item) uuid (json_kind item) r \<and>
    mb_admissionStartedAt r = None \<and> sql_at_least (mb_claimExpiresAt r) (now + 1000)"
proof -
  let ?db = "db\<lparr>db_items := sweep now (db_items db)\<rparr>"
  from assms(2) obtain leaseMs where l: "assertLease leaseMs = Inr ()"
    and c: "claim_candidate uuid leaseMs now locked ?db = (Inr (Some item), db')"
    by (auto simp: claimNext_def Let_def bind_act_def lift_res_def split: sum.splits option.splits)
  from l have "1000 \<le> leaseMs" by (simp add: assertLease_def)
  show ?thesis
  proof (cases rule: claim_candidate_cases [OF db_ok_distinct [OF sweep_ok [OF assms(1), of now]], of uuid leaseMs now locked])
    case 1
    with c show ?thesis by simp
  next
    case (2 t)
    let ?r = "claim_row uuid leaseMs now t"
    from 2 c have item: "item = toRecord ?r"
      and db': "db_items db' = update_where (\<lambda>r. mb_itemId r = mb_itemId t \<and> claimable now r) (claim_row uuid leaseMs now) (sweep now (db_items db))"
      by auto
    have "?r \<in> set (db_items db')"
      unfolding db' set_update_where using 2(1,2) by (intro bexI [of _ t]) simp_all
    with item \<open>1000 \<le> leaseMs\<close> show ?thesis
      by (intro bexI [of _ ?r]) (simp_all add: delivering_def claim_row_def json_kind_def sql_at_least_def)
  qed
qed

lemma id_text_truthy: "id_text t \<Longrightarrow> truthy (Some t) = Some t"
  by (auto simp: id_text_def truthy_def js_trim_def)

text \<open>C4 (dispatch_outcome)
  With well-formed tables, no other process in between, a waiting session, a clock that moves at most a second, which is the
  shortest lease, a valid retry delay, and identifiers the store accepts (the item's, its owner's, the claim
  token and any session identifier the runtime answers: not blank, at most 512 characters), a dispatch that claims an item hands it to the runtime exactly once and
  settles it by the answer: accepted (committed for a structured response), failed when the runtime
  rejected it, queued again when it was busy, and ambiguous - never queued - for any other exception.\<close>

theorem dispatch_outcome:
  assumes "db_ok (wl_db w)" and calm: "calm T A (wl_steps w)" and "st_now (wl_steps w (wl_calls w)) = T"
    and claim: "fst (mi_claimNext world_store (do_leaseMs opts) w) = Inr (Some item)"
    and "id_text (mb_itemId item)" and "id_text (st_uuid (wl_steps w (wl_calls w)))"
    and "assertOwner (ownerFromItem item) = Inr ()" and "\<And>i sid. A i = Inr sid \<Longrightarrow> id_text sid"
    and o: "case do_busyRetryMs opts of None \<Rightarrow> True | Some d \<Rightarrow> 250 \<le> d \<and> d \<le> 60000"
  shows "\<exists>i w' item' r. dispatch opts w = (Inr (Dispatched item' (settled_report (A i))), w') \<and>
    dl_itemId i = mb_itemId item \<and> dl_payload i = mb_payload item \<and> wl_delivered w' = wl_delivered w @ [i] \<and>
    r \<in> set (db_items (wl_db w')) \<and> mb_itemId r = mb_itemId item \<and>
    mb_status r = settled_status (json_kind item) (A i)"
proof -
  let ?S = "wl_steps w" and ?ow = "ownerFromItem item"
  let ?s = "?S (wl_calls w)" and ?k = "mb_itemId item"
  let ?i = "\<lparr>dl_clientMessageId = mb_clientMessageId item, dl_itemId = ?k,
       dl_owner = ?ow, dl_payload = mb_payload item, dl_sessionId = mb_sessionId item\<rparr>"
  have no: "st_others ?s = []" using calm by (simp add: calm_def)
  obtain w1 where w1: "mi_claimNext world_store (do_leaseMs opts) w = (Inr (Some item), w1)"
    using claim by (cases "mi_claimNext world_store (do_leaseMs opts) w") simp
  then have c: "claimNext (st_uuid ?s) (do_leaseMs opts) (st_now ?s) (st_locked ?s) (wl_db w) = (Inr (Some item), wl_db w1)"
    and f: "wl_steps w1 = ?S" "wl_delivered w1 = wl_delivered w"
    using no by (auto simp: store_fields at_step_def Let_def split: prod.splits)
  from claim_row_at [OF assms(1) c] obtain r where r: "r \<in> set (db_items (wl_db w1))" "item = toRecord r"
    "delivering ?k (st_uuid ?s) (json_kind item) r" "mb_admissionStartedAt r = None"
    "sql_at_least (mb_claimExpiresAt r) (T + 1000)" using assms(3) by auto
  have "db_ok (wl_db w1)" using c keeps_claimNext assms(1) by (blast dest: keepsD)
  then have at: "row_at r ?S (wl_delivered w) w1" using r(1) f by (simp add: row_at_def)
  have tok: "truthy (mb_claimToken item) = Some (st_uuid ?s)"
    using r(2,3) assms(6) by (simp add: delivering_def id_text_truthy)
  obtain bd w2 where ins: "rt_inspect world_runtime ?ow (mb_sessionId item) w1 = (Inr bd, w2)" and bd: "bd_state bd = BWaiting"
    and at2: "row_at r ?S (wl_delivered w) w2"
    using calm at f by (fastforce simp: store_fields at_step_def Let_def lift_res_def calm_def row_at_def
        dest: spec [of _ "wl_calls w1"])
  let ?m = "catch_act (admit_and_deliver world_runtime world_store item (st_uuid ?s) ?ow (bd_editAdmissionGuard bd))
      (after_failed_attempt opts world_store item (st_uuid ?s) ?ow)"
  have d: "dispatch opts w = ?m w2"
    unfolding dispatch_def dispatchNextAgentMailboxMessage_def bind_act_def [of "mi_claimNext _ _"] w1
    by (simp add: tok dispatch_claimed_def Let_def bind_act_def attempt_def ins dispatch_at_boundary_def bd)
  have t: "triple (row_at r ?S (wl_delivered w)) ?m
    (settled ?k (settled_status (json_kind item) (A ?i)) (settled_report (A ?i)) (wl_delivered w @ [?i])) (\<lambda>_ _. False)"
    by (rule attempt_outcome [OF calm assms(5,6) r(3-5) o assms(7) refl]) (rule assms(8))
  obtain x w' where x: "?m w2 = (Inr x, w')"
    using tripleE [OF t at2] by (cases "?m w2"; cases "fst (?m w2)") auto
  from tripleD [OF t at2 x] d x show ?thesis
    unfolding settled_def in_status_def by (intro exI [of _ ?i]) auto
qed

text \<open>A concrete calm world whose runtime answers as given.\<close>

definition demo_world :: "string res \<Rightarrow> mail_world" where
  "demo_world a = \<lparr>wl_db = demo_db [queued_row], wl_delivered = [], wl_others = [],
     wl_steps = (\<lambda>_. \<lparr>st_others = [], st_now = 102, st_uuid = ''k'', st_locked = (\<lambda>_. False),
       st_boundary = Inr \<lparr>bd_editAdmissionGuard = False, bd_state = BWaiting, bd_tailIndex = None, bd_lastEventAt = None\<rparr>,
       st_answer = (\<lambda>_. a)\<rparr>), wl_calls = 0\<rparr>"

definition demo_options :: "mail_world dispatch_options" where
  "demo_options = \<lparr>do_busyRetryMs = None, do_leaseMs = None, do_now = (\<lambda>_. 102)\<rparr>"

lemma demo_world_calm: "calm 102 (\<lambda>_. a) (wl_steps (demo_world a))"
  by (simp add: calm_def demo_world_def)

lemma demo_world_claim:
  "fst (mi_claimNext world_store (do_leaseMs demo_options) (demo_world a)) = Inr (Some (claim_row ''k'' 60000 102 queued_row))"
  using demo_claim_one [of 100] by (simp add: store_fields demo_world_def demo_options_def queued_row_def)

text \<open>After an unknown exception the item is ambiguous.\<close>

theorem dispatch_outcome_witness:
  "\<exists>w' item' r. dispatch demo_options (demo_world (Inl (Error ''socket hang up''))) =
     (Inr (Dispatched item' DSubmissionAmbiguous), w') \<and> length (wl_delivered w') = 1 \<and>
     r \<in> set (db_items (wl_db w')) \<and> mb_itemId r = ''mail_a'' \<and> mb_status r = MSubmissionAmbiguous"
proof -
  let ?e = "Inl (Error ''socket hang up'') :: string res"
  have "db_ok (wl_db (demo_world ?e))" using demo_ok(2) by (simp add: demo_world_def)
  moreover have "assertOwner (ownerFromItem (claim_row ''k'' 60000 102 queued_row)) = Inr ()"
    using demo_owner_ok by (simp add: ownerFromItem_def claim_row_def demo_defs truthy_def)
  moreover have "id_text (mb_itemId (claim_row ''k'' 60000 102 queued_row))"
    by (simp add: id_text_def claim_row_def demo_defs js_trim_def is_js_space_def)
  moreover have "id_text (st_uuid (wl_steps (demo_world ?e) (wl_calls (demo_world ?e))))"
    by (simp add: id_text_def demo_world_def js_trim_def is_js_space_def)
  moreover have "st_now (wl_steps (demo_world ?e) (wl_calls (demo_world ?e))) = 102" by (simp add: demo_world_def)
  moreover have "case do_busyRetryMs demo_options of None \<Rightarrow> True | Some d \<Rightarrow> 250 \<le> d \<and> d \<le> 60000"
    by (simp add: demo_options_def)
  moreover have "\<And>sid. ?e = Inr sid \<Longrightarrow> id_text sid" by simp
  ultimately obtain i w' item' r where
    "dispatch demo_options (demo_world ?e) = (Inr (Dispatched item' (settled_report ?e)), w')"
    "wl_delivered w' = wl_delivered (demo_world ?e) @ [i]" "r \<in> set (db_items (wl_db w'))"
    "mb_itemId r = mb_itemId (claim_row ''k'' 60000 102 queued_row)"
    "mb_status r = settled_status (json_kind (claim_row ''k'' 60000 102 queued_row)) ?e"
    using dispatch_outcome [OF _ demo_world_calm _ demo_world_claim, of ?e] by blast
  then show ?thesis by (intro exI [of _ w'] exI [of _ item'] exI [of _ r]) (simp add: claim_row_def demo_defs demo_world_def)
qed

theorem at_most_once_delivery_witness:
  "deliveries_of ''mail_a'' (wl_delivered (dispatch_all [demo_options, demo_options]
     (demo_world (Inl (Error ''socket hang up''))))) +
   begun_for ''mail_a'' (wl_others (dispatch_all [demo_options, demo_options] (demo_world (Inl (Error ''socket hang up''))))) \<le> 1"
  by (rule at_most_once_delivery) (simp_all add: demo_world_def demo_ok schedule_quiet_def)

theorem dispatch_reports_the_item_witness:
  "db_ok (wl_db (snd (dispatch demo_options (demo_world (Inr ''s2''))))) \<and>
   \<not> (\<exists>x. fst (dispatch demo_options (demo_world (Inr ''s2''))) = Inr x \<and> \<not> reports x)"
  using dispatch_reports_the_item [of "demo_world (Inr ''s2'')" demo_options] by (simp add: demo_world_def demo_ok)

end
