(* ===== verification/Session_Operation.thy ===== *)
theory Session_Operation
  imports Mailbox_Theorems
begin

section \<open>The product-level operation machine (server/agent-mailbox/operation.ts)\<close>

text \<open>
  The table of transitions a session operation may make, the guarded transition, and the identity
  test; and how the table relates to the edges along which the store really moves its rows.
\<close>

datatype operation_state = OAccepted | OAmbiguous | OCancelled | OCommitted | ODelivering | OFailed | OQueued

record session_operation =
  so_operationId :: string
  so_clientMessageId :: "string option"
  so_sessionId :: string
  so_state :: operation_state
  so_attemptCount :: nat
  so_updatedAt :: int
  so_lastError :: "string option"

text \<open>A patch may leave \<^verbatim>\<open>lastError\<close> alone or set it, to \<^verbatim>\<open>undefined\<close> too.\<close>

record operation_patch =
  pt_lastError :: "string option option"
  pt_updatedAt :: "int option"

fun transitions :: "operation_state \<Rightarrow> operation_state list" where
  "transitions OAccepted = [OCommitted, OFailed, OAmbiguous, OCancelled]"
| "transitions OAmbiguous = [OCommitted, OFailed, OCancelled]"
| "transitions OCancelled = []"
| "transitions OCommitted = []"
| "transitions ODelivering = [OAccepted, OFailed, OAmbiguous, OCancelled]"
| "transitions OFailed = [OQueued, OCancelled]"
| "transitions OQueued = [ODelivering, OCancelled]"

definition canTransition :: "operation_state \<Rightarrow> operation_state \<Rightarrow> bool" where
  "canTransition s t \<longleftrightarrow> s = t \<or> t \<in> set (transitions s)"

text \<open>The literals of the union, as the message shows them.\<close>

fun state_text :: "operation_state \<Rightarrow> string" where
  "state_text OAccepted = ''accepted''"
| "state_text OAmbiguous = ''ambiguous''"
| "state_text OCancelled = ''cancelled''"
| "state_text OCommitted = ''committed''"
| "state_text ODelivering = ''delivering''"
| "state_text OFailed = ''failed''"
| "state_text OQueued = ''queued''"

definition transitionOperation ::
  "int \<Rightarrow> session_operation \<Rightarrow> operation_state \<Rightarrow> operation_patch \<Rightarrow> session_operation res" where
  "transitionOperation now opn nxt patch =
     (if \<not> canTransition (so_state opn) nxt
      then Inl (Error (''Agent session operation cannot transition from '' @ state_text (so_state opn) @ '' to '' @ state_text nxt @ ''.''))
      else Inr (opn\<lparr>
        so_lastError := (case pt_lastError patch of None \<Rightarrow> so_lastError opn | Some e \<Rightarrow> e),
        so_state := nxt,
        so_updatedAt := (case pt_updatedAt patch of None \<Rightarrow> now | Some u \<Rightarrow> u)\<rparr>))"

definition operationIdentityMatches :: "session_operation \<Rightarrow> session_operation \<Rightarrow> bool" where
  "operationIdentityMatches opn candidate \<longleftrightarrow>
     so_operationId opn = so_operationId candidate \<and> so_sessionId opn = so_sessionId candidate \<and>
     so_clientMessageId opn = so_clientMessageId candidate"

text \<open>Any sequence of attempted transitions; a refused one leaves the operation as it was.\<close>

definition try_transitions ::
  "(int \<times> operation_state \<times> operation_patch) list \<Rightarrow> session_operation \<Rightarrow> session_operation" where
  "try_transitions ts opn = fold (\<lambda>(now, nxt, patch) o'. case transitionOperation now o' nxt patch of
     Inl _ \<Rightarrow> o' | Inr o'' \<Rightarrow> o'') ts opn"

text \<open>The operation state a mailbox status stands for.\<close>

fun operation_state_of :: "mail_status \<Rightarrow> operation_state" where
  "operation_state_of MQueued = OQueued"
| "operation_state_of MDelivering = ODelivering"
| "operation_state_of MAccepted = OAccepted"
| "operation_state_of MCommitted = OCommitted"
| "operation_state_of MFailed = OFailed"
| "operation_state_of MSubmissionAmbiguous = OAmbiguous"
| "operation_state_of MCancelled = OCancelled"

lemma transition_ident:
  "transitionOperation now o' nxt p = Inr o'' \<Longrightarrow> operationIdentityMatches o' o'' \<and> so_attemptCount o'' = so_attemptCount o'"
  by (auto simp: transitionOperation_def operationIdentityMatches_def split: if_splits)

lemma transition_settled:
  "transitionOperation now o' nxt p = Inr o'' \<Longrightarrow> so_state o' \<in> {OCommitted, OCancelled} \<Longrightarrow> so_state o'' = so_state o'"
  by (auto simp: transitionOperation_def canTransition_def split: if_splits)

text \<open>Remark (operations_never_reopen)
  A late event never reopens an operation: through any sequence of attempted transitions, refused or
  not, an operation keeps its identity, and once committed or cancelled it stays so.\<close>

theorem operations_never_reopen:
  "operationIdentityMatches opn (try_transitions ts opn) \<and>
   (so_state opn \<in> {OCommitted, OCancelled} \<longrightarrow> so_state (try_transitions ts opn) = so_state opn)"
proof (induction ts arbitrary: opn)
  case Nil
  show ?case by (simp add: try_transitions_def operationIdentityMatches_def)
next
  case (Cons t ts)
  obtain now nxt p where t: "t = (now, nxt, p)" by (cases t)
  let ?o = "case transitionOperation now opn nxt p of Inl _ \<Rightarrow> opn | Inr o'' \<Rightarrow> o''"
  have "try_transitions (t # ts) opn = try_transitions ts ?o" by (simp add: try_transitions_def t)
  moreover have "operationIdentityMatches opn ?o"
    by (auto simp: operationIdentityMatches_def split: sum.splits dest: transition_ident)
  moreover have "so_state opn \<in> {OCommitted, OCancelled} \<longrightarrow> so_state ?o = so_state opn"
    by (auto split: sum.splits dest: transition_settled)
  ultimately show ?case using Cons.IH [of ?o] by (auto simp: operationIdentityMatches_def)
qed

theorem operations_never_reopen_witness:
  "so_state (try_transitions [(5, OQueued, \<lparr>pt_lastError = None, pt_updatedAt = None\<rparr>)]
     \<lparr>so_operationId = ''o'', so_clientMessageId = None, so_sessionId = ''s'', so_state = OCommitted,
       so_attemptCount = 1, so_updatedAt = 4, so_lastError = None\<rparr>) = OCommitted"
  using operations_never_reopen [of "\<lparr>so_operationId = ''o'', so_clientMessageId = None, so_sessionId = ''s'',
      so_state = OCommitted, so_attemptCount = 1, so_updatedAt = 4, so_lastError = None\<rparr>"]
  by simp

lemma edge_table:
  "mail_edge s t \<Longrightarrow> \<not> canTransition (operation_state_of s) (operation_state_of t) \<Longrightarrow>
   s = MDelivering \<and> t \<in> {MQueued, MCommitted}"
  by (cases s; cases t) (auto simp: canTransition_def)

text \<open>Remark (store_outruns_the_table)
  Along every run of the mailbox, a row moves only where the operation table allows, with exactly two
  exceptions, which the table refuses and the store performs: a delivery goes back to the queue
  (deferral), and a delivery is committed before its acceptance is recorded.\<close>

theorem store_outruns_the_table:
  "(\<forall>s t. mail_edge s t \<and> \<not> canTransition (operation_state_of s) (operation_state_of t) \<longrightarrow>
      s = MDelivering \<and> t \<in> {MQueued, MCommitted}) \<and>
   (\<forall>t \<in> {MQueued, MCommitted}. mail_edge MDelivering t \<and>
      \<not> canTransition (operation_state_of MDelivering) (operation_state_of t)) \<and>
   mb_status (requeue 9 None 8 (admitted_row (demo_input ''c''))) = MQueued \<and>
   committable ''mail_a'' ''s'' (admitted_row (demo_input ''c''))"
proof (intro conjI)
  show "\<forall>s t. mail_edge s t \<and> \<not> canTransition (operation_state_of s) (operation_state_of t) \<longrightarrow>
      s = MDelivering \<and> t \<in> {MQueued, MCommitted}" using edge_table by blast
qed (auto simp: canTransition_def requeue_def committable_def demo_defs)

theorem store_outruns_the_table_witness:
  "\<not> (mail_edge MQueued MCommitted \<and> \<not> canTransition (operation_state_of MQueued) (operation_state_of MCommitted))"
  using store_outruns_the_table by auto

end
