(* ===== verification/Json.thy ===== *)
theory Json
  imports Prelude
begin

section \<open>JSON values and the events of the runtime's stream\<close>

text \<open>
  JSON as the sources hold it after \<^verbatim>\<open>JSON.parse\<close>, and the stream events of the Eve client
  (\<^verbatim>\<open>MessageStreamEvent\<close>): the type as an enumeration, and of the payload the fields the sources
  read, each optional.  \<open>se_data\<close> is the whole payload, of which the other fields are the reads, so
  that two events are equal only if their JSON is; \<open>se_at\<close> is \<^verbatim>\<open>Date.parse(meta.at)\<close>, absent when the
  text does not parse.
\<close>

datatype json =
    JNull
  | JBool bool
  | JNum rat
  | JStr string
  | JArr "json list"
  | JObj "(string \<times> json) list"

definition jget :: "string \<Rightarrow> json \<Rightarrow> json option" where
  "jget k v = (case v of JObj kvs \<Rightarrow> map_of kvs k | _ \<Rightarrow> None)"

definition is_record :: "json \<Rightarrow> bool" where
  "is_record v \<longleftrightarrow> (case v of JObj _ \<Rightarrow> True | _ \<Rightarrow> False)"

definition jstring :: "json option \<Rightarrow> string option" where
  "jstring v = (case v of Some (JStr s) \<Rightarrow> Some s | _ \<Rightarrow> None)"

definition jarray :: "json option \<Rightarrow> json list option" where
  "jarray v = (case v of Some (JArr xs) \<Rightarrow> Some xs | _ \<Rightarrow> None)"

text \<open>\<^verbatim>\<open>Number.isSafeInteger\<close>, as the integer it is.\<close>

definition MAX_SAFE_INTEGER :: int where
  "MAX_SAFE_INTEGER = 9007199254740991"

definition jsafe_int :: "json option \<Rightarrow> int option" where
  "jsafe_int v = (case v of
     Some (JNum x) \<Rightarrow> if x = of_int \<lfloor>x\<rfloor> \<and> \<bar>x\<bar> \<le> of_int MAX_SAFE_INTEGER then Some \<lfloor>x\<rfloor> else None
   | _ \<Rightarrow> None)"

definition jbool :: "json option \<Rightarrow> bool option" where
  "jbool v = (case v of Some (JBool b) \<Rightarrow> Some b | _ \<Rightarrow> None)"

datatype event_type =
    SessionStarted | SessionWaiting | SessionCompleted | SessionFailed
  | TurnStarted | TurnCompleted | TurnFailed | TurnCancelled
  | MessageReceived | MessageAppended | MessageCompleted
  | ReasoningAppended | ReasoningCompleted
  | ActionInputPartial | ActionsRequested | ActionPartial | ActionResult
  | InputRequested | AuthorizationRequired | AuthorizationCompleted
  | ResultCompleted | ContextCleared | ModelRetrying
  | StepStarted | StepCompleted | StepFailed
  | OtherEvent string

record event_usage =
  eu_cacheReadTokens :: "int option"
  eu_cacheWriteTokens :: "int option"
  eu_costUsd :: "rat option"
  eu_inputTokens :: "int option"
  eu_outputTokens :: "int option"

record stream_event =
  se_type :: event_type
  se_metaId :: "string option"
  se_metaAt :: "string option"
  se_at :: "int option"
  se_turnId :: "string option"
  se_sequence :: "int option"
  se_stepIndex :: "int option"
  se_callId :: "string option"
  se_soFar :: "string option"
  se_message :: "string option"
  se_finishReason :: "string option"
  se_code :: "string option"
  se_clientMessageId :: "string option"
  se_usage :: "event_usage option"
  se_result :: json
  se_requests :: "string option list option"
  se_data :: "json option"

text \<open>An event with nothing but its type, for examples.\<close>

definition bare_event :: "event_type \<Rightarrow> stream_event" where
  "bare_event t = \<lparr>se_type = t, se_metaId = None, se_metaAt = None, se_at = None, se_turnId = None,
     se_sequence = None, se_stepIndex = None, se_callId = None, se_soFar = None, se_message = None,
     se_finishReason = None, se_code = None, se_clientMessageId = None, se_usage = None, se_result = JNull,
     se_requests = None, se_data = None\<rparr>"

end
