(* ===== verification/Run_Store.thy ===== *)
theory Run_Store
  imports Json
begin

section \<open>The durable run table (server/data/agent-run-store.ts)\<close>

text \<open>
  The rows of \<open>agent_runs\<close> and \<open>agent_run_input_responses\<close>, and every method of
  \<open>AgentRunStore\<close> as one action: guards from the \<open>where\<close> clauses, writes from the \<open>set\<close>
  clauses, the unique keys as database errors.  \<open>now\<close> is the transaction time, \<open>uuid\<close> the
  fresh value of \<open>randomUUID()\<close>.
\<close>

subsection \<open>Data\<close>

datatype run_status =
    RSubmitting | RRunning | RWaitingInput | RWaitingAuthorization
  | RCompleted | RFailed | RCancelled | RSubmissionAmbiguous

record usage =
  us_cacheReadTokens :: int
  us_cacheWriteTokens :: int
  us_costUsd :: rat
  us_inputTokens :: int
  us_outputTokens :: int
  us_steps :: int

datatype run_result = JsonResult json | TextResult string

record run_failure =
  rf_code :: string
  rf_message :: string
  rf_retryable :: bool

record run_parent =
  rp_depth :: int
  rp_parentRunId :: string
  rp_rootRunId :: string
  rp_source :: string

record run_row =
  rr_cancellationRequestedAt :: "int option"
  rr_correlationId :: string
  rr_createdAt :: int
  rr_eventCount :: nat
  rr_failure :: "run_failure option"
  rr_idempotencyKey :: string
  rr_metadata :: json
  rr_parent :: "run_parent option"
  rr_policy :: json
  rr_principalId :: string
  rr_profile :: "string \<times> string"
  rr_requestFingerprint :: string
  rr_result :: "run_result option"
  rr_revision :: int
  rr_runId :: string
  rr_sessionId :: "string option"
  rr_status :: run_status
  rr_tenantId :: string
  rr_updatedAt :: int
  rr_usage :: usage

datatype input_status = IAccepted | IFailed | ISubmissionAmbiguous | ISubmitting

record run_input_row =
  ii_createdAt :: int
  ii_idempotencyKey :: string
  ii_inputResponses :: json
  ii_lastError :: "string option"
  ii_requestFingerprint :: string
  ii_requestIds :: "string list"
  ii_responseId :: string
  ii_runId :: string
  ii_status :: input_status
  ii_updatedAt :: int

record run_db =
  rd_runs :: "run_row list"
  rd_inputs :: "run_input_row list"

record reserve_input =
  rs_correlationId :: string
  rs_idempotencyKey :: string
  rs_metadata :: json
  rs_parent :: "run_parent option"
  rs_policy :: json
  rs_principalId :: string
  rs_profile :: "string \<times> string"
  rs_requestFingerprint :: string
  rs_tenantId :: string

datatype reserve_result =
    Reserved run_row | Replayed run_row | Conflicting run_row
  | Capacity nat nat nat nat

record run_projection =
  pj_eventCount :: nat
  pj_failure :: "run_failure option"
  pj_result :: "run_result option"
  pj_status :: run_status
  pj_usage :: usage

record run_config =
  cf_maxActiveRuns :: "nat option"
  cf_maxActiveRunsPerTenant :: "nat option"

definition emptyUsage :: usage where
  "emptyUsage = \<lparr>us_cacheReadTokens = 0, us_cacheWriteTokens = 0, us_costUsd = 0, us_inputTokens = 0,
     us_outputTokens = 0, us_steps = 0\<rparr>"

subsection \<open>Rows and records\<close>

definition run_row_required :: "'a option \<Rightarrow> 'a res" where
  "run_row_required = require_row ''AgentRun persistence state changed unexpectedly.''"

text \<open>\<^verbatim>\<open>toRecord\<close>, with \<^verbatim>\<open>parseRevision\<close> in it.\<close>

definition run_record :: "run_row \<Rightarrow> run_row res" where
  "run_record r =
     (if rr_revision r > MAX_SAFE_INTEGER \<or> rr_revision r < 1 then Inl (Error ''Invalid AgentRun revision.'')
      else Inr (r\<lparr>rr_sessionId := truthy (rr_sessionId r)\<rparr>))"

fun is_terminal :: "run_status \<Rightarrow> bool" where
  "is_terminal RCompleted = True"
| "is_terminal RFailed = True"
| "is_terminal RCancelled = True"
| "is_terminal RSubmissionAmbiguous = True"
| "is_terminal _ = False"

text \<open>The statuses that hold an admission slot.\<close>

definition active :: "run_row \<Rightarrow> bool" where
  "active r \<longleftrightarrow> rr_status r \<in> {RSubmitting, RRunning, RWaitingInput, RWaitingAuthorization}"

subsection \<open>reserve\<close>

definition same_request :: "reserve_input \<Rightarrow> run_row \<Rightarrow> bool" where
  "same_request i r \<longleftrightarrow> rr_tenantId r = rs_tenantId i \<and> rr_principalId r = rs_principalId i \<and>
     rr_idempotencyKey r = rs_idempotencyKey i"

definition new_run :: "string \<Rightarrow> int \<Rightarrow> reserve_input \<Rightarrow> run_row" where
  "new_run uuid now i = \<lparr>
     rr_cancellationRequestedAt = None, rr_correlationId = rs_correlationId i, rr_createdAt = now,
     rr_eventCount = 0, rr_failure = None, rr_idempotencyKey = rs_idempotencyKey i,
     rr_metadata = rs_metadata i, rr_parent = rs_parent i, rr_policy = rs_policy i,
     rr_principalId = rs_principalId i, rr_profile = rs_profile i,
     rr_requestFingerprint = rs_requestFingerprint i, rr_result = None, rr_revision = 1,
     rr_runId = ''arun_'' @ uuid, rr_sessionId = None, rr_status = RSubmitting, rr_tenantId = rs_tenantId i,
     rr_updatedAt = now, rr_usage = emptyUsage\<rparr>"

definition replay_or_conflict :: "reserve_input \<Rightarrow> run_row \<Rightarrow> reserve_result res" where
  "replay_or_conflict i r = map_sum id
     (\<lambda>x. if rr_requestFingerprint r = rs_requestFingerprint i then Replayed x else Conflicting x) (run_record r)"

definition active_count :: "run_row list \<Rightarrow> nat" where
  "active_count rs = length (filter active rs)"

definition active_tenant_count :: "string \<Rightarrow> run_row list \<Rightarrow> nat" where
  "active_tenant_count t rs = length (filter (\<lambda>r. active r \<and> rr_tenantId r = t) rs)"

definition insert_run :: "string \<Rightarrow> int \<Rightarrow> reserve_input \<Rightarrow> (run_db, reserve_result) act" where
  "insert_run uuid now i db =
     (let row = new_run uuid now i
      in if \<exists>r \<in> set (rd_runs db). rr_runId r = rr_runId row
         then (Inl (Error ''duplicate key value violates unique constraint''), db)
         else (case find (same_request i) (rd_runs db) of
             None \<Rightarrow> (map_sum id Reserved (run_record row), db\<lparr>rd_runs := rd_runs db @ [row]\<rparr>)
           | Some raced \<Rightarrow> (replay_or_conflict i raced, db)))"

definition reserve_tx :: "run_config \<Rightarrow> string \<Rightarrow> int \<Rightarrow> reserve_input \<Rightarrow> (run_db, reserve_result) act" where
  "reserve_tx cfg uuid now i db =
     (case find (same_request i) (rd_runs db) of
        Some row \<Rightarrow> (replay_or_conflict i row, db)
      | None \<Rightarrow>
          let maxActiveRuns = (case cf_maxActiveRuns cfg of None \<Rightarrow> 0 | Some n \<Rightarrow> n);
              maxPerTenant = (case cf_maxActiveRunsPerTenant cfg of None \<Rightarrow> 0 | Some n \<Rightarrow> n);
              activeCount = active_count (rd_runs db);
              activeTenantCount = active_tenant_count (rs_tenantId i) (rd_runs db)
          in if (maxActiveRuns > 0 \<or> maxPerTenant > 0) \<and>
                ((maxActiveRuns > 0 \<and> activeCount \<ge> maxActiveRuns) \<or>
                 (maxPerTenant > 0 \<and> activeTenantCount \<ge> maxPerTenant))
             then (Inr (Capacity activeCount activeTenantCount maxActiveRuns maxPerTenant), db)
             else insert_run uuid now i db)"

definition reserve :: "run_config \<Rightarrow> string \<Rightarrow> int \<Rightarrow> reserve_input \<Rightarrow> (run_db, reserve_result) act" where
  "reserve cfg uuid now i = transaction (reserve_tx cfg uuid now i)"

subsection \<open>Guarded updates\<close>

definition update_runs ::
  "(run_row \<Rightarrow> bool) \<Rightarrow> (run_row \<Rightarrow> run_row) \<Rightarrow> (run_db, run_row option) act" where
  "update_runs P f db =
     (Inr (returning P f (rd_runs db)), db\<lparr>rd_runs := update_where P f (rd_runs db)\<rparr>)"

definition select_run :: "string \<Rightarrow> (run_db, run_row option) act" where
  "select_run k db = (Inr (find (\<lambda>r. rr_runId r = k) (rd_runs db)), db)"

text \<open>Every write bumps the revision and the time of change.\<close>

definition touch :: "int \<Rightarrow> run_row \<Rightarrow> run_row" where
  "touch now r = r\<lparr>rr_revision := rr_revision r + 1, rr_updatedAt := now\<rparr>"

text \<open>An update of the unique session column fails when another row has the session.\<close>

definition session_taken :: "string \<Rightarrow> string \<Rightarrow> run_row list \<Rightarrow> bool" where
  "session_taken k sid rs \<longleftrightarrow> (\<exists>r \<in> set rs. rr_runId r \<noteq> k \<and> rr_sessionId r = Some sid)"

definition update_session ::
  "string \<Rightarrow> string \<Rightarrow> (run_row \<Rightarrow> bool) \<Rightarrow> (run_row \<Rightarrow> run_row) \<Rightarrow> (run_db, run_row option) act" where
  "update_session k sid P f db =
     (if (\<exists>r \<in> set (rd_runs db). P r) \<and> session_taken k sid (rd_runs db)
      then (Inl (Error ''duplicate key value violates unique constraint''), db)
      else update_runs P f db)"

definition attachable :: "string \<Rightarrow> run_row \<Rightarrow> bool" where
  "attachable k r \<longleftrightarrow> rr_runId r = k \<and> rr_status r = RSubmitting"

definition attach_write :: "string \<Rightarrow> int \<Rightarrow> run_row \<Rightarrow> run_row" where
  "attach_write sid now r = (touch now r)\<lparr>rr_sessionId := Some sid, rr_status := RRunning\<rparr>"

definition attachSession :: "string \<Rightarrow> string \<Rightarrow> int \<Rightarrow> (run_db, run_row) act" where
  "attachSession k sid now =
     bind_act (update_session k sid (attachable k) (attach_write sid now)) (\<lambda>u. case u of
        Some r \<Rightarrow> lift_res (run_record r)
      | None \<Rightarrow> bind_act (select_run k) (\<lambda>e. bind_act (lift_res (run_row_required e)) (\<lambda>row.
          if rr_sessionId row = Some sid \<and> rr_status row = RRunning then lift_res (run_record row)
          else throw (Error ''AgentRun session attachment was already settled with a different state.''))))"

definition bindable :: "string \<Rightarrow> string \<Rightarrow> run_row \<Rightarrow> bool" where
  "bindable k sid r \<longleftrightarrow> rr_runId r = k \<and> rr_status r = RSubmitting \<and>
     (rr_sessionId r = None \<or> rr_sessionId r = Some sid)"

definition bind_write :: "string \<Rightarrow> int \<Rightarrow> run_row \<Rightarrow> run_row" where
  "bind_write sid now r = (touch now r)\<lparr>rr_sessionId := Some sid\<rparr>"

definition bindSubmissionSession :: "string \<Rightarrow> string \<Rightarrow> int \<Rightarrow> (run_db, run_row) act" where
  "bindSubmissionSession k sid now =
     bind_act (update_session k sid (bindable k sid) (bind_write sid now)) (\<lambda>u. case u of
        Some r \<Rightarrow> lift_res (run_record r)
      | None \<Rightarrow> bind_act (select_run k) (\<lambda>e. bind_act (lift_res (run_row_required e)) (\<lambda>row.
          if rr_sessionId row = Some sid \<and> (rr_status row = RSubmitting \<or> rr_status row = RRunning)
          then lift_res (run_record row)
          else throw (Error ''AgentRun submission session was already settled with a different state.''))))"

definition owned_run :: "string \<Rightarrow> string \<Rightarrow> run_row \<Rightarrow> bool" where
  "owned_run t p r \<longleftrightarrow> rr_tenantId r = t \<and> rr_principalId r = p"

definition optional_record :: "run_row option \<Rightarrow> run_row option res" where
  "optional_record r = (case r of None \<Rightarrow> Inr None | Some x \<Rightarrow> map_sum id Some (run_record x))"

definition findOwnedRun :: "string \<Rightarrow> string \<Rightarrow> string \<Rightarrow> (run_db, run_row option) act" where
  "findOwnedRun t p k db =
     (optional_record (find (\<lambda>r. rr_runId r = k \<and> owned_run t p r) (rd_runs db)), db)"

text \<open>\<^verbatim>\<open>order by created_at desc limit 1\<close>.\<close>

definition findOwnedBySession :: "string \<Rightarrow> string \<Rightarrow> string \<Rightarrow> (run_db, run_row option) act" where
  "findOwnedBySession t p sid db =
     (case filter (\<lambda>r. rr_sessionId r = Some sid \<and> owned_run t p r) (rd_runs db) of
        [] \<Rightarrow> (Inr None, db)
      | r # rs \<Rightarrow> (optional_record (Some (arg_min_list (\<lambda>r. - rr_createdAt r) (r # rs))), db))"

definition update_or_read ::
  "string \<Rightarrow> (run_row \<Rightarrow> bool) \<Rightarrow> (run_row \<Rightarrow> run_row) \<Rightarrow> (run_db, run_row) act" where
  "update_or_read k P f =
     bind_act (update_runs P f) (\<lambda>u. case u of
        Some r \<Rightarrow> lift_res (run_record r)
      | None \<Rightarrow> bind_act (select_run k) (\<lambda>e. bind_act (lift_res (run_row_required e)) (\<lambda>row. lift_res (run_record row))))"

definition cancel_requestable :: "string \<Rightarrow> run_row \<Rightarrow> bool" where
  "cancel_requestable k r \<longleftrightarrow> rr_runId r = k \<and> rr_cancellationRequestedAt r = None \<and>
     rr_status r \<notin> {RCompleted, RFailed, RCancelled, RSubmissionAmbiguous}"

definition cancel_request_write :: "int \<Rightarrow> run_row \<Rightarrow> run_row" where
  "cancel_request_write now r = (touch now r)\<lparr>rr_cancellationRequestedAt := Some now\<rparr>"

definition markCancellationRequested :: "string \<Rightarrow> int \<Rightarrow> (run_db, run_row) act" where
  "markCancellationRequested k now = update_or_read k (cancel_requestable k) (cancel_request_write now)"

definition cancellable_run :: "string \<Rightarrow> run_row \<Rightarrow> bool" where
  "cancellable_run k r \<longleftrightarrow> rr_runId r = k \<and> rr_status r \<noteq> RCancelled"

definition cancelled_write :: "int \<Rightarrow> run_row \<Rightarrow> run_row" where
  "cancelled_write now r = (touch now r)\<lparr>rr_status := RCancelled, rr_result := None, rr_failure := None\<rparr>"

definition markCancelled :: "string \<Rightarrow> int \<Rightarrow> (run_db, run_row) act" where
  "markCancelled k now = update_or_read k (cancellable_run k) (cancelled_write now)"

definition failed_write :: "run_status \<Rightarrow> string \<Rightarrow> string \<Rightarrow> int \<Rightarrow> run_row \<Rightarrow> run_row" where
  "failed_write status code message now r = (touch now r)\<lparr>rr_status := status,
     rr_failure := Some \<lparr>rf_code = code, rf_message = message, rf_retryable = False\<rparr>\<rparr>"

definition markSubmissionFailed :: "string \<Rightarrow> string \<Rightarrow> int \<Rightarrow> (run_db, run_row) act" where
  "markSubmissionFailed k message now =
     bind_act (update_runs (attachable k) (failed_write RFailed ''runtime-rejected'' message now))
       (\<lambda>u. bind_act (lift_res (run_row_required u)) (\<lambda>r. lift_res (run_record r)))"

definition markRunAmbiguous :: "string \<Rightarrow> string \<Rightarrow> int \<Rightarrow> (run_db, run_row) act" where
  "markRunAmbiguous k message now =
     update_or_read k (attachable k) (failed_write RSubmissionAmbiguous ''submission-ambiguous'' message now)"

definition assertBoundedInteger :: "int \<Rightarrow> string \<Rightarrow> int \<Rightarrow> int \<Rightarrow> unit res" where
  "assertBoundedInteger v name minimum maximum =
     assert_that (\<not> (\<bar>v\<bar> > MAX_SAFE_INTEGER \<or> v < minimum \<or> v > maximum))
       (RangeError (name @ '' must be an integer from '' @ show_nat (nat minimum) @ '' to '' @ show_nat (nat maximum) @ ''.''))"

fun collect :: "'a res list \<Rightarrow> 'a list res" where
  "collect [] = Inr []"
| "collect (Inl e # rs) = Inl e"
| "collect (Inr x # rs) = map_sum id (\<lambda>xs. x # xs) (collect rs)"

definition listStaleSubmissions :: "int \<Rightarrow> int \<Rightarrow> int \<Rightarrow> (run_db, run_row list) act" where
  "listStaleSubmissions olderThanMs limit now =
     bind_act (lift_res (checks [assertBoundedInteger olderThanMs ''olderThanMs'' 1 86400000,
         assertBoundedInteger limit ''limit'' 1 10000]))
     (\<lambda>_ db. (collect (map run_record (take (nat limit)
        (sort_key rr_updatedAt (filter (\<lambda>r. rr_status r = RSubmitting \<and> rr_updatedAt r < now - olderThanMs) (rd_runs db))))), db))"

subsection \<open>updateProjection\<close>

definition projected_status :: "run_row \<Rightarrow> run_projection \<Rightarrow> run_status" where
  "projected_status cur p =
     (if is_terminal (rr_status cur) then rr_status cur
      else if rr_cancellationRequestedAt cur \<noteq> None \<and> pj_status p \<noteq> RCancelled then rr_status cur
      else pj_status p)"

definition effective_projection :: "run_row \<Rightarrow> run_projection \<Rightarrow> run_projection" where
  "effective_projection cur p =
     (let status = projected_status cur p
      in if rr_cancellationRequestedAt cur \<noteq> None \<or> status = RCancelled
         then \<lparr>pj_eventCount = pj_eventCount p, pj_failure = None, pj_result = None, pj_status = status, pj_usage = pj_usage p\<rparr>
         else p\<lparr>pj_status := status\<rparr>)"

text \<open>Equality of the JSON texts: both sides carry the key order of the row read back.\<close>

definition projection_matches :: "run_row \<Rightarrow> run_projection \<Rightarrow> bool" where
  "projection_matches cur p \<longleftrightarrow> rr_eventCount cur \<ge> pj_eventCount p \<and> rr_status cur = pj_status p \<and>
     rr_usage cur = pj_usage p \<and> rr_result cur = pj_result p \<and> rr_failure cur = pj_failure p"

definition projection_write :: "run_projection \<Rightarrow> int \<Rightarrow> run_row \<Rightarrow> run_row" where
  "projection_write p now r = (touch now r)\<lparr>rr_status := pj_status p,
     rr_eventCount := max (rr_eventCount r) (pj_eventCount p), rr_usage := pj_usage p,
     rr_result := pj_result p, rr_failure := pj_failure p\<rparr>"

definition updateProjection_tx :: "string \<Rightarrow> run_projection \<Rightarrow> int \<Rightarrow> (run_db, run_row) act" where
  "updateProjection_tx k p now =
     bind_act (select_run k) (\<lambda>row.
     bind_act (lift_res (run_row_required row)) (\<lambda>row.
     bind_act (lift_res (run_record row)) (\<lambda>cur.
       if rr_eventCount cur > pj_eventCount p then ret cur
       else let e = effective_projection cur p
            in if projection_matches cur e then ret cur
               else bind_act (update_runs (\<lambda>r. rr_runId r = k) (projection_write e now))
                 (\<lambda>u. bind_act (lift_res (run_row_required u)) (\<lambda>r. lift_res (run_record r))))))"

definition updateProjection :: "string \<Rightarrow> run_projection \<Rightarrow> int \<Rightarrow> (run_db, run_row) act" where
  "updateProjection k p now = transaction (updateProjection_tx k p now)"

subsection \<open>Input responses (server/data/agent-run-input-store.ts)\<close>

record reserve_response =
  rq_idempotencyKey :: string
  rq_inputResponses :: json
  rq_requestFingerprint :: string
  rq_requestIds :: "string list"
  rq_runId :: string

datatype response_reservation =
    ResponseReserved run_input_row | ResponseReplay run_input_row
  | ResponseConflict run_input_row | AlreadyAnswered run_input_row

definition input_required :: "'a option \<Rightarrow> 'a res" where
  "input_required = require_row ''The AgentRun input response persistence state changed unexpectedly.''"

definition input_record :: "run_input_row \<Rightarrow> run_input_row" where
  "input_record r = r\<lparr>ii_lastError := truthy (ii_lastError r)\<rparr>"

definition same_response :: "string \<Rightarrow> string \<Rightarrow> run_input_row \<Rightarrow> bool" where
  "same_response runId key r \<longleftrightarrow> ii_runId r = runId \<and> ii_idempotencyKey r = key"

definition findResponse :: "string \<Rightarrow> string \<Rightarrow> (run_db, run_input_row option) act" where
  "findResponse runId key db =
     (Inr (map_option input_record (find (same_response runId key) (rd_inputs db))), db)"

definition overlaps :: "reserve_response \<Rightarrow> run_input_row \<Rightarrow> bool" where
  "overlaps i r \<longleftrightarrow> ii_runId r = rq_runId i \<and> set (ii_requestIds r) \<inter> set (rq_requestIds i) \<noteq> {} \<and> ii_status r \<noteq> IFailed"

definition new_response :: "string \<Rightarrow> int \<Rightarrow> reserve_response \<Rightarrow> run_input_row" where
  "new_response uuid now i = \<lparr>ii_createdAt = now, ii_idempotencyKey = rq_idempotencyKey i,
     ii_inputResponses = rq_inputResponses i, ii_lastError = None,
     ii_requestFingerprint = rq_requestFingerprint i, ii_requestIds = rq_requestIds i,
     ii_responseId = ''arsp_'' @ uuid, ii_runId = rq_runId i, ii_status = ISubmitting, ii_updatedAt = now\<rparr>"

text \<open>\<^verbatim>\<open>cardinality(request_ids) between 1 and 16\<close> is a check of the table the insert can fail.\<close>

definition insert_response :: "string \<Rightarrow> int \<Rightarrow> reserve_response \<Rightarrow> (run_db, response_reservation) act" where
  "insert_response uuid now i db =
     (let row = new_response uuid now i
      in if (\<exists>r \<in> set (rd_inputs db). ii_responseId r = ii_responseId row) \<or>
            rq_requestIds i = [] \<or> length (rq_requestIds i) > 16
         then (Inl (Error ''constraint violation''), db)
         else (Inr (ResponseReserved (input_record row)), db\<lparr>rd_inputs := rd_inputs db @ [row]\<rparr>))"

definition reserveResponse_tx :: "string \<Rightarrow> int \<Rightarrow> reserve_response \<Rightarrow> (run_db, response_reservation) act" where
  "reserveResponse_tx uuid now i db =
     (case find (\<lambda>r. rr_runId r = rq_runId i) (rd_runs db) of
        None \<Rightarrow> (Inl (Error ''The AgentRun disappeared while reserving its input response.''), db)
      | Some _ \<Rightarrow>
          (case find (same_response (rq_runId i) (rq_idempotencyKey i)) (rd_inputs db) of
             Some row \<Rightarrow>
               let record = input_record row
               in (Inr (if ii_requestFingerprint record = rq_requestFingerprint i
                        then ResponseReplay record else ResponseConflict record), db)
           | None \<Rightarrow>
               (case filter (overlaps i) (rd_inputs db) of
                  r # rs \<Rightarrow> (Inr (AlreadyAnswered (input_record (arg_min_list ii_createdAt (r # rs)))), db)
                | [] \<Rightarrow> insert_response uuid now i db)))"

definition reserveResponse :: "string \<Rightarrow> int \<Rightarrow> reserve_response \<Rightarrow> (run_db, response_reservation) act" where
  "reserveResponse uuid now i = transaction (reserveResponse_tx uuid now i)"

definition settle_response :: "input_status \<Rightarrow> string option \<Rightarrow> int \<Rightarrow> run_input_row \<Rightarrow> run_input_row" where
  "settle_response status lastError now r =
     (if ii_status r = ISubmitting then r\<lparr>ii_status := status, ii_lastError := lastError, ii_updatedAt := now\<rparr> else r)"

definition transitionResponse ::
  "string \<Rightarrow> input_status \<Rightarrow> string option \<Rightarrow> int \<Rightarrow> (run_db, run_input_row) act" where
  "transitionResponse k status lastError now db =
     (let P = (\<lambda>r. ii_responseId r = k); f = settle_response status lastError now
      in (map_sum id input_record (input_required (returning P f (rd_inputs db))),
          db\<lparr>rd_inputs := update_where P f (rd_inputs db)\<rparr>))"

definition markResponseAccepted :: "string \<Rightarrow> int \<Rightarrow> (run_db, run_input_row) act" where
  "markResponseAccepted k now = transitionResponse k IAccepted None now"

definition markResponseFailed :: "string \<Rightarrow> string \<Rightarrow> int \<Rightarrow> (run_db, run_input_row) act" where
  "markResponseFailed k message now = transitionResponse k IFailed (Some message) now"

definition markResponseAmbiguous :: "string \<Rightarrow> string \<Rightarrow> int \<Rightarrow> (run_db, run_input_row) act" where
  "markResponseAmbiguous k message now = transitionResponse k ISubmissionAmbiguous (Some message) now"

end
