(* ===== verification/Run_Invariant.thy ===== *)
theory Run_Invariant
  imports Run_Store
begin

section \<open>What every method of the run store keeps\<close>

text \<open>
  The methods as commands and their runs; the table invariant (three unique keys, valid revisions)
  and the order in which a row may evolve: identity kept, revision and event cursor only growing,
  an inactive run inactive for good, a cancelled run cancelled for good.
\<close>

subsection \<open>Rows\<close>

text \<open>The columns no method writes after the insert.\<close>

definition run_ident :: "run_row \<Rightarrow> string \<times> string \<times> string \<times> string \<times> string \<times> int" where
  "run_ident r = (rr_runId r, rr_tenantId r, rr_principalId r, rr_idempotencyKey r, rr_requestFingerprint r, rr_createdAt r)"

definition request_key :: "run_row \<Rightarrow> string \<times> string \<times> string" where
  "request_key r = (rr_tenantId r, rr_principalId r, rr_idempotencyKey r)"

text \<open>The edges along which the store moves a run.\<close>

fun run_edge :: "run_status \<Rightarrow> run_status \<Rightarrow> bool" where
  "run_edge RCompleted t = (t \<in> {RCompleted, RCancelled})"
| "run_edge RFailed t = (t \<in> {RFailed, RCancelled})"
| "run_edge RSubmissionAmbiguous t = (t \<in> {RSubmissionAmbiguous, RCancelled})"
| "run_edge RCancelled t = (t = RCancelled)"
| "run_edge _ t = True"

definition run_row_ok :: "run_row \<Rightarrow> bool" where
  "run_row_ok r \<longleftrightarrow> 1 \<le> rr_revision r \<and> (rr_status r = RCancelled \<longrightarrow> rr_result r = None \<and> rr_failure r = None)"

text \<open>How a row may differ later.\<close>

definition run_le :: "run_row \<Rightarrow> run_row \<Rightarrow> bool" where
  "run_le r r' \<longleftrightarrow> run_ident r' = run_ident r \<and> rr_revision r \<le> rr_revision r' \<and> rr_eventCount r \<le> rr_eventCount r' \<and>
     (\<not> active r \<longrightarrow> \<not> active r') \<and> (rr_status r = RCancelled \<longrightarrow> rr_status r' = RCancelled) \<and>
     (rr_cancellationRequestedAt r \<noteq> None \<longrightarrow> rr_cancellationRequestedAt r' = rr_cancellationRequestedAt r) \<and>
     (rr_revision r = rr_revision r' \<longrightarrow> r' = r)"

lemma run_le_refl [simp]: "run_le r r"
  by (simp add: run_le_def)

lemma run_le_trans: "run_le a b \<Longrightarrow> run_le b c \<Longrightarrow> run_le a c"
  unfolding run_le_def by (auto intro: order_trans)

definition table_le :: "run_row list \<Rightarrow> run_row list \<Rightarrow> bool" where
  "table_le rs rs' \<longleftrightarrow> (\<forall>r \<in> set rs. \<exists>r' \<in> set rs'. run_le r r')"

lemma table_le_refl [simp]: "table_le rs rs"
  by (auto simp: table_le_def intro: run_le_refl)

lemma table_le_trans: "table_le a b \<Longrightarrow> table_le b c \<Longrightarrow> table_le a c"
  unfolding table_le_def by (meson run_le_trans)

definition sessions :: "run_row list \<Rightarrow> string list" where
  "sessions rs = map the (filter (\<lambda>s. s \<noteq> None) (map rr_sessionId rs))"

definition runs_ok :: "run_db \<Rightarrow> bool" where
  "runs_ok db \<longleftrightarrow> distinct (map rr_runId (rd_runs db)) \<and> distinct (map request_key (rd_runs db)) \<and>
     distinct (sessions (rd_runs db)) \<and> list_all run_row_ok (rd_runs db)"

lemma runs_ok_distinct: "runs_ok db \<Longrightarrow> distinct (map rr_runId (rd_runs db))"
  by (simp add: runs_ok_def)

lemma run_ident_maps:
  assumes "map run_ident rs' = map run_ident rs"
  shows "map rr_runId rs' = map rr_runId rs" and "map request_key rs' = map request_key rs"
    and "map rr_tenantId rs' = map rr_tenantId rs"
  using assms by (auto simp: run_ident_def request_key_def list_eq_iff_nth_eq)

subsection \<open>The shared contract of the run updates\<close>

locale run_update = status_update run_ident guard upd rr_status run_edge run_row_ok
  for guard :: "run_row \<Rightarrow> bool" and upd :: "run_row \<Rightarrow> run_row" +
  assumes grows: "guard r \<Longrightarrow> run_le r (upd r)"
begin

lemma le_table: "table_le rs (update_where guard upd rs)"
  unfolding table_le_def
proof
  fix r assume "r \<in> set rs"
  then have "(if guard r then upd r else r) \<in> set (update_where guard upd rs)" by (auto simp: set_update_where)
  moreover have "run_le r (if guard r then upd r else r)" by (cases "guard r") (simp_all add: grows)
  ultimately show "\<exists>r' \<in> set (update_where guard upd rs). run_le r r'" by blast
qed

lemma active_back: "active (if guard r then upd r else r) \<Longrightarrow> active r"
  using grows [of r] by (cases "guard r") (auto simp: run_le_def)

lemma tenant_if: "rr_tenantId (if guard r then upd r else r) = rr_tenantId r"
  using key_upd [of r] by (simp add: run_ident_def)

lemma active_count_le: "active_count (update_where guard upd rs) \<le> active_count rs"
  unfolding active_count_def update_where_def by (rule filter_length_mono) (rule active_back)

lemma active_tenant_count_le: "active_tenant_count t (update_where guard upd rs) \<le> active_tenant_count t rs"
  unfolding active_tenant_count_def update_where_def
  by (rule filter_length_mono) (simp only: tenant_if, blast intro: active_back)

lemma runs_ok_update:
  assumes "runs_ok db" and "distinct (sessions (update_where guard upd (rd_runs db)))"
  shows "runs_ok (db\<lparr>rd_runs := update_where guard upd (rd_runs db)\<rparr>)"
  using assms run_ident_maps [OF keys] table_ok by (simp add: runs_ok_def)

end

text \<open>Most updates leave the session column alone.\<close>

locale plain_run_update = run_update +
  assumes session_upd: "guard r \<Longrightarrow> rr_sessionId (upd r) = rr_sessionId r"
begin

lemma sessions_same: "sessions (update_where guard upd rs) = sessions rs"
proof -
  have "rr_sessionId (if guard r then upd r else r) = rr_sessionId r" for r
    using session_upd by (cases "guard r") simp_all
  then have "map rr_sessionId (update_where guard upd rs) = map rr_sessionId rs"
    by (simp add: update_where_def)
  then show ?thesis by (simp add: sessions_def)
qed

lemma plain_ok: "runs_ok db \<Longrightarrow> runs_ok (db\<lparr>rd_runs := update_where guard upd (rd_runs db)\<rparr>)"
  by (rule runs_ok_update) (simp_all add: sessions_same runs_ok_def)

end

lemmas run_write_defs = touch_def attach_write_def bind_write_def cancel_request_write_def cancelled_write_def
  failed_write_def projection_write_def

lemmas run_guard_defs = attachable_def bindable_def cancel_requestable_def cancellable_run_def

lemmas run_contract_defs = run_le_def run_ident_def run_row_ok_def active_def

lemma edge_refl [simp]: "run_edge s s"
  by (cases s) simp_all

text \<open>The guard of a projection, with what the transaction has read of the row.\<close>

definition projectable :: "string \<Rightarrow> run_projection \<Rightarrow> run_projection \<Rightarrow> run_row \<Rightarrow> bool" where
  "projectable k p e r \<longleftrightarrow> rr_runId r = k \<and> e = effective_projection r p \<and> rr_eventCount r \<le> pj_eventCount p"

interpretation attach: run_update "attachable k" "attach_write sid now" for k sid now
  by unfold_locales (auto simp: run_write_defs run_guard_defs run_contract_defs)

interpretation bind: run_update "bindable k sid" "bind_write sid now" for k sid now
  by unfold_locales (auto simp: run_write_defs run_guard_defs run_contract_defs)

interpretation request_cancel: plain_run_update "cancel_requestable k" "cancel_request_write now" for k now
  by unfold_locales (auto simp: run_write_defs run_guard_defs run_contract_defs)

lemma edge_cancelled: "run_edge s RCancelled"
  by (cases s) simp_all

interpretation cancelled: plain_run_update "cancellable_run k" "cancelled_write now" for k now
  by unfold_locales (auto simp: run_write_defs run_guard_defs run_contract_defs edge_cancelled)

interpretation submission_failed: plain_run_update "attachable k" "failed_write RFailed code m now" for k code m now
  by unfold_locales (auto simp: run_write_defs run_guard_defs run_contract_defs)

interpretation submission_ambiguous: plain_run_update "attachable k" "failed_write RSubmissionAmbiguous code m now"
  for k code m now
  by unfold_locales (auto simp: run_write_defs run_guard_defs run_contract_defs)

lemma projected_terminal: "is_terminal (rr_status r) \<Longrightarrow> projected_status r p = rr_status r"
  by (simp add: projected_status_def)

lemma effective_fields [simp]:
  "pj_status (effective_projection r p) = projected_status r p" "pj_eventCount (effective_projection r p) = pj_eventCount p"
  "pj_usage (effective_projection r p) = pj_usage p"
  "projected_status r p = RCancelled \<Longrightarrow> pj_result (effective_projection r p) = None"
  "projected_status r p = RCancelled \<Longrightarrow> pj_failure (effective_projection r p) = None"
  by (simp_all add: effective_projection_def Let_def)

lemma inactive_terminal: "\<not> active r \<longleftrightarrow> is_terminal (rr_status r)"
  by (cases "rr_status r") (auto simp: active_def)

lemma edge_projected: "run_edge (rr_status r) (projected_status r p)"
  by (cases "rr_status r") (simp_all add: projected_status_def)

interpretation project: plain_run_update "projectable k p e" "projection_write e now" for k p e now
proof unfold_locales
  fix r
  show "run_ident (projection_write e now r) = run_ident r" by (simp add: projection_write_def touch_def run_ident_def)
  show "projectable k p e r \<Longrightarrow> rr_sessionId (projection_write e now r) = rr_sessionId r"
    by (simp add: projection_write_def touch_def)
  assume g: "projectable k p e r"
  then show "run_edge (rr_status r) (rr_status (projection_write e now r))"
    by (simp add: projectable_def projection_write_def edge_projected)
  show "run_row_ok r \<Longrightarrow> run_row_ok (projection_write e now r)"
    using g by (auto simp: run_row_ok_def projection_write_def touch_def projectable_def)
  have "\<not> active r \<Longrightarrow> \<not> active (projection_write e now r)"
    using g projected_terminal [of r p] by (simp add: inactive_terminal projectable_def projection_write_def)
  moreover have "rr_status r = RCancelled \<Longrightarrow> rr_status (projection_write e now r) = RCancelled"
    using g projected_terminal [of r p] by (simp add: projectable_def projection_write_def)
  ultimately show "run_le r (projection_write e now r)"
    by (simp add: run_le_def projection_write_def touch_def run_ident_def)
qed

subsection \<open>Commands and runs\<close>

datatype run_cmd =
    RReserve string int reserve_input
  | RAttach string string int
  | RBind string string int
  | RCancelRequest string int
  | RMarkCancelled string int
  | RSubmissionFailed string string int
  | RRunAmbiguous string string int
  | RProject string run_projection int
  | RReserveResponse string int reserve_response
  | RSettleResponse string input_status "string option" int

fun exec_run :: "run_config \<Rightarrow> run_cmd \<Rightarrow> run_db \<Rightarrow> run_db" where
  "exec_run cfg (RReserve uuid now i) db = snd (reserve cfg uuid now i db)"
| "exec_run cfg (RAttach k sid now) db = snd (attachSession k sid now db)"
| "exec_run cfg (RBind k sid now) db = snd (bindSubmissionSession k sid now db)"
| "exec_run cfg (RCancelRequest k now) db = snd (markCancellationRequested k now db)"
| "exec_run cfg (RMarkCancelled k now) db = snd (markCancelled k now db)"
| "exec_run cfg (RSubmissionFailed k m now) db = snd (markSubmissionFailed k m now db)"
| "exec_run cfg (RRunAmbiguous k m now) db = snd (markRunAmbiguous k m now db)"
| "exec_run cfg (RProject k p now) db = snd (updateProjection k p now db)"
| "exec_run cfg (RReserveResponse uuid now i) db = snd (reserveResponse uuid now i db)"
| "exec_run cfg (RSettleResponse k st e now) db = snd (transitionResponse k st e now db)"

definition run_all :: "run_config \<Rightarrow> run_cmd list \<Rightarrow> run_db \<Rightarrow> run_db" where
  "run_all cfg cs db = fold (exec_run cfg) cs db"

definition empty_runs :: run_db where
  "empty_runs = \<lparr>rd_runs = [], rd_inputs = []\<rparr>"

lemma run_all_simps [simp]:
  "run_all cfg [] db = db" "run_all cfg (c # cs) db = run_all cfg cs (exec_run cfg c db)"
  "run_all cfg (as @ bs) db = run_all cfg bs (run_all cfg as db)"
  by (simp_all add: run_all_def)

subsection \<open>What one command does to the table\<close>

definition improves :: "run_db \<Rightarrow> run_db \<Rightarrow> bool" where
  "improves db db' \<longleftrightarrow> runs_ok db' \<and> table_le (rd_runs db) (rd_runs db') \<and>
     active_count (rd_runs db') \<le> active_count (rd_runs db) \<and>
     (\<forall>t. active_tenant_count t (rd_runs db') \<le> active_tenant_count t (rd_runs db))"

text \<open>\<open>steps m\<close>: from a good table the action only improves it.\<close>

definition steps :: "(run_db, 'a) act \<Rightarrow> bool" where
  "steps m \<longleftrightarrow> (\<forall>db. runs_ok db \<longrightarrow> improves db (snd (m db)))"

lemma improves_refl: "runs_ok db \<Longrightarrow> improves db db"
  by (simp add: improves_def)

lemma improves_trans: "improves a b \<Longrightarrow> improves b c \<Longrightarrow> improves a c"
  unfolding improves_def by (blast intro: table_le_trans order_trans)

lemma steps_pure: "(\<And>db. snd (m db) = db) \<Longrightarrow> steps m"
  by (simp add: steps_def improves_refl)

lemma steps_lift [simp]: "steps (lift_res r)" and steps_ret [simp]: "steps (ret x)" and steps_throw [simp]: "steps (throw e)"
  by (simp_all add: steps_pure lift_res_def ret_def throw_def)

lemma steps_select [simp]: "steps (select_run k)"
  by (simp add: steps_pure select_run_def)

lemma steps_bind:
  assumes "steps m" and "\<And>x. steps (f x)"
  shows "steps (bind_act m f)"
  unfolding steps_def
proof (intro allI impI)
  fix db assume ok: "runs_ok db"
  obtain r db1 where m: "m db = (r, db1)" by fastforce
  with ok assms(1) have 1: "improves db db1" by (auto simp: steps_def dest: spec [of _ db])
  show "improves db (snd (bind_act m f db))"
  proof (cases r)
    case (Inl e)
    with m 1 show ?thesis by (simp add: bind_act_def)
  next
    case (Inr x)
    from 1 assms(2) [of x] have "improves db1 (snd (f x db1))" by (simp add: steps_def improves_def)
    with 1 m Inr show ?thesis by (auto simp: bind_act_def intro: improves_trans)
  qed
qed

lemma steps_transaction: "steps m \<Longrightarrow> steps (transaction m)"
  unfolding steps_def transaction_def by (fastforce split: prod.splits sum.splits intro: improves_refl)

lemma steps_case_option: "(\<And>x. steps (f x)) \<Longrightarrow> steps g \<Longrightarrow> steps (case u of Some x \<Rightarrow> f x | None \<Rightarrow> g)"
  by (cases u) simp_all

context plain_run_update
begin

lemma steps_update: "steps (update_runs guard upd)"
  by (simp add: steps_def update_runs_def improves_def plain_ok le_table active_count_le active_tenant_count_le)

end

text \<open>The two updates that write the session column keep it unique.\<close>

lemma sessions_Cons:
  "sessions (r # rs) = (case rr_sessionId r of None \<Rightarrow> sessions rs | Some s \<Rightarrow> s # sessions rs)"
  by (auto simp: sessions_def split: option.splits)

lemma in_sessions: "x \<in> set (sessions rs) \<longleftrightarrow> (\<exists>r \<in> set rs. rr_sessionId r = Some x)"
  by (induction rs) (auto simp: sessions_Cons sessions_def [of "[]"] split: option.splits)

lemma sessions_update:
  assumes "runs_ok db" and "\<not> session_taken k sid (rd_runs db)" and "\<And>r. P r \<Longrightarrow> rr_runId r = k"
    and "\<And>r. rr_sessionId (f r) = Some sid"
  shows "distinct (sessions (update_where P f (rd_runs db)))"
proof -
  have "distinct (sessions (update_where P f rs))"
    if "distinct (sessions rs)" "distinct (map rr_runId rs)" "\<not> session_taken k sid rs" for rs
    using that
  proof (induction rs)
    case Nil
    show ?case by (simp add: sessions_def update_where_def)
  next
    case (Cons r rs)
    have IH: "distinct (sessions (update_where P f rs))"
      using Cons by (auto simp: sessions_Cons session_taken_def split: option.splits)
    have single: "update_where P f rs = rs" if "rr_runId r = k"
    proof -
      have "x \<in> set rs \<Longrightarrow> \<not> P x" for x
        using Cons.prems(2) that assms(3) [of x] by (auto simp: image_iff)
      then show ?thesis by (auto simp: update_where_def intro!: map_idI)
    qed
    have uw: "update_where P f (r # rs) = (if P r then f r else r) # update_where P f rs"
      by (simp add: update_where_def)
    show ?case
    proof (cases "P r")
      case True
      then have k: "rr_runId r = k" by (rule assms(3))
      then have "sid \<notin> set (sessions rs)"
        using Cons.prems(2,3) by (fastforce simp: in_sessions session_taken_def image_iff)
      with True IH single [OF k] assms(4) [of r] show ?thesis by (simp add: uw sessions_Cons)
    next
      case False
      have "s \<notin> set (sessions (update_where P f rs))" if s: "rr_sessionId r = Some s" for s
      proof
        assume "s \<in> set (sessions (update_where P f rs))"
        then obtain x where x: "x \<in> set rs" "rr_sessionId (if P x then f x else x) = Some s"
          by (auto simp: in_sessions set_update_where)
        show False
        proof (cases "P x")
          case True
          with x assms(4) [of x] have "s = sid" by simp
          with s Cons.prems(3) have "rr_runId r = k" by (auto simp: session_taken_def)
          with x True Cons.prems(2) assms(3) [of x] show False by (auto simp: image_iff)
        next
          case False
          with x s Cons.prems(1) show False by (auto simp: sessions_Cons in_sessions)
        qed
      qed
      with False IH show ?thesis by (simp add: uw sessions_Cons split: option.splits)
    qed
  qed
  with assms(1,2) show ?thesis by (simp add: runs_ok_def)
qed

lemma steps_attach_update: "steps (update_session k sid (attachable k) (attach_write sid now))"
proof -
  have "improves db (db\<lparr>rd_runs := update_where (attachable k) (attach_write sid now) (rd_runs db)\<rparr>)"
    if "runs_ok db" "\<not> session_taken k sid (rd_runs db)" for db
    using that sessions_update [OF that, of "attachable k" "attach_write sid now"]
    by (simp add: improves_def attach.le_table attach.active_count_le attach.active_tenant_count_le
        attach.runs_ok_update attachable_def attach_write_def)
  moreover have "update_where (attachable k) (attach_write sid now) rs = rs" if "\<not> (\<exists>r \<in> set rs. attachable k r)" for rs
    using that by (auto simp: update_where_def intro!: map_idI)
  ultimately show ?thesis
    by (auto simp: steps_def update_session_def update_runs_def improves_refl)
qed

lemma steps_bind_update: "steps (update_session k sid (bindable k sid) (bind_write sid now))"
proof -
  have "improves db (db\<lparr>rd_runs := update_where (bindable k sid) (bind_write sid now) (rd_runs db)\<rparr>)"
    if "runs_ok db" "\<not> session_taken k sid (rd_runs db)" for db
    using that sessions_update [OF that, of "bindable k sid" "bind_write sid now"]
    by (simp add: improves_def bind.le_table bind.active_count_le bind.active_tenant_count_le
        bind.runs_ok_update bindable_def bind_write_def)
  moreover have "update_where (bindable k sid) (bind_write sid now) rs = rs" if "\<not> (\<exists>r \<in> set rs. bindable k sid r)" for rs
    using that by (auto simp: update_where_def intro!: map_idI)
  ultimately show ?thesis
    by (auto simp: steps_def update_session_def update_runs_def improves_refl)
qed

lemma steps_update_or_read: "steps (update_runs P f) \<Longrightarrow> steps (update_or_read k P f)"
  unfolding update_or_read_def
  by (auto intro!: steps_bind split: option.splits)

lemma updateProjection_rows:
  assumes ok: "runs_ok db" and r: "find (\<lambda>r. rr_runId r = k) (rd_runs db) = Some r"
    and cur: "run_record r = Inr cur" and cnt: "rr_eventCount cur \<le> pj_eventCount p"
  shows "update_where (\<lambda>r. rr_runId r = k) f (rd_runs db) =
    update_where (projectable k p (effective_projection cur p)) f (rd_runs db)"
proof -
  have c: "cur = r\<lparr>rr_sessionId := truthy (rr_sessionId r)\<rparr>" using cur by (auto simp: run_record_def split: if_splits)
  have e: "effective_projection cur p = effective_projection r p"
    by (simp add: c effective_projection_def projected_status_def)
  have "update_where (\<lambda>r. rr_runId r = k) f (rd_runs db) = update_where (\<lambda>x. rr_runId x = k \<and>
      (effective_projection cur p = effective_projection x p \<and> rr_eventCount x \<le> pj_eventCount p)) f (rd_runs db)"
    by (rule update_where_key [OF runs_ok_distinct [OF ok]]) (use find_Some_D [OF r] e cnt c in auto)
  moreover have "(\<lambda>x. rr_runId x = k \<and> (effective_projection cur p = effective_projection x p \<and> rr_eventCount x \<le> pj_eventCount p)) =
      projectable k p (effective_projection cur p)" by (auto simp: projectable_def fun_eq_iff)
  ultimately show ?thesis by simp
qed

lemma updateProjection_cases:
  obtains "snd (updateProjection_tx k p now db) = db"
  | r cur where "find (\<lambda>r. rr_runId r = k) (rd_runs db) = Some r" "run_record r = Inr cur"
      "rr_eventCount cur \<le> pj_eventCount p" "\<not> projection_matches cur (effective_projection cur p)"
      "snd (updateProjection_tx k p now db) = snd (update_runs (\<lambda>r. rr_runId r = k) (projection_write (effective_projection cur p) now) db)"
proof (cases "find (\<lambda>r. rr_runId r = k) (rd_runs db)")
  case None
  with that(1) show ?thesis
    by (simp add: updateProjection_tx_def bind_act_def select_run_def lift_res_def run_row_required_def require_row_def)
next
  case (Some r)
  note red = updateProjection_tx_def bind_act_def select_run_def lift_res_def run_row_required_def require_row_def ret_def Let_def
  show ?thesis
  proof (cases "run_record r")
    case (Inl e)
    with that(1) Some show ?thesis by (simp add: red)
  next
    case (Inr cur)
    with that(1) Some have "pj_eventCount p < rr_eventCount cur \<or> projection_matches cur (effective_projection cur p) \<Longrightarrow> ?thesis"
      by (auto simp: red)
    moreover have "\<not> projection_matches cur (effective_projection cur p) \<Longrightarrow> rr_eventCount cur \<le> pj_eventCount p \<Longrightarrow> ?thesis"
      using that(2) [of r cur] Some Inr by (simp add: red update_runs_def returning_def split: sum.splits)
    ultimately show ?thesis by linarith
  qed
qed

lemma steps_updateProjection: "steps (updateProjection k p now)"
  unfolding updateProjection_def
proof (rule steps_transaction, unfold steps_def, intro allI impI)
  fix db assume ok: "runs_ok db"
  show "improves db (snd (updateProjection_tx k p now db))"
  proof (cases rule: updateProjection_cases [of k p now db])
    case 1
    with ok show ?thesis by (simp add: improves_refl)
  next
    case (2 r cur)
    let ?e = "effective_projection cur p"
    have "snd (updateProjection_tx k p now db) = snd (update_runs (projectable k p ?e) (projection_write ?e now) db)"
      using updateProjection_rows [OF ok 2(1-3)] 2(5) by (simp add: update_runs_def)
    then show ?thesis using project.steps_update ok by (simp add: steps_def)
  qed
qed

lemma steps_methods:
  "steps (attachSession k sid now)" "steps (bindSubmissionSession k sid now)" "steps (markCancellationRequested k now)"
  "steps (markCancelled k now)" "steps (markSubmissionFailed k m now)" "steps (markRunAmbiguous k m now)"
  "steps (findOwnedRun t p' k)"
        apply (unfold attachSession_def bindSubmissionSession_def markCancellationRequested_def markCancelled_def
      markSubmissionFailed_def markRunAmbiguous_def)
        apply (rule steps_bind [OF steps_attach_update], auto intro!: steps_bind split: option.splits) [1]
       apply (rule steps_bind [OF steps_bind_update], auto intro!: steps_bind split: option.splits) [1]
      apply (rule steps_update_or_read [OF request_cancel.steps_update])
     apply (rule steps_update_or_read [OF cancelled.steps_update])
    apply (rule steps_bind [OF submission_failed.steps_update], rule steps_bind, simp_all) [1]
   apply (rule steps_update_or_read [OF submission_ambiguous.steps_update])
  apply (simp add: steps_pure findOwnedRun_def)
  done

lemma steps_responses: "steps (reserveResponse uuid now i)" "steps (transitionResponse k st e now)"
proof -
  have same: "runs_ok db \<Longrightarrow> rd_runs db' = rd_runs db \<Longrightarrow> improves db db'" for db db'
    by (simp add: improves_def runs_ok_def)
  show "steps (transitionResponse k st e now)"
    by (simp add: steps_def transitionResponse_def Let_def same)
  have "rd_runs (snd (reserveResponse_tx uuid now i db)) = rd_runs db" for db
    by (auto simp: reserveResponse_tx_def insert_response_def Let_def split: option.splits list.splits)
  then have "steps (reserveResponse_tx uuid now i)" by (simp add: steps_def same)
  then show "steps (reserveResponse uuid now i)" unfolding reserveResponse_def by (rule steps_transaction)
qed

subsection \<open>Whole runs\<close>

lemma reserve_cases:
  obtains "snd (reserve cfg uuid now i db) = db" "\<forall>x. fst (reserve cfg uuid now i db) \<noteq> Inr (Reserved x)"
  | "find (same_request i) (rd_runs db) = None"
      "\<forall>r \<in> set (rd_runs db). rr_runId r \<noteq> ''arun_'' @ uuid"
      "\<And>m. cf_maxActiveRuns cfg = Some m \<Longrightarrow> 0 < m \<Longrightarrow> active_count (rd_runs db) < m"
      "\<And>m. cf_maxActiveRunsPerTenant cfg = Some m \<Longrightarrow> 0 < m \<Longrightarrow> active_tenant_count (rs_tenantId i) (rd_runs db) < m"
      "reserve cfg uuid now i db =
         (Inr (Reserved (new_run uuid now i)), db\<lparr>rd_runs := rd_runs db @ [new_run uuid now i]\<rparr>)"
proof (cases "find (same_request i) (rd_runs db)")
  case (Some r)
  then have "reserve_tx cfg uuid now i db = (replay_or_conflict i r, db)" by (simp add: reserve_tx_def)
  with that(1) show ?thesis
    by (cases "run_record r") (auto simp: reserve_def transaction_def replay_or_conflict_def)
next
  case None
  have n: "run_record (new_run uuid now i) = Inr (new_run uuid now i)"
    by (simp add: run_record_def new_run_def MAX_SAFE_INTEGER_def truthy_def)
  let ?full = "\<exists>m. (cf_maxActiveRuns cfg = Some m \<and> 0 < m \<and> m \<le> active_count (rd_runs db)) \<or>
    (cf_maxActiveRunsPerTenant cfg = Some m \<and> 0 < m \<and> m \<le> active_tenant_count (rs_tenantId i) (rd_runs db))"
  show ?thesis
  proof (cases "?full \<or> (\<exists>r \<in> set (rd_runs db). rr_runId r = ''arun_'' @ uuid)")
    case True
    then have "snd (reserve cfg uuid now i db) = db \<and> (\<forall>x. fst (reserve cfg uuid now i db) \<noteq> Inr (Reserved x))"
      using None by (auto simp: reserve_def transaction_def reserve_tx_def Let_def insert_run_def new_run_def split: option.splits)
    with that(1) show ?thesis by blast
  next
    case False
    then have "reserve cfg uuid now i db =
         (Inr (Reserved (new_run uuid now i)), db\<lparr>rd_runs := rd_runs db @ [new_run uuid now i]\<rparr>)"
      using None n by (auto simp: reserve_def transaction_def reserve_tx_def Let_def insert_run_def new_run_def [of uuid now i] not_le
          split: option.splits)
    with that(2) None False show ?thesis by (auto simp: not_le)
  qed
qed

lemma exec_run_improves:
  assumes "runs_ok db" and "\<And>uuid now i. c \<noteq> RReserve uuid now i"
  shows "improves db (exec_run cfg c db)"
proof (cases c)
  case (RReserve uuid now i)
  with assms(2) show ?thesis by blast
qed (use assms(1) steps_methods steps_responses steps_updateProjection in \<open>simp_all add: steps_def\<close>)

lemma run_ok_append:
  assumes "runs_ok db" and "find (same_request i) (rd_runs db) = None" and "\<forall>r \<in> set (rd_runs db). rr_runId r \<noteq> ''arun_'' @ uuid"
  shows "runs_ok (db\<lparr>rd_runs := rd_runs db @ [new_run uuid now i]\<rparr>)"
proof -
  have "request_key (new_run uuid now i) \<notin> request_key ` set (rd_runs db)"
    using assms(2) by (auto simp: find_None_iff request_key_def new_run_def same_request_def)
  moreover have "sessions (rd_runs db @ [new_run uuid now i]) = sessions (rd_runs db)"
    by (simp add: sessions_def new_run_def)
  ultimately show ?thesis
    using assms(1,3) by (auto simp: runs_ok_def new_run_def run_row_ok_def)
qed

lemma exec_run_ok: "runs_ok db \<Longrightarrow> runs_ok (exec_run cfg c db) \<and> table_le (rd_runs db) (rd_runs (exec_run cfg c db))"
proof (cases "\<exists>uuid now i. c = RReserve uuid now i")
  case False
  moreover assume "runs_ok db"
  ultimately show ?thesis using exec_run_improves [of db c cfg] by (simp add: improves_def)
next
  case True
  then obtain uuid now i where c: "c = RReserve uuid now i" by blast
  assume ok: "runs_ok db"
  show ?thesis unfolding c exec_run.simps
  proof (cases rule: reserve_cases [of cfg uuid now i db])
    case 1
    with ok show "runs_ok (snd (reserve cfg uuid now i db)) \<and> table_le (rd_runs db) (rd_runs (snd (reserve cfg uuid now i db)))"
      by simp
  next
    case 2
    with run_ok_append [OF ok 2(1,2)]
    show "runs_ok (snd (reserve cfg uuid now i db)) \<and> table_le (rd_runs db) (rd_runs (snd (reserve cfg uuid now i db)))"
      by (auto simp: table_le_def intro: run_le_refl)
  qed
qed

lemma run_all_ok: "runs_ok db \<Longrightarrow> runs_ok (run_all cfg cs db) \<and> table_le (rd_runs db) (rd_runs (run_all cfg cs db))"
proof (induction cs arbitrary: db)
  case (Cons c cs)
  from exec_run_ok [OF Cons.prems, of cfg c] Cons.IH [of "exec_run cfg c db"] show ?case
    by (auto intro: table_le_trans)
qed simp

lemma empty_runs_ok: "runs_ok empty_runs"
  by (simp add: runs_ok_def empty_runs_def sessions_def)

text \<open>A row property that every write keeps stays true of the whole table.\<close>

lemma exec_run_stable:
  assumes ok: "runs_ok db" and Q: "list_all Q (rd_runs db)"
    and attach: "\<And>k sid now r. c = RAttach k sid now \<Longrightarrow> attachable k r \<Longrightarrow> Q r \<Longrightarrow> Q (attach_write sid now r)"
    and bind: "\<And>k sid now r. c = RBind k sid now \<Longrightarrow> bindable k sid r \<Longrightarrow> Q r \<Longrightarrow> Q (bind_write sid now r)"
    and request: "\<And>k now r. c = RCancelRequest k now \<Longrightarrow> cancel_requestable k r \<Longrightarrow> Q r \<Longrightarrow> Q (cancel_request_write now r)"
    and cancel: "\<And>k now r. c = RMarkCancelled k now \<Longrightarrow> cancellable_run k r \<Longrightarrow> Q r \<Longrightarrow> Q (cancelled_write now r)"
    and fail: "\<And>k code m now r. c = RSubmissionFailed k m now \<Longrightarrow> attachable k r \<Longrightarrow> Q r \<Longrightarrow> Q (failed_write RFailed code m now r)"
    and ambiguous: "\<And>k code m now r. c = RRunAmbiguous k m now \<Longrightarrow> attachable k r \<Longrightarrow> Q r \<Longrightarrow>
      Q (failed_write RSubmissionAmbiguous code m now r)"
    and project: "\<And>k p now r. c = RProject k p now \<Longrightarrow> projectable k p (effective_projection r p) r \<Longrightarrow> Q r \<Longrightarrow>
      Q (projection_write (effective_projection r p) now r)"
    and new: "\<And>uuid now i. \<forall>r \<in> set (rd_runs db). rr_runId r \<noteq> ''arun_'' @ uuid \<Longrightarrow> Q (new_run uuid now i)"
  shows "list_all Q (rd_runs (exec_run cfg c db))"
proof -
  let ?I = "\<lambda>db. list_all Q (rd_runs db)"
  have upd: "keeps ?I (update_runs P f)" if "\<And>r. P r \<Longrightarrow> Q r \<Longrightarrow> Q (f r)" for P f
    using that by (simp add: keeps_def update_runs_def list_all_update_where)
  have ses: "keeps ?I (update_session k sid P f)" if "\<And>r. P r \<Longrightarrow> Q r \<Longrightarrow> Q (f r)" for k sid P f
    using that by (simp add: keeps_def update_session_def update_runs_def list_all_update_where)
  have sel: "keeps ?I (select_run k)" for k by (simp add: keeps_def select_run_def)
  have oread: "keeps ?I (update_or_read k P f)" if "\<And>r. P r \<Longrightarrow> Q r \<Longrightarrow> Q (f r)" for k P f
    unfolding update_or_read_def by (auto intro!: keeps_bind upd that sel split: option.splits)
  have k: "keeps ?I m \<Longrightarrow> list_all Q (rd_runs (snd (m db)))" for m :: "(run_db, run_row) act"
    using Q by (simp add: keeps_def)
  show ?thesis
  proof (cases c)
    case (RReserve uuid now i)
    show ?thesis unfolding RReserve exec_run.simps
      by (cases rule: reserve_cases [of cfg uuid now i db]) (use Q new in simp_all)
  next
    case (RProject k p now)
    have "?I (snd (updateProjection_tx k p now db))"
    proof (cases rule: updateProjection_cases [of k p now db])
      case 1
      with Q show ?thesis by simp
    next
      case (2 r cur)
      have c: "cur = r\<lparr>rr_sessionId := truthy (rr_sessionId r)\<rparr>" using 2(2) by (auto simp: run_record_def split: if_splits)
      have e: "effective_projection cur p = effective_projection r p"
        by (simp add: c effective_projection_def projected_status_def)
      have "Q (projection_write (effective_projection cur p) now x)" if "projectable k p (effective_projection cur p) x" "Q x" for x
        using project [of k p now x] that RProject by (simp add: projectable_def)
      then show ?thesis
        using 2(5) updateProjection_rows [OF ok 2(1-3)] Q by (simp add: update_runs_def list_all_update_where)
    qed
    with Q show ?thesis by (auto simp: RProject updateProjection_def transaction_def split: prod.splits sum.splits)
  next
    case (RReserveResponse uuid now i)
    with Q show ?thesis
      by (auto simp: reserveResponse_def transaction_def reserveResponse_tx_def insert_response_def Let_def
          split: option.splits list.splits)
  next
    case (RMarkCancelled j now)
    show ?thesis unfolding RMarkCancelled exec_run.simps markCancelled_def
      by (rule k, rule oread, rule cancel [OF RMarkCancelled])
  next
    case (RAttach j sid now)
    show ?thesis unfolding RAttach exec_run.simps attachSession_def
      by (rule k) (auto intro!: keeps_bind ses sel attach [OF RAttach] split: option.splits)
  next
    case (RBind j sid now)
    show ?thesis unfolding RBind exec_run.simps bindSubmissionSession_def
      by (rule k) (auto intro!: keeps_bind ses sel bind [OF RBind] split: option.splits)
  next
    case (RCancelRequest j now)
    show ?thesis unfolding RCancelRequest exec_run.simps markCancellationRequested_def
      by (rule k, rule oread, rule request [OF RCancelRequest])
  next
    case (RSubmissionFailed j m now)
    show ?thesis unfolding RSubmissionFailed exec_run.simps markSubmissionFailed_def
      by (rule k) (auto intro!: keeps_bind upd fail [OF RSubmissionFailed])
  next
    case (RRunAmbiguous j m now)
    show ?thesis unfolding RRunAmbiguous exec_run.simps markRunAmbiguous_def
      by (rule k, rule oread, rule ambiguous [OF RRunAmbiguous])
  qed (use Q in \<open>simp_all add: transitionResponse_def Let_def\<close>)
qed

end
