(* ===== verification/Run_Theorems.thy ===== *)
theory Run_Theorems
  imports Run_Invariant
begin

section \<open>The properties of the run store\<close>

text \<open>A concrete request and rows, for the witnesses.\<close>

definition demo_request :: "string \<Rightarrow> reserve_input" where
  "demo_request key = \<lparr>rs_correlationId = ''c'', rs_idempotencyKey = key, rs_metadata = JObj [], rs_parent = None,
     rs_policy = JObj [], rs_principalId = ''p'', rs_profile = (''general-purpose'', ''0.1.0''),
     rs_requestFingerprint = ''f'', rs_tenantId = ''t''\<rparr>"

definition demo_config :: run_config where
  "demo_config = \<lparr>cf_maxActiveRuns = Some 1, cf_maxActiveRunsPerTenant = None\<rparr>"

definition demo_run_row :: run_row where
  "demo_run_row = new_run ''u'' 10 (demo_request ''k'')"

definition demo_runs :: "run_row list \<Rightarrow> run_db" where
  "demo_runs rs = \<lparr>rd_runs = rs, rd_inputs = []\<rparr>"

lemmas demo_run_defs = demo_request_def demo_config_def demo_run_row_def demo_runs_def new_run_def

lemma demo_reserve:
  "reserve demo_config ''u'' 10 (demo_request ''k'') empty_runs = (Inr (Reserved demo_run_row), demo_runs [demo_run_row])"
  by (cases rule: reserve_cases [of demo_config "''u''" 10 "demo_request ''k''" empty_runs])
    (simp_all add: reserve_def transaction_def reserve_tx_def empty_runs_def demo_config_def insert_run_def Let_def
      demo_runs_def demo_run_row_def active_count_def active_tenant_count_def run_record_def new_run_def MAX_SAFE_INTEGER_def truthy_def)

subsection \<open>Admission\<close>

lemma capacity_step:
  assumes "runs_ok db"
  shows "(cf_maxActiveRuns cfg = Some m \<longrightarrow> 0 < m \<longrightarrow> active_count (rd_runs db) \<le> m \<longrightarrow>
      active_count (rd_runs (exec_run cfg c db)) \<le> m) \<and>
    (cf_maxActiveRunsPerTenant cfg = Some n \<longrightarrow> 0 < n \<longrightarrow> (\<forall>t. active_tenant_count t (rd_runs db) \<le> n) \<longrightarrow>
      (\<forall>t. active_tenant_count t (rd_runs (exec_run cfg c db)) \<le> n))"
proof (cases "\<exists>uuid now i. c = RReserve uuid now i")
  case False
  then have "improves db (exec_run cfg c db)" using exec_run_improves [OF assms] by blast
  then show ?thesis unfolding improves_def by (meson order_trans)
next
  case True
  then obtain uuid now i where c: "c = RReserve uuid now i" by blast
  show ?thesis
  proof (cases rule: reserve_cases [of cfg uuid now i db])
    case 1
    then show ?thesis by (simp add: c)
  next
    case 2
    have a: "active_count (rd_runs db @ [new_run uuid now i]) = Suc (active_count (rd_runs db))"
      by (simp add: active_count_def active_def new_run_def)
    have t: "active_tenant_count t (rd_runs db @ [new_run uuid now i]) =
        active_tenant_count t (rd_runs db) + (if rs_tenantId i = t then 1 else 0)" for t
      by (simp add: active_tenant_count_def active_def new_run_def)
    show ?thesis
      using 2(3) [of m] 2(4) [of n] 2(5) by (auto simp: c a t)
  qed
qed

text \<open>C9 (admission_limits_hold)
  Whatever methods any number of replicas call, the runs that hold an admission slot never exceed the
  configured limits - neither the host's nor any tenant's.\<close>

theorem admission_limits_hold:
  "(\<forall>m. cf_maxActiveRuns cfg = Some m \<and> 0 < m \<longrightarrow> active_count (rd_runs (run_all cfg cs empty_runs)) \<le> m) \<and>
   (\<forall>n t. cf_maxActiveRunsPerTenant cfg = Some n \<and> 0 < n \<longrightarrow>
      active_tenant_count t (rd_runs (run_all cfg cs empty_runs)) \<le> n)"
proof -
  let ?I = "\<lambda>db. runs_ok db \<and> (\<forall>m. cf_maxActiveRuns cfg = Some m \<and> 0 < m \<longrightarrow> active_count (rd_runs db) \<le> m) \<and>
    (\<forall>n. cf_maxActiveRunsPerTenant cfg = Some n \<and> 0 < n \<longrightarrow> (\<forall>t. active_tenant_count t (rd_runs db) \<le> n))"
  have step: "?I db \<Longrightarrow> ?I (exec_run cfg c db)" for db c
    using capacity_step [of db cfg _ c] exec_run_ok [of db cfg c] by blast
  have "?I db \<Longrightarrow> ?I (run_all cfg cs db)" for db
  proof (induction cs arbitrary: db)
    case (Cons c cs)
    from Cons.IH [OF step [OF Cons.prems, of c]] show ?case by simp
  qed simp
  moreover have "?I empty_runs"
    using empty_runs_ok by (simp add: empty_runs_def active_count_def active_tenant_count_def)
  ultimately show ?thesis by blast
qed

theorem admission_limits_hold_witness:
  "active_count (rd_runs (run_all demo_config [RReserve ''u'' 10 (demo_request ''k''), RReserve ''v'' 11 (demo_request ''l'')]
     empty_runs)) \<le> 1"
  using admission_limits_hold [of demo_config "[RReserve ''u'' 10 (demo_request ''k''), RReserve ''v'' 11 (demo_request ''l'')]"]
  by (simp del: run_all_simps add: demo_config_def)

text \<open>Remark (reservation_is_idempotent)
  One request reserves one run: after a reservation and any further methods, the same request never
  reserves again and leaves the table as it is; it is answered with the run it reserved (as long as the
  revision is a safe integer), even at capacity.\<close>

theorem reservation_is_idempotent:
  assumes "runs_ok db" and "reserve cfg uuid now i db = (Inr (Reserved x), db1)"
  shows "snd (reserve cfg' uuid' now' i (run_all cfg cs db1)) = run_all cfg cs db1 \<and>
    (\<exists>r \<in> set (rd_runs (run_all cfg cs db1)). rr_runId r = rr_runId x \<and>
       (rr_revision r \<le> MAX_SAFE_INTEGER \<longrightarrow>
          (\<exists>y. fst (reserve cfg' uuid' now' i (run_all cfg cs db1)) = Inr (Replayed y) \<and> rr_runId y = rr_runId x)))"
proof (cases rule: reserve_cases [of cfg uuid now i db])
  case 1
  with assms(2) show ?thesis by simp
next
  case 2
  with assms(2) have x: "x = new_run uuid now i" and db1: "db1 = db\<lparr>rd_runs := rd_runs db @ [new_run uuid now i]\<rparr>" by auto
  have ok1: "runs_ok db1" unfolding db1 by (rule run_ok_append [OF assms(1) 2(1,2)])
  let ?db = "run_all cfg cs db1"
  from run_all_ok [OF ok1, of cfg cs] obtain r where ok: "runs_ok ?db" and r: "r \<in> set (rd_runs ?db)" "run_le x r"
    by (auto simp: table_le_def x db1)
  have same: "same_request i r" and fp: "rr_requestFingerprint r = rs_requestFingerprint i" "rr_runId r = rr_runId x" "1 \<le> rr_revision r"
    using r(2) by (auto simp: run_le_def run_ident_def same_request_def x new_run_def)
  obtain r' where f: "find (same_request i) (rd_runs ?db) = Some r'"
    using r(1) same by (cases "find (same_request i) (rd_runs ?db)") (auto simp: find_None_iff)
  have "distinct (map request_key (rd_runs ?db))" using ok by (simp add: runs_ok_def)
  moreover have "request_key r' = request_key r"
    using find_Some_D [OF f] same by (simp add: request_key_def same_request_def)
  ultimately have "r' = r" using distinct_map_inj [of request_key "rd_runs ?db" r' r] find_Some_D [OF f] r(1) by blast
  with f have tx: "reserve_tx cfg' uuid' now' i ?db = (replay_or_conflict i r, ?db)" by (simp add: reserve_tx_def)
  then have "snd (reserve cfg' uuid' now' i ?db) = ?db"
    by (auto simp: reserve_def transaction_def split: sum.splits)
  moreover have "\<exists>y. fst (reserve cfg' uuid' now' i ?db) = Inr (Replayed y) \<and> rr_runId y = rr_runId x"
    if "rr_revision r \<le> MAX_SAFE_INTEGER"
    using tx that fp by (auto simp: reserve_def transaction_def replay_or_conflict_def run_record_def)
  ultimately show ?thesis using r(1) fp by blast
qed

theorem reservation_is_idempotent_witness:
  "snd (reserve demo_config ''w'' 30 (demo_request ''k'') (run_all demo_config [RAttach ''arun_u'' ''s'' 20] (demo_runs [demo_run_row]))) =
     run_all demo_config [RAttach ''arun_u'' ''s'' 20] (demo_runs [demo_run_row])"
  using reservation_is_idempotent [OF empty_runs_ok demo_reserve] by blast

subsection \<open>Lives of a run\<close>

text \<open>C38 (runs_only_advance)
  No run is lost and none goes back: through any methods a row keeps its identity, its revision and its
  event cursor never decrease, a row whose revision is unchanged is unchanged, a run that has released
  its admission slot never takes one again, a cancelled run stays cancelled, and a recorded cancellation
  request stays recorded.\<close>

theorem runs_only_advance:
  assumes "runs_ok db" and "r \<in> set (rd_runs db)"
  shows "\<exists>r' \<in> set (rd_runs (run_all cfg cs db)). run_ident r' = run_ident r \<and>
    rr_revision r \<le> rr_revision r' \<and> rr_eventCount r \<le> rr_eventCount r' \<and> (rr_revision r = rr_revision r' \<longrightarrow> r' = r) \<and>
    (\<not> active r \<longrightarrow> \<not> active r') \<and> (rr_status r = RCancelled \<longrightarrow> rr_status r' = RCancelled) \<and>
    (rr_cancellationRequestedAt r \<noteq> None \<longrightarrow> rr_cancellationRequestedAt r' = rr_cancellationRequestedAt r)"
  using run_all_ok [OF assms(1), of cfg cs] assms(2) unfolding table_le_def run_le_def by blast

lemma demo_runs_ok: "runs_ok (demo_runs [demo_run_row])"
  using exec_run_ok [OF empty_runs_ok, of demo_config "RReserve ''u'' 10 (demo_request ''k'')"] by (simp add: demo_reserve)

theorem runs_only_advance_witness:
  "\<exists>r' \<in> set (rd_runs (run_all demo_config [RMarkCancelled ''arun_u'' 30] (demo_runs [demo_run_row]))). rr_runId r' = ''arun_u''"
  using runs_only_advance [OF demo_runs_ok, of demo_run_row demo_config "[RMarkCancelled ''arun_u'' 30]"]
  by (auto simp: demo_run_defs run_ident_def)

lemma stable_run:
  assumes "runs_ok db" and "list_all Q (rd_runs db)" and "\<exists>r \<in> set (rd_runs db). rr_runId r = k"
    and step: "\<And>c db. c \<in> set cs \<Longrightarrow> runs_ok db \<Longrightarrow> list_all Q (rd_runs db) \<Longrightarrow> \<exists>r \<in> set (rd_runs db). rr_runId r = k \<Longrightarrow>
      list_all Q (rd_runs (exec_run cfg c db))"
  shows "list_all Q (rd_runs (run_all cfg cs db))"
  using assms
proof (induction cs arbitrary: db)
  case (Cons c cs)
  have "\<exists>r \<in> set (rd_runs (exec_run cfg c db)). rr_runId r = k"
    using exec_run_ok [OF Cons.prems(1), of cfg c] Cons.prems(3)
    by (fastforce simp: table_le_def run_le_def run_ident_def)
  then show ?case
    using Cons.IH [of "exec_run cfg c db"] Cons.prems exec_run_ok [OF Cons.prems(1), of cfg c] by simp
qed simp

text \<open>Remark (terminal_runs_stay)
  A run that has completed, failed, been cancelled or been given up as ambiguous keeps that status
  through any methods other than a forced cancellation of that very run.\<close>

theorem terminal_runs_stay:
  assumes "runs_ok db" and "r \<in> set (rd_runs db)" and "is_terminal (rr_status r)"
    and "\<forall>c \<in> set cs. \<forall>now. c \<noteq> RMarkCancelled (rr_runId r) now"
  shows "\<exists>r' \<in> set (rd_runs (run_all cfg cs db)). run_ident r' = run_ident r \<and> rr_status r' = rr_status r"
proof -
  let ?Q = "\<lambda>x. rr_runId x = rr_runId r \<longrightarrow> rr_status x = rr_status r"
  have "?Q x" if "x \<in> set (rd_runs db)" for x
    using distinct_map_inj [OF runs_ok_distinct [OF assms(1)] that assms(2)] by auto
  then have "list_all ?Q (rd_runs db)" by (auto simp: list_all_iff)
  moreover have "list_all ?Q (rd_runs (exec_run cfg c d))"
    if "c \<in> set cs" "runs_ok d" "list_all ?Q (rd_runs d)" "\<exists>x \<in> set (rd_runs d). rr_runId x = rr_runId r" for c d
    using that assms(3,4)
    by (intro exec_run_stable [OF that(2,3)])
      (auto simp: run_write_defs run_guard_defs projected_terminal new_run_def)
  ultimately have "list_all ?Q (rd_runs (run_all cfg cs db))"
    using assms(1,2) by (intro stable_run [where k = "rr_runId r"]) auto
  moreover obtain r' where r': "r' \<in> set (rd_runs (run_all cfg cs db))" "run_ident r' = run_ident r"
    using run_all_ok [OF assms(1), of cfg cs] assms(2) by (auto simp: table_le_def run_le_def)
  moreover from r'(2) have "rr_runId r' = rr_runId r" by (simp add: run_ident_def)
  ultimately show ?thesis by (auto simp: list_all_iff)
qed

definition completed_row :: run_row where
  "completed_row = demo_run_row\<lparr>rr_status := RCompleted, rr_sessionId := Some ''s'', rr_eventCount := 4\<rparr>"

lemma completed_ok: "runs_ok (demo_runs [completed_row])"
  by (simp add: runs_ok_def demo_run_defs completed_row_def sessions_Cons sessions_def [of "[]"] run_row_ok_def)

theorem terminal_runs_stay_witness:
  "\<exists>r' \<in> set (rd_runs (run_all demo_config [RProject ''arun_u'' \<lparr>pj_eventCount = 9, pj_failure = None, pj_result = None,
     pj_status = RRunning, pj_usage = emptyUsage\<rparr> 30] (demo_runs [completed_row]))). rr_status r' = RCompleted"
  using terminal_runs_stay [OF completed_ok, of completed_row "[RProject ''arun_u'' \<lparr>pj_eventCount = 9, pj_failure = None,
     pj_result = None, pj_status = RRunning, pj_usage = emptyUsage\<rparr> 30]" demo_config]
  by (auto simp: demo_runs_def completed_row_def)

text \<open>Remark (cancellation_wins)
  Once a cancellation of a running or waiting run is recorded, no late event can complete or fail it or
  park it elsewhere: through any methods it keeps its status until it is cancelled.\<close>

theorem cancellation_wins:
  assumes "runs_ok db" and "r \<in> set (rd_runs db)" and "rr_cancellationRequestedAt r \<noteq> None"
    and "rr_status r \<in> {RRunning, RWaitingInput, RWaitingAuthorization}"
  shows "\<exists>r' \<in> set (rd_runs (run_all cfg cs db)). run_ident r' = run_ident r \<and> rr_status r' \<in> {rr_status r, RCancelled}"
proof -
  let ?Q = "\<lambda>x. rr_runId x = rr_runId r \<longrightarrow> rr_cancellationRequestedAt x \<noteq> None \<and> rr_status x \<in> {rr_status r, RCancelled}"
  have "?Q x" if "x \<in> set (rd_runs db)" for x
    using distinct_map_inj [OF runs_ok_distinct [OF assms(1)] that assms(2)] assms(3) by auto
  then have "list_all ?Q (rd_runs db)" by (auto simp: list_all_iff)
  moreover have "list_all ?Q (rd_runs (exec_run cfg c d))"
    if "c \<in> set cs" "runs_ok d" "list_all ?Q (rd_runs d)" "\<exists>x \<in> set (rd_runs d). rr_runId x = rr_runId r" for c d
    using that assms(4)
    by (intro exec_run_stable [OF that(2,3)])
      (auto simp: run_write_defs run_guard_defs projected_status_def new_run_def split: if_splits)
  ultimately have "list_all ?Q (rd_runs (run_all cfg cs db))"
    using assms(1,2) by (intro stable_run [where k = "rr_runId r"]) auto
  moreover obtain r' where r': "r' \<in> set (rd_runs (run_all cfg cs db))" "run_ident r' = run_ident r"
    using run_all_ok [OF assms(1), of cfg cs] assms(2) by (auto simp: table_le_def run_le_def)
  moreover from r'(2) have "rr_runId r' = rr_runId r" by (simp add: run_ident_def)
  ultimately show ?thesis by (auto simp: list_all_iff)
qed

definition cancelling_row :: run_row where
  "cancelling_row = demo_run_row\<lparr>rr_status := RRunning, rr_sessionId := Some ''s'', rr_cancellationRequestedAt := Some 20\<rparr>"

theorem cancellation_wins_witness:
  "\<exists>r' \<in> set (rd_runs (run_all demo_config [RProject ''arun_u'' \<lparr>pj_eventCount = 9, pj_failure = None, pj_result = None,
     pj_status = RCompleted, pj_usage = emptyUsage\<rparr> 30] (demo_runs [cancelling_row]))). rr_status r' \<in> {RRunning, RCancelled}"
proof -
  have "runs_ok (demo_runs [cancelling_row])"
    by (simp add: runs_ok_def demo_run_defs cancelling_row_def sessions_Cons sessions_def [of "[]"] run_row_ok_def)
  from cancellation_wins [OF this, of cancelling_row] show ?thesis
    by (fastforce simp: demo_runs_def cancelling_row_def)
qed

subsection \<open>Input responses\<close>

definition response_key :: "run_input_row \<Rightarrow> string \<times> string" where
  "response_key r = (ii_runId r, ii_idempotencyKey r)"

text \<open>Two live responses of one run answer different requests.\<close>

definition responses_ok :: "run_input_row list \<Rightarrow> bool" where
  "responses_ok rs \<longleftrightarrow> distinct (map ii_responseId rs) \<and> distinct (map response_key rs) \<and>
     (\<forall>r \<in> set rs. \<forall>s \<in> set rs. r \<noteq> s \<longrightarrow> ii_runId r = ii_runId s \<longrightarrow> ii_status r \<noteq> IFailed \<longrightarrow> ii_status s \<noteq> IFailed \<longrightarrow>
        set (ii_requestIds r) \<inter> set (ii_requestIds s) = {})"

definition response_ident :: "run_input_row \<Rightarrow> string \<times> string \<times> string \<times> string list \<times> string" where
  "response_ident r = (ii_responseId r, ii_runId r, ii_idempotencyKey r, ii_requestIds r, ii_requestFingerprint r)"

text \<open>A response is settled once.\<close>

fun response_edge :: "input_status \<Rightarrow> input_status \<Rightarrow> bool" where
  "response_edge ISubmitting t = True"
| "response_edge s t = (t = s)"

interpretation settle: status_update response_ident "\<lambda>r. ii_responseId r = k" "settle_response st err now"
  ii_status response_edge "\<lambda>_. True" for k st err now
proof unfold_locales
  fix r
  show "response_ident (settle_response st err now r) = response_ident r"
    by (simp add: settle_response_def response_ident_def)
  show "response_edge (ii_status r) (ii_status (settle_response st err now r))"
    by (cases "ii_status r") (simp_all add: settle_response_def)
qed

lemma response_maps:
  assumes "map response_ident rs' = map response_ident rs"
  shows "map ii_responseId rs' = map ii_responseId rs" "map response_key rs' = map response_key rs"
  using assms by (auto simp: response_ident_def response_key_def list_eq_iff_nth_eq)

lemma responses_settle:
  assumes "responses_ok rs"
  shows "responses_ok (update_where (\<lambda>r. ii_responseId r = k) (settle_response st err now) rs)"
proof -
  let ?u = "\<lambda>r. if ii_responseId r = k then settle_response st err now r else r"
  have f: "ii_runId (?u r) = ii_runId r" "ii_requestIds (?u r) = ii_requestIds r"
    "ii_status (?u r) \<noteq> IFailed \<Longrightarrow> ii_status r \<noteq> IFailed" for r
    by (simp_all add: settle_response_def split: if_splits)
  show ?thesis
    unfolding responses_ok_def
  proof (intro conjI ballI impI)
    show "distinct (map ii_responseId (update_where (\<lambda>r. ii_responseId r = k) (settle_response st err now) rs))"
      "distinct (map response_key (update_where (\<lambda>r. ii_responseId r = k) (settle_response st err now) rs))"
      using assms response_maps [OF settle.keys] by (simp_all add: responses_ok_def)
  next
    fix r' s' assume "r' \<in> set (update_where (\<lambda>r. ii_responseId r = k) (settle_response st err now) rs)"
      "s' \<in> set (update_where (\<lambda>r. ii_responseId r = k) (settle_response st err now) rs)"
      and ne: "r' \<noteq> s'" "ii_runId r' = ii_runId s'" "ii_status r' \<noteq> IFailed" "ii_status s' \<noteq> IFailed"
    then obtain r s where r: "r \<in> set rs" "r' = ?u r" and s: "s \<in> set rs" "s' = ?u s"
      unfolding set_update_where by blast
    have "r \<noteq> s" using ne(1) r(2) s(2) by blast
    moreover have "ii_runId r = ii_runId s" using ne(2) unfolding r(2) s(2) f(1) .
    moreover have "ii_status r \<noteq> IFailed" "ii_status s \<noteq> IFailed" using ne(3,4) f(3) unfolding r(2) s(2) by blast+
    ultimately have "set (ii_requestIds r) \<inter> set (ii_requestIds s) = {}"
      using assms r(1) s(1) unfolding responses_ok_def by blast
    then show "set (ii_requestIds r') \<inter> set (ii_requestIds s') = {}" unfolding r(2) s(2) f(2) .
  qed
qed

lemma responses_reserve:
  assumes "responses_ok (rd_inputs db)"
  shows "responses_ok (rd_inputs (snd (reserveResponse uuid now i db)))"
proof -
  have "responses_ok (rd_inputs db @ [new_response uuid now i])"
    if "\<forall>r \<in> set (rd_inputs db). ii_responseId r \<noteq> ''arsp_'' @ uuid"
      "find (same_response (rq_runId i) (rq_idempotencyKey i)) (rd_inputs db) = None"
      "filter (overlaps i) (rd_inputs db) = []"
  proof -
    have new: "response_key (new_response uuid now i) \<notin> response_key ` set (rd_inputs db)"
      using that(2) by (auto simp: find_None_iff response_key_def new_response_def same_response_def)
    have apart: "set (ii_requestIds r) \<inter> set (rq_requestIds i) = {} \<and> set (rq_requestIds i) \<inter> set (ii_requestIds r) = {}"
      if "r \<in> set (rd_inputs db)" "ii_runId r = rq_runId i" "ii_status r \<noteq> IFailed" for r
      using \<open>filter (overlaps i) (rd_inputs db) = []\<close> that by (auto simp: filter_empty_conv overlaps_def)
    let ?n = "new_response uuid now i"
    have n: "ii_responseId ?n = ''arsp_'' @ uuid" "ii_runId ?n = rq_runId i" "ii_requestIds ?n = rq_requestIds i"
      by (simp_all add: new_response_def)
    have d: "distinct (map ii_responseId (rd_inputs db @ [?n]))" "distinct (map response_key (rd_inputs db @ [?n]))"
      using assms new that(1) by (auto simp: responses_ok_def n)
    show ?thesis unfolding responses_ok_def
    proof (intro conjI d ballI impI)
      fix r s assume "r \<in> set (rd_inputs db @ [?n])" "s \<in> set (rd_inputs db @ [?n])"
        and ne: "r \<noteq> s" "ii_runId r = ii_runId s" "ii_status r \<noteq> IFailed" "ii_status s \<noteq> IFailed"
      then consider "r \<in> set (rd_inputs db)" "s \<in> set (rd_inputs db)" | "r = ?n" "s \<in> set (rd_inputs db)" | "s = ?n" "r \<in> set (rd_inputs db)"
        by auto
      then show "set (ii_requestIds r) \<inter> set (ii_requestIds s) = {}"
      proof cases
        case 1
        with assms ne show ?thesis unfolding responses_ok_def by blast
      next
        case 2
        with apart [of s] ne n show ?thesis by simp
      next
        case 3
        with apart [of r] ne n show ?thesis by simp
      qed
    qed
  qed
  then show ?thesis using assms
    by (auto simp: reserveResponse_def transaction_def reserveResponse_tx_def insert_response_def Let_def new_response_def
        split: option.splits list.splits)
qed

lemma runs_keep_inputs:
  assumes "\<And>uuid now i. c \<noteq> RReserveResponse uuid now i" and "\<And>k st e now. c \<noteq> RSettleResponse k st e now"
  shows "rd_inputs (exec_run cfg c db) = rd_inputs db"
proof -
  let ?I = "\<lambda>d. rd_inputs d = rd_inputs db"
  have upd: "keeps ?I (update_runs P f)" and ses: "keeps ?I (update_session k sid P f)" and sel: "keeps ?I (select_run k)"
    for P f k sid by (simp_all add: keeps_def update_runs_def update_session_def select_run_def)
  have oread: "keeps ?I (update_or_read k P f)" for k P f
    unfolding update_or_read_def by (auto intro!: keeps_bind upd sel split: option.splits)
  have k: "keeps ?I (attachSession k sid now)" "keeps ?I (bindSubmissionSession k sid now)"
    "keeps ?I (markCancellationRequested k now)" "keeps ?I (markCancelled k now)" "keeps ?I (markSubmissionFailed k m now)"
    "keeps ?I (markRunAmbiguous k m now)" "keeps ?I (updateProjection k p now)" for k sid now m p
    unfolding attachSession_def bindSubmissionSession_def markCancellationRequested_def markCancelled_def
      markSubmissionFailed_def markRunAmbiguous_def updateProjection_def updateProjection_tx_def Let_def
    by (auto intro!: keeps_transaction keeps_bind ses upd oread sel split: option.splits)
  show ?thesis
  proof (cases c)
    case (RReserve uuid now i)
    show ?thesis unfolding RReserve exec_run.simps
      by (cases rule: reserve_cases [of cfg uuid now i db]) simp_all
  qed (use assms k in \<open>simp_all add: keeps_def\<close>)
qed

lemma responses_exec: "responses_ok (rd_inputs db) \<Longrightarrow> responses_ok (rd_inputs (exec_run cfg c db))"
proof (cases "(\<exists>uuid now i. c = RReserveResponse uuid now i) \<or> (\<exists>k st e now. c = RSettleResponse k st e now)")
  case True
  then show "responses_ok (rd_inputs db) \<Longrightarrow> ?thesis"
    using responses_reserve responses_settle by (auto simp: transitionResponse_def Let_def)
next
  case False
  then have "rd_inputs (exec_run cfg c db) = rd_inputs db" using runs_keep_inputs [of c] by blast
  then show "responses_ok (rd_inputs db) \<Longrightarrow> ?thesis" by simp
qed

text \<open>C10 (no_request_answered_twice)
  However the responses are reserved and settled, two responses of one run that have not failed never
  answer the same input request, and one idempotency key of a run has at most one response.\<close>

theorem no_request_answered_twice:
  assumes "r \<in> set (rd_inputs (run_all cfg cs empty_runs))" and "s \<in> set (rd_inputs (run_all cfg cs empty_runs))"
    and "ii_runId r = ii_runId s" and "r \<noteq> s"
  shows "ii_idempotencyKey r \<noteq> ii_idempotencyKey s \<and>
    (ii_status r \<noteq> IFailed \<and> ii_status s \<noteq> IFailed \<longrightarrow> set (ii_requestIds r) \<inter> set (ii_requestIds s) = {})"
proof -
  have "responses_ok (rd_inputs db) \<Longrightarrow> responses_ok (rd_inputs (run_all cfg cs db))" for db
    by (induction cs arbitrary: db) (simp_all add: responses_exec)
  from this [of empty_runs] have ok: "responses_ok (rd_inputs (run_all cfg cs empty_runs))"
    by (simp add: empty_runs_def responses_ok_def)
  have "response_key r \<noteq> response_key s"
    using ok assms distinct_map_inj [of response_key "rd_inputs (run_all cfg cs empty_runs)" r s] by (auto simp: responses_ok_def)
  with ok assms show ?thesis unfolding responses_ok_def response_key_def by blast
qed

definition demo_response :: "string \<Rightarrow> string \<Rightarrow> reserve_response" where
  "demo_response key req = \<lparr>rq_idempotencyKey = key, rq_inputResponses = JArr [], rq_requestFingerprint = ''f'',
     rq_requestIds = [req], rq_runId = ''arun_u''\<rparr>"

lemma demo_responses:
  "rd_inputs (run_all demo_config [RReserve ''u'' 10 (demo_request ''k''), RReserveResponse ''a'' 11 (demo_response ''x'' ''q''),
     RReserveResponse ''b'' 12 (demo_response ''y'' ''r'')] empty_runs) =
   [new_response ''a'' 11 (demo_response ''x'' ''q''), new_response ''b'' 12 (demo_response ''y'' ''r'')]"
proof -
  have a: "exec_run demo_config (RReserveResponse ''a'' 11 (demo_response ''x'' ''q'')) (demo_runs [demo_run_row]) =
    (demo_runs [demo_run_row])\<lparr>rd_inputs := [new_response ''a'' 11 (demo_response ''x'' ''q'')]\<rparr>"
    by (simp add: reserveResponse_def transaction_def reserveResponse_tx_def insert_response_def Let_def demo_run_defs
        demo_response_def new_response_def)
  have b: "exec_run demo_config (RReserveResponse ''b'' 12 (demo_response ''y'' ''r''))
      ((demo_runs [demo_run_row])\<lparr>rd_inputs := [new_response ''a'' 11 (demo_response ''x'' ''q'')]\<rparr>) =
    (demo_runs [demo_run_row])\<lparr>rd_inputs := [new_response ''a'' 11 (demo_response ''x'' ''q''), new_response ''b'' 12 (demo_response ''y'' ''r'')]\<rparr>"
    by (simp add: reserveResponse_def transaction_def reserveResponse_tx_def insert_response_def Let_def demo_run_defs
        demo_response_def new_response_def same_response_def overlaps_def)
  show ?thesis
    by (simp only: run_all_simps exec_run.simps(1) demo_reserve snd_conv a b) simp
qed

theorem no_request_answered_twice_witness:
  "set (ii_requestIds (new_response ''a'' 11 (demo_response ''x'' ''q''))) \<inter>
   set (ii_requestIds (new_response ''b'' 12 (demo_response ''y'' ''r''))) = {}"
proof -
  let ?a = "new_response ''a'' 11 (demo_response ''x'' ''q'')" and ?b = "new_response ''b'' 12 (demo_response ''y'' ''r'')"
  let ?cs = "[RReserve ''u'' 10 (demo_request ''k''), RReserveResponse ''a'' 11 (demo_response ''x'' ''q''),
     RReserveResponse ''b'' 12 (demo_response ''y'' ''r'')]"
  have "?a \<in> set (rd_inputs (run_all demo_config ?cs empty_runs))" "?b \<in> set (rd_inputs (run_all demo_config ?cs empty_runs))"
    by (simp_all only: demo_responses, simp_all)
  from no_request_answered_twice [OF this] show ?thesis
    by (simp add: new_response_def demo_response_def)
qed

end
