(* ===== verification/Run_Projection.thy ===== *)
theory Run_Projection
  imports Run_Theorems
begin

section \<open>From stream events to a run's state (server/agent-runs/projection.ts)\<close>

text \<open>
  The fold that turns a page of runtime events into the durable projection of a run, and the mapping
  of the events to the public \<^verbatim>\<open>AgentEvent\<close>s.  The fold's local variables are the record
  \<open>fold_state\<close>; a page starts by recomputing three of them from the stored status.
\<close>

record fold_state =
  fs_status :: run_status
  fs_result :: "run_result option"
  fs_failure :: "run_failure option"
  fs_cancelled :: bool
  fs_waitingInput :: bool
  fs_waitingAuthorization :: bool
  fs_usage :: usage

definition field :: "'a :: zero option \<Rightarrow> 'a" where
  "field v = (case v of None \<Rightarrow> 0 | Some x \<Rightarrow> x)"

definition add_usage :: "event_usage \<Rightarrow> usage \<Rightarrow> usage" where
  "add_usage e u = u\<lparr>
     us_cacheReadTokens := us_cacheReadTokens u + field (eu_cacheReadTokens e),
     us_cacheWriteTokens := us_cacheWriteTokens u + field (eu_cacheWriteTokens e),
     us_costUsd := us_costUsd u + field (eu_costUsd e),
     us_inputTokens := us_inputTokens u + field (eu_inputTokens e),
     us_outputTokens := us_outputTokens u + field (eu_outputTokens e)\<rparr>"

definition step_usage :: "stream_event \<Rightarrow> usage \<Rightarrow> usage" where
  "step_usage e u =
     (let v = (case se_usage e of None \<Rightarrow> u | Some eu \<Rightarrow> add_usage eu u) in v\<lparr>us_steps := us_steps v + 1\<rparr>)"

definition text_of :: "string option \<Rightarrow> string" where
  "text_of s = (case s of None \<Rightarrow> [] | Some t \<Rightarrow> t)"

text \<open>One case of the \<^verbatim>\<open>switch\<close>.\<close>

fun project_event :: "stream_event \<Rightarrow> event_type \<Rightarrow> fold_state \<Rightarrow> fold_state" where
  "project_event e TurnStarted s = s\<lparr>fs_waitingInput := False, fs_waitingAuthorization := False,
     fs_status := (if \<not> fs_cancelled s \<and> fs_failure s = None then RRunning else fs_status s)\<rparr>"
| "project_event e MessageReceived s = s\<lparr>fs_waitingInput := False, fs_waitingAuthorization := False,
     fs_status := (if \<not> fs_cancelled s \<and> fs_failure s = None then RRunning else fs_status s)\<rparr>"
| "project_event e InputRequested s = s\<lparr>fs_waitingInput := True, fs_status := RWaitingInput\<rparr>"
| "project_event e AuthorizationRequired s = s\<lparr>fs_waitingAuthorization := True, fs_status := RWaitingAuthorization\<rparr>"
| "project_event e AuthorizationCompleted s = s\<lparr>fs_waitingAuthorization := False, fs_status := RRunning\<rparr>"
| "project_event e ResultCompleted s = s\<lparr>fs_result := Some (JsonResult (se_result e))\<rparr>"
| "project_event e MessageCompleted s =
     (case truthy (se_message e) of
        Some m \<Rightarrow> if se_finishReason e \<noteq> Some ''tool-calls''
                  then s\<lparr>fs_result := (case fs_result s of None \<Rightarrow> Some (TextResult m) | Some r \<Rightarrow> Some r)\<rparr> else s
      | None \<Rightarrow> s)"
| "project_event e StepCompleted s = s\<lparr>fs_usage := step_usage e (fs_usage s)\<rparr>"
| "project_event e TurnCancelled s = s\<lparr>fs_cancelled := True, fs_status := RCancelled\<rparr>"
| "project_event e TurnFailed s = s\<lparr>fs_status := RFailed,
     fs_failure := Some \<lparr>rf_code = text_of (se_code e), rf_message = text_of (se_message e), rf_retryable = False\<rparr>\<rparr>"
| "project_event e SessionFailed s = s\<lparr>fs_status := RFailed,
     fs_failure := Some \<lparr>rf_code = text_of (se_code e), rf_message = text_of (se_message e), rf_retryable = False\<rparr>\<rparr>"
| "project_event e SessionCompleted s =
     (if \<not> fs_cancelled s \<and> fs_failure s = None then s\<lparr>fs_status := RCompleted\<rparr> else s)"
| "project_event e SessionWaiting s = s\<lparr>fs_status :=
     (if fs_cancelled s then RCancelled else if fs_failure s \<noteq> None then RFailed
      else if fs_waitingInput s then RWaitingInput else if fs_waitingAuthorization s then RWaitingAuthorization
      else RCompleted)\<rparr>"
| "project_event e _ s = s"

definition fold_events :: "stream_event list \<Rightarrow> fold_state \<Rightarrow> fold_state" where
  "fold_events es s = fold (\<lambda>e. project_event e (se_type e)) es s"

text \<open>The variables at the start of a page.\<close>

definition start_page :: "run_projection \<Rightarrow> fold_state" where
  "start_page cur =
     (let status = (if pj_status cur = RSubmitting then RRunning else pj_status cur)
      in \<lparr>fs_status = status, fs_result = pj_result cur, fs_failure = pj_failure cur,
          fs_cancelled = (status = RCancelled), fs_waitingInput = (status = RWaitingInput),
          fs_waitingAuthorization = (status = RWaitingAuthorization), fs_usage = pj_usage cur\<rparr>)"

definition projectAgentRunFrom :: "run_projection \<Rightarrow> stream_event list \<Rightarrow> run_projection" where
  "projectAgentRunFrom cur es =
     (let s = fold_events es (start_page cur)
      in \<lparr>pj_eventCount = pj_eventCount cur + length es, pj_failure = fs_failure s, pj_result = fs_result s,
          pj_status = fs_status s, pj_usage = fs_usage s\<rparr>)"

definition projectAgentRun :: "stream_event list \<Rightarrow> run_projection" where
  "projectAgentRun es = projectAgentRunFrom
     \<lparr>pj_eventCount = 0, pj_failure = None, pj_result = None, pj_status = RRunning, pj_usage = emptyUsage\<rparr> es"

text \<open>The projection a stored row stands for.\<close>

definition row_projection :: "run_row \<Rightarrow> run_projection" where
  "row_projection r = \<lparr>pj_eventCount = rr_eventCount r, pj_failure = rr_failure r, pj_result = rr_result r,
     pj_status = rr_status r, pj_usage = rr_usage r\<rparr>"

definition projectAgentRunDelta :: "run_row \<Rightarrow> stream_event list \<Rightarrow> run_projection" where
  "projectAgentRunDelta cur es = projectAgentRunFrom (row_projection cur) es"

subsection \<open>Public events\<close>

datatype agent_event_type =
    RunStarted | RunCompleted | RunFailed | RunCancelled
  | EvMessageReceived | EvMessageDelta | EvMessageCompleted
  | EvReasoningDelta | EvReasoningCompleted
  | EvToolInputDelta | EvToolRequested | EvToolCompleted
  | EvInputRequested | EvAuthorizationRequired | EvAuthorizationCompleted
  | EvResultCompleted | EvUsageRecorded | RuntimeEvent

record agent_event =
  ae_createdAt :: "string option"
  ae_data :: json
  ae_runId :: string
  ae_sequence :: nat
  ae_type :: agent_event_type

fun eventType :: "event_type \<Rightarrow> agent_event_type" where
  "eventType SessionStarted = RunStarted"
| "eventType SessionCompleted = RunCompleted"
| "eventType TurnCompleted = RunCompleted"
| "eventType SessionFailed = RunFailed"
| "eventType TurnFailed = RunFailed"
| "eventType TurnCancelled = RunCancelled"
| "eventType MessageReceived = EvMessageReceived"
| "eventType MessageAppended = EvMessageDelta"
| "eventType MessageCompleted = EvMessageCompleted"
| "eventType ReasoningAppended = EvReasoningDelta"
| "eventType ReasoningCompleted = EvReasoningCompleted"
| "eventType ActionInputPartial = EvToolInputDelta"
| "eventType ActionsRequested = EvToolRequested"
| "eventType ActionResult = EvToolCompleted"
| "eventType InputRequested = EvInputRequested"
| "eventType AuthorizationRequired = EvAuthorizationRequired"
| "eventType AuthorizationCompleted = EvAuthorizationCompleted"
| "eventType ResultCompleted = EvResultCompleted"
| "eventType StepCompleted = EvUsageRecorded"
| "eventType _ = RuntimeEvent"

definition toJsonObject :: "json \<Rightarrow> json" where
  "toJsonObject v = (if is_record v then v else JObj [(''value'', v)])"

definition projectAgentEvents :: "string \<Rightarrow> stream_event list \<Rightarrow> nat \<Rightarrow> agent_event list" where
  "projectAgentEvents runId es startIndex = map2 (\<lambda>e index. \<lparr>
     ae_createdAt = truthy (se_metaAt e),
     ae_data = toJsonObject (case se_data e of None \<Rightarrow> JObj [] | Some d \<Rightarrow> d),
     ae_runId = runId, ae_sequence = startIndex + index + 1, ae_type = eventType (se_type e)\<rparr>) es [0..<length es]"

subsection \<open>Paging\<close>

lemma fold_events_simps [simp]:
  "fold_events [] s = s" "fold_events (e # es) s = fold_events es (project_event e (se_type e) s)"
  "fold_events (xs @ ys) s = fold_events ys (fold_events xs s)"
  by (simp_all add: fold_events_def)

text \<open>What a page boundary forgets can only show in the status.\<close>

definition agree :: "fold_state \<Rightarrow> fold_state \<Rightarrow> bool" where
  "agree s t \<longleftrightarrow> fs_result s = fs_result t \<and> fs_failure s = fs_failure t \<and> fs_usage s = fs_usage t"

lemma agree_step: "agree s t \<Longrightarrow> agree (project_event e ty s) (project_event e ty t)"
  by (cases "(e, ty, s)" rule: project_event.cases) (auto simp: agree_def split: option.splits)

lemma agree_fold: "agree s t \<Longrightarrow> agree (fold_events es s) (fold_events es t)"
  by (induction es arbitrary: s t) (simp_all add: agree_step)

lemma start_page_fields [simp]:
  "fs_status (start_page cur) = (if pj_status cur = RSubmitting then RRunning else pj_status cur)"
  "fs_result (start_page cur) = pj_result cur" "fs_failure (start_page cur) = pj_failure cur"
  "fs_cancelled (start_page cur) = (pj_status cur = RCancelled)"
  "fs_waitingInput (start_page cur) = (pj_status cur = RWaitingInput)"
  "fs_waitingAuthorization (start_page cur) = (pj_status cur = RWaitingAuthorization)"
  "fs_usage (start_page cur) = pj_usage cur"
  by (simp_all add: start_page_def Let_def)

lemma start_of_end: "agree (start_page (projectAgentRunFrom cur es)) (fold_events es (start_page cur))"
  by (simp add: agree_def projectAgentRunFrom_def Let_def)

text \<open>The flags a page boundary recomputes, read off the status.\<close>

definition settled_flags :: "fold_state \<Rightarrow> bool" where
  "settled_flags s \<longleftrightarrow> fs_status s \<noteq> RSubmitting \<and> fs_cancelled s = (fs_status s = RCancelled) \<and>
     fs_waitingInput s = (fs_status s = RWaitingInput) \<and> fs_waitingAuthorization s = (fs_status s = RWaitingAuthorization)"

lemma start_again:
  assumes "settled_flags (fold_events es (start_page cur))"
  shows "start_page (projectAgentRunFrom cur es) = fold_events es (start_page cur)"
  by (rule fold_state.equality)
    (use assms in \<open>simp_all add: projectAgentRunFrom_def Let_def settled_flags_def\<close>)

text \<open>Remark (paging_keeps_totals)
  However a stream is split into pages, the projected event count, usage, result and failure are those
  of the whole stream.\<close>

theorem paging_keeps_totals:
  "pj_eventCount (projectAgentRunFrom (projectAgentRunFrom cur xs) ys) = pj_eventCount (projectAgentRunFrom cur (xs @ ys)) \<and>
   pj_usage (projectAgentRunFrom (projectAgentRunFrom cur xs) ys) = pj_usage (projectAgentRunFrom cur (xs @ ys)) \<and>
   pj_result (projectAgentRunFrom (projectAgentRunFrom cur xs) ys) = pj_result (projectAgentRunFrom cur (xs @ ys)) \<and>
   pj_failure (projectAgentRunFrom (projectAgentRunFrom cur xs) ys) = pj_failure (projectAgentRunFrom cur (xs @ ys))"
  using agree_fold [OF start_of_end, of ys cur xs]
  by (simp add: projectAgentRunFrom_def [of _ ys] projectAgentRunFrom_def [of _ "xs @ ys"] Let_def agree_def)
    (simp add: projectAgentRunFrom_def Let_def)

text \<open>Remark (paging_keeps_projection)
  Where the status at a page boundary tells the three flags the next page starts from, splitting the
  stream there changes nothing of the projection.\<close>

theorem paging_keeps_projection:
  assumes "settled_flags (fold_events xs (start_page cur))"
  shows "projectAgentRunFrom (projectAgentRunFrom cur xs) ys = projectAgentRunFrom cur (xs @ ys)"
  unfolding projectAgentRunFrom_def [of "projectAgentRunFrom cur xs"] start_again [OF assms]
  by (simp add: projectAgentRunFrom_def Let_def)

definition ev :: "event_type \<Rightarrow> stream_event" where
  "ev t = bare_event t"

lemma ev_type [simp]: "se_type (ev t) = t"
  by (simp add: ev_def bare_event_def)

definition fresh_projection :: run_projection where
  "fresh_projection = \<lparr>pj_eventCount = 0, pj_failure = None, pj_result = None, pj_status = RRunning, pj_usage = emptyUsage\<rparr>"

theorem paging_keeps_projection_witness:
  "projectAgentRunFrom (projectAgentRunFrom fresh_projection [ev TurnStarted, ev InputRequested]) [ev SessionWaiting] =
     projectAgentRunFrom fresh_projection [ev TurnStarted, ev InputRequested, ev SessionWaiting]"
  using paging_keeps_projection [of "[ev TurnStarted, ev InputRequested]" fresh_projection "[ev SessionWaiting]"]
  by (simp add: settled_flags_def start_page_def fresh_projection_def Let_def)

text \<open>Remark (page_boundary_loses_input_request)
  Without that the projection depends on the page boundary: a run that asked for input and then for an
  authorization is parked on its input request when the events come in one page, and reported as
  completed - a terminal status - when the page ends after the authorization request.\<close>

theorem page_boundary_loses_input_request:
  "pj_status (projectAgentRunFrom fresh_projection
     ([ev TurnStarted, ev InputRequested, ev AuthorizationRequired] @ [ev AuthorizationCompleted, ev SessionWaiting])) = RWaitingInput \<and>
   pj_status (projectAgentRunFrom (projectAgentRunFrom fresh_projection
     [ev TurnStarted, ev InputRequested, ev AuthorizationRequired]) [ev AuthorizationCompleted, ev SessionWaiting]) = RCompleted"
  by (simp add: projectAgentRunFrom_def start_page_def fresh_projection_def Let_def)

lemma undone_step:
  "fs_failure s \<noteq> None \<or> fs_cancelled s \<Longrightarrow> fs_status s \<noteq> RCompleted \<Longrightarrow>
   (fs_failure (project_event e ty s) \<noteq> None \<or> fs_cancelled (project_event e ty s)) \<and>
   fs_status (project_event e ty s) \<noteq> RCompleted"
  by (cases "(e, ty, s)" rule: project_event.cases) (auto split: option.splits)

text \<open>Remark (failure_never_completes)
  Within one page a run that has failed or been cancelled is not reported as completed by any later
  event.\<close>

theorem failure_never_completes:
  assumes "pj_failure cur \<noteq> None \<or> pj_status cur = RCancelled" and "pj_status cur \<noteq> RCompleted"
  shows "pj_status (projectAgentRunFrom cur es) \<noteq> RCompleted"
proof -
  have "fs_failure s \<noteq> None \<or> fs_cancelled s \<Longrightarrow> fs_status s \<noteq> RCompleted \<Longrightarrow> fs_status (fold_events es s) \<noteq> RCompleted" for s
    by (induction es arbitrary: s) (simp, metis fold_events_simps(2) undone_step)
  from this [of "start_page cur"] show ?thesis using assms by (auto simp: projectAgentRunFrom_def Let_def)
qed

theorem failure_never_completes_witness:
  "pj_status (projectAgentRunFrom (fresh_projection\<lparr>pj_status := RCancelled\<rparr>) [ev SessionCompleted, ev SessionWaiting]) \<noteq> RCompleted"
  by (rule failure_never_completes) (simp_all add: fresh_projection_def)

text \<open>Remark (public_events_are_numbered_absolutely)
  The public events carry their absolute position in the stream: pages read one after the other are
  numbered as the whole stream is.\<close>

theorem public_events_are_numbered_absolutely:
  "projectAgentEvents runId (xs @ ys) n = projectAgentEvents runId xs n @ projectAgentEvents runId ys (n + length xs) \<and>
   map ae_sequence (projectAgentEvents runId xs n) = map (\<lambda>i. n + i + 1) [0..<length xs]"
proof
  show "projectAgentEvents runId (xs @ ys) n = projectAgentEvents runId xs n @ projectAgentEvents runId ys (n + length xs)"
    by (rule nth_equalityI) (auto simp: projectAgentEvents_def nth_append)
  show "map ae_sequence (projectAgentEvents runId xs n) = map (\<lambda>i. n + i + 1) [0..<length xs]"
    by (rule nth_equalityI) (auto simp: projectAgentEvents_def)
qed

end
