(* ===== verification/Run_Service.thy ===== *)
theory Run_Service
  imports Run_Projection
begin

section \<open>The run service (server/agent-runs/service.ts, reconcile.ts)\<close>

text \<open>
  Starting, inspecting, cancelling, answering and reconciling runs, over the interfaces of the run
  store, of the input store and of the runtime, each a record of actions on an arbitrary world.  The
  runtime, the sleep function, the clock and the two fingerprints are parameters.
\<close>

subsection \<open>Interfaces\<close>

record 'w run_store_if =
  si_attachSession :: "string \<Rightarrow> string \<Rightarrow> ('w, run_row) act"
  si_bindSubmissionSession :: "(string \<Rightarrow> string \<Rightarrow> ('w, run_row) act) option"
  si_findOwned :: "string \<Rightarrow> string \<Rightarrow> string \<Rightarrow> ('w, run_row option) act"
  si_markCancelled :: "string \<Rightarrow> ('w, run_row) act"
  si_markCancellationRequested :: "string \<Rightarrow> ('w, run_row) act"
  si_markSubmissionFailed :: "string \<Rightarrow> string \<Rightarrow> ('w, run_row) act"
  si_markSubmissionAmbiguous :: "string \<Rightarrow> string \<Rightarrow> ('w, run_row) act"
  si_listStaleSubmissions :: "(int \<Rightarrow> int \<Rightarrow> ('w, run_row list) act) option"
  si_reserve :: "reserve_input \<Rightarrow> ('w, reserve_result) act"
  si_updateProjection :: "string \<Rightarrow> run_projection \<Rightarrow> ('w, run_row) act"

record 'w input_store_if =
  is_find :: "string \<Rightarrow> string \<Rightarrow> ('w, run_input_row option) act"
  is_markAccepted :: "string \<Rightarrow> ('w, run_input_row) act"
  is_markFailed :: "string \<Rightarrow> string \<Rightarrow> ('w, run_input_row) act"
  is_markSubmissionAmbiguous :: "string \<Rightarrow> string \<Rightarrow> ('w, run_input_row) act"
  is_reserve :: "reserve_response \<Rightarrow> ('w, response_reservation) act"

record start_request =
  sr_correlationId :: string
  sr_idempotencyKey :: string
  sr_metadata :: "json option"
  sr_parent :: "run_parent option"
  sr_policy :: "json option"
  sr_profile :: "string \<times> string"
  sr_message :: string

record input_answer =
  ia_requestId :: string
  ia_optionId :: "string option"
  ia_text :: "string option"

record respond_request =
  rd_idempotencyKey :: string
  rd_inputResponses :: "input_answer list"

datatype cancel_answer = CancelAccepted | NoActiveTurn

record 'w run_runtime =
  rn_cancel :: "string \<Rightarrow> string \<Rightarrow> string \<Rightarrow> ('w, cancel_answer) act"
  rn_readEvents :: "string \<Rightarrow> string \<Rightarrow> string \<Rightarrow> nat \<Rightarrow> nat \<Rightarrow> ('w, stream_event list) act"
  rn_respond :: "string \<Rightarrow> string \<Rightarrow> string \<Rightarrow> input_answer list \<Rightarrow> ('w, string) act"
  rn_reset :: "string \<Rightarrow> string \<Rightarrow> string \<Rightarrow> ('w, unit) act"
  rn_start :: "start_request \<Rightarrow> string \<Rightarrow> ('w, string) act"
  rn_synchronizationPageSize :: "int option"

record run_identity =
  id_principalId :: string
  id_tenantId :: string

datatype disposition_start = StartAmbiguous | StartRejected | StartReplayed | Started

datatype disposition_cancel = CAccepted | CAlreadyRequested | CNoActiveTurn | CTerminal

datatype disposition_respond = RespondAccepted | RespondReplayed

text \<open>The policies, resolved; \<open>cp_graceMs\<close> fails when the environment's value is not valid.\<close>

record 'w submission_policy =
  sp_attachAttempts :: nat
  sp_cleanupAttempts :: nat
  sp_sleep :: "int \<Rightarrow> ('w, unit) act"

record 'w cancellation_policy =
  cp_graceMs :: "int res"
  cp_now :: "'w \<Rightarrow> int"
  cp_sleep :: "int \<Rightarrow> ('w, unit) act"

subsection \<open>startAgentRun\<close>

definition resolveSubmissionPolicy ::
  "int option \<Rightarrow> int option \<Rightarrow> (int \<Rightarrow> ('w, unit) act) \<Rightarrow> 'w submission_policy res" where
  "resolveSubmissionPolicy attach cleanup sleep =
     (let attachAttempts = (case attach of None \<Rightarrow> 3 | Some a \<Rightarrow> a);
          cleanupAttempts = (case cleanup of None \<Rightarrow> 3 | Some a \<Rightarrow> a)
      in if attachAttempts < 1 \<or> attachAttempts > 5
         then Inl (RangeError ''Agent submission attachAttempts must be an integer from 1 to 5.'')
         else if cleanupAttempts < 1 \<or> cleanupAttempts > 5
         then Inl (RangeError ''Agent submission cleanupAttempts must be an integer from 1 to 5.'')
         else Inr \<lparr>sp_attachAttempts = nat attachAttempts, sp_cleanupAttempts = nat cleanupAttempts, sp_sleep = sleep\<rparr>)"

definition submissionRetryDelay :: "nat \<Rightarrow> int" where
  "submissionRetryDelay n = min 1000 (100 * 2 ^ (n - 1))"

text \<open>The loops count \<^verbatim>\<open>attempt\<close> up to the policy's bound; the argument is how many are left.\<close>

fun attach_attempts ::
  "'w run_store_if \<Rightarrow> string \<Rightarrow> string \<Rightarrow> 'w submission_policy \<Rightarrow> nat \<Rightarrow> js_error \<Rightarrow> ('w, run_row) act" where
  "attach_attempts store runId sessionId policy 0 lastError = throw lastError"
| "attach_attempts store runId sessionId policy (Suc left) lastError =
     catch_act (si_attachSession store runId sessionId) (\<lambda>e.
       bind_act (if left > 0 then sp_sleep policy (submissionRetryDelay (sp_attachAttempts policy - left)) else ret ())
         (\<lambda>_. attach_attempts store runId sessionId policy left e))"

definition attachSessionWithRetry ::
  "'w run_store_if \<Rightarrow> string \<Rightarrow> string \<Rightarrow> 'w submission_policy \<Rightarrow> ('w, run_row) act" where
  "attachSessionWithRetry store runId sessionId policy =
     attach_attempts store runId sessionId policy (sp_attachAttempts policy) (Error ''Agent session attachment failed.'')"

fun reset_attempts ::
  "'w run_runtime \<Rightarrow> string \<Rightarrow> string \<Rightarrow> string \<Rightarrow> 'w submission_policy \<Rightarrow> nat \<Rightarrow> ('w, bool) act" where
  "reset_attempts runtime runId correlationId sessionId policy 0 = ret False"
| "reset_attempts runtime runId correlationId sessionId policy (Suc left) =
     catch_act (bind_act (rn_reset runtime runId correlationId sessionId) (\<lambda>_. ret True)) (\<lambda>e.
       bind_act (if left > 0 then sp_sleep policy (submissionRetryDelay (sp_cleanupAttempts policy - left)) else ret ())
         (\<lambda>_. reset_attempts runtime runId correlationId sessionId policy left))"

definition resetAcceptedSessionWithRetry ::
  "'w run_runtime \<Rightarrow> string \<Rightarrow> string \<Rightarrow> string \<Rightarrow> 'w submission_policy \<Rightarrow> ('w, bool) act" where
  "resetAcceptedSessionWithRetry runtime runId correlationId sessionId policy =
     reset_attempts runtime runId correlationId sessionId policy (sp_cleanupAttempts policy)"

definition validateParent :: "'w run_store_if \<Rightarrow> run_identity \<Rightarrow> start_request \<Rightarrow> ('w, unit) act" where
  "validateParent store identity request =
     (case sr_parent request of
        None \<Rightarrow> ret ()
      | Some p \<Rightarrow> bind_act (si_findOwned store (id_tenantId identity) (id_principalId identity) (rp_parentRunId p)) (\<lambda>f.
          case f of
            None \<Rightarrow> throw (OperationError 404 ''agent_run_parent_not_found'' ''The parent AgentRun was not found for this principal.'')
          | Some parent \<Rightarrow>
              let expectedDepth = (case rr_parent parent of None \<Rightarrow> 0 | Some pp \<Rightarrow> rp_depth pp) + 1;
                  expectedRootRunId = (case rr_parent parent of None \<Rightarrow> rr_runId parent | Some pp \<Rightarrow> rp_rootRunId pp)
              in if rp_depth p \<noteq> expectedDepth \<or> rp_rootRunId p \<noteq> expectedRootRunId
                 then throw (OperationError 400 ''agent_run_parent_invalid'' ''The AgentRun parent depth or root lineage is invalid.'')
                 else ret ()))"

definition reserve_request :: "(start_request \<Rightarrow> string) \<Rightarrow> run_identity \<Rightarrow> start_request \<Rightarrow> reserve_input" where
  "reserve_request fingerprint identity request = \<lparr>
     rs_correlationId = sr_correlationId request, rs_idempotencyKey = sr_idempotencyKey request,
     rs_metadata = (case sr_metadata request of None \<Rightarrow> JObj [] | Some m \<Rightarrow> m), rs_parent = sr_parent request,
     rs_policy = (case sr_policy request of None \<Rightarrow> JObj [] | Some p \<Rightarrow> p),
     rs_principalId = id_principalId identity, rs_profile = sr_profile request,
     rs_requestFingerprint = fingerprint request, rs_tenantId = id_tenantId identity\<rparr>"

definition client_rejection :: "js_error \<Rightarrow> bool" where
  "client_rejection e = (case e of ClientError status m \<Rightarrow> 400 \<le> status \<and> status < 500 | _ \<Rightarrow> False)"

definition capacity_error :: "nat \<Rightarrow> nat \<Rightarrow> js_error" where
  "capacity_error activeTenantCount maxPerTenant =
     OperationError 429 ''agent_run_capacity''
       (''The Agent service is at its '' @
        (if maxPerTenant > 0 \<and> activeTenantCount \<ge> maxPerTenant then ''tenant'' else ''service'') @
        '' concurrency limit. Retry after active work settles.'')"

text \<open>After a submission the runtime did not accept.\<close>

definition submission_failed ::
  "'w run_store_if \<Rightarrow> run_row \<Rightarrow> js_error \<Rightarrow> ('w, disposition_start \<times> run_row) act" where
  "submission_failed store reserved e =
     (if client_rejection e
      then bind_act (si_markSubmissionFailed store (rr_runId reserved)
             ''The Agent runtime rejected the request before accepting a session.'') (\<lambda>r. ret (StartRejected, r))
      else bind_act (si_markSubmissionAmbiguous store (rr_runId reserved)
             ''The Agent service could not determine whether the runtime accepted this request. The same idempotency key will not submit it again.'')
             (\<lambda>r. ret (StartAmbiguous, r)))"

definition current_or_reserved ::
  "'w run_store_if \<Rightarrow> run_identity \<Rightarrow> run_row \<Rightarrow> ('w, disposition_start \<times> run_row) act" where
  "current_or_reserved store identity reserved =
     bind_act (si_findOwned store (id_tenantId identity) (id_principalId identity) (rr_runId reserved))
       (\<lambda>cur. ret (StartAmbiguous, case cur of None \<Rightarrow> reserved | Some r \<Rightarrow> r))"

definition release_accepted ::
  "'w run_store_if \<Rightarrow> 'w run_runtime \<Rightarrow> run_identity \<Rightarrow> 'w submission_policy \<Rightarrow> run_row \<Rightarrow> string
     \<Rightarrow> ('w, disposition_start \<times> run_row) act" where
  "release_accepted store runtime identity policy reserved sessionId =
     bind_act (resetAcceptedSessionWithRetry runtime (rr_runId reserved) (rr_correlationId reserved) sessionId policy) (\<lambda>cleaned.
       if \<not> cleaned then current_or_reserved store identity reserved
       else catch_act
         (bind_act (si_markSubmissionAmbiguous store (rr_runId reserved)
            ''The Agent runtime accepted a session, but durable attachment failed. The accepted session was reset and the request was not retried.'')
           (\<lambda>r. ret (StartAmbiguous, r)))
         (\<lambda>_. current_or_reserved store identity reserved))"

text \<open>After every attach attempt failed: bind the session, and release it unless it turns out attached.\<close>

definition attach_failed ::
  "'w run_store_if \<Rightarrow> 'w run_runtime \<Rightarrow> run_identity \<Rightarrow> 'w submission_policy \<Rightarrow> run_row \<Rightarrow> string
     \<Rightarrow> ('w, disposition_start \<times> run_row) act" where
  "attach_failed store runtime identity policy reserved sessionId =
     bind_act (attempt (case si_bindSubmissionSession store of
         None \<Rightarrow> ret None
       | Some b \<Rightarrow> bind_act (b (rr_runId reserved) sessionId) (\<lambda>r. ret (Some r)))) (\<lambda>bound.
       case bound of
         Inr (Some r) \<Rightarrow>
           if rr_status r = RRunning \<and> rr_sessionId r = Some sessionId then ret (Started, r)
           else release_accepted store runtime identity policy reserved sessionId
       | _ \<Rightarrow> release_accepted store runtime identity policy reserved sessionId)"

definition submit_reserved ::
  "'w run_store_if \<Rightarrow> 'w run_runtime \<Rightarrow> run_identity \<Rightarrow> 'w submission_policy \<Rightarrow> start_request \<Rightarrow> run_row
     \<Rightarrow> ('w, disposition_start \<times> run_row) act" where
  "submit_reserved store runtime identity policy request reserved =
     bind_act (attempt (rn_start runtime request (rr_runId reserved))) (\<lambda>session. case session of
        Inl e \<Rightarrow> submission_failed store reserved e
      | Inr sessionId \<Rightarrow>
          catch_act
            (bind_act (attachSessionWithRetry store (rr_runId reserved) sessionId policy) (\<lambda>r. ret (Started, r)))
            (\<lambda>_. attach_failed store runtime identity policy reserved sessionId))"

definition startAgentRun ::
  "(start_request \<Rightarrow> string) \<Rightarrow> 'w run_store_if \<Rightarrow> 'w run_runtime \<Rightarrow> 'w submission_policy res \<Rightarrow> run_identity \<Rightarrow> start_request
     \<Rightarrow> ('w, disposition_start \<times> run_row) act" where
  "startAgentRun fingerprint store runtime policy identity request =
     bind_act (lift_res policy) (\<lambda>policy.
     bind_act (validateParent store identity request) (\<lambda>_.
     bind_act (si_reserve store (reserve_request fingerprint identity request)) (\<lambda>reservation. case reservation of
        Conflicting _ \<Rightarrow> throw (OperationError 409 ''agent_run_idempotency_conflict''
          ''This idempotency key was already used for a different AgentRun request.'')
      | Capacity _ activeTenantCount _ maxPerTenant \<Rightarrow> throw (capacity_error activeTenantCount maxPerTenant)
      | Replayed r \<Rightarrow> ret (StartReplayed, r)
      | Reserved r \<Rightarrow> submit_reserved store runtime identity policy request r)))"

subsection \<open>synchronizeAgentRun\<close>

definition AGENT_EVENT_PAGE_SIZE :: nat where
  "AGENT_EVENT_PAGE_SIZE = 200"

definition synchronizationPageSize :: "'w run_runtime \<Rightarrow> nat res" where
  "synchronizationPageSize runtime = (case rn_synchronizationPageSize runtime of
     None \<Rightarrow> Inr AGENT_EVENT_PAGE_SIZE
   | Some v \<Rightarrow> if v < int AGENT_EVENT_PAGE_SIZE \<or> v > 1000
       then Inl (Error ''Agent runtime synchronizationPageSize must be an integer from 200 to 1000.'')
       else Inr (nat v))"

definition cancellationGraceElapsed :: "int \<Rightarrow> int \<Rightarrow> int \<Rightarrow> bool" where
  "cancellationGraceElapsed requestedAt now graceMs \<longleftrightarrow> now - requestedAt \<ge> graceMs"

definition cancellationGraceRemaining :: "int \<Rightarrow> int \<Rightarrow> int \<Rightarrow> int" where
  "cancellationGraceRemaining requestedAt now graceMs = max 0 (graceMs - (now - requestedAt))"

text \<open>The forced cancellation once the grace period of a recorded request has passed.\<close>

definition force_cancellation ::
  "'w run_store_if \<Rightarrow> 'w run_runtime \<Rightarrow> 'w cancellation_policy \<Rightarrow> run_row \<Rightarrow> ('w, run_row) act" where
  "force_cancellation store runtime policy projected w =
     (case cp_graceMs policy of
        Inl e \<Rightarrow> (Inl e, w)
      | Inr graceMs \<Rightarrow>
          (case (rr_cancellationRequestedAt projected, rr_sessionId projected) of
             (Some requestedAt, Some sessionId) \<Rightarrow>
               if rr_status projected \<noteq> RCancelled \<and> cancellationGraceElapsed requestedAt (cp_now policy w) graceMs
               then bind_act (rn_reset runtime (rr_runId projected) (rr_correlationId projected) sessionId)
                      (\<lambda>_. si_markCancelled store (rr_runId projected)) w
               else (Inr projected, w)
           | _ \<Rightarrow> (Inr projected, w)))"

definition synchronizeAgentRun ::
  "'w run_store_if \<Rightarrow> 'w run_runtime \<Rightarrow> 'w cancellation_policy \<Rightarrow> run_row \<Rightarrow> ('w, agent_event list \<times> run_row) act" where
  "synchronizeAgentRun store runtime policy record =
     (case rr_sessionId record of
        None \<Rightarrow> ret ([], record)
      | Some sessionId \<Rightarrow>
          if is_terminal (rr_status record) then ret ([], record)
          else bind_act (lift_res (synchronizationPageSize runtime)) (\<lambda>pageSize.
            bind_act (rn_readEvents runtime (rr_runId record) (rr_correlationId record) sessionId (rr_eventCount record) pageSize) (\<lambda>events.
            bind_act (if events = [] then ret record
                else si_updateProjection store (rr_runId record) (projectAgentRunDelta record events)) (\<lambda>projected.
            bind_act (force_cancellation store runtime policy projected) (\<lambda>final.
              ret (projectAgentEvents (rr_runId record) events (rr_eventCount record), final))))))"

subsection \<open>inspect, events, cancel\<close>

definition inspectAgentRun ::
  "'w run_store_if \<Rightarrow> 'w run_runtime \<Rightarrow> 'w cancellation_policy \<Rightarrow> run_identity \<Rightarrow> string \<Rightarrow> ('w, run_row option) act" where
  "inspectAgentRun store runtime policy identity runId =
     bind_act (si_findOwned store (id_tenantId identity) (id_principalId identity) runId) (\<lambda>found. case found of
        None \<Rightarrow> ret None
      | Some record \<Rightarrow>
          if rr_sessionId record = None \<or> rr_status record = RSubmissionAmbiguous then ret (Some record)
          else bind_act (synchronizeAgentRun store runtime policy record) (\<lambda>s. ret (Some (snd s))))"

record event_page =
  ep_events :: "agent_event list"
  ep_nextCursor :: nat
  ep_record :: run_row

definition readAgentRunEvents ::
  "'w run_store_if \<Rightarrow> 'w run_runtime \<Rightarrow> 'w cancellation_policy \<Rightarrow> run_identity \<Rightarrow> string \<Rightarrow> nat \<Rightarrow> ('w, event_page option) act" where
  "readAgentRunEvents store runtime policy identity runId after =
     bind_act (si_findOwned store (id_tenantId identity) (id_principalId identity) runId) (\<lambda>found. case found of
        None \<Rightarrow> ret None
      | Some record \<Rightarrow>
          bind_act (synchronizeAgentRun store runtime policy record) (\<lambda>(synced, current).
            if after > rr_eventCount current
            then throw (OperationError 416 ''agent_run_cursor_out_of_range''
              ''The event cursor is ahead of the AgentRun event stream.'')
            else (case rr_sessionId current of
                None \<Rightarrow> ret (Some \<lparr>ep_events = [], ep_nextCursor = after, ep_record = current\<rparr>)
              | Some sessionId \<Rightarrow>
                  if after = rr_eventCount record
                  then let events = take AGENT_EVENT_PAGE_SIZE synced
                       in ret (Some \<lparr>ep_events = events, ep_nextCursor = after + length events, ep_record = current\<rparr>)
                  else bind_act (rn_readEvents runtime (rr_runId current) (rr_correlationId current) sessionId after AGENT_EVENT_PAGE_SIZE)
                    (\<lambda>events. ret (Some \<lparr>ep_events = projectAgentEvents (rr_runId record) events after,
                       ep_nextCursor = after + length events, ep_record = current\<rparr>)))))"

definition cancel_disposition :: "cancel_answer \<Rightarrow> disposition_cancel" where
  "cancel_disposition a = (case a of CancelAccepted \<Rightarrow> CAccepted | NoActiveTurn \<Rightarrow> CNoActiveTurn)"

text \<open>A request that is already recorded waits out its grace period and synchronizes.\<close>

definition await_cancellation ::
  "'w run_store_if \<Rightarrow> 'w run_runtime \<Rightarrow> 'w cancellation_policy \<Rightarrow> int \<Rightarrow> run_row \<Rightarrow> int \<Rightarrow> ('w, (disposition_cancel \<times> run_row) option) act" where
  "await_cancellation store runtime policy graceMs record requestedAt w =
     bind_act (cp_sleep policy (cancellationGraceRemaining requestedAt (cp_now policy w) graceMs)) (\<lambda>_.
       bind_act (synchronizeAgentRun store runtime policy record) (\<lambda>s. ret (Some (CAlreadyRequested, snd s)))) w"

definition request_cancellation ::
  "'w run_store_if \<Rightarrow> 'w run_runtime \<Rightarrow> 'w cancellation_policy \<Rightarrow> int \<Rightarrow> run_row \<Rightarrow> string \<Rightarrow> ('w, (disposition_cancel \<times> run_row) option) act" where
  "request_cancellation store runtime policy graceMs record sessionId =
     bind_act (si_markCancellationRequested store (rr_runId record)) (\<lambda>requested.
       if is_terminal (rr_status requested) then ret (Some (CTerminal, requested))
       else bind_act (rn_cancel runtime (rr_runId record) (rr_correlationId record) sessionId) (\<lambda>answer.
         bind_act (cp_sleep policy graceMs) (\<lambda>_.
         bind_act (synchronizeAgentRun store runtime policy requested) (\<lambda>s.
           ret (Some (cancel_disposition answer, snd s))))))"

definition cancelAgentRun ::
  "'w run_store_if \<Rightarrow> 'w run_runtime \<Rightarrow> 'w cancellation_policy \<Rightarrow> run_identity \<Rightarrow> string \<Rightarrow> ('w, (disposition_cancel \<times> run_row) option) act" where
  "cancelAgentRun store runtime policy identity runId =
     bind_act (si_findOwned store (id_tenantId identity) (id_principalId identity) runId) (\<lambda>found. case found of
        None \<Rightarrow> ret None
      | Some record \<Rightarrow>
          if is_terminal (rr_status record) then ret (Some (CTerminal, record))
          else (case rr_sessionId record of
              None \<Rightarrow> throw (OperationError 409 ''agent_run_submission_pending''
                ''The AgentRun does not have an accepted runtime session yet.'')
            | Some sessionId \<Rightarrow>
                bind_act (lift_res (cp_graceMs policy)) (\<lambda>graceMs.
                  case rr_cancellationRequestedAt record of
                    Some requestedAt \<Rightarrow> await_cancellation store runtime policy graceMs record requestedAt
                  | None \<Rightarrow> request_cancellation store runtime policy graceMs record sessionId)))"

subsection \<open>respondAgentRun\<close>

text \<open>The requests of the latest input request that no turn boundary has closed.\<close>

fun pending_from_end :: "stream_event list \<Rightarrow> string list" where
  "pending_from_end [] = []"
| "pending_from_end (e # es) =
     (if se_type e \<in> {TurnCompleted, TurnFailed, TurnCancelled} then []
      else if se_type e \<noteq> InputRequested then pending_from_end es
      else (case se_requests e of
          None \<Rightarrow> pending_from_end es
        | Some rs \<Rightarrow> concat (map (\<lambda>r. case r of None \<Rightarrow> [] | Some k \<Rightarrow> [k]) rs)))"

definition latestPendingInputRequestIds :: "stream_event list \<Rightarrow> string list" where
  "latestPendingInputRequestIds es = pending_from_end (rev es)"

definition input_ambiguous :: "js_error" where
  "input_ambiguous = OperationError 503 ''agent_run_input_submission_ambiguous''
     ''The Agent service cannot determine whether this input response was accepted; it will not submit it again.''"

text \<open>What an existing response with the same key and content answers.\<close>

definition replay_response :: "run_input_row \<Rightarrow> run_row \<Rightarrow> (disposition_respond \<times> run_row) option res" where
  "replay_response previous record =
     (if ii_status previous = IAccepted then Inr (Some (RespondReplayed, record))
      else if ii_status previous \<in> {ISubmissionAmbiguous, ISubmitting} then Inl input_ambiguous
      else Inl (OperationError 409 ''agent_run_input_failed''
        ''This input response attempt failed and cannot be replayed with the same idempotency key.''))"

definition idempotency_conflict :: js_error where
  "idempotency_conflict = OperationError 409 ''agent_run_input_idempotency_conflict''
     ''This input idempotency key was already used for a different response.''"

text \<open>Catching up: at most 50 pages in all, while pages are full and the run is neither parked nor over.\<close>

fun catch_up ::
  "'w run_store_if \<Rightarrow> 'w run_runtime \<Rightarrow> 'w cancellation_policy \<Rightarrow> nat \<Rightarrow> nat \<Rightarrow> agent_event list \<times> run_row \<Rightarrow> ('w, run_row) act" where
  "catch_up store runtime policy pageSize 0 s = ret (snd s)"
| "catch_up store runtime policy pageSize (Suc pages) s =
     (if length (fst s) \<noteq> pageSize then ret (snd s)
      else if rr_status (snd s) = RWaitingInput \<or> is_terminal (rr_status (snd s)) then ret (snd s)
      else bind_act (synchronizeAgentRun store runtime policy (snd s)) (catch_up store runtime policy pageSize pages))"

text \<open>The body of the \<^verbatim>\<open>try\<close> around the runtime call, and its \<^verbatim>\<open>catch\<close>.\<close>

definition submit_response ::
  "'w input_store_if \<Rightarrow> 'w run_runtime \<Rightarrow> run_row \<Rightarrow> string \<Rightarrow> input_answer list \<Rightarrow> run_input_row \<Rightarrow> ('w, unit) act" where
  "submit_response inputs runtime record sessionId answers reserved =
     bind_act (rn_respond runtime (rr_runId record) (rr_correlationId record) sessionId answers) (\<lambda>answeredSession.
       if answeredSession \<noteq> sessionId
       then bind_act (is_markSubmissionAmbiguous inputs (ii_responseId reserved)
              ''The Agent runtime accepted the response under an unexpected session id.'')
            (\<lambda>_. throw (OperationError 502 ''agent_run_input_session_changed''
              ''The Agent runtime changed session identity while accepting input.''))
       else bind_act (is_markAccepted inputs (ii_responseId reserved)) (\<lambda>_. ret ()))"

definition response_failed ::
  "'w input_store_if \<Rightarrow> run_input_row \<Rightarrow> js_error \<Rightarrow> ('w, unit) act" where
  "response_failed inputs reserved e =
     (case e of
        OperationError s c m \<Rightarrow> throw e
      | _ \<Rightarrow>
        if client_rejection e
        then bind_act (is_markFailed inputs (ii_responseId reserved) ''The Agent runtime rejected the input response.'')
          (\<lambda>_. throw (OperationError 409 ''agent_run_input_rejected''
            ''The Agent runtime rejected this input response as invalid or stale.''))
        else bind_act (is_markSubmissionAmbiguous inputs (ii_responseId reserved)
            ''The Agent service could not determine whether the runtime accepted this input response.'')
          (\<lambda>_. throw input_ambiguous))"

definition respond_reserved ::
  "(respond_request \<Rightarrow> string) \<Rightarrow> 'w input_store_if \<Rightarrow> 'w run_runtime \<Rightarrow> (input_answer list \<Rightarrow> json) \<Rightarrow> string \<Rightarrow> respond_request
     \<Rightarrow> run_row \<Rightarrow> string \<Rightarrow> ('w, (disposition_respond \<times> run_row) option) act" where
  "respond_reserved fingerprint inputs runtime answersJson runId request record sessionId =
     bind_act (is_reserve inputs \<lparr>rq_idempotencyKey = rd_idempotencyKey request,
         rq_inputResponses = answersJson (rd_inputResponses request), rq_requestFingerprint = fingerprint request,
         rq_requestIds = map ia_requestId (rd_inputResponses request), rq_runId = runId\<rparr>) (\<lambda>reservation. case reservation of
        ResponseConflict _ \<Rightarrow> throw idempotency_conflict
      | AlreadyAnswered _ \<Rightarrow> throw (OperationError 409 ''agent_run_input_already_answered''
          ''One of these AgentRun input requests already has a reserved response.'')
      | ResponseReplay previous \<Rightarrow> lift_res (replay_response previous record)
      | ResponseReserved reserved \<Rightarrow>
          bind_act (catch_act (submit_response inputs runtime record sessionId (rd_inputResponses request) reserved)
            (response_failed inputs reserved)) (\<lambda>_. ret (Some (RespondAccepted, record))))"

text \<open>
  With a live session: catch up, check that only pending requests are answered, reserve, submit.  A run
  keeps its session once it has one, which is what the source's \<^verbatim>\<open>sessionId!\<close> asserts.
\<close>

definition respond_live ::
  "(respond_request \<Rightarrow> string) \<Rightarrow> 'w run_store_if \<Rightarrow> 'w input_store_if \<Rightarrow> 'w run_runtime \<Rightarrow> 'w cancellation_policy
     \<Rightarrow> (input_answer list \<Rightarrow> json) \<Rightarrow> string \<Rightarrow> respond_request \<Rightarrow> run_row \<Rightarrow> ('w, (disposition_respond \<times> run_row) option) act" where
  "respond_live fingerprint store inputs runtime policy answersJson runId request current =
     bind_act (synchronizeAgentRun store runtime policy current) (\<lambda>first.
     bind_act (lift_res (synchronizationPageSize runtime)) (\<lambda>pageSize.
     bind_act (catch_up store runtime policy pageSize 49 first) (\<lambda>record.
       if rr_status record \<noteq> RWaitingInput
       then throw (OperationError 409 ''agent_run_not_waiting_input'' ''The AgentRun is not currently waiting for an input response.'')
       else let sessionId = text_of (rr_sessionId record)
         in bind_act (rn_readEvents runtime (rr_runId record) (rr_correlationId record) sessionId
             (rr_eventCount record - AGENT_EVENT_PAGE_SIZE) AGENT_EVENT_PAGE_SIZE) (\<lambda>tail_events.
           let pending = latestPendingInputRequestIds tail_events;
               requested = map ia_requestId (rd_inputResponses request)
           in if pending = [] \<or> (\<exists>k \<in> set requested. k \<notin> set pending)
              then throw (OperationError 409 ''agent_run_input_stale''
                ''The AgentRun input response does not match its current pending request batch.'')
              else respond_reserved fingerprint inputs runtime answersJson runId request record sessionId))))"

definition respondAgentRun ::
  "(respond_request \<Rightarrow> string) \<Rightarrow> 'w run_store_if \<Rightarrow> 'w input_store_if \<Rightarrow> 'w run_runtime \<Rightarrow> 'w cancellation_policy
     \<Rightarrow> (input_answer list \<Rightarrow> json) \<Rightarrow> run_identity \<Rightarrow> string \<Rightarrow> respond_request \<Rightarrow> ('w, (disposition_respond \<times> run_row) option) act" where
  "respondAgentRun fingerprint store inputs runtime policy answersJson identity runId request =
     bind_act (si_findOwned store (id_tenantId identity) (id_principalId identity) runId) (\<lambda>found. case found of
        None \<Rightarrow> ret None
      | Some current \<Rightarrow>
          bind_act (is_find inputs runId (rd_idempotencyKey request)) (\<lambda>previous. case previous of
            Some p \<Rightarrow> if ii_requestFingerprint p \<noteq> fingerprint request then throw idempotency_conflict
                      else lift_res (replay_response p current)
          | None \<Rightarrow>
              if rr_sessionId current = None
              then throw (OperationError 409 ''agent_run_submission_pending''
                ''The AgentRun does not have an accepted runtime session yet.'')
              else if is_terminal (rr_status current)
              then throw (OperationError 409 ''agent_run_terminal'' ''A terminal AgentRun cannot accept an input response.'')
              else respond_live fingerprint store inputs runtime policy answersJson runId request current))"

subsection \<open>toAgentRunSnapshot\<close>

record run_snapshot =
  ns_cancellationRequestedAt :: "int option"
  ns_correlationId :: string
  ns_createdAt :: int
  ns_eventCount :: nat
  ns_failure :: "run_failure option"
  ns_sessionId :: "string option"
  ns_metadata :: json
  ns_parent :: "run_parent option"
  ns_policy :: json
  ns_profile :: "string \<times> string"
  ns_result :: "run_result option"
  ns_revision :: int
  ns_runId :: string
  ns_status :: run_status
  ns_updatedAt :: int
  ns_usage :: usage

definition toAgentRunSnapshot :: "run_row \<Rightarrow> run_snapshot" where
  "toAgentRunSnapshot r = \<lparr>
     ns_cancellationRequestedAt = rr_cancellationRequestedAt r, ns_correlationId = rr_correlationId r,
     ns_createdAt = rr_createdAt r, ns_eventCount = rr_eventCount r, ns_failure = rr_failure r,
     ns_sessionId = truthy (rr_sessionId r), ns_metadata = rr_metadata r, ns_parent = rr_parent r,
     ns_policy = rr_policy r, ns_profile = rr_profile r, ns_result = rr_result r, ns_revision = rr_revision r,
     ns_runId = rr_runId r, ns_status = rr_status r, ns_updatedAt = rr_updatedAt r, ns_usage = rr_usage r\<rparr>"

subsection \<open>reconcileStaleSubmissions (server/agent-runs/reconcile.ts)\<close>

record reconcile_result =
  rc_inspected :: nat
  rc_markedAmbiguous :: nat
  rc_alreadySettled :: nat
  rc_failures :: nat
  rc_acceptedSessionsCleaned :: nat
  rc_acceptedSessionsDeferred :: nat

definition no_reconcile :: reconcile_result where
  "no_reconcile = \<lparr>rc_inspected = 0, rc_markedAmbiguous = 0, rc_alreadySettled = 0, rc_failures = 0,
     rc_acceptedSessionsCleaned = 0, rc_acceptedSessionsDeferred = 0\<rparr>"

definition reconcile_message :: "string option \<Rightarrow> string" where
  "reconcile_message sessionId = (if sessionId \<noteq> None
     then ''The Agent runtime session was accepted but durable attachment did not complete. The accepted session was reset by reconciliation and the request was not retried.''
     else ''The Agent process did not receive an Eve session handle before the submission timeout. The request was not retried automatically.'')"

text \<open>
  One candidate.  The counters are kept apart from the world because the \<^verbatim>\<open>catch\<close> keeps what the
  body has counted before it threw: a session is counted as cleaned once its reset returned.
\<close>

definition reconcile_mark ::
  "'w run_store_if \<Rightarrow> run_row \<Rightarrow> reconcile_result \<Rightarrow> ('w, reconcile_result) act" where
  "reconcile_mark store record c =
     catch_act (bind_act (si_markSubmissionAmbiguous store (rr_runId record) (reconcile_message (rr_sessionId record))) (\<lambda>nxt.
        ret (if rr_status nxt = RSubmissionAmbiguous then c\<lparr>rc_markedAmbiguous := rc_markedAmbiguous c + 1\<rparr>
             else c\<lparr>rc_alreadySettled := rc_alreadySettled c + 1\<rparr>)))
       (\<lambda>_. ret (c\<lparr>rc_failures := rc_failures c + 1\<rparr>))"

definition reconcile_one ::
  "'w run_store_if \<Rightarrow> (string \<Rightarrow> string \<Rightarrow> string \<Rightarrow> ('w, unit) act) option \<Rightarrow> run_row \<Rightarrow> reconcile_result \<Rightarrow> ('w, reconcile_result) act" where
  "reconcile_one store reset record c =
     (case rr_sessionId record of
        None \<Rightarrow> reconcile_mark store record c
      | Some sessionId \<Rightarrow>
          (case reset of
             None \<Rightarrow> ret (c\<lparr>rc_acceptedSessionsDeferred := rc_acceptedSessionsDeferred c + 1\<rparr>)
           | Some f \<Rightarrow>
               bind_act (attempt (f (rr_runId record) (rr_correlationId record) sessionId)) (\<lambda>r. case r of
                  Inl e \<Rightarrow> ret (c\<lparr>rc_failures := rc_failures c + 1\<rparr>)
                | Inr _ \<Rightarrow> reconcile_mark store record (c\<lparr>rc_acceptedSessionsCleaned := rc_acceptedSessionsCleaned c + 1\<rparr>))))"

fun reconcile_loop ::
  "'w run_store_if \<Rightarrow> (string \<Rightarrow> string \<Rightarrow> string \<Rightarrow> ('w, unit) act) option \<Rightarrow> run_row list \<Rightarrow> reconcile_result \<Rightarrow> ('w, reconcile_result) act" where
  "reconcile_loop store reset [] c = ret c"
| "reconcile_loop store reset (r # rs) c = bind_act (reconcile_one store reset r c) (reconcile_loop store reset rs)"

definition reconcileStaleSubmissions ::
  "'w run_store_if \<Rightarrow> (string \<Rightarrow> string \<Rightarrow> string \<Rightarrow> ('w, unit) act) option \<Rightarrow> int \<Rightarrow> int \<Rightarrow> ('w, reconcile_result) act" where
  "reconcileStaleSubmissions store reset olderThanMs limit =
     (case si_listStaleSubmissions store of
        None \<Rightarrow> ret no_reconcile
      | Some list_stale \<Rightarrow> bind_act (list_stale olderThanMs limit) (\<lambda>listed.
          let candidates = filter (\<lambda>r. rr_status r = RSubmitting) listed
          in reconcile_loop store reset candidates (no_reconcile\<lparr>rc_inspected := length candidates\<rparr>)))"

definition isStaleSubmission :: "run_row \<Rightarrow> int \<Rightarrow> int \<Rightarrow> bool" where
  "isStaleSubmission record now olderThanMs \<longleftrightarrow> rr_status record = RSubmitting \<and> now - rr_updatedAt record \<ge> olderThanMs"

end
