(* ===== verification/Run_World.thy ===== *)
theory Run_World
  imports Run_Service
begin

section \<open>The run service against the PostgreSQL store, with outages and other processes\<close>

text \<open>
  A world holds the tables, a log of what the runtime was asked and what it confirmed, and a
  schedule: for the n-th call, the commands other processes commit before it, the time, the fresh
  uuid, whether the database answers (\<open>Up\<close>), refuses (\<open>Down\<close>) or executes the statement and loses
  the response (\<open>Lost\<close>), and what the runtime answers.  A start that answers an error other than a
  rejection (a status of 400 to 499, with which the runtime refuses a request before it accepts a
  session) may have been accepted with its answer lost: \<open>rw_heldBack\<close> is then the session, and the
  log of unheard acceptances has it.  The theorems quantify over all schedules.
\<close>

datatype outage = Up | Down | Lost

record run_step =
  rw_others :: "run_cmd list"
  rw_now :: int
  rw_uuid :: string
  rw_outage :: outage
  rw_start :: "string res"
  rw_heldBack :: "string option"
  rw_reset :: "unit res"
  rw_cancel :: "cancel_answer res"
  rw_events :: "stream_event list res"
  rw_respond :: "string res"

record run_world =
  ww_db :: run_db
  ww_started :: "string list"
  ww_accepted :: "(string \<times> string) list"
  ww_unheard :: "(string \<times> string) list"
  ww_resets :: "(string \<times> string) list"
  ww_cancels :: "string list"
  ww_responds :: "(string \<times> string list) list"
  ww_config :: run_config
  ww_steps :: "nat \<Rightarrow> run_step"
  ww_calls :: nat

text \<open>The tables and the step as the next call finds them.\<close>

definition cur_step :: "run_world \<Rightarrow> run_step" where
  "cur_step w = ww_steps w (ww_calls w)"

definition cur_db :: "run_world \<Rightarrow> run_db" where
  "cur_db w = run_all (ww_config w) (rw_others (cur_step w)) (ww_db w)"

definition after_call :: "run_db \<Rightarrow> run_world \<Rightarrow> run_world" where
  "after_call db w = w\<lparr>ww_db := db, ww_calls := Suc (ww_calls w)\<rparr>"

definition store_call :: "(run_config \<Rightarrow> run_step \<Rightarrow> (run_db, 'a) act) \<Rightarrow> (run_world, 'a) act" where
  "store_call f w =
     (case rw_outage (cur_step w) of
        Down \<Rightarrow> (Inl (Error ''connection refused''), after_call (cur_db w) w)
      | Up \<Rightarrow> (fst (f (ww_config w) (cur_step w) (cur_db w)), after_call (snd (f (ww_config w) (cur_step w) (cur_db w))) w)
      | Lost \<Rightarrow> (Inl (Error ''connection terminated''), after_call (snd (f (ww_config w) (cur_step w) (cur_db w))) w))"

text \<open>A runtime call: logged, and answered by the schedule; others act meanwhile.\<close>

definition runtime_call :: "(run_step \<Rightarrow> 'a res) \<Rightarrow> ('a res \<Rightarrow> run_world \<Rightarrow> run_world) \<Rightarrow> (run_world, 'a) act" where
  "runtime_call answer note w = (answer (cur_step w), note (answer (cur_step w)) (after_call (cur_db w) w))"

definition world_runs :: "run_world run_store_if" where
  "world_runs = \<lparr>
     si_attachSession = (\<lambda>k sid. store_call (\<lambda>c s. attachSession k sid (rw_now s))),
     si_bindSubmissionSession = Some (\<lambda>k sid. store_call (\<lambda>c s. bindSubmissionSession k sid (rw_now s))),
     si_findOwned = (\<lambda>t p k. store_call (\<lambda>c s. findOwnedRun t p k)),
     si_markCancelled = (\<lambda>k. store_call (\<lambda>c s. markCancelled k (rw_now s))),
     si_markCancellationRequested = (\<lambda>k. store_call (\<lambda>c s. markCancellationRequested k (rw_now s))),
     si_markSubmissionFailed = (\<lambda>k m. store_call (\<lambda>c s. markSubmissionFailed k m (rw_now s))),
     si_markSubmissionAmbiguous = (\<lambda>k m. store_call (\<lambda>c s. markRunAmbiguous k m (rw_now s))),
     si_listStaleSubmissions = Some (\<lambda>o' l. store_call (\<lambda>c s. listStaleSubmissions o' l (rw_now s))),
     si_reserve = (\<lambda>i. store_call (\<lambda>c s. reserve c (rw_uuid s) (rw_now s) i)),
     si_updateProjection = (\<lambda>k p. store_call (\<lambda>c s. updateProjection k p (rw_now s)))\<rparr>"

definition world_inputs :: "run_world input_store_if" where
  "world_inputs = \<lparr>
     is_find = (\<lambda>k key. store_call (\<lambda>c s. findResponse k key)),
     is_markAccepted = (\<lambda>k. store_call (\<lambda>c s. markResponseAccepted k (rw_now s))),
     is_markFailed = (\<lambda>k m. store_call (\<lambda>c s. markResponseFailed k m (rw_now s))),
     is_markSubmissionAmbiguous = (\<lambda>k m. store_call (\<lambda>c s. markResponseAmbiguous k m (rw_now s))),
     is_reserve = (\<lambda>i. store_call (\<lambda>c s. reserveResponse (rw_uuid s) (rw_now s) i))\<rparr>"

text \<open>The session a start accepted without its answer arriving.\<close>

definition unheard_of :: "string \<Rightarrow> string option \<Rightarrow> string res \<Rightarrow> (string \<times> string) list" where
  "unheard_of k held r = (case (r, held) of
     (Inl e, Some sid) \<Rightarrow> if client_rejection e then [] else [(k, sid)]
   | _ \<Rightarrow> [])"

definition note_start :: "string \<Rightarrow> string option \<Rightarrow> string res \<Rightarrow> run_world \<Rightarrow> run_world" where
  "note_start k held r w = w\<lparr>ww_started := ww_started w @ [k],
     ww_accepted := ww_accepted w @ (case r of Inl _ \<Rightarrow> unheard_of k held r | Inr sid \<Rightarrow> [(k, sid)]),
     ww_unheard := ww_unheard w @ unheard_of k held r\<rparr>"

definition note_reset :: "string \<Rightarrow> string \<Rightarrow> unit res \<Rightarrow> run_world \<Rightarrow> run_world" where
  "note_reset k sid r w = w\<lparr>ww_resets := (case r of Inl _ \<Rightarrow> ww_resets w | Inr _ \<Rightarrow> ww_resets w @ [(k, sid)])\<rparr>"

definition world_rt :: "run_world run_runtime" where
  "world_rt = \<lparr>
     rn_cancel = (\<lambda>k c sid. runtime_call rw_cancel (\<lambda>_ w. w\<lparr>ww_cancels := ww_cancels w @ [k]\<rparr>)),
     rn_readEvents = (\<lambda>k c sid n l. runtime_call rw_events (\<lambda>_ w. w)),
     rn_respond = (\<lambda>k c sid as. runtime_call rw_respond (\<lambda>_ w. w\<lparr>ww_responds := ww_responds w @ [(k, map ia_requestId as)]\<rparr>)),
     rn_reset = (\<lambda>k c sid. runtime_call rw_reset (note_reset k sid)),
     rn_start = (\<lambda>r k w. runtime_call rw_start (note_start k (rw_heldBack (cur_step w))) w),
     rn_synchronizationPageSize = Some 1000\<rparr>"

definition no_sleep :: "int \<Rightarrow> (run_world, unit) act" where
  "no_sleep ms = ret ()"

definition start_in_world ::
  "(start_request \<Rightarrow> string) \<Rightarrow> run_world submission_policy res \<Rightarrow> run_identity \<Rightarrow> start_request \<Rightarrow> (run_world, disposition_start \<times> run_row) act" where
  "start_in_world fp policy identity request = startAgentRun fp world_runs world_rt policy identity request"

lemmas world_if_defs = world_runs_def world_inputs_def world_rt_def

lemma after_call_fields [simp]:
  "ww_db (after_call db w) = db" "ww_started (after_call db w) = ww_started w" "ww_accepted (after_call db w) = ww_accepted w"
  "ww_unheard (after_call db w) = ww_unheard w"
  "ww_resets (after_call db w) = ww_resets w" "ww_cancels (after_call db w) = ww_cancels w"
  "ww_responds (after_call db w) = ww_responds w" "ww_config (after_call db w) = ww_config w"
  "ww_steps (after_call db w) = ww_steps w"
  by (simp_all add: after_call_def)

subsection \<open>A contract for the run service\<close>

text \<open>
  A property of the world that every store call and every runtime call keeps is kept by every service
  operation, whatever the calls answer.  The locale states the calls of \<open>startAgentRun\<close>,
  \<open>cancelAgentRun\<close> and the reconciler; the lemmas lift it through their control flow.
\<close>

locale run_calls =
  fixes store :: "'w run_store_if" and runtime :: "'w run_runtime" and I :: "'w \<Rightarrow> bool"
  assumes keeps_findOwned: "keeps I (si_findOwned store t p k)"
    and keeps_markCancelled: "keeps I (si_markCancelled store k)"
    and keeps_request: "keeps I (si_markCancellationRequested store k)"
    and keeps_project: "keeps I (si_updateProjection store k pj)"
    and keeps_read: "keeps I (rn_readEvents runtime k c sid n l)"
    and keeps_reset: "keeps I (rn_reset runtime k c sid)"
begin

lemma keeps_force: "keeps I (force_cancellation store runtime policy r)"
proof -
  have b: "keeps I (bind_act (rn_reset runtime k c sid) (\<lambda>_. si_markCancelled store k))" for k c sid
    by (intro keeps_bind keeps_reset keeps_markCancelled)
  show ?thesis
    using b unfolding keeps_def force_cancellation_def by (auto split: sum.splits option.splits)
qed

lemma keeps_synchronize: "keeps I (synchronizeAgentRun store runtime policy r)"
  unfolding synchronizeAgentRun_def
  by (auto split: option.splits intro!: keeps_bind keeps_read keeps_project keeps_force)

lemma keeps_inspect: "keeps I (inspectAgentRun store runtime policy identity k)"
  unfolding inspectAgentRun_def
  by (auto split: option.splits intro!: keeps_bind keeps_findOwned keeps_synchronize)

lemma keeps_await:
  assumes "\<And>ms. keeps I (cp_sleep policy ms)"
  shows "keeps I (await_cancellation store runtime policy g r req)"
proof -
  have "keeps I (bind_act (cp_sleep policy ms) (\<lambda>_.
      bind_act (synchronizeAgentRun store runtime policy r) (\<lambda>s. ret (Some (CAlreadyRequested, snd s)))))" for ms
    by (intro keeps_bind assms keeps_synchronize keeps_ret)
  then show ?thesis by (simp add: keeps_def await_cancellation_def)
qed

end

text \<open>The calls that bind a session to a reserved run, and with them those of a whole submission.\<close>

locale session_calls =
  fixes store :: "'w run_store_if" and runtime :: "'w run_runtime" and I :: "'w \<Rightarrow> bool"
    and policy :: "'w submission_policy"
  assumes session_reset: "keeps I (rn_reset runtime k c sid)"
    and session_attach: "keeps I (si_attachSession store k sid)"
    and session_bind: "si_bindSubmissionSession store = Some b \<Longrightarrow> keeps I (b k sid)"
    and session_sleep: "keeps I (sp_sleep policy ms)"
begin

lemma keeps_attach_attempts: "keeps I (attach_attempts store k sid policy n e)"
  by (induction n arbitrary: e) (auto intro!: keeps_catch session_attach keeps_bind session_sleep)

lemma keeps_reset_attempts: "keeps I (reset_attempts runtime k c sid policy n)"
  by (induction n) (auto intro!: keeps_catch session_reset keeps_bind session_sleep)

end

locale start_calls = run_calls store runtime I + session_calls store runtime I policy
  for store :: "'w run_store_if" and runtime :: "'w run_runtime" and I :: "'w \<Rightarrow> bool" and policy :: "'w submission_policy" +
  assumes keeps_failed: "keeps I (si_markSubmissionFailed store k m)"
    and keeps_ambiguous: "keeps I (si_markSubmissionAmbiguous store k m)"
begin

lemma keeps_submission_failed: "keeps I (submission_failed store r e)"
  unfolding submission_failed_def by (auto intro!: keeps_bind keeps_failed keeps_ambiguous)

lemma keeps_release: "keeps I (release_accepted store runtime identity policy r sid)"
  unfolding release_accepted_def resetAcceptedSessionWithRetry_def current_or_reserved_def
  by (auto intro!: keeps_bind keeps_catch keeps_reset_attempts keeps_findOwned keeps_ambiguous)

lemma keeps_attach_failed: "keeps I (attach_failed store runtime identity policy r sid)"
  unfolding attach_failed_def
  by (auto split: option.splits sum.splits
      intro!: keeps_bind keeps_attempt session_bind keeps_release)

lemma keeps_after_start:
  "keeps I (case session of Inl e \<Rightarrow> submission_failed store r e
     | Inr sid \<Rightarrow> catch_act (bind_act (attachSessionWithRetry store (rr_runId r) sid policy) (\<lambda>r. ret (Started, r)))
         (\<lambda>_. attach_failed store runtime identity policy r sid))"
  unfolding attachSessionWithRetry_def
  by (auto split: sum.splits intro!: keeps_catch keeps_bind keeps_attach_attempts keeps_attach_failed keeps_submission_failed)

end

subsection \<open>World calls\<close>

lemma store_call_cases:
  obtains (ran) "ww_db (snd (store_call f w)) = snd (f (ww_config w) (cur_step w) (cur_db w))"
      "fst (store_call f w) = fst (f (ww_config w) (cur_step w) (cur_db w)) \<or> (\<exists>e. fst (store_call f w) = Inl e)"
  | (refused) "ww_db (snd (store_call f w)) = cur_db w" "\<exists>e. fst (store_call f w) = Inl e"
  by (cases "rw_outage (cur_step w)") (auto simp: store_call_def)

lemma store_call_logs [simp]:
  "ww_started (snd (store_call f w)) = ww_started w" "ww_accepted (snd (store_call f w)) = ww_accepted w"
  "ww_unheard (snd (store_call f w)) = ww_unheard w"
  "ww_resets (snd (store_call f w)) = ww_resets w" "ww_cancels (snd (store_call f w)) = ww_cancels w"
  "ww_responds (snd (store_call f w)) = ww_responds w" "ww_config (snd (store_call f w)) = ww_config w"
  "ww_steps (snd (store_call f w)) = ww_steps w"
  by (cases "rw_outage (cur_step w)"; simp add: store_call_def)+

text \<open>A returned value means that the database answered and the method ran.\<close>

lemma store_call_Inr:
  "fst (store_call f w) = Inr x \<Longrightarrow> fst (f (ww_config w) (cur_step w) (cur_db w)) = Inr x \<and>
     ww_db (snd (store_call f w)) = snd (f (ww_config w) (cur_step w) (cur_db w))"
  by (cases "rw_outage (cur_step w)") (auto simp: store_call_def)

lemma cur_db_ok: "runs_ok (ww_db w) \<Longrightarrow> runs_ok (cur_db w) \<and> table_le (rd_runs (ww_db w)) (rd_runs (cur_db w))"
  unfolding cur_db_def by (rule run_all_ok)

text \<open>
  A relation between tables that commands respect, as an invariant of the calls: the table only ever
  evolves (\<open>table_le\<close>), with the logs as given.
\<close>

definition db_step :: "(run_db, 'a) act \<Rightarrow> bool" where
  "db_step m \<longleftrightarrow> (\<forall>db. runs_ok db \<longrightarrow> runs_ok (snd (m db)) \<and> table_le (rd_runs db) (rd_runs (snd (m db))))"

lemma db_step_cmd: "(\<And>db. snd (m db) = exec_run cfg c db) \<Longrightarrow> db_step m"
  by (simp add: db_step_def exec_run_ok)

lemma db_step_steps: "steps m \<Longrightarrow> db_step m"
  by (simp add: db_step_def steps_def improves_def)

lemma store_call_le:
  assumes "runs_ok (ww_db w)" and "\<And>c s. db_step (f c s)"
  shows "runs_ok (ww_db (snd (store_call f w))) \<and> table_le (rd_runs (ww_db w)) (rd_runs (ww_db (snd (store_call f w))))"
proof (cases rule: store_call_cases [of f w])
  case ran
  with assms(2) cur_db_ok [OF assms(1)] show ?thesis by (auto simp: db_step_def intro: table_le_trans)
next
  case refused
  with cur_db_ok [OF assms(1)] show ?thesis by simp
qed

text \<open>Runs that were started are in the table.\<close>

definition run_ids :: "run_db \<Rightarrow> string set" where
  "run_ids db = rr_runId ` set (rd_runs db)"

lemma table_le_ids:
  assumes "table_le (rd_runs db) (rd_runs db')"
  shows "run_ids db \<subseteq> run_ids db'"
proof
  fix k assume "k \<in> run_ids db"
  then obtain r where "r \<in> set (rd_runs db)" "k = rr_runId r" by (auto simp: run_ids_def)
  moreover from this(1) assms obtain r' where "r' \<in> set (rd_runs db')" "run_le r r'" by (auto simp: table_le_def)
  ultimately have "r' \<in> set (rd_runs db')" "k = rr_runId r'" by (auto simp: run_le_def run_ident_def)
  then show "k \<in> run_ids db'" by (auto simp: run_ids_def)
qed

definition started_ok :: "string list \<Rightarrow> run_world \<Rightarrow> bool" where
  "started_ok L w \<longleftrightarrow> runs_ok (ww_db w) \<and> ww_started w = L \<and> set L \<subseteq> run_ids (ww_db w)"

lemma started_store: "(\<And>c s. db_step (f c s)) \<Longrightarrow> keeps (started_ok L) (store_call f)"
  unfolding keeps_def started_ok_def
proof (intro allI impI)
  fix w :: run_world assume f: "\<And>c s. db_step (f c s)" and w: "runs_ok (ww_db w) \<and> ww_started w = L \<and> set L \<subseteq> run_ids (ww_db w)"
  then show "runs_ok (ww_db (snd (store_call f w))) \<and> ww_started (snd (store_call f w)) = L \<and>
      set L \<subseteq> run_ids (ww_db (snd (store_call f w)))"
    using store_call_le [of w f] table_le_ids [of "ww_db w" "ww_db (snd (store_call f w))"] by auto
qed

lemma started_runtime:
  assumes "\<And>r w. ww_started (note r w) = ww_started w" and "\<And>r w. ww_db (note r w) = ww_db w"
  shows "keeps (started_ok L) (runtime_call answer note)"
  unfolding keeps_def started_ok_def runtime_call_def
proof (intro allI impI)
  fix w :: run_world assume w: "runs_ok (ww_db w) \<and> ww_started w = L \<and> set L \<subseteq> run_ids (ww_db w)"
  then show "runs_ok (ww_db (snd (answer (cur_step w), note (answer (cur_step w)) (after_call (cur_db w) w)))) \<and>
      ww_started (snd (answer (cur_step w), note (answer (cur_step w)) (after_call (cur_db w) w))) = L \<and>
      set L \<subseteq> run_ids (ww_db (snd (answer (cur_step w), note (answer (cur_step w)) (after_call (cur_db w) w))))"
    using cur_db_ok [of w] table_le_ids [of "ww_db w" "cur_db w"] by (auto simp: assms)
qed

lemma db_steps_store:
  "db_step (attachSession k sid now)" "db_step (bindSubmissionSession k sid now)" "db_step (markCancelled k now)"
  "db_step (markCancellationRequested k now)" "db_step (markSubmissionFailed k m now)" "db_step (markRunAmbiguous k m now)"
  "db_step (updateProjection k p now)" "db_step (findOwnedRun t pr k)" "db_step (reserve cfg uuid now i)"
  using steps_methods steps_updateProjection
  by (auto intro: db_step_steps db_step_cmd [where c = "RReserve uuid now i" and cfg = cfg])

lemma started_methods:
  "keeps (started_ok L) (si_attachSession world_runs k sid)" "keeps (started_ok L) (si_findOwned world_runs t p k)"
  "keeps (started_ok L) (si_markSubmissionFailed world_runs k m)" "keeps (started_ok L) (si_markSubmissionAmbiguous world_runs k m)"
  "keeps (started_ok L) (si_markCancelled world_runs k)" "keeps (started_ok L) (si_markCancellationRequested world_runs k)"
  "keeps (started_ok L) (si_updateProjection world_runs k pj)"
  "keeps (started_ok L) (rn_reset world_rt k c sid)" "keeps (started_ok L) (rn_readEvents world_rt k c sid n l)"
  by (simp_all add: world_if_defs started_store db_steps_store started_runtime note_reset_def)

lemma started_bind: "si_bindSubmissionSession world_runs = Some b \<Longrightarrow> keeps (started_ok L) (b k sid)"
  by (auto simp: world_if_defs started_store db_steps_store)

text \<open>The world's calls meet the contract for the log of starts.\<close>

definition world_policy :: "nat \<Rightarrow> nat \<Rightarrow> run_world submission_policy" where
  "world_policy attaches cleanups = \<lparr>sp_attachAttempts = attaches, sp_cleanupAttempts = cleanups, sp_sleep = no_sleep\<rparr>"

interpretation starts: start_calls world_runs world_rt "started_ok L" "world_policy a c" for L a c
proof unfold_locales
  fix b k sid assume "si_bindSubmissionSession world_runs = Some b"
  then show "keeps (started_ok L) (b k sid)" by (rule started_bind)
qed (simp_all add: started_methods world_policy_def no_sleep_def)

subsection \<open>One submission per request\<close>

definition start_ended :: "string list \<Rightarrow> run_world \<Rightarrow> bool" where
  "start_ended L w \<longleftrightarrow> started_ok L w \<or> (\<exists>k. k \<notin> set L \<and> started_ok (L @ [k]) w)"

lemma keeps_start_ended: "keeps (started_ok L) m \<Longrightarrow> triple (started_ok L) m (\<lambda>_. started_ok L) (\<lambda>_. start_ended L)"
  by (rule tripleI) (auto dest: keepsD simp: start_ended_def)

lemma reserve_fresh:
  "triple (started_ok L) (si_reserve world_runs i)
     (\<lambda>x w. started_ok L w \<and> (\<forall>r. x = Reserved r \<longrightarrow> rr_runId r \<notin> set L \<and> rr_runId r \<in> run_ids (ww_db w))) (\<lambda>_. start_ended L)"
proof (rule tripleI)
  let ?f = "\<lambda>c s. reserve c (rw_uuid s) (rw_now s) i"
  have m: "si_reserve world_runs i = store_call ?f" by (simp add: world_runs_def)
  have keeps: "keeps (started_ok L) (si_reserve world_runs i)" unfolding m by (rule started_store) (rule db_steps_store)
  { fix w x w' assume I: "started_ok L w" and eq: "si_reserve world_runs i w = (Inr x, w')"
    have "rr_runId r \<notin> set L \<and> rr_runId r \<in> run_ids (ww_db w')" if "x = Reserved r" for r
    proof -
      have sub: "set L \<subseteq> run_ids (cur_db w)"
        using I cur_db_ok [of w] table_le_ids [of "ww_db w" "cur_db w"] by (auto simp: started_ok_def)
      have "fst (?f (ww_config w) (cur_step w) (cur_db w)) = Inr (Reserved r)"
        and db: "ww_db w' = snd (?f (ww_config w) (cur_step w) (cur_db w))"
        using store_call_Inr [of ?f w x] eq that unfolding m by simp_all
      then show ?thesis
      proof (cases rule: reserve_cases [of "ww_config w" "rw_uuid (cur_step w)" "rw_now (cur_step w)" i "cur_db w"])
        case 1
        with \<open>fst _ = _\<close> show ?thesis by simp
      next
        case 2
        with \<open>fst _ = _\<close> db have "r = new_run (rw_uuid (cur_step w)) (rw_now (cur_step w)) i"
          and "rd_runs (ww_db w') = rd_runs (cur_db w) @ [r]" by auto
        moreover from \<open>r = _\<close> 2(2) have "rr_runId r \<notin> run_ids (cur_db w)" by (auto simp: run_ids_def new_run_def)
        ultimately show ?thesis using sub by (auto simp: run_ids_def)
      qed
    qed
    with keepsD [OF keeps I eq]
    show "started_ok L w' \<and> (\<forall>r. x = Reserved r \<longrightarrow> rr_runId r \<notin> set L \<and> rr_runId r \<in> run_ids (ww_db w'))" by blast }
  fix w e w' assume "started_ok L w" and "si_reserve world_runs i w = (Inl e, w')"
  then show "start_ended L w'" using keepsD [OF keeps] by (auto simp: start_ended_def)
qed

lemma submit_ends:
  "triple (\<lambda>w. started_ok L w \<and> rr_runId r \<notin> set L \<and> rr_runId r \<in> run_ids (ww_db w))
     (submit_reserved world_runs world_rt identity (world_policy a c) request r) (\<lambda>_. start_ended L) (\<lambda>_. start_ended L)"
proof -
  let ?S = "started_ok (L @ [rr_runId r])"
  have s: "triple (\<lambda>w. started_ok L w \<and> rr_runId r \<notin> set L \<and> rr_runId r \<in> run_ids (ww_db w))
      (attempt (rn_start world_rt request (rr_runId r))) (\<lambda>_ w. ?S w \<and> rr_runId r \<notin> set L) (\<lambda>_. start_ended L)"
    using cur_db_ok table_le_ids
    by (auto simp: triple_def attempt_def world_rt_def runtime_call_def note_start_def started_ok_def) blast+
  have k: "triple (\<lambda>w. ?S w \<and> rr_runId r \<notin> set L) m (\<lambda>_. start_ended L) (\<lambda>_. start_ended L)" if "keeps ?S m" for m :: "(run_world, disposition_start \<times> run_row) act"
    by (rule tripleI) (auto dest: keepsD [OF that] simp: start_ended_def)
  show ?thesis unfolding submit_reserved_def
    by (rule triple_bind [OF s]) (rule k, rule starts.keeps_after_start)
qed

lemma start_ends:
  "triple (started_ok L) (start_in_world fp (Inr (world_policy a c)) identity request) (\<lambda>_. start_ended L) (\<lambda>_. start_ended L)"
proof -
  have v: "keeps (started_ok L) (validateParent world_runs identity request)"
    unfolding validateParent_def Let_def by (auto split: option.splits intro!: keeps_bind started_methods)
  have p: "triple (started_ok L) (lift_res (Inr (world_policy a c))) (\<lambda>x w. started_ok L w \<and> x = world_policy a c) (\<lambda>_. start_ended L)"
    by (simp add: triple_def lift_res_def)
  have r: "triple (\<lambda>w. started_ok L w \<and> (\<forall>r. x = Reserved r \<longrightarrow> rr_runId r \<notin> set L \<and> rr_runId r \<in> run_ids (ww_db w)))
     (case x of Conflicting _ \<Rightarrow> throw e1 | Capacity _ n _ m \<Rightarrow> throw (e2 n m) | Replayed r \<Rightarrow> ret (StartReplayed, r)
      | Reserved r \<Rightarrow> submit_reserved world_runs world_rt identity (world_policy a c) request r)
     (\<lambda>_. start_ended L) (\<lambda>_. start_ended L)" for x e1 e2
    by (cases x) (auto intro!: triple_ret triple_throw triple_weaken [OF submit_ends] simp: start_ended_def)
  show ?thesis unfolding start_in_world_def startAgentRun_def
  proof (rule triple_bind [OF p])
    fix x
    show "triple (\<lambda>w. started_ok L w \<and> x = world_policy a c)
      (bind_act (validateParent world_runs identity request) (\<lambda>_.
       bind_act (si_reserve world_runs (reserve_request fp identity request)) (\<lambda>reservation. case reservation of
        Conflicting _ \<Rightarrow> throw (OperationError 409 ''agent_run_idempotency_conflict''
          ''This idempotency key was already used for a different AgentRun request.'')
      | Capacity _ n _ m \<Rightarrow> throw (capacity_error n m)
      | Replayed r \<Rightarrow> ret (StartReplayed, r)
      | Reserved r \<Rightarrow> submit_reserved world_runs world_rt identity x request r)))
      (\<lambda>_. start_ended L) (\<lambda>_. start_ended L)"
    proof (cases "x = world_policy a c")
      case True
      have "triple (started_ok L) (bind_act (validateParent world_runs identity request) (\<lambda>_.
       bind_act (si_reserve world_runs (reserve_request fp identity request)) (\<lambda>reservation. case reservation of
        Conflicting _ \<Rightarrow> throw (OperationError 409 ''agent_run_idempotency_conflict''
          ''This idempotency key was already used for a different AgentRun request.'')
      | Capacity _ n _ m \<Rightarrow> throw (capacity_error n m)
      | Replayed r \<Rightarrow> ret (StartReplayed, r)
      | Reserved r \<Rightarrow> submit_reserved world_runs world_rt identity x request r)))
      (\<lambda>_. start_ended L) (\<lambda>_. start_ended L)"
        unfolding True
        by (rule triple_bind [OF keeps_start_ended [OF v]], rule triple_bind [OF reserve_fresh]) (rule r)
      then show ?thesis by (rule triple_weaken) simp_all
    next
      case False
      then show ?thesis by (simp add: triple_def)
    qed
  qed
qed

lemma distinct_append_one: "distinct xs \<Longrightarrow> k \<notin> set xs \<Longrightarrow> distinct (xs @ [k])"
  by simp

lemma length_distinct_one:
  assumes "distinct xs" and "\<And>x y. x \<in> set xs \<Longrightarrow> y \<in> set xs \<Longrightarrow> x = y"
  shows "length xs \<le> 1"
proof (rule ccontr)
  assume "\<not> length xs \<le> 1"
  then obtain x y zs where xs: "xs = x # y # zs" by (cases xs; cases "tl xs") auto
  have "x = y" by (rule assms(2)) (simp_all add: xs)
  with assms(1) show False by (simp add: xs)
qed

text \<open>Any number of start requests, whatever becomes of each.\<close>

definition start_all ::
  "(start_request \<Rightarrow> string) \<Rightarrow> run_world submission_policy \<Rightarrow> (run_identity \<times> start_request) list \<Rightarrow> run_world \<Rightarrow> run_world" where
  "start_all fp policy rs w = fold (\<lambda>(identity, request) w. snd (start_in_world fp (Inr policy) identity request w)) rs w"

lemma start_all_ok:
  "started_ok L w \<Longrightarrow> distinct L \<Longrightarrow> \<exists>L'. started_ok L' (start_all fp (world_policy a c) rs w) \<and> distinct L'"
proof (induction rs arbitrary: w L)
  case Nil
  have "start_all fp (world_policy a c) [] w = w" by (simp add: start_all_def)
  with Nil show ?case by metis
next
  case (Cons r rs)
  obtain identity request where r: "r = (identity, request)" by (cases r)
  let ?w = "snd (start_in_world fp (Inr (world_policy a c)) identity request w)"
  have "start_ended L ?w"
    by (rule triple_snd [OF start_ends Cons.prems(1)])
  then obtain L' where "started_ok L' ?w" "distinct L'"
    using Cons.prems(2) unfolding start_ended_def by (metis distinct_append_one)
  from Cons.IH [OF this] show ?case by (simp add: start_all_def r)
qed

text \<open>C2 (one_submission_per_request)
  However often start requests are repeated, with any outages and lost responses of the database, any
  answers of the runtime and any commands of other processes in between, the runtime is asked to start
  at most one session for one idempotency key of one owner.\<close>

theorem one_submission_per_request:
  assumes "runs_ok (ww_db w)" and "ww_started w = []"
  shows "length (filter (\<lambda>k. \<exists>r \<in> set (rd_runs (ww_db (start_all fp (world_policy a c) rs w))).
     rr_runId r = k \<and> request_key r = key) (ww_started (start_all fp (world_policy a c) rs w))) \<le> 1"
proof -
  let ?w = "start_all fp (world_policy a c) rs w"
  let ?P = "\<lambda>k. \<exists>r \<in> set (rd_runs (ww_db ?w)). rr_runId r = k \<and> request_key r = key"
  have "started_ok [] w" using assms by (simp add: started_ok_def)
  from start_all_ok [OF this distinct.simps(1) [THEN iffD2, OF TrueI], of fp a c rs] obtain L where L: "started_ok L ?w" "distinct L" by blast
  have d: "distinct (map request_key (rd_runs (ww_db ?w)))" using L(1) by (simp add: started_ok_def runs_ok_def)
  have "length (filter ?P L) \<le> 1"
  proof (rule length_distinct_one)
    show "distinct (filter ?P L)" using L(2) by simp
  next
    fix x y assume "x \<in> set (filter ?P L)" "y \<in> set (filter ?P L)"
    then obtain r s where "r \<in> set (rd_runs (ww_db ?w))" "s \<in> set (rd_runs (ww_db ?w))" "request_key r = request_key s"
      "x = rr_runId r" "y = rr_runId s" by auto
    with distinct_map_inj [OF d, of r s] show "x = y" by simp
  qed
  with L(1) show ?thesis by (simp add: started_ok_def)
qed

text \<open>A database that always answers and a runtime that accepts every start.\<close>

definition calm_world :: run_world where
  "calm_world = \<lparr>ww_db = empty_runs, ww_started = [], ww_accepted = [], ww_unheard = [], ww_resets = [], ww_cancels = [], ww_responds = [],
     ww_config = \<lparr>cf_maxActiveRuns = None, cf_maxActiveRunsPerTenant = None\<rparr>,
     ww_steps = (\<lambda>n. \<lparr>rw_others = [], rw_now = 10, rw_uuid = show_nat n, rw_outage = Up, rw_start = Inr ''s'', rw_heldBack = None, rw_reset = Inr (),
       rw_cancel = Inl (Error ''no''), rw_events = Inr [], rw_respond = Inr ''s''\<rparr>),
     ww_calls = 0\<rparr>"

definition demo_start :: start_request where
  "demo_start = \<lparr>sr_correlationId = ''c'', sr_idempotencyKey = ''k'', sr_metadata = None, sr_parent = None, sr_policy = None,
     sr_profile = (''general-purpose'', ''0.1.0''), sr_message = ''hello''\<rparr>"

definition demo_identity :: run_identity where
  "demo_identity = \<lparr>id_principalId = ''p'', id_tenantId = ''t''\<rparr>"

theorem one_submission_per_request_witness:
  "length (filter (\<lambda>k. \<exists>r \<in> set (rd_runs (ww_db (start_all (\<lambda>_. ''f'') (world_policy 3 3) [(demo_identity, demo_start), (demo_identity, demo_start)] calm_world))).
     rr_runId r = k \<and> request_key r = (''t'', ''p'', ''k'')) (ww_started (start_all (\<lambda>_. ''f'') (world_policy 3 3) [(demo_identity, demo_start), (demo_identity, demo_start)] calm_world))) \<le> 1"
proof (rule one_submission_per_request)
  show "runs_ok (ww_db calm_world)" by (simp add: calm_world_def empty_runs_ok)
  show "ww_started calm_world = []" by (simp add: calm_world_def)
qed

end
