(* ===== verification/Run_Safety.thy ===== *)
theory Run_Safety
  imports Run_World Run_Theorems
begin

section \<open>What the run service guarantees under outages\<close>

subsection \<open>An accepted session is never orphaned\<close>









text \<open>The logs of the accepted sessions, and those with one more acceptance that was answered.\<close>

type_synonym acceptances = "(string \<times> string) list \<times> (string \<times> string) list"

definition logs :: "run_world \<Rightarrow> acceptances" where
  "logs w = (ww_accepted w, ww_unheard w)"



lemma logs_calls [simp]: "logs (snd (store_call f w)) = logs w" "logs (after_call db w) = logs w"
  by (simp_all add: logs_def)












































end
