(* ===== verification/Patch_Text.thy ===== *)
theory Patch_Text
  imports Prelude
begin

section \<open>The patch tool: parsing and applying a patch (agent/tools/apply_patch.ts)\<close>

text \<open>
  The pure half of the tool: the parser of the Codex patch envelope, the hunk matcher, the update of a
  text and the check that anchors every path in the workspace.  A text is a \<open>string\<close>; the regular
  expressions of the source are written out as the scanners they describe.
\<close>

subsection \<open>Lines\<close>

definition LF :: char where
  "LF = CHR 0x0A"

definition CR :: char where
  "CR = CHR 0x0D"

text \<open>\<^verbatim>\<open>split\<close> with a one-character separator; the empty text has one (empty) part.\<close>

fun split_on :: "char \<Rightarrow> string \<Rightarrow> string list" where
  "split_on c [] = [[]]"
| "split_on c (x # xs) =
     (if x = c then [] # split_on c xs else (x # hd (split_on c xs)) # tl (split_on c xs))"

fun join_with :: "char \<Rightarrow> string list \<Rightarrow> string" where
  "join_with c [] = []"
| "join_with c [l] = l"
| "join_with c (l # m # ls) = l @ c # join_with c (m # ls)"

text \<open>\<^verbatim>\<open>replace(/\r\n/gu, "\n").replace(/\r/gu, "\n")\<close>.\<close>

fun crlf_to_lf :: "string \<Rightarrow> string" where
  "crlf_to_lf [] = []"
| "crlf_to_lf [c] = [c]"
| "crlf_to_lf (c # d # s) = (if c = CR \<and> d = LF then LF # crlf_to_lf s else c # crlf_to_lf (d # s))"

definition normalize_newlines :: "string \<Rightarrow> string" where
  "normalize_newlines s = map (\<lambda>c. if c = CR then LF else c) (crlf_to_lf s)"

definition ends_with_newline :: "string \<Rightarrow> bool" where
  "ends_with_newline s \<longleftrightarrow> s \<noteq> [] \<and> last s = LF"

definition countLines :: "string \<Rightarrow> nat" where
  "countLines value =
     (if value = [] then 0
      else let normalized = normalize_newlines value
        in if ends_with_newline normalized then length (split_on LF (butlast normalized))
           else length (split_on LF normalized))"

subsection \<open>The data of a patch\<close>

datatype change_kind = AddChange | UpdateChange | DeleteChange | MoveChange

record file_change =
  fc_addedLines :: nat
  fc_deletedLines :: nat
  fc_kind :: change_kind
  fc_path :: string

record patch_header =
  ph_oldStart :: "nat option"
  ph_oldCount :: "nat option"
  ph_newStart :: "nat option"
  ph_newCount :: "nat option"

record patch_hunk = patch_header +
  hk_lines :: "string list"

datatype patch_operation =
    AddFile string string
  | DeleteFile string
  | UpdateFile string "string option" "patch_hunk list"

subsection \<open>parsePatch\<close>

text \<open>
  \<^verbatim>\<open>/^prefix\s*(.+?)\s*$/\<close> on a line: the rest of the line without the white space around it; of a
  rest that is all white space, its last character.
\<close>

definition directive :: "string \<Rightarrow> string \<Rightarrow> string option" where
  "directive prefix line =
     (if \<not> starts_with prefix line then None
      else let rest = drop (length prefix) line
        in if rest = [] then None
           else if js_trim rest = [] then Some [last rest] else Some (js_trim rest))"

definition is_directive :: "string \<Rightarrow> bool" where
  "is_directive line \<longleftrightarrow> starts_with ''*** '' line"

fun add_body :: "string \<Rightarrow> string list \<Rightarrow> (string list \<times> string list) res" where
  "add_body path [] = Inr ([], [])"
| "add_body path (l # ls) =
     (if is_directive l then Inr ([], l # ls)
      else if \<not> starts_with ''+'' l
      then Inl (Error (''Add File '' @ path @ '' contains a non-addition line.''))
      else map_sum id (\<lambda>(body, rest). (drop 1 l # body, rest)) (add_body path ls))"

definition added_content :: "string list \<Rightarrow> string" where
  "added_content body = (if body = [] then [] else join_with LF body @ [LF])"

text \<open>One optional range of a hunk header, \<^verbatim>\<open>(?: -(\d+)(?:,(\d+))?)?\<close>.\<close>

fun digits_value :: "nat \<Rightarrow> string \<Rightarrow> nat" where
  "digits_value n [] = n"
| "digits_value n (c # cs) = digits_value (10 * n + (of_char c - 48)) cs"

definition range_count :: "string \<Rightarrow> nat \<times> string" where
  "range_count s =
     (if starts_with '','' s \<and> takeWhile is_digit (drop 1 s) \<noteq> []
      then (digits_value 0 (takeWhile is_digit (drop 1 s)), dropWhile is_digit (drop 1 s))
      else (1, s))"

definition header_range :: "char \<Rightarrow> string \<Rightarrow> (nat \<times> nat) option \<times> string" where
  "header_range sign s =
     (if starts_with [CHR '' '', sign] s \<and> takeWhile is_digit (drop 2 s) \<noteq> []
      then (case range_count (dropWhile is_digit (drop 2 s)) of
          (count, rest) \<Rightarrow> (Some (digits_value 0 (takeWhile is_digit (drop 2 s)), count), rest))
      else (None, s))"

definition empty_header :: patch_header where
  "empty_header = \<lparr>ph_oldStart = None, ph_oldCount = None, ph_newStart = None, ph_newCount = None\<rparr>"

definition header_of :: "(nat \<times> nat) option \<Rightarrow> (nat \<times> nat) option \<Rightarrow> patch_header" where
  "header_of old new = \<lparr>ph_oldStart = map_option fst old, ph_oldCount = map_option snd old,
     ph_newStart = map_option fst new, ph_newCount = map_option snd new\<rparr>"

definition parseHunkHeader :: "string \<Rightarrow> string \<Rightarrow> patch_header res" where
  "parseHunkHeader line path =
     (if js_trim line = ''@@'' then Inr empty_header
      else case header_range (CHR ''-'') (drop 2 line) of (old, rest) \<Rightarrow>
        (case header_range (CHR ''+'') rest of (new, rest') \<Rightarrow>
          if starts_with ''@@'' line \<and> starts_with '' @@'' rest' \<and> (drop 3 rest' = [] \<or> starts_with '' '' (drop 3 rest'))
          then Inr (header_of old new)
          else Inl (Error (''Update File '' @ path @ '' contains an invalid hunk header: '' @ line))))"

definition is_hunk_line :: "string \<Rightarrow> bool" where
  "is_hunk_line line \<longleftrightarrow> line \<noteq> [] \<and> hd line \<in> {CHR '' '', CHR ''+'', CHR ''-''}"

definition make_hunk :: "patch_header \<Rightarrow> string list \<Rightarrow> patch_hunk" where
  "make_hunk h ls = patch_header.extend h \<lparr>hk_lines = ls\<rparr>"

text \<open>The loop of \<^verbatim>\<open>parseHunks\<close> with its variables \<^verbatim>\<open>currentHeader\<close> and \<^verbatim>\<open>currentLines\<close>.\<close>

fun hunk_loop :: "string \<Rightarrow> string list \<Rightarrow> patch_header \<Rightarrow> string list \<Rightarrow> patch_hunk list res" where
  "hunk_loop path [] header current =
     (if current = [] then Inl (Error (''Update File '' @ path @ '' contains an empty hunk.''))
      else Inr [make_hunk header current])"
| "hunk_loop path (l # ls) header current =
     (if starts_with ''@@'' l
      then (case parseHunkHeader l path of
          Inl e \<Rightarrow> Inl e
        | Inr header' \<Rightarrow>
            if current = [] then hunk_loop path ls header' []
            else map_sum id (Cons (make_hunk header current)) (hunk_loop path ls header' []))
      else if \<not> is_hunk_line l
      then Inl (Error (''Update File '' @ path @ '' contains an invalid hunk line: '' @ l))
      else hunk_loop path ls header (current @ [l]))"

definition parseHunks :: "string list \<Rightarrow> string \<Rightarrow> patch_hunk list res" where
  "parseHunks ls path =
     (if ls = [] then Inl (Error (''Update File '' @ path @ '' has no hunks.''))
      else hunk_loop path ls empty_header [])"

definition move_target :: "string list \<Rightarrow> string option \<times> string list" where
  "move_target ls =
     (case ls of
        [] \<Rightarrow> (None, [])
      | l # rest \<Rightarrow> (case directive ''*** Move to:'' l of None \<Rightarrow> (None, ls) | Some target \<Rightarrow> (Some target, rest)))"

lemma add_body_shorter: "add_body path ls = Inr (body, rest) \<Longrightarrow> length rest \<le> length ls"
  by (induction ls arbitrary: body)
    (auto split: if_splits elim!: le_SucI simp: map_sum_def split: sum.splits prod.splits)

lemma move_target_shorter: "length (snd (move_target ls)) \<le> length ls"
  by (simp add: move_target_def split: list.split option.split)

lemma move_target_rest:
  assumes "(t, rest) = move_target ls"
  shows "length (dropWhile P rest) < Suc (length ls)"
  using move_target_shorter [of ls] length_dropWhile_le [of P rest] assms [symmetric] by simp

lemma add_body_rest: "add_body path ls = Inr x \<Longrightarrow> (body, rest) = x \<Longrightarrow> length rest < Suc (length ls)"
  using add_body_shorter [of path ls body rest] by simp

text \<open>The loop over the lines of the envelope.\<close>

function parse_operations :: "string list \<Rightarrow> patch_operation list res" where
  "parse_operations [] = Inr []"
| "parse_operations (l # ls) =
     (if js_trim l = [] then parse_operations ls
      else case directive ''*** Add File:'' l of
        Some path \<Rightarrow> (case add_body path ls of
            Inl e \<Rightarrow> Inl e
          | Inr (body, rest) \<Rightarrow> map_sum id (Cons (AddFile path (added_content body))) (parse_operations rest))
      | None \<Rightarrow> (case directive ''*** Delete File:'' l of
        Some path \<Rightarrow> map_sum id (Cons (DeleteFile path)) (parse_operations ls)
      | None \<Rightarrow> (case directive ''*** Update File:'' l of
        Some path \<Rightarrow> (case move_target ls of (moveTo, rest) \<Rightarrow>
          (case parseHunks (takeWhile (\<lambda>x. \<not> is_directive x) rest) path of
            Inl e \<Rightarrow> Inl e
          | Inr hunks \<Rightarrow> map_sum id (Cons (UpdateFile path moveTo hunks))
              (parse_operations (dropWhile (\<lambda>x. \<not> is_directive x) rest))))
      | None \<Rightarrow> Inl (Error (''Unsupported patch directive: '' @ l)))))"
  by pat_completeness auto
termination
  by (relation "measure length") (simp_all add: move_target_rest add_body_rest)

definition parsePatch :: "string \<Rightarrow> patch_operation list res" where
  "parsePatch value =
     (let ls = split_on LF (normalize_newlines value);
          is_begin = (\<lambda>l. js_trim l = ''*** Begin Patch'');
          is_end = (\<lambda>l. js_trim l = ''*** End Patch'');
          no_envelope = Inl (Error ''Patch must contain *** Begin Patch and *** End Patch.'')
      in case dropWhile (\<lambda>l. \<not> is_begin l) ls of
           [] \<Rightarrow> no_envelope
         | _ # rest \<Rightarrow> (case dropWhile (\<lambda>l. \<not> is_end l) rest of
             [] \<Rightarrow> no_envelope
           | _ # after \<Rightarrow>
               if \<not> list_all (\<lambda>l. js_trim l = []) (takeWhile (\<lambda>l. \<not> is_begin l) ls) \<or> \<not> list_all (\<lambda>l. js_trim l = []) after
               then Inl (Error ''Patch contains content outside its Begin/End envelope.'')
               else (case parse_operations (takeWhile (\<lambda>l. \<not> is_end l) rest) of
                   Inl e \<Rightarrow> Inl e
                 | Inr [] \<Rightarrow> Inl (Error ''The patch did not contain a file operation.'')
                 | Inr ops \<Rightarrow> Inr ops)))"

subsection \<open>Applying hunks\<close>

definition occurrences :: "string list \<Rightarrow> string list \<Rightarrow> nat list" where
  "occurrences ls old = filter (\<lambda>i. take (length old) (drop i ls) = old) [0..<Suc (length ls) - length old]"

definition locateHunk :: "string list \<Rightarrow> string list \<Rightarrow> nat option \<Rightarrow> nat res" where
  "locateHunk ls old hint =
     (if old = []
      then let at_line = (case hint of None \<Rightarrow> length ls | Some h \<Rightarrow> h)
        in if at_line > length ls then Inl (Error ''The patch insertion point is outside the current file.'')
           else Inr at_line
      else case occurrences ls old of
        [] \<Rightarrow> Inl (Error ''The patch context does not match the current file.'')
      | m # ms \<Rightarrow>
          (case hint of
             Some h \<Rightarrow> if h \<in> set (m # ms) then Inr h
                       else if ms \<noteq> [] then Inl (Error ''The patch context is ambiguous; include a more specific hunk or line header.'')
                       else Inr m
           | None \<Rightarrow> if ms \<noteq> [] then Inl (Error ''The patch context is ambiguous; include a more specific hunk or line header.'')
                     else Inr m))"

definition old_lines :: "string list \<Rightarrow> string list" where
  "old_lines ls = map (drop 1) (filter (\<lambda>l. starts_with '' '' l \<or> starts_with ''-'' l) ls)"

definition new_lines :: "string list \<Rightarrow> string list" where
  "new_lines ls = map (drop 1) (filter (\<lambda>l. starts_with '' '' l \<or> starts_with ''+'' l) ls)"

definition added_lines :: "string list \<Rightarrow> nat" where
  "added_lines ls = length (filter (starts_with ''+'') ls)"

definition deleted_lines :: "string list \<Rightarrow> nat" where
  "deleted_lines ls = length (filter (starts_with ''-'') ls)"

definition insertion_hint :: "patch_hunk \<Rightarrow> nat option" where
  "insertion_hint h =
     (case (case ph_oldStart h of None \<Rightarrow> ph_newStart h | Some n \<Rightarrow> Some n) of
        None \<Rightarrow> None
      | Some n \<Rightarrow> Some (if n = 0 then 0 else n - 1))"

text \<open>\<^verbatim>\<open>splice\<close>.\<close>

definition splice :: "nat \<Rightarrow> nat \<Rightarrow> 'a list \<Rightarrow> 'a list \<Rightarrow> 'a list" where
  "splice i n new xs = take i xs @ new @ drop (i + n) xs"

definition apply_hunk :: "patch_hunk \<Rightarrow> string list \<Rightarrow> string list res" where
  "apply_hunk h target =
     map_sum id (\<lambda>i. splice i (length (old_lines (hk_lines h))) (new_lines (hk_lines h)) target)
       (locateHunk target (old_lines (hk_lines h)) (insertion_hint h))"

fun apply_hunks :: "patch_hunk list \<Rightarrow> string list \<Rightarrow> string list res" where
  "apply_hunks [] target = Inr target"
| "apply_hunks (h # hs) target = (case apply_hunk h target of Inl e \<Rightarrow> Inl e | Inr target' \<Rightarrow> apply_hunks hs target')"

record applied_update =
  au_content :: string
  au_addedLines :: nat
  au_deletedLines :: nat

definition text_body :: "string \<Rightarrow> string" where
  "text_body s = (if ends_with_newline s then butlast s else s)"

definition body_lines :: "string \<Rightarrow> string list" where
  "body_lines body = (if body = [] then [] else split_on LF body)"

definition applyUpdateText :: "string \<Rightarrow> patch_hunk list \<Rightarrow> applied_update res" where
  "applyUpdateText current hunks =
     (let normalized = normalize_newlines current;
          trailingNewline = ends_with_newline normalized;
          body = text_body normalized
      in map_sum id (\<lambda>target.
           \<lparr>au_content = join_with LF target @
              (if (trailingNewline \<or> (target \<noteq> [] \<and> body = [])) \<and> target \<noteq> [] then [LF] else []),
            au_addedLines = (\<Sum>h \<leftarrow> hunks. added_lines (hk_lines h)),
            au_deletedLines = (\<Sum>h \<leftarrow> hunks. deleted_lines (hk_lines h))\<rparr>)
         (apply_hunks hunks (body_lines body)))"

subsection \<open>workspacePath\<close>

definition WORKSPACE :: string where
  "WORKSPACE = ''/workspace/''"

definition bad_segment :: "string \<Rightarrow> bool" where
  "bad_segment part \<longleftrightarrow> part = [] \<or> part = ''.'' \<or> part = ''..''"

definition workspacePath :: "string \<Rightarrow> string res" where
  "workspacePath value =
     (let path = (if starts_with ''/'' value then value else WORKSPACE @ value);
          relative = drop (length WORKSPACE) path
      in if relative = [] \<or> \<not> starts_with WORKSPACE path \<or> CHR 0x5C \<in> set path \<or> CHR 0x00 \<in> set path \<or>
            list_ex bad_segment (split_on (CHR ''/'') relative)
         then Inl (Error ''Patch paths must stay inside /workspace and cannot contain traversal or empty segments.'')
         else Inr path)"

text \<open>\<^verbatim>\<open>'${value.replace(/'/gu, `'\\''`)}'\<close>.\<close>

definition QUOTE :: char where
  "QUOTE = CHR 0x27"

definition shellQuote :: "string \<Rightarrow> string" where
  "shellQuote value =
     QUOTE # concat (map (\<lambda>c. if c = QUOTE then [QUOTE, CHR 0x5C, QUOTE, QUOTE] else [c]) value) @ [QUOTE]"

end
