(* ===== verification/Patch_Theorems.thy ===== *)
theory Patch_Theorems
  imports Patch_Text
begin

section \<open>The properties of patch texts\<close>

subsection \<open>Lines\<close>

lemma split_on_nonempty [simp]: "split_on c s \<noteq> []" "[] \<noteq> split_on c s"
  by (induction s) auto

lemma join_Cons_char: "ls \<noteq> [] \<Longrightarrow> join_with c ((x # l) # ls) = x # join_with c (l # ls)"
  by (cases ls) auto

lemma join_Cons_nonempty: "ls \<noteq> [] \<Longrightarrow> join_with c (l # ls) = l @ c # join_with c ls"
  by (cases ls) auto

lemma join_split [simp]: "join_with c (split_on c s) = s"
proof (induction s)
  case (Cons x s)
  show ?case
  proof (cases "x = c")
    case True
    with Cons show ?thesis by (simp add: join_Cons_nonempty)
  next
    case False
    obtain l ls where s: "split_on c s = l # ls" by (cases "split_on c s") auto
    with False Cons show ?thesis by (cases ls) auto
  qed
qed simp

lemma split_no_sep: "c \<notin> set l \<Longrightarrow> split_on c l = [l]"
  by (induction l) auto

lemma split_append: "c \<notin> set l \<Longrightarrow> split_on c (l @ c # s) = l # split_on c s"
  by (induction l) auto

lemma split_join: "ls \<noteq> [] \<Longrightarrow> list_all (\<lambda>l. c \<notin> set l) ls \<Longrightarrow> split_on c (join_with c ls) = ls"
  by (induction c ls rule: join_with.induct) (auto simp: split_no_sep split_append)

lemma split_no_sep_in: "l \<in> set (split_on c s) \<Longrightarrow> c \<notin> set l"
proof (induction s arbitrary: l)
  case (Cons x s)
  obtain m ms where s: "split_on c s = m # ms" by (cases "split_on c s") auto
  with Cons show ?case by (auto split: if_splits)
qed simp

lemma split_on_chars: "l \<in> set (split_on c s) \<Longrightarrow> set l \<subseteq> set s"
proof (induction s arbitrary: l)
  case (Cons x s)
  obtain m ms where s: "split_on c s = m # ms" by (cases "split_on c s") auto
  with Cons.prems Cons.IH [of m] Cons.IH [of l] show ?case by (auto split: if_splits)
qed simp

text \<open>Text without carriage returns is normal.\<close>

lemma crlf_id: "CR \<notin> set s \<Longrightarrow> crlf_to_lf s = s"
  by (induction s rule: crlf_to_lf.induct) auto

lemma normalize_id: "CR \<notin> set s \<Longrightarrow> normalize_newlines s = s"
  unfolding normalize_newlines_def by (simp add: crlf_id, rule map_idI) auto

lemma LF_CR [simp]: "LF \<noteq> CR" "CR \<noteq> LF"
  by (simp_all add: LF_def CR_def)

lemma normalize_no_CR [simp]: "CR \<notin> set (normalize_newlines s)"
  by (auto simp: normalize_newlines_def)

subsection \<open>Hunks\<close>

lemma in_occurrences:
  "i \<in> set (occurrences ls old) \<longleftrightarrow> (\<exists>pre post. ls = pre @ old @ post \<and> length pre = i)"
proof
  assume "i \<in> set (occurrences ls old)"
  then have i: "i < Suc (length ls) - length old" and m: "take (length old) (drop i ls) = old"
    by (auto simp: occurrences_def)
  have "ls = take i ls @ take (length old) (drop i ls) @ drop (length old) (drop i ls)"
    by (simp only: append_take_drop_id)
  then have "ls = take i ls @ old @ drop (length old) (drop i ls)" unfolding m .
  moreover have "length (take i ls) = i" using i by simp
  ultimately show "\<exists>pre post. ls = pre @ old @ post \<and> length pre = i" by blast
next
  assume "\<exists>pre post. ls = pre @ old @ post \<and> length pre = i"
  then show "i \<in> set (occurrences ls old)" by (auto simp: occurrences_def)
qed

lemma distinct_occurrences: "distinct (occurrences ls old)"
  by (simp add: occurrences_def)

lemma locate_in_range:
  assumes "locateHunk ls old hint = Inr i"
  shows "\<exists>pre post. ls = pre @ old @ post \<and> length pre = i"
proof (cases "old = []")
  case True
  with assms have "i \<le> length ls" by (auto simp: locateHunk_def Let_def split: if_splits)
  then have "ls = take i ls @ [] @ drop i ls \<and> length (take i ls) = i" by simp
  with True show ?thesis by blast
next
  case False
  with assms have "i \<in> set (occurrences ls old)"
    by (auto simp: locateHunk_def split: list.splits option.splits if_splits)
  then show ?thesis by (simp add: in_occurrences)
qed

lemma locate_unique:
  assumes "locateHunk ls old hint = Inr i" and "old \<noteq> []" and "hint \<noteq> Some i"
    and "ls = pre @ old @ post"
  shows "length pre = i"
proof -
  from assms(1,2,3) have "occurrences ls old = [i]"
    by (auto simp: locateHunk_def split: list.splits option.splits if_splits)
  moreover have "length pre \<in> set (occurrences ls old)" using assms(4) by (auto simp: in_occurrences)
  ultimately show ?thesis by simp
qed

text \<open>Remark (hunk_replaces_its_context)
  A hunk that applies replaces exactly one occurrence of its old lines by its new lines and leaves the
  lines before and after alone; and the place is the one its header names, or, for a hunk with context,
  the only one where the context occurs.\<close>

theorem hunk_replaces_its_context:
  assumes "apply_hunk h target = Inr target'"
  shows "\<exists>pre post. target = pre @ old_lines (hk_lines h) @ post \<and> target' = pre @ new_lines (hk_lines h) @ post \<and>
    (insertion_hint h = Some (length pre) \<or>
     (if old_lines (hk_lines h) = [] then post = []
      else \<forall>pre' post'. target = pre' @ old_lines (hk_lines h) @ post' \<longrightarrow> pre' = pre))"
proof -
  let ?old = "old_lines (hk_lines h)"
  from assms obtain i where loc: "locateHunk target ?old (insertion_hint h) = Inr i"
    and t': "target' = splice i (length ?old) (new_lines (hk_lines h)) target"
    by (auto simp: apply_hunk_def map_sum_def split: sum.splits)
  from locate_in_range [OF loc] obtain pre post where split: "target = pre @ ?old @ post" "length pre = i" by blast
  then have "target' = pre @ new_lines (hk_lines h) @ post" by (simp add: t' splice_def)
  moreover have "insertion_hint h = Some (length pre) \<or>
     (if ?old = [] then post = [] else \<forall>pre' post'. target = pre' @ ?old @ post' \<longrightarrow> pre' = pre)"
  proof (cases "insertion_hint h = Some i")
    case True
    with split show ?thesis by simp
  next
    case False
    have "pre' = pre" if "?old \<noteq> []" "target = pre' @ ?old @ post'" for pre' post'
    proof -
      have "length pre' = length pre" using locate_unique [OF loc that(1) False that(2)] split(2) by simp
      with split(1) that(2) show ?thesis by (metis append_eq_append_conv)
    qed
    moreover have "post = []" if "?old = []"
      using loc that split False by (auto simp: locateHunk_def Let_def split: if_splits option.splits)
    ultimately show ?thesis by simp
  qed
  ultimately show ?thesis using split(1) by blast
qed

definition demo_hunk :: patch_hunk where
  "demo_hunk = make_hunk empty_header ['' a'', ''-b'', ''+c'']"

lemma demo_hunk_lines: "hk_lines demo_hunk = ['' a'', ''-b'', ''+c'']" "insertion_hint demo_hunk = None"
  by (simp_all add: demo_hunk_def make_hunk_def empty_header_def insertion_hint_def patch_header.defs patch_hunk.defs)

lemma demo_hunk_applies: "apply_hunk demo_hunk [''x'', ''a'', ''b''] = Inr [''x'', ''a'', ''c'']"
  by (simp add: apply_hunk_def demo_hunk_lines old_lines_def new_lines_def starts_with_def locateHunk_def occurrences_def
      splice_def upt_rec)

theorem hunk_replaces_its_context_witness:
  "\<exists>pre post. [''x'', ''a'', ''b''] = pre @ [''a'', ''b''] @ post \<and> [''x'', ''a'', ''c''] = pre @ [''a'', ''c''] @ post"
  using hunk_replaces_its_context [OF demo_hunk_applies]
  by (simp add: demo_hunk_lines old_lines_def new_lines_def starts_with_def) blast

text \<open>The counters of an update are the change in the number of lines.\<close>

lemma hunk_length:
  assumes "list_all is_hunk_line ls"
  shows "length (new_lines ls) + deleted_lines ls = length (old_lines ls) + added_lines ls"
  using assms
proof (induction ls)
  case (Cons l ls)
  then obtain c l' where l: "l = c # l'" "c \<in> {CHR '' '', CHR ''+'', CHR ''-''}" by (cases l) (auto simp: is_hunk_line_def)
  with Cons show ?case by (auto simp: old_lines_def new_lines_def added_lines_def deleted_lines_def starts_with_def)
qed (simp add: old_lines_def new_lines_def added_lines_def deleted_lines_def)

lemma apply_hunk_length:
  assumes "apply_hunk h target = Inr target'" and "list_all is_hunk_line (hk_lines h)"
  shows "length target' + deleted_lines (hk_lines h) = length target + added_lines (hk_lines h)"
proof -
  from assms(1) obtain i where "locateHunk target (old_lines (hk_lines h)) (insertion_hint h) = Inr i"
    and t': "target' = splice i (length (old_lines (hk_lines h))) (new_lines (hk_lines h)) target"
    by (auto simp: apply_hunk_def map_sum_def split: sum.splits)
  from locate_in_range [OF this(1)] obtain pre post where "target = pre @ old_lines (hk_lines h) @ post" "length pre = i" by blast
  with hunk_length [OF assms(2)] show ?thesis by (simp add: t' splice_def)
qed

lemma apply_hunks_length:
  assumes "apply_hunks hs target = Inr target'" and "list_all (\<lambda>h. list_all is_hunk_line (hk_lines h)) hs"
  shows "length target' + (\<Sum>h \<leftarrow> hs. deleted_lines (hk_lines h)) = length target + (\<Sum>h \<leftarrow> hs. added_lines (hk_lines h))"
  using assms
proof (induction hs arbitrary: target)
  case (Cons h hs)
  from Cons.prems obtain t where t: "apply_hunk h target = Inr t" "apply_hunks hs t = Inr target'"
    by (auto split: sum.splits)
  from Cons.prems(2) have "list_all is_hunk_line (hk_lines h)" "list_all (\<lambda>h. list_all is_hunk_line (hk_lines h)) hs" by simp_all
  with apply_hunk_length [OF t(1)] Cons.IH [OF t(2)] show ?case by simp
qed simp

subsection \<open>Updates\<close>

definition file_lines :: "string \<Rightarrow> string list" where
  "file_lines s = body_lines (text_body (normalize_newlines s))"

definition plain_hunk :: "patch_hunk \<Rightarrow> bool" where
  "plain_hunk h \<longleftrightarrow> hk_lines h \<noteq> [] \<and> list_all (\<lambda>l. is_hunk_line l \<and> LF \<notin> set l \<and> CR \<notin> set l) (hk_lines h)"

definition plain_line :: "string \<Rightarrow> bool" where
  "plain_line l \<longleftrightarrow> LF \<notin> set l \<and> CR \<notin> set l"

lemma butlast_last_LF: "ends_with_newline s \<Longrightarrow> s = butlast s @ [LF]"
  by (metis append_butlast_last_id ends_with_newline_def)

lemma set_join: "x \<in> set (join_with c ls) \<Longrightarrow> x = c \<or> (\<exists>l \<in> set ls. x \<in> set l)"
  by (induction c ls rule: join_with.induct) auto

lemma file_lines_plain: "list_all plain_line (file_lines s)"
proof -
  have "CR \<notin> set (text_body (normalize_newlines s))"
    using normalize_no_CR [of s] by (auto simp: text_body_def dest: in_set_butlastD)
  then show ?thesis
    using split_on_chars by (fastforce simp: file_lines_def body_lines_def list_all_iff plain_line_def dest: split_no_sep_in)
qed

lemma plain_new_lines: "plain_hunk h \<Longrightarrow> list_all plain_line (new_lines (hk_lines h))"
  by (auto simp: plain_hunk_def list_all_iff new_lines_def plain_line_def dest: in_set_dropD)

lemma apply_hunk_plain:
  assumes "apply_hunk h target = Inr target'" and "plain_hunk h" and "list_all plain_line target"
  shows "list_all plain_line target'"
proof -
  from assms(1) obtain i where "target' = splice i (length (old_lines (hk_lines h))) (new_lines (hk_lines h)) target"
    by (auto simp: apply_hunk_def map_sum_def split: sum.splits)
  with plain_new_lines [OF assms(2)] assms(3) show ?thesis
    by (auto simp: splice_def list_all_iff dest: in_set_takeD in_set_dropD)
qed

lemma apply_hunks_plain:
  "apply_hunks hs target = Inr target' \<Longrightarrow> list_all plain_hunk hs \<Longrightarrow> list_all plain_line target \<Longrightarrow> list_all plain_line target'"
  by (induction hs arbitrary: target) (auto split: sum.splits dest: apply_hunk_plain)

lemma last_join: "ls \<noteq> [] \<Longrightarrow> last ls \<noteq> [] \<Longrightarrow> join_with c ls \<noteq> [] \<and> last (join_with c ls) = last (last ls)"
  by (induction c ls rule: join_with.induct) auto

lemma file_lines_Nil [simp]: "file_lines [] = []"
  by (simp add: file_lines_def normalize_newlines_def text_body_def ends_with_newline_def body_lines_def)

lemma content_lines:
  assumes "list_all plain_line target" and "target \<noteq> [[]]"
  shows "file_lines (join_with LF target @ (if b \<and> target \<noteq> [] then [LF] else [])) = target \<or>
    (\<not> b \<and> last target = [])"
proof (cases "target = []")
  case True
  then show ?thesis by (simp add: file_lines_def normalize_newlines_def text_body_def ends_with_newline_def body_lines_def)
next
  case False
  let ?j = "join_with LF target"
  have cr: "CR \<notin> set (?j @ [LF])" "CR \<notin> set ?j"
    using assms(1) set_join [of CR LF target] by (auto simp: list_all_iff plain_line_def)
  have sp: "split_on LF ?j = target"
    using False assms(1) by (intro split_join) (auto simp: list_all_iff plain_line_def)
  have ne: "?j \<noteq> []" using False assms(2) sp by (cases "?j = []") auto
  have nl: "\<not> ends_with_newline ?j" if "last target \<noteq> []"
  proof
    assume "ends_with_newline ?j"
    moreover have "last ?j = last (last target)" using last_join [OF False that] by simp
    ultimately have "LF \<in> set (last target)" using that by (metis ends_with_newline_def last_in_set)
    with assms(1) False show False by (auto simp: list_all_iff plain_line_def)
  qed
  show ?thesis
  proof (cases b)
    case True
    have "file_lines (?j @ [LF]) = target"
      using ne sp by (simp only: file_lines_def normalize_id [OF cr(1)])
        (simp add: text_body_def ends_with_newline_def body_lines_def)
    with True False show ?thesis by simp
  next
    case b: False
    show ?thesis
    proof (cases "last target = []")
      case False
      have "file_lines ?j = target"
        using nl [OF False] ne sp by (simp only: file_lines_def normalize_id [OF cr(2)])
          (simp add: text_body_def body_lines_def)
      with b show ?thesis by simp
    qed (use b in simp)
  qed
qed

text \<open>Remark (update_rewrites_the_lines)
  An update applies its hunks to the lines of the file in order, its counters are exact, and the text
  it returns has the resulting lines - with a final newline when the old text had one - except where
  a final empty line meets a text that ends without a newline.\<close>

theorem update_rewrites_the_lines:
  assumes "applyUpdateText current hunks = Inr u" and "list_all plain_hunk hunks"
  shows "\<exists>ls. apply_hunks hunks (file_lines current) = Inr ls \<and>
    length ls + au_deletedLines u = length (file_lines current) + au_addedLines u \<and>
    (ends_with_newline (normalize_newlines current) \<and> ls \<noteq> [] \<longrightarrow> ends_with_newline (au_content u)) \<and>
    (ls = [] \<or> last ls \<noteq> [] \<or> (ends_with_newline (normalize_newlines current) \<and> ls \<noteq> [[]]) \<longrightarrow> file_lines (au_content u) = ls)"
proof -
  let ?b = "ends_with_newline (normalize_newlines current)" and ?body = "text_body (normalize_newlines current)"
  from assms(1) obtain ls where ls: "apply_hunks hunks (file_lines current) = Inr ls"
    and u: "u = \<lparr>au_content = join_with LF ls @ (if (?b \<or> (ls \<noteq> [] \<and> ?body = [])) \<and> ls \<noteq> [] then [LF] else []),
        au_addedLines = (\<Sum>h \<leftarrow> hunks. added_lines (hk_lines h)), au_deletedLines = (\<Sum>h \<leftarrow> hunks. deleted_lines (hk_lines h))\<rparr>"
    by (auto simp: applyUpdateText_def Let_def file_lines_def map_sum_def split: sum.splits)
  have pl: "list_all plain_line ls" by (rule apply_hunks_plain [OF ls assms(2) file_lines_plain])
  have "list_all (\<lambda>h. list_all is_hunk_line (hk_lines h)) hunks"
    using assms(2) by (auto simp: list_all_iff plain_hunk_def)
  from apply_hunks_length [OF ls this]
  have len: "length ls + au_deletedLines u = length (file_lines current) + au_addedLines u" by (simp add: u)
  have "file_lines (au_content u) = ls" if c: "ls = [] \<or> last ls \<noteq> [] \<or> (?b \<and> ls \<noteq> [[]])"
  proof -
    have "ls \<noteq> [[]]" using c by auto
    from content_lines [OF pl this, of "?b \<or> (ls \<noteq> [] \<and> ?body = [])"] c show ?thesis by (auto simp: u)
  qed
  with ls len show ?thesis by (simp add: u ends_with_newline_def)
qed

lemma demo_update:
  "applyUpdateText ''ab'' [make_hunk empty_header [''-ab'', ''+c'']] = Inr \<lparr>au_content = ''c'', au_addedLines = 1, au_deletedLines = 1\<rparr>"
  by code_simp

lemma demo_update_plain: "list_all plain_hunk [make_hunk empty_header [''-ab'', ''+c'']]"
  by (simp add: plain_hunk_def make_hunk_def patch_header.defs patch_hunk.defs is_hunk_line_def LF_def CR_def)

theorem update_rewrites_the_lines_witness: "file_lines ''c'' = [''c''] \<and> length (file_lines ''ab'') = 1"
proof -
  have "apply_hunks [make_hunk empty_header [''-ab'', ''+c'']] (file_lines ''ab'') = Inr [''c'']"
    by code_simp
  with update_rewrites_the_lines [OF demo_update demo_update_plain] show ?thesis by simp
qed

text \<open>Remark (blank_line_is_lost)
  A file that is one empty line counts as having no line at all: its own context does not match, and
  an insertion drops the empty line without counting a deletion.\<close>

theorem blank_line_is_lost:
  "applyUpdateText [LF] [make_hunk empty_header ['' '', ''+x'']] = Inl (Error ''The patch context does not match the current file.'') \<and>
   applyUpdateText [LF] [make_hunk empty_header [''+x'']] = Inr \<lparr>au_content = [CHR ''x'', LF], au_addedLines = 1, au_deletedLines = 0\<rparr> \<and>
   countLines [LF] = 1 \<and> countLines [CHR ''x'', LF] = 1"
  by code_simp

end
