(* ===== verification/Patch_Roundtrip.thy ===== *)
theory Patch_Roundtrip
  imports Patch_Theorems
begin

section \<open>Printing and parsing a patch; paths and shell words\<close>

text \<open>
  A printer of patches, the specification of what the model is asked to write, and the proof that the
  parser reads back what it prints.  Then the two guards that face the sandbox: every accepted path
  stays in the workspace, and a quoted argument is one shell word.
\<close>

subsection \<open>A printer\<close>

definition print_range :: "char \<Rightarrow> nat option \<Rightarrow> nat option \<Rightarrow> string" where
  "print_range sign start count =
     (case start of None \<Rightarrow> [] | Some n \<Rightarrow> CHR '' '' # sign # show_nat n @ '','' @ show_nat (case count of None \<Rightarrow> 1 | Some m \<Rightarrow> m))"

definition print_header :: "patch_hunk \<Rightarrow> string" where
  "print_header h =
     (if ph_oldStart h = None \<and> ph_newStart h = None then ''@@''
      else ''@@'' @ print_range (CHR ''-'') (ph_oldStart h) (ph_oldCount h) @
        print_range (CHR ''+'') (ph_newStart h) (ph_newCount h) @ '' @@'')"

definition print_hunks :: "patch_hunk list \<Rightarrow> string list" where
  "print_hunks hs = concat (map (\<lambda>h. print_header h # hk_lines h) hs)"

fun print_operation :: "patch_operation \<Rightarrow> string list" where
  "print_operation (AddFile p content) =
     (''*** Add File: '' @ p) # (if content = [] then [] else map (Cons (CHR ''+'')) (split_on LF (butlast content)))"
| "print_operation (DeleteFile p) = [''*** Delete File: '' @ p]"
| "print_operation (UpdateFile p moveTo hs) =
     (''*** Update File: '' @ p) # (case moveTo of None \<Rightarrow> [] | Some q \<Rightarrow> [''*** Move to: '' @ q]) @ print_hunks hs"

definition print_patch :: "patch_operation list \<Rightarrow> string" where
  "print_patch ops = join_with LF (''*** Begin Patch'' # concat (map print_operation ops) @ [''*** End Patch''])"

text \<open>What the format can carry.\<close>

definition path_text :: "string \<Rightarrow> bool" where
  "path_text p \<longleftrightarrow> p \<noteq> [] \<and> js_trim p = p \<and> plain_line p"

definition marker_free :: "string \<Rightarrow> bool" where
  "marker_free l \<longleftrightarrow> js_trim l \<noteq> ''*** End Patch''"

definition header_ok :: "patch_hunk \<Rightarrow> bool" where
  "header_ok h \<longleftrightarrow> (ph_oldStart h = None \<longleftrightarrow> ph_oldCount h = None) \<and> (ph_newStart h = None \<longleftrightarrow> ph_newCount h = None)"

fun printable :: "patch_operation \<Rightarrow> bool" where
  "printable (AddFile p content) \<longleftrightarrow> path_text p \<and> (content = [] \<or> ends_with_newline content) \<and> CR \<notin> set content"
| "printable (DeleteFile p) \<longleftrightarrow> path_text p"
| "printable (UpdateFile p moveTo hs) \<longleftrightarrow> path_text p \<and> (case moveTo of None \<Rightarrow> True | Some q \<Rightarrow> path_text q) \<and>
     hs \<noteq> [] \<and> list_all (\<lambda>h. plain_hunk h \<and> header_ok h \<and> list_all marker_free (hk_lines h)) hs"

subsection \<open>Trimming\<close>

lemma dropWhile_suffix: "\<exists>u. s = u @ dropWhile P s"
  by (metis takeWhile_dropWhile_id)

lemma js_trim_space: "is_js_space c \<Longrightarrow> js_trim (c # s) = js_trim s"
  by (simp add: js_trim_def)

lemma js_trim_prefix: "\<not> is_js_space c \<Longrightarrow> \<exists>t. c # s = js_trim (c # s) @ t"
proof -
  assume "\<not> is_js_space c"
  then have "js_trim (c # s) = rev (dropWhile is_js_space (rev (c # s)))" by (simp add: js_trim_def)
  moreover obtain u where "rev (c # s) = u @ dropWhile is_js_space (rev (c # s))" using dropWhile_suffix by blast
  then have "c # s = rev (dropWhile is_js_space (rev (c # s))) @ rev u" by (metis rev_append rev_rev_ident)
  ultimately show ?thesis by metis
qed

lemma js_trim_nonempty: "\<not> is_js_space c \<Longrightarrow> js_trim (c # s) \<noteq> []"
  by (auto simp: js_trim_def dropWhile_eq_Nil_conv)

lemma trim_starts_hd: "\<not> is_js_space c \<Longrightarrow> js_trim (c # s) = m \<Longrightarrow> m \<noteq> [] \<and> starts_with m (c # s)"
  using js_trim_prefix [of c s] js_trim_nonempty [of c s] by (auto simp: starts_with_iff)

lemma special_spaces [simp]: "\<not> is_js_space (CHR ''*'')" "\<not> is_js_space (CHR ''@'')" "\<not> is_js_space (CHR ''+'')" "\<not> is_js_space (CHR ''-'')"
    "is_js_space (CHR '' '')"
  by (simp_all add: is_js_space_def)

lemma directive_path: "path_text p \<Longrightarrow> directive prefix (prefix @ CHR '' '' # p) = Some p"
  by (simp add: directive_def starts_with_def js_trim_space path_text_def)

lemma end_marker_line: "js_trim (CHR ''*'' # s) = ''*** End Patch'' \<Longrightarrow> starts_with ''*** End Patch'' (CHR ''*'' # s)"
  by (drule trim_starts_hd [rotated]) simp_all

subsection \<open>Numbers and headers\<close>

lemma digits_value_append: "digits_value n (s @ t) = digits_value (digits_value n s) t"
  by (induction s arbitrary: n) auto

lemma digits_value_show: "digits_value 0 (show_nat n) = n"
proof (induction n rule: less_induct)
  case (less n)
  show ?case
  proof (cases "n < 10")
    case True
    then show ?thesis by (simp add: show_nat_small of_char_digit)
  next
    case False
    then have "n div 10 < n" by simp
    from less.IH [OF this] False show ?thesis
      by (simp add: show_nat_large digits_value_append of_char_digit)
  qed
qed

lemma show_nat_all_digits: "list_all is_digit (show_nat n)"
  using show_nat_digits by (auto simp: list_all_iff)

lemma take_digits:
  assumes "rest = [] \<or> \<not> is_digit (hd rest)"
  shows "takeWhile is_digit (show_nat n @ rest) = show_nat n" "dropWhile is_digit (show_nat n @ rest) = rest"
proof -
  have d: "\<And>c. c \<in> set (show_nat n) \<Longrightarrow> is_digit c" using show_nat_all_digits by (auto simp: list_all_iff)
  show "takeWhile is_digit (show_nat n @ rest) = show_nat n"
    using assms d by (cases rest) (simp_all add: takeWhile_append2)
  show "dropWhile is_digit (show_nat n @ rest) = rest"
    using assms d by (cases rest) (simp_all add: dropWhile_append2)
qed

lemma not_digits [simp]: "\<not> is_digit (CHR '' '')" "\<not> is_digit (CHR '','')"
  by (simp_all add: is_digit_def)

lemma header_range_print:
  assumes "start = None \<longleftrightarrow> count = None" and "rest \<noteq> [] \<and> hd rest = CHR '' '' \<and> (start = None \<longrightarrow> \<not> starts_with [CHR '' '', sign] rest)"
  shows "header_range sign (print_range sign start count @ rest) =
    ((case start of None \<Rightarrow> None | Some n \<Rightarrow> Some (n, the count)), rest)"
proof (cases start)
  case None
  with assms show ?thesis by (simp add: print_range_def header_range_def)
next
  case (Some n)
  with assms obtain m where m: "count = Some m" by auto
  have r: "rest = [] \<or> \<not> is_digit (hd rest)" using assms(2) by auto
  have c: "range_count ('','' @ show_nat m @ rest) = (m, rest)"
    using take_digits [OF r, of m] by (simp add: range_count_def starts_with_def digits_value_show)
  have "takeWhile is_digit (show_nat n @ '','' @ show_nat m @ rest) = show_nat n"
    "dropWhile is_digit (show_nat n @ '','' @ show_nat m @ rest) = '','' @ show_nat m @ rest"
    by (rule take_digits, simp)+
  with c show ?thesis
    by (simp add: Some m print_range_def header_range_def starts_with_def digits_value_show)
qed

lemma trim_id: "s \<noteq> [] \<Longrightarrow> \<not> is_js_space (hd s) \<Longrightarrow> \<not> is_js_space (last s) \<Longrightarrow> js_trim s = s"
proof -
  assume s: "s \<noteq> []" "\<not> is_js_space (hd s)" "\<not> is_js_space (last s)"
  then have "dropWhile is_js_space s = s" by (cases s) auto
  moreover have "dropWhile is_js_space (rev s) = rev s" using s by (cases s rule: rev_cases) auto
  ultimately show ?thesis by (simp add: js_trim_def)
qed

lemma print_header_ends: "\<exists>t. print_header h = ''@@'' @ t \<and> (print_header h \<noteq> ''@@'' \<longrightarrow> last t = CHR ''@'' \<and> t \<noteq> [])"
  by (auto simp: print_header_def)

lemma parse_print_header:
  assumes "header_ok h"
  shows "parseHunkHeader (print_header h) p = Inr (patch_header.truncate h)"
proof (cases "ph_oldStart h = None \<and> ph_newStart h = None")
  case True
  with assms have "patch_header.truncate h = empty_header"
    by (simp add: header_ok_def empty_header_def patch_header.defs)
  moreover have "js_trim ''@@'' = ''@@''" by (simp add: trim_id)
  ultimately show ?thesis using True by (simp add: parseHunkHeader_def print_header_def)
next
  case False
  let ?new = "print_range (CHR ''+'') (ph_newStart h) (ph_newCount h) @ '' @@''"
  let ?line = "''@@'' @ print_range (CHR ''-'') (ph_oldStart h) (ph_oldCount h) @ ?new"
  have line: "print_header h = ?line" using False by (auto simp: print_header_def)
  have "js_trim ?line = ?line" by (rule trim_id) simp_all
  then have nt: "js_trim ?line \<noteq> ''@@''" by simp
  have new: "header_range (CHR ''+'') (print_range (CHR ''+'') (ph_newStart h) (ph_newCount h) @ '' @@'') =
      ((case ph_newStart h of None \<Rightarrow> None | Some n \<Rightarrow> Some (n, the (ph_newCount h))), '' @@'')"
    by (rule header_range_print) (use assms in \<open>auto simp: header_ok_def starts_with_def\<close>)
  have old: "header_range (CHR ''-'') (print_range (CHR ''-'') (ph_oldStart h) (ph_oldCount h) @ ?new) =
      ((case ph_oldStart h of None \<Rightarrow> None | Some n \<Rightarrow> Some (n, the (ph_oldCount h))), ?new)"
    by (rule header_range_print)
      (use assms in \<open>auto simp: header_ok_def starts_with_def print_range_def split: option.splits\<close>)
  have h: "header_of (case ph_oldStart h of None \<Rightarrow> None | Some n \<Rightarrow> Some (n, the (ph_oldCount h)))
      (case ph_newStart h of None \<Rightarrow> None | Some n \<Rightarrow> Some (n, the (ph_newCount h))) = patch_header.truncate h"
    using assms by (auto simp: header_of_def header_ok_def patch_header.defs split: option.splits)
  have d: "drop 2 ?line = print_range (CHR ''-'') (ph_oldStart h) (ph_oldCount h) @ ?new" by simp
  show ?thesis unfolding line parseHunkHeader_def d old prod.case new h
    using nt by (simp add: starts_with_def)
qed

lemma hunk_of_parts: "make_hunk (patch_header.truncate h) (hk_lines h) = h"
  by (cases h) (simp add: make_hunk_def patch_header.defs)

lemma hunk_line_not_header: "is_hunk_line l \<Longrightarrow> \<not> starts_with ''@@'' l"
  by (cases l) (auto simp: is_hunk_line_def starts_with_def)

lemma hunk_loop_lines:
  "list_all is_hunk_line ls \<Longrightarrow> hunk_loop p (ls @ rest) header current = hunk_loop p rest header (current @ ls)"
  by (induction ls arbitrary: current) (auto simp: hunk_line_not_header)

lemma print_hunks_Cons: "print_hunks (h # hs) = print_header h # hk_lines h @ print_hunks hs"
  by (simp add: print_hunks_def)

lemma header_starts: "starts_with ''@@'' (print_header h)"
  by (simp add: print_header_def starts_with_def)

lemma hunk_loop_print:
  assumes "list_all (\<lambda>h. plain_hunk h \<and> header_ok h) hs" and "current \<noteq> []"
  shows "hunk_loop p (print_hunks hs) header current = Inr (make_hunk header current # hs)"
  using assms
proof (induction hs arbitrary: header current)
  case Nil
  then show ?case by (simp add: print_hunks_def)
next
  case (Cons h hs)
  then have ls: "list_all is_hunk_line (hk_lines h)" "hk_lines h \<noteq> []" and ok: "header_ok h"
    by (auto simp: plain_hunk_def list_all_iff)
  have "hunk_loop p (hk_lines h @ print_hunks hs) (patch_header.truncate h) [] = Inr (h # hs)"
    using Cons.IH [of "hk_lines h" "patch_header.truncate h"] Cons.prems ls(2)
    by (simp add: hunk_loop_lines [OF ls(1)] hunk_of_parts)
  then show ?case
    using Cons.prems(2) by (simp add: print_hunks_Cons header_starts parse_print_header [OF ok])
qed

lemma parse_print_hunks:
  assumes "list_all (\<lambda>h. plain_hunk h \<and> header_ok h) hs" and "hs \<noteq> []"
  shows "parseHunks (print_hunks hs) p = Inr hs"
proof -
  obtain h hs' where hs: "hs = h # hs'" using assms(2) by (cases hs) auto
  with assms(1) have ls: "list_all is_hunk_line (hk_lines h)" "hk_lines h \<noteq> []" and ok: "header_ok h"
    by (auto simp: plain_hunk_def list_all_iff)
  show ?thesis
    using hunk_loop_print [of hs' "hk_lines h" p "patch_header.truncate h"] assms(1) ls
    by (simp add: hs parseHunks_def print_hunks_Cons header_starts parse_print_header [OF ok] hunk_loop_lines hunk_of_parts)
qed

subsection \<open>Operations\<close>

definition at_directive :: "string list \<Rightarrow> bool" where
  "at_directive ls \<longleftrightarrow> ls = [] \<or> is_directive (hd ls)"

lemma add_body_print:
  "at_directive rest \<Longrightarrow> add_body p (map (Cons (CHR ''+'')) ls @ rest) = Inr (ls, rest)"
proof (induction ls)
  case Nil
  then show ?case by (cases rest) (auto simp: at_directive_def)
next
  case (Cons l ls)
  then show ?case by (simp add: is_directive_def starts_with_def)
qed

lemma added_content_print:
  "content = [] \<or> ends_with_newline content \<Longrightarrow>
   added_content (if content = [] then [] else split_on LF (butlast content)) = content"
  using butlast_last_LF [of content] by (auto simp: added_content_def)

lemma directive_lines:
  assumes "path_text p"
  shows "directive ''*** Add File:'' (''*** Add File: '' @ p) = Some p"
    "directive ''*** Delete File:'' (''*** Delete File: '' @ p) = Some p"
    "directive ''*** Update File:'' (''*** Update File: '' @ p) = Some p"
    "directive ''*** Move to:'' (''*** Move to: '' @ p) = Some p"
  using directive_path [OF assms, of "''*** Add File:''"] directive_path [OF assms, of "''*** Delete File:''"]
    directive_path [OF assms, of "''*** Update File:''"] directive_path [OF assms, of "''*** Move to:''"] by simp_all

lemma other_directives:
  "directive ''*** Add File:'' (''*** Delete File: '' @ p) = None" "directive ''*** Add File:'' (''*** Update File: '' @ p) = None"
  "directive ''*** Delete File:'' (''*** Update File: '' @ p) = None"
  by (simp_all add: directive_def starts_with_def)

lemma directive_not_blank: "js_trim (''*** '' @ s) \<noteq> []"
  by (simp add: js_trim_nonempty)

lemma directive_blank_lines [simp]:
  "js_trim (''*** Add File: '' @ p) \<noteq> []" "js_trim (''*** Delete File: '' @ p) \<noteq> []" "js_trim (''*** Update File: '' @ p) \<noteq> []"
  by (simp_all add: js_trim_nonempty)

lemma print_hunks_lines:
  assumes "list_all plain_hunk hs" and "l \<in> set (print_hunks hs)"
  shows "\<not> is_directive l"
proof -
  from assms(2) consider (h) h where "l = print_header h" | (b) h where "h \<in> set hs" "l \<in> set (hk_lines h)"
    by (auto simp: print_hunks_def)
  then show ?thesis
  proof cases
    case h
    then show ?thesis by (auto simp: print_header_def is_directive_def starts_with_def)
  next
    case b
    with assms(1) have "is_hunk_line l" by (auto simp: list_all_iff plain_hunk_def)
    then show ?thesis by (cases l) (auto simp: is_hunk_line_def is_directive_def starts_with_def)
  qed
qed

lemma hunks_until_directive:
  assumes "list_all plain_hunk hs" and "at_directive rest"
  shows "takeWhile (\<lambda>x. \<not> is_directive x) (print_hunks hs @ rest) = print_hunks hs"
    "dropWhile (\<lambda>x. \<not> is_directive x) (print_hunks hs @ rest) = rest"
  using print_hunks_lines [OF assms(1)] assms(2)
  by (cases rest; simp add: at_directive_def takeWhile_append2 dropWhile_append2)+

lemma move_target_print:
  assumes "case moveTo of None \<Rightarrow> True | Some q \<Rightarrow> path_text q" and "list_all plain_hunk hs" and "hs \<noteq> []"
  shows "move_target ((case moveTo of None \<Rightarrow> [] | Some q \<Rightarrow> [''*** Move to: '' @ q]) @ print_hunks hs @ rest) = (moveTo, print_hunks hs @ rest)"
proof (cases moveTo)
  case None
  obtain h hs' where hs: "hs = h # hs'" using assms(3) by (cases hs) auto
  have "directive ''*** Move to:'' (print_header h) = None"
    by (simp add: directive_def print_header_def starts_with_def)
  with None show ?thesis by (simp add: hs print_hunks_Cons move_target_def)
next
  case (Some q)
  with assms(1) directive_lines(4) [of q] show ?thesis by (simp add: move_target_def)
qed

lemma parse_print_operation:
  assumes "printable opn" and "at_directive rest"
  shows "parse_operations (print_operation opn @ rest) = map_sum id (Cons opn) (parse_operations rest)"
proof (cases opn)
  case (AddFile p content)
  let ?ls = "if content = [] then [] else split_on LF (butlast content)"
  have p: "path_text p" and c: "content = [] \<or> ends_with_newline content" using assms(1) AddFile by auto
  have "print_operation opn @ rest = (''*** Add File: '' @ p) # map (Cons (CHR ''+'')) ?ls @ rest"
    by (simp add: AddFile)
  moreover have "add_body p (map (Cons (CHR ''+'')) ?ls @ rest) = Inr (?ls, rest)" by (rule add_body_print [OF assms(2)])
  ultimately show ?thesis
    by (simp only: parse_operations.simps(2) directive_blank_lines if_False directive_lines(1) [OF p] option.case sum.case
        prod.case added_content_print [OF c] AddFile)
next
  case (DeleteFile p)
  then have p: "path_text p" using assms(1) by simp
  have "print_operation opn @ rest = (''*** Delete File: '' @ p) # rest" by (simp add: DeleteFile)
  then show ?thesis
    by (simp only: parse_operations.simps(2) directive_blank_lines if_False directive_lines(2) [OF p] other_directives option.case DeleteFile)
next
  case (UpdateFile p moveTo hs)
  then have p: "path_text p" and q: "case moveTo of None \<Rightarrow> True | Some q \<Rightarrow> path_text q" and hs: "hs \<noteq> []"
    "list_all plain_hunk hs" "list_all (\<lambda>h. plain_hunk h \<and> header_ok h) hs"
    using assms(1) by (auto simp: list_all_iff)
  have "print_operation opn @ rest = (''*** Update File: '' @ p) #
      (case moveTo of None \<Rightarrow> [] | Some q \<Rightarrow> [''*** Move to: '' @ q]) @ print_hunks hs @ rest"
    by (simp add: UpdateFile)
  then show ?thesis
    by (simp only: parse_operations.simps(2) directive_blank_lines if_False directive_lines(3) [OF p] other_directives option.case
        move_target_print [OF q hs(2,1)] prod.case hunks_until_directive [OF hs(2) assms(2)] parse_print_hunks [OF hs(3,1)]
        sum.case UpdateFile)
qed

lemma print_operation_directive: "print_operation opn \<noteq> [] \<and> is_directive (hd (print_operation opn))"
  by (cases opn) (simp_all add: is_directive_def starts_with_def)

lemma parse_print_operations:
  "list_all printable ops \<Longrightarrow> parse_operations (concat (map print_operation ops)) = Inr ops"
proof (induction ops)
  case (Cons opn ops)
  have "at_directive (concat (map print_operation ops))"
    using print_operation_directive by (cases ops) (auto simp: at_directive_def)
  from parse_print_operation [OF _ this, of opn] Cons show ?case by simp
qed simp

subsection \<open>The round trip\<close>

definition inner_line :: "string \<Rightarrow> bool" where
  "inner_line l \<longleftrightarrow> plain_line l \<and> marker_free l"

lemma star_marker_free: "\<not> starts_with ''*** End Patch'' (CHR ''*'' # s) \<Longrightarrow> marker_free (CHR ''*'' # s)"
  using end_marker_line by (auto simp: marker_free_def)

lemma non_star_marker_free: "\<not> is_js_space c \<Longrightarrow> c \<noteq> CHR ''*'' \<Longrightarrow> marker_free (c # s)"
  unfolding marker_free_def using trim_starts_hd [of c s "''*** End Patch''"] by (auto simp: starts_with_def)

lemma directive_inner:
  assumes "path_text p"
  shows "inner_line (''*** Add File: '' @ p)" "inner_line (''*** Delete File: '' @ p)" "inner_line (''*** Update File: '' @ p)"
    "inner_line (''*** Move to: '' @ p)"
proof -
  have m: "marker_free (''*** Add File: '' @ p)" "marker_free (''*** Delete File: '' @ p)" "marker_free (''*** Update File: '' @ p)"
    "marker_free (''*** Move to: '' @ p)"
    by (simp; rule star_marker_free, simp add: starts_with_def)+
  show "inner_line (''*** Add File: '' @ p)" "inner_line (''*** Delete File: '' @ p)" "inner_line (''*** Update File: '' @ p)"
    "inner_line (''*** Move to: '' @ p)"
    using assms m by (simp_all add: inner_line_def path_text_def plain_line_def LF_def CR_def)
qed

lemma digits_plain: "plain_line (show_nat n)"
  using show_nat_digits [of LF n] show_nat_digits [of CR n] by (auto simp: plain_line_def LF_def CR_def is_digit_def)

lemma print_header_inner: "inner_line (print_header h)"
proof -
  have "plain_line (print_header h)"
    using digits_plain by (auto simp: print_header_def print_range_def plain_line_def LF_def CR_def split: option.splits)
  moreover have "marker_free (print_header h)"
    by (simp add: print_header_def non_star_marker_free)
  ultimately show ?thesis by (simp add: inner_line_def)
qed

lemma print_operation_inner: "printable opn \<Longrightarrow> list_all inner_line (print_operation opn)"
proof (cases opn)
  case (AddFile p content)
  assume "printable opn"
  then have p: "path_text p" and cr: "CR \<notin> set content" using AddFile by auto
  have "inner_line (CHR ''+'' # l)" if "l \<in> set (split_on LF (butlast content))" for l
  proof -
    have "LF \<notin> set l" "CR \<notin> set l"
      using split_no_sep_in [OF that] split_on_chars [OF that] cr by (auto dest: in_set_butlastD)
    then show ?thesis by (simp add: inner_line_def plain_line_def non_star_marker_free LF_def CR_def)
  qed
  then show ?thesis using directive_inner(1) [OF p] by (auto simp: AddFile list_all_iff)
next
  case (DeleteFile p)
  assume "printable opn"
  then show ?thesis using directive_inner(2) [of p] by (simp add: DeleteFile)
next
  case (UpdateFile p moveTo hs)
  assume pr: "printable opn"
  then have "list_all inner_line (print_hunks hs)"
    using print_header_inner
    by (auto simp: UpdateFile print_hunks_def list_all_iff inner_line_def plain_hunk_def plain_line_def)
  then show ?thesis using pr directive_inner(3) [of p] directive_inner(4)
    by (auto simp: UpdateFile split: option.splits)
qed

lemma markers: "js_trim ''*** Begin Patch'' = ''*** Begin Patch''" "js_trim ''*** End Patch'' = ''*** End Patch''"
    "js_trim ''*** Begin Patch'' \<noteq> ''*** End Patch''"
  by (simp_all add: trim_id is_js_space_def)

lemma patch_lines:
  assumes "list_all plain_line (concat (map print_operation ops))"
  shows "split_on LF (normalize_newlines (print_patch ops)) =
    ''*** Begin Patch'' # concat (map print_operation ops) @ [''*** End Patch'']" (is "_ = ?ls")
proof -
  have plain: "list_all plain_line ?ls" using assms by (simp add: plain_line_def LF_def CR_def)
  have "CR \<notin> set (join_with LF ?ls)"
    using set_join [of CR LF ?ls] plain by (auto simp: list_all_iff plain_line_def)
  then have n: "normalize_newlines (join_with LF ?ls) = join_with LF ?ls" by (rule normalize_id)
  show ?thesis unfolding print_patch_def n
    by (rule split_join) (use plain in \<open>auto simp: list_all_iff plain_line_def\<close>)
qed

lemma parse_print:
  assumes "list_all printable ops" and "ops \<noteq> []"
  shows "parsePatch (print_patch ops) = Inr ops"
proof -
  let ?inside = "concat (map print_operation ops)"
  have inner: "list_all inner_line ?inside"
    using assms(1) print_operation_inner by (fastforce simp: list_all_iff)
  then have "list_all plain_line ?inside" by (simp add: list_all_iff inner_line_def)
  note lines = patch_lines [OF this]
  have free: "\<And>l. l \<in> set ?inside \<Longrightarrow> js_trim l \<noteq> ''*** End Patch''"
    using inner by (auto simp: list_all_iff inner_line_def marker_free_def)
  have d: "dropWhile (\<lambda>l. js_trim l \<noteq> ''*** End Patch'') (?inside @ [''*** End Patch'']) = [''*** End Patch'']"
    by (subst dropWhile_append2) (use free in \<open>simp_all add: markers\<close>)
  have t: "takeWhile (\<lambda>l. js_trim l \<noteq> ''*** End Patch'') (?inside @ [''*** End Patch'']) = ?inside"
    by (subst takeWhile_append2) (use free in \<open>simp_all add: markers\<close>)
  show ?thesis
    unfolding parsePatch_def lines Let_def
    using parse_print_operations [OF assms(1)] assms(2) d t by (simp add: markers split: list.split)
qed

text \<open>C36 (patch_round_trip)
  The parser reads back every patch it is asked for: printing operations in the documented format and
  parsing the text gives the operations, with their contents, targets, hunks and header positions, for
  paths and lines the format can carry.\<close>

theorem patch_round_trip:
  assumes "list_all printable ops" and "ops \<noteq> []"
  shows "parsePatch (print_patch ops) = Inr ops"
  by (rule parse_print [OF assms])

theorem patch_round_trip_witness:
  "parsePatch (print_patch [AddFile ''a.txt'' [CHR ''x'', LF], DeleteFile ''b'']) = Inr [AddFile ''a.txt'' [CHR ''x'', LF], DeleteFile ''b'']"
  by (rule patch_round_trip) (simp_all add: path_text_def plain_line_def ends_with_newline_def LF_def CR_def js_trim_def is_js_space_def)

text \<open>Remark (end_marker_in_context)
  One kind of line the format cannot carry: a context line that reads \<^verbatim>\<open>*** End Patch\<close> is taken for the
  end of the envelope, so a well-formed update of a file that contains such a line is rejected as
  having content outside its envelope.\<close>

theorem end_marker_in_context:
  "parsePatch (print_patch [UpdateFile ''doc.md'' None [make_hunk empty_header ['' *** End Patch'', ''+x'']]]) =
     Inl (Error ''Patch contains content outside its Begin/End envelope.'') \<and>
   applyUpdateText (''*** End Patch'' @ [LF]) [make_hunk empty_header ['' *** End Patch'', ''+x'']] =
     Inr \<lparr>au_content = ''*** End Patch'' @ [LF] @ ''x'' @ [LF], au_addedLines = 1, au_deletedLines = 0\<rparr>"
proof
  let ?ops = "[UpdateFile ''doc.md'' None [make_hunk empty_header ['' *** End Patch'', ''+x'']]]"
  have ls: "concat (map print_operation ?ops) = [''*** Update File: doc.md'', ''@@'', '' *** End Patch'', ''+x'']"
    by (simp add: print_hunks_def print_header_def make_hunk_def empty_header_def patch_header.defs patch_hunk.defs)
  have "list_all plain_line (concat (map print_operation ?ops))"
    unfolding ls by (simp add: plain_line_def LF_def CR_def)
  note lines = patch_lines [OF this, unfolded ls]
  show "parsePatch (print_patch ?ops) = Inl (Error ''Patch contains content outside its Begin/End envelope.'')"
    unfolding parsePatch_def lines Let_def by (simp add: markers js_trim_space trim_id is_js_space_def)
qed code_simp

subsection \<open>What the parser returns\<close>

lemma add_body_plain:
  assumes "add_body p ls = Inr (body, rest)" and "list_all plain_line ls"
  shows "list_all plain_line body \<and> list_all plain_line rest"
  using assms
  by (induction ls arbitrary: body)
    (auto split: if_splits sum.splits prod.splits simp: map_sum_def plain_line_def dest: in_set_dropD)

lemma hunk_loop_plain:
  assumes "hunk_loop p ls header current = Inr hs" and "list_all plain_line ls"
    and "list_all (\<lambda>l. is_hunk_line l \<and> LF \<notin> set l \<and> CR \<notin> set l) current"
  shows "hs \<noteq> [] \<and> list_all plain_hunk hs"
  using assms
proof (induction ls arbitrary: header current hs)
  case Nil
  then show ?case by (auto split: if_splits simp: plain_hunk_def make_hunk_def patch_header.defs)
next
  case (Cons l ls)
  have m: "plain_hunk (make_hunk h current)" if "current \<noteq> []" for h
    using that Cons.prems(3) by (simp add: plain_hunk_def make_hunk_def patch_header.defs)
  show ?case
  proof (cases "starts_with ''@@'' l")
    case True
    with Cons.prems(1) obtain h where h: "parseHunkHeader l p = Inr h" by (auto split: sum.splits)
    show ?thesis
    proof (cases "current = []")
      case c: True
      with True h Cons.prems(1) have "hunk_loop p ls h [] = Inr hs" by simp
      from Cons.IH [OF this] Cons.prems(2) show ?thesis by simp
    next
      case c: False
      with True h Cons.prems(1) obtain hs' where "hs = make_hunk header current # hs'" "hunk_loop p ls h [] = Inr hs'"
        by (auto simp: map_sum_def split: sum.splits)
      with Cons.IH [of h "[]" hs'] Cons.prems(2) m [OF c] show ?thesis by simp
    qed
  next
    case False
    with Cons.prems(1) have "is_hunk_line l" "hunk_loop p ls header (current @ [l]) = Inr hs" by (auto split: if_splits)
    with Cons.IH [OF this(2)] Cons.prems(2,3) show ?thesis by (simp add: plain_line_def)
  qed
qed

fun parsed_well :: "patch_operation \<Rightarrow> bool" where
  "parsed_well (AddFile p content) \<longleftrightarrow> p \<noteq> [] \<and> (content = [] \<or> ends_with_newline content)"
| "parsed_well (DeleteFile p) \<longleftrightarrow> p \<noteq> []"
| "parsed_well (UpdateFile p moveTo hs) \<longleftrightarrow> p \<noteq> [] \<and> moveTo \<noteq> Some [] \<and> hs \<noteq> [] \<and> list_all plain_hunk hs"

lemma directive_nonempty: "directive prefix l = Some p \<Longrightarrow> p \<noteq> []"
  by (auto simp: directive_def Let_def split: if_splits)

lemma added_content_ends: "added_content body = [] \<or> ends_with_newline (added_content body)"
  by (simp add: added_content_def ends_with_newline_def)

lemma plain_dropWhile: "list_all plain_line ls \<Longrightarrow> list_all plain_line (dropWhile P ls)"
  by (auto simp: list_all_iff dest: set_dropWhileD)

lemma plain_takeWhile: "list_all plain_line ls \<Longrightarrow> list_all plain_line (takeWhile P ls)"
  by (auto simp: list_all_iff dest: set_takeWhileD)

lemma move_target_well:
  assumes "move_target ls = (moveTo, rest)" and "list_all plain_line ls"
  shows "moveTo \<noteq> Some [] \<and> list_all plain_line rest"
  using assms directive_nonempty by (auto simp: move_target_def split: list.splits option.splits)

lemma parse_operations_well:
  "parse_operations ls = Inr ops \<Longrightarrow> list_all plain_line ls \<Longrightarrow> list_all parsed_well ops"
proof (induction ls arbitrary: ops rule: parse_operations.induct)
  case 1
  then show ?case by simp
next
  case (2 l ls)
  show ?case
  proof (cases "js_trim l = []")
    case True
    with "2.IH"(1) "2.prems" show ?thesis by simp
  next
    case nb: False
    show ?thesis
    proof (cases "directive ''*** Add File:'' l")
      case (Some p)
      with "2.prems"(1) nb obtain body rest where b: "add_body p ls = Inr (body, rest)"
        by (auto split: sum.splits)
      with "2.prems"(1) nb Some obtain ops' where o: "parse_operations rest = Inr ops'" "ops = AddFile p (added_content body) # ops'"
        by (auto simp: map_sum_def split: sum.splits)
      have "list_all plain_line rest" using add_body_plain [OF b] "2.prems"(2) by simp
      with "2.IH"(4) [OF nb Some b refl o(1)] o(2) directive_nonempty [OF Some] added_content_ends show ?thesis by simp
    next
      case na: None
      show ?thesis
      proof (cases "directive ''*** Delete File:'' l")
        case (Some p)
        with "2.prems"(1) nb na obtain ops' where o: "parse_operations ls = Inr ops'" "ops = DeleteFile p # ops'"
          by (auto simp: map_sum_def split: sum.splits)
        with "2.IH"(3) [OF nb na Some o(1)] "2.prems"(2) directive_nonempty [OF Some] show ?thesis by simp
      next
        case nd: None
        with "2.prems"(1) nb na obtain p where u: "directive ''*** Update File:'' l = Some p" by (auto split: option.splits)
        obtain moveTo rest where m: "move_target ls = (moveTo, rest)" by fastforce
        let ?body = "takeWhile (\<lambda>x. \<not> is_directive x) rest" and ?rest = "dropWhile (\<lambda>x. \<not> is_directive x) rest"
        have pl: "moveTo \<noteq> Some []" "list_all plain_line rest"
          using move_target_well [OF m] "2.prems"(2) by simp_all
        from "2.prems"(1) nb na nd u m obtain hs where h: "parseHunks ?body p = Inr hs" by (auto split: sum.splits)
        with "2.prems"(1) nb na nd u m obtain ops' where o: "parse_operations ?rest = Inr ops'" "ops = UpdateFile p moveTo hs # ops'"
          by (auto simp: map_sum_def split: sum.splits)
        have "hs \<noteq> [] \<and> list_all plain_hunk hs"
          using h hunk_loop_plain [of p ?body empty_header "[]" hs] plain_takeWhile [OF pl(2)]
          by (auto simp: parseHunks_def split: if_splits)
        with "2.IH"(2) [OF nb na nd u m [symmetric] h o(1) plain_dropWhile [OF pl(2)]] o(2) pl(1) directive_nonempty [OF u]
        show ?thesis by simp
      qed
    qed
  qed
qed

text \<open>Remark (parsed_patches_are_well_formed)
  What the parser accepts is well formed: at least one operation, no empty path, added contents that
  are empty or end with a newline, and updates with at least one hunk, each of at least one line, all
  context, removed or added lines without line breaks.\<close>

theorem parsed_patches_are_well_formed:
  assumes "parsePatch input = Inr ops"
  shows "ops \<noteq> [] \<and> list_all parsed_well ops"
proof -
  let ?ls = "split_on LF (normalize_newlines input)"
  have pl: "list_all plain_line ?ls"
    unfolding list_all_iff plain_line_def
  proof (intro ballI conjI)
    fix l assume l: "l \<in> set ?ls"
    show "LF \<notin> set l" by (rule split_no_sep_in [OF l])
    show "CR \<notin> set l" using split_on_chars [OF l] normalize_no_CR [of input] by blast
  qed
  from assms obtain rest where "parse_operations (takeWhile (\<lambda>l. js_trim l \<noteq> ''*** End Patch'') rest) = Inr ops" "ops \<noteq> []"
      "\<exists>b. dropWhile (\<lambda>l. js_trim l \<noteq> ''*** Begin Patch'') ?ls = b # rest"
    by (auto simp: parsePatch_def Let_def split: list.splits if_splits sum.splits)
  moreover have "list_all plain_line rest"
    using calculation(3) plain_dropWhile [OF pl, of "\<lambda>l. js_trim l \<noteq> ''*** Begin Patch''"] by auto
  ultimately show ?thesis using parse_operations_well plain_takeWhile by blast
qed

theorem parsed_patches_are_well_formed_witness:
  "list_all parsed_well [AddFile ''a'' [CHR ''x'', LF]]"
proof -
  have "parsePatch (print_patch [AddFile ''a'' [CHR ''x'', LF]]) = Inr [AddFile ''a'' [CHR ''x'', LF]]"
    by (rule parse_print) (simp_all add: path_text_def plain_line_def ends_with_newline_def LF_def CR_def js_trim_def is_js_space_def)
  from parsed_patches_are_well_formed [OF this] show ?thesis ..
qed

subsection \<open>Paths stay in the workspace\<close>

text \<open>
  How POSIX reads an absolute path without symbolic links: empty and \<^verbatim>\<open>.\<close> segments are skipped and
  \<^verbatim>\<open>..\<close> goes up.
\<close>

fun resolve_segments :: "string list \<Rightarrow> string list \<Rightarrow> string list" where
  "resolve_segments dir [] = dir"
| "resolve_segments dir (s # ss) =
     (if s = [] \<or> s = ''.'' then resolve_segments dir ss
      else if s = ''..'' then resolve_segments (butlast dir) ss
      else resolve_segments (dir @ [s]) ss)"

definition resolve_path :: "string \<Rightarrow> string list" where
  "resolve_path p = resolve_segments [] (split_on (CHR ''/'') p)"

lemma resolve_good: "\<not> list_ex bad_segment ss \<Longrightarrow> resolve_segments dir ss = dir @ ss"
  by (induction ss arbitrary: dir) (auto simp: bad_segment_def)

text \<open>Remark (accepted_paths_stay_in_the_workspace)
  A path the tool accepts names, however POSIX resolves it, a file strictly below the workspace; the
  tool accepts the result again unchanged, and paths that resolve to the same file are equal.\<close>

theorem accepted_paths_stay_in_the_workspace:
  assumes "workspacePath v = Inr p"
  shows "(\<exists>ss. ss \<noteq> [] \<and> resolve_path p = ''workspace'' # ss) \<and> workspacePath p = Inr p \<and>
    (\<forall>v' p'. workspacePath v' = Inr p' \<and> resolve_path p' = resolve_path p \<longrightarrow> p' = p)"
proof -
  have good: "\<exists>rel. q = WORKSPACE @ rel \<and> rel \<noteq> [] \<and> \<not> list_ex bad_segment (split_on (CHR ''/'') rel) \<and> workspacePath q = Inr q"
    if w: "workspacePath u = Inr q" for u q
  proof -
    from w have q: "starts_with WORKSPACE q" "drop (length WORKSPACE) q \<noteq> []" "CHR 0x5C \<notin> set q" "CHR 0x00 \<notin> set q"
      "\<not> list_ex bad_segment (split_on (CHR ''/'') (drop (length WORKSPACE) q))"
      by (auto simp: workspacePath_def Let_def split: if_splits)
    from q(1) obtain rel where rel: "q = WORKSPACE @ rel" by (auto simp: starts_with_iff)
    have "starts_with ''/'' q" by (simp add: rel WORKSPACE_def starts_with_def)
    then have "workspacePath q = Inr q" using q by (simp add: workspacePath_def Let_def)
    with q rel show ?thesis by auto
  qed
  have res: "resolve_path (WORKSPACE @ rel) = ''workspace'' # split_on (CHR ''/'') rel"
    if "\<not> list_ex bad_segment (split_on (CHR ''/'') rel)" for rel
    using resolve_good [OF that, of "[''workspace'']"] by (simp add: resolve_path_def WORKSPACE_def)
  from good [OF assms] obtain rel where p: "p = WORKSPACE @ rel" "rel \<noteq> []" "workspacePath p = Inr p"
    and ok: "\<not> list_ex bad_segment (split_on (CHR ''/'') rel)" by blast
  have "p' = p" if p': "workspacePath v' = Inr p'" "resolve_path p' = resolve_path p" for v' p'
  proof -
    from good [OF p'(1)] obtain rel' where r: "p' = WORKSPACE @ rel'" "\<not> list_ex bad_segment (split_on (CHR ''/'') rel')" by blast
    from p'(2) have "split_on (CHR ''/'') rel' = split_on (CHR ''/'') rel" using res [OF ok] res [OF r(2)] by (simp add: p(1) r(1))
    then have "rel' = rel" by (metis join_split)
    with p r show ?thesis by simp
  qed
  with p res [OF ok] show ?thesis by (metis split_on_nonempty(1))
qed

theorem accepted_paths_stay_in_the_workspace_witness:
  "resolve_path ''/workspace/a/b.txt'' \<noteq> [] \<and> workspacePath ''/workspace/a/b.txt'' = Inr ''/workspace/a/b.txt''"
proof -
  have "workspacePath ''a/b.txt'' = Inr ''/workspace/a/b.txt''"
    by (simp add: workspacePath_def Let_def WORKSPACE_def starts_with_def bad_segment_def)
  from accepted_paths_stay_in_the_workspace [OF this] show ?thesis by auto
qed

subsection \<open>Shell words\<close>

text \<open>
  How a POSIX shell reads a command line without expansions: blanks separate words, a backslash takes
  the next character literally, and between single quotes every character is literal.  The state is
  the current word (if one has begun) and whether a quote is open.
\<close>

fun shell_words :: "bool \<Rightarrow> string option \<Rightarrow> string \<Rightarrow> string list option" where
  "shell_words quoted w [] = (if quoted then None else Some (case w of None \<Rightarrow> [] | Some x \<Rightarrow> [x]))"
| "shell_words True w (c # s) =
     (if c = QUOTE then shell_words False w s
      else shell_words True (Some ((case w of None \<Rightarrow> [] | Some x \<Rightarrow> x) @ [c])) s)"
| "shell_words False w [c] =
     (if c = QUOTE then None
      else if c = CHR 0x5C then None
      else if c = CHR '' '' then Some (case w of None \<Rightarrow> [] | Some x \<Rightarrow> [x])
      else Some [(case w of None \<Rightarrow> [] | Some x \<Rightarrow> x) @ [c]])"
| "shell_words False w (c # d # s) =
     (if c = QUOTE then shell_words True (Some (case w of None \<Rightarrow> [] | Some x \<Rightarrow> x)) (d # s)
      else if c = CHR 0x5C then shell_words False (Some ((case w of None \<Rightarrow> [] | Some x \<Rightarrow> x) @ [d])) s
      else if c = CHR '' '' then map_option (\<lambda>ws. (case w of None \<Rightarrow> ws | Some x \<Rightarrow> x # ws)) (shell_words False None (d # s))
      else shell_words False (Some ((case w of None \<Rightarrow> [] | Some x \<Rightarrow> x) @ [c])) (d # s))"

definition quote_body :: "string \<Rightarrow> string" where
  "quote_body v = concat (map (\<lambda>c. if c = QUOTE then [QUOTE, CHR 0x5C, QUOTE, QUOTE] else [c]) v)"

lemma backslash_not_quote [simp]: "CHR 0x5C \<noteq> QUOTE" "QUOTE \<noteq> CHR 0x5C" "CHR '' '' \<noteq> QUOTE" "QUOTE \<noteq> CHR '' ''"
  by (simp_all add: QUOTE_def)

lemma shell_body:
  "shell_words True (Some x) (quote_body v @ QUOTE # rest) = shell_words False (Some (x @ v)) rest"
proof (induction v arbitrary: x)
  case (Cons c v)
  show ?case
  proof (cases "c = QUOTE")
    case True
    obtain d t where t: "quote_body v @ QUOTE # rest = d # t" by (cases "quote_body v @ QUOTE # rest") auto
    from True have "shell_words True (Some x) (quote_body (c # v) @ QUOTE # rest) =
        shell_words True (Some (x @ [QUOTE])) (quote_body v @ QUOTE # rest)"
      by (simp add: quote_body_def) (simp add: t [unfolded quote_body_def])
    with Cons.IH [of "x @ [QUOTE]"] True show ?thesis by simp
  next
    case False
    have "quote_body (c # v) = c # quote_body v" using False by (simp add: quote_body_def)
    with False Cons.IH [of "x @ [c]"] show ?thesis by simp
  qed
qed (simp add: quote_body_def)

lemma shell_quote_word: "shell_words False None (shellQuote v @ rest) = shell_words False (Some v) rest"
proof -
  have q: "shellQuote v @ rest = QUOTE # (quote_body v @ QUOTE # rest)" by (simp add: shellQuote_def quote_body_def)
  obtain d t where t: "quote_body v @ QUOTE # rest = d # t" by (cases "quote_body v @ QUOTE # rest") auto
  have "shell_words False None (QUOTE # (quote_body v @ QUOTE # rest)) = shell_words True (Some []) (quote_body v @ QUOTE # rest)"
    unfolding t by simp
  then show ?thesis unfolding q using shell_body [of "[]" v rest] by simp
qed

lemma shell_rename_words:
  "shell_words False None (''mv -f -- '' @ shellQuote v @ '' '' @ shellQuote p) = Some [''mv'', ''-f'', ''--'', v, p]"
proof -
  obtain d t where t: "shellQuote v @ '' '' @ shellQuote p = d # t" by (cases "shellQuote v") (auto simp: shellQuote_def)
  obtain d' t' where t': "shellQuote p = d' # t'" by (cases "shellQuote p") (auto simp: shellQuote_def)
  have "shell_words False None (shellQuote p) = Some [p]" using shell_quote_word [of p "[]"] by simp
  then have "shell_words False (Some v) ('' '' @ shellQuote p) = Some [v, p]" by (simp add: t')
  then have "shell_words False None (shellQuote v @ '' '' @ shellQuote p) = Some [v, p]" by (simp only: shell_quote_word)
  then have "shell_words False None (d # t) = Some [v, p]" unfolding t .
  then show ?thesis unfolding t by (simp add: QUOTE_def)
qed

text \<open>Remark (quoted_arguments_are_one_word)
  Whatever characters a path has - quotes, blanks, backslashes, dollar signs - the shell reads the
  quoted form as one word and gets the path back; the rename command the tool runs has exactly the
  words \<^verbatim>\<open>mv -f -- temporary path\<close>.\<close>

theorem quoted_arguments_are_one_word:
  "shell_words False None (shellQuote v) = Some [v] \<and>
   shell_words False None (''mv -f -- '' @ shellQuote v @ '' '' @ shellQuote p) = Some [''mv'', ''-f'', ''--'', v, p]"
  using shell_quote_word [of v "[]"] shell_rename_words by simp

end
