(* ===== verification/Patch_Apply.thy ===== *)
theory Patch_Apply
  imports Patch_Roundtrip
begin

section \<open>Executing a patch in the sandbox (agent/tools/apply_patch.ts)\<close>

text \<open>
  The tool's \<^verbatim>\<open>execute\<close>: read and validate every operation against the texts read so far, then write
  what changed, file by file.  The sandbox is a record of actions: it is the framework's, so its
  behaviour is stated as the laws of a locale and instantiated by a file system with faults.
\<close>

record text_state =
  ts_original :: "string option"
  ts_value :: "string option"

type_synonym text_states = "(string \<times> text_state) list"

record 'w sandbox_if =
  sb_readTextFile :: "string \<Rightarrow> ('w, string option) act"
  sb_writeTextFile :: "string \<Rightarrow> string \<Rightarrow> ('w, unit) act"
  sb_removePath :: "string \<Rightarrow> ('w, unit) act"
  sb_run :: "(string \<Rightarrow> ('w, nat \<times> string) act) option"
  sb_randomUUID :: "('w, string) act"
  sb_throwIfAborted :: "('w, unit) act"

record patch_result =
  pr_changes :: "file_change list"
  pr_filesChanged :: nat
  pr_totalAddedLines :: nat
  pr_totalDeletedLines :: nat

definition stateFor :: "'w sandbox_if \<Rightarrow> string \<Rightarrow> text_states \<Rightarrow> ('w, text_state \<times> text_states) act" where
  "stateFor sandbox path states =
     (case map_of states path of
        Some known \<Rightarrow> ret (known, states)
      | None \<Rightarrow> bind_act (sb_readTextFile sandbox path) (\<lambda>original.
          ret (\<lparr>ts_original = original, ts_value = original\<rparr>,
            states @ [(path, \<lparr>ts_original = original, ts_value = original\<rparr>)])))"

definition set_value :: "string \<Rightarrow> string option \<Rightarrow> text_states \<Rightarrow> text_states" where
  "set_value path v states = map (\<lambda>(p, st). if p = path then (p, st\<lparr>ts_value := v\<rparr>) else (p, st)) states"

definition change :: "nat \<Rightarrow> nat \<Rightarrow> change_kind \<Rightarrow> string \<Rightarrow> file_change" where
  "change added deleted kind path = \<lparr>fc_addedLines = added, fc_deletedLines = deleted, fc_kind = kind, fc_path = path\<rparr>"

fun operation_path :: "patch_operation \<Rightarrow> string" where
  "operation_path (AddFile p c) = p"
| "operation_path (DeleteFile p) = p"
| "operation_path (UpdateFile p m hs) = p"

text \<open>The update branch of the loop: the destination is the path itself or the move's target.\<close>

definition plan_update ::
  "'w sandbox_if \<Rightarrow> string \<Rightarrow> string \<Rightarrow> string option \<Rightarrow> patch_hunk list \<Rightarrow> text_states \<Rightarrow> ('w, text_states \<times> file_change) act" where
  "plan_update sandbox path text0 moveTo hunks states =
     bind_act (lift_res (applyUpdateText text0 hunks)) (\<lambda>u.
     bind_act (lift_res (case moveTo of None \<Rightarrow> Inr path | Some m \<Rightarrow> workspacePath m)) (\<lambda>destination.
       if destination \<noteq> path
       then bind_act (stateFor sandbox destination states) (\<lambda>(target, states').
         if ts_value target \<noteq> None
         then throw (Error (''Cannot move '' @ path @ '' to '' @ destination @ '': the destination already exists.''))
         else ret (set_value path None (set_value destination (Some (au_content u)) states'),
           change (au_addedLines u) (au_deletedLines u) MoveChange destination))
       else ret (set_value path (Some (au_content u)) states,
         change (au_addedLines u) (au_deletedLines u) UpdateChange destination)))"

definition plan_operation ::
  "'w sandbox_if \<Rightarrow> patch_operation \<Rightarrow> text_states \<Rightarrow> ('w, text_states \<times> file_change) act" where
  "plan_operation sandbox opn states =
     bind_act (sb_throwIfAborted sandbox) (\<lambda>_.
     bind_act (lift_res (workspacePath (operation_path opn))) (\<lambda>path.
     bind_act (stateFor sandbox path states) (\<lambda>(source, states'). case opn of
        AddFile p content \<Rightarrow>
          if ts_value source \<noteq> None then throw (Error (''Cannot add '' @ path @ '': the file already exists.''))
          else ret (set_value path (Some content) states', change (countLines content) 0 AddChange path)
      | DeleteFile p \<Rightarrow>
          if ts_value source = None then throw (Error (''Cannot delete '' @ path @ '': the file does not exist.''))
          else ret (set_value path None states',
            change 0 (countLines (case ts_original source of None \<Rightarrow> [] | Some t \<Rightarrow> t)) DeleteChange path)
      | UpdateFile p moveTo hunks \<Rightarrow> (case ts_value source of
          None \<Rightarrow> throw (Error (''Cannot update '' @ path @ '': the file does not exist.''))
        | Some text0 \<Rightarrow> plan_update sandbox path text0 moveTo hunks states'))))"

fun plan_operations ::
  "'w sandbox_if \<Rightarrow> patch_operation list \<Rightarrow> text_states \<Rightarrow> ('w, text_states \<times> file_change list) act" where
  "plan_operations sandbox [] states = ret (states, [])"
| "plan_operations sandbox (opn # ops) states =
     bind_act (plan_operation sandbox opn states) (\<lambda>(states', c).
     bind_act (plan_operations sandbox ops states') (\<lambda>(final, cs). ret (final, c # cs)))"

definition base_name :: "string \<Rightarrow> string" where
  "base_name path = rev (takeWhile (\<lambda>c. c \<noteq> CHR ''/'') (rev path))"

definition temporary_path :: "string \<Rightarrow> string \<Rightarrow> string" where
  "temporary_path path uuid =
     take (length path - length (base_name path)) path @ ''.'' @ base_name path @ ''.open-agent-'' @ uuid @ ''.tmp''"

definition rename_command :: "string \<Rightarrow> string \<Rightarrow> string" where
  "rename_command temporary path = ''mv -f -- '' @ shellQuote temporary @ '' '' @ shellQuote path"

definition writeAtomicTextFile :: "'w sandbox_if \<Rightarrow> string \<Rightarrow> string \<Rightarrow> ('w, unit) act" where
  "writeAtomicTextFile sandbox path content =
     (case sb_run sandbox of
        None \<Rightarrow> sb_writeTextFile sandbox path content
      | Some run \<Rightarrow>
          bind_act (sb_randomUUID sandbox) (\<lambda>uuid.
          let temporary = temporary_path path uuid in
          bind_act (sb_writeTextFile sandbox temporary content) (\<lambda>_.
          catch_act
            (bind_act (run (rename_command temporary path)) (\<lambda>(exitCode, stderr).
               if exitCode \<noteq> 0
               then throw (Error (''Atomic patch write failed for '' @ path @ '': '' @
                 (if stderr = [] then ''rename command failed'' else stderr)))
               else ret ()))
            (\<lambda>e. bind_act (attempt (sb_removePath sandbox temporary)) (\<lambda>_. throw e)))))"

fun commit_states :: "'w sandbox_if \<Rightarrow> text_states \<Rightarrow> ('w, unit) act" where
  "commit_states sandbox [] = ret ()"
| "commit_states sandbox ((path, st) # states) =
     bind_act (sb_throwIfAborted sandbox) (\<lambda>_.
     bind_act (if ts_value st = ts_original st then ret ()
       else case ts_value st of
           None \<Rightarrow> sb_removePath sandbox path
         | Some content \<Rightarrow> writeAtomicTextFile sandbox path content) (\<lambda>_.
     commit_states sandbox states))"

definition patch_summary :: "file_change list \<Rightarrow> patch_result" where
  "patch_summary changes = \<lparr>pr_changes = changes, pr_filesChanged = length (remdups (map fc_path changes)),
     pr_totalAddedLines = sum_list (map fc_addedLines changes), pr_totalDeletedLines = sum_list (map fc_deletedLines changes)\<rparr>"

definition execute_patch :: "'w sandbox_if \<Rightarrow> string \<Rightarrow> ('w, patch_result) act" where
  "execute_patch sandbox patch =
     bind_act (sb_throwIfAborted sandbox) (\<lambda>_.
     bind_act (lift_res (parsePatch patch)) (\<lambda>operations.
     bind_act (sb_throwIfAborted sandbox) (\<lambda>_.
     bind_act (plan_operations sandbox operations []) (\<lambda>(states, changes).
     bind_act (sb_throwIfAborted sandbox) (\<lambda>_.
     bind_act (commit_states sandbox states) (\<lambda>_. ret (patch_summary changes)))))))"

subsection \<open>What a patch means\<close>

text \<open>The abstract specification: each operation acts on the whole file system, in order.\<close>

type_synonym files = "string \<Rightarrow> string option"

fun patch_files :: "patch_operation \<Rightarrow> files \<Rightarrow> files res" where
  "patch_files (AddFile p content) F = (case workspacePath p of Inl e \<Rightarrow> Inl e | Inr path \<Rightarrow>
     if F path \<noteq> None then Inl (Error (''Cannot add '' @ path @ '': the file already exists.''))
     else Inr (F(path := Some content)))"
| "patch_files (DeleteFile p) F = (case workspacePath p of Inl e \<Rightarrow> Inl e | Inr path \<Rightarrow>
     if F path = None then Inl (Error (''Cannot delete '' @ path @ '': the file does not exist.''))
     else Inr (F(path := None)))"
| "patch_files (UpdateFile p moveTo hunks) F = (case workspacePath p of Inl e \<Rightarrow> Inl e | Inr path \<Rightarrow>
     (case F path of None \<Rightarrow> Inl (Error (''Cannot update '' @ path @ '': the file does not exist.'')) | Some text0 \<Rightarrow>
     (case applyUpdateText text0 hunks of Inl e \<Rightarrow> Inl e | Inr u \<Rightarrow>
     (case (case moveTo of None \<Rightarrow> Inr path | Some m \<Rightarrow> workspacePath m) of Inl e \<Rightarrow> Inl e | Inr destination \<Rightarrow>
       if destination = path then Inr (F(path := Some (au_content u)))
       else if F destination \<noteq> None
       then Inl (Error (''Cannot move '' @ path @ '' to '' @ destination @ '': the destination already exists.''))
       else Inr (F(path := None, destination := Some (au_content u)))))))"

fun patch_all :: "patch_operation list \<Rightarrow> files \<Rightarrow> files res" where
  "patch_all [] F = Inr F"
| "patch_all (opn # ops) F = (case patch_files opn F of Inl e \<Rightarrow> Inl e | Inr F' \<Rightarrow> patch_all ops F')"

definition patch_meaning :: "string \<Rightarrow> files \<Rightarrow> files res" where
  "patch_meaning patch F = (case parsePatch patch of Inl e \<Rightarrow> Inl e | Inr ops \<Rightarrow> patch_all ops F)"

end
