(* ===== verification/Patch_Safety.thy ===== *)
theory Patch_Safety
  imports Patch_Apply
begin

section \<open>A patch does what it means, and never half of a file\<close>

subsection \<open>The states of a plan\<close>

text \<open>The files a patch names: the paths of its operations and the targets of its moves.\<close>

fun operation_targets :: "patch_operation \<Rightarrow> string set" where
  "operation_targets (AddFile p c) = {path. workspacePath p = Inr path}"
| "operation_targets (DeleteFile p) = {path. workspacePath p = Inr path}"
| "operation_targets (UpdateFile p m hs) = {path. workspacePath p = Inr path} \<union> {d. \<exists>t. m = Some t \<and> workspacePath t = Inr d}"

definition targets_all :: "patch_operation list \<Rightarrow> string set" where
  "targets_all ops = (\<Union>opn\<in>set ops. operation_targets opn)"

text \<open>The plan so far, over the files \<open>F\<close> and with paths in \<open>K\<close>, stands for the file system \<open>G\<close>.\<close>

definition stands_for :: "string set \<Rightarrow> files \<Rightarrow> text_states \<Rightarrow> files \<Rightarrow> bool" where
  "stands_for K F states G \<longleftrightarrow> set (map fst states) \<subseteq> K \<and> distinct (map fst states) \<and>
     list_all (\<lambda>(p, st). ts_original st = F p \<and> ts_value st = G p) states \<and>
     (\<forall>p. p \<notin> set (map fst states) \<longrightarrow> G p = F p)"

lemma stands_for_Nil: "stands_for K F [] F"
  by (simp add: stands_for_def)

lemma stands_for_lookup: "stands_for K F states G \<Longrightarrow> map_of states p = Some st \<Longrightarrow> ts_original st = F p \<and> ts_value st = G p"
  by (auto simp: stands_for_def list_all_iff dest: map_of_SomeD)

lemma stands_for_unread: "stands_for K F states G \<Longrightarrow> map_of states p = None \<Longrightarrow> G p = F p"
  by (simp add: stands_for_def map_of_eq_None_iff)

lemma stands_for_read:
  "stands_for K F states G \<Longrightarrow> map_of states p = None \<Longrightarrow> p \<in> K \<Longrightarrow> stands_for K F (states @ [(p, \<lparr>ts_original = F p, ts_value = F p\<rparr>)]) G"
  by (auto simp: stands_for_def map_of_eq_None_iff)

lemma fst_set_value [simp]: "map fst (set_value p v states) = map fst states"
  by (simp add: set_value_def case_prod_beta comp_def if_distrib cong: if_cong)

lemma stands_for_set:
  assumes "stands_for K F states G" and "p \<in> set (map fst states)"
  shows "stands_for K F (set_value p v states) (G(p := v))"
  using assms unfolding stands_for_def
  by (simp only: fst_set_value) (auto simp: list_all_iff set_value_def split: if_splits)

definition touched :: "text_states \<Rightarrow> string \<Rightarrow> bool" where
  "touched states p \<longleftrightarrow> p \<in> set (map fst states)"

lemma lift_bind_Inr: "bind_act (lift_res (Inr x)) f = f x"
  by (intro ext) (simp add: bind_act_def lift_res_def)

subsection \<open>The sandbox's laws\<close>

text \<open>
  What the tool relies on: reading changes nothing and returns the text; a write, a removal and a
  rename change one file.  When they fail, a removal and a rename either did or did not happen, and a
  write may have left anything in the file it writes.  Temporary names are apart from
  the files of interest.  \<open>I\<close> is what stays true of the sandbox, and a \<open>calm\<close> one does not fail.
\<close>

locale sandbox_laws =
  fixes sandbox :: "'w sandbox_if" and files :: "'w \<Rightarrow> files" and I :: "'w \<Rightarrow> bool" and temps :: "string set"
    and run :: "string \<Rightarrow> ('w, nat \<times> string) act" and calm :: bool
  assumes aborts: "triple (\<lambda>w. I w \<and> files w = F) (sb_throwIfAborted sandbox) (\<lambda>_ w. I w \<and> files w = F)
      (\<lambda>_ w. \<not> calm \<and> I w \<and> files w = F)"
    and reads: "triple (\<lambda>w. I w \<and> files w = F) (sb_readTextFile sandbox p) (\<lambda>r w. r = F p \<and> I w \<and> files w = F)
      (\<lambda>_ w. \<not> calm \<and> I w \<and> files w = F)"
    and writes: "triple (\<lambda>w. I w \<and> files w = F) (sb_writeTextFile sandbox p c) (\<lambda>_ w. I w \<and> files w = F(p := Some c))
      (\<lambda>_ w. \<not> calm \<and> I w \<and> (\<exists>v. files w = F(p := v)))"
    and removes: "triple (\<lambda>w. I w \<and> files w = F) (sb_removePath sandbox p) (\<lambda>_ w. I w \<and> files w = F(p := None))
      (\<lambda>_ w. \<not> calm \<and> I w \<and> files w \<in> {F, F(p := None)})"
    and uuids: "triple (\<lambda>w. I w \<and> files w = F) (sb_randomUUID sandbox) (\<lambda>u w. (\<forall>p. temporary_path p u \<in> temps) \<and> I w \<and> files w = F)
      (\<lambda>_ w. \<not> calm \<and> I w \<and> files w = F)"
    and runs: "sb_run sandbox = Some run"
    and renames: "F a = Some c \<Longrightarrow> a \<noteq> b \<Longrightarrow> triple (\<lambda>w. I w \<and> files w = F) (run (rename_command a b))
      (\<lambda>r w. (calm \<longrightarrow> fst r = 0) \<and> I w \<and> (if fst r = 0 then files w = F(a := None, b := Some c) else files w = F))
      (\<lambda>_ w. \<not> calm \<and> I w \<and> files w \<in> {F, F(a := None, b := Some c)})"
begin

text \<open>Planning writes nothing, ends with the meaning of the operations, and fails with its error.\<close>

definition planned :: "string set \<Rightarrow> files \<Rightarrow> files res \<Rightarrow> text_states \<Rightarrow> 'w \<Rightarrow> bool" where
  "planned K F r states w \<longleftrightarrow> (\<exists>G. r = Inr G \<and> stands_for K F states G) \<and> I w \<and> files w = F"

definition refused :: "files \<Rightarrow> files res \<Rightarrow> js_error \<Rightarrow> 'w \<Rightarrow> bool" where
  "refused F r e w \<longleftrightarrow> (calm \<longrightarrow> r = Inl e) \<and> I w \<and> files w = F"

lemma stateFor_plan:
  assumes "stands_for K F states G" and "p \<in> K"
  shows "triple (\<lambda>w. I w \<and> files w = F) (stateFor sandbox p states)
    (\<lambda>(st, states') w. (ts_value st = G p \<and> stands_for K F states' G \<and> touched states' p \<and>
       (\<forall>q. touched states q \<longrightarrow> touched states' q)) \<and> I w \<and> files w = F)
    (\<lambda>e. refused F r e)"
proof (cases "map_of states p")
  case None
  show ?thesis unfolding stateFor_def None option.case
  proof (rule triple_bind)
    show "triple (\<lambda>w. I w \<and> files w = F) (sb_readTextFile sandbox p) (\<lambda>v w. v = F p \<and> I w \<and> files w = F) (\<lambda>e. refused F r e)"
      by (rule triple_weaken [OF reads]) (auto simp: refused_def)
  qed (use assms None in \<open>auto simp: triple_def ret_def stands_for_unread stands_for_read touched_def\<close>)
next
  case (Some st)
  have "touched states p" using Some by (force simp: touched_def dest: map_of_SomeD)
  with Some assms stands_for_lookup [OF assms(1) Some] show ?thesis
    by (simp add: stateFor_def triple_def ret_def)
qed

text \<open>A continuation whose precondition has facts that do not depend on the state.\<close>

lemma triple_facts: "(b \<Longrightarrow> triple P m Q E) \<Longrightarrow> triple (\<lambda>w. b \<and> P w) m Q E"
  by (auto simp: triple_def)

lemma update_plan:
  assumes st: "stands_for K F states G" and t: "G path = Some t" and path: "touched states path" "workspacePath p = Inr path"
    and K: "operation_targets (UpdateFile p moveTo hs) \<subseteq> K"
  shows "triple (\<lambda>w. I w \<and> files w = F) (plan_update sandbox path t moveTo hs states)
    (\<lambda>(states', c). planned K F (patch_files (UpdateFile p moveTo hs) G) states')
    (\<lambda>e. refused F (patch_files (UpdateFile p moveTo hs) G) e)"
proof (cases "applyUpdateText t hs")
  case (Inl e)
  with t path show ?thesis by (simp add: plan_update_def lift_res_def bind_act_def triple_def refused_def)
next
  case u: (Inr u)
  show ?thesis
  proof (cases "case moveTo of None \<Rightarrow> Inr path | Some m \<Rightarrow> workspacePath m")
    case (Inl e)
    with u t path show ?thesis by (simp add: plan_update_def lift_res_def bind_act_def triple_def refused_def)
  next
    case d: (Inr destination)
    have inK: "destination \<in> K" using d K path by (cases moveTo) auto
    have meaning: "patch_files (UpdateFile p moveTo hs) G =
        (if destination = path then Inr (G(path := Some (au_content u)))
         else if G destination \<noteq> None
         then Inl (Error (''Cannot move '' @ path @ '' to '' @ destination @ '': the destination already exists.''))
         else Inr (G(path := None, destination := Some (au_content u))))"
      using t path u d by simp
    show ?thesis
    proof (cases "destination = path")
      case True
      have "stands_for K F (set_value path (Some (au_content u)) states) (G(path := Some (au_content u)))"
        using stands_for_set [OF st] path by (simp add: touched_def)
      then show ?thesis unfolding meaning
        using True u d by (simp add: plan_update_def lift_res_def bind_act_def triple_def ret_def planned_def)
    next
      case False
      have step: "triple (\<lambda>w. I w \<and> files w = F)
          (if ts_value target \<noteq> None
           then throw (Error (''Cannot move '' @ path @ '' to '' @ destination @ '': the destination already exists.''))
           else ret (set_value path None (set_value destination (Some (au_content u)) states'),
             change (au_addedLines u) (au_deletedLines u) MoveChange destination))
          (\<lambda>(states', c). planned K F (patch_files (UpdateFile p moveTo hs) G) states')
          (\<lambda>e. refused F (patch_files (UpdateFile p moveTo hs) G) e)"
        if f: "ts_value target = G destination \<and> stands_for K F states' G \<and> touched states' destination \<and>
            (\<forall>q. touched states q \<longrightarrow> touched states' q)" for target states'
      proof (cases "ts_value target = None")
        case True
        have "stands_for K F (set_value path None (set_value destination (Some (au_content u)) states'))
            (G(destination := Some (au_content u), path := None))"
          using f path by (intro stands_for_set) (simp_all add: touched_def)
        moreover have "G(destination := Some (au_content u), path := None) = G(path := None, destination := Some (au_content u))"
          using False by (rule fun_upd_twist)
        ultimately show ?thesis unfolding meaning using True False f by (simp add: triple_def ret_def planned_def)
      next
        case False
        then show ?thesis unfolding meaning using f \<open>destination \<noteq> path\<close> by (simp add: triple_def throw_def refused_def)
      qed
      let ?after = "\<lambda>(target, states').
         if ts_value target \<noteq> None
         then throw (Error (''Cannot move '' @ path @ '' to '' @ destination @ '': the destination already exists.''))
         else ret (set_value path None (set_value destination (Some (au_content u)) states'),
           change (au_addedLines u) (au_deletedLines u) MoveChange destination)"
      have "plan_update sandbox path t moveTo hs states = bind_act (stateFor sandbox destination states) ?after"
        using False by (intro ext) (simp add: plan_update_def lift_res_def bind_act_def u d)
      moreover have "triple (\<lambda>w. I w \<and> files w = F) (bind_act (stateFor sandbox destination states) ?after)
        (\<lambda>(states', c). planned K F (patch_files (UpdateFile p moveTo hs) G) states')
        (\<lambda>e. refused F (patch_files (UpdateFile p moveTo hs) G) e)"
        by (rule triple_bind [OF stateFor_plan [OF st inK]]) (clarify, rule triple_facts, rule step)
      ultimately show ?thesis by (simp only:)
    qed
  qed
qed

lemma operation_plan:
  assumes st: "stands_for K F states G" and K: "operation_targets opn \<subseteq> K"
  shows "triple (\<lambda>w. I w \<and> files w = F) (plan_operation sandbox opn states)
    (\<lambda>(states', c). planned K F (patch_files opn G) states') (\<lambda>e. refused F (patch_files opn G) e)"
proof -
  have ab: "triple (\<lambda>w. I w \<and> files w = F) (sb_throwIfAborted sandbox) (\<lambda>_ w. I w \<and> files w = F) (\<lambda>e. refused F r e)" for r
    by (rule triple_weaken [OF aborts]) (auto simp: refused_def)
  show ?thesis unfolding plan_operation_def
  proof (rule triple_bind [OF ab])
    show "triple (\<lambda>w. I w \<and> files w = F)
      (bind_act (lift_res (workspacePath (operation_path opn))) (\<lambda>path.
       bind_act (stateFor sandbox path states) (\<lambda>(source, states'). case opn of
        AddFile p content \<Rightarrow>
          if ts_value source \<noteq> None then throw (Error (''Cannot add '' @ path @ '': the file already exists.''))
          else ret (set_value path (Some content) states', change (countLines content) 0 AddChange path)
      | DeleteFile p \<Rightarrow>
          if ts_value source = None then throw (Error (''Cannot delete '' @ path @ '': the file does not exist.''))
          else ret (set_value path None states',
            change 0 (countLines (case ts_original source of None \<Rightarrow> [] | Some t \<Rightarrow> t)) DeleteChange path)
      | UpdateFile p moveTo hunks \<Rightarrow> (case ts_value source of
          None \<Rightarrow> throw (Error (''Cannot update '' @ path @ '': the file does not exist.''))
        | Some text0 \<Rightarrow> plan_update sandbox path text0 moveTo hunks states'))))
      (\<lambda>(states', c). planned K F (patch_files opn G) states') (\<lambda>e. refused F (patch_files opn G) e)"
    proof (cases "workspacePath (operation_path opn)")
      case (Inl e)
      then show ?thesis by (cases opn) (simp_all add: lift_res_def bind_act_def triple_def refused_def)
    next
      case path: (Inr path)
      have inK: "path \<in> K" using path K by (cases opn) auto
      have step: "triple (\<lambda>w. I w \<and> files w = F) (case opn of
          AddFile p content \<Rightarrow>
            if ts_value source \<noteq> None then throw (Error (''Cannot add '' @ path @ '': the file already exists.''))
            else ret (set_value path (Some content) states', change (countLines content) 0 AddChange path)
        | DeleteFile p \<Rightarrow>
            if ts_value source = None then throw (Error (''Cannot delete '' @ path @ '': the file does not exist.''))
            else ret (set_value path None states',
              change 0 (countLines (case ts_original source of None \<Rightarrow> [] | Some t \<Rightarrow> t)) DeleteChange path)
        | UpdateFile p moveTo hunks \<Rightarrow> (case ts_value source of
            None \<Rightarrow> throw (Error (''Cannot update '' @ path @ '': the file does not exist.''))
          | Some text0 \<Rightarrow> plan_update sandbox path text0 moveTo hunks states'))
        (\<lambda>(states', c). planned K F (patch_files opn G) states') (\<lambda>e. refused F (patch_files opn G) e)"
        if f: "ts_value source = G path \<and> stands_for K F states' G \<and> touched states' path \<and>
            (\<forall>q. touched states q \<longrightarrow> touched states' q)" for source states'
      proof (cases opn)
        case (AddFile p content)
        with f path stands_for_set [of K F states' G path "Some content"] show ?thesis
          by (simp add: touched_def triple_def throw_def ret_def planned_def refused_def)
      next
        case (DeleteFile p)
        with f path stands_for_set [of K F states' G path None] show ?thesis
          by (simp add: touched_def triple_def throw_def ret_def planned_def refused_def)
      next
        case (UpdateFile p moveTo hs)
        show ?thesis
        proof (cases "ts_value source")
          case None
          with f path UpdateFile show ?thesis by (simp add: triple_def throw_def refused_def)
        next
          case (Some t)
          have "triple (\<lambda>w. I w \<and> files w = F) (plan_update sandbox path t moveTo hs states')
            (\<lambda>(states', c). planned K F (patch_files (UpdateFile p moveTo hs) G) states')
            (\<lambda>e. refused F (patch_files (UpdateFile p moveTo hs) G) e)"
            by (rule update_plan) (use f path UpdateFile Some K in simp_all)
          with Some show ?thesis unfolding UpdateFile by (simp del: patch_files.simps)
        qed
      qed
      have "triple (\<lambda>w. I w \<and> files w = F) (bind_act (stateFor sandbox path states) (\<lambda>(source, states'). case opn of
          AddFile p content \<Rightarrow>
            if ts_value source \<noteq> None then throw (Error (''Cannot add '' @ path @ '': the file already exists.''))
            else ret (set_value path (Some content) states', change (countLines content) 0 AddChange path)
        | DeleteFile p \<Rightarrow>
            if ts_value source = None then throw (Error (''Cannot delete '' @ path @ '': the file does not exist.''))
            else ret (set_value path None states',
              change 0 (countLines (case ts_original source of None \<Rightarrow> [] | Some t \<Rightarrow> t)) DeleteChange path)
        | UpdateFile p moveTo hunks \<Rightarrow> (case ts_value source of
            None \<Rightarrow> throw (Error (''Cannot update '' @ path @ '': the file does not exist.''))
          | Some text0 \<Rightarrow> plan_update sandbox path text0 moveTo hunks states')))
        (\<lambda>(states', c). planned K F (patch_files opn G) states') (\<lambda>e. refused F (patch_files opn G) e)"
        by (rule triple_bind [OF stateFor_plan [OF st inK]]) (clarify, rule triple_facts, rule step)
      then show ?thesis unfolding path lift_res_def bind_act_def [of "\<lambda>w. (Inr path, w)"] by simp
    qed
  qed
qed

lemma operations_plan:
  assumes "stands_for K F states G" and "targets_all ops \<subseteq> K"
  shows "triple (\<lambda>w. I w \<and> files w = F) (plan_operations sandbox ops states)
    (\<lambda>(states', cs). planned K F (patch_all ops G) states') (\<lambda>e. refused F (patch_all ops G) e)"
  using assms
proof (induction ops arbitrary: states G)
  case Nil
  then show ?case by (auto simp: triple_def ret_def planned_def)
next
  case (Cons opn ops)
  have K: "operation_targets opn \<subseteq> K" "targets_all ops \<subseteq> K" using Cons.prems(2) by (simp_all add: targets_all_def)
  have rest: "triple (planned K F (patch_files opn G) states')
      (bind_act (plan_operations sandbox ops states') (\<lambda>(final, cs). ret (final, c # cs)))
      (\<lambda>(states', cs). planned K F (patch_all (opn # ops) G) states') (\<lambda>e. refused F (patch_all (opn # ops) G) e)" for states' c
  proof (cases "\<exists>G'. patch_files opn G = Inr G' \<and> stands_for K F states' G'")
    case True
    then obtain G' where G': "patch_files opn G = Inr G'" "stands_for K F states' G'" by blast
    have "triple (\<lambda>w. I w \<and> files w = F) (bind_act (plan_operations sandbox ops states') (\<lambda>(final, cs). ret (final, c # cs)))
      (\<lambda>(states', cs). planned K F (patch_all (opn # ops) G) states') (\<lambda>e. refused F (patch_all (opn # ops) G) e)"
      using triple_bind [OF Cons.IH [OF G'(2) K(2)], where f = "\<lambda>(final, cs). ret (final, c # cs)"] G'(1)
      by (auto simp: triple_ret)
    then show ?thesis by (rule triple_weaken) (simp_all add: planned_def)
  qed (auto simp: triple_def planned_def simp del: patch_all.simps)
  have err: "triple (\<lambda>w. I w \<and> files w = F) (plan_operation sandbox opn states)
      (\<lambda>(states', c). planned K F (patch_files opn G) states') (\<lambda>e. refused F (patch_all (opn # ops) G) e)"
    by (rule triple_weaken [OF operation_plan [OF Cons.prems(1) K(1)]]) (auto simp: refused_def)
  show ?case unfolding plan_operations.simps
    by (rule triple_bind [OF err]) (clarify, rule rest)
qed

text \<open>Apart from temporary names the files are those of \<open>X\<close>.\<close>

definition agrees :: "files \<Rightarrow> 'w \<Rightarrow> bool" where
  "agrees X w \<longleftrightarrow> I w \<and> (\<forall>q. q \<notin> temps \<longrightarrow> files w q = X q)"

lemma triple_each:
  assumes "\<And>X. triple (\<lambda>w. I w \<and> files w = X) m (Q X) (E X)" and "\<And>w. P w \<Longrightarrow> I w"
    and "\<And>w0 x w. P w0 \<Longrightarrow> Q (files w0) x w \<Longrightarrow> Q' x w" and "\<And>w0 e w. P w0 \<Longrightarrow> E (files w0) e w \<Longrightarrow> E' e w"
  shows "triple P m Q' E'"
proof (rule tripleI)
  fix w x w' assume "P w" "m w = (Inr x, w')"
  with assms(2) tripleD [OF assms(1) [of "files w"], of w x w'] show "Q' x w'" by (auto intro: assms(3))
next
  fix w e w' assume "P w" "m w = (Inl e, w')"
  with assms(2) tripleE [OF assms(1) [of "files w"], of w e w'] show "E' e w'" by (auto intro: assms(4))
qed

lemma remove_temporary: "t \<in> temps \<Longrightarrow> triple (agrees X) (attempt (sb_removePath sandbox t)) (\<lambda>_. agrees X) (\<lambda>_. agrees X)"
  by (rule triple_attempt, rule triple_each [OF removes]) (auto simp: agrees_def)

lemma write_atomic:
  assumes p: "p \<notin> temps"
  shows "triple (agrees X) (writeAtomicTextFile sandbox p c) (\<lambda>_. agrees (X(p := Some c)))
    (\<lambda>_ w. \<not> calm \<and> (agrees X w \<or> agrees (X(p := Some c)) w))"
proof -
  let ?stop = "\<lambda>_ w. \<not> calm \<and> (agrees X w \<or> agrees (X(p := Some c)) w)"
  let ?held = "\<lambda>t w. agrees X w \<and> files w t = Some c"
  have id: "triple (agrees X) (sb_randomUUID sandbox) (\<lambda>u w. temporary_path p u \<in> temps \<and> agrees X w) ?stop"
    by (rule triple_each [OF uuids]) (auto simp: agrees_def)
  have wr: "triple (agrees X) (sb_writeTextFile sandbox t c) (\<lambda>_. ?held t) ?stop" if "t \<in> temps" for t
  proof (rule triple_each [OF writes])
    fix w0 w and e :: js_error
    assume "agrees X w0" and w: "\<not> calm \<and> I w \<and> (\<exists>v. files w = (files w0)(t := v))"
    then have "agrees X w" using that by (auto simp: agrees_def)
    with w show "?stop e w" by blast
  qed (use that in \<open>auto simp: agrees_def\<close>)
  have rn: "triple (?held t) (run (rename_command t p))
      (\<lambda>r w. (calm \<longrightarrow> fst r = 0) \<and> (if fst r = 0 then agrees (X(p := Some c)) w else agrees X w)) ?stop" if t: "t \<in> temps" for t
  proof (rule tripleI)
    fix w r w' assume w: "?held t w" and eq: "run (rename_command t p) w = (Inr r, w')"
    have "t \<noteq> p" using t p by auto
    from tripleD [OF renames [where F = "files w" and a = t and b = p and c = c], OF _ this _ eq] w p t
    show "(calm \<longrightarrow> fst r = 0) \<and> (if fst r = 0 then agrees (X(p := Some c)) w' else agrees X w')"
      by (auto simp: agrees_def split: if_splits)
  next
    fix w e w' assume w: "?held t w" and eq: "run (rename_command t p) w = (Inl e, w')"
    have "t \<noteq> p" using t p by auto
    from tripleE [OF renames [where F = "files w" and a = t and b = p and c = c], OF _ this _ eq] w p t
    show "?stop e w'" by (auto simp: agrees_def)
  qed
  have after: "triple (?stop e) (bind_act (attempt (sb_removePath sandbox t)) (\<lambda>_. throw e)) (\<lambda>_. agrees (X(p := Some c))) ?stop"
    if "t \<in> temps" for t e
  proof -
    have k: "triple (agrees Y) (attempt (sb_removePath sandbox t)) (\<lambda>_ w. agrees Y w) (\<lambda>_. agrees Y)" for Y
      by (rule remove_temporary [OF that])
    have "triple (?stop e) (attempt (sb_removePath sandbox t)) (\<lambda>_ w. ?stop e w) ?stop"
      using k [of X] k [of "X(p := Some c)"] by (fastforce simp: triple_def split: prod.splits sum.splits)
    then show ?thesis by (rule triple_bind) (rule triple_throw)
  qed
  have body: "triple (?held t) (bind_act (run (rename_command t p)) (\<lambda>(exitCode, stderr).
        if exitCode \<noteq> 0 then throw (err stderr) else ret ())) (\<lambda>_. agrees (X(p := Some c))) ?stop"
    if "t \<in> temps" for t and err :: "string \<Rightarrow> js_error"
    by (rule triple_bind [OF rn [OF that]]) (auto simp: triple_def throw_def ret_def)
  show ?thesis unfolding writeAtomicTextFile_def runs option.case Let_def
    by (rule triple_bind [OF id], rule triple_facts, rule triple_bind [OF wr], assumption,
        rule triple_catch [OF body], assumption, rule after, assumption)
qed

lemma commit_plan:
  assumes "list_all (\<lambda>(p, st). p \<notin> temps \<and> ts_original st = F p \<and> ts_value st = G p) states"
  shows "triple (agrees (\<lambda>q. if q \<in> D then G q else F q)) (commit_states sandbox states)
    (\<lambda>_. agrees (\<lambda>q. if q \<in> D \<union> set (map fst states) then G q else F q))
    (\<lambda>_ w. \<not> calm \<and> (\<exists>D'. agrees (\<lambda>q. if q \<in> D' then G q else F q) w))"
  using assms
proof (induction states arbitrary: D)
  case Nil
  then show ?case by (simp add: triple_ret)
next
  case (Cons e states)
  obtain p st where e: "e = (p, st)" by (cases e)
  let ?at = "\<lambda>D q. if q \<in> D then G q else F q"
  let ?stop = "\<lambda>_ w. \<not> calm \<and> (\<exists>D'. agrees (?at D') w)"
  have p: "p \<notin> temps" and o: "ts_original st = F p" and v: "ts_value st = G p" using Cons.prems by (simp_all add: e)
  have upd: "(?at D)(p := G p) = ?at (insert p D)" by auto
  have ab: "triple (agrees (?at D)) (sb_throwIfAborted sandbox) (\<lambda>_. agrees (?at D)) ?stop"
    by (rule triple_each [OF aborts]) (auto simp: agrees_def)
  have step: "triple (agrees (?at D)) (if ts_value st = ts_original st then ret ()
       else case ts_value st of None \<Rightarrow> sb_removePath sandbox p | Some content \<Rightarrow> writeAtomicTextFile sandbox p content)
     (\<lambda>_. agrees (?at (insert p D))) ?stop"
  proof (cases "ts_value st = ts_original st")
    case True
    then have "?at (insert p D) = ?at D" using o v by auto
    with True show ?thesis by (simp only: if_True) (simp add: triple_ret)
  next
    case False
    show ?thesis
    proof (cases "G p")
      case None
      have r: "triple (agrees (?at D)) (sb_removePath sandbox p) (\<lambda>_. agrees ((?at D)(p := G p)))
          (\<lambda>_ w. \<not> calm \<and> (agrees (?at D) w \<or> agrees ((?at D)(p := G p)) w))"
        by (rule triple_each [OF removes]) (auto simp: agrees_def None)
      then have "triple (agrees (?at D)) (sb_removePath sandbox p) (\<lambda>_. agrees (?at (insert p D))) ?stop"
        unfolding upd by (rule triple_weaken) blast+
      with False v None show ?thesis by simp
    next
      case (Some c)
      have "triple (agrees (?at D)) (writeAtomicTextFile sandbox p c) (\<lambda>_. agrees (?at (insert p D)))
          (\<lambda>_ w. \<not> calm \<and> (agrees (?at D) w \<or> agrees (?at (insert p D)) w))"
        using write_atomic [OF p, of "?at D" c] unfolding Some [symmetric] upd .
      then have "triple (agrees (?at D)) (writeAtomicTextFile sandbox p c) (\<lambda>_. agrees (?at (insert p D))) ?stop"
        by (rule triple_weaken) blast+
      with False v Some show ?thesis by simp
    qed
  qed
  have rest: "triple (agrees (?at (insert p D))) (commit_states sandbox states)
      (\<lambda>_. agrees (?at (D \<union> set (map fst (e # states))))) ?stop"
    using Cons.IH [of "insert p D"] Cons.prems by (simp add: e)
  show ?case unfolding e commit_states.simps
    by (rule triple_bind [OF ab], rule triple_bind [OF step]) (use rest in \<open>simp add: e\<close>)
qed

text \<open>The whole tool: read and plan, then write; what it cannot do it refuses before writing.\<close>

lemma execute_plan:
  assumes K: "\<And>ops. parsePatch patch = Inr ops \<Longrightarrow> targets_all ops \<subseteq> - temps"
  shows "triple (\<lambda>w. I w \<and> files w = F) (execute_patch sandbox patch)
    (\<lambda>_ w. \<exists>G. patch_meaning patch F = Inr G \<and> agrees G w)
    (\<lambda>e w. (calm \<longrightarrow> patch_meaning patch F = Inl e) \<and> (agrees F w \<or>
       (\<exists>G D. patch_meaning patch F = Inr G \<and> agrees (\<lambda>q. if q \<in> D then G q else F q) w)))"
proof -
  let ?stop = "\<lambda>e w. (calm \<longrightarrow> patch_meaning patch F = Inl e) \<and> (agrees F w \<or>
       (\<exists>G D. patch_meaning patch F = Inr G \<and> agrees (\<lambda>q. if q \<in> D then G q else F q) w))"
  have ab: "triple (\<lambda>w. I w \<and> files w = F) (sb_throwIfAborted sandbox) (\<lambda>_ w. I w \<and> files w = F) ?stop"
    by (rule triple_weaken [OF aborts]) (auto simp: agrees_def)
  show ?thesis
  proof (cases "parsePatch patch")
    case (Inl e)
    then have bad: "triple (\<lambda>w. I w \<and> files w = F) (bind_act (lift_res (parsePatch patch)) k)
      (\<lambda>_ w. \<exists>G. patch_meaning patch F = Inr G \<and> agrees G w) ?stop" for k :: "patch_operation list \<Rightarrow> ('w, patch_result) act"
      by (simp add: lift_res_def bind_act_def triple_def patch_meaning_def agrees_def)
    show ?thesis unfolding execute_patch_def by (rule triple_bind [OF ab bad])
  next
    case (Inr ops)
    then have meaning: "patch_meaning patch F = patch_all ops F" by (simp add: patch_meaning_def)
    have plan: "triple (\<lambda>w. I w \<and> files w = F) (plan_operations sandbox ops [])
        (\<lambda>(states, cs). planned (- temps) F (patch_all ops F) states) ?stop"
      by (rule triple_weaken [OF operations_plan [OF stands_for_Nil K [OF Inr]]])
         (auto simp: refused_def meaning agrees_def)
    have commits: "triple (planned (- temps) F (patch_all ops F) states)
        (bind_act (sb_throwIfAborted sandbox) (\<lambda>_. bind_act (commit_states sandbox states) (\<lambda>_. ret (patch_summary cs))))
        (\<lambda>_ w. \<exists>G. patch_meaning patch F = Inr G \<and> agrees G w) ?stop" for states cs
    proof (cases "\<exists>G. patch_all ops F = Inr G \<and> stands_for (- temps) F states G")
      case True
      then obtain G where G: "patch_all ops F = Inr G" "stands_for (- temps) F states G" by blast
      then have listed: "list_all (\<lambda>(p, st). p \<notin> temps \<and> ts_original st = F p \<and> ts_value st = G p) states"
        by (auto simp: stands_for_def list_all_iff)
      have all: "(\<lambda>q. if q \<in> {} \<union> set (map fst states) then G q else F q) = G"
        using G(2) by (auto simp: stands_for_def)
      have commit: "triple (agrees F) (commit_states sandbox states) (\<lambda>_. agrees G) ?stop"
        using commit_plan [OF listed, of "{}"] unfolding all
        by (rule triple_weaken) (auto simp: meaning G(1))
      have "triple (\<lambda>w. I w \<and> files w = F)
        (bind_act (sb_throwIfAborted sandbox) (\<lambda>_. bind_act (commit_states sandbox states) (\<lambda>_. ret (patch_summary cs))))
        (\<lambda>_ w. \<exists>G. patch_meaning patch F = Inr G \<and> agrees G w) ?stop"
        by (rule triple_bind [OF ab], rule triple_bind [OF triple_weaken [OF commit, where P' = "\<lambda>w. I w \<and> files w = F"
              and Q' = "\<lambda>_. agrees G" and E' = ?stop]])
           (auto simp: agrees_def meaning G(1) intro: triple_ret)
      then show ?thesis by (rule triple_weaken) (simp_all add: planned_def)
    qed (auto simp: triple_def planned_def)
    show ?thesis unfolding execute_patch_def Inr
      by (rule triple_bind [OF ab], subst lift_bind_Inr, rule triple_bind [OF ab], rule triple_bind [OF plan],
          clarify, rule commits)
  qed
qed

end

end
