(* ===== verification/Patch_World.thy ===== *)
theory Patch_World
  imports Patch_Safety
begin

section \<open>The patch tool against a sandbox whose calls can fail\<close>

text \<open>
  A file system with a schedule of faults: the n-th call works, fails before its effect, fails
  after it (a lost answer), or - a write - fails in the middle and leaves any text at all in the file it
  writes, a truncated one for instance.  Removals and renames within the file system either happen or do
  not.  The rename is run by a shell that splits the command it is given, so the
  quoting of the tool is part of what is proved.  Every schedule is quantified over.
\<close>

datatype verdict = Works | Refuses | Loses | Tears string

record patch_world =
  pw_files :: files
  pw_fault :: "nat \<Rightarrow> verdict"
  pw_uuid :: "nat \<Rightarrow> string"
  pw_calls :: nat

definition torn_call :: "(string \<Rightarrow> files \<Rightarrow> files) \<Rightarrow> (files \<Rightarrow> 'a \<times> files) \<Rightarrow> (patch_world, 'a) act" where
  "torn_call torn f w =
     (let w' = w\<lparr>pw_calls := Suc (pw_calls w)\<rparr>; r = f (pw_files w)
      in case pw_fault w (pw_calls w) of
           Works \<Rightarrow> (Inr (fst r), w'\<lparr>pw_files := snd r\<rparr>)
         | Refuses \<Rightarrow> (Inl (Error ''sandbox call failed''), w')
         | Loses \<Rightarrow> (Inl (Error ''sandbox call failed''), w'\<lparr>pw_files := snd r\<rparr>)
         | Tears t \<Rightarrow> (Inl (Error ''sandbox call failed''), w'\<lparr>pw_files := torn t (pw_files w)\<rparr>))"

definition world_call :: "(files \<Rightarrow> 'a \<times> files) \<Rightarrow> (patch_world, 'a) act" where
  "world_call f = torn_call (\<lambda>_ F. F) f"

definition shell_run :: "string \<Rightarrow> files \<Rightarrow> (nat \<times> string) \<times> files" where
  "shell_run command F =
     (case shell_words False None command of
        Some [m, f, d, a, b] \<Rightarrow>
          if m = ''mv'' \<and> f = ''-f'' \<and> d = ''--'' \<and> a \<noteq> b
          then (case F a of None \<Rightarrow> ((1, ''mv: cannot stat''), F) | Some c \<Rightarrow> ((0, []), F(a := None, b := Some c)))
          else ((1, ''usage''), F)
      | _ \<Rightarrow> ((127, ''not found''), F))"

definition world_uuid :: "(patch_world, string) act" where
  "world_uuid w = (Inr (pw_uuid w (pw_calls w)), w\<lparr>pw_calls := Suc (pw_calls w)\<rparr>)"

definition world_sandbox :: "patch_world sandbox_if" where
  "world_sandbox = \<lparr>
     sb_readTextFile = (\<lambda>p. world_call (\<lambda>F. (F p, F))),
     sb_writeTextFile = (\<lambda>p c. torn_call (\<lambda>t F. F(p := Some t)) (\<lambda>F. ((), F(p := Some c)))),
     sb_removePath = (\<lambda>p. world_call (\<lambda>F. ((), F(p := None)))),
     sb_run = Some (\<lambda>command. world_call (shell_run command)),
     sb_randomUUID = world_uuid,
     sb_throwIfAborted = world_call (\<lambda>F. ((), F))\<rparr>"

definition temporary_names :: "string set" where
  "temporary_names = {q. \<exists>p u. q = temporary_path p u}"

text \<open>The file names a patch may use: no temporary name of the tool among them.\<close>

definition avoids_temporaries :: "string \<Rightarrow> bool" where
  "avoids_temporaries patch \<longleftrightarrow> (case parsePatch patch of Inl e \<Rightarrow> True | Inr ops \<Rightarrow> targets_all ops \<inter> temporary_names = {})"

definition faultless :: "patch_world \<Rightarrow> bool" where
  "faultless w \<longleftrightarrow> (\<forall>n. pw_fault w n = Works)"

subsection \<open>The sandbox meets the laws\<close>

lemma world_call_triple:
  "triple (\<lambda>w. True \<and> pw_files w = F) (world_call f) (\<lambda>r w. r = fst (f F) \<and> True \<and> pw_files w = snd (f F))
     (\<lambda>_ w. \<not> False \<and> True \<and> pw_files w \<in> {F, snd (f F)})"
  by (auto simp: triple_def world_call_def torn_call_def Let_def split: verdict.splits)

lemma torn_write_triple:
  "triple (\<lambda>w. True \<and> pw_files w = F) (torn_call (\<lambda>t F. F(p := Some t)) (\<lambda>F. ((), F(p := Some c))))
     (\<lambda>_ w. True \<and> pw_files w = F(p := Some c)) (\<lambda>_ w. \<not> False \<and> True \<and> (\<exists>v. pw_files w = F(p := v)))"
  by (auto simp: triple_def torn_call_def Let_def split: verdict.splits intro: exI [of _ "F p"])

lemma calm_write_triple:
  "triple (\<lambda>w. faultless w \<and> pw_files w = F) (torn_call (\<lambda>t F. F(p := Some t)) (\<lambda>F. ((), F(p := Some c))))
     (\<lambda>_ w. faultless w \<and> pw_files w = F(p := Some c)) (\<lambda>_ w. \<not> True \<and> faultless w \<and> (\<exists>v. pw_files w = F(p := v)))"
  by (auto simp: triple_def torn_call_def Let_def faultless_def)

lemma calm_call_triple:
  "triple (\<lambda>w. faultless w \<and> pw_files w = F) (world_call f) (\<lambda>r w. r = fst (f F) \<and> faultless w \<and> pw_files w = snd (f F))
     (\<lambda>_ w. \<not> True \<and> faultless w \<and> pw_files w \<in> {F, snd (f F)})"
  by (auto simp: triple_def world_call_def torn_call_def Let_def faultless_def)

lemma shell_rename:
  "F a = Some c \<Longrightarrow> a \<noteq> b \<Longrightarrow> shell_run (rename_command a b) F = ((0, []), F(a := None, b := Some c))"
  unfolding shell_run_def rename_command_def by (simp only: shell_rename_words) simp

interpretation faulty: sandbox_laws world_sandbox pw_files "\<lambda>w. True" temporary_names
  "\<lambda>command. world_call (shell_run command)" False
proof
  show "triple (\<lambda>w. True \<and> pw_files w = F) (sb_randomUUID world_sandbox)
      (\<lambda>u w. (\<forall>p. temporary_path p u \<in> temporary_names) \<and> True \<and> pw_files w = F) (\<lambda>_ w. \<not> False \<and> True \<and> pw_files w = F)" for F
    by (auto simp: world_sandbox_def world_uuid_def temporary_names_def triple_def)
next
  show "triple (\<lambda>w. True \<and> pw_files w = F) (sb_writeTextFile world_sandbox p c) (\<lambda>_ w. True \<and> pw_files w = F(p := Some c))
      (\<lambda>_ w. \<not> False \<and> True \<and> (\<exists>v. pw_files w = F(p := v)))" for F p c
    using torn_write_triple by (simp add: world_sandbox_def)
qed (auto simp: world_sandbox_def shell_rename intro!: triple_weaken [OF world_call_triple])

interpretation calm: sandbox_laws world_sandbox pw_files faultless temporary_names
  "\<lambda>command. world_call (shell_run command)" True
proof
  show "triple (\<lambda>w. faultless w \<and> pw_files w = F) (sb_randomUUID world_sandbox)
      (\<lambda>u w. (\<forall>p. temporary_path p u \<in> temporary_names) \<and> faultless w \<and> pw_files w = F) (\<lambda>_ w. \<not> True \<and> faultless w \<and> pw_files w = F)" for F
    by (auto simp: world_sandbox_def world_uuid_def temporary_names_def triple_def faultless_def)
next
  show "triple (\<lambda>w. faultless w \<and> pw_files w = F) (sb_writeTextFile world_sandbox p c)
      (\<lambda>_ w. faultless w \<and> pw_files w = F(p := Some c)) (\<lambda>_ w. \<not> True \<and> faultless w \<and> (\<exists>v. pw_files w = F(p := v)))" for F p c
    using calm_write_triple by (simp add: world_sandbox_def)
qed (auto simp: world_sandbox_def shell_rename intro!: triple_weaken [OF calm_call_triple])

lemma avoids_targets: "avoids_temporaries patch \<Longrightarrow> parsePatch patch = Inr ops \<Longrightarrow> targets_all ops \<subseteq> - temporary_names"
  by (auto simp: avoids_temporaries_def)

text \<open>A patch and a world to try them on.\<close>

definition demo_patch :: "string" where
  "demo_patch = print_patch [AddFile ''b.txt'' [CHR ''y'', LF], DeleteFile ''a.txt'']"

definition demo_world :: "(nat \<Rightarrow> verdict) \<Rightarrow> patch_world" where
  "demo_world fault = \<lparr>pw_files = [''/workspace/a.txt'' \<mapsto> [CHR ''x'', LF]], pw_fault = fault, pw_uuid = (\<lambda>_. ''u''), pw_calls = 0\<rparr>"

lemma demo_parses: "parsePatch demo_patch = Inr [AddFile ''b.txt'' [CHR ''y'', LF], DeleteFile ''a.txt'']"
  unfolding demo_patch_def
  by (rule parse_print) (simp_all add: path_text_def plain_line_def ends_with_newline_def LF_def CR_def js_trim_def is_js_space_def)

lemma temporary_ends: "q \<in> temporary_names \<Longrightarrow> take 4 (rev q) = ''pmt.''"
  by (auto simp: temporary_names_def temporary_path_def)

lemma demo_paths: "workspacePath ''b.txt'' = Inr ''/workspace/b.txt''" "workspacePath ''a.txt'' = Inr ''/workspace/a.txt''"
  by code_simp+

lemma demo_avoids: "avoids_temporaries demo_patch" and demo_name: "''/workspace/a.txt'' \<notin> temporary_names"
  "''/workspace/b.txt'' \<notin> temporary_names"
proof -
  show n: "''/workspace/a.txt'' \<notin> temporary_names" "''/workspace/b.txt'' \<notin> temporary_names" by (auto dest: temporary_ends)
  then show "avoids_temporaries demo_patch" by (simp add: avoids_temporaries_def demo_parses targets_all_def demo_paths)
qed

lemma demo_meaning:
  "patch_meaning demo_patch (pw_files (demo_world fault)) = Inr [''/workspace/b.txt'' \<mapsto> [CHR ''y'', LF]]"
  by (auto simp: patch_meaning_def demo_parses demo_paths demo_world_def fun_upd_def)

text \<open>C6 (every_file_is_old_or_new)
  Let the sandbox run shell commands, and let the patch name no file that could be one of the tool's temporary files.
  Whatever calls to the sandbox fail, before or after their effect, or - the writes - in the middle and leaving any text in
  the file written, and whenever the turn is aborted: each file outside the tool's temporary names is afterwards
  either untouched or has exactly the text the whole patch gives it - never a truncated or half-rewritten one, and
  nothing at all when the patch as a whole cannot be applied - and a run that reports success has applied all of it.
  (A rename of one file to another is taken to happen whole or not at all.)\<close>

theorem every_file_is_old_or_new:
  assumes "avoids_temporaries patch" and "q \<notin> temporary_names" and "execute_patch world_sandbox patch w = (r, w')"
  shows "(pw_files w' q = pw_files w q \<or> (\<exists>G. patch_meaning patch (pw_files w) = Inr G \<and> pw_files w' q = G q)) \<and>
    (isl r \<or> (\<exists>G. patch_meaning patch (pw_files w) = Inr G \<and> pw_files w' q = G q))"
proof (cases r)
  case (Inl e)
  with tripleE [OF faulty.execute_plan [where patch = patch and F = "pw_files w", OF avoids_targets [OF assms(1)]], where w = w and e = e and w' = w'] assms(2,3)
  show ?thesis by (auto simp: faulty.agrees_def split: if_splits)
next
  case (Inr x)
  with tripleD [OF faulty.execute_plan [where patch = patch and F = "pw_files w", OF avoids_targets [OF assms(1)]], where w = w and x = x and w' = w'] assms(2,3)
  show ?thesis by (auto simp: faulty.agrees_def)
qed

theorem every_file_is_old_or_new_witness:
  "pw_files (snd (execute_patch world_sandbox demo_patch (demo_world (\<lambda>n. if n = 9 then Tears [] else Works)))) ''/workspace/b.txt''
     \<in> {None, Some [CHR ''y'', LF]}"
  using every_file_is_old_or_new [OF demo_avoids demo_name(2) surjective_pairing, of "demo_world (\<lambda>n. if n = 9 then Tears [] else Works)"]
  unfolding demo_meaning by (auto simp: demo_world_def)

text \<open>C7 (execute_means_the_patch)
  When no call fails, running the tool is the patch's meaning: the operations applied one after the
  other to the whole file system.  It fails exactly when one of them cannot be applied, with that
  operation's error and with every file as it was, and otherwise leaves the meaning's files.\<close>

theorem execute_means_the_patch:
  assumes "faultless w" and "avoids_temporaries patch" and "execute_patch world_sandbox patch w = (r, w')"
  shows "case patch_meaning patch (pw_files w) of
      Inl e \<Rightarrow> r = Inl e \<and> (\<nexists>q. q \<notin> temporary_names \<and> pw_files w' q \<noteq> pw_files w q)
    | Inr G \<Rightarrow> (\<exists>x. r = Inr x) \<and> (\<nexists>q. q \<notin> temporary_names \<and> pw_files w' q \<noteq> G q)"
proof (cases r)
  case (Inl e)
  with tripleE [OF calm.execute_plan [where patch = patch and F = "pw_files w", OF avoids_targets [OF assms(2)]], where w = w and e = e and w' = w'] assms(1,3)
  show ?thesis by (auto simp: calm.agrees_def)
next
  case (Inr x)
  with tripleD [OF calm.execute_plan [where patch = patch and F = "pw_files w", OF avoids_targets [OF assms(2)]], where w = w and x = x and w' = w'] assms(1,3)
  show ?thesis by (auto simp: calm.agrees_def)
qed

theorem execute_means_the_patch_witness:
  "pw_files (snd (execute_patch world_sandbox demo_patch (demo_world (\<lambda>_. Works)))) ''/workspace/b.txt'' = Some [CHR ''y'', LF]"
proof -
  have "faultless (demo_world (\<lambda>_. Works))" by (simp add: faultless_def demo_world_def)
  from execute_means_the_patch [OF this demo_avoids surjective_pairing] demo_name(2)
  show ?thesis unfolding demo_meaning by auto
qed

end
