(* ===== verification/Js_Arrays.thy ===== *)
theory Js_Arrays
  imports Prelude "HOL-Library.Multiset"
begin

section \<open>Arrays and maps of JavaScript the sources share\<close>

text \<open>
  \<^verbatim>\<open>Map\<close> as a way to remove duplicates, the stable sort by a comparator, and the searches from either
  end, with the lemmas the components use.
\<close>

subsection \<open>Definitions\<close>

text \<open>\<^verbatim>\<open>new Map(entries).values()\<close>: one entry per key, at its first position, with its last value.\<close>

function map_values :: "('k \<times> 'v) list \<Rightarrow> 'v list" where
  "map_values [] = []"
| "map_values ((k, v) # kvs) =
     (case map_of (rev kvs) k of None \<Rightarrow> v | Some w \<Rightarrow> w) # map_values (filter (\<lambda>(k', _). k' \<noteq> k) kvs)"
  by pat_completeness auto
termination by (relation "measure length") (simp_all add: le_imp_less_Suc)

text \<open>\<^verbatim>\<open>Map.prototype.set\<close> on the entries in insertion order.\<close>

fun map_set :: "'k \<Rightarrow> 'v \<Rightarrow> ('k \<times> 'v) list \<Rightarrow> ('k \<times> 'v) list" where
  "map_set k v [] = [(k, v)]"
| "map_set k v ((k', v') # m) = (if k' = k then (k, v) # m else (k', v') # map_set k v m)"

text \<open>\<^verbatim>\<open>Array.prototype.sort\<close> with a comparator: stable.\<close>

fun insert_by :: "('a \<Rightarrow> 'a \<Rightarrow> int) \<Rightarrow> 'a \<Rightarrow> 'a list \<Rightarrow> 'a list" where
  "insert_by cmp x [] = [x]"
| "insert_by cmp x (y # ys) = (if cmp x y \<le> 0 then x # y # ys else y # insert_by cmp x ys)"

definition sort_by :: "('a \<Rightarrow> 'a \<Rightarrow> int) \<Rightarrow> 'a list \<Rightarrow> 'a list" where
  "sort_by cmp xs = foldr (insert_by cmp) xs []"

text \<open>\<^verbatim>\<open>Array.prototype.findLastIndex\<close>, with \<open>None\<close> for \<open>-1\<close>.\<close>

fun find_last_index :: "('a \<Rightarrow> bool) \<Rightarrow> 'a list \<Rightarrow> nat option" where
  "find_last_index P [] = None"
| "find_last_index P (x # xs) =
     (case find_last_index P xs of Some i \<Rightarrow> Some (Suc i) | None \<Rightarrow> if P x then Some 0 else None)"

text \<open>\<^verbatim>\<open>Array.prototype.findIndex\<close>\<close>

fun find_index :: "('a \<Rightarrow> bool) \<Rightarrow> 'a list \<Rightarrow> nat option" where
  "find_index P [] = None"
| "find_index P (x # xs) = (if P x then Some 0 else map_option Suc (find_index P xs))"

subsection \<open>Maps and sorting\<close>

lemma map_of_map_set: "map_of (map_set k v m) = (map_of m)(k \<mapsto> v)"
  by (induction m) (auto simp: fun_eq_iff)

lemma keys_map_set: "map fst (map_set k v m) = (if k \<in> fst ` set m then map fst m else map fst m @ [k])"
  by (induction m) force+

lemma map_set_entry: "e \<in> set (map_set k v m) \<Longrightarrow> e = (k, v) \<or> e \<in> set m"
  by (induction m) (auto split: if_splits)

lemma map_set_same: "map_of m k = Some v \<Longrightarrow> map_set k v m = m"
  by (induction m) (auto split: if_splits)

lemma map_set_new: "k \<notin> fst ` set m \<Longrightarrow> map_set k v m = m @ [(k, v)]"
  by (induction m) auto

text \<open>The map that removes duplicates and the sort.\<close>

lemma map_values_keyed:
  "list_all (\<lambda>(a, b). a = key b) kvs \<Longrightarrow> set (map_values kvs) \<subseteq> snd ` set kvs \<and> distinct (map key (map_values kvs)) \<and>
     length (map_values kvs) \<le> length kvs"
proof (induction kvs rule: map_values.induct)
  case (2 k v kvs)
  let ?rest = "filter (\<lambda>(k', _). k' \<noteq> k) kvs"
  let ?v = "case map_of (rev kvs) k of None \<Rightarrow> v | Some w \<Rightarrow> w"
  have rest: "list_all (\<lambda>(a, b). a = key b) ?rest" using "2.prems" by (auto simp: list_all_iff)
  note IH = "2.IH" [OF this]
  have v: "key ?v = k \<and> ?v \<in> snd ` set ((k, v) # kvs)"
  proof (cases "map_of (rev kvs) k")
    case None
    with "2.prems" show ?thesis by simp
  next
    case (Some w)
    then have "(k, w) \<in> set kvs" using map_of_SomeD by fastforce
    with "2.prems" Some show ?thesis by (force simp: list_all_iff)
  qed
  have eq: "map_values ((k, v) # kvs) = ?v # map_values ?rest" by (rule map_values.simps)
  have fresh: "k \<notin> set (map key (map_values ?rest))"
  proof
    assume "k \<in> set (map key (map_values ?rest))"
    then obtain w where w: "w \<in> set (map_values ?rest)" "key w = k" by auto
    from IH w(1) have "w \<in> snd ` set ?rest" by (rule subsetD [OF conjunct1])
    then obtain e where e: "e \<in> set ?rest" "w = snd e" by (rule imageE)
    then have "fst e = key w" using rest unfolding list_all_iff by fastforce
    moreover have "fst e \<noteq> k" using e(1) by auto
    ultimately show False using w(2) by simp
  qed
  have "snd ` set ?rest \<subseteq> snd ` set ((k, v) # kvs)" by auto
  then have "set (map_values ?rest) \<subseteq> snd ` set ((k, v) # kvs)" using IH by blast
  moreover have "length (map_values ?rest) \<le> length kvs" using IH by (meson length_filter_le order_trans)
  moreover have "distinct (key ?v # map key (map_values ?rest))" using IH fresh v by simp
  ultimately show ?case unfolding eq using v by simp
qed simp

lemma map_values_distinct: "distinct (map key rs) \<Longrightarrow> map_values (map (\<lambda>r. (key r, r)) rs) = rs"
proof (induction rs)
  case (Cons r rs)
  have "filter (\<lambda>(k', _). k' \<noteq> key r) (map (\<lambda>r. (key r, r)) rs) = map (\<lambda>r. (key r, r)) rs"
    using Cons.prems by (auto simp: filter_id_conv) (metis image_eqI)
  moreover have "map_of (rev (map (\<lambda>r. (key r, r)) rs)) (key r) = None"
    using Cons.prems by (auto simp: map_of_eq_None_iff image_iff)
  ultimately show ?case using Cons by simp
qed simp

lemma mset_insert_by [simp]: "mset (insert_by cmp x xs) = add_mset x (mset xs)"
  by (induction xs) auto

lemma mset_sort_by [simp]: "mset (sort_by cmp xs) = mset xs"
  unfolding sort_by_def by (induction xs) auto

lemma set_sort_by [simp]: "set (sort_by cmp xs) = set xs"
  by (metis mset_sort_by set_mset_mset)

lemma sort_by_sorted: "sorted_wrt (\<lambda>a b. cmp a b \<le> 0) xs \<Longrightarrow> sort_by cmp xs = xs"
proof (induction xs)
  case (Cons x xs)
  then have "sort_by cmp (x # xs) = insert_by cmp x xs" by (simp add: sort_by_def)
  with Cons.prems show ?case by (cases xs) auto
qed (simp add: sort_by_def)

text \<open>A comparator that is consistent: total and transitive.\<close>

definition consistent :: "('a \<Rightarrow> 'a \<Rightarrow> int) \<Rightarrow> bool" where
  "consistent cmp \<longleftrightarrow> (\<forall>a b. cmp a b \<le> 0 \<or> cmp b a \<le> 0) \<and> (\<forall>a b c. cmp a b \<le> 0 \<longrightarrow> cmp b c \<le> 0 \<longrightarrow> cmp a c \<le> 0)"

lemma consistent_key: "consistent cmp \<Longrightarrow> consistent (\<lambda>a b. cmp (f a) (f b))"
  by (auto simp: consistent_def)

lemma set_insert_by: "set (insert_by cmp x xs) = insert x (set xs)"
  by (metis mset_insert_by set_mset_add_mset_insert set_mset_mset)

lemma sorted_insert_by: "consistent cmp \<Longrightarrow> sorted_wrt (\<lambda>a b. cmp a b \<le> 0) xs \<Longrightarrow> sorted_wrt (\<lambda>a b. cmp a b \<le> 0) (insert_by cmp x xs)"
proof (induction xs)
  case (Cons y ys)
  show ?case
  proof (cases "cmp x y \<le> 0")
    case True
    with Cons.prems show ?thesis by (auto simp: consistent_def)
  next
    case False
    then have "cmp y x \<le> 0" using Cons.prems(1) by (auto simp: consistent_def)
    with False Cons show ?thesis by (auto simp: set_insert_by)
  qed
qed simp

lemma sorted_sort_by: "consistent cmp \<Longrightarrow> sorted_wrt (\<lambda>a b. cmp a b \<le> 0) (sort_by cmp xs)"
  unfolding sort_by_def by (induction xs) (auto intro: sorted_insert_by)

subsection \<open>Searching\<close>

lemma find_last_index_append:
  "find_last_index P (xs @ ys) = (case find_last_index P ys of Some i \<Rightarrow> Some (length xs + i) | None \<Rightarrow> find_last_index P xs)"
  by (induction xs) (auto split: option.split)

lemma find_last_index_snoc: "find_last_index P (xs @ [x]) = (if P x then Some (length xs) else find_last_index P xs)"
  by (simp add: find_last_index_append)

lemma find_last_index_None: "find_last_index P xs = None \<longleftrightarrow> list_all (\<lambda>x. \<not> P x) xs"
  by (induction xs) (auto split: option.splits)

lemma find_last_index_Some: "find_last_index P xs = Some i \<Longrightarrow> i < length xs \<and> P (xs ! i)"
  by (induction xs arbitrary: i) (auto split: option.splits if_splits)

lemma find_last_index_update:
  "i < length xs \<Longrightarrow> P y = P (xs ! i) \<Longrightarrow> find_last_index P (xs[i := y]) = find_last_index P xs"
proof (induction xs arbitrary: i)
  case (Cons x xs)
  then show ?case by (cases i) (auto split: option.split)
qed simp

end
