(* ===== verification/Run_Policy.thy ===== *)
theory Run_Policy
  imports Json Js_Arrays "HOL-Library.List_Lexorder" "HOL-Library.Char_ord"
begin

section \<open>The policy of a run: parsing and enforcement (agent/lib/run-policy.ts, agent/hooks/run-policy.ts)\<close>

text \<open>
  A run's policy is an untrusted JSON value until \<open>parseAgentRunPolicy\<close> has read it; the hooks count
  turns, model calls, tool calls and tokens in the session's durable state and refuse the step that
  would exceed a limit.  \<open>localeCompare\<close> and \<open>JSON.parse\<close> are parameters, the durable state is passed.
  Numbers are exact (\<open>rat\<close>); strings are Latin-1, as in the rest of the development.
\<close>

subsection \<open>The data\<close>

datatype execution_mode = Automation | Cautious | Standard

record extension_ref =
  xr_id :: string
  xr_version :: string

record run_limits =
  lm_maxDurationMs :: "int option"
  lm_maxInputTokens :: "int option"
  lm_maxModelCalls :: "int option"
  lm_maxOutputTokens :: "int option"
  lm_maxToolCalls :: "int option"
  lm_maxTurns :: "int option"

record run_policy =
  rp_executionMode :: "execution_mode option"
  rp_hostCapabilities :: "string list option"
  rp_limits :: "run_limits option"
  rp_mcpConnections :: "extension_ref list option"
  rp_skills :: "extension_ref list option"
  rp_tools :: "string list option"

record policy_state =
  ps_inputTokens :: rat
  ps_modelCalls :: int
  ps_outputTokens :: rat
  ps_startedAtMs :: int
  ps_toolCalls :: int
  ps_turns :: int

definition initial_state :: policy_state where
  "initial_state = \<lparr>ps_inputTokens = 0, ps_modelCalls = 0, ps_outputTokens = 0, ps_startedAtMs = 0,
     ps_toolCalls = 0, ps_turns = 0\<rparr>"

definition empty_policy :: run_policy where
  "empty_policy = \<lparr>rp_executionMode = None, rp_hostCapabilities = None, rp_limits = None,
     rp_mcpConnections = None, rp_skills = None, rp_tools = None\<rparr>"

definition MAX_CAPABILITIES :: nat where "MAX_CAPABILITIES = 128"
definition MAX_TOOLS :: nat where "MAX_TOOLS = 256"
definition MAX_EXTENSIONS :: nat where "MAX_EXTENSIONS = 64"

definition LIMIT_NAMES :: "string list" where
  "LIMIT_NAMES = [''maxDurationMs'', ''maxInputTokens'', ''maxModelCalls'', ''maxOutputTokens'', ''maxToolCalls'', ''maxTurns'']"

definition LIMIT_MAXIMUMS :: "string \<Rightarrow> int" where
  "LIMIT_MAXIMUMS name =
     (if name = ''maxDurationMs'' then 24 * 60 * 60 * 1000
      else if name = ''maxInputTokens'' then 40000000
      else if name = ''maxModelCalls'' then 10000
      else if name = ''maxOutputTokens'' then 10000000
      else if name = ''maxToolCalls'' then 100000
      else 10000)"

subsection \<open>Names and versions\<close>

text \<open>\<^verbatim>\<open>/^[a-zA-Z0-9][a-zA-Z0-9._:-]*$/\<close>, \<^verbatim>\<open>/^[a-z0-9][a-z0-9._-]*$/\<close>\<close>

definition capability_char :: "char \<Rightarrow> bool" where
  "capability_char c \<longleftrightarrow> is_alnum c \<or> c \<in> {CHR ''.'', CHR ''_'', CHR '':'', CHR ''-''}"

definition CAPABILITY_NAME :: "string \<Rightarrow> bool" where
  "CAPABILITY_NAME s = (case s of [] \<Rightarrow> False
     | c # cs \<Rightarrow> is_alnum c \<and> list_all capability_char cs)"

definition extension_char :: "char \<Rightarrow> bool" where
  "extension_char c \<longleftrightarrow> is_digit c \<or> is_lower c \<or> c \<in> {CHR ''.'', CHR ''_'', CHR ''-''}"

definition EXTENSION_ID :: "string \<Rightarrow> bool" where
  "EXTENSION_ID s = (case s of [] \<Rightarrow> False | c # cs \<Rightarrow> (is_digit c \<or> is_lower c) \<and> list_all extension_char cs)"

text \<open>
  \<^verbatim>\<open>/^[0-9]+\.[0-9]+\.[0-9]+(?:-[a-zA-Z0-9.-]+)?$/\<close>: a digit run is followed by a character that is no
  digit, so the match takes it whole.
\<close>

definition digit_run :: "string \<Rightarrow> string option" where
  "digit_run s = (if takeWhile is_digit s = [] then None else Some (dropWhile is_digit s))"

definition dot_then_digits :: "string \<Rightarrow> string option" where
  "dot_then_digits s = (case s of [] \<Rightarrow> None | c # cs \<Rightarrow> if c = CHR ''.'' then digit_run cs else None)"

definition version_tail :: "string \<Rightarrow> bool" where
  "version_tail s = (case s of [] \<Rightarrow> True
     | c # cs \<Rightarrow> c = CHR ''-'' \<and> cs \<noteq> [] \<and>
         list_all (\<lambda>d. is_alnum d \<or> d \<in> {CHR ''.'', CHR ''-''}) cs)"

definition EXTENSION_VERSION :: "string \<Rightarrow> bool" where
  "EXTENSION_VERSION s =
     (case Option.bind (Option.bind (digit_run s) dot_then_digits) dot_then_digits of
        None \<Rightarrow> False | Some rest \<Rightarrow> version_tail rest)"

subsection \<open>The parser\<close>

text \<open>\<^verbatim>\<open>if (unknown) throw\<close>: the name that was found is tested for truth, so the empty one passes.\<close>

definition assertOnlyKeys :: "(string \<times> json) list \<Rightarrow> string list \<Rightarrow> string \<Rightarrow> unit res" where
  "assertOnlyKeys kvs allowed label =
     (case List.find (\<lambda>k. k \<notin> set allowed) (map fst kvs) of
        None \<Rightarrow> Inr ()
      | Some unknown \<Rightarrow> if unknown = [] then Inr () else Inl (Error (label @ '' contains unknown field '' @ unknown @ ''.'')))"

definition members :: "json \<Rightarrow> (string \<times> json) list" where
  "members v = (case v of JObj kvs \<Rightarrow> kvs | _ \<Rightarrow> [])"

text \<open>A list of values read one by one; the first that is refused is the error.\<close>

fun each_value :: "('a \<Rightarrow> 'b res) \<Rightarrow> 'a list \<Rightarrow> 'b list res" where
  "each_value f [] = Inr []"
| "each_value f (x # xs) = (case f x of Inl e \<Rightarrow> Inl e | Inr y \<Rightarrow> map_sum id (Cons y) (each_value f xs))"

definition valid_name :: "string \<Rightarrow> bool" where
  "valid_name s \<longleftrightarrow> \<not> length s < 1 \<and> \<not> length s > 160 \<and> js_trim s = s \<and> CAPABILITY_NAME s"

definition parse_name :: "string \<Rightarrow> json \<Rightarrow> string res" where
  "parse_name message item = (case item of JStr s \<Rightarrow> if valid_name s then Inr s else Inl (Error message) | _ \<Rightarrow> Inl (Error message))"

definition parse_names :: "nat \<Rightarrow> string \<Rightarrow> string \<Rightarrow> json option \<Rightarrow> string list option res" where
  "parse_names maximum too_many invalid v = (case v of
       None \<Rightarrow> Inr None
     | Some (JArr xs) \<Rightarrow>
         if length xs > maximum then Inl (Error too_many)
         else map_sum id (\<lambda>names. Some (sort (remdups names))) (each_value (parse_name invalid) xs)
     | Some _ \<Rightarrow> Inl (Error too_many))"

definition parseHostCapabilities :: "json option \<Rightarrow> string list option res" where
  "parseHostCapabilities = parse_names MAX_CAPABILITIES ''AgentRun hostCapabilities must contain at most 128 names.''
     ''AgentRun hostCapabilities contains an invalid capability name.''"

definition parseToolNames :: "json option \<Rightarrow> string list option res" where
  "parseToolNames = parse_names MAX_TOOLS ''AgentRun tools must contain at most 256 names.''
     ''AgentRun tools contains an invalid tool name.''"

definition parse_limit :: "json \<Rightarrow> string \<Rightarrow> int option res" where
  "parse_limit limits name = (case jget name limits of
       None \<Rightarrow> Inr None
     | Some v \<Rightarrow> (case jsafe_int (Some v) of
           Some n \<Rightarrow> if n \<le> 0 \<or> n > LIMIT_MAXIMUMS name
             then Inl (Error (''AgentRun limit '' @ name @ '' must be a positive safe integer no greater than '' @ show_nat (nat (LIMIT_MAXIMUMS name)) @ ''.''))
             else Inr (Some n)
         | None \<Rightarrow> Inl (Error (''AgentRun limit '' @ name @ '' must be a positive safe integer no greater than '' @ show_nat (nat (LIMIT_MAXIMUMS name)) @ ''.''))))"

definition parse_limits :: "json option \<Rightarrow> run_limits option res" where
  "parse_limits v = (case v of
       None \<Rightarrow> Inr None
     | Some limits \<Rightarrow>
         if \<not> is_record limits then Inl (Error ''AgentRun limits must be a JSON object.'')
         else (case assertOnlyKeys (members limits) LIMIT_NAMES ''AgentRun limits'' of
           Inl e \<Rightarrow> Inl e
         | Inr _ \<Rightarrow> map_sum id (\<lambda>ns. Some \<lparr>lm_maxDurationMs = ns ! 0, lm_maxInputTokens = ns ! 1, lm_maxModelCalls = ns ! 2,
                lm_maxOutputTokens = ns ! 3, lm_maxToolCalls = ns ! 4, lm_maxTurns = ns ! 5\<rparr>)
             (each_value (parse_limit limits) LIMIT_NAMES)))"

definition parseExecutionMode :: "json \<Rightarrow> execution_mode res" where
  "parseExecutionMode v = (case v of
       JStr s \<Rightarrow> if s = ''automation'' then Inr Automation else if s = ''cautious'' then Inr Cautious
         else if s = ''standard'' then Inr Standard
         else Inl (Error ''AgentRun executionMode must be automation, cautious, or standard.'')
     | _ \<Rightarrow> Inl (Error ''AgentRun executionMode must be automation, cautious, or standard.''))"

definition ref_key :: "extension_ref \<Rightarrow> string" where
  "ref_key r = xr_id r @ ''@'' @ xr_version r"

definition valid_ref :: "extension_ref \<Rightarrow> bool" where
  "valid_ref r \<longleftrightarrow> length (xr_id r) \<le> 120 \<and> EXTENSION_ID (xr_id r) \<and> length (xr_version r) \<le> 80 \<and> EXTENSION_VERSION (xr_version r)"

definition parse_ref :: "string \<Rightarrow> json \<Rightarrow> extension_ref res" where
  "parse_ref field item =
     (if \<not> is_record item then Inl (Error (''AgentRun '' @ field @ '' contains an invalid extension ref.''))
      else case assertOnlyKeys (members item) [''id'', ''version''] (''AgentRun '' @ field @ '' extension ref'') of
        Inl e \<Rightarrow> Inl e
      | Inr _ \<Rightarrow> (case (jstring (jget ''id'' item), jstring (jget ''version'' item)) of
            (Some i, Some v) \<Rightarrow> if valid_ref \<lparr>xr_id = i, xr_version = v\<rparr> then Inr \<lparr>xr_id = i, xr_version = v\<rparr>
              else Inl (Error (''AgentRun '' @ field @ '' contains an invalid extension ref.''))
          | _ \<Rightarrow> Inl (Error (''AgentRun '' @ field @ '' contains an invalid extension ref.''))))"

definition parseExtensionRefs :: "(string \<Rightarrow> string \<Rightarrow> int) \<Rightarrow> json option \<Rightarrow> string \<Rightarrow> extension_ref list option res" where
  "parseExtensionRefs localeCompare v field = (case v of
       None \<Rightarrow> Inr None
     | Some (JArr xs) \<Rightarrow>
         if length xs > MAX_EXTENSIONS then Inl (Error (''AgentRun '' @ field @ '' must contain at most 64 extension refs.''))
         else map_sum id (\<lambda>refs. Some (sort_by (\<lambda>l r. localeCompare (ref_key l) (ref_key r))
                (map_values (map (\<lambda>r. (ref_key r, r)) refs)))) (each_value (parse_ref field) xs)
     | Some _ \<Rightarrow> Inl (Error (''AgentRun '' @ field @ '' must contain at most 64 extension refs.'')))"

definition POLICY_KEYS :: "string list" where
  "POLICY_KEYS = [''executionMode'', ''hostCapabilities'', ''limits'', ''mcpConnections'', ''skills'', ''tools'']"

definition parse_mode :: "json option \<Rightarrow> execution_mode option res" where
  "parse_mode v = (case v of None \<Rightarrow> Inr None | Some m \<Rightarrow> map_sum id Some (parseExecutionMode m))"

definition parseAgentRunPolicy :: "(string \<Rightarrow> string \<Rightarrow> int) \<Rightarrow> json \<Rightarrow> run_policy res" where
  "parseAgentRunPolicy localeCompare v =
     (if \<not> is_record v then Inl (Error ''The AgentRun policy must be a JSON object.'')
      else case assertOnlyKeys (members v) POLICY_KEYS ''AgentRun policy'' of Inl e \<Rightarrow> Inl e | Inr _ \<Rightarrow>
      (case parse_mode (jget ''executionMode'' v) of Inl e \<Rightarrow> Inl e | Inr mode \<Rightarrow>
      (case parseHostCapabilities (jget ''hostCapabilities'' v) of Inl e \<Rightarrow> Inl e | Inr hostCapabilities \<Rightarrow>
      (case parse_limits (jget ''limits'' v) of Inl e \<Rightarrow> Inl e | Inr limits \<Rightarrow>
      (case parseExtensionRefs localeCompare (jget ''mcpConnections'' v) ''mcpConnections'' of Inl e \<Rightarrow> Inl e | Inr mcpConnections \<Rightarrow>
      (case parseExtensionRefs localeCompare (jget ''skills'' v) ''skills'' of Inl e \<Rightarrow> Inl e | Inr skills \<Rightarrow>
      (case parseToolNames (jget ''tools'' v) of Inl e \<Rightarrow> Inl e | Inr tools \<Rightarrow>
        Inr \<lparr>rp_executionMode = mode, rp_hostCapabilities = hostCapabilities, rp_limits = limits,
          rp_mcpConnections = mcpConnections, rp_skills = skills, rp_tools = tools\<rparr>)))))))"

text \<open>The stored policy of a session: the initiator's attribute, else the current caller's; an unreadable one is no policy.\<close>

definition attribute_of :: "json option \<Rightarrow> json option \<Rightarrow> json option" where
  "attribute_of initiator current = (case initiator of None \<Rightarrow> current | Some JNull \<Rightarrow> current | Some v \<Rightarrow> Some v)"

definition readAgentRunPolicy ::
  "(string \<Rightarrow> json res) \<Rightarrow> (string \<Rightarrow> string \<Rightarrow> int) \<Rightarrow> json option \<Rightarrow> json option \<Rightarrow> run_policy" where
  "readAgentRunPolicy json_parse localeCompare initiator current = (case attribute_of initiator current of
       Some (JStr s) \<Rightarrow> (case json_parse s of Inl _ \<Rightarrow> empty_policy
         | Inr parsed \<Rightarrow> (case parseAgentRunPolicy localeCompare parsed of Inl _ \<Rightarrow> empty_policy | Inr p \<Rightarrow> p))
     | _ \<Rightarrow> empty_policy)"

definition readAgentExecutionMode ::
  "(string \<Rightarrow> json res) \<Rightarrow> (string \<Rightarrow> string \<Rightarrow> int) \<Rightarrow> json option \<Rightarrow> json option \<Rightarrow> execution_mode" where
  "readAgentExecutionMode json_parse localeCompare initiator current =
     (case rp_executionMode (readAgentRunPolicy json_parse localeCompare initiator current) of None \<Rightarrow> Standard | Some m \<Rightarrow> m)"

definition allowedHostCapabilities ::
  "(string \<Rightarrow> json res) \<Rightarrow> (string \<Rightarrow> string \<Rightarrow> int) \<Rightarrow> json option \<Rightarrow> json option \<Rightarrow> string set option" where
  "allowedHostCapabilities json_parse localeCompare initiator current =
     map_option set (rp_hostCapabilities (readAgentRunPolicy json_parse localeCompare initiator current))"

subsection \<open>Enforcement\<close>

text \<open>The checks in their order; the first that is exceeded is the error, here without the two numbers it quotes.\<close>

definition policy_checks :: "run_limits \<Rightarrow> policy_state \<Rightarrow> int \<Rightarrow> (int option \<times> rat \<times> string) list" where
  "policy_checks limits st now =
     [(lm_maxTurns limits, of_int (ps_turns st), ''maxTurns''),
      (lm_maxModelCalls limits, of_int (ps_modelCalls st), ''maxModelCalls''),
      (lm_maxToolCalls limits, of_int (ps_toolCalls st), ''maxToolCalls''),
      (lm_maxInputTokens limits, ps_inputTokens st, ''maxInputTokens''),
      (lm_maxOutputTokens limits, ps_outputTokens st, ''maxOutputTokens''),
      (lm_maxDurationMs limits, of_int (if ps_startedAtMs st > 0 then max 0 (now - ps_startedAtMs st) else 0), ''maxDurationMs'')]"

definition is_exceeded :: "int option \<times> rat \<times> string \<Rightarrow> bool" where
  "is_exceeded c = (case c of (limit, actual, _) \<Rightarrow> (case limit of None \<Rightarrow> False | Some l \<Rightarrow> actual > of_int l))"

definition enforceAgentRunPolicy :: "run_limits option \<Rightarrow> policy_state \<Rightarrow> int \<Rightarrow> unit res" where
  "enforceAgentRunPolicy limits st now = (case limits of None \<Rightarrow> Inr () | Some l \<Rightarrow>
     (case List.find is_exceeded (policy_checks l st now) of
        None \<Rightarrow> Inr () | Some (_, _, name) \<Rightarrow> Inl (Error (''AgentRun policy exceeded '' @ name))))"

definition initializeRunPolicy :: "int \<Rightarrow> (policy_state, unit) act" where
  "initializeRunPolicy now st = (Inr (), st\<lparr>ps_startedAtMs := if ps_startedAtMs st \<noteq> 0 then ps_startedAtMs st else now\<rparr>)"

datatype boundary_kind = ModelCall | ToolCall | TurnStart

definition at_boundary :: "boundary_kind \<Rightarrow> int \<Rightarrow> policy_state \<Rightarrow> policy_state" where
  "at_boundary b increment st = st\<lparr>
     ps_modelCalls := ps_modelCalls st + (if b = ModelCall then increment else 0),
     ps_toolCalls := ps_toolCalls st + (if b = ToolCall then increment else 0),
     ps_turns := ps_turns st + (if b = TurnStart then increment else 0)\<rparr>"

definition recordRunPolicyBoundary :: "run_policy \<Rightarrow> boundary_kind \<Rightarrow> int \<Rightarrow> int \<Rightarrow> (policy_state, unit) act" where
  "recordRunPolicyBoundary policy b increment now current =
     (let next = at_boundary b increment current
      in case enforceAgentRunPolicy (rp_limits policy) next now of Inl e \<Rightarrow> (Inl e, current) | Inr _ \<Rightarrow> (Inr (), next))"

definition with_usage :: "rat \<Rightarrow> rat \<Rightarrow> policy_state \<Rightarrow> policy_state" where
  "with_usage inputTokens outputTokens st = st\<lparr>
     ps_inputTokens := ps_inputTokens st + inputTokens, ps_outputTokens := ps_outputTokens st + outputTokens\<rparr>"

definition recordRunPolicyUsage :: "run_policy \<Rightarrow> rat \<Rightarrow> rat \<Rightarrow> int \<Rightarrow> (policy_state, unit) act" where
  "recordRunPolicyUsage policy inputTokens outputTokens now current =
     (let next = with_usage inputTokens outputTokens current
      in case enforceAgentRunPolicy (rp_limits policy) next now of Inl e \<Rightarrow> (Inl e, current) | Inr _ \<Rightarrow> (Inr (), next))"

subsection \<open>The hooks\<close>

definition nonNegative :: "json option \<Rightarrow> rat" where
  "nonNegative v = (case v of Some (JNum x) \<Rightarrow> if x \<ge> 0 then x else 0 | _ \<Rightarrow> 0)"

definition toUsage :: "json option \<Rightarrow> rat \<times> rat" where
  "toUsage v = (case v of
       Some u \<Rightarrow> if is_record u then (nonNegative (jget ''inputTokens'' u), nonNegative (jget ''outputTokens'' u)) else (0, 0)
     | None \<Rightarrow> (0, 0))"

datatype policy_event =
    SessionStart
  | TurnStart_event
  | StepStart
  | ActionsRequest "json option"
  | StepEnd "json option"

text \<open>The hook of one event: the policy of the session, the time, and the payload the event carries.\<close>

definition policy_hook :: "run_policy \<Rightarrow> int \<Rightarrow> policy_event \<Rightarrow> (policy_state, unit) act" where
  "policy_hook policy now e = (case e of
       SessionStart \<Rightarrow> initializeRunPolicy now
     | TurnStart_event \<Rightarrow> recordRunPolicyBoundary policy TurnStart 1 now
     | StepStart \<Rightarrow> recordRunPolicyBoundary policy ModelCall 1 now
     | ActionsRequest actions \<Rightarrow>
         recordRunPolicyBoundary policy ToolCall (int (length (case jarray actions of None \<Rightarrow> [] | Some xs \<Rightarrow> xs))) now
     | StepEnd usage \<Rightarrow> (case toUsage usage of (i, out) \<Rightarrow> recordRunPolicyUsage policy i out now))"

text \<open>A session: the events with their times; a hook that throws leaves the state it found.\<close>

fun policy_session :: "run_policy \<Rightarrow> (int \<times> policy_event) list \<Rightarrow> policy_state \<Rightarrow> policy_state" where
  "policy_session policy [] st = st"
| "policy_session policy ((now, e) # es) st = policy_session policy es (snd (policy_hook policy now e st))"

end
