(* ===== verification/Run_Policy_Theorems.thy ===== *)
theory Run_Policy_Theorems
  imports Run_Policy
begin

section \<open>What a run's policy guarantees\<close>

subsection \<open>Enforcement\<close>

text \<open>Counters within a limit, and the order in which a session's state moves.\<close>

definition under :: "int option \<Rightarrow> rat \<Rightarrow> bool" where
  "under limit x \<longleftrightarrow> (case limit of None \<Rightarrow> True | Some l \<Rightarrow> x \<le> of_int l)"

definition limits_kept :: "run_limits \<Rightarrow> policy_state \<Rightarrow> bool" where
  "limits_kept l st \<longleftrightarrow> under (lm_maxTurns l) (of_int (ps_turns st)) \<and> under (lm_maxModelCalls l) (of_int (ps_modelCalls st)) \<and>
     under (lm_maxToolCalls l) (of_int (ps_toolCalls st)) \<and> under (lm_maxInputTokens l) (ps_inputTokens st) \<and>
     under (lm_maxOutputTokens l) (ps_outputTokens st)"

definition moved :: "policy_state \<Rightarrow> policy_state \<Rightarrow> bool" where
  "moved st st' \<longleftrightarrow> ps_turns st \<le> ps_turns st' \<and> ps_modelCalls st \<le> ps_modelCalls st' \<and> ps_toolCalls st \<le> ps_toolCalls st' \<and>
     ps_inputTokens st \<le> ps_inputTokens st' \<and> ps_outputTokens st \<le> ps_outputTokens st' \<and>
     (ps_startedAtMs st = 0 \<or> ps_startedAtMs st' = ps_startedAtMs st)"

lemma moved_refl [simp]: "moved st st"
  by (simp add: moved_def)

lemma moved_trans: "moved a b \<Longrightarrow> moved b c \<Longrightarrow> moved a c"
  by (auto simp: moved_def)

lemma find_None: "List.find P xs = None \<longleftrightarrow> list_all (\<lambda>x. \<not> P x) xs"
  by (auto simp: find_None_iff list_all_iff)

lemma map_sum_Inr: "map_sum id f r = Inr y \<longleftrightarrow> (\<exists>x. r = Inr x \<and> y = f x)"
  by (cases r) auto

lemma not_exceeded: "\<not> is_exceeded (limit, x, name) \<longleftrightarrow> under limit x"
  by (auto simp: is_exceeded_def under_def split: option.splits)

lemma enforce_within:
  assumes "enforceAgentRunPolicy (Some l) st now = Inr ()"
  shows "limits_kept l st"
proof -
  have "List.find is_exceeded (policy_checks l st now) = None"
    using assms by (auto simp: enforceAgentRunPolicy_def split: option.splits)
  then have "list_all (\<lambda>c. \<not> is_exceeded c) (policy_checks l st now)" unfolding find_None .
  then show ?thesis by (simp add: policy_checks_def not_exceeded limits_kept_def)
qed

lemma enforce_refuses:
  "isl (enforceAgentRunPolicy (Some l) st now) \<longleftrightarrow> list_ex is_exceeded (policy_checks l st now)"
  by (auto simp: enforceAgentRunPolicy_def find_None list_all_iff list_ex_iff split: option.splits)
     (metis find_None_iff option.distinct(1))

lemma exceeded_mono: "is_exceeded (limit, x, name) \<Longrightarrow> x \<le> y \<Longrightarrow> is_exceeded (limit, y, name)"
  by (auto simp: is_exceeded_def split: option.splits)

lemma refusal_mono:
  assumes r: "isl (enforceAgentRunPolicy (Some l) st now)" and m: "moved st st'" and t: "now \<le> now'"
  shows "isl (enforceAgentRunPolicy (Some l) st' now')"
proof -
  have d: "(if ps_startedAtMs st > 0 then max 0 (now - ps_startedAtMs st) else 0)
      \<le> (if ps_startedAtMs st' > 0 then max 0 (now' - ps_startedAtMs st') else 0)"
    using m t by (auto simp: moved_def)
  show ?thesis
    using r m exceeded_mono [OF _ of_int_le_iff [THEN iffD2, OF d]]
    unfolding enforce_refuses policy_checks_def by (auto simp: moved_def intro: exceeded_mono)
qed

text \<open>Every hook either leaves the state alone and throws, or moves it to one within the limits.\<close>

lemma usage_nonnegative: "toUsage u = (i, out) \<Longrightarrow> 0 \<le> i \<and> 0 \<le> out"
  by (auto simp: toUsage_def nonNegative_def split: option.splits json.splits if_splits)

lemma hook_moved: "moved st (snd (policy_hook p now e st))"
proof (cases e)
  case SessionStart
  then show ?thesis by (simp add: policy_hook_def initializeRunPolicy_def moved_def)
next
  case (StepEnd u)
  obtain i out where u: "toUsage u = (i, out)" by (cases "toUsage u")
  with usage_nonnegative [OF u] show ?thesis unfolding StepEnd
    by (simp add: policy_hook_def recordRunPolicyUsage_def Let_def with_usage_def moved_def split: sum.splits)
qed (simp_all add: policy_hook_def recordRunPolicyBoundary_def Let_def at_boundary_def moved_def split: sum.splits)

lemma hook_within: "rp_limits p = Some l \<Longrightarrow> limits_kept l st \<Longrightarrow> limits_kept l (snd (policy_hook p now e st))"
proof (cases e)
  case SessionStart
  assume "limits_kept l st"
  then show ?thesis unfolding SessionStart by (simp add: policy_hook_def initializeRunPolicy_def limits_kept_def)
qed (auto simp: policy_hook_def recordRunPolicyBoundary_def recordRunPolicyUsage_def Let_def split: sum.splits prod.splits
      intro: enforce_within)

lemma hook_throws: "fst (policy_hook p now e st) = Inl err \<Longrightarrow> snd (policy_hook p now e st) = st"
  by (auto simp: policy_hook_def initializeRunPolicy_def recordRunPolicyBoundary_def recordRunPolicyUsage_def Let_def
      split: policy_event.splits sum.splits prod.splits)

lemma session_moved: "moved st (policy_session p es st)"
proof (induction es arbitrary: st)
  case (Cons a es)
  obtain now e where "a = (now, e)" by (cases a)
  with Cons [of "snd (policy_hook p now e st)"] show ?case
    using moved_trans [OF hook_moved] by simp
qed simp

lemma session_within: "rp_limits p = Some l \<Longrightarrow> limits_kept l st \<Longrightarrow> limits_kept l (policy_session p es st)"
proof (induction es arbitrary: st)
  case (Cons a es)
  obtain now e where "a = (now, e)" by (cases a)
  with Cons hook_within show ?case by simp
qed simp

subsection \<open>Parsing\<close>

lemma each_value_all2: "each_value f xs = Inr ys \<longleftrightarrow> list_all2 (\<lambda>x y. f x = Inr y) xs ys"
proof (induction xs arbitrary: ys)
  case (Cons x xs)
  then show ?case by (cases "f x"; cases "each_value f xs") (auto simp: list_all2_Cons1 split: sum.splits)
qed auto

definition names_ok :: "nat \<Rightarrow> string list \<Rightarrow> bool" where
  "names_ok maximum xs \<longleftrightarrow> sorted xs \<and> distinct xs \<and> length xs \<le> maximum \<and> list_all valid_name xs"

definition limit_ok :: "string \<Rightarrow> int option \<Rightarrow> bool" where
  "limit_ok name v \<longleftrightarrow> (case v of None \<Rightarrow> True | Some n \<Rightarrow> 0 < n \<and> n \<le> LIMIT_MAXIMUMS name)"

definition limits_ok :: "run_limits \<Rightarrow> bool" where
  "limits_ok l \<longleftrightarrow> limit_ok ''maxDurationMs'' (lm_maxDurationMs l) \<and> limit_ok ''maxInputTokens'' (lm_maxInputTokens l) \<and>
     limit_ok ''maxModelCalls'' (lm_maxModelCalls l) \<and> limit_ok ''maxOutputTokens'' (lm_maxOutputTokens l) \<and>
     limit_ok ''maxToolCalls'' (lm_maxToolCalls l) \<and> limit_ok ''maxTurns'' (lm_maxTurns l)"

definition refs_ok :: "extension_ref list \<Rightarrow> bool" where
  "refs_ok rs \<longleftrightarrow> distinct (map ref_key rs) \<and> length rs \<le> MAX_EXTENSIONS \<and> list_all valid_ref rs"

definition policy_ok :: "run_policy \<Rightarrow> bool" where
  "policy_ok p \<longleftrightarrow> pred_option (names_ok MAX_CAPABILITIES) (rp_hostCapabilities p) \<and> pred_option limits_ok (rp_limits p) \<and>
     pred_option refs_ok (rp_mcpConnections p) \<and> pred_option refs_ok (rp_skills p) \<and> pred_option (names_ok MAX_TOOLS) (rp_tools p)"

lemma parse_name_valid: "parse_name m j = Inr s \<longleftrightarrow> j = JStr s \<and> valid_name s"
  by (auto simp: parse_name_def split: json.splits)

lemma parse_names_ok: "parse_names maximum a b v = Inr (Some xs) \<Longrightarrow> names_ok maximum xs"
proof -
  assume "parse_names maximum a b v = Inr (Some xs)"
  then obtain js ys where js: "length js \<le> maximum" "each_value (parse_name b) js = Inr ys" "xs = sort (remdups ys)"
    by (auto simp: parse_names_def map_sum_Inr not_less split: option.splits json.splits if_splits)
  then have "list_all2 (\<lambda>j s. j = JStr s \<and> valid_name s) js ys" by (simp add: each_value_all2 parse_name_valid)
  then have "length ys = length js" "list_all valid_name ys"
    by (auto simp: list_all2_conv_all_nth list_all_length)
  with js length_remdups_leq [of ys] show ?thesis by (auto simp: names_ok_def list_all_iff)
qed

lemma parse_limit_ok: "parse_limit limits name = Inr v \<Longrightarrow> limit_ok name v"
  by (auto simp: parse_limit_def limit_ok_def split: option.splits if_splits)

lemma parse_limits_ok: "parse_limits v = Inr (Some l) \<Longrightarrow> limits_ok l"
  by (auto simp: parse_limits_def map_sum_Inr each_value_all2 LIMIT_NAMES_def list_all2_Cons1 limits_ok_def
      split: option.splits if_splits sum.splits intro: parse_limit_ok)

definition in_order :: "(string \<Rightarrow> string \<Rightarrow> int) \<Rightarrow> extension_ref list \<Rightarrow> bool" where
  "in_order localeCompare rs \<longleftrightarrow> sorted_wrt (\<lambda>l r. localeCompare (ref_key l) (ref_key r) \<le> 0) rs"

lemma parse_ref_valid: "parse_ref field j = Inr r \<Longrightarrow> valid_ref r"
  by (auto simp: parse_ref_def split: if_splits sum.splits option.splits)

lemma parse_refs_ok:
  assumes "parseExtensionRefs lc v field = Inr (Some rs)"
  shows "refs_ok rs" and "consistent lc \<Longrightarrow> in_order lc rs"
proof -
  let ?vals = "\<lambda>ys. map_values (map (\<lambda>r. (ref_key r, r)) ys)"
  let ?cmp = "\<lambda>l r. lc (ref_key l) (ref_key r)"
  obtain js ys where js: "length js \<le> MAX_EXTENSIONS" "each_value (parse_ref field) js = Inr ys" and rs: "rs = sort_by ?cmp (?vals ys)"
    using assms by (auto simp: parseExtensionRefs_def map_sum_Inr not_less split: option.splits json.splits if_splits)
  then have "list_all2 (\<lambda>j s. parse_ref field j = Inr s) js ys" by (simp add: each_value_all2)
  then have ys: "length ys = length js" "list_all valid_ref ys"
    by (auto simp: list_all2_conv_all_nth list_all_length dest: parse_ref_valid)
  have "set (?vals ys) \<subseteq> set ys \<and> distinct (map ref_key (?vals ys)) \<and> length (?vals ys) \<le> length ys"
    using map_values_keyed [of ref_key "map (\<lambda>r. (ref_key r, r)) ys"] by (force simp: list_all_iff)
  moreover have m: "mset rs = mset (?vals ys)" by (simp add: rs)
  moreover have "distinct (map ref_key rs) = distinct (map ref_key (?vals ys))"
    by (rule mset_eq_imp_distinct_iff) (simp add: m)
  moreover have "set rs = set (?vals ys)" using m by (rule mset_eq_setD)
  moreover have "length rs = length (?vals ys)" using m by (rule mset_eq_length)
  ultimately show "refs_ok rs" using ys js by (auto simp: refs_ok_def list_all_iff)
  show "in_order lc rs" if "consistent lc"
    unfolding in_order_def rs by (rule sorted_sort_by [OF consistent_key [OF that]])
qed

text \<open>Everything the parser lets through is well formed; with a consistent comparator also in order.\<close>

lemma parse_policy_ok:
  assumes "parseAgentRunPolicy lc v = Inr p"
  shows "policy_ok p" and "consistent lc \<Longrightarrow> pred_option (in_order lc) (rp_mcpConnections p) \<and> pred_option (in_order lc) (rp_skills p)"
proof -
  from assms obtain mode hc l mcp sk tl where parts:
      "parseHostCapabilities (jget ''hostCapabilities'' v) = Inr hc" "parse_limits (jget ''limits'' v) = Inr l"
      "parseExtensionRefs lc (jget ''mcpConnections'' v) ''mcpConnections'' = Inr mcp"
      "parseExtensionRefs lc (jget ''skills'' v) ''skills'' = Inr sk" "parseToolNames (jget ''tools'' v) = Inr tl"
    and p: "p = \<lparr>rp_executionMode = mode, rp_hostCapabilities = hc, rp_limits = l, rp_mcpConnections = mcp, rp_skills = sk, rp_tools = tl\<rparr>"
    by (auto simp: parseAgentRunPolicy_def split: if_splits sum.splits)
  show "policy_ok p" unfolding p policy_ok_def
    using parts parse_names_ok parse_limits_ok parse_refs_ok(1)
    by (cases hc; cases l; cases mcp; cases sk; cases tl) (auto simp: parseHostCapabilities_def parseToolNames_def)
  show "pred_option (in_order lc) (rp_mcpConnections p) \<and> pred_option (in_order lc) (rp_skills p)" if "consistent lc"
    unfolding p using parts(3,4) parse_refs_ok(2) [OF _ that] by (cases mcp; cases sk) auto
qed

subsection \<open>A policy written back\<close>

definition member_of :: "string \<Rightarrow> json option \<Rightarrow> (string \<times> json) list" where
  "member_of k v = (case v of None \<Rightarrow> [] | Some j \<Rightarrow> [(k, j)])"

fun mode_name :: "execution_mode \<Rightarrow> string" where
  "mode_name Automation = ''automation''"
| "mode_name Cautious = ''cautious''"
| "mode_name Standard = ''standard''"

definition ref_json :: "extension_ref \<Rightarrow> json" where
  "ref_json r = JObj [(''id'', JStr (xr_id r)), (''version'', JStr (xr_version r))]"

definition number_json :: "int \<Rightarrow> json" where
  "number_json n = JNum (of_int n)"

definition limits_json :: "run_limits \<Rightarrow> json" where
  "limits_json l = JObj (member_of ''maxDurationMs'' (map_option number_json (lm_maxDurationMs l)) @
     member_of ''maxInputTokens'' (map_option number_json (lm_maxInputTokens l)) @
     member_of ''maxModelCalls'' (map_option number_json (lm_maxModelCalls l)) @
     member_of ''maxOutputTokens'' (map_option number_json (lm_maxOutputTokens l)) @
     member_of ''maxToolCalls'' (map_option number_json (lm_maxToolCalls l)) @
     member_of ''maxTurns'' (map_option number_json (lm_maxTurns l)))"

definition policy_json :: "run_policy \<Rightarrow> json" where
  "policy_json p = JObj (member_of ''executionMode'' (map_option (\<lambda>m. JStr (mode_name m)) (rp_executionMode p)) @
     member_of ''hostCapabilities'' (map_option (\<lambda>xs. JArr (map JStr xs)) (rp_hostCapabilities p)) @
     member_of ''limits'' (map_option limits_json (rp_limits p)) @
     member_of ''mcpConnections'' (map_option (\<lambda>rs. JArr (map ref_json rs)) (rp_mcpConnections p)) @
     member_of ''skills'' (map_option (\<lambda>rs. JArr (map ref_json rs)) (rp_skills p)) @
     member_of ''tools'' (map_option (\<lambda>xs. JArr (map JStr xs)) (rp_tools p)))"

lemma map_of_member [simp]: "map_of (member_of k v) = (\<lambda>x. if x = k then v else None)"
  by (auto simp: member_of_def split: option.splits)

lemma keys_member: "set (map fst (member_of k v)) \<subseteq> {k}"
  by (cases v) (simp_all add: member_of_def)

lemma only_keys:
  assumes "set (map fst kvs) \<subseteq> set allowed"
  shows "assertOnlyKeys kvs allowed label = Inr ()"
proof -
  have "List.find (\<lambda>k. k \<notin> set allowed) (map fst kvs) = None"
    using assms unfolding find_None list_all_iff by blast
  then show ?thesis by (simp add: assertOnlyKeys_def)
qed

lemma each_value_map: "(\<And>x. x \<in> set xs \<Longrightarrow> f (g x) = Inr x) \<Longrightarrow> each_value f (map g xs) = Inr xs"
  by (induction xs) auto

lemma parse_names_back: "names_ok maximum xs \<Longrightarrow> parse_names maximum a b (Some (JArr (map JStr xs))) = Inr (Some xs)"
proof -
  assume ok: "names_ok maximum xs"
  then have "each_value (parse_name b) (map JStr xs) = Inr xs"
    by (intro each_value_map) (auto simp: names_ok_def list_all_iff parse_name_def)
  with ok show ?thesis by (simp add: parse_names_def names_ok_def sorted_sort_id distinct_remdups_id)
qed

lemma parse_refs_back: "refs_ok rs \<Longrightarrow> in_order lc rs \<Longrightarrow> parseExtensionRefs lc (Some (JArr (map ref_json rs))) field = Inr (Some rs)"
proof -
  assume ok: "refs_ok rs" and sorted: "in_order lc rs"
  have "parse_ref field (ref_json r) = Inr r" if "r \<in> set rs" for r
  proof -
    have "assertOnlyKeys [(''id'', JStr (xr_id r)), (''version'', JStr (xr_version r))] [''id'', ''version''] l = Inr ()" for l
      by (rule only_keys) simp
    then show ?thesis using ok that
      by (cases r) (auto simp: parse_ref_def ref_json_def is_record_def members_def jget_def jstring_def refs_ok_def list_all_iff)
  qed
  then have e: "each_value (parse_ref field) (map ref_json rs) = Inr rs" by (rule each_value_map)
  have m: "map_values (map (\<lambda>r. (ref_key r, r)) rs) = rs" using ok by (intro map_values_distinct) (simp add: refs_ok_def)
  have s: "sort_by (\<lambda>l r. lc (ref_key l) (ref_key r)) rs = rs"
    using sorted sort_by_sorted [of "\<lambda>l r. lc (ref_key l) (ref_key r)"] by (simp add: in_order_def)
  show ?thesis using ok by (simp add: parseExtensionRefs_def e m s refs_ok_def not_less)
qed

lemma jsafe_number: "\<bar>n\<bar> \<le> MAX_SAFE_INTEGER \<Longrightarrow> jsafe_int (Some (number_json n)) = Some n"
  by (simp add: jsafe_int_def number_json_def)

lemma limit_bound: "LIMIT_MAXIMUMS name \<le> MAX_SAFE_INTEGER"
  by (simp add: LIMIT_MAXIMUMS_def MAX_SAFE_INTEGER_def)

lemma parse_limit_back:
  assumes "limit_ok name v" and "jget name l = map_option number_json v"
  shows "parse_limit l name = Inr v"
proof (cases v)
  case (Some n)
  with assms(1) limit_bound [of name] have "jsafe_int (Some (number_json n)) = Some n"
    by (intro jsafe_number) (simp add: limit_ok_def)
  with Some assms show ?thesis by (simp add: parse_limit_def limit_ok_def)
qed (use assms in \<open>simp add: parse_limit_def\<close>)

lemma parse_limits_back:
  assumes "limits_ok l"
  shows "parse_limits (Some (limits_json l)) = Inr (Some l)"
proof -
  have k: "assertOnlyKeys (members (limits_json l)) LIMIT_NAMES label = Inr ()" for label
    by (rule only_keys) (auto simp: limits_json_def members_def LIMIT_NAMES_def member_of_def split: option.splits)
  have g: "jget ''maxDurationMs'' (limits_json l) = map_option number_json (lm_maxDurationMs l)"
      "jget ''maxInputTokens'' (limits_json l) = map_option number_json (lm_maxInputTokens l)"
      "jget ''maxModelCalls'' (limits_json l) = map_option number_json (lm_maxModelCalls l)"
      "jget ''maxOutputTokens'' (limits_json l) = map_option number_json (lm_maxOutputTokens l)"
      "jget ''maxToolCalls'' (limits_json l) = map_option number_json (lm_maxToolCalls l)"
      "jget ''maxTurns'' (limits_json l) = map_option number_json (lm_maxTurns l)"
    by (simp_all add: jget_def limits_json_def map_add_def split: option.split)
  have "each_value (parse_limit (limits_json l)) LIMIT_NAMES =
      Inr [lm_maxDurationMs l, lm_maxInputTokens l, lm_maxModelCalls l, lm_maxOutputTokens l, lm_maxToolCalls l, lm_maxTurns l]"
    using assms by (simp add: LIMIT_NAMES_def limits_ok_def g [THEN parse_limit_back [rotated]])
  then show ?thesis by (simp add: parse_limits_def k) (simp add: limits_json_def is_record_def)
qed

lemma parse_mode_back: "parse_mode (map_option (\<lambda>m. JStr (mode_name m)) m) = Inr m"
proof (cases m)
  case (Some a)
  then show ?thesis by (cases a) (simp_all add: parse_mode_def parseExecutionMode_def)
qed (simp add: parse_mode_def)

lemma policy_json_members:
  "is_record (policy_json p)" "assertOnlyKeys (members (policy_json p)) POLICY_KEYS label = Inr ()"
  "jget ''executionMode'' (policy_json p) = map_option (\<lambda>m. JStr (mode_name m)) (rp_executionMode p)"
  "jget ''hostCapabilities'' (policy_json p) = map_option (\<lambda>xs. JArr (map JStr xs)) (rp_hostCapabilities p)"
  "jget ''limits'' (policy_json p) = map_option limits_json (rp_limits p)"
  "jget ''mcpConnections'' (policy_json p) = map_option (\<lambda>rs. JArr (map ref_json rs)) (rp_mcpConnections p)"
  "jget ''skills'' (policy_json p) = map_option (\<lambda>rs. JArr (map ref_json rs)) (rp_skills p)"
  "jget ''tools'' (policy_json p) = map_option (\<lambda>xs. JArr (map JStr xs)) (rp_tools p)"
proof -
  show "assertOnlyKeys (members (policy_json p)) POLICY_KEYS label = Inr ()"
    by (rule only_keys) (auto simp: policy_json_def members_def POLICY_KEYS_def member_of_def split: option.splits)
qed (simp_all add: jget_def policy_json_def is_record_def map_add_def split: option.split)

lemma parse_policy_back:
  assumes ok: "policy_ok p" and "pred_option (in_order lc) (rp_mcpConnections p)" and "pred_option (in_order lc) (rp_skills p)"
  shows "parseAgentRunPolicy lc (policy_json p) = Inr p"
proof -
  have r: "parseExtensionRefs lc (map_option (\<lambda>rs. JArr (map ref_json rs)) x) field = Inr x"
    if "pred_option refs_ok x" "pred_option (in_order lc) x" for x field
    using that parse_refs_back by (cases x) (auto simp: parseExtensionRefs_def)
  have n: "parse_names m a b (map_option (\<lambda>xs. JArr (map JStr xs)) x) = Inr x" if "pred_option (names_ok m) x" for m a b x
    using that parse_names_back by (cases x) (auto simp: parse_names_def)
  have l: "parse_limits (map_option limits_json x) = Inr x" if "pred_option limits_ok x" for x
    using that parse_limits_back by (cases x) (auto simp: parse_limits_def)
  show ?thesis unfolding parseAgentRunPolicy_def
    using assms by (simp add: policy_json_members parse_mode_back parseHostCapabilities_def parseToolNames_def policy_ok_def r n l)
qed

subsection \<open>The properties\<close>

text \<open>C11 (policy_limits_never_exceeded)
  Take any policy the parser accepts and any session at all: every sequence of hook events at any
  times, refused ones included.  The recorded turns, model calls, tool calls and tokens never exceed the
  policy's limits, which are themselves positive and at most the platform's maximums; and once the
  policy refuses a turn, a model call or a batch of tool calls, it refuses every later one that is at
  least as large, whatever happened in between.\<close>

theorem policy_limits_never_exceeded:
  assumes "parseAgentRunPolicy lc v = Inr p" and "rp_limits p = Some l" and "st = policy_session p es initial_state"
  shows "limits_ok l \<and> limits_kept l st \<and>
    (\<nexists>b n m now now' later. isl (fst (recordRunPolicyBoundary p b n now st)) \<and> n \<le> m \<and> now \<le> now' \<and>
       \<not> isl (fst (recordRunPolicyBoundary p b m now' (policy_session p later st))))"
proof (intro conjI)
  show ok: "limits_ok l" using parse_policy_ok(1) [OF assms(1)] assms(2) by (simp add: policy_ok_def)
  have "limits_kept l initial_state"
    using ok by (auto simp: limits_kept_def under_def limits_ok_def limit_ok_def initial_state_def split: option.splits)
  then show "limits_kept l st" unfolding assms(3) by (rule session_within [OF assms(2)])
  have "isl (fst (recordRunPolicyBoundary p b m now' (policy_session p later st)))"
    if "isl (fst (recordRunPolicyBoundary p b n now st))" "n \<le> m" "now \<le> now'" for b n m now now' later
  proof -
    have "isl (enforceAgentRunPolicy (Some l) (at_boundary b n st) now)"
      using that(1) assms(2) by (auto simp: recordRunPolicyBoundary_def Let_def split: sum.splits)
    moreover have "moved (at_boundary b n st) (at_boundary b m (policy_session p later st))"
      using session_moved [of st p later] that(2) by (cases b) (simp_all add: moved_def at_boundary_def)
    ultimately have "isl (enforceAgentRunPolicy (Some l) (at_boundary b m (policy_session p later st)) now')"
      using that(3) by (rule refusal_mono)
    then show ?thesis using assms(2) by (auto simp: recordRunPolicyBoundary_def Let_def split: sum.splits)
  qed
  then show "\<nexists>b n m now now' later. isl (fst (recordRunPolicyBoundary p b n now st)) \<and> n \<le> m \<and> now \<le> now' \<and>
       \<not> isl (fst (recordRunPolicyBoundary p b m now' (policy_session p later st)))" by blast
qed

definition tight_policy :: run_policy where
  "tight_policy = empty_policy\<lparr>rp_limits := Some \<lparr>lm_maxDurationMs = None, lm_maxInputTokens = Some 10, lm_maxModelCalls = None,
     lm_maxOutputTokens = None, lm_maxToolCalls = None, lm_maxTurns = None\<rparr>\<rparr>"

definition demo_limits :: json where
  "demo_limits = JObj [(''limits'', JObj [(''maxTurns'', JNum 1)])]"

lemma demo_policy: "parseAgentRunPolicy (\<lambda>a b. 0) demo_limits =
    Inr (empty_policy\<lparr>rp_limits := Some \<lparr>lm_maxDurationMs = None, lm_maxInputTokens = None, lm_maxModelCalls = None,
      lm_maxOutputTokens = None, lm_maxToolCalls = None, lm_maxTurns = Some 1\<rparr>\<rparr>)"
  by (simp add: parseAgentRunPolicy_def is_record_def assertOnlyKeys_def members_def POLICY_KEYS_def jget_def parse_mode_def
      parseHostCapabilities_def parseToolNames_def parse_names_def parse_limits_def parseExtensionRefs_def empty_policy_def
      demo_limits_def LIMIT_NAMES_def parse_limit_def jsafe_int_def MAX_SAFE_INTEGER_def LIMIT_MAXIMUMS_def)

theorem policy_limits_never_exceeded_witness:
  "ps_turns (policy_session (empty_policy\<lparr>rp_limits := Some \<lparr>lm_maxDurationMs = None, lm_maxInputTokens = None, lm_maxModelCalls = None,
      lm_maxOutputTokens = None, lm_maxToolCalls = None, lm_maxTurns = Some 1\<rparr>\<rparr>)
      [(5, SessionStart), (6, TurnStart_event), (7, TurnStart_event)] initial_state) \<le> 1"
proof -
  let ?l = "\<lparr>lm_maxDurationMs = None, lm_maxInputTokens = None, lm_maxModelCalls = None,
      lm_maxOutputTokens = None, lm_maxToolCalls = None, lm_maxTurns = Some 1\<rparr> :: run_limits"
  have "rp_limits (empty_policy\<lparr>rp_limits := Some ?l\<rparr>) = Some ?l" by simp
  from policy_limits_never_exceeded [OF demo_policy this refl, of "[(5, SessionStart), (6, TurnStart_event), (7, TurnStart_event)]"]
  show ?thesis by (simp add: limits_kept_def under_def)
qed

text \<open>C16 (parsed_policies_are_well_formed)
  Whatever JSON value is offered, what the parser returns is bounded and canonical: at most 128
  capabilities and 256 tools, each a valid name, sorted and without repetition; at most 64 references
  of each kind, valid and distinct; every limit positive and within its maximum.  Reading a policy that
  was written back gives the same policy.\<close>

theorem parsed_policies_are_well_formed:
  assumes "parseAgentRunPolicy lc v = Inr p" and "consistent lc"
  shows "policy_ok p \<and> parseAgentRunPolicy lc (policy_json p) = Inr p"
  using parse_policy_ok [OF assms(1)] assms(2) by (auto intro: parse_policy_back)

theorem parsed_policies_are_well_formed_witness:
  "\<exists>p. parseAgentRunPolicy (\<lambda>a b. 0) demo_limits = Inr p \<and> policy_ok p \<and> parseAgentRunPolicy (\<lambda>a b. 0) (policy_json p) = Inr p"
  using parsed_policies_are_well_formed [OF demo_policy] demo_policy by (auto simp: consistent_def)

text \<open>Remark (empty_field_hides_unknown_fields)
  The check for unknown fields looks for the first one and tests its name for truth.  An object whose
  first unknown field has the empty name is therefore accepted, with every other unknown field: here a
  misspelt limit is dropped in silence, and the run has no limit at all.\<close>

theorem empty_field_hides_unknown_fields:
  "parseAgentRunPolicy lc (JObj [([], JNull), (''limit'', JObj [(''maxTurns'', JNum 1)])]) = Inr empty_policy \<and>
   parseAgentRunPolicy lc (JObj [(''limit'', JObj [(''maxTurns'', JNum 1)])]) = Inl (Error ''AgentRun policy contains unknown field limit.'')"
  by (simp add: parseAgentRunPolicy_def is_record_def assertOnlyKeys_def members_def POLICY_KEYS_def jget_def parse_mode_def
      parseHostCapabilities_def parseToolNames_def parse_names_def parse_limits_def parseExtensionRefs_def empty_policy_def)

text \<open>Remark (refused_usage_is_forgotten)
  Usage is added only when the sum is allowed, so a step whose tokens take the session over its limit
  throws and leaves no trace.  Under a limit of ten input tokens a session can make any number of
  model calls of a hundred tokens each: every call is admitted, and the recorded usage stays zero.\<close>

theorem refused_usage_is_forgotten:
  "policy_session tight_policy (concat (replicate n [(now, StepStart), (now, StepEnd (Some (JObj [(''inputTokens'', JNum 100)])))])) initial_state
     = initial_state\<lparr>ps_modelCalls := int n\<rparr>"
proof -
  have "policy_session tight_policy (concat (replicate n [(now, StepStart), (now, StepEnd (Some (JObj [(''inputTokens'', JNum 100)])))]))
      (initial_state\<lparr>ps_modelCalls := k\<rparr>) = initial_state\<lparr>ps_modelCalls := k + int n\<rparr>" for k
  proof (induction n arbitrary: k)
    case (Suc n)
    then show ?case
      by (simp add: policy_hook_def recordRunPolicyBoundary_def recordRunPolicyUsage_def Let_def at_boundary_def with_usage_def
          enforceAgentRunPolicy_def policy_checks_def is_exceeded_def tight_policy_def initial_state_def empty_policy_def
          toUsage_def nonNegative_def jget_def is_record_def algebra_simps)
  qed simp
  from this [of 0] show ?thesis by (simp add: initial_state_def)
qed

end
