(* ===== verification/Thread_Events.thy ===== *)
theory Thread_Events
  imports Json Js_Arrays
begin

section \<open>The transcript of a thread (packages/agent-ui/src/agent-workspace/thread-storage.ts)\<close>

text \<open>
  A thread keeps the runtime's stream events compacted: exact replays are dropped and a cumulative
  snapshot replaces the one it continues.  Live and recovered snapshots are merged, and an edited turn is
  cut out of what is shown.  An event's cursor is kept beside it in the code (a \<^verbatim>\<open>WeakMap\<close>), here in a
  field of its own; \<^verbatim>\<open>JSON.stringify(event)\<close> as an identity is the event itself.
\<close>

record thread_event = stream_event +
  te_cursor :: "nat option"

subsection \<open>Identity\<close>

datatype event_id = MetaId string | Payload stream_event

definition eventIdentity :: "thread_event \<Rightarrow> event_id" where
  "eventIdentity e = (case se_metaId e of
       Some i \<Rightarrow> if i \<noteq> [] then MetaId i else Payload (stream_event.truncate e)
     | None \<Rightarrow> Payload (stream_event.truncate e))"

definition rememberThreadEventCursor :: "thread_event \<Rightarrow> int \<Rightarrow> thread_event" where
  "rememberThreadEventCursor e cursor =
     (if cursor \<ge> 0 \<and> cursor \<le> MAX_SAFE_INTEGER then e\<lparr>te_cursor := Some (nat cursor)\<rparr> else e)"

definition hasEventIdentity :: "thread_event list \<Rightarrow> thread_event \<Rightarrow> bool" where
  "hasEventIdentity es e \<longleftrightarrow> list_ex (\<lambda>c. eventIdentity c = eventIdentity e) es"

definition sameEventIdentityOrder :: "thread_event list \<Rightarrow> thread_event list \<Rightarrow> bool" where
  "sameEventIdentityOrder l r \<longleftrightarrow> length l = length r \<and> list_all2 (\<lambda>a b. eventIdentity a = eventIdentity b) l r"

fun dedupe_from :: "event_id list \<Rightarrow> thread_event list \<Rightarrow> thread_event list" where
  "dedupe_from seen [] = []"
| "dedupe_from seen (e # es) =
     (if eventIdentity e \<in> set seen then dedupe_from seen es else e # dedupe_from (eventIdentity e # seen) es)"

definition dedupeThreadEvents :: "thread_event list \<Rightarrow> thread_event list" where
  "dedupeThreadEvents es = dedupe_from [] es"

subsection \<open>Cumulative events\<close>

text \<open>The parts of a template string: an absent field is the text \<^verbatim>\<open>undefined\<close>.\<close>

definition text_part :: "string option \<Rightarrow> string" where
  "text_part v = (case v of None \<Rightarrow> ''undefined'' | Some s \<Rightarrow> s)"

definition number_part :: "int option \<Rightarrow> string" where
  "number_part v = (case v of None \<Rightarrow> ''undefined'' | Some n \<Rightarrow> if n < 0 then ''-'' @ show_nat (nat (- n)) else show_nat (nat n))"

definition step_key :: "thread_event \<Rightarrow> string" where
  "step_key e = text_part (se_turnId e) @ '':'' @ number_part (se_stepIndex e)"

definition cumulativeEventKey :: "thread_event \<Rightarrow> string option" where
  "cumulativeEventKey e = (case se_type e of
       MessageAppended \<Rightarrow> Some (''message.appended:'' @ step_key e)
     | ReasoningAppended \<Rightarrow> Some (''reasoning.appended:'' @ step_key e)
     | ActionInputPartial \<Rightarrow> Some (''action.input.partial:'' @ step_key e @ '':'' @ text_part (se_callId e))
     | _ \<Rightarrow> None)"

definition stepScope :: "thread_event \<Rightarrow> string option" where
  "stepScope e = (case se_type e of
       StepStarted \<Rightarrow> Some (step_key e) | MessageAppended \<Rightarrow> Some (step_key e)
     | ReasoningAppended \<Rightarrow> Some (step_key e) | ActionInputPartial \<Rightarrow> Some (step_key e) | _ \<Rightarrow> None)"

definition cumulativeSnapshot :: "thread_event \<Rightarrow> string option" where
  "cumulativeSnapshot e = (case se_type e of
       MessageAppended \<Rightarrow> se_soFar e | ReasoningAppended \<Rightarrow> se_soFar e | ActionInputPartial \<Rightarrow> se_soFar e | _ \<Rightarrow> None)"

definition canReplaceCumulativeEvent :: "thread_event list \<Rightarrow> nat \<Rightarrow> thread_event \<Rightarrow> bool" where
  "canReplaceCumulativeEvent es existingIndex next =
     (if existingIndex \<ge> length es then False
      else let existing = es ! existingIndex in
        if cumulativeEventKey existing = None \<or> cumulativeEventKey existing \<noteq> cumulativeEventKey next then False
        else if list_ex (\<lambda>c. se_type c = StepStarted \<and> stepScope c = stepScope next) (drop (Suc existingIndex) es) then False
        else case (cumulativeSnapshot existing, cumulativeSnapshot next) of
            (Some previous, Some new) \<Rightarrow> length new \<ge> length previous
          | _ \<Rightarrow> False)"

definition findLastCumulativeEventIndex :: "thread_event list \<Rightarrow> string \<Rightarrow> nat option" where
  "findLastCumulativeEventIndex es key = find_last_index (\<lambda>e. cumulativeEventKey e = Some key) es"

subsection \<open>Appending and compacting\<close>

text \<open>The live path: scan the transcript.\<close>

definition appendThreadEvent :: "thread_event list \<Rightarrow> thread_event \<Rightarrow> thread_event list" where
  "appendThreadEvent es e =
     (if hasEventIdentity es e then es
      else case cumulativeEventKey e of
          Some key \<Rightarrow> (case findLastCumulativeEventIndex es key of
              Some i \<Rightarrow> if canReplaceCumulativeEvent es i e then take i es @ [e] @ drop (Suc i) es else es @ [e]
            | None \<Rightarrow> es @ [e])
        | None \<Rightarrow> es @ [e])"

text \<open>The index of the last snapshot of each key, as a map that is filled from left to right.\<close>

fun index_events :: "nat \<Rightarrow> thread_event list \<Rightarrow> (string \<rightharpoonup> nat) \<Rightarrow> (string \<rightharpoonup> nat)" where
  "index_events n [] m = m"
| "index_events n (e # es) m =
     index_events (Suc n) es (case cumulativeEventKey e of Some key \<Rightarrow> m(key \<mapsto> n) | None \<Rightarrow> m)"

text \<open>
  The recovery path: the array, the identities, and the cached index of that array, which is built when
  it is first needed.
\<close>

record append_state =
  as_events :: "thread_event list"
  as_ids :: "event_id list"
  as_indexes :: "(string \<rightharpoonup> nat) option"

definition cumulativeIndexFor :: "append_state \<Rightarrow> (string \<rightharpoonup> nat)" where
  "cumulativeIndexFor s = (case as_indexes s of Some m \<Rightarrow> m | None \<Rightarrow> index_events 0 (as_events s) Map.empty)"

definition appendThreadEventIndexed :: "append_state \<Rightarrow> thread_event \<Rightarrow> append_state" where
  "appendThreadEventIndexed s e =
     (if eventIdentity e \<in> set (as_ids s) then s
      else let s1 = s\<lparr>as_ids := eventIdentity e # as_ids s\<rparr> in
        case cumulativeEventKey e of
          Some key \<Rightarrow>
            let indexes = cumulativeIndexFor s1;
                pushed = s1\<lparr>as_indexes := Some (indexes(key \<mapsto> length (as_events s1))), as_events := as_events s1 @ [e]\<rparr>
            in (case indexes key of
                  Some i \<Rightarrow> if canReplaceCumulativeEvent (as_events s1) i e
                    then s1\<lparr>as_indexes := Some indexes, as_events := (as_events s1)[i := e]\<rparr> else pushed
                | None \<Rightarrow> pushed)
        | None \<Rightarrow> s1\<lparr>as_events := as_events s1 @ [e]\<rparr>)"

definition fresh_append :: append_state where
  "fresh_append = \<lparr>as_events = [], as_ids = [], as_indexes = None\<rparr>"

text \<open>Compaction of a whole transcript: the loop's array, identities and index.\<close>

fun compact_from :: "thread_event list \<Rightarrow> event_id list \<Rightarrow> (string \<rightharpoonup> nat) \<Rightarrow> thread_event list \<Rightarrow> thread_event list" where
  "compact_from compacted ids indexes [] = compacted"
| "compact_from compacted ids indexes (e # es) =
     (if eventIdentity e \<in> set ids then compact_from compacted ids indexes es
      else case cumulativeEventKey e of
          Some key \<Rightarrow> (case indexes key of
              Some i \<Rightarrow>
                if canReplaceCumulativeEvent compacted i e
                then compact_from (compacted[i := e]) (eventIdentity e # ids) indexes es
                else compact_from (compacted @ [e]) (eventIdentity e # ids) (indexes(key \<mapsto> length compacted)) es
            | None \<Rightarrow> compact_from (compacted @ [e]) (eventIdentity e # ids) (indexes(key \<mapsto> length compacted)) es)
        | None \<Rightarrow> compact_from (compacted @ [e]) (eventIdentity e # ids) indexes es)"

definition compactThreadEvents :: "thread_event list \<Rightarrow> thread_event list" where
  "compactThreadEvents es = compact_from [] [] Map.empty es"

subsection \<open>Order and merge\<close>

definition eventSequence :: "thread_event \<Rightarrow> int option" where
  "eventSequence e = (case se_sequence e of Some n \<Rightarrow> if \<bar>n\<bar> \<le> MAX_SAFE_INTEGER then Some n else None | None \<Rightarrow> None)"

definition eventStepIndex :: "thread_event \<Rightarrow> int option" where
  "eventStepIndex e = (case se_stepIndex e of Some n \<Rightarrow> if \<bar>n\<bar> \<le> MAX_SAFE_INTEGER then Some n else None | None \<Rightarrow> None)"

definition eventTimestamp :: "thread_event \<Rightarrow> int option" where
  "eventTimestamp e = (case se_metaAt e of None \<Rightarrow> None | Some _ \<Rightarrow> se_at e)"

definition eventTurnId :: "thread_event \<Rightarrow> string option" where
  "eventTurnId e = se_turnId e"

definition eventLifecycleRank :: "thread_event \<Rightarrow> int" where
  "eventLifecycleRank e = (case se_type e of
       SessionStarted \<Rightarrow> -2
     | SessionWaiting \<Rightarrow> 100 | SessionCompleted \<Rightarrow> 100 | SessionFailed \<Rightarrow> 100
     | TurnStarted \<Rightarrow> 0
     | MessageReceived \<Rightarrow> 1
     | ContextCleared \<Rightarrow> 1
     | StepStarted \<Rightarrow> 2
     | ReasoningAppended \<Rightarrow> 3 | ReasoningCompleted \<Rightarrow> 3 | MessageAppended \<Rightarrow> 3 | MessageCompleted \<Rightarrow> 3
     | ActionInputPartial \<Rightarrow> 3 | ActionsRequested \<Rightarrow> 3 | InputRequested \<Rightarrow> 3 | AuthorizationRequired \<Rightarrow> 3
     | ModelRetrying \<Rightarrow> 3
     | ActionPartial \<Rightarrow> 4 | ActionResult \<Rightarrow> 4 | AuthorizationCompleted \<Rightarrow> 4
     | StepCompleted \<Rightarrow> 5 | StepFailed \<Rightarrow> 5
     | TurnCompleted \<Rightarrow> 6 | TurnFailed \<Rightarrow> 6 | TurnCancelled \<Rightarrow> 6
     | _ \<Rightarrow> 50)"

text \<open>Two coordinates decide when both are there and differ; otherwise the next criterion is asked.\<close>

definition decide :: "int option \<Rightarrow> int option \<Rightarrow> int \<Rightarrow> int" where
  "decide l r other = (case (l, r) of (Some a, Some b) \<Rightarrow> if a \<noteq> b then a - b else other | _ \<Rightarrow> other)"

definition compareEventOrder :: "thread_event \<Rightarrow> thread_event \<Rightarrow> int" where
  "compareEventOrder l r =
     (let late = decide (eventTimestamp l) (eventTimestamp r) (eventLifecycleRank l - eventLifecycleRank r)
      in decide (map_option int (te_cursor l)) (map_option int (te_cursor r))
           (if eventTurnId l \<noteq> None \<and> eventTurnId l = eventTurnId r
            then decide (eventSequence l) (eventSequence r) (decide (eventStepIndex l) (eventStepIndex r) late)
            else late))"

text \<open>The order of the candidates; \<open>js_sort\<close> is the engine's sort by a comparator.\<close>

definition candidate_order :: "thread_event \<times> nat \<Rightarrow> thread_event \<times> nat \<Rightarrow> int" where
  "candidate_order a b =
     (if compareEventOrder (fst a) (fst b) \<noteq> 0 then compareEventOrder (fst a) (fst b) else int (snd a) - int (snd b))"

type_synonym candidate_sort =
  "((thread_event \<times> nat \<Rightarrow> thread_event \<times> nat \<Rightarrow> int) \<Rightarrow> (thread_event \<times> nat) list \<Rightarrow> (thread_event \<times> nat) list)"

definition mergeThreadEventSnapshots :: "candidate_sort \<Rightarrow> thread_event list \<Rightarrow> thread_event list \<Rightarrow> thread_event list" where
  "mergeThreadEventSnapshots js_sort left right =
     (if left = [] then right
      else if right = [] then left
      else let leftIds = set (map eventIdentity left); rightIds = set (map eventIdentity right)
        in if rightIds \<subseteq> leftIds \<and> (length right < length left \<or> sameEventIdentityOrder left right) then left
           else if leftIds \<subseteq> rightIds \<and> (length left < length right \<or> sameEventIdentityOrder left right) then right
           else let kept = dedupeThreadEvents (left @ right)
             in compactThreadEvents (map fst (js_sort candidate_order (zip kept [0..<length kept]))))"

subsection \<open>Edits\<close>

text \<open>Cutting the list at the start of a turn, or at the index found when the turn has no start before it.\<close>

definition is_clear_of :: "string option \<Rightarrow> thread_event \<Rightarrow> bool" where
  "is_clear_of t e \<longleftrightarrow> se_type e = ContextCleared \<and> se_turnId e = t"

definition is_start_of :: "string option \<Rightarrow> thread_event \<Rightarrow> bool" where
  "is_start_of t e \<longleftrightarrow> se_type e = TurnStarted \<and> se_turnId e = t"

definition cut_turn :: "thread_event list \<Rightarrow> nat \<Rightarrow> string option \<Rightarrow> thread_event list" where
  "cut_turn es i t = (case find_last_index (is_start_of t) (take (Suc i) es) of Some j \<Rightarrow> take j es | None \<Rightarrow> take i es)"

definition cut_previous_clear :: "string option \<Rightarrow> thread_event list \<Rightarrow> thread_event list" where
  "cut_previous_clear t es = (case find_last_index (is_clear_of t) es of Some i \<Rightarrow> take i es | None \<Rightarrow> es)"

definition rejected_turns :: "thread_event list \<Rightarrow> string option list" where
  "rejected_turns es = map se_turnId (filter (\<lambda>e. se_type e = TurnFailed \<and> se_code e = Some ''turn_revert_conflict'') es)"

definition accepted_events :: "thread_event list \<Rightarrow> thread_event list" where
  "accepted_events es = (if rejected_turns es = [] then es
     else filter (\<lambda>e. eventTurnId e = None \<or> eventTurnId e \<notin> set (rejected_turns es)) es)"

definition project_edit :: "thread_event list \<Rightarrow> thread_event \<Rightarrow> thread_event list" where
  "project_edit projected e =
     (if se_type e = ContextCleared
      then let target = se_turnId e; cleared = cut_previous_clear target projected
        in (case find_last_index (\<lambda>c. eventTurnId c = target) cleared of
              Some i \<Rightarrow> cut_turn cleared i (eventTurnId (cleared ! i)) | None \<Rightarrow> cleared) @ [e]
      else projected @ [e])"

definition projectThreadEditBranches :: "thread_event list \<Rightarrow> thread_event list" where
  "projectThreadEditBranches es =
     (let accepted = accepted_events es
      in if \<not> list_ex (\<lambda>e. se_type e = ContextCleared) accepted then accepted
         else foldl project_edit [] accepted)"

definition hasSteeredMessages :: "thread_event list \<Rightarrow> string option \<Rightarrow> bool" where
  "hasSteeredMessages es t \<longleftrightarrow> length (filter (\<lambda>e. se_type e = MessageReceived \<and> se_turnId e = t) es) \<ge> 2"

definition projectPendingThreadEdit :: "thread_event list \<Rightarrow> string option \<Rightarrow> thread_event list" where
  "projectPendingThreadEdit es beforeTurnId =
     (if (case beforeTurnId of None \<Rightarrow> True | Some t \<Rightarrow> t = []) \<or> list_ex (is_clear_of beforeTurnId) es then es
      else if hasSteeredMessages es beforeTurnId then es
      else case find_index (\<lambda>e. eventTurnId e = beforeTurnId) es of
          None \<Rightarrow> es | Some i \<Rightarrow> cut_turn es i beforeTurnId)"

fun latest_editable :: "thread_event list \<Rightarrow> thread_event list \<Rightarrow> string option" where
  "latest_editable es [] = None"
| "latest_editable es (e # rest) =
     (if se_type e \<noteq> MessageReceived \<or> se_turnId e = None then latest_editable es rest
      else if se_turnId e \<in> set (rejected_turns es) then latest_editable es rest
      else if hasSteeredMessages es (se_turnId e) then None
      else if \<not> list_ex (is_start_of (se_turnId e)) es then None
      else se_turnId e)"

definition latestEditableTurnId :: "thread_event list \<Rightarrow> string option" where
  "latestEditableTurnId es = latest_editable es (rev es)"

subsection \<open>Rebuilding a transcript on the server (server/thread-transcript-repair.ts)\<close>

definition repair_edit :: "thread_event list \<Rightarrow> thread_event \<Rightarrow> thread_event list" where
  "repair_edit projected e =
     (if se_type e = ContextCleared
      then let target = se_turnId e;
               previous = find_last_index (is_clear_of target) projected;
               cleared = cut_previous_clear target projected;
               addressed = find_last_index (\<lambda>c. se_type c = MessageReceived \<and> se_turnId c = target) cleared;
               user = (if addressed = None \<and> previous = None
                 then find_last_index (\<lambda>c. se_type c = MessageReceived) cleared else addressed)
        in (case user of
              Some i \<Rightarrow> (case se_turnId (cleared ! i) of
                  Some t \<Rightarrow> if t \<noteq> [] then cut_turn cleared i (Some t) else take i cleared
                | None \<Rightarrow> take i cleared)
            | None \<Rightarrow> cleared) @ [e]
      else projected @ [e])"

definition projectEditedBranches :: "thread_event list \<Rightarrow> thread_event list" where
  "projectEditedBranches es = foldl repair_edit [] es"

datatype coverage_error = InvalidEnd | CoverageError int int

definition rebuildSettledThreadTranscript :: "thread_event list \<Rightarrow> int \<Rightarrow> coverage_error + (nat \<times> thread_event list)" where
  "rebuildSettledThreadTranscript source expectedEndIndex =
     (if \<not> (0 \<le> expectedEndIndex \<and> expectedEndIndex \<le> MAX_SAFE_INTEGER) then Inl InvalidEnd
      else let events = as_events (foldl appendThreadEventIndexed fresh_append source)
        in if int (length source) \<noteq> expectedEndIndex then Inl (CoverageError expectedEndIndex (int (length source)))
           else Inr (length source, compactThreadEvents (projectEditedBranches events)))"

end
