(* ===== verification/Thread_Compaction.thy ===== *)
theory Thread_Compaction
  imports Thread_Events
begin

section \<open>Compaction, appending and merging keep the transcript\<close>

subsection \<open>One event put in its place\<close>

text \<open>What all three paths do with an event that is new.\<close>

definition place :: "thread_event list \<Rightarrow> thread_event \<Rightarrow> thread_event list" where
  "place es e = (case cumulativeEventKey e of
       Some key \<Rightarrow> (case findLastCumulativeEventIndex es key of
           Some i \<Rightarrow> if canReplaceCumulativeEvent es i e then es[i := e] else es @ [e]
         | None \<Rightarrow> es @ [e])
     | None \<Rightarrow> es @ [e])"

abbreviation last_of :: "thread_event list \<Rightarrow> string \<rightharpoonup> nat" where
  "last_of es \<equiv> findLastCumulativeEventIndex es"

lemma last_of_snoc: "last_of (es @ [e]) = (case cumulativeEventKey e of Some k \<Rightarrow> (last_of es)(k \<mapsto> length es) | None \<Rightarrow> last_of es)"
  by (auto simp: findLastCumulativeEventIndex_def find_last_index_snoc fun_eq_iff split: option.split)

lemma last_of_Some: "last_of es k = Some i \<Longrightarrow> i < length es \<and> cumulativeEventKey (es ! i) = Some k"
  unfolding findLastCumulativeEventIndex_def by (drule find_last_index_Some) simp

lemma last_of_update:
  assumes "last_of es k = Some i" and "cumulativeEventKey e = Some k"
  shows "last_of (es[i := e]) = last_of es"
  using last_of_Some [OF assms(1)] assms(2)
  by (auto simp: findLastCumulativeEventIndex_def fun_eq_iff intro!: find_last_index_update)

lemma last_of_Nil: "last_of [] = Map.empty"
  by (simp add: findLastCumulativeEventIndex_def fun_eq_iff)

lemma index_events_last: "index_events n es m = (\<lambda>k. case last_of es k of Some i \<Rightarrow> Some (n + i) | None \<Rightarrow> m k)"
proof (induction es arbitrary: n m)
  case (Cons e es)
  then show ?case
    by (auto simp: fun_eq_iff findLastCumulativeEventIndex_def split: option.split)
qed (simp add: findLastCumulativeEventIndex_def)

lemma index_events_start: "index_events 0 es Map.empty = last_of es"
  by (auto simp: index_events_last fun_eq_iff split: option.split)

text \<open>The three paths are folds of \<open>place\<close> over the new events.\<close>

lemma compact_place: "compact_from c ids (last_of c) es = foldl place c (dedupe_from ids es)"
proof (induction es arbitrary: c ids)
  case (Cons e es)
  show ?case
  proof (cases "eventIdentity e \<in> set ids")
    case False
    show ?thesis
    proof (cases "cumulativeEventKey e")
      case None
      with False Cons [of "c @ [e]" "eventIdentity e # ids"] show ?thesis by (simp add: place_def last_of_snoc)
    next
      case (Some k)
      show ?thesis
      proof (cases "\<exists>i. last_of c k = Some i \<and> canReplaceCumulativeEvent c i e")
        case True
        then obtain i where i: "last_of c k = Some i" "canReplaceCumulativeEvent c i e" by blast
        with False Some Cons [of "c[i := e]" "eventIdentity e # ids"] last_of_update [OF i(1) Some] show ?thesis
          by (simp add: place_def)
      next
        case no: False
        then have "place c e = c @ [e]" using Some by (auto simp: place_def split: option.split)
        moreover have "compact_from c ids (last_of c) (e # es) =
            compact_from (c @ [e]) (eventIdentity e # ids) ((last_of c)(k \<mapsto> length c)) es"
          using no False Some by (cases "last_of c k") simp_all
        moreover have "last_of (c @ [e]) = (last_of c)(k \<mapsto> length c)" using Some by (simp only: last_of_snoc option.case)
        ultimately show ?thesis
          using False Cons [of "c @ [e]" "eventIdentity e # ids"] by (simp only: dedupe_from.simps if_False foldl_Cons)
      qed
    qed
  qed (simp add: Cons)
qed simp

lemma compact_fold: "compactThreadEvents es = foldl place [] (dedupeThreadEvents es)"
  using compact_place [of "[]" "[]" es] by (simp add: compactThreadEvents_def dedupeThreadEvents_def last_of_Nil)

definition index_ok :: "append_state \<Rightarrow> bool" where
  "index_ok s \<longleftrightarrow> as_indexes s = None \<or> as_indexes s = Some (last_of (as_events s))"

lemma index_for: "index_ok s \<Longrightarrow> cumulativeIndexFor s = last_of (as_events s)"
  by (auto simp: index_ok_def cumulativeIndexFor_def index_events_start)

lemma append_indexed_place:
  assumes ok: "index_ok s" and new: "eventIdentity e \<notin> set (as_ids s)"
  shows "as_events (appendThreadEventIndexed s e) = place (as_events s) e \<and> index_ok (appendThreadEventIndexed s e) \<and>
    as_ids (appendThreadEventIndexed s e) = eventIdentity e # as_ids s"
proof (cases "cumulativeEventKey e")
  case None
  then show ?thesis using ok new
    by (auto simp: appendThreadEventIndexed_def Let_def place_def index_ok_def last_of_snoc)
next
  case (Some k)
  have m: "cumulativeIndexFor (s\<lparr>as_ids := eventIdentity e # as_ids s\<rparr>) = last_of (as_events s)"
    by (subst index_for) (use ok in \<open>simp_all add: index_ok_def\<close>)
  show ?thesis
  proof (cases "last_of (as_events s) k")
    case None
    then show ?thesis using Some new m by (simp add: appendThreadEventIndexed_def Let_def place_def index_ok_def last_of_snoc)
  next
    case i: (Some i)
    show ?thesis using Some new m i last_of_update [OF i Some]
      by (simp add: appendThreadEventIndexed_def Let_def place_def index_ok_def last_of_snoc)
  qed
qed

lemma append_indexed_fold:
  "index_ok s \<Longrightarrow> as_events (foldl appendThreadEventIndexed s es) = foldl place (as_events s) (dedupe_from (as_ids s) es)"
proof (induction es arbitrary: s)
  case (Cons e es)
  show ?case
  proof (cases "eventIdentity e \<in> set (as_ids s)")
    case True
    then have "appendThreadEventIndexed s e = s" by (simp add: appendThreadEventIndexed_def)
    with True Cons show ?thesis by simp
  next
    case False
    with append_indexed_place [OF Cons.prems False] Cons.IH [of "appendThreadEventIndexed s e"] show ?thesis by simp
  qed
qed simp

lemma append_place: "\<not> hasEventIdentity es e \<Longrightarrow> appendThreadEvent es e = place es e"
proof -
  have "take i es @ e # drop (Suc i) es = es[i := e]" if "last_of es k = Some i" for i k
    using last_of_Some [OF that] by (simp add: upd_conv_take_nth_drop)
  then show "\<not> hasEventIdentity es e \<Longrightarrow> appendThreadEvent es e = place es e"
    by (auto simp: appendThreadEvent_def place_def split: option.split)
qed

subsection \<open>What \<open>place\<close> keeps\<close>

lemma place_cases:
  obtains "place es e = es @ [e]"
  | i k s t where "place es e = es[i := e]" "i < length es" "cumulativeEventKey e = Some k" "cumulativeEventKey (es ! i) = Some k"
      "cumulativeSnapshot (es ! i) = Some s" "cumulativeSnapshot e = Some t" "length s \<le> length t"
proof (cases "\<exists>k i. cumulativeEventKey e = Some k \<and> last_of es k = Some i \<and> canReplaceCumulativeEvent es i e")
  case True
  then obtain k i where ki: "cumulativeEventKey e = Some k" "last_of es k = Some i" "canReplaceCumulativeEvent es i e" by blast
  from last_of_Some [OF ki(2)] have "i < length es" "cumulativeEventKey (es ! i) = Some k" by auto
  moreover from ki(3) obtain s t where "cumulativeSnapshot (es ! i) = Some s" "cumulativeSnapshot e = Some t" "length s \<le> length t"
    by (auto simp: canReplaceCumulativeEvent_def Let_def split: if_splits option.splits)
  ultimately show ?thesis using that(2) ki by (simp add: place_def)
next
  case False
  then have "place es e = es @ [e]" by (auto simp: place_def split: option.split)
  then show ?thesis by (rule that(1))
qed

definition plain_event :: "thread_event \<Rightarrow> bool" where
  "plain_event e \<longleftrightarrow> cumulativeEventKey e = None"

lemma filter_update: "i < length xs \<Longrightarrow> \<not> P (xs ! i) \<Longrightarrow> \<not> P y \<Longrightarrow> filter P (xs[i := y]) = filter P xs"
proof (induction xs arbitrary: i)
  case (Cons x xs)
  then show ?case by (cases i) auto
qed simp

lemma place_plain: "filter plain_event (place es e) = filter plain_event (es @ [e])"
proof (rule place_cases [of es e])
  fix i k assume "place es e = es[i := e]" "i < length es" "cumulativeEventKey e = Some k" "cumulativeEventKey (es ! i) = Some k"
  then show ?thesis by (simp add: filter_update plain_event_def)
qed simp

lemma place_subset: "set (place es e) \<subseteq> insert e (set es)"
  by (rule place_cases [of es e]) (auto dest: set_update_subset_insert [THEN subsetD])

text \<open>An event is represented by itself or by a later snapshot of the same step that is at least as long.\<close>

definition represented :: "thread_event list \<Rightarrow> thread_event \<Rightarrow> bool" where
  "represented es e \<longleftrightarrow> e \<in> set es \<or> (\<exists>c \<in> set es. \<exists>s t. cumulativeEventKey e \<noteq> None \<and> cumulativeEventKey c = cumulativeEventKey e \<and>
     cumulativeSnapshot e = Some s \<and> cumulativeSnapshot c = Some t \<and> length s \<le> length t)"

lemma represented_new: "represented (place es e) e"
  by (rule place_cases [of es e]) (simp_all add: represented_def set_update_memI)

lemma represented_place:
  assumes "represented es x"
  shows "represented (place es e) x"
proof (rule place_cases [of es e])
  assume "place es e = es @ [e]"
  with assms show ?thesis by (auto simp: represented_def)
next
  fix i k s t
  assume p: "place es e = es[i := e]" "i < length es" "cumulativeEventKey e = Some k" "cumulativeEventKey (es ! i) = Some k"
      "cumulativeSnapshot (es ! i) = Some s" "cumulativeSnapshot e = Some t" "length s \<le> length t"
  have e: "e \<in> set (es[i := e])" using p(2) by (rule set_update_memI)
  have other: "c = es ! i \<or> c \<in> set (es[i := e])" if "c \<in> set es" for c
    using that p(2) by (metis in_set_conv_nth length_list_update nth_list_update_neq)
  show ?thesis
  proof (cases "x \<in> set es")
    case True
    then show ?thesis using other [OF True] e p unfolding represented_def p(1)
      by (metis option.distinct(1))
  next
    case False
    with assms obtain c s' t' where c: "c \<in> set es" "cumulativeEventKey x \<noteq> None" "cumulativeEventKey c = cumulativeEventKey x"
        "cumulativeSnapshot x = Some s'" "cumulativeSnapshot c = Some t'" "length s' \<le> length t'"
      by (auto simp: represented_def)
    show ?thesis
    proof (cases "c \<in> set (es[i := e])")
      case True
      with c show ?thesis unfolding represented_def p(1) by blast
    next
      case no: False
      then have ci: "c = es ! i" using other [OF c(1)] by blast
      then have "length s' \<le> length t" using c p by simp
      then show ?thesis unfolding represented_def p(1) using e c ci p by metis
    qed
  qed
qed

lemma place_distinct:
  assumes "distinct (map eventIdentity es)" and "eventIdentity e \<notin> eventIdentity ` set es"
  shows "distinct (map eventIdentity (place es e))"
  by (rule place_cases [of es e]) (use assms in \<open>simp_all add: map_update distinct_list_update\<close>)

lemma fold_place:
  assumes "distinct (map eventIdentity (c @ es))"
  shows "filter plain_event (foldl place c es) = filter plain_event (c @ es) \<and>
    set (foldl place c es) \<subseteq> set (c @ es) \<and> distinct (map eventIdentity (foldl place c es)) \<and>
    (\<forall>x. represented c x \<or> x \<in> set es \<longrightarrow> represented (foldl place c es) x)"
  using assms
proof (induction es arbitrary: c)
  case (Cons e es)
  have fresh: "eventIdentity e \<notin> eventIdentity ` set c" "distinct (map eventIdentity c)" using Cons.prems by auto
  have "eventIdentity ` set (place c e) \<subseteq> eventIdentity ` insert e (set c)" using place_subset by (rule image_mono)
  moreover have "eventIdentity ` insert e (set c) \<inter> eventIdentity ` set es = {}" using Cons.prems by auto
  ultimately have "eventIdentity ` set (place c e) \<inter> eventIdentity ` set es = {}" by fast
  moreover have "distinct (map eventIdentity es)" using Cons.prems by simp
  ultimately have d: "distinct (map eventIdentity (place c e @ es))"
    using place_distinct [OF fresh(2,1)] by (simp only: map_append distinct_append set_map simp_thms)
  note IH = Cons.IH [OF d]
  have "filter plain_event (place c e @ es) = filter plain_event (c @ e # es)" by (simp add: place_plain)
  moreover have "set (place c e @ es) \<subseteq> set (c @ e # es)" using place_subset [of c e] by auto
  moreover have "represented (place c e) x \<or> x \<in> set es" if "represented c x \<or> x \<in> set (e # es)" for x
    using that represented_new represented_place by auto
  ultimately show ?case using IH unfolding foldl_Cons by (metis subset_trans)
qed simp

lemma dedupe_facts:
  "distinct (map eventIdentity (dedupe_from seen es)) \<and> set (dedupe_from seen es) \<subseteq> set es \<and>
   eventIdentity ` set (dedupe_from seen es) = eventIdentity ` set es - set seen"
proof (induction es arbitrary: seen)
  case (Cons e es)
  show ?case
  proof (cases "eventIdentity e \<in> set seen")
    case True
    with Cons [of seen] show ?thesis by auto
  next
    case False
    with Cons [of "eventIdentity e # seen"] show ?thesis by auto
  qed
qed simp

subsection \<open>The properties\<close>

definition transcript_event :: "event_type \<Rightarrow> string \<Rightarrow> string \<Rightarrow> string \<Rightarrow> thread_event" where
  "transcript_event ty i t soFar =
     stream_event.extend ((bare_event ty)\<lparr>se_metaId := Some i, se_turnId := Some t, se_stepIndex := Some 0, se_soFar := Some soFar\<rparr>)
       \<lparr>te_cursor = None\<rparr>"

text \<open>C35 (compaction_keeps_the_transcript)
  Compacting a transcript loses nothing but superseded snapshots.  Every event that is not a cumulative
  snapshot is kept, once and in its place among the others; every snapshot is kept or represented by
  one of the same step that is at least as long; no event is invented and none appears twice.\<close>

theorem compaction_keeps_the_transcript:
  "filter plain_event (compactThreadEvents es) = filter plain_event (dedupeThreadEvents es) \<and>
   list_all (represented (compactThreadEvents es)) (dedupeThreadEvents es) \<and>
   set (compactThreadEvents es) \<subseteq> set es \<and> distinct (map eventIdentity (compactThreadEvents es)) \<and>
   eventIdentity ` set (dedupeThreadEvents es) = eventIdentity ` set es"
proof -
  have d: "distinct (map eventIdentity (dedupeThreadEvents es)) \<and> set (dedupeThreadEvents es) \<subseteq> set es \<and>
      eventIdentity ` set (dedupeThreadEvents es) = eventIdentity ` set es"
    using dedupe_facts [of "[]" es] by (simp add: dedupeThreadEvents_def)
  with fold_place [of "[]" "dedupeThreadEvents es"] show ?thesis
    unfolding compact_fold by (auto simp: list_all_iff)
qed

text \<open>Remark (recovery_appends_what_compaction_keeps)
  The recovery loop keeps a mutable array, a set of identities and a cached index of the last snapshot
  of each step, built when first needed, so that each event costs a look-up; appending a stream event by
  event this way gives exactly the compaction of the whole stream.\<close>

theorem recovery_appends_what_compaction_keeps:
  "as_events (foldl appendThreadEventIndexed fresh_append es) = compactThreadEvents es"
  using append_indexed_fold [of fresh_append es]
  by (simp add: fresh_append_def index_ok_def compact_fold dedupeThreadEvents_def)

lemma fold_append_distinct:
  "distinct (map eventIdentity (c @ es)) \<Longrightarrow> foldl appendThreadEvent c es = foldl place c es"
proof (induction es arbitrary: c)
  case (Cons e es)
  have "\<not> hasEventIdentity c e" using Cons.prems by (auto simp: hasEventIdentity_def list_ex_iff) (metis image_eqI)
  then have step: "appendThreadEvent c e = place c e" by (rule append_place)
  have "eventIdentity ` set (place c e) \<subseteq> eventIdentity ` insert e (set c)" using place_subset by (rule image_mono)
  moreover have "eventIdentity ` insert e (set c) \<inter> eventIdentity ` set es = {}" using Cons.prems by auto
  ultimately have "eventIdentity ` set (place c e) \<inter> eventIdentity ` set es = {}" by fast
  moreover have "distinct (map eventIdentity (place c e))" by (rule place_distinct) (use Cons.prems in auto)
  ultimately have "distinct (map eventIdentity (place c e @ es))" using Cons.prems by simp
  from Cons.IH [OF this] show ?case by (simp add: step)
qed simp

lemma dedupe_distinct: "distinct (map eventIdentity es) \<Longrightarrow> eventIdentity ` set es \<inter> set seen = {} \<Longrightarrow> dedupe_from seen es = es"
  by (induction es arbitrary: seen) auto

text \<open>Remark (live_appends_agree_without_replays)
  The live path scans the transcript for each event.  On a stream without replays it gives the same
  transcript as compaction and as the recovery loop, so the three can be mixed.\<close>

theorem live_appends_agree_without_replays:
  assumes "distinct (map eventIdentity es)"
  shows "foldl appendThreadEvent [] es = compactThreadEvents es"
  using fold_append_distinct [of "[]" es] dedupe_distinct [OF assms, of "[]"] assms
  by (simp add: compact_fold dedupeThreadEvents_def)

theorem live_appends_agree_without_replays_witness:
  "foldl appendThreadEvent [] [transcript_event MessageAppended ''1'' ''t'' ''a'', transcript_event MessageAppended ''2'' ''t'' ''ab'']
     = [transcript_event MessageAppended ''2'' ''t'' ''ab'']"
proof -
  let ?es = "[transcript_event MessageAppended ''1'' ''t'' ''a'', transcript_event MessageAppended ''2'' ''t'' ''ab'']"
  have "distinct (map eventIdentity ?es)" by code_simp
  from live_appends_agree_without_replays [OF this] have "foldl appendThreadEvent [] ?es = compactThreadEvents ?es" .
  also have "\<dots> = [transcript_event MessageAppended ''2'' ''t'' ''ab'']" by code_simp
  finally show ?thesis .
qed

text \<open>Remark (replayed_snapshot_comes_back)
  The live path recognises a replay only while the event is still in the transcript.  A snapshot that
  was replaced and is then replayed comes back at the end, older than the one before it, where
  compaction and the recovery loop drop it.\<close>

theorem replayed_snapshot_comes_back:
  "let a = transcript_event MessageAppended ''1'' ''t'' ''a''; ab = transcript_event MessageAppended ''2'' ''t'' ''ab''
   in foldl appendThreadEvent [] [a, ab, a] = [ab, a] \<and> compactThreadEvents [a, ab, a] = [ab]"
  by code_simp

text \<open>Remark (compaction_is_not_idempotent)
  A snapshot shorter than the one it follows starts a new attempt and is kept beside it.  When the new
  attempt has outgrown the old one, compacting the result again takes it for a continuation and drops
  the old attempt: loading a stored thread, which compacts it, changes the transcript.\<close>

theorem compaction_is_not_idempotent:
  "let old = transcript_event MessageAppended ''1'' ''t'' ''abc''; retry = transcript_event MessageAppended ''2'' ''t'' ''x'';
       more = transcript_event MessageAppended ''3'' ''t'' ''xyzw''
   in compactThreadEvents [old, retry, more] = [old, more] \<and> compactThreadEvents (compactThreadEvents [old, retry, more]) = [more]"
  by code_simp

end
