(* ===== verification/Thread_Merge.thy ===== *)
theory Thread_Merge
  imports Thread_Compaction
begin

section \<open>Merging two snapshots of a transcript\<close>

text \<open>Whatever order the engine's sort produces, it is an order of the candidates it was given.\<close>

definition permutes_input :: "candidate_sort \<Rightarrow> bool" where
  "permutes_input js_sort \<longleftrightarrow> (\<forall>cmp xs. mset (js_sort cmp xs) = mset xs)"

lemma sorted_candidates:
  assumes "permutes_input js_sort"
  shows "mset (map fst (js_sort cmp (zip xs [0..<length xs]))) = mset xs"
proof -
  have "mset (js_sort cmp (zip xs [0..<length xs])) = mset (zip xs [0..<length xs])"
    using assms by (simp add: permutes_input_def)
  then have "mset (map fst (js_sort cmp (zip xs [0..<length xs]))) = mset (map fst (zip xs [0..<length xs]))"
    by (simp only: mset_map)
  then show ?thesis by simp
qed

lemma compact_all:
  assumes "distinct (map eventIdentity es)"
  shows "filter plain_event (compactThreadEvents es) = filter plain_event es \<and> set (compactThreadEvents es) \<subseteq> set es \<and>
    distinct (map eventIdentity (compactThreadEvents es)) \<and> (\<forall>x \<in> set es. represented (compactThreadEvents es) x)"
proof -
  have "dedupeThreadEvents es = es" using dedupe_distinct [OF assms, of "[]"] by (simp add: dedupeThreadEvents_def)
  with fold_place [of "[]" es] assms show ?thesis by (simp add: compact_fold)
qed

lemma same_order_ids: "sameEventIdentityOrder l r \<Longrightarrow> map eventIdentity l = map eventIdentity r"
  by (auto simp: sameEventIdentityOrder_def list_all2_conv_all_nth intro!: nth_equalityI)

text \<open>The event of a merge that stands for \<open>e\<close>: a copy of it that is in one of the sides.\<close>

definition stands_in :: "thread_event list \<Rightarrow> thread_event list \<Rightarrow> thread_event \<Rightarrow> bool" where
  "stands_in sources es e \<longleftrightarrow> list_ex (\<lambda>c. eventIdentity c = eventIdentity e \<and> represented es c) sources"

lemma self_represented: "e \<in> set es \<Longrightarrow> represented es e"
  by (simp add: represented_def)

lemma subset_stands:
  assumes "eventIdentity ` set r \<subseteq> eventIdentity ` set l" and "e \<in> set l \<or> e \<in> set r" and "set l \<subseteq> set sources"
  shows "stands_in sources l e"
proof -
  obtain c where "c \<in> set l" "eventIdentity c = eventIdentity e" using assms by (metis image_eqI imageE subset_iff)
  then show ?thesis using assms(3) self_represented by (fastforce simp: stands_in_def list_ex_iff)
qed

text \<open>An event with an identity and a time, for the examples.\<close>

definition bare_thread :: "string \<Rightarrow> int \<Rightarrow> thread_event" where
  "bare_thread i at_ms = stream_event.extend ((bare_event ActionResult)\<lparr>se_metaId := Some i, se_metaAt := Some ''time'', se_at := Some at_ms\<rparr>)
     \<lparr>te_cursor = None\<rparr>"

text \<open>Each case of a merge.\<close>

lemma merge_keeps_events:
  assumes sort: "permutes_input js_sort"
  shows "set (mergeThreadEventSnapshots js_sort l r) \<subseteq> set l \<union> set r \<and>
    list_all (stands_in (l @ r) (mergeThreadEventSnapshots js_sort l r)) (l @ r) \<and>
    (distinct (map eventIdentity l) \<and> distinct (map eventIdentity r) \<longrightarrow>
       distinct (map eventIdentity (mergeThreadEventSnapshots js_sort l r)))"
proof -
  let ?m = "mergeThreadEventSnapshots js_sort l r"
  let ?L = "set (map eventIdentity l)" and ?R = "set (map eventIdentity r)"
  let ?left = "?R \<subseteq> ?L \<and> (length r < length l \<or> sameEventIdentityOrder l r)"
  let ?right = "?L \<subseteq> ?R \<and> (length l < length r \<or> sameEventIdentityOrder l r)"
  consider (nol) "l = []" | (nor) "l \<noteq> []" "r = []" | (left) "l \<noteq> []" "r \<noteq> []" ?left
    | (right) "l \<noteq> []" "r \<noteq> []" "\<not> ?left" ?right | (full) "l \<noteq> []" "r \<noteq> []" "\<not> ?left" "\<not> ?right" by blast
  then show ?thesis
  proof cases
    case nol
    then have "?m = r" by (simp add: mergeThreadEventSnapshots_def)
    with nol subset_stands [of "[]" r] show ?thesis by (auto simp: list_all_iff)
  next
    case nor
    then have "?m = l" by (simp add: mergeThreadEventSnapshots_def)
    with nor subset_stands [of "[]" l] show ?thesis by (auto simp: list_all_iff)
  next
    case left
    then have "?m = l" by (simp add: mergeThreadEventSnapshots_def Let_def)
    with left subset_stands [of r l] show ?thesis by (auto simp: list_all_iff)
  next
    case right
    then have m: "?m = r" unfolding mergeThreadEventSnapshots_def Let_def by (simp only: if_False if_True simp_thms)
    with right subset_stands [of l r] show ?thesis by (auto simp: list_all_iff)
  next
    case full
    let ?kept = "dedupeThreadEvents (l @ r)"
    let ?sorted = "map fst (js_sort candidate_order (zip ?kept [0..<length ?kept]))"
    have m: "?m = compactThreadEvents ?sorted"
      using full unfolding mergeThreadEventSnapshots_def Let_def by (simp only: if_False simp_thms)
    have k: "distinct (map eventIdentity ?kept)" "set ?kept \<subseteq> set (l @ r)" "eventIdentity ` set ?kept = eventIdentity ` set (l @ r)"
      using dedupe_facts [of "[]" "l @ r"] by (simp_all add: dedupeThreadEvents_def)
    have ms: "mset ?sorted = mset ?kept" by (rule sorted_candidates [OF sort])
    have set: "set ?sorted = set ?kept" using ms by (rule mset_eq_setD)
    have "mset (map eventIdentity ?sorted) = mset (map eventIdentity ?kept)" using ms by (simp only: mset_map)
    then have "distinct (map eventIdentity ?sorted)" using k(1) mset_eq_imp_distinct_iff by blast
    note c = compact_all [OF this, folded m]
    have "stands_in (l @ r) ?m e" if "e \<in> set (l @ r)" for e
    proof -
      from that k(3) obtain x where x: "x \<in> set ?kept" "eventIdentity x = eventIdentity e" by (metis image_eqI imageE)
      then have "represented ?m x" using c set by blast
      with x k(2) show ?thesis unfolding stands_in_def list_ex_iff by blast
    qed
    moreover have "set ?m \<subseteq> set l \<union> set r" using c set k(2) by auto
    ultimately show ?thesis using c by (auto simp: list_all_iff)
  qed
qed

text \<open>C17 (merge_loses_no_event)
  Merging a live snapshot with a recovered one, whatever permutation of its input the engine's sort is: nothing is
  invented; every event of either side is in the result, or one with its identity is, or - for a
  cumulative snapshot - a longer one of the same step; and if neither side repeats an event, the result
  does not.\<close>

theorem merge_loses_no_event:
  assumes sort: "permutes_input js_sort"
  shows "set (mergeThreadEventSnapshots js_sort l r) \<subseteq> set l \<union> set r \<and>
    list_all (stands_in (l @ r) (mergeThreadEventSnapshots js_sort l r)) (l @ r) \<and>
    (distinct (map eventIdentity l) \<and> distinct (map eventIdentity r) \<longrightarrow>
       distinct (map eventIdentity (mergeThreadEventSnapshots js_sort l r)))"
  by (rule merge_keeps_events [OF sort])

lemma sort_by_permutes: "permutes_input sort_by"
  by (simp add: permutes_input_def)

theorem merge_loses_no_event_witness:
  "list_all (stands_in ([bare_thread ''1'' 5, bare_thread ''3'' 9] @ [bare_thread ''2'' 7])
     (mergeThreadEventSnapshots sort_by [bare_thread ''1'' 5, bare_thread ''3'' 9] [bare_thread ''2'' 7]))
     ([bare_thread ''1'' 5, bare_thread ''3'' 9] @ [bare_thread ''2'' 7]) \<and>
   map se_metaId (mergeThreadEventSnapshots sort_by [bare_thread ''1'' 5, bare_thread ''3'' 9] [bare_thread ''2'' 7])
     = [Some ''1'', Some ''2'', Some ''3'']"
proof
  show "map se_metaId (mergeThreadEventSnapshots sort_by [bare_thread ''1'' 5, bare_thread ''3'' 9] [bare_thread ''2'' 7])
     = [Some ''1'', Some ''2'', Some ''3'']" by code_simp
qed (use merge_loses_no_event [OF sort_by_permutes] in blast)

text \<open>Remark (merge_order_has_cycles)
  The order of a merge is not transitive: events of one turn are compared by their sequence numbers and
  events of different turns by their timestamps, so when the clock steps back within a turn three
  events can each come before the next, round in a circle, and their place depends on the engine.\<close>

theorem merge_order_has_cycles:
  "let a = (bare_thread ''a'' 10)\<lparr>se_turnId := Some ''t'', se_sequence := Some 1\<rparr>;
       b = (bare_thread ''b'' 5)\<lparr>se_turnId := Some ''t'', se_sequence := Some 2\<rparr>;
       c = bare_thread ''c'' 7
   in compareEventOrder a b < 0 \<and> compareEventOrder b c < 0 \<and> compareEventOrder c a < 0"
  by code_simp

end
