(* ===== verification/Thread_Edits.thy ===== *)
theory Thread_Edits
  imports Thread_Merge
begin

section \<open>Edits: what the transcript shows after a turn was edited\<close>

text \<open>
  The runtime's stream only grows: an edit appends a \<^verbatim>\<open>context.cleared\<close> marker that names the turn it
  replaces.  The client projects the stream when it shows a thread, the server when it rebuilds a stored
  transcript, with different loops.  The specification is on turns: an edit of \<open>t\<close> drops the turn \<open>t\<close>,
  or the branch an earlier edit of \<open>t\<close> has opened, and everything after it.
\<close>

subsection \<open>A stream as blocks\<close>

datatype block = Turn string "thread_event list" | Edit string thread_event | Between "thread_event list"

fun block_events :: "block \<Rightarrow> thread_event list" where
  "block_events (Turn t es) = es"
| "block_events (Edit t e) = [e]"
| "block_events (Between es) = es"

definition stream_of :: "block list \<Rightarrow> thread_event list" where
  "stream_of bs = concat (map block_events bs)"

text \<open>
  A turn starts with its \<^verbatim>\<open>turn.started\<close>, has a user message, and its events carry its id or none; it is
  not one whose edit the runtime rejected.
\<close>

definition turn_event :: "string \<Rightarrow> thread_event \<Rightarrow> bool" where
  "turn_event t e \<longleftrightarrow> se_type e \<noteq> TurnStarted \<and> se_type e \<noteq> ContextCleared \<and>
     (se_turnId e = Some t \<or> se_turnId e = None \<and> se_type e \<noteq> MessageReceived) \<and>
     \<not> (se_type e = TurnFailed \<and> se_code e = Some ''turn_revert_conflict'')"

fun block_ok :: "block \<Rightarrow> bool" where
  "block_ok (Turn t es) \<longleftrightarrow> t \<noteq> [] \<and> (case es of [] \<Rightarrow> False
     | e # rest \<Rightarrow> is_start_of (Some t) e \<and> list_all (turn_event t) rest \<and>
         list_ex (\<lambda>c. se_type c = MessageReceived \<and> se_turnId c = Some t) rest)"
| "block_ok (Edit t e) \<longleftrightarrow> is_clear_of (Some t) e"
| "block_ok (Between es) \<longleftrightarrow> list_all (\<lambda>e. se_turnId e = None \<and> se_type e \<noteq> MessageReceived \<and> se_type e \<noteq> ContextCleared \<and>
     \<not> (se_type e = TurnFailed \<and> se_code e = Some ''turn_revert_conflict'')) es"

fun block_name :: "block \<Rightarrow> string option" where
  "block_name (Turn t es) = Some t"
| "block_name (Edit t e) = Some t"
| "block_name (Between es) = None"

definition names :: "block list \<Rightarrow> string list" where
  "names bs = List.map_filter block_name bs"

text \<open>The specification of an edit, and the streams in which each edit names a turn that is there.\<close>

fun edit_block :: "block list \<Rightarrow> block \<Rightarrow> block list" where
  "edit_block acc (Edit t e) = takeWhile (\<lambda>b. block_name b \<noteq> Some t) acc @ [Edit t e]"
| "edit_block acc b = acc @ [b]"

definition edited :: "block list \<Rightarrow> block list" where
  "edited bs = foldl edit_block [] bs"

fun addressed_from :: "block list \<Rightarrow> block list \<Rightarrow> bool" where
  "addressed_from acc [] \<longleftrightarrow> True"
| "addressed_from acc (b # bs) \<longleftrightarrow>
     (case b of Edit t e \<Rightarrow> t \<in> set (names acc) | Turn t es \<Rightarrow> t \<notin> set (names acc) | Between es \<Rightarrow> True) \<and>
     addressed_from (edit_block acc b) bs"

definition well_addressed :: "block list \<Rightarrow> bool" where
  "well_addressed bs \<longleftrightarrow> list_all block_ok bs \<and> addressed_from [] bs"

subsection \<open>Blocks and their events\<close>

lemma names_simps [simp]:
  "names [] = []" "names (xs @ ys) = names xs @ names ys"
  "names (b # bs) = (case block_name b of None \<Rightarrow> names bs | Some t \<Rightarrow> t # names bs)"
  by (simp_all add: names_def map_filter_simps List.map_filter_def split: option.split)

lemma stream_simps [simp]:
  "stream_of [] = []" "stream_of (b # bs) = block_events b @ stream_of bs" "stream_of (xs @ ys) = stream_of xs @ stream_of ys"
  by (simp_all add: stream_of_def)

lemma names_mem: "t \<in> set (names bs) \<longleftrightarrow> (\<exists>b \<in> set bs. block_name b = Some t)"
  by (induction bs) (auto split: option.splits)

lemma other_turn: "block_ok b \<Longrightarrow> block_name b \<noteq> Some t \<Longrightarrow> c \<in> set (block_events b) \<Longrightarrow> se_turnId c \<noteq> Some t"
  by (cases b) (auto simp: list_all_iff turn_event_def is_start_of_def is_clear_of_def split: list.splits)

lemma other_turns:
  assumes "list_all block_ok bs" and "t \<notin> set (names bs)"
  shows "list_all (\<lambda>c. se_turnId c \<noteq> Some t) (stream_of bs)"
  using assms other_turn by (auto simp: stream_of_def list_all_iff names_mem)

lemma last_index_absent: "list_all (\<lambda>c. se_turnId c \<noteq> Some t) es \<Longrightarrow> (\<And>c. P c \<Longrightarrow> se_turnId c = Some t) \<Longrightarrow> find_last_index P es = None"
  unfolding find_last_index_None list_all_iff by blast

lemma last_index_middle:
  assumes "list_all (\<lambda>c. se_turnId c \<noteq> Some t) ys" and "\<And>c. P c \<Longrightarrow> se_turnId c = Some t" and "find_last_index P es = Some j"
  shows "find_last_index P (xs @ es @ ys) = Some (length xs + j)"
  using last_index_absent [OF assms(1,2)] assms(3) by (simp add: find_last_index_append)

text \<open>The block an edit of \<open>t\<close> addresses.\<close>

lemma named_block:
  assumes "distinct (names acc)" and "t \<in> set (names acc)"
  obtains xs b ys where "acc = xs @ b # ys" "block_name b = Some t" "t \<notin> set (names xs)" "t \<notin> set (names ys)"
    "takeWhile (\<lambda>b. block_name b \<noteq> Some t) acc = xs"
proof -
  from assms(2) obtain b0 where "b0 \<in> set acc" "block_name b0 = Some t" by (auto simp: names_mem)
  then obtain xs b ys where s: "acc = xs @ b # ys" "block_name b = Some t" "\<forall>c \<in> set xs. block_name c \<noteq> Some t"
    using split_list_first_prop [of acc "\<lambda>b. block_name b = Some t"] by blast
  have "takeWhile (\<lambda>b. block_name b \<noteq> Some t) acc = xs" using s by (simp add: takeWhile_append2)
  moreover have "t \<notin> set (names xs)" using s by (auto simp: names_mem)
  moreover have "t \<notin> set (names ys)" using assms(1) s by simp
  ultimately show ?thesis using s that by blast
qed

text \<open>Inside a turn every search for its events leads to its start.\<close>

lemma cut_at_start:
  assumes "block_ok (Turn t es)" and j: "j < length es"
  shows "cut_turn (xs @ es @ ys) (length xs + j) (Some t) = xs"
proof -
  obtain e rest where es: "es = e # rest" "is_start_of (Some t) e" "list_all (turn_event t) rest"
    using assms(1) by (auto split: list.splits)
  have "list_all (\<lambda>c. \<not> is_start_of (Some t) c) (take j rest)"
    using es(3) by (auto simp: list_all_iff turn_event_def is_start_of_def dest: in_set_takeD)
  then have "find_last_index (is_start_of (Some t)) (take j rest) = None" by (simp add: find_last_index_None)
  then have "find_last_index (is_start_of (Some t)) (xs @ take (Suc j) es) = Some (length xs)"
    using es(1,2) by (simp add: find_last_index_append)
  moreover have "take (Suc (length xs + j)) (xs @ es @ ys) = xs @ take (Suc j) es" using j by (simp add: take_Cons' Suc_diff_le)
  ultimately have "cut_turn (xs @ es @ ys) (length xs + j) (Some t) = take (length xs) (xs @ es @ ys)"
    unfolding cut_turn_def by (simp only: option.case)
  then show ?thesis by simp
qed

lemma nth_middle: "j < length es \<Longrightarrow> (xs @ es @ ys) ! (length xs + j) = es ! j"
  by (simp add: nth_append)

subsection \<open>One edit\<close>

lemma edit_step:
  assumes ok: "list_all block_ok acc" "distinct (names acc)" and t: "t \<in> set (names acc)" and e: "is_clear_of (Some t) e"
  shows "project_edit (stream_of acc) e = stream_of (edit_block acc (Edit t e))"
    and "repair_edit (stream_of acc) e = stream_of (edit_block acc (Edit t e))"
proof -
  obtain xs b ys where s: "acc = xs @ b # ys" "block_name b = Some t" "t \<notin> set (names xs)" "t \<notin> set (names ys)"
      "takeWhile (\<lambda>b. block_name b \<noteq> Some t) acc = xs"
    using named_block [OF ok(2) t] by blast
  have x: "list_all (\<lambda>c. se_turnId c \<noteq> Some t) (stream_of xs)" and y: "list_all (\<lambda>c. se_turnId c \<noteq> Some t) (stream_of ys)"
    using ok(1) s other_turns by auto
  have r: "stream_of (edit_block acc (Edit t e)) = stream_of xs @ [e]" using s(5) by simp
  have ty: "se_type e = ContextCleared" "se_turnId e = Some t" using e by (simp_all add: is_clear_of_def)
  have "project_edit (stream_of acc) e = stream_of xs @ [e] \<and> repair_edit (stream_of acc) e = stream_of xs @ [e]"
  proof (cases b)
    case (Edit u e')
    then have e': "is_clear_of (Some t) e'" and b: "block_events b = [e']" using s ok(1) by auto
    have "find_last_index (is_clear_of (Some t)) (stream_of xs @ [e'] @ stream_of ys) = Some (length (stream_of xs) + 0)"
      by (rule last_index_middle [OF y]) (use e' in \<open>simp_all add: is_clear_of_def\<close>)
    then have p: "find_last_index (is_clear_of (Some t)) (stream_of acc) = Some (length (stream_of xs))" using s b by simp
    then have c: "cut_previous_clear (Some t) (stream_of acc) = stream_of xs" using s by (simp add: cut_previous_clear_def)
    have "find_last_index (\<lambda>c. eventTurnId c = Some t) (stream_of xs) = None"
      "find_last_index (\<lambda>c. se_type c = MessageReceived \<and> se_turnId c = Some t) (stream_of xs) = None"
      by (rule last_index_absent [OF x], simp add: eventTurnId_def)+
    then show ?thesis using ty p c by (simp add: project_edit_def repair_edit_def Let_def)
  next
    case (Turn u es)
    then have turn: "block_ok (Turn t es)" and b: "block_events b = es" using s ok(1) by auto
    have a: "stream_of acc = stream_of xs @ es @ stream_of ys" using s b by simp
    have "find_last_index (is_clear_of (Some t)) es = None"
      using turn by (auto simp: find_last_index_None list_all_iff turn_event_def is_clear_of_def is_start_of_def split: list.splits)
    then have p: "find_last_index (is_clear_of (Some t)) (stream_of acc) = None"
      using last_index_absent [OF x, of "is_clear_of (Some t)"] last_index_absent [OF y, of "is_clear_of (Some t)"]
      unfolding a by (simp add: find_last_index_append is_clear_of_def)
    then have c: "cut_previous_clear (Some t) (stream_of acc) = stream_of acc" by (simp add: cut_previous_clear_def)
    have ex: "list_ex (\<lambda>c. se_type c = MessageReceived \<and> se_turnId c = Some t) es" using turn by (auto split: list.splits)
    have found: "\<exists>j. find_last_index P es = Some j \<and> find_last_index P (stream_of acc) = Some (length (stream_of xs) + j) \<and>
        j < length es \<and> P (es ! j)" if P: "\<And>c. P c \<Longrightarrow> se_turnId c = Some t" "list_ex P es" for P
    proof -
      have "find_last_index P es \<noteq> None" using P(2) by (auto simp: find_last_index_None list_all_iff list_ex_iff)
      then obtain j where j: "find_last_index P es = Some j" by blast
      with last_index_middle [OF y, of P] P(1) find_last_index_Some [OF j] show ?thesis unfolding a by blast
    qed
    from found [of "\<lambda>c. se_type c = MessageReceived \<and> se_turnId c = Some t"] ex obtain j where
      j: "find_last_index (\<lambda>c. se_type c = MessageReceived \<and> se_turnId c = Some t) (stream_of acc) = Some (length (stream_of xs) + j)"
        "j < length es" "se_turnId (es ! j) = Some t" by auto
    have "list_ex (\<lambda>c. eventTurnId c = Some t) es" using ex by (auto simp: list_ex_iff eventTurnId_def)
    with found [of "\<lambda>c. eventTurnId c = Some t"] obtain k where
      k: "find_last_index (\<lambda>c. eventTurnId c = Some t) (stream_of acc) = Some (length (stream_of xs) + k)"
        "k < length es" "se_turnId (es ! k) = Some t" by (auto simp: eventTurnId_def)
    have "t \<noteq> []" using turn by simp
    then show ?thesis using ty p c j k nth_middle [OF j(2)] nth_middle [OF k(2)] cut_at_start [OF turn j(2)] cut_at_start [OF turn k(2)]
      unfolding project_edit_def repair_edit_def Let_def by (simp add: a eventTurnId_def)
  next
    case (Between es)
    with s show ?thesis by simp
  qed
  then show "project_edit (stream_of acc) e = stream_of (edit_block acc (Edit t e))"
    and "repair_edit (stream_of acc) e = stream_of (edit_block acc (Edit t e))" by (simp_all only: r)
qed

subsection \<open>Whole streams\<close>

lemma names_edited:
  assumes "distinct (names acc)" and "block_name b \<noteq> None \<and> (\<forall>t e. b \<noteq> Edit t e) \<longrightarrow> the (block_name b) \<notin> set (names acc)"
  shows "distinct (names (edit_block acc b))"
proof (cases b)
  case (Edit t e)
  let ?xs = "takeWhile (\<lambda>b. block_name b \<noteq> Some t) acc"
  have "t \<notin> set (names ?xs)" by (auto simp: names_mem dest: set_takeWhileD)
  moreover have "distinct (names ?xs)"
  proof -
    have "distinct (names (?xs @ dropWhile (\<lambda>b. block_name b \<noteq> Some t) acc))" using assms(1) by simp
    then show ?thesis unfolding names_simps by simp
  qed
  ultimately show ?thesis by (simp add: Edit)
qed (use assms in auto)

lemma ok_edited: "list_all block_ok acc \<Longrightarrow> block_ok b \<Longrightarrow> list_all block_ok (edit_block acc b)"
  by (cases b) (auto simp: list_all_iff dest: set_takeWhileD)

lemma plain_fold:
  assumes "list_all (\<lambda>c. se_type c \<noteq> ContextCleared) es"
  shows "foldl project_edit acc es = acc @ es \<and> foldl repair_edit acc es = acc @ es"
  using assms by (induction es arbitrary: acc) (simp_all add: project_edit_def repair_edit_def)

lemma block_fold:
  assumes "list_all block_ok acc" "distinct (names acc)" "block_ok b"
    and "case b of Edit t e \<Rightarrow> t \<in> set (names acc) | Turn t es \<Rightarrow> t \<notin> set (names acc) | Between es \<Rightarrow> True"
  shows "foldl project_edit (stream_of acc) (block_events b) = stream_of (edit_block acc b) \<and>
    foldl repair_edit (stream_of acc) (block_events b) = stream_of (edit_block acc b)"
proof (cases b)
  case (Edit t e)
  with assms edit_step [OF assms(1,2)] show ?thesis by (simp del: edit_block.simps)
next
  case (Turn t es)
  then have "list_all (\<lambda>c. se_type c \<noteq> ContextCleared) es"
    using assms(3) by (auto simp: list_all_iff turn_event_def is_start_of_def split: list.splits)
  from plain_fold [OF this] Turn show ?thesis by simp
next
  case (Between es)
  then have "list_all (\<lambda>c. se_type c \<noteq> ContextCleared) es" using assms(3) by (auto simp: list_all_iff)
  from plain_fold [OF this] Between show ?thesis by simp
qed

lemma blocks_fold:
  "list_all block_ok acc \<Longrightarrow> distinct (names acc) \<Longrightarrow> list_all block_ok bs \<Longrightarrow> addressed_from acc bs \<Longrightarrow>
   foldl project_edit (stream_of acc) (stream_of bs) = stream_of (foldl edit_block acc bs) \<and>
   foldl repair_edit (stream_of acc) (stream_of bs) = stream_of (foldl edit_block acc bs)"
proof (induction bs arbitrary: acc)
  case (Cons b bs)
  have b: "block_ok b" "list_all block_ok bs" and ad: "case b of Edit t e \<Rightarrow> t \<in> set (names acc) | Turn t es \<Rightarrow> t \<notin> set (names acc) | Between es \<Rightarrow> True"
    and rest: "addressed_from (edit_block acc b) bs" using Cons.prems by simp_all
  have "distinct (names (edit_block acc b))"
    by (rule names_edited [OF Cons.prems(2)]) (use ad in \<open>cases b; simp\<close>)
  from Cons.IH [OF ok_edited [OF Cons.prems(1) b(1)] this b(2) rest] block_fold [OF Cons.prems(1,2) b(1) ad]
  show ?case by simp
qed simp

lemma no_rejection: "list_all block_ok bs \<Longrightarrow> rejected_turns (stream_of bs) = []"
proof (induction bs)
  case (Cons b bs)
  have "filter (\<lambda>e. se_type e = TurnFailed \<and> se_code e = Some ''turn_revert_conflict'') (block_events b) = []"
    using Cons.prems
    by (cases b) (auto simp: filter_empty_conv list_all_iff turn_event_def is_start_of_def is_clear_of_def split: list.splits)
  with Cons show ?case by (simp add: rejected_turns_def)
qed (simp add: rejected_turns_def)

lemma project_fold: "rejected_turns es = [] \<Longrightarrow> projectThreadEditBranches es = foldl project_edit [] es"
  using plain_fold [of es "[]"]
  by (auto simp: projectThreadEditBranches_def accepted_events_def Let_def list_all_iff list_ex_iff)

text \<open>C18 (edits_drop_the_superseded_branch)
  On every stream made of whole turns, edits of turns that are there and other events, the client's
  projection and the server's repair agree, and both are the specification: an edit removes the turn it
  names - or the replacement an earlier edit of it had put there - with everything after it, keeps
  everything before, and leaves its own marker.\<close>

theorem edits_drop_the_superseded_branch:
  assumes "well_addressed bs"
  shows "projectThreadEditBranches (stream_of bs) = stream_of (edited bs) \<and>
    projectEditedBranches (stream_of bs) = stream_of (edited bs)"
  using blocks_fold [of "[]" bs] assms project_fold [OF no_rejection]
  by (simp add: well_addressed_def projectEditedBranches_def edited_def)

definition turn_of :: "string \<Rightarrow> string \<Rightarrow> block" where
  "turn_of t i = Turn t [transcript_event TurnStarted (''s'' @ i) t [], transcript_event MessageReceived (''m'' @ i) t [],
     transcript_event TurnCompleted (''c'' @ i) t []]"

definition edit_of :: "string \<Rightarrow> string \<Rightarrow> block" where
  "edit_of t i = Edit t (transcript_event ContextCleared (''e'' @ i) t [])"

theorem edits_drop_the_superseded_branch_witness:
  "map se_metaId (projectThreadEditBranches (stream_of [turn_of ''t1'' ''1'', turn_of ''t2'' ''2'', edit_of ''t2'' ''3'', turn_of ''t3'' ''4'', edit_of ''t2'' ''5'']))
     = [Some ''s1'', Some ''m1'', Some ''c1'', Some ''e5'']"
proof -
  have "well_addressed [turn_of ''t1'' ''1'', turn_of ''t2'' ''2'', edit_of ''t2'' ''3'', turn_of ''t3'' ''4'', edit_of ''t2'' ''5'']"
    by code_simp
  from edits_drop_the_superseded_branch [OF this, THEN conjunct1] show ?thesis
    by (simp only:) code_simp
qed

text \<open>Remark (repair_shows_a_rejected_edit)
  The two loops differ on an edit the runtime rejected: the client leaves out every event of a turn that
  failed with \<^verbatim>\<open>turn_revert_conflict\<close>, its clear marker included; the server's repair does not look, and
  takes a marker whose target is gone for a legacy one that addresses the last user turn.\<close>

theorem repair_shows_a_rejected_edit:
  "let failed = (transcript_event TurnFailed ''f'' ''t2'' [])\<lparr>se_code := Some ''turn_revert_conflict''\<rparr>;
       start = transcript_event TurnStarted ''s2'' ''t2'' []; marker = transcript_event ContextCleared ''e'' ''gone'' []
   in map se_metaId (projectThreadEditBranches (stream_of [turn_of ''t1'' ''1''] @ [start, failed])) = [Some ''s1'', Some ''m1'', Some ''c1''] \<and>
      map se_metaId (projectEditedBranches (stream_of [turn_of ''t1'' ''1''] @ [start, failed])) = [Some ''s1'', Some ''m1'', Some ''c1'', Some ''s2'', Some ''f''] \<and>
      map se_metaId (projectThreadEditBranches (stream_of [turn_of ''t1'' ''1''] @ [marker])) = [Some ''s1'', Some ''m1'', Some ''c1'', Some ''e''] \<and>
      map se_metaId (projectEditedBranches (stream_of [turn_of ''t1'' ''1''] @ [marker])) = [Some ''e'']"
  by code_simp

end
