(* ===== verification/Utf16_Text.thy ===== *)
theory Utf16_Text
  imports Js_Arrays "HOL-Library.Word"
begin

section \<open>Text measured in UTF-8 and cut between code points (agent-workspace/retained-context.ts)\<close>

text \<open>
  JavaScript strings as they are, lists of 16-bit code units: a high surrogate followed by a low one is
  one code point of four bytes, anything else - a lone surrogate too - is a code point by itself.
\<close>

type_synonym js_text = "16 word list"

definition units :: "string \<Rightarrow> js_text" where
  "units s = map (\<lambda>c. word_of_nat (of_char c)) s"

definition is_high :: "16 word \<Rightarrow> bool" where
  "is_high u \<longleftrightarrow> 0xD800 \<le> u \<and> u \<le> 0xDBFF"

definition is_low :: "16 word \<Rightarrow> bool" where
  "is_low u \<longleftrightarrow> 0xDC00 \<le> u \<and> u \<le> 0xDFFF"

text \<open>The bytes of a code point that is one unit, and of a pair.\<close>

definition unit_bytes :: "16 word \<Rightarrow> nat" where
  "unit_bytes u = (if u \<le> 0x7F then 1 else if u \<le> 0x7FF then 2 else 3)"

fun utf8_bytes :: "js_text \<Rightarrow> nat" where
  "utf8_bytes [] = 0"
| "utf8_bytes [u] = unit_bytes u"
| "utf8_bytes (u # v # r) = (if is_high u \<and> is_low v then 4 + utf8_bytes r else unit_bytes u + utf8_bytes (v # r))"

definition AGENT_APPROXIMATE_BYTES_PER_TOKEN :: nat where
  "AGENT_APPROXIMATE_BYTES_PER_TOKEN = 4"

definition approximateTokenCount :: "js_text \<Rightarrow> nat" where
  "approximateTokenCount v = (utf8_bytes v + 3) div AGENT_APPROXIMATE_BYTES_PER_TOKEN"

text \<open>The longest prefix of whole code points within a number of bytes.\<close>

fun takePrefixByUtf8Bytes :: "js_text \<Rightarrow> nat \<Rightarrow> js_text" where
  "takePrefixByUtf8Bytes [] maxBytes = []"
| "takePrefixByUtf8Bytes [u] maxBytes = (if unit_bytes u > maxBytes then [] else [u])"
| "takePrefixByUtf8Bytes (u # v # r) maxBytes =
     (if is_high u \<and> is_low v
      then if 4 > maxBytes then [] else u # v # takePrefixByUtf8Bytes r (maxBytes - 4)
      else if unit_bytes u > maxBytes then [] else u # takePrefixByUtf8Bytes (v # r) (maxBytes - unit_bytes u))"

text \<open>
  The suffix loop, over the units from the end: a low surrogate is taken together with the unit before
  it, whatever that is, at the price of the code point that starts there.
\<close>

definition size_before :: "16 word \<Rightarrow> js_text \<Rightarrow> nat" where
  "size_before u taken = (if is_high u \<and> (case taken of [] \<Rightarrow> False | w # _ \<Rightarrow> is_low w) then 4 else unit_bytes u)"

fun suffix_loop :: "js_text \<Rightarrow> nat \<Rightarrow> js_text \<Rightarrow> js_text" where
  "suffix_loop [] budget taken = taken"
| "suffix_loop [u] budget taken = (if size_before u taken > budget then taken else u # taken)"
| "suffix_loop (u # v # r) budget taken =
     (if is_low u
      then if size_before v (u # taken) > budget then taken
        else suffix_loop r (budget - size_before v (u # taken)) (v # u # taken)
      else if size_before u taken > budget then taken else suffix_loop (v # r) (budget - size_before u taken) (u # taken))"

definition takeSuffixByUtf8Bytes :: "js_text \<Rightarrow> nat \<Rightarrow> js_text" where
  "takeSuffixByUtf8Bytes v maxBytes = suffix_loop (rev v) maxBytes []"

definition omission_marker :: "nat \<Rightarrow> js_text" where
  "omission_marker n = units [CHR 0x0A] @ [0x2026] @ units (show_nat n) @
     units '' approximate tokens omitted; full event remains durable'' @ [0x2026] @ units [CHR 0x0A]"

definition truncateMiddleToTokenBudget :: "js_text \<Rightarrow> nat \<Rightarrow> js_text" where
  "truncateMiddleToTokenBudget v maxTokens =
     (if v = [] \<or> maxTokens = 0 then []
      else let originalTokens = approximateTokenCount v
        in if originalTokens \<le> maxTokens then v
           else let marker = omission_marker (max 1 (originalTokens - maxTokens));
                    maxBytes = maxTokens * AGENT_APPROXIMATE_BYTES_PER_TOKEN;
                    markerBytes = utf8_bytes marker
             in if markerBytes \<ge> maxBytes then takePrefixByUtf8Bytes marker maxBytes
                else let retainedBytes = maxBytes - markerBytes; prefixBytes = retainedBytes div 2; suffixBytes = retainedBytes - prefixBytes
                  in takePrefixByUtf8Bytes v prefixBytes @ marker @ takeSuffixByUtf8Bytes v suffixBytes)"

subsection \<open>Well-formed text\<close>

text \<open>Every surrogate is half of a pair.\<close>

fun well_formed :: "js_text \<Rightarrow> bool" where
  "well_formed [] \<longleftrightarrow> True"
| "well_formed [u] \<longleftrightarrow> \<not> is_high u \<and> \<not> is_low u"
| "well_formed (u # v # r) \<longleftrightarrow> (if is_high u then is_low v \<and> well_formed r else \<not> is_low u \<and> well_formed (v # r))"

lemma high_not_low: "is_high u \<Longrightarrow> \<not> is_low u"
  by (auto simp: is_high_def is_low_def word_le_nat_alt)

lemma utf8_bytes_Cons: "\<not> is_high u \<Longrightarrow> utf8_bytes (u # r) = unit_bytes u + utf8_bytes r"
  by (cases r) simp_all

lemma well_formed_Cons: "\<not> is_high u \<Longrightarrow> well_formed (u # r) \<longleftrightarrow> \<not> is_low u \<and> well_formed r"
  by (cases r) simp_all

text \<open>The units of well-formed text come one by one or in pairs.\<close>

lemma well_formed_induct [consumes 1, case_names Nil Single Pair]:
  assumes "well_formed v" and "P []"
    and "\<And>u r. \<not> is_high u \<Longrightarrow> \<not> is_low u \<Longrightarrow> well_formed r \<Longrightarrow> P r \<Longrightarrow> P (u # r)"
    and "\<And>u w r. is_high u \<Longrightarrow> is_low w \<Longrightarrow> well_formed r \<Longrightarrow> P r \<Longrightarrow> P (u # w # r)"
  shows "P v"
  using assms(1)
proof (induction v rule: well_formed.induct)
  case (3 u w r)
  then show ?case using assms(3,4) by (cases "is_high u") auto
qed (use assms in \<open>auto intro: assms(3)\<close>)

lemma utf8_bytes_append: "well_formed a \<Longrightarrow> utf8_bytes (a @ b) = utf8_bytes a + utf8_bytes b"
  by (induction a rule: well_formed_induct) (simp_all add: utf8_bytes_Cons)

lemma well_formed_append: "well_formed a \<Longrightarrow> well_formed (a @ b) = well_formed b"
  by (induction a rule: well_formed_induct) (simp_all add: well_formed_Cons)

lemma prefix_bound: "utf8_bytes (takePrefixByUtf8Bytes v n) \<le> n"
proof (induction v n rule: takePrefixByUtf8Bytes.induct)
  case (3 u v r n)
  show ?case
  proof (cases "is_high u \<and> is_low v")
    case True
    with 3(1) show ?thesis by auto
  next
    case False
    have "utf8_bytes (u # takePrefixByUtf8Bytes (v # r) m) = unit_bytes u + utf8_bytes (takePrefixByUtf8Bytes (v # r) m)" for m
    proof (cases "takePrefixByUtf8Bytes (v # r) m")
      case (Cons x xs)
      then have "x = v" by (cases r) (auto split: if_splits)
      with Cons False show ?thesis by auto
    qed simp
    with False 3(2) show ?thesis by auto
  qed
qed auto

lemma prefix_well_formed: "well_formed v \<Longrightarrow> well_formed (takePrefixByUtf8Bytes v n)"
proof (induction v arbitrary: n rule: well_formed_induct)
  case (Single u r)
  then show ?case by (cases r) (auto simp: well_formed_Cons)
next
  case (Pair u w r)
  then show ?case by auto
qed simp

lemma well_formed_end:
  "well_formed v \<Longrightarrow> v = [] \<or> (\<exists>r u. v = r @ [u] \<and> \<not> is_high u \<and> \<not> is_low u \<and> well_formed r) \<or>
     (\<exists>r h l. v = r @ [h, l] \<and> is_high h \<and> is_low l \<and> well_formed r)"
proof (induction v rule: well_formed_induct)
  case (Single u r)
  then show ?case
  proof (elim disjE exE conjE)
    fix s w assume "r = s @ [w]" "\<not> is_high w" "\<not> is_low w" "well_formed s"
    with Single(1,2) show ?thesis by (intro disjI2 disjI1 exI [of _ "u # s"] exI [of _ w]) (simp add: well_formed_Cons)
  next
    fix s h l assume "r = s @ [h, l]" "is_high h" "is_low l" "well_formed s"
    with Single(1,2) show ?thesis by (intro disjI2 exI [of _ "u # s"] exI [of _ h] exI [of _ l]) (simp add: well_formed_Cons)
  qed simp
next
  case (Pair u w r)
  then show ?case
  proof (elim disjE exE conjE)
    assume "r = []"
    with Pair(1,2) show ?thesis by (intro disjI2 exI [of _ "[]"] exI [of _ u] exI [of _ w]) simp
  next
    fix s x assume "r = s @ [x]" "\<not> is_high x" "\<not> is_low x" "well_formed s"
    with Pair(1,2) show ?thesis by (intro disjI2 disjI1 exI [of _ "u # w # s"] exI [of _ x]) simp
  next
    fix s h l assume "r = s @ [h, l]" "is_high h" "is_low l" "well_formed s"
    with Pair(1,2) show ?thesis by (intro disjI2 exI [of _ "u # w # s"] exI [of _ h] exI [of _ l]) simp
  qed
qed simp

lemma head_not_low: "well_formed (u # r) \<Longrightarrow> \<not> is_low u"
  by (cases r) (auto simp: high_not_low split: if_splits)

lemma size_single: "well_formed taken \<Longrightarrow> size_before u taken = unit_bytes u"
  using head_not_low by (auto simp: size_before_def split: list.split)

lemma suffix_loop_sound:
  "well_formed v \<Longrightarrow> well_formed taken \<Longrightarrow>
   \<exists>s. suffix_loop (rev v) n taken = s @ taken \<and> well_formed s \<and> utf8_bytes s \<le> n"
proof (induction "length v" arbitrary: v n taken rule: less_induct)
  case less
  consider (nil) "v = []" | (single) r u where "v = r @ [u]" "\<not> is_high u" "\<not> is_low u" "well_formed r"
    | (pair) r h l where "v = r @ [h, l]" "is_high h" "is_low l" "well_formed r"
    using well_formed_end [OF less.prems(1)] by blast
  then show ?case
  proof cases
    case nil
    then show ?thesis by simp
  next
    case single
    have size: "size_before u taken = unit_bytes u" by (rule size_single [OF less.prems(2)])
    have loop: "suffix_loop (rev v) n taken = (if unit_bytes u > n then taken else suffix_loop (rev r) (n - unit_bytes u) (u # taken))"
      using single(1,3) size by (cases "rev r") simp_all
    show ?thesis
    proof (cases "unit_bytes u > n")
      case True
      with loop show ?thesis by (intro exI [of _ "[]"]) simp
    next
      case False
      have "well_formed (u # taken)" using single(2,3) less.prems(2) by (simp add: well_formed_Cons)
      from less.hyps [OF _ single(4) this, of "n - unit_bytes u"] single(1) obtain s where
        s: "suffix_loop (rev r) (n - unit_bytes u) (u # taken) = s @ u # taken" "well_formed s" "utf8_bytes s \<le> n - unit_bytes u" by auto
      have "well_formed (s @ [u])" using s(2) single(2,3) by (simp add: well_formed_append)
      moreover have "utf8_bytes (s @ [u]) \<le> n" using s False by (simp add: utf8_bytes_append)
      ultimately show ?thesis using loop False s(1) by (intro exI [of _ "s @ [u]"]) simp
    qed
  next
    case pair
    have size: "size_before h (l # taken) = 4" using pair(2,3) by (simp add: size_before_def)
    have loop: "suffix_loop (rev v) n taken = (if 4 > n then taken else suffix_loop (rev r) (n - 4) (h # l # taken))"
      using pair(1,3) size by simp
    show ?thesis
    proof (cases "4 > n")
      case True
      with loop show ?thesis by (intro exI [of _ "[]"]) simp
    next
      case False
      have "well_formed (h # l # taken)" using pair(2,3) less.prems(2) by simp
      from less.hyps [OF _ pair(4) this, of "n - 4"] pair(1) obtain s where
        s: "suffix_loop (rev r) (n - 4) (h # l # taken) = s @ h # l # taken" "well_formed s" "utf8_bytes s \<le> n - 4" by auto
      have "well_formed (s @ [h, l])" using s(2) pair(2,3) by (simp add: well_formed_append)
      moreover have "utf8_bytes (s @ [h, l]) \<le> n" using s False pair by (simp add: utf8_bytes_append)
      ultimately show ?thesis using loop False s(1) by (intro exI [of _ "s @ [h, l]"]) simp
    qed
  qed
qed

lemma suffix_sound: "well_formed v \<Longrightarrow> well_formed (takeSuffixByUtf8Bytes v n) \<and> utf8_bytes (takeSuffixByUtf8Bytes v n) \<le> n"
  using suffix_loop_sound [of v "[]" n] by (auto simp: takeSuffixByUtf8Bytes_def)

lemma no_surrogates: "list_all (\<lambda>u. \<not> is_high u \<and> \<not> is_low u) v \<Longrightarrow> well_formed v"
  by (induction v) (simp_all add: well_formed_Cons)

lemma units_plain: "list_all (\<lambda>u. \<not> is_high u \<and> \<not> is_low u) (units s)"
proof -
  have "\<not> is_high (word_of_nat (of_char c)) \<and> \<not> is_low (word_of_nat (of_char c))" for c
    by (cases c) (simp add: is_high_def is_low_def word_le_nat_alt unat_of_nat take_bit_nat_eq_self)
  then show ?thesis by (simp add: units_def list_all_iff)
qed

lemma marker_well_formed: "well_formed (omission_marker n)"
proof -
  have "\<not> is_high 0x2026 \<and> \<not> is_low 0x2026" by (simp add: is_high_def is_low_def word_le_nat_alt)
  then show ?thesis unfolding omission_marker_def using units_plain by (intro no_surrogates) simp
qed

lemma tokens_iff: "approximateTokenCount v \<le> n \<longleftrightarrow> utf8_bytes v \<le> 4 * n"
  unfolding approximateTokenCount_def AGENT_APPROXIMATE_BYTES_PER_TOKEN_def by linarith

lemma truncation_sound:
  assumes "well_formed v"
  shows "approximateTokenCount (truncateMiddleToTokenBudget v n) \<le> n \<and> well_formed (truncateMiddleToTokenBudget v n) \<and>
    (approximateTokenCount v \<le> n \<longrightarrow> truncateMiddleToTokenBudget v n = v)"
proof (cases "v = [] \<or> n = 0 \<or> approximateTokenCount v \<le> n")
  case True
  then consider "v = []" | "n = 0" "v \<noteq> []" | "n \<noteq> 0" "approximateTokenCount v \<le> n" by blast
  then show ?thesis
  proof cases
    case 2
    then have "utf8_bytes v > 0" by (cases v rule: utf8_bytes.cases) (auto simp: unit_bytes_def)
    then have "approximateTokenCount v > 0" using tokens_iff [of v 0] by linarith
    moreover have "approximateTokenCount [] = 0" using tokens_iff [of "[]" 0] by simp
    ultimately show ?thesis using 2 by (simp add: truncateMiddleToTokenBudget_def)
  qed (use assms in \<open>auto simp: truncateMiddleToTokenBudget_def tokens_iff\<close>)
next
  case False
  let ?m = "omission_marker (max 1 (approximateTokenCount v - n))"
  let ?room = "n * 4 - utf8_bytes ?m"
  show ?thesis
  proof (cases "utf8_bytes ?m \<ge> n * 4")
    case True
    then have "truncateMiddleToTokenBudget v n = takePrefixByUtf8Bytes ?m (n * 4)"
      using False by (simp add: truncateMiddleToTokenBudget_def Let_def AGENT_APPROXIMATE_BYTES_PER_TOKEN_def)
    with False prefix_bound [of ?m "n * 4"] prefix_well_formed [OF marker_well_formed] show ?thesis by (simp add: tokens_iff)
  next
    case fits: False
    let ?p = "takePrefixByUtf8Bytes v (?room div 2)" and ?s = "takeSuffixByUtf8Bytes v (?room - ?room div 2)"
    have t: "truncateMiddleToTokenBudget v n = ?p @ ?m @ ?s"
      using False fits by (simp add: truncateMiddleToTokenBudget_def Let_def AGENT_APPROXIMATE_BYTES_PER_TOKEN_def)
    have w: "well_formed ?p" "well_formed ?m" by (rule prefix_well_formed [OF assms], rule marker_well_formed)
    have "utf8_bytes ?p \<le> ?room div 2" by (rule prefix_bound)
    moreover have "utf8_bytes ?s \<le> ?room - ?room div 2" using suffix_sound [OF assms] by blast
    moreover have "utf8_bytes (?p @ ?m @ ?s) = utf8_bytes ?p + (utf8_bytes ?m + utf8_bytes ?s)"
      by (simp only: utf8_bytes_append w)
    ultimately have "utf8_bytes (?p @ ?m @ ?s) \<le> 4 * n" using fits by linarith
    moreover have "well_formed (?p @ ?m @ ?s)" using w suffix_sound [OF assms] by (simp only: well_formed_append w)
    ultimately show ?thesis using False by (simp add: t tokens_iff)
  qed
qed

text \<open>Remark (truncation_fits_its_budget)
  Cutting the middle out of a text leaves at most the tokens that were asked for, marker included, and
  cuts between code points: text without lone surrogates stays so.  Text within the budget is not
  touched.\<close>

theorem truncation_fits_its_budget:
  assumes "well_formed v"
  shows "approximateTokenCount (truncateMiddleToTokenBudget v n) \<le> n \<and> well_formed (truncateMiddleToTokenBudget v n) \<and>
    (approximateTokenCount v \<le> n \<longrightarrow> truncateMiddleToTokenBudget v n = v)"
  by (rule truncation_sound [OF assms])

theorem truncation_fits_its_budget_witness:
  "approximateTokenCount (truncateMiddleToTokenBudget (replicate 200 0x4E2D) 30) \<le> 30"
proof -
  have "well_formed (replicate 200 0x4E2D)" by (rule no_surrogates) (simp add: list_all_iff is_high_def is_low_def word_le_nat_alt)
  from truncation_fits_its_budget [OF this, of 30] show ?thesis by blast
qed

text \<open>Remark (lone_surrogates_overrun_the_budget)
  Text may hold lone surrogates, and the suffix loop counts a lone low surrogate with the unit before it
  as that unit alone: a text of such pairs, cut to thirty tokens, comes out at fifty.\<close>

theorem lone_surrogates_overrun_the_budget:
  "approximateTokenCount (truncateMiddleToTokenBudget (concat (replicate 60 [0x61, 0xDC00])) 30) > 30"
  by code_simp

end
