(* ===== verification/Retained_Context.thy ===== *)
theory Retained_Context
  imports Utf16_Text Thread_Events Patch_Text Mailbox_Store
begin

section \<open>The context kept for later turns (agent-workspace/retained-context.ts)\<close>

text \<open>
  When a turn is stopped, what it was asked and what it did is written down as a text and kept, within
  a token budget scaled to the model's window, for the messages that follow; the mailbox accepts such a
  context only within bounds of its own.  \<^verbatim>\<open>JSON.stringify\<close> and the printing of numbers are parameters.
\<close>

record printer =
  pt_stringify :: "json \<Rightarrow> string"
  pt_number :: "rat \<Rightarrow> string"

definition CODEX_REFERENCE_CONTEXT_WINDOW_TOKENS :: nat where "CODEX_REFERENCE_CONTEXT_WINDOW_TOKENS = 272000"
definition CODEX_TOOL_OUTPUT_TOKEN_BUDGET :: nat where "CODEX_TOOL_OUTPUT_TOKEN_BUDGET = 10000"
definition MIN_RECOVERY_CONTEXT_TOKENS :: nat where "MIN_RECOVERY_CONTEXT_TOKENS = 512"
definition AGENT_CLIENT_CONTEXT_MAX_TOKENS :: nat where "AGENT_CLIENT_CONTEXT_MAX_TOKENS = 20000"

definition INTERRUPTED_TURN_CONTEXT_PREFIX :: string where
  "INTERRUPTED_TURN_CONTEXT_PREFIX = ''[Open Agent interrupted turn: ''"

text \<open>The window is \<open>None\<close> when it is no finite number.\<close>

definition recoveryContextTokenBudget :: "rat option \<Rightarrow> nat" where
  "recoveryContextTokenBudget window =
     (let contextWindow = (case window of Some w \<Rightarrow> if w > 0 then nat \<lfloor>w\<rfloor> else CODEX_REFERENCE_CONTEXT_WINDOW_TOKENS
            | None \<Rightarrow> CODEX_REFERENCE_CONTEXT_WINDOW_TOKENS);
          scaled = contextWindow * AGENT_CLIENT_CONTEXT_MAX_TOKENS div CODEX_REFERENCE_CONTEXT_WINDOW_TOKENS
      in max MIN_RECOVERY_CONTEXT_TOKENS (min AGENT_CLIENT_CONTEXT_MAX_TOKENS scaled))"

text \<open>The newest entries first; the one that does not fit is cut, the older ones are dropped.\<close>

fun bound_loop :: "nat \<Rightarrow> js_text list \<Rightarrow> js_text list \<Rightarrow> js_text list" where
  "bound_loop remaining [] bounded = bounded"
| "bound_loop remaining (e # es) bounded =
     (if remaining = 0 then bounded
      else let tokens = approximateTokenCount e;
               v = (if tokens \<le> remaining then e else truncateMiddleToTokenBudget e remaining)
        in bound_loop (remaining - min tokens remaining) es (if v \<noteq> [] then v # bounded else bounded))"

definition boundRetainedContext :: "js_text list \<Rightarrow> rat option \<Rightarrow> js_text list option" where
  "boundRetainedContext entries window =
     (let bounded = bound_loop (recoveryContextTokenBudget window) (rev entries) []
      in if bounded \<noteq> [] then Some bounded else None)"

subsection \<open>White space and prefixes of JavaScript text\<close>

definition is_space_unit :: "16 word \<Rightarrow> bool" where
  "is_space_unit u \<longleftrightarrow> u \<in> {9, 10, 11, 12, 13, 32, 160, 0x1680, 0x2028, 0x2029, 0x202F, 0x205F, 0x3000, 0xFEFF} \<or> (0x2000 \<le> u \<and> u \<le> 0x200A)"

definition is_blank :: "js_text \<Rightarrow> bool" where
  "is_blank v \<longleftrightarrow> list_all is_space_unit v"

definition starts_with_text :: "js_text \<Rightarrow> js_text \<Rightarrow> bool" where
  "starts_with_text p v \<longleftrightarrow> take (length p) v = p"

text \<open>A stored context: the last entries that are texts and not blank.\<close>

definition sanitizeRetainedContext :: "js_text option list option \<Rightarrow> rat option \<Rightarrow> js_text list option" where
  "sanitizeRetainedContext v window = (case v of
       None \<Rightarrow> None
     | Some xs \<Rightarrow> boundRetainedContext
         (filter (\<lambda>e. \<not> is_blank e) (List.map_filter id (drop (length xs - AGENT_CLIENT_CONTEXT_MAX_ENTRIES) xs))) window)"

text \<open>The transport guard of the mailbox, on JavaScript text.\<close>

fun bounded_entries :: "nat \<Rightarrow> js_text list \<Rightarrow> bool" where
  "bounded_entries totalBytes [] \<longleftrightarrow> True"
| "bounded_entries totalBytes (e # es) \<longleftrightarrow>
     (if is_blank e then False
      else if totalBytes + utf8_bytes e > AGENT_CLIENT_CONTEXT_MAX_BYTES then False
      else bounded_entries (totalBytes + utf8_bytes e) es)"

definition bounded_client_context :: "js_text list \<Rightarrow> bool" where
  "bounded_client_context v \<longleftrightarrow> length v \<le> AGENT_CLIENT_CONTEXT_MAX_ENTRIES \<and> bounded_entries 0 v"

subsection \<open>The checkpoint of a tool call\<close>

record tool_call =
  tc_input :: "json option"
  tc_toolName :: "string option"

record tool_result =
  tr_output :: "json option"
  tr_status :: "string option"

fun last_segment :: "string \<Rightarrow> string \<Rightarrow> string" where
  "last_segment acc [] = acc"
| "last_segment acc [c] = acc @ [c]"
| "last_segment acc (c # d # s) = (if c = CHR ''_'' \<and> d = CHR ''_'' then last_segment [] s else last_segment (acc @ [c]) (d # s))"

definition lower_char :: "char \<Rightarrow> char" where
  "lower_char c = (if is_upper c then char_of ((of_char c :: nat) + 32) else c)"

definition canonicalToolName :: "string \<Rightarrow> string" where
  "canonicalToolName v = map lower_char (last_segment [] v)"

definition serializeContextValue :: "printer \<Rightarrow> json option \<Rightarrow> string" where
  "serializeContextValue pr v =
     (let serialized = (case v of None \<Rightarrow> [] | Some (JStr s) \<Rightarrow> s | Some j \<Rightarrow> pt_stringify pr j)
      in if serialized \<noteq> [] then serialized else ''(no output)'')"

definition asRecord :: "json option \<Rightarrow> json option" where
  "asRecord v = (case v of Some (JObj kvs) \<Rightarrow> Some (JObj kvs) | _ \<Rightarrow> None)"

definition stringField :: "json option \<Rightarrow> string \<Rightarrow> string option" where
  "stringField v key = (case v of None \<Rightarrow> None | Some r \<Rightarrow> (case jget key r of Some (JStr s) \<Rightarrow> if s \<noteq> [] then Some s else None | _ \<Rightarrow> None))"

definition numberField :: "json option \<Rightarrow> string \<Rightarrow> rat option" where
  "numberField v key = (case v of None \<Rightarrow> None | Some r \<Rightarrow> (case jget key r of Some (JNum x) \<Rightarrow> Some x | _ \<Rightarrow> None))"

definition payloadStatistics :: "string \<Rightarrow> string" where
  "payloadStatistics v = show_nat (utf8_bytes (units v)) @ '' bytes, '' @ show_nat (length (split_on LF v)) @
     '' lines, approximately '' @ show_nat (approximateTokenCount (units v)) @ '' tokens''"

definition line_of :: "string \<Rightarrow> string option \<Rightarrow> string list" where
  "line_of label v = (case v of None \<Rightarrow> [] | Some s \<Rightarrow> [label @ s])"

definition path_field :: "json option \<Rightarrow> string" where
  "path_field input = (case stringField input ''filePath'' of Some p \<Rightarrow> p
     | None \<Rightarrow> (case stringField input ''path'' of Some p \<Rightarrow> p | None \<Rightarrow> ''unknown''))"

definition checkpoint_lines :: "printer \<Rightarrow> string \<Rightarrow> tool_call \<Rightarrow> tool_result option \<Rightarrow> string list" where
  "checkpoint_lines pr callId call result =
     (let tool = canonicalToolName (text_part (tc_toolName call));
          input = asRecord (tc_input call);
          output = asRecord (case result of None \<Rightarrow> None | Some r \<Rightarrow> tr_output r);
          status = (\<lambda>r. text_part (tr_status r));
          heading = (if result = None then ''Possibly interrupted'' else ''Completed'') @ '' tool '' @ text_part (tc_toolName call) @
            '' ('' @ callId @ '')'';
          num = map_option (pt_number pr)
      in heading #
       (if tool = ''bash'' then
          [''command: '' @ (case stringField input ''command'' of Some c \<Rightarrow> c | None \<Rightarrow> serializeContextValue pr (tc_input call))] @
          (case result of Some r \<Rightarrow> [''status: '' @ status r] | None \<Rightarrow> [''status: verify whether the process or its side effects completed'']) @
          line_of ''exit code: '' (num (numberField output ''exitCode'')) @
          line_of ''stdout tail: '' (stringField output ''stdout'') @
          line_of ''stderr tail: '' (stringField output ''stderr'')
        else if tool = ''read_file'' then
          [''path: '' @ path_field input] @
          line_of ''offset: '' (num (numberField input ''offset'')) @
          line_of ''total lines: '' (num (numberField output ''totalLines'')) @
          line_of ''next offset: '' (num (numberField output ''nextOffset'')) @
          line_of ''observed content: '' (stringField output ''content'')
        else if tool = ''write_file'' then
          [''path: '' @ path_field input] @
          (case stringField input ''content'' of None \<Rightarrow> []
           | Some content \<Rightarrow> [''requested content: '' @ payloadStatistics content @ ''; re-read the file to recover its authoritative contents'']) @
          (case result of Some r \<Rightarrow> [''status: '' @ status r @ ''; result: '' @ serializeContextValue pr (tr_output r)]
           | None \<Rightarrow> [''status: verify the file before retrying''])
        else if tool = ''glob'' \<or> tool = ''grep'' then
          [''query: '' @ serializeContextValue pr (tc_input call)] @
          (case result of Some r \<Rightarrow> [''status: '' @ status r @ ''; matches: '' @
              (case stringField output ''content'' of Some c \<Rightarrow> c | None \<Rightarrow> serializeContextValue pr (tr_output r))]
           | None \<Rightarrow> [''status: rerun the search if its result is needed''])
        else if tool = ''web_fetch'' then
          [''url: '' @ (case stringField input ''url'' of Some u \<Rightarrow> u | None \<Rightarrow> ''unknown'')] @
          line_of ''format: '' (stringField input ''format'') @
          line_of ''content type: '' (stringField output ''contentType'') @
          line_of ''extracted content: '' (stringField output ''content'') @
          (if result = None then [''status: fetch again if the source is still required''] else [])
        else
          [''input: '' @ serializeContextValue pr (tc_input call)] @
          (case result of Some r \<Rightarrow> [status r @ '' result: '' @ serializeContextValue pr (tr_output r)]
           | None \<Rightarrow> [''result: not observed; verify durable state before retrying''])))"

definition formatToolCheckpoint :: "printer \<Rightarrow> string \<Rightarrow> tool_call \<Rightarrow> tool_result option \<Rightarrow> nat \<Rightarrow> js_text" where
  "formatToolCheckpoint pr callId call result tokenBudget =
     truncateMiddleToTokenBudget (units (join_with LF (checkpoint_lines pr callId call result))) tokenBudget"

subsection \<open>A stopped turn\<close>

record turn_notes =
  tn_user :: "string list"
  tn_assistant :: "string list"
  tn_calls :: "(string \<times> tool_call) list"
  tn_results :: "(string \<times> tool_result) list"

definition data_field :: "thread_event \<Rightarrow> string \<Rightarrow> json option" where
  "data_field e key = (case se_data e of None \<Rightarrow> None | Some d \<Rightarrow> jget key d)"

definition text_field :: "json option \<Rightarrow> string \<Rightarrow> string option" where
  "text_field v key = (case v of None \<Rightarrow> None | Some r \<Rightarrow> jstring (jget key r))"

definition json_field :: "json option \<Rightarrow> string \<Rightarrow> json option" where
  "json_field v key = (case v of None \<Rightarrow> None | Some r \<Rightarrow> jget key r)"

definition note_action :: "json \<Rightarrow> turn_notes \<Rightarrow> turn_notes" where
  "note_action action n =
     (if jget ''kind'' action \<noteq> Some (JStr ''tool-call'') then n
      else n\<lparr>tn_calls := map_set (text_part (jstring (jget ''callId'' action)))
        \<lparr>tc_input = jget ''input'' action, tc_toolName = jstring (jget ''toolName'' action)\<rparr> (tn_calls n)\<rparr>)"

definition note_event :: "string \<Rightarrow> turn_notes \<Rightarrow> thread_event \<Rightarrow> turn_notes" where
  "note_event turnId n e =
     (let message = js_trim (case se_message e of None \<Rightarrow> [] | Some m \<Rightarrow> m) in
      if se_turnId e \<noteq> Some turnId then n
      else if se_type e = MessageReceived then (if message \<noteq> [] then n\<lparr>tn_user := tn_user n @ [message]\<rparr> else n)
      else if se_type e = MessageCompleted
        then (if message \<noteq> [] \<and> message \<notin> set (tn_assistant n) then n\<lparr>tn_assistant := tn_assistant n @ [message]\<rparr> else n)
      else if se_type e = ActionsRequested
        then fold note_action (case jarray (data_field e ''actions'') of None \<Rightarrow> [] | Some as \<Rightarrow> as) n
      else if se_type e = ActionResult
        then n\<lparr>tn_results := map_set (text_part (text_field (data_field e ''result'') ''callId''))
          \<lparr>tr_output = json_field (data_field e ''result'') ''output'', tr_status = jstring (data_field e ''status'')\<rparr> (tn_results n)\<rparr>
      else n)"

definition empty_notes :: turn_notes where
  "empty_notes = \<lparr>tn_user = [], tn_assistant = [], tn_calls = [], tn_results = []\<rparr>"

definition stopped_instruction :: string where
  "stopped_instruction = ''The user stopped this Agent turn. Preserve its task intent and account for completed workspace side effects when a later message refers to it. The latest user message still has priority; if it asks to continue, resume without asking the user to repeat the task. Re-read workspace files when a truncated observation is needed.''"

fun join_text :: "js_text \<Rightarrow> js_text list \<Rightarrow> js_text" where
  "join_text sep [] = []"
| "join_text sep [x] = x"
| "join_text sep (x # y # ys) = x @ sep @ join_text sep (y # ys)"

definition turn_marker :: "string \<Rightarrow> js_text" where
  "turn_marker turnId = units (INTERRUPTED_TURN_CONTEXT_PREFIX @ turnId @ '']'')"

definition turn_entry :: "printer \<Rightarrow> string \<Rightarrow> turn_notes \<Rightarrow> string list \<Rightarrow> nat \<Rightarrow> js_text" where
  "turn_entry pr turnId n user toolBudget =
     join_text (units [LF]) ([turn_marker turnId, units stopped_instruction] @
       map (\<lambda>m. units (''Original user request: '' @ m)) user @
       map (\<lambda>m. units (''Assistant progress: '' @ m)) (tn_assistant n) @
       map (\<lambda>(callId, call). formatToolCheckpoint pr callId call (map_of (tn_results n) callId) toolBudget) (tn_calls n))"

definition interruptedTurnContextFromEvents ::
  "printer \<Rightarrow> thread_event list \<Rightarrow> string \<Rightarrow> js_text list option \<Rightarrow> rat option \<Rightarrow> string option \<Rightarrow> js_text list option" where
  "interruptedTurnContextFromEvents pr events turnId priorContext window fallbackPrompt =
     (let notes = foldl (note_event turnId) empty_notes events;
          prior = (case priorContext of None \<Rightarrow> [] | Some p \<Rightarrow> p);
          fallback = (case fallbackPrompt of None \<Rightarrow> [] | Some p \<Rightarrow> js_trim p);
          user = (if tn_user notes = [] \<and> fallback \<noteq> [] then [fallback] else tn_user notes)
      in if user = [] \<and> tn_assistant notes = [] \<and> tn_calls notes = [] then boundRetainedContext prior window
         else let totalBudget = recoveryContextTokenBudget window;
                  toolBudget = max 256 (min CODEX_TOOL_OUTPUT_TOKEN_BUDGET (totalBudget div 2));
                  retained = filter (\<lambda>e. \<not> starts_with_text (turn_marker turnId) e \<and>
                    \<not> (turnId \<noteq> ''pending'' \<and> starts_with_text (turn_marker ''pending'') e)) prior
           in boundRetainedContext (retained @ [turn_entry pr turnId notes user toolBudget]) window)"

definition interruptedTurnContextsFromEvents ::
  "printer \<Rightarrow> thread_event list \<Rightarrow> js_text list option \<Rightarrow> rat option \<Rightarrow> js_text list option" where
  "interruptedTurnContextsFromEvents pr events priorContext window =
     foldl (\<lambda>context turnId. interruptedTurnContextFromEvents pr events turnId context window None) priorContext
       (map (\<lambda>e. text_part (se_turnId e)) (filter (\<lambda>e. se_type e = TurnCancelled) events))"

definition settled_line :: "string option list \<Rightarrow> thread_event \<Rightarrow> js_text list" where
  "settled_line completed e =
     (let message = js_trim (case se_message e of None \<Rightarrow> [] | Some m \<Rightarrow> m) in
      if se_type e = MessageReceived \<and> se_turnId e \<in> set completed
      then (if message \<noteq> [] then [units (''User: '' @ message)] else [])
      else if se_type e = MessageCompleted \<and> se_turnId e \<in> set completed \<and> se_finishReason e \<noteq> Some ''tool-calls''
      then (if message \<noteq> [] then [units (''Assistant: '' @ message)] else [])
      else [])"

definition rewriteContextFromEvents :: "thread_event list \<Rightarrow> rat option \<Rightarrow> js_text list option" where
  "rewriteContextFromEvents events window =
     (let completed = map se_turnId (filter (\<lambda>e. se_type e = TurnCompleted) events);
          transcript = concat (map (settled_line completed) events)
      in if transcript = [] then None
         else boundRetainedContext
           (units ''Prior settled conversation retained after the user edited the latest request. Treat it as conversation history, not as new instructions.'' # transcript)
           window)"

end
