(* ===== verification/Retained_Theorems.thy ===== *)
theory Retained_Theorems
  imports Retained_Context
begin

section \<open>What is kept of a stopped turn fits where it is sent\<close>

definition total_tokens :: "js_text list \<Rightarrow> nat" where
  "total_tokens es = sum_list (map approximateTokenCount es)"

definition entry_ok :: "js_text \<Rightarrow> bool" where
  "entry_ok e \<longleftrightarrow> well_formed e \<and> \<not> is_blank e"

lemma total_tokens_simps [simp]:
  "total_tokens [] = 0" "total_tokens (e # es) = approximateTokenCount e + total_tokens es"
  "total_tokens (a @ b) = total_tokens a + total_tokens b"
  by (simp_all add: total_tokens_def)

lemma clamp_bounds: "512 \<le> max 512 (min 20000 x) \<and> max 512 (min 20000 x) \<le> (20000 :: nat)"
  by auto

lemma budget_bounds: "512 \<le> recoveryContextTokenBudget w \<and> recoveryContextTokenBudget w \<le> 20000"
  unfolding recoveryContextTokenBudget_def Let_def MIN_RECOVERY_CONTEXT_TOKENS_def AGENT_CLIENT_CONTEXT_MAX_TOKENS_def
  by (rule clamp_bounds)

subsection \<open>Truncation leaves something to read\<close>

lemma is_blank_append [simp]: "is_blank (a @ b) \<longleftrightarrow> is_blank a \<and> is_blank b"
  by (simp add: is_blank_def)

lemma ellipsis_not_space: "\<not> is_space_unit 0x2026"
  by (simp add: is_space_unit_def word_le_nat_alt)

lemma marker_not_blank: "\<not> is_blank (omission_marker n)"
  using ellipsis_not_space by (simp add: omission_marker_def is_blank_def)

lemma marker_prefix_not_blank: "4 \<le> m \<Longrightarrow> \<not> is_blank (takePrefixByUtf8Bytes (omission_marker n) m)"
proof -
  assume m: "4 \<le> m"
  obtain c where c: "units [CHR 0x0A] = [c]" "\<not> is_high c" "unit_bytes c = 1"
    by (simp add: units_def is_high_def unit_bytes_def word_le_nat_alt)
  obtain r where r: "omission_marker n = c # 0x2026 # r" using c(1) by (simp add: omission_marker_def)
  have b: "unit_bytes 0x2026 = 3" "\<not> is_high 0x2026" by (simp_all add: unit_bytes_def is_high_def word_le_nat_alt)
  have "\<exists>t. takePrefixByUtf8Bytes (0x2026 # r) (m - 1) = 0x2026 # t"
  proof (cases r)
    case Nil
    then show ?thesis using m b by simp
  next
    case (Cons x xs)
    then show ?thesis using m b by simp
  qed
  then obtain t where "takePrefixByUtf8Bytes (omission_marker n) m = c # 0x2026 # t" using r c b m by auto
  then show ?thesis using ellipsis_not_space by (simp add: is_blank_def)
qed

lemma truncate_entry:
  assumes "entry_ok e" and "0 < n"
  shows "entry_ok (truncateMiddleToTokenBudget e n)"
proof -
  have e: "e \<noteq> []" "well_formed e" "\<not> is_blank e" using assms(1) by (auto simp: entry_ok_def is_blank_def)
  have "\<not> is_blank (truncateMiddleToTokenBudget e n)"
    unfolding truncateMiddleToTokenBudget_def Let_def AGENT_APPROXIMATE_BYTES_PER_TOKEN_def
    using e assms(2) marker_not_blank marker_prefix_not_blank [of "n * 4"] by auto
  with truncation_sound [OF e(2)] show ?thesis by (simp add: entry_ok_def)
qed

subsection \<open>The bounding loop\<close>

lemma bound_loop_fits:
  assumes "list_all entry_ok es" and "list_all entry_ok bounded"
  shows "list_all entry_ok (bound_loop remaining es bounded) \<and>
    total_tokens (bound_loop remaining es bounded) \<le> total_tokens bounded + remaining"
  using assms
proof (induction es arbitrary: remaining bounded)
  case (Cons e es)
  show ?case
  proof (cases "remaining = 0")
    case False
    define v where "v = (if approximateTokenCount e \<le> remaining then e else truncateMiddleToTokenBudget e remaining)"
    let ?left = "remaining - min (approximateTokenCount e) remaining"
    have ok: "entry_ok e" using Cons.prems by simp
    have v: "entry_ok v" using ok truncate_entry [OF ok] False by (simp add: v_def)
    have t: "approximateTokenCount v \<le> min (approximateTokenCount e) remaining"
      using truncation_sound [of e remaining] ok by (auto simp: entry_ok_def v_def)
    have "bound_loop remaining (e # es) bounded = bound_loop ?left es (v # bounded)"
      using False v by (simp add: v_def [symmetric] Let_def) (auto simp: entry_ok_def is_blank_def)
    moreover have "list_all entry_ok (bound_loop ?left es (v # bounded)) \<and>
        total_tokens (bound_loop ?left es (v # bounded)) \<le> total_tokens (v # bounded) + ?left"
      by (rule Cons.IH) (use Cons.prems v in simp_all)
    moreover have "total_tokens (v # bounded) + ?left \<le> total_tokens bounded + remaining"
    proof -
      have "min (approximateTokenCount e) remaining \<le> remaining" by simp
      with t show ?thesis unfolding total_tokens_simps by linarith
    qed
    ultimately show ?thesis by (simp del: bound_loop.simps)
  qed (use Cons.prems in simp)
qed simp

lemma bound_fits:
  assumes "list_all entry_ok es" and "boundRetainedContext es w = Some ctx"
  shows "list_all entry_ok ctx \<and> total_tokens ctx \<le> recoveryContextTokenBudget w"
  using bound_loop_fits [of "rev es" "[]" "recoveryContextTokenBudget w"] assms
  by (auto simp: boundRetainedContext_def Let_def split: if_splits)

lemma bound_loop_all:
  "list_all (\<lambda>e. 0 < approximateTokenCount e) es \<Longrightarrow> total_tokens es \<le> remaining \<Longrightarrow> bound_loop remaining es bounded = rev es @ bounded"
proof (induction es arbitrary: remaining bounded)
  case (Cons e es)
  then have "e \<noteq> []" using tokens_iff [of "[]" 0] by (cases e) auto
  with Cons show ?case by (simp add: Let_def min_absorb1)
qed simp

subsection \<open>The transport guard\<close>

lemma bytes_le_tokens: "utf8_bytes e \<le> 4 * approximateTokenCount e"
  using tokens_iff [of e "approximateTokenCount e"] by simp

lemma guard_sum:
  "list_all entry_ok es \<Longrightarrow> n + 4 * total_tokens es \<le> AGENT_CLIENT_CONTEXT_MAX_BYTES \<Longrightarrow> bounded_entries n es"
proof (induction es arbitrary: n)
  case (Cons e es)
  have "bounded_entries (n + utf8_bytes e) es"
    using Cons.prems bytes_le_tokens [of e] by (intro Cons.IH) auto
  with Cons.prems bytes_le_tokens [of e] show ?case by (auto simp: entry_ok_def)
qed simp

lemma fits_guard:
  assumes "list_all entry_ok ctx" and "total_tokens ctx \<le> recoveryContextTokenBudget w"
  shows "bounded_client_context ctx \<longleftrightarrow> length ctx \<le> AGENT_CLIENT_CONTEXT_MAX_ENTRIES"
proof -
  have "4 * total_tokens ctx \<le> AGENT_CLIENT_CONTEXT_MAX_BYTES"
    using assms(2) budget_bounds [of w] by (simp add: AGENT_CLIENT_CONTEXT_MAX_BYTES_def)
  with guard_sum [OF assms(1), of 0] show ?thesis by (simp add: bounded_client_context_def)
qed

text \<open>The guard on JavaScript text is the mailbox's on the texts the mailbox model carries.\<close>

lemma unit_of_char: "unat (word_of_nat (of_char c) :: 16 word) = of_char c"
  by (cases c) (simp add: unat_of_nat take_bit_nat_eq_self)

lemma small_unit: "unat (word_of_nat (of_char c) :: 16 word) < 256"
  unfolding unit_of_char by (cases c) simp

lemma small_bytes: "unat u < 256 \<Longrightarrow> unit_bytes u = (if unat u \<le> 127 then 1 else 2)"
  by (auto simp: unit_bytes_def word_le_nat_alt)

lemma small_space: "unat u < 256 \<Longrightarrow> is_space_unit u \<longleftrightarrow> unat u \<in> {9, 10, 11, 12, 13, 32, 160}"
  by (auto simp: is_space_unit_def word_unat_eq_iff word_le_nat_alt)

lemma units_bytes: "utf8_bytes (units s) = utf8ByteLength s"
proof (induction s)
  case (Cons c s)
  let ?u = "word_of_nat (of_char c) :: 16 word"
  have high: "\<not> is_high ?u" using units_plain [of "[c]"] by (simp add: units_def)
  have "\<exists>n. (of_char c :: nat) = n \<and> n < 256" by (cases c) simp
  then obtain n where n: "(of_char c :: nat) = n" "n < 256" by blast
  have "unit_bytes ?u = (if n \<le> 127 then 1 else 2)"
    using small_bytes [OF small_unit [of c]] by (simp only: unit_of_char n(1) [symmetric])
  moreover have "utf8ByteLength (c # s) = (if n \<le> 127 then 1 else 2) + utf8ByteLength s"
    using n(2) by (simp add: Let_def n(1))
  moreover have "utf8_bytes (units (c # s)) = unit_bytes ?u + utf8_bytes (units s)"
    using high by (simp add: units_def utf8_bytes_Cons)
  ultimately show ?case using Cons by (simp only:)
qed (simp add: units_def)

lemma units_space: "is_space_unit (word_of_nat (of_char c)) \<longleftrightarrow> is_js_space c"
  using small_space [OF small_unit [of c]] unfolding unit_of_char is_js_space_def .

lemma trim_blank: "js_trim s = [] \<longleftrightarrow> list_all is_js_space s"
proof (cases "dropWhile is_js_space s")
  case Nil
  then have "\<forall>x \<in> set s. is_js_space x" by (simp add: dropWhile_eq_Nil_conv)
  then show ?thesis unfolding js_trim_def Nil by (simp add: list_all_iff)
next
  case (Cons x xs)
  then have "\<not> is_js_space x" using hd_dropWhile [of is_js_space s] by simp
  moreover have "x \<in> set s" using Cons set_dropWhileD [of x is_js_space s] by simp
  moreover have "js_trim s \<noteq> []" using Cons \<open>\<not> is_js_space x\<close> by (auto simp: js_trim_def dropWhile_eq_Nil_conv)
  ultimately show ?thesis by (auto simp: list_all_iff)
qed

lemma units_blank: "is_blank (units s) \<longleftrightarrow> js_trim s = []"
  by (simp add: is_blank_def units_def trim_blank list_all_iff units_space)

lemma guard_is_the_mailboxes: "bounded_client_context (map units es) = isBoundedAgentClientContext es"
proof -
  have "bounded_entries n (map units es) = boundedEntries n es" for n
    by (induction es arbitrary: n) (simp_all add: units_blank units_bytes Let_def)
  then show ?thesis by (simp add: bounded_client_context_def isBoundedAgentClientContext_def)
qed

subsection \<open>The texts of a turn\<close>

lemma units_well_formed: "well_formed (units s)"
  using units_plain by (rule no_surrogates)

lemma units_append: "units (a @ b) = units a @ units b"
  by (simp add: units_def)

lemma join_well_formed: "well_formed sep \<Longrightarrow> list_all well_formed xs \<Longrightarrow> well_formed (join_text sep xs)"
  by (induction xs rule: join_text.induct [of _ sep]) (simp_all add: well_formed_append)

lemma checkpoint_well_formed: "well_formed (formatToolCheckpoint pr i c r n)"
  using truncation_sound [OF units_well_formed] by (simp add: formatToolCheckpoint_def)

lemma marker_visible: "\<not> is_blank (turn_marker t)"
  by (simp add: turn_marker_def units_blank trim_blank INTERRUPTED_TURN_CONTEXT_PREFIX_def is_js_space_def)

lemma turn_entry_ok: "entry_ok (turn_entry pr t n user b)"
proof -
  let ?rest = "map (\<lambda>m. units (''Original user request: '' @ m)) user @
     map (\<lambda>m. units (''Assistant progress: '' @ m)) (tn_assistant n) @
     map (\<lambda>(callId, call). formatToolCheckpoint pr callId call (map_of (tn_results n) callId) b) (tn_calls n)"
  have e: "turn_entry pr t n user b = turn_marker t @ units [LF] @ join_text (units [LF]) (units stopped_instruction # ?rest)"
    by (simp add: turn_entry_def)
  have "list_all well_formed (turn_marker t # units stopped_instruction # ?rest)"
    by (auto simp: list_all_iff turn_marker_def intro: units_well_formed checkpoint_well_formed)
  from join_well_formed [OF units_well_formed this] have "well_formed (turn_entry pr t n user b)" by (simp add: turn_entry_def)
  moreover have "\<not> is_blank (turn_entry pr t n user b)" unfolding e using marker_visible by simp
  ultimately show ?thesis by (simp add: entry_ok_def)
qed

text \<open>A kept context: readable entries, within the budget, and accepted by the mailbox if they are not too many.\<close>

definition fits :: "rat option \<Rightarrow> js_text list option \<Rightarrow> bool" where
  "fits w c \<longleftrightarrow> (case c of None \<Rightarrow> True | Some ctx \<Rightarrow> list_all entry_ok ctx \<and> total_tokens ctx \<le> recoveryContextTokenBudget w \<and>
     (bounded_client_context ctx \<longleftrightarrow> length ctx \<le> AGENT_CLIENT_CONTEXT_MAX_ENTRIES))"

lemma bound_fits_guard: "list_all entry_ok es \<Longrightarrow> fits w (boundRetainedContext es w)"
proof (cases "boundRetainedContext es w")
  case (Some ctx)
  assume "list_all entry_ok es"
  from bound_fits [OF this Some] fits_guard [of ctx w] show ?thesis by (simp add: fits_def Some)
qed (simp add: fits_def)

lemma interrupted_fits: "fits w prior \<Longrightarrow> fits w (interruptedTurnContextFromEvents pr events t prior w fallback)"
proof -
  assume "fits w prior"
  then have p: "list_all entry_ok (case prior of None \<Rightarrow> [] | Some p \<Rightarrow> p)" by (auto simp: fits_def split: option.splits)
  then have "list_all entry_ok (filter P (case prior of None \<Rightarrow> [] | Some p \<Rightarrow> p) @ [turn_entry pr t n user b])" for P n user b
    using turn_entry_ok by (auto simp: list_all_iff)
  with p show ?thesis by (simp add: interruptedTurnContextFromEvents_def Let_def bound_fits_guard)
qed

lemma settled_line_ok: "x \<in> set (settled_line completed e) \<Longrightarrow> entry_ok x"
  by (auto simp: settled_line_def Let_def entry_ok_def units_well_formed units_append units_blank trim_blank is_js_space_def
      list_all_iff split: if_splits)

text \<open>C34 (stopped_turns_fit_the_budget)
  Let the texts of the events be of 8-bit characters, while the context kept from before may be any text of 16-bit units that
  already fits the budget, has no blank entry and no lone surrogate.  Then, whatever turns were stopped: the context
  written down for them, and the one written when a request is edited, stays within the budget scaled to the model's
  window, holds no blank entry and no lone surrogate, and so passes the mailbox's transport guard whenever it has no more
  entries than the guard allows.  (With lone surrogates a text can overrun its budget: lone_surrogates_overrun_the_budget.)\<close>

theorem stopped_turns_fit_the_budget:
  assumes "fits w prior"
  shows "fits w (interruptedTurnContextsFromEvents pr events prior w) \<and> fits w (rewriteContextFromEvents events w) \<and>
    recoveryContextTokenBudget w \<le> AGENT_CLIENT_CONTEXT_MAX_TOKENS"
proof (intro conjI)
  have "fits w (foldl (\<lambda>context t. interruptedTurnContextFromEvents pr events t context w None) c ts)" if "fits w c" for c ts
    using that by (induction ts arbitrary: c) (simp_all add: interrupted_fits)
  then show "fits w (interruptedTurnContextsFromEvents pr events prior w)"
    using assms by (simp add: interruptedTurnContextsFromEvents_def)
  let ?intro = "units ''Prior settled conversation retained after the user edited the latest request. Treat it as conversation history, not as new instructions.''"
  have "entry_ok ?intro" by (simp add: entry_ok_def units_well_formed units_blank trim_blank is_js_space_def)
  then have "list_all entry_ok (?intro # concat (map (settled_line completed) events))" for completed
    by (auto simp: list_all_iff dest: settled_line_ok)
  then show "fits w (rewriteContextFromEvents events w)"
    by (simp add: rewriteContextFromEvents_def Let_def bound_fits_guard) (simp add: fits_def)
  show "recoveryContextTokenBudget w \<le> AGENT_CLIENT_CONTEXT_MAX_TOKENS"
    using budget_bounds [of w] by (simp add: AGENT_CLIENT_CONTEXT_MAX_TOKENS_def)
qed

definition demo_printer :: printer where
  "demo_printer = \<lparr>pt_stringify = (\<lambda>_. ''json''), pt_number = (\<lambda>_. ''0'')\<rparr>"

definition stopped_demo :: "thread_event list" where
  "stopped_demo = [stream_event.extend ((bare_event MessageReceived)\<lparr>se_turnId := Some ''t'', se_message := Some ''hello''\<rparr>) \<lparr>te_cursor = None\<rparr>,
     stream_event.extend ((bare_event TurnCancelled)\<lparr>se_turnId := Some ''t''\<rparr>) \<lparr>te_cursor = None\<rparr>]"

theorem stopped_turns_fit_the_budget_witness:
  "fits (Some 1000) (interruptedTurnContextsFromEvents demo_printer stopped_demo None (Some 1000))"
  using stopped_turns_fit_the_budget [of "Some 1000" None demo_printer stopped_demo] by (simp add: fits_def)

lemma bound_loop_tail: "\<exists>p. bound_loop remaining es bounded = p @ bounded"
proof (induction es arbitrary: remaining bounded)
  case (Cons e es)
  let ?v = "if approximateTokenCount e \<le> remaining then e else truncateMiddleToTokenBudget e remaining"
  from Cons [of "remaining - min (approximateTokenCount e) remaining" "if ?v \<noteq> [] then ?v # bounded else bounded"] show ?case
    by (auto simp: Let_def)
qed simp

text \<open>Remark (newest_stopped_turn_is_kept)
  The turn that was just stopped is never displaced by older ones: its entry is the last of the kept
  context, whole if it fits the budget and cut to it otherwise.\<close>

theorem newest_stopped_turn_is_kept:
  assumes "js_trim prompt \<noteq> []" and "n = foldl (note_event t) empty_notes events"
  shows "\<exists>older user toolBudget. let entry = turn_entry pr t n user toolBudget; budget = recoveryContextTokenBudget w
     in interruptedTurnContextFromEvents pr events t prior w (Some prompt)
        = Some (older @ [if approximateTokenCount entry \<le> budget then entry else truncateMiddleToTokenBudget entry budget])"
proof -
  let ?user = "if tn_user n = [] \<and> js_trim prompt \<noteq> [] then [js_trim prompt] else tn_user n"
  let ?b = "max 256 (min CODEX_TOOL_OUTPUT_TOKEN_BUDGET (recoveryContextTokenBudget w div 2))"
  let ?entry = "turn_entry pr t n ?user ?b"
  let ?retained = "filter (\<lambda>e. \<not> starts_with_text (turn_marker t) e \<and> \<not> (t \<noteq> ''pending'' \<and> starts_with_text (turn_marker ''pending'') e))
      (case prior of None \<Rightarrow> [] | Some p \<Rightarrow> p)"
  let ?budget = "recoveryContextTokenBudget w"
  let ?v = "if approximateTokenCount ?entry \<le> ?budget then ?entry else truncateMiddleToTokenBudget ?entry ?budget"
  have user: "?user \<noteq> []" using assms(1) by auto
  have pos: "0 < ?budget" using budget_bounds [of w] by linarith
  have "entry_ok ?v" using turn_entry_ok truncate_entry [OF turn_entry_ok pos] by simp
  then have v: "?v \<noteq> []" by (auto simp: entry_ok_def is_blank_def)
  obtain older where o: "bound_loop (?budget - min (approximateTokenCount ?entry) ?budget) (rev ?retained) [?v] = older @ [?v]"
    using bound_loop_tail by blast
  have "bound_loop ?budget (rev (?retained @ [?entry])) [] = older @ [?v]"
    using pos v o by (simp add: Let_def)
  then have "boundRetainedContext (?retained @ [?entry]) w = Some (older @ [?v])"
    by (simp add: boundRetainedContext_def Let_def)
  moreover have "interruptedTurnContextFromEvents pr events t prior w (Some prompt) = boundRetainedContext (?retained @ [?entry]) w"
    unfolding interruptedTurnContextFromEvents_def Let_def assms(2) [symmetric] option.case using user by (simp only: if_False simp_thms)
  ultimately have "interruptedTurnContextFromEvents pr events t prior w (Some prompt) = Some (older @ [?v])" by (simp only:)
  then show ?thesis unfolding Let_def by (rule exI [of _ older, OF exI [of _ ?user, OF exI [of _ ?b]]])
qed

theorem newest_stopped_turn_is_kept_witness:
  "\<exists>older newest. interruptedTurnContextFromEvents demo_printer stopped_demo ''t'' (Some [[0x61]]) None (Some ''go on'') = Some (older @ [newest])"
proof -
  have "js_trim ''go on'' \<noteq> []" by (simp add: trim_blank is_js_space_def)
  from newest_stopped_turn_is_kept [OF this refl] show ?thesis unfolding Let_def by blast
qed

lemma not_marked: "\<not> starts_with_text (turn_marker t) [u]"
proof
  assume "starts_with_text (turn_marker t) [u]"
  then have "length (take (length (turn_marker t)) [u]) = length (turn_marker t)" by (simp only: starts_with_text_def)
  then show False by (simp add: turn_marker_def units_def INTERRUPTED_TURN_CONTEXT_PREFIX_def)
qed

lemma filter_replicate_keep: "P x \<Longrightarrow> filter P (replicate k x) = replicate k x"
  by (induction k) simp_all

lemma units_length: "utf8_bytes (units s) \<le> 2 * length s"
  unfolding units_bytes
proof (induction s)
  case (Cons c s)
  have "\<exists>n. (of_char c :: nat) = n \<and> n < 256" by (cases c) simp
  then obtain n where "(of_char c :: nat) = n" "n < 256" by blast
  with Cons show ?case by (simp add: Let_def)
qed simp

lemma utf8_positive: "v \<noteq> [] \<Longrightarrow> 0 < utf8_bytes v"
  by (cases v rule: utf8_bytes.cases) (auto simp: unit_bytes_def)

text \<open>Remark (kept_context_can_have_too_many_entries)
  The budget counts tokens, the transport guard also counts entries, and nothing between them does: a
  context of sixty-four short entries that the mailbox accepts becomes, when one more turn is stopped,
  one of sixty-five that it rejects, and every later message of the thread with it.\<close>

theorem kept_context_can_have_too_many_entries:
  "bounded_client_context (replicate 64 [0x61]) \<and>
   (case interruptedTurnContextFromEvents demo_printer [] ''t'' (Some (replicate 64 [0x61])) None (Some ''x'') of
      None \<Rightarrow> False | Some ctx \<Rightarrow> length ctx = 65 \<and> \<not> bounded_client_context ctx)"
proof
  have a: "\<not> is_blank [0x61]" "utf8_bytes [0x61] = 1" "well_formed [0x61]" by code_simp+
  then have one: "approximateTokenCount [0x61] = 1" using tokens_iff [of "[0x61]" 0] tokens_iff [of "[0x61]" 1] by linarith
  have total: "total_tokens (replicate k [0x61]) = k" for k by (induction k) (simp_all add: one)
  have "list_all entry_ok (replicate 64 [0x61])" using a by (simp add: list_all_iff entry_ok_def)
  then have "bounded_client_context (replicate 64 [0x61]) \<longleftrightarrow> length (replicate 64 [0x61 :: 16 word]) \<le> AGENT_CLIENT_CONTEXT_MAX_ENTRIES"
    by (rule fits_guard [where w = None]) (use budget_bounds [of None] total [of 64] in linarith)
  then show "bounded_client_context (replicate 64 [0x61])" by (simp add: AGENT_CLIENT_CONTEXT_MAX_ENTRIES_def)
  let ?entry = "turn_entry demo_printer ''t'' empty_notes [''x''] 10000"
  have keep: "filter (\<lambda>e. \<not> starts_with_text (turn_marker ''t'') e \<and> \<not> (''t'' \<noteq> ''pending'' \<and> starts_with_text (turn_marker ''pending'') e))
      (replicate 64 [0x61]) = replicate 64 [0x61]"
    by (rule filter_replicate_keep) (simp add: not_marked)
  have budget: "recoveryContextTokenBudget None = 20000"
    by (simp add: recoveryContextTokenBudget_def CODEX_REFERENCE_CONTEXT_WINDOW_TOKENS_def AGENT_CLIENT_CONTEXT_MAX_TOKENS_def
        MIN_RECOVERY_CONTEXT_TOKENS_def)
  have "?entry = units (INTERRUPTED_TURN_CONTEXT_PREFIX @ ''t'' @ '']'' @ [LF] @ stopped_instruction @ [LF] @ ''Original user request: '' @ ''x'')"
    by (simp add: turn_entry_def turn_marker_def empty_notes_def units_def)
  then have "utf8_bytes ?entry \<le> 2 * length (INTERRUPTED_TURN_CONTEXT_PREFIX @ ''t'' @ '']'' @ [LF] @ stopped_instruction @ [LF] @ ''Original user request: '' @ ''x'')"
    by (simp only: units_length)
  also have "\<dots> \<le> 4000" by (simp add: INTERRUPTED_TURN_CONTEXT_PREFIX_def stopped_instruction_def)
  finally have small: "utf8_bytes ?entry \<le> 4000" .
  have "?entry \<noteq> []" using turn_entry_ok [of demo_printer "''t''" empty_notes "[''x'']" 10000] by (auto simp: entry_ok_def is_blank_def)
  then have size: "approximateTokenCount ?entry \<le> 1000 \<and> 0 < approximateTokenCount ?entry"
    using tokens_iff [of ?entry 1000] tokens_iff [of ?entry 0] small utf8_positive [of ?entry] by linarith
  have "bound_loop 20000 (rev (replicate 64 [0x61] @ [?entry])) [] = rev (rev (replicate 64 [0x61] @ [?entry])) @ []"
    using size one total [of 64] by (intro bound_loop_all) (simp_all add: list_all_iff)
  then have b: "boundRetainedContext (replicate 64 [0x61] @ [?entry]) None = Some (replicate 64 [0x61] @ [?entry])"
    by (simp add: boundRetainedContext_def Let_def budget)
  have t: "js_trim ''x'' = ''x''" by (simp add: js_trim_def is_js_space_def)
  have "interruptedTurnContextFromEvents demo_printer [] ''t'' (Some (replicate 64 [0x61])) None (Some ''x'') =
      boundRetainedContext (replicate 64 [0x61] @ [?entry]) None"
    unfolding interruptedTurnContextFromEvents_def Let_def option.case foldl_Nil t budget keep
    by (simp add: empty_notes_def CODEX_TOOL_OUTPUT_TOKEN_BUDGET_def)
  then show "case interruptedTurnContextFromEvents demo_printer [] ''t'' (Some (replicate 64 [0x61])) None (Some ''x'') of
      None \<Rightarrow> False | Some ctx \<Rightarrow> length ctx = 65 \<and> \<not> bounded_client_context ctx"
    by (simp add: b bounded_client_context_def AGENT_CLIENT_CONTEXT_MAX_ENTRIES_def)
qed

end
