(* ===== verification/Thread_Collection.thy ===== *)
theory Thread_Collection
  imports Thread_Edits Retained_Theorems
begin

section \<open>Stored threads (packages/agent-ui/src/agent-workspace/thread-storage.ts)\<close>

text \<open>
  What the browser or the account store holds of a thread is read back by a parser that trusts nothing;
  two checkpoints of a collection are merged after a revision conflict; and a message that was being
  sent when the page went away is reconciled with the transcript.  The clock, the decoding of an event
  (a cast in the code) and \<open>parseAssetPrompt\<close> are parameters.
\<close>

subsection \<open>The identity of an edit\<close>

definition hash_step :: "(32 word \<times> 32 word) \<Rightarrow> nat \<times> 16 word \<Rightarrow> (32 word \<times> 32 word)" where
  "hash_step h c = (case (h, c) of ((first, second), (index, code)) \<Rightarrow>
     (xor first (ucast code) * 0x01000193, xor second (ucast code + word_of_nat index) * 0x01000193))"

definition hex_digit :: "nat \<Rightarrow> char" where
  "hex_digit n = char_of (if n < 10 then 48 + n else 87 + n)"

fun hex_digits :: "nat \<Rightarrow> nat \<Rightarrow> string" where
  "hex_digits 0 n = []"
| "hex_digits (Suc k) n = hex_digits k (n div 16) @ [hex_digit (n mod 16)]"

text \<open>\<^verbatim>\<open>(value >>> 0).toString(16).padStart(8, "0")\<close>: eight digits, which are all a 32-bit word has.\<close>

definition toHex :: "32 word \<Rightarrow> string" where
  "toHex v = hex_digits 8 (unat v)"

definition edit_input :: "string \<Rightarrow> string \<Rightarrow> js_text \<Rightarrow> js_text" where
  "edit_input sessionId beforeTurnId t =
     units (show_nat (length sessionId) @ '':'' @ sessionId @ ''|'' @ show_nat (length beforeTurnId) @ '':'' @ beforeTurnId @ ''|'' @
       show_nat (length t) @ '':'') @ t"

definition editOperationId :: "string \<Rightarrow> string \<Rightarrow> js_text \<Rightarrow> string" where
  "editOperationId sessionId beforeTurnId t =
     (let input = edit_input sessionId beforeTurnId t
      in case foldl hash_step (0x811C9DC5, 0x9E3779B9) (zip [0..<length input] input) of
           (first, second) \<Rightarrow> ''edit-'' @ toHex first @ toHex second)"

subsection \<open>The data\<close>

datatype submission_state = SSubmitting | SAccepted | SCancelled | SCommitted | SDelivering | SFailed | SQueued | SAmbiguous

record answer =
  an_optionId :: "string option"
  an_requestId :: string
  an_text :: "string option"

record submission =
  sm_id :: string
  sm_mailboxItemId :: "string option"
  sm_responses :: "answer list"
  sm_settledAtStreamIndex :: "int option"
  sm_state :: submission_state
  sm_streamIndexAtSubmission :: int
  sm_submittedAt :: rat

datatype pending_state = PClearing | PSubmitting | PResubmitting | PDeliveryFailed | PInterrupted
datatype delivery = Browser | Server
datatype pending_operation = EditOperation | SendOperation

record prompt_file =
  pf_filename :: "string option"
  pf_mediaType :: string
  pf_url :: string

record pending_turn =
  pn_beforeTurnId :: "string option"
  pn_delivery :: "delivery option"
  pn_eventCountAtSubmission :: "int option"
  pn_files :: "prompt_file list"
  pn_id :: string
  pn_mailboxItemId :: "string option"
  pn_operation :: "pending_operation option"
  pn_state :: pending_state
  pn_submittedAt :: rat
  pn_text :: string

datatype queued_state = QQueued | QDelivering | QAccepted | QCommitted | QDeliveryFailed | QAdmissionAmbiguous
datatype intent = ActiveTurn | PostCancellation

record queued_turn =
  qt_delivery :: "delivery option"
  qt_expectedTurnId :: "string option"
  qt_id :: string
  qt_intent :: "intent option"
  qt_mailboxItemId :: "string option"
  qt_state :: queued_state
  qt_submittedAt :: rat
  qt_text :: string

record interrupted_turn =
  it_eventCount :: int
  it_settled :: "bool option"
  it_streamIndex :: int
  it_turnId :: string

record transcript_window =
  tw_endIndex :: int
  tw_hasMoreBefore :: bool
  tw_startIndex :: int
  tw_total :: int

record transcript_coverage =
  cv_authoritative :: bool
  cv_complete :: bool
  cv_endIndex :: int
  cv_projection :: bool
  cv_startIndex :: int

datatype thread_mode = ModeAutomation | ModeCautious | ModeStandard

record thread_preferences =
  tp_executionMode :: thread_mode
  tp_modelId :: string
  tp_reasoning :: string

datatype thread_status = TCancelling | TError | TReady | TStreaming | TSubmitted | TWaiting

record thread =
  th_createdAt :: rat
  th_closedInputRequestIds :: "string list"
  th_draftRestore :: "(string \<times> string) option"
  th_events :: "thread_event list"
  th_summary :: bool
  th_id :: string
  th_interruptedTurns :: "interrupted_turn list"
  th_submissions :: "submission list"
  th_pendingTurn :: "pending_turn option"
  th_preferences :: thread_preferences
  th_retainedContext :: "js_text list"
  th_queuedTurns :: "queued_turn list"
  th_revision :: int
  th_sessionId :: "string option"
  th_streamIndex :: rat
  th_status :: thread_status
  th_coverage :: "transcript_coverage option"
  th_window :: "transcript_window option"
  th_title :: string
  th_updatedAt :: rat

record collection =
  co_activeThreadId :: "string option"
  co_threads :: "thread list"

definition empty_collection :: collection where
  "empty_collection = \<lparr>co_activeThreadId = None, co_threads = []\<rparr>"

subsection \<open>Reading fields\<close>

definition jnumber :: "json option \<Rightarrow> rat option" where
  "jnumber v = (case v of Some (JNum x) \<Rightarrow> Some x | _ \<Rightarrow> None)"

definition numberOrNow :: "rat \<Rightarrow> json option \<Rightarrow> rat" where
  "numberOrNow now v = (case jnumber v of Some x \<Rightarrow> x | None \<Rightarrow> now)"

definition nonEmptyString :: "json option \<Rightarrow> string option" where
  "nonEmptyString v = (case jstring v of Some s \<Rightarrow> if js_trim s \<noteq> [] then Some s else None | None \<Rightarrow> None)"

text \<open>\<^verbatim>\<open>typeof v === "string" && v ? v : undefined\<close>\<close>

definition truthy_string :: "json option \<Rightarrow> string option" where
  "truthy_string v = (case jstring v of Some s \<Rightarrow> if s \<noteq> [] then Some s else None | None \<Rightarrow> None)"

text \<open>A safe integer that is not below a bound.\<close>

definition index_from :: "int \<Rightarrow> json option \<Rightarrow> int option" where
  "index_from least v = (case jsafe_int v of Some n \<Rightarrow> if n < least then None else Some n | None \<Rightarrow> None)"

text \<open>\<^verbatim>\<open>Number.isInteger(v) && v >= 0\<close>\<close>

definition whole_number :: "json option \<Rightarrow> int option" where
  "whole_number v = (case jnumber v of Some n \<Rightarrow> if n = of_int \<lfloor>n\<rfloor> \<and> n \<ge> 0 then Some \<lfloor>n\<rfloor> else None | None \<Rightarrow> None)"

definition record_or_empty :: "json option \<Rightarrow> json" where
  "record_or_empty v = (case v of Some (JObj kvs) \<Rightarrow> JObj kvs | _ \<Rightarrow> JObj [])"

subsection \<open>The parsers\<close>

definition submission_state_of :: "json option \<Rightarrow> submission_state option" where
  "submission_state_of v = (case jstring v of None \<Rightarrow> None | Some s \<Rightarrow>
     if s = ''submitting'' then Some SSubmitting else if s = ''accepted'' then Some SAccepted
     else if s = ''cancelled'' then Some SCancelled else if s = ''committed'' then Some SCommitted
     else if s = ''delivering'' then Some SDelivering else if s = ''failed'' then Some SFailed
     else if s = ''queued'' then Some SQueued else if s = ''submission-ambiguous'' then Some SAmbiguous else None)"

text \<open>One answer, or none when it names no request or answers nothing.\<close>

definition parse_answer :: "json \<Rightarrow> answer option" where
  "parse_answer r =
     (case truthy_string (jget ''requestId'' r) of None \<Rightarrow> None | Some requestId \<Rightarrow>
       let optionId = truthy_string (jget ''optionId'' r); t = truthy_string (jget ''text'' r)
       in if optionId = None \<and> t = None then None
          else Some \<lparr>an_optionId = optionId, an_requestId = requestId, an_text = t\<rparr>)"

definition parse_submission :: "json \<Rightarrow> submission option" where
  "parse_submission c =
     (case (truthy_string (jget ''id'' c), jarray (jget ''responses'' c), index_from 0 (jget ''streamIndexAtSubmission'' c),
            jnumber (jget ''submittedAt'' c), submission_state_of (jget ''state'' c)) of
        (Some i, Some rs, Some at_index, Some submittedAt, Some st) \<Rightarrow>
          if rs = [] then None
          else let responses = List.map_filter parse_answer rs
            in if length responses \<noteq> length rs then None
               else Some \<lparr>sm_id = i, sm_mailboxItemId = truthy_string (jget ''mailboxItemId'' c), sm_responses = responses,
                 sm_settledAtStreamIndex = index_from 0 (jget ''settledAtStreamIndex'' c), sm_state = st,
                 sm_streamIndexAtSubmission = at_index, sm_submittedAt = submittedAt\<rparr>
      | _ \<Rightarrow> None)"

definition compare_number :: "rat \<Rightarrow> rat \<Rightarrow> int" where
  "compare_number a b = (if a < b then -1 else if a = b then 0 else 1)"

definition by_submission_time :: "submission list \<Rightarrow> submission list" where
  "by_submission_time = sort_by (\<lambda>a b. compare_number (sm_submittedAt a) (sm_submittedAt b))"

definition parseInputResponseSubmissions :: "json option \<Rightarrow> submission list" where
  "parseInputResponseSubmissions v = (case jarray v of None \<Rightarrow> []
     | Some xs \<Rightarrow> by_submission_time (map_values (map (\<lambda>s. (sm_id s, s)) (List.map_filter parse_submission xs))))"

definition parseTranscriptWindow :: "json option \<Rightarrow> transcript_window option" where
  "parseTranscriptWindow v = (case v of None \<Rightarrow> None | Some w \<Rightarrow>
     (case index_from 0 (jget ''startIndex'' w) of None \<Rightarrow> None | Some first \<Rightarrow>
     (case index_from first (jget ''endIndex'' w) of None \<Rightarrow> None | Some final \<Rightarrow>
     (case index_from final (jget ''total'' w) of None \<Rightarrow> None | Some tot \<Rightarrow>
     (case jbool (jget ''hasMoreBefore'' w) of None \<Rightarrow> None | Some earlier \<Rightarrow>
       Some \<lparr>tw_endIndex = final, tw_hasMoreBefore = earlier, tw_startIndex = first, tw_total = tot\<rparr>)))))"

definition parseTranscriptCoverage :: "json option \<Rightarrow> transcript_coverage option" where
  "parseTranscriptCoverage v = (case v of None \<Rightarrow> None | Some c \<Rightarrow>
     if jget ''version'' c \<noteq> Some (JNum 1) then None else
     (case index_from 0 (jget ''startIndex'' c) of None \<Rightarrow> None | Some first \<Rightarrow>
     (case index_from first (jget ''endIndex'' c) of None \<Rightarrow> None | Some final \<Rightarrow>
     (case jbool (jget ''complete'' c) of None \<Rightarrow> None | Some whole \<Rightarrow>
       Some \<lparr>cv_authoritative = (jget ''authoritative'' c = Some (JBool True)), cv_complete = whole, cv_endIndex = final,
         cv_projection = (jget ''projection'' c = Some (JStr ''logical-edits-v1'')), cv_startIndex = first\<rparr>))))"

definition parseDraftRestore :: "json option \<Rightarrow> (string \<times> string) option" where
  "parseDraftRestore v = (case v of None \<Rightarrow> None | Some d \<Rightarrow>
     (case (truthy_string (jget ''id'' d), nonEmptyString (jget ''text'' d)) of (Some i, Some t) \<Rightarrow> Some (i, t) | _ \<Rightarrow> None))"

definition parse_interrupted :: "json \<Rightarrow> interrupted_turn option" where
  "parse_interrupted c =
     (case (truthy_string (jget ''turnId'' c), index_from 0 (jget ''eventCount'' c), index_from 0 (jget ''streamIndex'' c)) of
        (Some t, Some n, Some i) \<Rightarrow>
          Some \<lparr>it_eventCount = n, it_settled = jbool (jget ''settled'' c), it_streamIndex = i, it_turnId = t\<rparr>
      | _ \<Rightarrow> None)"

text \<open>\<^verbatim>\<open>slice(-n)\<close>\<close>

definition take_last :: "nat \<Rightarrow> 'a list \<Rightarrow> 'a list" where
  "take_last n xs = drop (length xs - n) xs"

definition parseInterruptedTurns :: "json option \<Rightarrow> interrupted_turn list" where
  "parseInterruptedTurns v = (case jarray v of None \<Rightarrow> []
     | Some xs \<Rightarrow> take_last 32 (map_values (map (\<lambda>t. (it_turnId t, t)) (List.map_filter parse_interrupted xs))))"

definition delivery_of :: "json option \<Rightarrow> delivery option" where
  "delivery_of v = (case jstring v of None \<Rightarrow> None | Some s \<Rightarrow>
     if s = ''server'' then Some Server else if s = ''browser'' then Some Browser else None)"

definition queued_state_of :: "json option \<Rightarrow> queued_state option" where
  "queued_state_of v = (case jstring v of None \<Rightarrow> None | Some s \<Rightarrow>
     if s = ''queued'' then Some QQueued else if s = ''delivering'' then Some QDelivering
     else if s = ''accepted'' then Some QAccepted else if s = ''committed'' then Some QCommitted
     else if s = ''delivery-failed'' then Some QDeliveryFailed
     else if s = ''admission-ambiguous'' then Some QAdmissionAmbiguous else None)"

definition intent_of :: "json option \<Rightarrow> intent option" where
  "intent_of v = (case jstring v of None \<Rightarrow> None | Some s \<Rightarrow>
     if s = ''active-turn'' then Some ActiveTurn else if s = ''post-cancellation'' then Some PostCancellation else None)"

definition parseQueuedTurn :: "json \<Rightarrow> queued_turn option" where
  "parseQueuedTurn v =
     (case (truthy_string (jget ''id'' v), nonEmptyString (jget ''text'' v), jnumber (jget ''submittedAt'' v), queued_state_of (jget ''state'' v)) of
        (Some i, Some t, Some submittedAt, Some st) \<Rightarrow>
          let mailboxItemId = truthy_string (jget ''mailboxItemId'' v); d = delivery_of (jget ''delivery'' v); int0 = intent_of (jget ''intent'' v)
          in if st \<in> {QDelivering, QAccepted, QCommitted} \<and> (d \<noteq> Some Server \<or> mailboxItemId = None) then None
             else if int0 = Some PostCancellation \<and> (d \<noteq> Some Browser \<or> st \<noteq> QQueued \<or> mailboxItemId \<noteq> None) then None
             else Some \<lparr>qt_delivery = d, qt_expectedTurnId = truthy_string (jget ''expectedTurnId'' v), qt_id = i, qt_intent = int0,
               qt_mailboxItemId = mailboxItemId, qt_state = st, qt_submittedAt = submittedAt, qt_text = t\<rparr>
      | _ \<Rightarrow> None)"

definition MAX_PENDING_FILES :: nat where "MAX_PENDING_FILES = 20"

definition parse_file :: "json \<Rightarrow> prompt_file option" where
  "parse_file c =
     (case (truthy_string (jget ''mediaType'' c), truthy_string (jget ''url'' c)) of
        (Some m, Some u) \<Rightarrow> Some \<lparr>pf_filename = map_option (take 512) (truthy_string (jget ''filename'' c)), pf_mediaType = take 255 m, pf_url = u\<rparr>
      | _ \<Rightarrow> None)"

definition parsePromptFiles :: "json option \<Rightarrow> prompt_file list" where
  "parsePromptFiles v = (case jarray v of None \<Rightarrow> [] | Some xs \<Rightarrow> List.map_filter parse_file (take MAX_PENDING_FILES xs))"

definition pending_state_of :: "json option \<Rightarrow> pending_state option" where
  "pending_state_of v = (case jstring v of None \<Rightarrow> None | Some s \<Rightarrow>
     if s = ''clearing'' then Some PClearing else if s = ''submitting'' then Some PSubmitting
     else if s = ''resubmitting'' then Some PResubmitting else if s = ''delivery-failed'' then Some PDeliveryFailed
     else if s = ''interrupted'' then Some PInterrupted else None)"

definition operation_of :: "json option \<Rightarrow> pending_operation option" where
  "operation_of v = (case jstring v of None \<Rightarrow> None | Some s \<Rightarrow>
     if s = ''edit'' then Some EditOperation else if s = ''send'' then Some SendOperation else None)"

definition parsePendingTurn :: "json option \<Rightarrow> pending_turn option" where
  "parsePendingTurn v0 = (case v0 of None \<Rightarrow> None | Some v \<Rightarrow>
     let files = parsePromptFiles (jget ''files'' v) in
     (case (truthy_string (jget ''id'' v), jstring (jget ''text'' v), jnumber (jget ''submittedAt'' v), pending_state_of (jget ''state'' v)) of
        (Some i, Some t, Some submittedAt, Some st) \<Rightarrow>
          if js_trim t = [] \<and> files = [] then None
          else let beforeTurnId = truthy_string (jget ''beforeTurnId'' v); d = delivery_of (jget ''delivery'' v); opn = operation_of (jget ''operation'' v)
            in if opn = Some EditOperation \<and> (beforeTurnId = None \<or> d \<noteq> Some Server) then None
               else Some \<lparr>pn_beforeTurnId = beforeTurnId, pn_delivery = d, pn_eventCountAtSubmission = whole_number (jget ''eventCountAtSubmission'' v),
                 pn_files = files, pn_id = i, pn_mailboxItemId = truthy_string (jget ''mailboxItemId'' v), pn_operation = opn,
                 pn_state = st, pn_submittedAt = submittedAt, pn_text = t\<rparr>
      | _ \<Rightarrow> None))"

definition thread_status_of :: "json option \<Rightarrow> thread_status" where
  "thread_status_of v = (case jstring v of None \<Rightarrow> TReady | Some s \<Rightarrow>
     if s = ''cancelling'' then TCancelling else if s = ''error'' then TError else if s = ''streaming'' then TStreaming
     else if s = ''submitted'' then TSubmitted else if s = ''waiting'' then TWaiting else TReady)"

definition mode_of :: "json option \<Rightarrow> thread_mode" where
  "mode_of v = (case jstring v of None \<Rightarrow> ModeStandard | Some s \<Rightarrow>
     if s = ''automation'' then ModeAutomation else if s = ''cautious'' then ModeCautious else ModeStandard)"

definition parse_closed :: "json option \<Rightarrow> string list" where
  "parse_closed v = (case jarray v of None \<Rightarrow> []
     | Some xs \<Rightarrow> take_last 128 (map_values (map (\<lambda>s. (s, s)) (List.map_filter (\<lambda>x. nonEmptyString (Some x)) xs))))"

definition parse_queue :: "json option \<Rightarrow> queued_turn list" where
  "parse_queue v = (case jarray v of None \<Rightarrow> [] | Some xs \<Rightarrow> take 5 (List.map_filter parseQueuedTurn xs))"

definition parse_retained :: "json option \<Rightarrow> js_text list" where
  "parse_retained v =
     (case sanitizeRetainedContext (map_option (map (\<lambda>x. map_option units (jstring (Some x)))) (jarray v))
         (Some (of_nat CODEX_REFERENCE_CONTEXT_WINDOW_TOKENS)) of
        None \<Rightarrow> [] | Some es \<Rightarrow> es)"

definition parseThread :: "(json \<Rightarrow> thread_event) \<Rightarrow> rat \<Rightarrow> json \<Rightarrow> thread option" where
  "parseThread as_event now v =
     (case (jstring (jget ''id'' v), jstring (jget ''title'' v)) of
        (Some i, Some title) \<Rightarrow>
          let preferences = record_or_empty (jget ''preferences'' v); session = record_or_empty (jget ''session'' v);
              rawEvents = map as_event (case jarray (jget ''events'' v) of None \<Rightarrow> [] | Some xs \<Rightarrow> xs);
              stored = (case jnumber (jget ''streamIndex'' session) of Some n \<Rightarrow> if n \<ge> 0 then n else 0 | None \<Rightarrow> 0)
          in Some \<lparr>th_createdAt = numberOrNow now (jget ''createdAt'' v),
            th_closedInputRequestIds = parse_closed (jget ''closedInputRequestIds'' v),
            th_draftRestore = parseDraftRestore (jget ''draftRestore'' v),
            th_events = compactThreadEvents rawEvents,
            th_summary = (jget ''hydration'' v = Some (JStr ''summary'')),
            th_id = i,
            th_interruptedTurns = parseInterruptedTurns (jget ''interruptedTurns'' v),
            th_submissions = parseInputResponseSubmissions (jget ''inputResponseSubmissions'' v),
            th_pendingTurn = parsePendingTurn (jget ''pendingTurn'' v),
            th_preferences = \<lparr>tp_executionMode = mode_of (jget ''executionMode'' preferences),
              tp_modelId = (case nonEmptyString (jget ''modelId'' preferences) of Some m \<Rightarrow> m | None \<Rightarrow> ''default''),
              tp_reasoning = (case nonEmptyString (jget ''reasoning'' preferences) of Some r \<Rightarrow> r | None \<Rightarrow> ''medium'')\<rparr>,
            th_retainedContext = parse_retained (jget ''retainedContext'' v),
            th_queuedTurns = parse_queue (jget ''queuedTurns'' v),
            th_revision = (case whole_number (jget ''revision'' v) of Some n \<Rightarrow> n | None \<Rightarrow> 0),
            th_sessionId = jstring (jget ''sessionId'' session),
            th_streamIndex = max stored (of_nat (length rawEvents)),
            th_status = thread_status_of (jget ''status'' v),
            th_coverage = parseTranscriptCoverage (jget ''transcriptCoverage'' v),
            th_window = parseTranscriptWindow (jget ''transcriptWindow'' v),
            th_title = title,
            th_updatedAt = numberOrNow now (jget ''updatedAt'' v)\<rparr>
      | _ \<Rightarrow> None)"

definition parseThreadCollection :: "(json \<Rightarrow> thread_event) \<Rightarrow> rat \<Rightarrow> json \<Rightarrow> collection" where
  "parseThreadCollection as_event now v =
     (if (jget ''version'' v \<noteq> Some (JNum 1) \<and> jget ''version'' v \<noteq> Some (JNum 2)) then empty_collection
      else case jarray (jget ''threads'' v) of None \<Rightarrow> empty_collection
      | Some xs \<Rightarrow> let threads = List.map_filter (parseThread as_event now) xs
          in \<lparr>co_activeThreadId = (case jstring (jget ''activeThreadId'' v) of None \<Rightarrow> None
                | Some a \<Rightarrow> if list_ex (\<lambda>t. th_id t = a) threads then Some a else None),
              co_threads = threads\<rparr>)"

subsection \<open>Merging checkpoints\<close>

definition inputResponseStateRank :: "submission_state \<Rightarrow> nat" where
  "inputResponseStateRank s = (case s of SSubmitting \<Rightarrow> 0 | SQueued \<Rightarrow> 1 | SDelivering \<Rightarrow> 2 | SAccepted \<Rightarrow> 3 | SCommitted \<Rightarrow> 4
     | SAmbiguous \<Rightarrow> 5 | SFailed \<Rightarrow> 6 | SCancelled \<Rightarrow> 7)"

definition inputResponseSubmissionProjectsAnswer :: "submission \<Rightarrow> bool" where
  "inputResponseSubmissionProjectsAnswer s \<longleftrightarrow> sm_state s \<noteq> SFailed \<and> sm_state s \<noteq> SCancelled"

definition hasUnsettledInputResponseSubmission :: "submission list \<Rightarrow> bool" where
  "hasUnsettledInputResponseSubmission ss \<longleftrightarrow> list_ex (\<lambda>s. sm_settledAtStreamIndex s = None \<and> inputResponseSubmissionProjectsAnswer s) ss"

definition settleInputResponseSubmissions :: "submission list \<Rightarrow> int \<Rightarrow> submission list" where
  "settleInputResponseSubmissions ss streamIndex = map (\<lambda>s.
     if sm_settledAtStreamIndex s \<noteq> None \<or> \<not> inputResponseSubmissionProjectsAnswer s \<or> streamIndex \<le> sm_streamIndexAtSubmission s
     then s else s\<lparr>sm_settledAtStreamIndex := Some streamIndex\<rparr>) ss"

text \<open>A \<^verbatim>\<open>Map\<close> filled from a list: the first position, the last value.\<close>

definition keyed :: "('a \<Rightarrow> 'k) \<Rightarrow> 'a list \<Rightarrow> ('k \<times> 'a) list" where
  "keyed key xs = foldl (\<lambda>m x. map_set (key x) x m) [] xs"

definition merge_submission :: "(string \<times> submission) list \<Rightarrow> submission \<Rightarrow> (string \<times> submission) list" where
  "merge_submission m entry =
     (if (case map_of m (sm_id entry) of None \<Rightarrow> True
          | Some current \<Rightarrow> sm_settledAtStreamIndex entry \<noteq> None \<or>
              (sm_settledAtStreamIndex current = None \<and> inputResponseStateRank (sm_state entry) \<ge> inputResponseStateRank (sm_state current)))
      then map_set (sm_id entry) entry m else m)"

definition mergeInputResponseSubmissions :: "submission list \<Rightarrow> submission list \<Rightarrow> submission list" where
  "mergeInputResponseSubmissions left right = by_submission_time (map snd (foldl merge_submission (keyed sm_id right) left))"

definition mergeConflictEvents :: "candidate_sort \<Rightarrow> thread \<Rightarrow> thread \<Rightarrow> thread_event list" where
  "mergeConflictEvents js_sort local remote =
     (if th_events remote = [] then th_events local
      else if th_events local = [] then th_events remote
      else mergeThreadEventSnapshots js_sort (th_events local) (th_events remote))"

definition edit_in_progress :: "thread \<Rightarrow> bool" where
  "edit_in_progress t \<longleftrightarrow> (case th_pendingTurn t of None \<Rightarrow> False | Some p \<Rightarrow> pn_state p = PClearing \<or> pn_state p = PResubmitting)"

definition merge_thread :: "candidate_sort \<Rightarrow> thread \<Rightarrow> thread \<Rightarrow> thread" where
  "merge_thread js_sort local existing =
     (let selected = (if th_updatedAt local \<ge> th_updatedAt existing then local else existing);
          events = (if edit_in_progress local then th_events local else mergeConflictEvents js_sort local existing)
      in selected\<lparr>th_events := events,
        th_submissions := mergeInputResponseSubmissions (th_submissions local) (th_submissions existing),
        th_summary := (if events \<noteq> [] then False else th_summary selected),
        th_streamIndex := max (th_streamIndex local) (th_streamIndex existing)\<rparr>)"

definition merge_into :: "candidate_sort \<Rightarrow> (string \<times> thread) list \<Rightarrow> thread \<Rightarrow> (string \<times> thread) list" where
  "merge_into js_sort byId t = (case map_of byId (th_id t) of
       None \<Rightarrow> map_set (th_id t) t byId
     | Some existing \<Rightarrow> map_set (th_id t) (merge_thread js_sort t existing) byId)"

definition mergeThreadCollectionsForConflict :: "candidate_sort \<Rightarrow> collection \<Rightarrow> collection \<Rightarrow> collection" where
  "mergeThreadCollectionsForConflict js_sort local remote =
     (let threads = sort_by (\<lambda>l r. compare_number (th_updatedAt r) (th_updatedAt l))
            (map snd (foldl (merge_into js_sort) (keyed th_id (co_threads remote)) (co_threads local)))
      in \<lparr>co_activeThreadId = (case co_activeThreadId local of
            Some a \<Rightarrow> if a \<noteq> [] \<and> list_ex (\<lambda>t. th_id t = a) threads then Some a
              else truthy (co_activeThreadId remote)
          | None \<Rightarrow> truthy (co_activeThreadId remote)),
          co_threads = threads\<rparr>)"

subsection \<open>New threads and titles\<close>

definition createAgentThread :: "string \<Rightarrow> rat \<Rightarrow> string \<Rightarrow> thread_preferences \<Rightarrow> thread" where
  "createAgentThread new_id now title preferences = \<lparr>th_createdAt = now, th_closedInputRequestIds = [], th_draftRestore = None,
     th_events = [], th_summary = False, th_id = new_id, th_interruptedTurns = [], th_submissions = [], th_pendingTurn = None,
     th_preferences = preferences, th_retainedContext = [], th_queuedTurns = [], th_revision = 0, th_sessionId = None,
     th_streamIndex = 0, th_status = TReady, th_coverage = None, th_window = None, th_title = title, th_updatedAt = now\<rparr>"

text \<open>\<^verbatim>\<open>replaceAll(/\s+/g, " ")\<close>\<close>

fun collapse_spaces :: "string \<Rightarrow> string" where
  "collapse_spaces [] = []"
| "collapse_spaces [c] = (if is_js_space c then '' '' else [c])"
| "collapse_spaces (c # d # s) =
     (if is_js_space c then (if is_js_space d then collapse_spaces (d # s) else CHR '' '' # collapse_spaces (d # s))
      else c # collapse_spaces (d # s))"

definition titleFromPrompt :: "string \<Rightarrow> string" where
  "titleFromPrompt prompt =
     (let compact = js_trim (collapse_spaces prompt)
      in if compact = [] then ''New session''
         else if length compact > 42 then take 41 compact @ ''...'' else compact)"

subsection \<open>A message that was being sent\<close>

record asset_prompt =
  ap_text :: string
  ap_assets :: "(string \<times> string) list"
  ap_clientMessageId :: "string option"

definition message_text :: "thread_event \<Rightarrow> string" where
  "message_text e = (case se_message e of None \<Rightarrow> [] | Some t \<Rightarrow> t)"

definition receivedClientMessageId :: "(string \<Rightarrow> asset_prompt) \<Rightarrow> thread_event \<Rightarrow> string option" where
  "receivedClientMessageId parseAssetPrompt e =
     (if truthy (se_clientMessageId e) \<noteq> None then se_clientMessageId e
      else ap_clientMessageId (parseAssetPrompt (message_text e)))"

definition legacyPendingPromptMatches :: "(string \<Rightarrow> asset_prompt) \<Rightarrow> pending_turn \<Rightarrow> string \<Rightarrow> bool" where
  "legacyPendingPromptMatches parseAssetPrompt pending message =
     (let parsed = parseAssetPrompt message; files = pn_files pending in
      if ap_text parsed \<noteq> js_trim (pn_text pending) then False
      else if files = [] then js_trim (pn_text pending) \<noteq> [] \<and> ap_assets parsed = []
      else length files = length (ap_assets parsed) \<and>
        list_all2 (\<lambda>file (i, mediaType). pf_url file = ''asset://'' @ i \<and> pf_mediaType file = mediaType) files (ap_assets parsed))"

definition reconcilePendingTurnWithEvents ::
  "(string \<Rightarrow> asset_prompt) \<Rightarrow> pending_turn option \<Rightarrow> thread_event list \<Rightarrow> pending_turn option" where
  "reconcilePendingTurnWithEvents parseAssetPrompt pendingTurn events = (case pendingTurn of None \<Rightarrow> None | Some p \<Rightarrow>
     (case find_last_index (\<lambda>e. se_type e = MessageReceived) events of
        None \<Rightarrow> Some p
      | Some i \<Rightarrow>
          let e = events ! i;
              eventCanAcknowledge = (case eventTimestamp e of None \<Rightarrow> True | Some at_ms \<Rightarrow> of_int at_ms \<ge> pn_submittedAt p - 5000);
              clientMessageId = receivedClientMessageId parseAssetPrompt e;
              isAfterSubmission = (case pn_eventCountAtSubmission p of None \<Rightarrow> True | Some n \<Rightarrow> int i \<ge> n)
          in if clientMessageId = Some (pn_id p) \<or>
                (truthy clientMessageId = None \<and> isAfterSubmission \<and> eventCanAcknowledge \<and>
                  legacyPendingPromptMatches parseAssetPrompt p (message_text e))
             then None else Some p))"

definition reconcileHydratedPendingTurn ::
  "(string \<Rightarrow> asset_prompt) \<Rightarrow> pending_turn option \<Rightarrow> thread_event list \<Rightarrow> pending_turn option" where
  "reconcileHydratedPendingTurn parseAssetPrompt pendingTurn events =
     (case reconcilePendingTurnWithEvents parseAssetPrompt pendingTurn events of None \<Rightarrow> None
      | Some r \<Rightarrow>
          if pn_operation r = Some EditOperation \<and> pn_delivery r = Some Server then Some r
          else if pn_state r \<noteq> PClearing \<and> pn_state r \<noteq> PResubmitting \<and> pn_state r \<noteq> PSubmitting then Some r
          else Some (r\<lparr>pn_state := PDeliveryFailed\<rparr>))"

end
