(* ===== verification/Thread_Collection_Theorems.thy ===== *)
theory Thread_Collection_Theorems
  imports Thread_Collection
begin

section \<open>Properties of stored threads\<close>

text \<open>
  What a parsed collection satisfies, what a merge of two checkpoints keeps, and how a message that was
  being sent is reconciled.
\<close>

subsection \<open>Merging by key\<close>

lemma keyed_distinct: "distinct (map key xs) \<Longrightarrow> keyed key xs = map (\<lambda>x. (key x, x)) xs"
proof (induction xs rule: rev_induct)
  case (snoc x xs)
  have fresh: "key x \<notin> fst ` set (map (\<lambda>x. (key x, x)) xs)" using snoc.prems by auto
  have ih: "keyed key xs = map (\<lambda>x. (key x, x)) xs" using snoc by simp
  have "keyed key (xs @ [x]) = map_set (key x) x (keyed key xs)" by (simp add: keyed_def)
  then show ?case unfolding ih map_set_new [OF fresh] by simp
qed (simp add: keyed_def)

lemma find_key_map_of: "find (\<lambda>t. key t = k) xs = map_of (map (\<lambda>x. (key x, x)) xs) k"
  by (induction xs) auto

text \<open>
  The loop of both merges: an entry of the left side is added, or combined with the entry of the same
  key that the map holds.
\<close>

locale keyed_merge =
  fixes key :: "'a \<Rightarrow> string"
    and step :: "(string \<times> 'a) list \<Rightarrow> 'a \<Rightarrow> (string \<times> 'a) list"
    and combine :: "'a \<Rightarrow> 'a \<Rightarrow> 'a"
  assumes step_new: "map_of m (key x) = None \<Longrightarrow> step m x = map_set (key x) x m"
    and step_old: "map_of m (key x) = Some y \<Longrightarrow> step m x = map_set (key x) (combine x y) m"
    and combine_key: "key x = key y \<Longrightarrow> key (combine x y) = key x"
begin

text \<open>What the merge holds under one key, from what the sides hold.\<close>

definition both :: "'a option \<Rightarrow> 'a option \<Rightarrow> 'a option" where
  "both l r = (case l of None \<Rightarrow> r | Some x \<Rightarrow> (case r of None \<Rightarrow> Some x | Some y \<Rightarrow> Some (combine x y)))"

definition well_keyed :: "(string \<times> 'a) list \<Rightarrow> bool" where
  "well_keyed m \<longleftrightarrow> distinct (map fst m) \<and> list_all (\<lambda>(k, x). key x = k) m"

lemma well_keyed_set: "well_keyed m \<Longrightarrow> key v = k \<Longrightarrow> well_keyed (map_set k v m)"
proof -
  assume m: "well_keyed m" and v: "key v = k"
  have "distinct (map fst (map_set k v m))"
    using m by (auto simp: well_keyed_def keys_map_set)
  moreover have "list_all (\<lambda>(k, x). key x = k) (map_set k v m)"
    using m v unfolding well_keyed_def by (induction m) auto
  ultimately show ?thesis by (simp add: well_keyed_def)
qed

lemma well_keyed_get: "well_keyed m \<Longrightarrow> map_of m k = Some x \<Longrightarrow> key x = k"
  using map_of_SomeD [of m k x] by (fastforce simp: well_keyed_def list_all_iff)

lemma well_keyed_step: "well_keyed m \<Longrightarrow> well_keyed (step m x)"
proof (cases "map_of m (key x)")
  case None
  then show "well_keyed m \<Longrightarrow> ?thesis" by (simp add: step_new well_keyed_set)
next
  case (Some y)
  assume m: "well_keyed m"
  then have "key y = key x" using Some by (rule well_keyed_get)
  then have "key (combine x y) = key x" by (simp add: combine_key)
  with m Some show ?thesis by (simp add: step_old well_keyed_set)
qed

lemma step_map_of: "map_of (step m x) = (map_of m)(key x \<mapsto> the (both (Some x) (map_of m (key x))))"
  using step_new [of m x] step_old [of m x] by (cases "map_of m (key x)") (simp_all add: both_def map_of_map_set)

lemma well_keyed_fold: "well_keyed m \<Longrightarrow> well_keyed (foldl step m xs)"
  by (induction xs arbitrary: m) (simp_all add: well_keyed_step)

lemma fold_map_of:
  "distinct (map key xs) \<Longrightarrow> map_of (foldl step m xs) k = both (find (\<lambda>x. key x = k) xs) (map_of m k)"
proof (induction xs arbitrary: m)
  case (Cons x xs)
  have none: "find (\<lambda>y. key y = key x) xs = None" using Cons.prems by (auto simp: find_None_iff image_iff)
  show ?case
  proof (cases "key x = k")
    case True
    with none Cons show ?thesis by (simp add: step_map_of) (simp add: both_def split: option.split)
  next
    case False
    with Cons show ?thesis by (simp add: step_map_of)
  qed
qed (simp add: both_def)

lemma merged_entries:
  assumes l: "distinct (map key ls)" and r: "distinct (map key rs)"
  defines "m \<equiv> foldl step (keyed key rs) ls"
  shows "distinct (map key (map snd m))"
    and "x \<in> set (map snd m) \<longleftrightarrow> both (find (\<lambda>y. key y = key x) ls) (find (\<lambda>y. key y = key x) rs) = Some x"
proof -
  have k: "keyed key rs = map (\<lambda>x. (key x, x)) rs" using r by (rule keyed_distinct)
  have "well_keyed (keyed key rs)" unfolding k using r by (simp add: well_keyed_def list_all_iff o_def)
  then have w: "well_keyed m" unfolding m_def by (rule well_keyed_fold)
  have keys: "map key (map snd m) = map fst m" using w by (auto simp: well_keyed_def list_all_iff)
  show "distinct (map key (map snd m))" unfolding keys using w by (simp add: well_keyed_def)
  have get: "map_of m k = both (find (\<lambda>y. key y = k) ls) (find (\<lambda>y. key y = k) rs)" for k
    unfolding m_def fold_map_of [OF l] by (simp add: k find_key_map_of)
  have "x \<in> set (map snd m) \<longleftrightarrow> (key x, x) \<in> set m" using w by (force simp: well_keyed_def list_all_iff)
  also have "\<dots> \<longleftrightarrow> map_of m (key x) = Some x" using w by (simp add: well_keyed_def)
  finally show "x \<in> set (map snd m) \<longleftrightarrow> both (find (\<lambda>y. key y = key x) ls) (find (\<lambda>y. key y = key x) rs) = Some x"
    by (simp add: get)
qed

lemma merged_keys:
  assumes l: "distinct (map key ls)" and r: "distinct (map key rs)"
  shows "key ` set (map snd (foldl step (keyed key rs) ls)) = key ` set ls \<union> key ` set rs"
proof -
  have k: "keyed key rs = map (\<lambda>x. (key x, x)) rs" using r by (rule keyed_distinct)
  have "fst ` set (foldl step m xs) = fst ` set m \<union> key ` set xs" for m xs
  proof (induction xs arbitrary: m)
    case (Cons x xs)
    have "fst ` set (step m x) = insert (key x) (fst ` set m)"
      using step_map_of [of m x] by (simp add: dom_map_of_conv_image_fst [symmetric])
    with Cons show ?case by auto
  qed simp
  moreover have "key ` set (map snd m) = fst ` set m" if "well_keyed m" for m
    using that by (force simp: well_keyed_def list_all_iff)
  moreover have "well_keyed (foldl step (keyed key rs) ls)"
    by (rule well_keyed_fold) (use r in \<open>simp add: k well_keyed_def list_all_iff o_def\<close>)
  ultimately show ?thesis by (auto simp: k image_image)
qed

end

subsection \<open>The two merges as instances\<close>

lemma submission_step:
  "map_of m (sm_id x) = None \<Longrightarrow> merge_submission m x = map_set (sm_id x) x m"
  "map_of m (sm_id x) = Some y \<Longrightarrow> merge_submission m x = map_set (sm_id x)
     (if sm_settledAtStreamIndex x \<noteq> None \<or> (sm_settledAtStreamIndex y = None \<and> inputResponseStateRank (sm_state x) \<ge> inputResponseStateRank (sm_state y))
      then x else y) m"
  by (auto simp: merge_submission_def map_set_same)

definition newer_submission :: "submission \<Rightarrow> submission \<Rightarrow> submission" where
  "newer_submission x y =
     (if sm_settledAtStreamIndex x \<noteq> None \<or> (sm_settledAtStreamIndex y = None \<and> inputResponseStateRank (sm_state x) \<ge> inputResponseStateRank (sm_state y))
      then x else y)"

interpretation submissions: keyed_merge sm_id merge_submission newer_submission
  by unfold_locales (auto simp: submission_step newer_submission_def)

interpretation threads: keyed_merge th_id "merge_into js_sort" "merge_thread js_sort" for js_sort
  by unfold_locales (auto simp: merge_into_def merge_thread_def Let_def)

lemma submissions_both:
  "submissions.both l r = (case l of None \<Rightarrow> r | Some x \<Rightarrow> (case r of None \<Rightarrow> Some x | Some y \<Rightarrow> Some (newer_submission x y)))"
  by (rule submissions.both_def)

lemma compare_number_consistent: "consistent compare_number"
  by (auto simp: consistent_def compare_number_def)

lemma compare_number_reversed: "consistent (\<lambda>a b. compare_number b a)"
  by (auto simp: consistent_def compare_number_def split: if_splits)

lemma compare_number_le [simp]: "compare_number a b \<le> 0 \<longleftrightarrow> a \<le> b"
  by (auto simp: compare_number_def)

lemma distinct_sort_by [simp]: "distinct (map f (sort_by cmp xs)) \<longleftrightarrow> distinct (map f xs)"
  by (metis mset_sort_by mset_map mset_eq_imp_distinct_iff)

definition submission_with :: "submission list \<Rightarrow> string \<Rightarrow> submission option" where
  "submission_with ss i = find (\<lambda>s. sm_id s = i) ss"

definition in_submission_order :: "submission list \<Rightarrow> bool" where
  "in_submission_order ss \<longleftrightarrow> sorted_wrt (\<lambda>a b. sm_submittedAt a \<le> sm_submittedAt b) ss"

lemma by_submission_time_facts [simp]:
  "set (by_submission_time ss) = set ss"
  "distinct (map f (by_submission_time ss)) \<longleftrightarrow> distinct (map f ss)"
  "in_submission_order (by_submission_time ss)"
proof -
  show "in_submission_order (by_submission_time ss)"
    using sorted_sort_by [OF consistent_key [OF compare_number_consistent, of sm_submittedAt], of ss]
    by (simp add: in_submission_order_def by_submission_time_def)
qed (simp_all add: by_submission_time_def)

text \<open>What a merged submission says: it comes from one of the sides, and from the more advanced one.\<close>

definition advances :: "submission list \<Rightarrow> submission list \<Rightarrow> submission \<Rightarrow> bool" where
  "advances ls rs s = (case (submission_with ls (sm_id s), submission_with rs (sm_id s)) of
      (Some l, Some r) \<Rightarrow> (s = l \<or> s = r) \<and>
        (sm_settledAtStreamIndex s = None \<longleftrightarrow> sm_settledAtStreamIndex l = None \<and> sm_settledAtStreamIndex r = None) \<and>
        (sm_settledAtStreamIndex s = None \<longrightarrow>
           inputResponseStateRank (sm_state s) = max (inputResponseStateRank (sm_state l)) (inputResponseStateRank (sm_state r)))
    | (Some l, None) \<Rightarrow> s = l
    | (None, Some r) \<Rightarrow> s = r
    | (None, None) \<Rightarrow> False)"

lemma merge_submissions_facts:
  assumes "distinct (map sm_id ls)" and "distinct (map sm_id rs)"
  shows "distinct (map sm_id (mergeInputResponseSubmissions ls rs))"
    and "sm_id ` set (mergeInputResponseSubmissions ls rs) = sm_id ` set ls \<union> sm_id ` set rs"
    and "in_submission_order (mergeInputResponseSubmissions ls rs)"
    and "s \<in> set (mergeInputResponseSubmissions ls rs) \<Longrightarrow> advances ls rs s"
proof -
  note e = submissions.merged_entries [OF assms] and k = submissions.merged_keys [OF assms]
  show "distinct (map sm_id (mergeInputResponseSubmissions ls rs))" using e(1) by (simp add: mergeInputResponseSubmissions_def)
  show "sm_id ` set (mergeInputResponseSubmissions ls rs) = sm_id ` set ls \<union> sm_id ` set rs"
    using k by (simp add: mergeInputResponseSubmissions_def)
  show "in_submission_order (mergeInputResponseSubmissions ls rs)" by (simp add: mergeInputResponseSubmissions_def)
  assume "s \<in> set (mergeInputResponseSubmissions ls rs)"
  then have "submissions.both (submission_with ls (sm_id s)) (submission_with rs (sm_id s)) = Some s"
    using e(2) [of s] by (simp add: mergeInputResponseSubmissions_def submission_with_def)
  then show "advances ls rs s"
    by (auto simp: advances_def submissions_both newer_submission_def split: option.splits if_splits)
qed

text \<open>Remark (answers_never_regress)
  Two checkpoints of the answers to a thread's questions, merged: no answer is lost or doubled, they are
  in the order of their submission, an answer that either side has seen settled stays settled, and one
  that neither has keeps the more advanced of its two delivery states.\<close>

theorem answers_never_regress:
  assumes "distinct (map sm_id ls)" and "distinct (map sm_id rs)"
  shows "distinct (map sm_id (mergeInputResponseSubmissions ls rs)) \<and>
    set (map sm_id (mergeInputResponseSubmissions ls rs)) = set (map sm_id ls) \<union> set (map sm_id rs) \<and>
    in_submission_order (mergeInputResponseSubmissions ls rs) \<and>
    list_all (advances ls rs) (mergeInputResponseSubmissions ls rs)"
  using merge_submissions_facts [OF assms] by (simp add: list_all_iff)

definition demo_submission :: "string \<Rightarrow> submission_state \<Rightarrow> rat \<Rightarrow> submission" where
  "demo_submission i st submitted = \<lparr>sm_id = i, sm_mailboxItemId = None, sm_responses = [], sm_settledAtStreamIndex = None,
     sm_state = st, sm_streamIndexAtSubmission = 4, sm_submittedAt = submitted\<rparr>"

theorem answers_never_regress_witness:
  "list_all (advances [demo_submission ''a'' SSubmitting 2, demo_submission ''b'' SAccepted 1] [demo_submission ''a'' SDelivering 2])
     (mergeInputResponseSubmissions [demo_submission ''a'' SSubmitting 2, demo_submission ''b'' SAccepted 1] [demo_submission ''a'' SDelivering 2]) \<and>
   map sm_state (mergeInputResponseSubmissions [demo_submission ''a'' SSubmitting 2, demo_submission ''b'' SAccepted 1]
     [demo_submission ''a'' SDelivering 2]) = [SAccepted, SDelivering]"
proof
  have l: "distinct (map sm_id [demo_submission ''a'' SSubmitting 2, demo_submission ''b'' SAccepted 1])"
    and r: "distinct (map sm_id [demo_submission ''a'' SDelivering 2])" by (simp_all add: demo_submission_def)
  show "list_all (advances [demo_submission ''a'' SSubmitting 2, demo_submission ''b'' SAccepted 1] [demo_submission ''a'' SDelivering 2])
     (mergeInputResponseSubmissions [demo_submission ''a'' SSubmitting 2, demo_submission ''b'' SAccepted 1] [demo_submission ''a'' SDelivering 2])"
    using answers_never_regress [OF l r] by (elim conjE)
  show "map sm_state (mergeInputResponseSubmissions [demo_submission ''a'' SSubmitting 2, demo_submission ''b'' SAccepted 1]
     [demo_submission ''a'' SDelivering 2]) = [SAccepted, SDelivering]" by code_simp
qed

subsection \<open>Merging collections\<close>

definition thread_with :: "thread list \<Rightarrow> string \<Rightarrow> thread option" where
  "thread_with ts i = find (\<lambda>t. th_id t = i) ts"

definition newest_first :: "thread list \<Rightarrow> bool" where
  "newest_first ts \<longleftrightarrow> sorted_wrt (\<lambda>a b. th_updatedAt b \<le> th_updatedAt a) ts"

text \<open>The events of a merged thread: all of both sides, unless this side is replacing its transcript.\<close>

definition keeps_events :: "thread \<Rightarrow> thread \<Rightarrow> thread \<Rightarrow> bool" where
  "keeps_events l r t \<longleftrightarrow>
     (if edit_in_progress l then th_events t = th_events l
      else set (th_events t) \<subseteq> set (th_events l) \<union> set (th_events r) \<and>
        list_all (stands_in (th_events l @ th_events r) (th_events t)) (th_events l @ th_events r))"

definition merges_threads :: "thread \<Rightarrow> thread \<Rightarrow> thread \<Rightarrow> bool" where
  "merges_threads l r t \<longleftrightarrow> th_streamIndex t = max (th_streamIndex l) (th_streamIndex r) \<and>
     th_updatedAt t = max (th_updatedAt l) (th_updatedAt r) \<and> keeps_events l r t \<and>
     th_submissions t = mergeInputResponseSubmissions (th_submissions l) (th_submissions r) \<and>
     (th_summary t \<longrightarrow> th_events t = [])"

definition comes_from :: "thread list \<Rightarrow> thread list \<Rightarrow> thread \<Rightarrow> bool" where
  "comes_from ls rs t = (case (thread_with ls (th_id t), thread_with rs (th_id t)) of
      (Some l, Some r) \<Rightarrow> merges_threads l r t
    | (Some l, None) \<Rightarrow> t = l
    | (None, Some r) \<Rightarrow> t = r
    | (None, None) \<Rightarrow> False)"

lemma conflict_events:
  assumes "permutes_input js_sort"
  shows "set (mergeConflictEvents js_sort l r) \<subseteq> set (th_events l) \<union> set (th_events r) \<and>
    list_all (stands_in (th_events l @ th_events r) (mergeConflictEvents js_sort l r)) (th_events l @ th_events r)"
  using merge_keeps_events [OF assms, of "th_events l" "th_events r"] subset_stands [of "[]" "th_events l"] subset_stands [of "[]" "th_events r"]
  by (auto simp: mergeConflictEvents_def list_all_iff)

lemma merge_thread_merges:
  assumes "permutes_input js_sort"
  shows "merges_threads l r (merge_thread js_sort l r)"
  using conflict_events [OF assms, of l r] by (simp add: merges_threads_def keeps_events_def merge_thread_def Let_def max_def)

definition merged_threads :: "candidate_sort \<Rightarrow> collection \<Rightarrow> collection \<Rightarrow> thread list" where
  "merged_threads js_sort local remote = co_threads (mergeThreadCollectionsForConflict js_sort local remote)"

lemma merged_threads_sort:
  "merged_threads js_sort local remote = sort_by (\<lambda>l r. compare_number (th_updatedAt r) (th_updatedAt l))
     (map snd (foldl (merge_into js_sort) (keyed th_id (co_threads remote)) (co_threads local)))"
  by (simp add: merged_threads_def mergeThreadCollectionsForConflict_def Let_def)

lemma merged_threads_newest: "newest_first (merged_threads js_sort local remote)"
  using sorted_sort_by [OF consistent_key [OF compare_number_reversed, of th_updatedAt]]
  by (simp add: newest_first_def merged_threads_sort)

lemma merged_threads_facts:
  assumes "distinct (map th_id (co_threads local))" and "distinct (map th_id (co_threads remote))"
  shows "distinct (map th_id (merged_threads js_sort local remote))"
    and "th_id ` set (merged_threads js_sort local remote) = th_id ` set (co_threads local) \<union> th_id ` set (co_threads remote)"
    and "t \<in> set (merged_threads js_sort local remote) \<Longrightarrow>
      threads.both js_sort (thread_with (co_threads local) (th_id t)) (thread_with (co_threads remote) (th_id t)) = Some t"
  using threads.merged_entries [where js_sort = js_sort, OF assms] threads.merged_keys [where js_sort = js_sort, OF assms]
  by (simp_all add: merged_threads_sort thread_with_def)

text \<open>C31 (conflict_merge_keeps_both_sides)
  Merging a local checkpoint with a remote one after a revision conflict, whatever permutation of its input the engine's
  sort is, and provided that neither side has two threads of one identity: the result has every thread of either
  side once, newest first; a thread of one side only is unchanged; a thread of both has the larger cursor and time,
  the merged answers, and every event of either side or its successor - unless the local side is replacing the
  transcript, whose events then stand - and is not marked as a summary when it has events.\<close>

theorem conflict_merge_keeps_both_sides:
  assumes "permutes_input js_sort" and "distinct (map th_id (co_threads local))" and "distinct (map th_id (co_threads remote))"
  shows "distinct (map th_id (co_threads (mergeThreadCollectionsForConflict js_sort local remote))) \<and>
    set (map th_id (co_threads (mergeThreadCollectionsForConflict js_sort local remote))) =
      set (map th_id (co_threads local)) \<union> set (map th_id (co_threads remote)) \<and>
    newest_first (co_threads (mergeThreadCollectionsForConflict js_sort local remote)) \<and>
    list_all (comes_from (co_threads local) (co_threads remote)) (co_threads (mergeThreadCollectionsForConflict js_sort local remote))"
proof -
  have "comes_from (co_threads local) (co_threads remote) t" if "t \<in> set (merged_threads js_sort local remote)" for t
    using merged_threads_facts(3) [OF assms(2,3) that] merge_thread_merges [OF assms(1)]
    by (auto simp: comes_from_def threads.both_def split: option.splits)
  with merged_threads_facts(1,2) [OF assms(2,3), of js_sort] merged_threads_newest [of js_sort local remote]
  show ?thesis by (simp add: merged_threads_def list_all_iff)
qed

definition demo_prefs :: thread_preferences where
  "demo_prefs = \<lparr>tp_executionMode = ModeStandard, tp_modelId = ''default'', tp_reasoning = ''medium''\<rparr>"

definition demo_thread :: "string \<Rightarrow> rat \<Rightarrow> thread_event list \<Rightarrow> thread" where
  "demo_thread i updated es = (createAgentThread i 0 ''t'' demo_prefs)\<lparr>th_updatedAt := updated, th_events := es, th_streamIndex := of_nat (length es)\<rparr>"

definition demo_local :: collection where
  "demo_local = \<lparr>co_activeThreadId = Some ''a'', co_threads = [demo_thread ''a'' 5 [bare_thread ''1'' 5, bare_thread ''3'' 9]]\<rparr>"

definition demo_remote :: collection where
  "demo_remote = \<lparr>co_activeThreadId = None, co_threads = [demo_thread ''a'' 3 [bare_thread ''2'' 7], demo_thread ''b'' 8 []]\<rparr>"

theorem conflict_merge_keeps_both_sides_witness:
  "list_all (comes_from (co_threads demo_local) (co_threads demo_remote))
     (co_threads (mergeThreadCollectionsForConflict sort_by demo_local demo_remote)) \<and>
   map (\<lambda>t. (th_id t, map se_metaId (th_events t))) (co_threads (mergeThreadCollectionsForConflict sort_by demo_local demo_remote))
     = [(''b'', []), (''a'', [Some ''1'', Some ''2'', Some ''3''])]"
proof
  have d: "distinct (map th_id (co_threads demo_local))" "distinct (map th_id (co_threads demo_remote))"
    by (simp_all add: demo_local_def demo_remote_def demo_thread_def createAgentThread_def)
  show "list_all (comes_from (co_threads demo_local) (co_threads demo_remote))
     (co_threads (mergeThreadCollectionsForConflict sort_by demo_local demo_remote))"
    using conflict_merge_keeps_both_sides [OF sort_by_permutes d] by (elim conjE)
  show "map (\<lambda>t. (th_id t, map se_metaId (th_events t))) (co_threads (mergeThreadCollectionsForConflict sort_by demo_local demo_remote))
     = [(''b'', []), (''a'', [Some ''1'', Some ''2'', Some ''3''])]" by code_simp
qed

subsection \<open>Well-formed collections\<close>

definition queued_ok :: "queued_turn \<Rightarrow> bool" where
  "queued_ok q \<longleftrightarrow> qt_id q \<noteq> [] \<and> js_trim (qt_text q) \<noteq> [] \<and>
     (qt_state q \<in> {QDelivering, QAccepted, QCommitted} \<longrightarrow> qt_delivery q = Some Server \<and> qt_mailboxItemId q \<noteq> None) \<and>
     (qt_intent q = Some PostCancellation \<longrightarrow> qt_delivery q = Some Browser \<and> qt_state q = QQueued \<and> qt_mailboxItemId q = None)"

definition pending_ok :: "pending_turn \<Rightarrow> bool" where
  "pending_ok p \<longleftrightarrow> pn_id p \<noteq> [] \<and> (js_trim (pn_text p) \<noteq> [] \<or> pn_files p \<noteq> []) \<and> length (pn_files p) \<le> 20 \<and>
     (pn_operation p = Some EditOperation \<longrightarrow> pn_beforeTurnId p \<noteq> None \<and> pn_delivery p = Some Server)"

definition submission_ok :: "submission \<Rightarrow> bool" where
  "submission_ok s \<longleftrightarrow> sm_id s \<noteq> [] \<and> sm_responses s \<noteq> [] \<and> 0 \<le> sm_streamIndexAtSubmission s \<and>
     list_all (\<lambda>a. an_requestId a \<noteq> [] \<and> (an_optionId a \<noteq> None \<or> an_text a \<noteq> None)) (sm_responses s)"

definition submissions_ok :: "submission list \<Rightarrow> bool" where
  "submissions_ok ss \<longleftrightarrow> list_all submission_ok ss \<and> distinct (map sm_id ss) \<and> in_submission_order ss"

definition window_ok :: "transcript_window \<Rightarrow> bool" where
  "window_ok w \<longleftrightarrow> 0 \<le> tw_startIndex w \<and> tw_startIndex w \<le> tw_endIndex w \<and> tw_endIndex w \<le> tw_total w"

definition coverage_ok :: "transcript_coverage \<Rightarrow> bool" where
  "coverage_ok c \<longleftrightarrow> 0 \<le> cv_startIndex c \<and> cv_startIndex c \<le> cv_endIndex c"

definition interrupted_ok :: "interrupted_turn list \<Rightarrow> bool" where
  "interrupted_ok ts \<longleftrightarrow> length ts \<le> 32 \<and> distinct (map it_turnId ts) \<and> list_all (\<lambda>t. 0 \<le> it_eventCount t \<and> 0 \<le> it_streamIndex t) ts"

definition thread_ok :: "thread \<Rightarrow> bool" where
  "thread_ok t \<longleftrightarrow> length (th_queuedTurns t) \<le> 5 \<and> list_all queued_ok (th_queuedTurns t) \<and>
     pred_option pending_ok (th_pendingTurn t) \<and> submissions_ok (th_submissions t) \<and>
     length (th_closedInputRequestIds t) \<le> 128 \<and> distinct (th_closedInputRequestIds t) \<and>
     interrupted_ok (th_interruptedTurns t) \<and> pred_option window_ok (th_window t) \<and> pred_option coverage_ok (th_coverage t) \<and>
     bounded_client_context (th_retainedContext t) \<and> 0 \<le> th_revision t \<and> 0 \<le> th_streamIndex t"

definition collection_ok :: "collection \<Rightarrow> bool" where
  "collection_ok c \<longleftrightarrow> list_all thread_ok (co_threads c) \<and>
     pred_option (\<lambda>a. list_ex (\<lambda>t. th_id t = a) (co_threads c)) (co_activeThreadId c)"

lemma index_from_least: "index_from least v = Some n \<Longrightarrow> least \<le> n"
  by (auto simp: index_from_def split: option.splits if_splits)

lemma truthy_string_some: "truthy_string v = Some s \<Longrightarrow> s \<noteq> []"
  by (auto simp: truthy_string_def split: option.splits if_splits)

lemma nonEmptyString_some: "nonEmptyString v = Some s \<Longrightarrow> js_trim s \<noteq> []"
  by (auto simp: nonEmptyString_def split: option.splits if_splits)

lemma map_filter_all: "(\<And>x y. f x = Some y \<Longrightarrow> P y) \<Longrightarrow> list_all P (List.map_filter f xs)"
  by (auto simp: list_all_iff map_filter_def)

lemma length_map_filter: "length (List.map_filter f xs) \<le> length xs"
  by (simp add: map_filter_def)

lemma parsed_queued: "parseQueuedTurn v = Some q \<Longrightarrow> queued_ok q"
  by (auto simp: parseQueuedTurn_def queued_ok_def Let_def dest: truthy_string_some nonEmptyString_some split: option.splits if_splits)

lemma parsed_pending: "parsePendingTurn v = Some p \<Longrightarrow> pending_ok p"
proof -
  have n: "length (parsePromptFiles w) \<le> 20" for w
    by (auto simp: parsePromptFiles_def MAX_PENDING_FILES_def split: option.split) (metis (no_types, lifting) length_map_filter length_take min.bounded_iff order_trans)
  show "parsePendingTurn v = Some p \<Longrightarrow> pending_ok p"
    using n by (auto simp: parsePendingTurn_def pending_ok_def Let_def dest: truthy_string_some split: option.splits if_splits)
qed

lemma parsed_answer: "parse_answer r = Some a \<Longrightarrow> an_requestId a \<noteq> [] \<and> (an_optionId a \<noteq> None \<or> an_text a \<noteq> None)"
  by (auto simp: parse_answer_def Let_def dest: truthy_string_some split: option.splits if_splits)

lemma parsed_submission: "parse_submission v = Some s \<Longrightarrow> submission_ok s"
  using map_filter_all [OF parsed_answer]
  by (auto simp: parse_submission_def submission_ok_def Let_def dest: truthy_string_some index_from_least split: option.splits if_splits)

lemma keyed_values: "list_all P xs \<Longrightarrow> list_all P (map_values (map (\<lambda>x. (key x, x)) xs)) \<and> distinct (map key (map_values (map (\<lambda>x. (key x, x)) xs)))"
  using map_values_keyed [of key "map (\<lambda>x. (key x, x)) xs"] by (force simp: list_all_iff)

lemma parsed_submissions: "submissions_ok (parseInputResponseSubmissions v)"
proof (cases "jarray v")
  case (Some xs)
  have "list_all submission_ok (map_values (map (\<lambda>s. (sm_id s, s)) (List.map_filter parse_submission xs))) \<and>
      distinct (map sm_id (map_values (map (\<lambda>s. (sm_id s, s)) (List.map_filter parse_submission xs))))"
    by (rule keyed_values [OF map_filter_all [OF parsed_submission]])
  then show ?thesis by (simp add: parseInputResponseSubmissions_def submissions_ok_def Some list_all_iff)
qed (simp add: parseInputResponseSubmissions_def submissions_ok_def in_submission_order_def)

lemma parsed_window: "pred_option window_ok (parseTranscriptWindow v)"
  by (auto simp: parseTranscriptWindow_def window_ok_def dest!: index_from_least split: option.split)

lemma parsed_coverage: "pred_option coverage_ok (parseTranscriptCoverage v)"
  by (auto simp: parseTranscriptCoverage_def coverage_ok_def dest!: index_from_least split: option.split)

lemma take_last_facts: "length (take_last n xs) \<le> n" "set (take_last n xs) \<subseteq> set xs"
  "distinct (map f xs) \<Longrightarrow> distinct (map f (take_last n xs))"
  by (auto simp: take_last_def drop_map [symmetric] dest: in_set_dropD)

lemma parsed_interrupted_turn: "parse_interrupted v = Some t \<Longrightarrow> 0 \<le> it_eventCount t \<and> 0 \<le> it_streamIndex t"
  by (auto simp: parse_interrupted_def dest: index_from_least split: option.splits)

lemma parsed_interrupted: "interrupted_ok (parseInterruptedTurns v)"
proof (cases "jarray v")
  case (Some xs)
  let ?ts = "map_values (map (\<lambda>t. (it_turnId t, t)) (List.map_filter parse_interrupted xs))"
  have "list_all (\<lambda>t. 0 \<le> it_eventCount t \<and> 0 \<le> it_streamIndex t) ?ts \<and> distinct (map it_turnId ?ts)"
    by (rule keyed_values [OF map_filter_all [OF parsed_interrupted_turn]])
  then show ?thesis using Some take_last_facts(1,2) [of 32 ?ts] take_last_facts(3) [of it_turnId ?ts 32]
    by (auto simp: parseInterruptedTurns_def interrupted_ok_def list_all_iff)
qed (simp add: parseInterruptedTurns_def interrupted_ok_def)

lemma parsed_closed: "length (parse_closed v) \<le> 128 \<and> distinct (parse_closed v)"
proof (cases "jarray v")
  case (Some xs)
  let ?ts = "map_values (map (\<lambda>s. (s, s)) (List.map_filter (\<lambda>x. nonEmptyString (Some x)) xs))"
  have "distinct (map (\<lambda>s. s) ?ts)"
    using keyed_values [where key = "\<lambda>s. s" and P = "\<lambda>_. True" and xs = "List.map_filter (\<lambda>x. nonEmptyString (Some x)) xs"]
    by (simp add: list_all_iff)
  then show ?thesis using Some take_last_facts(1) [of 128 ?ts] take_last_facts(3) [of "\<lambda>s. s" ?ts 128] by (simp add: parse_closed_def)
qed (simp add: parse_closed_def)

lemma parsed_queue: "length (parse_queue v) \<le> 5 \<and> list_all queued_ok (parse_queue v)"
proof (cases "jarray v")
  case (Some xs)
  have "list_all queued_ok (List.map_filter parseQueuedTurn xs)" by (rule map_filter_all [OF parsed_queued])
  then show ?thesis using Some by (auto simp: parse_queue_def list_all_iff dest: in_set_takeD)
qed (simp add: parse_queue_def)

lemma bound_loop_length: "length (bound_loop remaining es bounded) \<le> length bounded + length es"
  by (induction remaining es bounded rule: bound_loop.induct) (fastforce simp: Let_def)+

lemma parsed_retained: "bounded_client_context (parse_retained v)"
proof (cases "jarray v")
  case (Some xs)
  let ?w = "Some (of_nat CODEX_REFERENCE_CONTEXT_WINDOW_TOKENS)"
  define es where "es = filter (\<lambda>e. \<not> is_blank e)
    (List.map_filter id (drop (length xs - AGENT_CLIENT_CONTEXT_MAX_ENTRIES) (map (\<lambda>x. map_option units (jstring (Some x))) xs)))"
  have s: "parse_retained v = (case boundRetainedContext es ?w of None \<Rightarrow> [] | Some c \<Rightarrow> c)"
    by (simp add: parse_retained_def sanitizeRetainedContext_def Some es_def)
  have "length es \<le> length (drop (length xs - AGENT_CLIENT_CONTEXT_MAX_ENTRIES) (map (\<lambda>x. map_option units (jstring (Some x))) xs))"
    unfolding es_def by (rule order_trans [OF length_filter_le length_map_filter])
  then have n: "length es \<le> AGENT_CLIENT_CONTEXT_MAX_ENTRIES" by simp
  have ok: "list_all entry_ok es"
  proof -
    have "well_formed e" if "e \<in> set (List.map_filter id (drop n (map (\<lambda>x. map_option units (jstring (Some x))) xs)))" for e n
      using that by (auto simp: map_filter_def dest!: in_set_dropD) (metis map_option_eq_Some units_well_formed)
    then show ?thesis by (auto simp: es_def list_all_iff entry_ok_def)
  qed
  show ?thesis
  proof (cases "boundRetainedContext es ?w")
    case (Some c)
    then have "length c \<le> length es" using bound_loop_length [of "recoveryContextTokenBudget ?w" "rev es" "[]"]
      by (auto simp: boundRetainedContext_def Let_def split: if_splits)
    with n have "length c \<le> AGENT_CLIENT_CONTEXT_MAX_ENTRIES" by simp
    with bound_fits_guard [OF ok, of ?w] show ?thesis by (simp add: s Some fits_def)
  qed (simp add: s bounded_client_context_def)
qed (simp add: parse_retained_def sanitizeRetainedContext_def bounded_client_context_def)

lemma parsed_pending_option: "pred_option pending_ok (parsePendingTurn v)"
  by (cases "parsePendingTurn v") (simp_all add: parsed_pending)

lemma whole_number_positive: "0 \<le> (case whole_number v of Some n \<Rightarrow> n | None \<Rightarrow> 0)"
  by (auto simp: whole_number_def split: option.split)

lemma parsed_thread: "parseThread as_event now v = Some t \<Longrightarrow> thread_ok t"
proof -
  assume t: "parseThread as_event now v = Some t"
  then obtain i title where "jstring (jget ''id'' v) = Some i" "jstring (jget ''title'' v) = Some title"
    by (cases "jstring (jget ''id'' v)"; cases "jstring (jget ''title'' v)") (simp_all add: parseThread_def)
  note eq = t [unfolded parseThread_def this prod.case option.case Let_def option.inject]
  show ?thesis unfolding eq [symmetric] thread_ok_def thread.select_convs
    by (intro conjI parsed_queue [THEN conjunct1] parsed_queue [THEN conjunct2] parsed_submissions parsed_closed [THEN conjunct1]
      parsed_closed [THEN conjunct2] parsed_interrupted parsed_window parsed_coverage parsed_retained parsed_pending_option
      whole_number_positive max.coboundedI2 of_nat_0_le_iff)
qed

lemma parsed_collection: "collection_ok (parseThreadCollection as_event now v)"
  using map_filter_all [OF parsed_thread, where f = "parseThread as_event now"]
  by (auto simp: parseThreadCollection_def collection_ok_def empty_collection_def Let_def split: option.split)

lemma find_member: "find P xs = Some x \<Longrightarrow> x \<in> set xs"
  by (auto simp: find_Some_iff)

lemma advances_member: "advances ls rs s \<Longrightarrow> s \<in> set ls \<or> s \<in> set rs"
  unfolding advances_def submission_with_def by (auto dest: find_member split: option.splits)

lemma merged_submission_ok:
  assumes "submissions_ok ls" and "submissions_ok rs"
  shows "submissions_ok (mergeInputResponseSubmissions ls rs)"
proof -
  have d: "distinct (map sm_id ls)" "distinct (map sm_id rs)" using assms by (simp_all add: submissions_ok_def)
  have "submission_ok s" if s: "s \<in> set (mergeInputResponseSubmissions ls rs)" for s
  proof -
    have "s \<in> set ls \<or> s \<in> set rs" by (rule advances_member [OF merge_submissions_facts(4) [OF d s]])
    then show ?thesis using assms by (auto simp: submissions_ok_def list_all_iff)
  qed
  with merge_submissions_facts [OF d] show ?thesis by (simp add: submissions_ok_def list_all_iff)
qed

lemma merged_thread_ok: "thread_ok l \<Longrightarrow> thread_ok r \<Longrightarrow> thread_ok (merge_thread js_sort l r)"
  using merged_submission_ok [of "th_submissions l" "th_submissions r"]
  by (simp add: thread_ok_def merge_thread_def Let_def) (simp add: le_max_iff_disj)

lemma merged_active:
  "co_activeThreadId (mergeThreadCollectionsForConflict js_sort local remote) = Some a \<Longrightarrow>
     a \<in> th_id ` set (merged_threads js_sort local remote) \<or> co_activeThreadId remote = Some a"
  by (auto simp: mergeThreadCollectionsForConflict_def merged_threads_def Let_def truthy_def list_ex_iff split: option.splits if_splits)

lemma collection_ok_iff:
  "collection_ok c \<longleftrightarrow> (\<forall>t \<in> set (co_threads c). thread_ok t) \<and> (\<forall>a. co_activeThreadId c = Some a \<longrightarrow> a \<in> th_id ` set (co_threads c))"
  by (cases "co_activeThreadId c") (auto simp: collection_ok_def list_all_iff list_ex_iff)

lemma merged_collection_ok:
  assumes "collection_ok local" and "collection_ok remote" and "distinct (map th_id (co_threads local))" and "distinct (map th_id (co_threads remote))"
  shows "collection_ok (mergeThreadCollectionsForConflict js_sort local remote)"
proof -
  have from_side: "t \<in> set ts" if "thread_with ts i = Some t" for ts i t
    using that unfolding thread_with_def by (rule find_member)
  have "thread_ok t" if t: "t \<in> set (merged_threads js_sort local remote)" for t
  proof -
    have b: "threads.both js_sort (thread_with (co_threads local) (th_id t)) (thread_with (co_threads remote) (th_id t)) = Some t"
      by (rule merged_threads_facts(3) [OF assms(3,4) t])
    show ?thesis
    proof (cases "thread_with (co_threads local) (th_id t)")
      case None
      with b have "thread_with (co_threads remote) (th_id t) = Some t" by (simp add: threads.both_def)
      then show ?thesis using from_side assms(2) by (simp add: collection_ok_iff)
    next
      case (Some l)
      then have l: "thread_ok l" using from_side assms(1) by (simp add: collection_ok_iff)
      show ?thesis
      proof (cases "thread_with (co_threads remote) (th_id t)")
        case None
        with b Some l show ?thesis by (simp add: threads.both_def)
      next
        case (Some r)
        then have "thread_ok r" using from_side assms(2) by (simp add: collection_ok_iff)
        with l have "thread_ok (merge_thread js_sort l r)" by (rule merged_thread_ok)
        with b Some \<open>thread_with (co_threads local) (th_id t) = Some l\<close> show ?thesis by (simp add: threads.both_def)
      qed
    qed
  qed
  moreover have "a \<in> th_id ` set (merged_threads js_sort local remote)"
    if "co_activeThreadId (mergeThreadCollectionsForConflict js_sort local remote) = Some a" for a
    using merged_active [OF that] merged_threads_facts(2) [OF assms(3,4), of js_sort] assms(2) by (auto simp: collection_ok_iff)
  ultimately show ?thesis unfolding collection_ok_iff by (simp add: merged_threads_def)
qed

text \<open>C32 (stored_threads_are_well_formed)
  Whatever JSON was stored, if its strings are of 8-bit characters (so that none holds a lone surrogate; with those the
  token budget of a kept context can be overrun, as lone_surrogates_overrun_the_budget shows), a collection read
  from it is well formed: at most five queued messages, each with the delivery its state needs; a pending edit names its
  turn and the server; answers, closed requests and stopped turns without duplicates and within their bounds;
  windows and cursors in order; a kept context the mailbox accepts; an active thread that is there.  Merging two
  well-formed collections, neither with two threads of one identity, gives a well-formed one.\<close>

theorem stored_threads_are_well_formed:
  "collection_ok (parseThreadCollection as_event now v) \<and>
   (collection_ok local \<and> collection_ok remote \<and> distinct (map th_id (co_threads local)) \<and> distinct (map th_id (co_threads remote)) \<longrightarrow>
     collection_ok (mergeThreadCollectionsForConflict js_sort local remote))"
  using parsed_collection merged_collection_ok by blast

theorem stored_threads_are_well_formed_witness:
  "collection_ok (mergeThreadCollectionsForConflict sort_by demo_local demo_remote) \<and>
   co_activeThreadId (mergeThreadCollectionsForConflict sort_by demo_local demo_remote) = Some ''a''"
proof
  have ok: "collection_ok demo_local" "collection_ok demo_remote"
    and d: "distinct (map th_id (co_threads demo_local))" "distinct (map th_id (co_threads demo_remote))"
    by (simp_all add: demo_local_def demo_remote_def demo_thread_def createAgentThread_def collection_ok_def thread_ok_def
      submissions_ok_def interrupted_ok_def in_submission_order_def bounded_client_context_def)
  show "collection_ok (mergeThreadCollectionsForConflict sort_by demo_local demo_remote)"
    using stored_threads_are_well_formed ok d by blast
  show "co_activeThreadId (mergeThreadCollectionsForConflict sort_by demo_local demo_remote) = Some ''a''" by code_simp
qed

end
