(* ===== verification/Thread_Hydration.thy ===== *)
theory Thread_Hydration
  imports Thread_Collection_Theorems Mailbox_Service
begin

section \<open>A message that was being sent, and the identity of an edit\<close>

text \<open>
  What is left of a pending message when its page is loaded again, and that the identity of an edit is
  one the mailbox takes as it is.
\<close>

subsection \<open>Hydration\<close>

text \<open>The states in which the workspace would send a message again by itself.\<close>

definition would_send :: "pending_turn \<Rightarrow> bool" where
  "would_send p \<longleftrightarrow> pn_state p \<in> {PClearing, PResubmitting, PSubmitting}"

definition server_owned_edit :: "pending_turn \<Rightarrow> bool" where
  "server_owned_edit p \<longleftrightarrow> pn_operation p = Some EditOperation \<and> pn_delivery p = Some Server"

text \<open>The last message of the transcript carries the identity of the pending one.\<close>

definition latest_received :: "thread_event list \<Rightarrow> thread_event option" where
  "latest_received es = find (\<lambda>e. se_type e = MessageReceived) (rev es)"

lemma find_last_index_find: "map_option (nth es) (find_last_index P es) = find P (rev es)"
proof (induction es rule: rev_induct)
  case (snoc e es)
  show ?case
  proof (cases "P e")
    case False
    have "map_option ((!) (es @ [e])) (find_last_index P es) = map_option ((!) es) (find_last_index P es)"
      by (cases "find_last_index P es") (auto simp: nth_append dest: find_last_index_Some)
    with False snoc show ?thesis by (simp add: find_last_index_snoc)
  qed (simp add: find_last_index_snoc nth_append)
qed simp

lemma reconciled_same: "reconcilePendingTurnWithEvents pa (Some p) es = Some q \<Longrightarrow> q = p"
  by (auto simp: reconcilePendingTurnWithEvents_def Let_def split: option.splits if_splits)

lemma acknowledged_dropped:
  assumes "latest_received es = Some e" and "receivedClientMessageId pa e = Some (pn_id p)"
  shows "reconcilePendingTurnWithEvents pa (Some p) es = None"
proof -
  have m: "map_option (nth es) (find_last_index (\<lambda>e. se_type e = MessageReceived) es) = Some e"
    using assms(1) by (simp add: find_last_index_find latest_received_def)
  then obtain i where "find_last_index (\<lambda>e. se_type e = MessageReceived) es = Some i" "es ! i = e" by auto
  with assms(2) show ?thesis by (simp add: reconcilePendingTurnWithEvents_def)
qed

text \<open>C33 (hydration_never_resubmits)
  Loading a page again: a pending message whose identity the last received message carries is dropped;
  whatever is kept is the same message in every field but its state, and either it is an edit the server
  owns or its state is one in which nothing is sent without the user.\<close>

theorem hydration_never_resubmits:
  "(\<forall>e. latest_received es = Some e \<and> receivedClientMessageId pa e = Some (pn_id p) \<longrightarrow> reconcileHydratedPendingTurn pa (Some p) es = None) \<and>
   (\<forall>q. reconcileHydratedPendingTurn pa (Some p) es = Some q \<longrightarrow>
     q\<lparr>pn_state := pn_state p\<rparr> = p \<and> (server_owned_edit q \<or> \<not> would_send q) \<and> (\<not> would_send p \<longrightarrow> q = p))"
proof (intro conjI allI impI)
  fix e assume "latest_received es = Some e \<and> receivedClientMessageId pa e = Some (pn_id p)"
  then show "reconcileHydratedPendingTurn pa (Some p) es = None"
    by (simp add: reconcileHydratedPendingTurn_def acknowledged_dropped)
next
  fix q assume q: "reconcileHydratedPendingTurn pa (Some p) es = Some q"
  then obtain r where r: "reconcilePendingTurnWithEvents pa (Some p) es = Some r"
    by (auto simp: reconcileHydratedPendingTurn_def split: option.splits)
  note r = r [unfolded reconciled_same [OF r]]
  show "q\<lparr>pn_state := pn_state p\<rparr> = p" using q by (auto simp: reconcileHydratedPendingTurn_def r split: if_splits)
  show "server_owned_edit q \<or> \<not> would_send q"
    using q by (auto simp: reconcileHydratedPendingTurn_def r server_owned_edit_def would_send_def split: if_splits)
  show "q = p" if "\<not> would_send p" using q that
    by (auto simp: reconcileHydratedPendingTurn_def r would_send_def split: if_splits)
qed

definition no_envelope :: "string \<Rightarrow> asset_prompt" where
  "no_envelope s = \<lparr>ap_text = js_trim s, ap_assets = [], ap_clientMessageId = None\<rparr>"

definition received :: "string \<Rightarrow> string \<Rightarrow> thread_event" where
  "received i message = stream_event.extend ((bare_event MessageReceived)\<lparr>se_clientMessageId := Some i, se_message := Some message\<rparr>) \<lparr>te_cursor = None\<rparr>"

definition sending :: "string \<Rightarrow> pending_turn" where
  "sending i = \<lparr>pn_beforeTurnId = None, pn_delivery = Some Browser, pn_eventCountAtSubmission = Some 0, pn_files = [], pn_id = i,
     pn_mailboxItemId = None, pn_operation = None, pn_state = PSubmitting, pn_submittedAt = 0, pn_text = ''hello''\<rparr>"

theorem hydration_never_resubmits_witness:
  "reconcileHydratedPendingTurn no_envelope (Some (sending ''m1'')) [received ''m1'' ''hello''] = None \<and>
   \<not> would_send (the (reconcileHydratedPendingTurn no_envelope (Some (sending ''m1'')) []))"
proof
  have "latest_received [received ''m1'' ''hello''] = Some (received ''m1'' ''hello'') \<and>
      receivedClientMessageId no_envelope (received ''m1'' ''hello'') = Some (pn_id (sending ''m1''))" by code_simp
  with hydration_never_resubmits show "reconcileHydratedPendingTurn no_envelope (Some (sending ''m1'')) [received ''m1'' ''hello''] = None"
    by blast
  have "reconcileHydratedPendingTurn no_envelope (Some (sending ''m1'')) [] = Some (sending ''m1''\<lparr>pn_state := PDeliveryFailed\<rparr>)"
    by code_simp
  then show "\<not> would_send (the (reconcileHydratedPendingTurn no_envelope (Some (sending ''m1'')) []))"
    by (simp add: would_send_def)
qed

text \<open>Remark (accepted_message_reported_as_failed)
  Only the last received message is compared.  A message that the transcript has accepted under its own
  identity, followed by another one, is taken for undelivered when the page loads, and offered for a
  second delivery.\<close>

theorem accepted_message_reported_as_failed:
  "let es = [received ''m1'' ''hello'', received ''m2'' ''and this'']
   in list_ex (\<lambda>e. receivedClientMessageId no_envelope e = Some (pn_id (sending ''m1''))) es \<and>
      map_option pn_state (reconcileHydratedPendingTurn no_envelope (Some (sending ''m1'')) es) = Some PDeliveryFailed"
  by code_simp

subsection \<open>The identity of an edit\<close>

lemma hex_digit_id: "n < 16 \<Longrightarrow> is_id_char (hex_digit n)"
proof -
  assume "n < 16"
  then have "n \<in> set [0..<16]" by simp
  moreover have "list_all (\<lambda>n. is_id_char (hex_digit n)) [0..<16]" by code_simp
  ultimately show ?thesis unfolding list_all_iff by (metis (no_types, lifting))
qed

lemma hex_digits_facts: "length (hex_digits k n) = k \<and> list_all is_id_char (hex_digits k n)"
  by (induction k arbitrary: n) (simp_all add: hex_digit_id)

lemma dropWhile_none: "list_all (\<lambda>c. \<not> P c) s \<Longrightarrow> dropWhile P s = s"
  by (cases s) simp_all

lemma trim_identity: "list_all is_id_char s \<Longrightarrow> js_trim s = s"
proof -
  assume "list_all is_id_char s"
  moreover have "\<not> is_js_space c" if "is_id_char c" for c
    using that alnum_not_space [of c] by (auto simp: is_id_char_def is_js_space_def)
  ultimately have "list_all (\<lambda>c. \<not> is_js_space c) s" by (auto simp: list_all_iff)
  then show ?thesis by (simp add: js_trim_def dropWhile_none)
qed

text \<open>Remark (edit_identity_is_accepted)
  The identity computed for an edit is 21 characters long and depends on the edit alone, and the mailbox
  takes it as the client's message identity without changing it, so a retried edit is the same message.\<close>

theorem edit_identity_is_accepted:
  "parseClientMessageId (editOperationId sessionId beforeTurnId t) = Inr (editOperationId sessionId beforeTurnId t) \<and>
   length (editOperationId sessionId beforeTurnId t) = 21"
proof -
  obtain a b where e: "editOperationId sessionId beforeTurnId t = ''edit-'' @ toHex a @ toHex b"
    unfolding editOperationId_def Let_def
    by (cases "foldl hash_step (0x811C9DC5, 0x9E3779B9) (zip [0..<length (edit_input sessionId beforeTurnId t)] (edit_input sessionId beforeTurnId t))")
      (simp only: prod.case)
  have d: "list_all is_id_char ''edit-''" by code_simp
  then have ids: "list_all is_id_char (''edit-'' @ toHex a @ toHex b)" using hex_digits_facts by (simp add: toHex_def)
  have n: "length (toHex a @ toHex b) = 16" using hex_digits_facts by (simp add: toHex_def)
  have "matches_id 7 199 (''edit-'' @ toHex a @ toHex b)"
    using ids n by (simp add: matches_id_def) (simp add: is_alnum_def is_lower_def)
  then show ?thesis using trim_identity [OF ids] n by (simp add: e parseClientMessageId_def)
qed

end
