(* ===== verification/Sandbox_Admission.thy ===== *)
theory Sandbox_Admission
  imports Json
begin

section \<open>The admission of sandboxes (lib/sandbox-admission-backend.ts)\<close>

text \<open>
  A host runs a bounded number of sandboxes.  \<open>withSandboxAdmission\<close> wraps a backend: a session that has
  no permit waits in line, and the last handle of a session that is shut down gives its permit to the
  next one in line.  The promises of the code are made explicit: a call of \<^verbatim>\<open>create\<close> runs to its first
  \<^verbatim>\<open>await\<close>, is resumed when the admission of its session is settled, and then waits for the backend.
  Between these points any other call can run.
\<close>

subsection \<open>State\<close>

datatype refusal = QueueFull | TimedOut

text \<open>The promise \<^verbatim>\<open>admission\<close> of a session.\<close>

datatype admission = Pending | Granted | Refused refusal

record active_session =
  as_admitted :: bool
  as_admission :: admission
  as_references :: nat

record admission_stats =
  ss_activeSessions :: int
  ss_limit :: nat
  ss_queuedSessions :: nat

record admission_config =
  ac_limit :: nat
  ac_maxQueued :: nat

text \<open>
  The closure's variables.  A session object is named by a number, the map \<^verbatim>\<open>active\<close> is a list of keys and
  names, and a waiter is the name of its session.
\<close>

record gate =
  ga_active :: "(string \<times> nat) list"
  ga_sessions :: "nat \<Rightarrow> active_session"
  ga_next :: nat
  ga_waiters :: "nat list"
  ga_permits :: int
  ga_stats :: "admission_stats option"

definition fresh_session :: active_session where
  "fresh_session = \<lparr>as_admitted = False, as_admission = Pending, as_references = 0\<rparr>"

definition new_gate :: gate where
  "new_gate = \<lparr>ga_active = [], ga_sessions = (\<lambda>_. fresh_session), ga_next = 0, ga_waiters = [], ga_permits = 0, ga_stats = None\<rparr>"

text \<open>The checks of the wrapper on its own arguments; \<open>None\<close> is an absent option.\<close>

definition is_safe_integer :: "rat \<Rightarrow> bool" where
  "is_safe_integer x \<longleftrightarrow> x = of_int \<lfloor>x\<rfloor> \<and> \<bar>x\<bar> \<le> of_int MAX_SAFE_INTEGER"

definition withSandboxAdmission :: "rat \<Rightarrow> rat \<Rightarrow> rat option \<Rightarrow> (string, admission_config) sum" where
  "withSandboxAdmission limit timeoutMs maxQueued0 =
     (if \<not> is_safe_integer limit \<or> limit < 1 then Inl ''sandbox admission limit must be a positive integer.''
      else if \<not> is_safe_integer timeoutMs \<or> timeoutMs < 1 then Inl ''sandbox admission timeoutMs must be a positive integer.''
      else let maxQueued = (case maxQueued0 of Some n \<Rightarrow> n | None \<Rightarrow> max 1024 (limit * 128))
        in if \<not> is_safe_integer maxQueued \<or> maxQueued < 1 \<or> maxQueued > 100000
           then Inl ''sandbox admission maxQueued must be an integer from 1 to 100000.''
           else Inr \<lparr>ac_limit = nat \<lfloor>limit\<rfloor>, ac_maxQueued = nat \<lfloor>maxQueued\<rfloor>\<rparr>)"

text \<open>
  The deployment's limits (lib/production-config.ts).  \<^verbatim>\<open>Number\<close> of a text is a parameter, with \<open>None\<close> for a
  value that is not finite.
\<close>

record admission_limits =
  al_maxActive :: rat
  al_maxQueued :: rat
  al_timeoutMs :: rat

definition DEFAULT_AGENT_SANDBOX_MAX_ACTIVE :: rat where "DEFAULT_AGENT_SANDBOX_MAX_ACTIVE = 2"
definition DEFAULT_AGENT_SANDBOX_MAX_QUEUED :: rat where "DEFAULT_AGENT_SANDBOX_MAX_QUEUED = 1024"
definition DEFAULT_AGENT_SANDBOX_ADMISSION_TIMEOUT_MS :: rat where "DEFAULT_AGENT_SANDBOX_ADMISSION_TIMEOUT_MS = 30000"

text \<open>A setting: its text without spaces, absent when it is empty.\<close>

definition setting :: "(string \<Rightarrow> string option) \<Rightarrow> string \<Rightarrow> string option" where
  "setting environment name = truthy (map_option js_trim (environment name))"

definition number_setting :: "(string \<Rightarrow> rat option) \<Rightarrow> string option \<Rightarrow> rat \<Rightarrow> rat option" where
  "number_setting to_number raw fallback = (case raw of None \<Rightarrow> Some fallback | Some s \<Rightarrow> to_number s)"

definition in_range :: "rat \<Rightarrow> rat \<Rightarrow> rat option \<Rightarrow> rat option" where
  "in_range lo hi v = (case v of None \<Rightarrow> None | Some x \<Rightarrow> if \<not> is_safe_integer x \<or> x < lo \<or> x > hi then None else Some x)"

definition readAgentSandboxAdmissionConfig ::
  "(string \<Rightarrow> rat option) \<Rightarrow> (string \<Rightarrow> string option) \<Rightarrow> (string, admission_limits) sum" where
  "readAgentSandboxAdmissionConfig to_number environment =
     (let active = setting environment ''AGENT_SANDBOX_MAX_ACTIVE''; queued = setting environment ''AGENT_SANDBOX_MAX_QUEUED'';
          timeout = setting environment ''AGENT_SANDBOX_ADMISSION_TIMEOUT_MS''
      in if environment ''NODE_ENV'' = Some ''production'' \<and> (active = None \<or> queued = None \<or> timeout = None)
         then Inl ''AGENT_SANDBOX_MAX_ACTIVE, AGENT_SANDBOX_MAX_QUEUED, and AGENT_SANDBOX_ADMISSION_TIMEOUT_MS must be explicitly configured in production.''
         else case in_range 1 10000 (number_setting to_number active DEFAULT_AGENT_SANDBOX_MAX_ACTIVE) of
             None \<Rightarrow> Inl ''AGENT_SANDBOX_MAX_ACTIVE must be an integer from 1 to 10000.''
           | Some maxActive \<Rightarrow>
         (case in_range 1 100000 (number_setting to_number queued DEFAULT_AGENT_SANDBOX_MAX_QUEUED) of
             None \<Rightarrow> Inl ''AGENT_SANDBOX_MAX_QUEUED must be an integer from 1 to 100000.''
           | Some maxQueued \<Rightarrow>
         (case in_range 1000 300000 (number_setting to_number timeout DEFAULT_AGENT_SANDBOX_ADMISSION_TIMEOUT_MS) of
             None \<Rightarrow> Inl ''AGENT_SANDBOX_ADMISSION_TIMEOUT_MS must be an integer from 1000 to 300000.''
           | Some timeoutMs \<Rightarrow> Inr \<lparr>al_maxActive = maxActive, al_maxQueued = maxQueued, al_timeoutMs = timeoutMs\<rparr>)))"

definition publishStats :: "admission_config \<Rightarrow> gate \<Rightarrow> gate" where
  "publishStats c g = g\<lparr>ga_stats := Some \<lparr>ss_activeSessions = ga_permits g, ss_limit = ac_limit c, ss_queuedSessions = length (ga_waiters g)\<rparr>\<rparr>"

definition getSandboxAdmissionStats :: "gate \<Rightarrow> admission_stats option" where
  "getSandboxAdmissionStats = ga_stats"

definition update_session :: "nat \<Rightarrow> (active_session \<Rightarrow> active_session) \<Rightarrow> gate \<Rightarrow> gate" where
  "update_session s f g = g\<lparr>ga_sessions := (ga_sessions g)(s := f (ga_sessions g s))\<rparr>"

definition settle :: "nat \<Rightarrow> admission \<Rightarrow> gate \<Rightarrow> gate" where
  "settle s a = update_session s (\<lambda>x. x\<lparr>as_admission := a\<rparr>)"

definition delete_key :: "string \<Rightarrow> gate \<Rightarrow> gate" where
  "delete_key k g = g\<lparr>ga_active := filter (\<lambda>(k', _). k' \<noteq> k) (ga_active g)\<rparr>"

subsection \<open>Operations\<close>

text \<open>\<^verbatim>\<open>acquire()\<close>, up to where it waits: at once, refused, or at the end of the line.\<close>

definition acquire :: "admission_config \<Rightarrow> nat \<Rightarrow> gate \<Rightarrow> gate" where
  "acquire c s g =
     (if ga_permits g < int (ac_limit c) \<and> ga_waiters g = [] then settle s Granted (g\<lparr>ga_permits := ga_permits g + 1\<rparr>)
      else if length (ga_waiters g) \<ge> ac_maxQueued c then settle s (Refused QueueFull) g
      else publishStats c (g\<lparr>ga_waiters := ga_waiters g @ [s]\<rparr>))"

text \<open>The timer of a waiter.\<close>

definition waiter_timeout :: "admission_config \<Rightarrow> nat \<Rightarrow> gate \<Rightarrow> gate" where
  "waiter_timeout c s g = settle s (Refused TimedOut) (publishStats c (g\<lparr>ga_waiters := remove1 s (ga_waiters g)\<rparr>))"

text \<open>\<^verbatim>\<open>create\<close> up to \<^verbatim>\<open>await session.admission\<close>: the session that is active under the key, or a new one.\<close>

definition create_enter :: "admission_config \<Rightarrow> string \<Rightarrow> gate \<Rightarrow> nat \<times> gate" where
  "create_enter c k g = (case map_of (ga_active g) k of
       Some s \<Rightarrow> (s, g)
     | None \<Rightarrow> let s = ga_next g;
                   g1 = acquire c s (g\<lparr>ga_next := Suc s, ga_sessions := (ga_sessions g)(s := fresh_session)\<rparr>)
               in (s, g1\<lparr>ga_active := ga_active g1 @ [(k, s)]\<rparr>))"

text \<open>The rest of \<^verbatim>\<open>create\<close> up to the call of the backend, for either outcome of the wait.\<close>

definition create_admitted :: "admission_config \<Rightarrow> nat \<Rightarrow> gate \<Rightarrow> gate" where
  "create_admitted c s g =
     publishStats c (update_session s (\<lambda>x. x\<lparr>as_admitted := True, as_references := as_references x + 1\<rparr>) g)"

definition create_refused :: "admission_config \<Rightarrow> string \<Rightarrow> nat \<Rightarrow> gate \<Rightarrow> gate" where
  "create_refused c k s g = publishStats c (if map_of (ga_active g) k = Some s then delete_key k g else g)"

definition release :: "admission_config \<Rightarrow> string \<Rightarrow> nat \<Rightarrow> gate \<Rightarrow> gate" where
  "release c k s g =
     (if map_of (ga_active g) k \<noteq> Some s \<or> as_references (ga_sessions g s) = 0 then g
      else let g1 = update_session s (\<lambda>x. x\<lparr>as_references := as_references x - 1\<rparr>) g
        in if as_references (ga_sessions g1 s) > 0 then publishStats c g1
           else let g2 = delete_key k g1;
                    g3 = (if as_admitted (ga_sessions g2 s) then g2\<lparr>ga_permits := ga_permits g2 - 1\<rparr> else g2)
             in publishStats c (case ga_waiters g3 of [] \<Rightarrow> g3
               | w # ws \<Rightarrow> settle w Granted (g3\<lparr>ga_waiters := ws, ga_permits := ga_permits g3 + 1\<rparr>)))"

subsection \<open>Interleavings\<close>

text \<open>Calls that wait for their admission, calls that wait for the backend, and handles that are live.\<close>

record world =
  w_gate :: gate
  w_calls :: "(string \<times> nat) list"
  w_allocating :: "(string \<times> nat) list"
  w_live :: "(string \<times> nat) list"

definition new_world :: world where
  "new_world = \<lparr>w_gate = new_gate, w_calls = [], w_allocating = [], w_live = []\<rparr>"

text \<open>
  What can happen next.  A handle whose shutdown fails stays live and its permit held, so that is no
  event; a handle that was shut down answers a second call with the same promise.
\<close>

datatype event = Create string | Resume string nat | Allocated string nat | AllocationFailed string nat
  | ShutDown string nat | WaiterTimeout nat

definition release_in :: "admission_config \<Rightarrow> string \<Rightarrow> nat \<Rightarrow> world \<Rightarrow> world" where
  "release_in c k s w = w\<lparr>w_gate := release c k s (w_gate w)\<rparr>"

fun perform :: "admission_config \<Rightarrow> event \<Rightarrow> world \<Rightarrow> world option" where
  "perform c (Create k) w =
     (case create_enter c k (w_gate w) of (s, g) \<Rightarrow> Some (w\<lparr>w_gate := g, w_calls := (k, s) # w_calls w\<rparr>))"
| "perform c (Resume k s) w =
     (if (k, s) \<notin> set (w_calls w) then None
      else let w1 = w\<lparr>w_calls := remove1 (k, s) (w_calls w)\<rparr> in
        case as_admission (ga_sessions (w_gate w) s) of
          Pending \<Rightarrow> None
        | Granted \<Rightarrow> Some (w1\<lparr>w_gate := create_admitted c s (w_gate w), w_allocating := (k, s) # w_allocating w\<rparr>)
        | Refused r \<Rightarrow> Some (w1\<lparr>w_gate := create_refused c k s (w_gate w)\<rparr>))"
| "perform c (Allocated k s) w =
     (if (k, s) \<notin> set (w_allocating w) then None
      else Some (w\<lparr>w_allocating := remove1 (k, s) (w_allocating w), w_live := (k, s) # w_live w\<rparr>))"
| "perform c (AllocationFailed k s) w =
     (if (k, s) \<notin> set (w_allocating w) then None
      else Some (release_in c k s (w\<lparr>w_allocating := remove1 (k, s) (w_allocating w)\<rparr>)))"
| "perform c (ShutDown k s) w =
     (if (k, s) \<notin> set (w_live w) then None
      else Some (release_in c k s (w\<lparr>w_live := remove1 (k, s) (w_live w)\<rparr>)))"
| "perform c (WaiterTimeout s) w =
     (if s \<notin> set (ga_waiters (w_gate w)) then None else Some (w\<lparr>w_gate := waiter_timeout c s (w_gate w)\<rparr>))"

inductive reachable :: "admission_config \<Rightarrow> world \<Rightarrow> bool" for c where
  start: "reachable c new_world"
| step: "reachable c w \<Longrightarrow> perform c e w = Some w' \<Longrightarrow> reachable c w'"

text \<open>A sequence of events, for the examples.\<close>

fun perform_all :: "admission_config \<Rightarrow> event list \<Rightarrow> world \<Rightarrow> world option" where
  "perform_all c [] w = Some w"
| "perform_all c (e # es) w = (case perform c e w of None \<Rightarrow> None | Some w' \<Rightarrow> perform_all c es w')"

lemma perform_all_reachable: "reachable c w \<Longrightarrow> perform_all c es w = Some w' \<Longrightarrow> reachable c w'"
  by (induction es arbitrary: w) (auto split: option.splits intro: reachable.step)

end
