(* ===== verification/Sandbox_Theorems.thy ===== *)
theory Sandbox_Theorems
  imports Sandbox_Admission
begin

section \<open>Properties of the admission of sandboxes\<close>

text \<open>
  The invariant of the gate is stated against what the calls around it hold: how many handles and
  allocations each session has, who uses it, and which calls still wait.
\<close>

subsection \<open>The invariant\<close>

definition granted :: "gate \<Rightarrow> nat \<Rightarrow> bool" where
  "granted g s \<longleftrightarrow> as_admission (ga_sessions g s) = Granted"

definition waiting :: "gate \<Rightarrow> nat \<Rightarrow> bool" where
  "waiting g s \<longleftrightarrow> as_admission (ga_sessions g s) = Pending"

definition references :: "gate \<Rightarrow> nat \<Rightarrow> nat" where
  "references g s = as_references (ga_sessions g s)"

definition active_ids :: "gate \<Rightarrow> nat set" where
  "active_ids g = snd ` set (ga_active g)"

definition permit_holders :: "gate \<Rightarrow> nat set" where
  "permit_holders g = {s \<in> active_ids g. granted g s}"

text \<open>The map of active sessions.\<close>

definition names_ok :: "(string \<times> nat) set \<Rightarrow> gate \<Rightarrow> bool" where
  "names_ok users g \<longleftrightarrow> distinct (map fst (ga_active g)) \<and> distinct (map snd (ga_active g)) \<and>
     (\<forall>s \<in> active_ids g. s < ga_next g) \<and> (\<forall>(k, s) \<in> users. s < ga_next g) \<and>
     (\<forall>k k' s. (k, s) \<in> set (ga_active g) \<longrightarrow> (k', s) \<in> users \<longrightarrow> k' = k)"

text \<open>The permits and the line.\<close>

definition permits_ok :: "admission_config \<Rightarrow> gate \<Rightarrow> bool" where
  "permits_ok c g \<longleftrightarrow> ga_permits g = int (card (permit_holders g)) \<and> ga_permits g \<le> int (ac_limit c) \<and>
     length (ga_waiters g) \<le> ac_maxQueued c \<and> (ga_waiters g \<noteq> [] \<longrightarrow> ga_permits g = int (ac_limit c))"

definition line_ok :: "gate \<Rightarrow> bool" where
  "line_ok g \<longleftrightarrow> distinct (ga_waiters g) \<and> set (ga_waiters g) = {s \<in> active_ids g. waiting g s}"

text \<open>The counts of a session that is active.\<close>

definition counts_ok :: "(nat \<Rightarrow> nat) \<Rightarrow> (string \<times> nat) set \<Rightarrow> gate \<Rightarrow> bool" where
  "counts_ok held calls g \<longleftrightarrow> (\<forall>(k, s) \<in> set (ga_active g). references g s = held s \<and>
     (held s > 0 \<longrightarrow> as_admitted (ga_sessions g s) \<and> granted g s) \<and> (held s = 0 \<longrightarrow> (k, s) \<in> calls))"

definition gate_ok :: "admission_config \<Rightarrow> (nat \<Rightarrow> nat) \<Rightarrow> (string \<times> nat) set \<Rightarrow> (string \<times> nat) set \<Rightarrow> gate \<Rightarrow> bool" where
  "gate_ok c held users calls g \<longleftrightarrow> names_ok users g \<and> permits_ok c g \<and> line_ok g \<and> counts_ok held calls g"

lemmas gate_defs = gate_ok_def names_ok_def permits_ok_def line_ok_def counts_ok_def permit_holders_def active_ids_def
  granted_def waiting_def references_def

lemmas op_defs = publishStats_def settle_def update_session_def delete_key_def

lemma published [simp]:
  "gate_ok c held users calls (publishStats c' g) = gate_ok c held users calls g"
  "ga_active (publishStats c' g) = ga_active g" "ga_waiters (publishStats c' g) = ga_waiters g"
  "ga_permits (publishStats c' g) = ga_permits g" "ga_sessions (publishStats c' g) = ga_sessions g"
  "ga_next (publishStats c' g) = ga_next g"
  by (simp_all add: gate_defs publishStats_def)

lemma active_finite [simp]: "finite (active_ids g)" "finite (permit_holders g)"
  by (simp_all add: active_ids_def permit_holders_def)

lemma active_get: "gate_ok c held users calls g \<Longrightarrow> map_of (ga_active g) k = Some s \<longleftrightarrow> (k, s) \<in> set (ga_active g)"
  by (simp add: gate_defs)

lemma active_idsI: "(k, t) \<in> set (ga_active g) \<Longrightarrow> t \<in> active_ids g"
  unfolding active_ids_def by force

lemma active_idsE: "t \<in> active_ids g \<Longrightarrow> \<exists>k. (k, t) \<in> set (ga_active g)"
  unfolding active_ids_def by force

text \<open>The user of an active session names its key.\<close>

lemma active_key: "gate_ok c held users calls g \<Longrightarrow> (k, s) \<in> users \<Longrightarrow> s \<in> active_ids g \<Longrightarrow> map_of (ga_active g) k = Some s"
  by (fastforce simp: gate_ok_def names_ok_def active_ids_def)

subsection \<open>The steps\<close>

lemma same_name: "distinct (map snd xs) \<Longrightarrow> (k, s) \<in> set xs \<Longrightarrow> (k', s) \<in> set xs \<Longrightarrow> k' = k"
  by (induction xs) force+

lemma names_okI:
  assumes "distinct (map fst (ga_active g))" and "distinct (map snd (ga_active g))"
    and "\<And>k s. (k, s) \<in> set (ga_active g) \<Longrightarrow> s < ga_next g" and "\<And>k s. (k, s) \<in> users \<Longrightarrow> s < ga_next g"
    and "\<And>k k' s. (k, s) \<in> set (ga_active g) \<Longrightarrow> (k', s) \<in> users \<Longrightarrow> k' = k"
  shows "names_ok users g"
  unfolding names_ok_def active_ids_def
proof (intro conjI ballI allI impI assms(1,2))
  show "s < ga_next g" if "s \<in> snd ` set (ga_active g)" for s using that assms(3) by auto
  show "case x of (k, s) \<Rightarrow> s < ga_next g" if "x \<in> users" for x using that assms(4) by (cases x) simp
qed (use assms(5) in blast)

lemma names_okD:
  assumes "names_ok users g"
  shows "distinct (map fst (ga_active g))" "distinct (map snd (ga_active g))"
    "(k, s) \<in> set (ga_active g) \<Longrightarrow> s < ga_next g" "(k, s) \<in> users \<Longrightarrow> s < ga_next g"
    "(k, s) \<in> set (ga_active g) \<Longrightarrow> (k', s) \<in> users \<Longrightarrow> k' = k"
  using assms by (auto simp: names_ok_def active_ids_def)

lemma active_not_next: "gate_ok c held users calls g \<Longrightarrow> ga_next g \<notin> active_ids g"
  by (auto simp: gate_ok_def names_ok_def)

lemma enter_ok:
  assumes ok: "gate_ok c held users calls g" and e: "create_enter c k g = (s, g')" and held: "\<And>s. held s > 0 \<Longrightarrow> s < ga_next g"
  shows "gate_ok c held (insert (k, s) users) (insert (k, s) calls) g' \<and> ga_next g \<le> ga_next g'"
proof (cases "map_of (ga_active g) k")
  case (Some s')
  with e have s: "s' = s" "g' = g" by (simp_all add: create_enter_def)
  have "(k, s) \<in> set (ga_active g)" using Some s active_get [OF ok] by simp
  moreover have "names_ok (insert (k, s) users) g"
  proof -
    have n: "names_ok users g" using ok by (simp add: gate_ok_def)
    show ?thesis
      by (rule names_okI) (use names_okD [OF n] calculation same_name [OF names_okD(2) [OF n] calculation] in blast)+
  qed
  ultimately show ?thesis using ok s by (auto simp: gate_ok_def counts_ok_def)
next
  case None
  define h where "h = g\<lparr>ga_next := Suc (ga_next g), ga_sessions := (ga_sessions g)(ga_next g := fresh_session)\<rparr>"
  have g': "s = ga_next g" "g' = (acquire c s h)\<lparr>ga_active := ga_active g @ [(k, s)]\<rparr>"
  proof -
    have "ga_active (acquire c s h) = ga_active g" for s
      by (simp add: acquire_def h_def op_defs)
    then show "s = ga_next g" "g' = (acquire c s h)\<lparr>ga_active := ga_active g @ [(k, s)]\<rparr>"
      using e None by (auto simp: create_enter_def h_def [symmetric] Let_def)
  qed
  have k: "k \<notin> fst ` set (ga_active g)" using None by (simp add: map_of_eq_None_iff)
  have fresh: "s \<notin> active_ids g" "s \<notin> snd ` set (ga_active g)" using ok active_not_next g' by (auto simp: active_ids_def)
  have hs: "held s = 0" using held [of s] g' by auto
  have users: "\<And>k'. (k', s) \<notin> users" using ok g' by (auto simp: gate_ok_def names_ok_def)
  let ?out = "if ga_permits g < int (ac_limit c) \<and> ga_waiters g = [] then Granted
    else if length (ga_waiters g) \<ge> ac_maxQueued c then Refused QueueFull else Pending"
  have sess: "ga_sessions g' = (ga_sessions g)(s := fresh_session\<lparr>as_admission := ?out\<rparr>)"
    by (auto simp: g' acquire_def h_def op_defs fresh_session_def)
  have act: "ga_active g' = ga_active g @ [(k, s)]" by (simp add: g')
  have nxt: "ga_next g' = Suc s" by (simp add: g' acquire_def h_def op_defs)
  have perm: "ga_permits g' = (if ?out = Granted then ga_permits g + 1 else ga_permits g)"
    by (simp add: g' acquire_def h_def op_defs)
  have wait: "ga_waiters g' = (if ?out = Pending then ga_waiters g @ [s] else ga_waiters g)"
    by (simp add: g' acquire_def h_def op_defs)
  have old: "s' \<in> active_ids g \<Longrightarrow> ga_sessions g' s' = ga_sessions g s'" for s' using fresh sess by auto
  have ids: "active_ids g' = insert s (active_ids g)" by (simp add: active_ids_def act)
  have names: "names_ok (insert (k, s) users) g'"
    using ok k fresh(2) users g'(1)
    by (fastforce simp: gate_ok_def names_ok_def act nxt ids active_ids_def)
  have holders: "permit_holders g' = (if ?out = Granted then insert s (permit_holders g) else permit_holders g)"
    using old fresh(1) sess by (auto simp: permit_holders_def ids granted_def)
  have "s \<notin> permit_holders g" using fresh by (simp add: permit_holders_def)
  then have permits: "permits_ok c g'"
    using ok by (auto simp: gate_ok_def permits_ok_def perm wait holders)
  have pend: "{t \<in> active_ids g'. waiting g' t} = (if ?out = Pending then insert s {t \<in> active_ids g. waiting g t} else {t \<in> active_ids g. waiting g t})"
    using old fresh(1) sess by (auto simp: ids waiting_def)
  have "s \<notin> set (ga_waiters g)" using ok fresh by (auto simp: gate_ok_def line_ok_def)
  then have line: "line_ok g'" using ok by (simp add: gate_ok_def line_ok_def pend wait)
  have counts: "counts_ok held (insert (k, s) calls) g'"
  proof -
    have "references g' t = held t \<and> (held t > 0 \<longrightarrow> as_admitted (ga_sessions g' t) \<and> granted g' t) \<and>
        (held t = 0 \<longrightarrow> (k', t) \<in> insert (k, s) calls)" if "(k', t) \<in> set (ga_active g')" for k' t
    proof (cases "t = s")
      case True
      with that have "(k', s) \<in> set (ga_active g) \<or> k' = k" by (auto simp: act)
      moreover have "(k', s) \<notin> set (ga_active g)" using fresh(2) by (metis rev_image_eqI snd_conv)
      ultimately have "k' = k" by blast
      with True show ?thesis using hs by (simp add: references_def sess fresh_session_def)
    next
      case False
      with that have t: "(k', t) \<in> set (ga_active g)" by (auto simp: act)
      then have "ga_sessions g' t = ga_sessions g t" by (rule old [OF active_idsI])
      with t ok show ?thesis by (auto simp: gate_ok_def counts_ok_def references_def granted_def)
    qed
    then show ?thesis by (auto simp: counts_ok_def)
  qed
  show ?thesis using names permits line counts nxt g'(1) by (simp add: gate_ok_def)
qed

lemma permits_keep:
  assumes "permits_ok c g" and "permit_holders h = permit_holders g" and "ga_permits h = ga_permits g"
    and "length (ga_waiters h) \<le> length (ga_waiters g)" and "ga_waiters g = [] \<Longrightarrow> ga_waiters h = []"
  shows "permits_ok c h"
  using assms unfolding permits_ok_def by (metis order_trans)

lemma counts_onlyif:
  assumes "gate_ok c held users calls g" and "(k, s) \<in> set (ga_active g)"
  shows "references g s = held s" and "held s > 0 \<Longrightarrow> as_admitted (ga_sessions g s) \<and> granted g s"
    and "held s = 0 \<Longrightarrow> (k, s) \<in> calls"
  using assms by (auto simp: gate_ok_def counts_ok_def)

lemma admitted_ok:
  assumes ok: "gate_ok c held users calls g" and s: "granted g s" and c': "calls - {(k, s)} \<subseteq> calls'"
  shows "gate_ok c (held(s := held s + 1)) users calls' (create_admitted c s g)"
proof -
  define h where "h = update_session s (\<lambda>x. x\<lparr>as_admitted := True, as_references := as_references x + 1\<rparr>) g"
  have same: "ga_active h = ga_active g" "ga_waiters h = ga_waiters g" "ga_permits h = ga_permits g" "ga_next h = ga_next g"
    by (simp_all add: h_def update_session_def)
  have sess: "ga_sessions h = (ga_sessions g)(s := (ga_sessions g s)\<lparr>as_admitted := True, as_references := references g s + 1\<rparr>)"
    by (simp add: h_def update_session_def references_def)
  have adm: "granted h = granted g" "waiting h = waiting g" by (auto simp: granted_def waiting_def sess fun_eq_iff)
  have "counts_ok (held(s := held s + 1)) calls' h"
    using counts_onlyif [OF ok] s c' by (auto simp: counts_ok_def same references_def sess adm)
  moreover have "permits_ok c h"
    by (rule permits_keep [of c g]) (use ok in \<open>simp_all add: gate_ok_def same permit_holders_def active_ids_def adm\<close>)
  ultimately have "gate_ok c (held(s := held s + 1)) users calls' h"
    using ok by (simp add: gate_ok_def names_ok_def line_ok_def active_ids_def same adm)
  then show ?thesis by (simp add: create_admitted_def h_def)
qed

lemma gate_calls:
  assumes ok: "gate_ok c held users calls g" and "users' \<subseteq> users" and "\<And>k t. (k, t) \<in> set (ga_active g) \<Longrightarrow> held t = 0 \<Longrightarrow> (k, t) \<in> calls'"
  shows "gate_ok c held users' calls' g"
proof -
  have "names_ok users' g" using ok assms(2) by (auto simp: gate_ok_def names_ok_def)
  moreover have "counts_ok held calls' g" using ok assms(3) by (auto simp: gate_ok_def counts_ok_def)
  ultimately show ?thesis using ok by (simp add: gate_ok_def)
qed

text \<open>What deleting the entry of a session without a waiter leaves.\<close>

lemma deleted_facts:
  assumes ok: "gate_ok c held users calls g" and a: "(k, s) \<in> set (ga_active g)"
  shows "set (filter (\<lambda>(k', _). k' \<noteq> k) (ga_active g)) = set (ga_active g) - {(k, s)}"
    and "snd ` (set (ga_active g) - {(k, s)}) = active_ids g - {s}"
    and "distinct (map fst (filter (\<lambda>(k', _). k' \<noteq> k) (ga_active g)))" "distinct (map snd (filter (\<lambda>(k', _). k' \<noteq> k) (ga_active g)))"
proof -
  have d: "distinct (map fst (ga_active g))" "distinct (map snd (ga_active g))" using ok by (simp_all add: gate_ok_def names_ok_def)
  have m: "map_of (ga_active g) k = Some s" using a active_get [OF ok] by simp
  show "set (filter (\<lambda>(k', _). k' \<noteq> k) (ga_active g)) = set (ga_active g) - {(k, s)}"
  proof -
    have "t = s" if "(k, t) \<in> set (ga_active g)" for t using that m active_get [OF ok, of k t] by simp
    then show ?thesis by auto
  qed
  show "snd ` (set (ga_active g) - {(k, s)}) = active_ids g - {s}"
  proof -
    have "k' = k" if "(k', s) \<in> set (ga_active g)" for k' by (rule same_name [OF d(2) a that])
    then show ?thesis unfolding active_ids_def by force
  qed
  show "distinct (map fst (filter (\<lambda>(k', _). k' \<noteq> k) (ga_active g)))" "distinct (map snd (filter (\<lambda>(k', _). k' \<noteq> k) (ga_active g)))"
    using d by (simp_all add: distinct_map_filter)
qed

lemma names_deleted:
  assumes ok: "gate_ok c held users calls g" and a: "(k, s) \<in> set (ga_active g)" and u: "users' \<subseteq> users"
    and h: "ga_active h = filter (\<lambda>(k', _). k' \<noteq> k) (ga_active g)" "ga_next h = ga_next g"
  shows "names_ok users' h"
proof -
  note d = deleted_facts [OF ok a]
  have n: "names_ok users g" using ok by (simp add: gate_ok_def)
  have sub: "set (ga_active h) \<subseteq> set (ga_active g)" by (auto simp: h)
  show ?thesis
    by (rule names_okI) (use names_okD [OF n] d(3,4) sub u in \<open>auto simp: h\<close>)
qed

lemma refused_ok:
  assumes ok: "gate_ok c held users calls g" and s: "as_admission (ga_sessions g s) = Refused r" and u: "(k, s) \<in> users"
    and c': "calls - {(k, s)} \<subseteq> calls'" and u': "users' \<subseteq> users"
  shows "gate_ok c held users' calls' (create_refused c k s g)"
proof (cases "(k, s) \<in> set (ga_active g)")
  case False
  then have "map_of (ga_active g) k \<noteq> Some s" using active_get [OF ok] by simp
  moreover have "gate_ok c held users' calls' g"
  proof (rule gate_calls [OF ok u'])
    fix k' t assume a: "(k', t) \<in> set (ga_active g)" and z: "held t = 0"
    from counts_onlyif(3) [OF ok a z] False a c' show "(k', t) \<in> calls'" by blast
  qed
  ultimately show ?thesis by (simp add: create_refused_def)
next
  case True
  let ?g = "delete_key k g"
  note d = deleted_facts [OF ok True]
  have same: "ga_waiters ?g = ga_waiters g" "ga_permits ?g = ga_permits g" "ga_next ?g = ga_next g" "ga_sessions ?g = ga_sessions g"
    by (simp_all add: delete_key_def)
  have act: "set (ga_active ?g) = set (ga_active g) - {(k, s)}" using d(1) by (simp add: delete_key_def)
  then have ids: "active_ids ?g = active_ids g - {s}" using d(2) by (simp add: active_ids_def)
  have no: "\<not> granted g s" "\<not> waiting g s" using s by (simp_all add: granted_def waiting_def)
  then have holders: "permit_holders ?g = permit_holders g" by (auto simp: permit_holders_def ids granted_def same)
  have "names_ok users' ?g" by (rule names_deleted [OF ok True u']) (simp_all add: delete_key_def)
  moreover have "line_ok ?g" using ok no by (auto simp: gate_ok_def line_ok_def ids same waiting_def)
  moreover have "permits_ok c ?g"
    by (rule permits_keep [of c g]) (use ok in \<open>simp_all add: gate_ok_def same holders\<close>)
  moreover have "counts_ok held calls' ?g"
  proof -
    have "references ?g t = held t \<and> (held t > 0 \<longrightarrow> as_admitted (ga_sessions ?g t) \<and> granted ?g t) \<and> (held t = 0 \<longrightarrow> (k', t) \<in> calls')"
      if t: "(k', t) \<in> set (ga_active g)" "(k', t) \<noteq> (k, s)" for k' t
      using counts_onlyif [OF ok t(1)] t(2) c' by (auto simp: references_def granted_def same)
    then show ?thesis by (auto simp: counts_ok_def act)
  qed
  moreover have "create_refused c k s g = publishStats c ?g" using True active_get [OF ok] by (simp add: create_refused_def)
  moreover have "gate_ok c held users' calls' ?g" using calculation by (simp add: gate_ok_def)
  ultimately show ?thesis by simp
qed

lemma timeout_ok:
  assumes ok: "gate_ok c held users calls g" and w: "s \<in> set (ga_waiters g)"
  shows "gate_ok c held users calls (waiter_timeout c s g)"
proof -
  let ?g = "waiter_timeout c s g"
  have same: "ga_active ?g = ga_active g" "ga_permits ?g = ga_permits g" "ga_next ?g = ga_next g" "ga_waiters ?g = remove1 s (ga_waiters g)"
    and sess: "ga_sessions ?g = (ga_sessions g)(s := (ga_sessions g s)\<lparr>as_admission := Refused TimedOut\<rparr>)"
    by (simp_all add: waiter_timeout_def op_defs)
  have p: "s \<in> active_ids g" "waiting g s" "\<not> granted g s" using ok w by (auto simp: gate_ok_def line_ok_def waiting_def granted_def)
  have gr: "granted ?g = granted g" using p by (auto simp: granted_def sess fun_eq_iff)
  have wa: "waiting ?g t \<longleftrightarrow> waiting g t \<and> t \<noteq> s" for t by (auto simp: waiting_def sess)
  have ids: "active_ids ?g = active_ids g" by (simp add: active_ids_def same)
  have "line_ok ?g" using ok by (auto simp: gate_ok_def line_ok_def ids same wa)
  moreover have "permits_ok c ?g"
  proof -
    show ?thesis
      by (rule permits_keep [of c g]) (use ok w in \<open>auto simp: gate_ok_def same permit_holders_def ids gr length_remove1\<close>)
  qed
  moreover have "counts_ok held calls ?g"
    using counts_onlyif [OF ok] by (auto simp: counts_ok_def same references_def sess gr)
  moreover have "names_ok users ?g" using ok by (simp add: gate_ok_def names_ok_def ids same)
  ultimately show ?thesis by (simp add: gate_ok_def)
qed

text \<open>Giving a handle back.\<close>

lemma release_detached:
  assumes ok: "gate_ok c held users calls g" and u: "(k, s) \<in> users" and d: "map_of (ga_active g) k \<noteq> Some s" and u': "users' \<subseteq> users"
  shows "gate_ok c (held(s := n)) users' calls (release c k s g)"
proof -
  have no: "s \<notin> active_ids g" using active_key [OF ok u] d by blast
  have "counts_ok (held(s := n)) calls g"
  proof -
    have "s \<notin> snd ` set (ga_active g)" using no by (simp add: active_ids_def)
    then have "(k', s) \<notin> set (ga_active g)" for k' by force
    with counts_onlyif [OF ok] show ?thesis by (auto simp: counts_ok_def split: if_splits)
  qed
  moreover have "names_ok users' g" using ok u' by (auto simp: gate_ok_def names_ok_def)
  moreover have "release c k s g = g" using d by (simp add: release_def)
  ultimately show ?thesis using ok by (simp add: gate_ok_def)
qed

definition dropped :: "nat \<Rightarrow> gate \<Rightarrow> gate" where
  "dropped s = update_session s (\<lambda>x. x\<lparr>as_references := as_references x - 1\<rparr>)"

lemma dropped_sessions: "ga_sessions (dropped s g) = (ga_sessions g)(s := (ga_sessions g s)\<lparr>as_references := references g s - 1\<rparr>)"
  by (simp add: dropped_def update_session_def references_def)

lemma dropped_same [simp]:
  "ga_active (dropped s g) = ga_active g" "ga_waiters (dropped s g) = ga_waiters g" "ga_permits (dropped s g) = ga_permits g"
  "ga_next (dropped s g) = ga_next g" "active_ids (dropped s g) = active_ids g"
  by (simp_all add: dropped_def update_session_def active_ids_def)

lemma dropped_sets [simp]:
  "granted (dropped s g) t = granted g t" "waiting (dropped s g) t = waiting g t"
  "references (dropped s g) t = (if t = s then references g s - 1 else references g t)"
  "as_admitted (ga_sessions (dropped s g) t) = as_admitted (ga_sessions g t)"
  by (simp_all add: granted_def waiting_def references_def dropped_sessions)

lemma dropped_holders [simp]: "permit_holders (dropped s g) = permit_holders g"
  by (simp add: permit_holders_def)

lemma release_cases:
  assumes "map_of (ga_active g) k = Some s" and "0 < references g s"
  shows "release c k s g = publishStats c
    (if 1 < references g s then dropped s g
     else let g3 = (if as_admitted (ga_sessions g s) then (delete_key k (dropped s g))\<lparr>ga_permits := ga_permits g - 1\<rparr> else delete_key k (dropped s g))
       in case ga_waiters g of [] \<Rightarrow> g3 | w # ws \<Rightarrow> settle w Granted (g3\<lparr>ga_waiters := ws, ga_permits := ga_permits g3 + 1\<rparr>))"
proof -
  have r: "as_references (ga_sessions (dropped s g) s) = references g s - 1" by (simp add: references_def [symmetric])
  have "as_references (ga_sessions g s) \<noteq> 0" using assms by (simp add: references_def)
  moreover have "as_admitted (ga_sessions (delete_key k (dropped s g)) s) = as_admitted (ga_sessions g s)"
    "ga_permits (delete_key k (dropped s g)) = ga_permits g" "ga_waiters (delete_key k (dropped s g)) = ga_waiters g"
    by (simp_all add: delete_key_def)
  ultimately show ?thesis using assms(1)
    unfolding release_def dropped_def [symmetric] Let_def r by (auto split: list.split)
qed

lemma release_ok:
  assumes ok: "gate_ok c held users calls g" and u: "(k, s) \<in> users" and h: "0 < held s" and u': "users' \<subseteq> users"
  shows "gate_ok c (held(s := held s - 1)) users' calls (release c k s g)"
proof (cases "map_of (ga_active g) k = Some s")
  case False
  from release_detached [OF ok u this u'] show ?thesis .
next
  case True
  then have a: "(k, s) \<in> set (ga_active g)" using active_get [OF ok] by simp
  have r: "references g s = held s" and adm: "as_admitted (ga_sessions g s)" and gr: "granted g s"
    using counts_onlyif [OF ok a] h by simp_all
  have rel: "release c k s g = publishStats c
    (if 1 < held s then dropped s g
     else case ga_waiters g of [] \<Rightarrow> (delete_key k (dropped s g))\<lparr>ga_permits := ga_permits g - 1\<rparr>
       | w # ws \<Rightarrow> settle w Granted ((delete_key k (dropped s g))\<lparr>ga_waiters := ws, ga_permits := ga_permits g\<rparr>))"
    using release_cases [OF True, of c] h adm by (auto simp: r Let_def split: list.split)
  show ?thesis
  proof (cases "1 < held s")
    case True
    have "counts_ok (held(s := held s - 1)) calls (dropped s g)"
      using counts_onlyif [OF ok] True by (fastforce simp: counts_ok_def)
    moreover have "names_ok users' (dropped s g)" "line_ok (dropped s g)" "permits_ok c (dropped s g)"
      using ok u' by (auto simp: gate_ok_def names_ok_def line_ok_def permits_ok_def)
    moreover have "release c k s g = publishStats c (dropped s g)" using True by (simp add: rel)
    ultimately show ?thesis by (simp add: gate_ok_def [of _ _ _ _ "dropped s g"])
  next
    case False
    then have one: "held s = 1" using h by simp
    define g' where "g' = (case ga_waiters g of [] \<Rightarrow> (delete_key k (dropped s g))\<lparr>ga_permits := ga_permits g - 1\<rparr>
       | w # ws \<Rightarrow> settle w Granted ((delete_key k (dropped s g))\<lparr>ga_waiters := ws, ga_permits := ga_permits g\<rparr>))"
    have rel': "release c k s g = publishStats c g'" using False by (simp add: rel g'_def)
    note d = deleted_facts [OF ok a]
    have only: "\<And>k'. (k', s) \<in> set (ga_active g) \<Longrightarrow> k' = k"
    proof -
      have "names_ok users g" using ok by (simp add: gate_ok_def)
      then show "(k', s) \<in> set (ga_active g) \<Longrightarrow> k' = k" for k' using same_name [OF names_okD(2) a] by blast
    qed
    have act: "ga_active g' = filter (\<lambda>(k', _). k' \<noteq> k) (ga_active g)" "ga_next g' = ga_next g"
      by (simp_all add: g'_def delete_key_def op_defs split: list.split)
    have ids: "active_ids g' = active_ids g - {s}" unfolding active_ids_def act(1) using d(1,2) by (simp add: active_ids_def)
    have sid: "s \<in> permit_holders g" using a gr by (force simp: permit_holders_def active_ids_def)
    have names: "names_ok users' g'" by (rule names_deleted [OF ok a u' act])
    have l: "line_ok g" and p: "permits_ok c g" using ok by (simp_all add: gate_ok_def)
    have sw: "s \<notin> set (ga_waiters g)" using l gr by (auto simp: line_ok_def granted_def waiting_def)
    have card: "int (card (permit_holders g - {s})) = ga_permits g - 1"
    proof -
      have "0 < card (permit_holders g)" using sid by (auto simp: card_gt_0_iff)
      then show ?thesis using sid p by (simp add: permits_ok_def of_nat_diff)
    qed
    show ?thesis
    proof (cases "ga_waiters g")
      case Nil
      then have g': "g' = (delete_key k (dropped s g))\<lparr>ga_permits := ga_permits g - 1\<rparr>" by (simp add: g'_def)
      have st: "granted g' t = granted g t" "waiting g' t = waiting g t" "ga_waiters g' = []" "ga_permits g' = ga_permits g - 1"
        "as_admitted (ga_sessions g' t) = as_admitted (ga_sessions g t)" "references g' t = (if t = s then references g s - 1 else references g t)" for t
        using Nil dropped_sets [of s g t]
        by (simp_all add: g' delete_key_def granted_def waiting_def references_def)
      have "permit_holders g' = permit_holders g - {s}" by (auto simp: permit_holders_def ids st)
      then have "permits_ok c g'" using p card by (auto simp: permits_ok_def st)
      moreover have "line_ok g'" using l Nil by (auto simp: line_ok_def ids st)
      moreover have "counts_ok (held(s := held s - 1)) calls g'"
        using counts_onlyif [OF ok] only by (auto simp: counts_ok_def act st)
      ultimately show ?thesis using names by (simp add: rel' gate_ok_def [of _ _ _ _ g'])
    next
      case (Cons w ws)
      then have g': "g' = settle w Granted ((delete_key k (dropped s g))\<lparr>ga_waiters := ws, ga_permits := ga_permits g\<rparr>)" by (simp add: g'_def)
      have w: "w \<in> active_ids g" "waiting g w" "w \<noteq> s" "w \<notin> set ws" using l sw Cons by (auto simp: line_ok_def)
      have sess: "ga_sessions g' = (ga_sessions (dropped s g))(w := (ga_sessions (dropped s g) w)\<lparr>as_admission := Granted\<rparr>)"
        by (simp add: g' op_defs)
      have st: "granted g' t \<longleftrightarrow> granted g t \<or> t = w" "waiting g' t \<longleftrightarrow> waiting g t \<and> t \<noteq> w"
        "as_admitted (ga_sessions g' t) = as_admitted (ga_sessions g t)" "references g' t = (if t = s then references g s - 1 else references g t)" for t
        using dropped_sets [of s g t] by (auto simp: granted_def waiting_def references_def sess)
      have pw: "ga_waiters g' = ws" "ga_permits g' = ga_permits g" by (simp_all add: g' op_defs)
      have "permit_holders g' = insert w (permit_holders g - {s})" using w by (auto simp: permit_holders_def ids st)
      moreover have "w \<notin> permit_holders g" using w by (simp add: permit_holders_def granted_def waiting_def)
      ultimately have "permits_ok c g'" using p card Cons by (auto simp: permits_ok_def pw)
      moreover have "line_ok g'" using l w Cons sw by (auto simp: line_ok_def ids st pw)
      moreover have "counts_ok (held(s := held s - 1)) calls g'"
        using counts_onlyif [OF ok] only by (auto simp: counts_ok_def act st)
      ultimately show ?thesis using names by (simp add: rel' gate_ok_def [of _ _ _ _ g'])
    qed
  qed
qed

subsection \<open>Every interleaving\<close>

definition held_by :: "world \<Rightarrow> nat \<Rightarrow> nat" where
  "held_by w s = count_list (map snd (w_allocating w @ w_live w)) s"

definition users_of :: "world \<Rightarrow> (string \<times> nat) set" where
  "users_of w = set (w_calls w) \<union> set (w_allocating w) \<union> set (w_live w)"

definition world_ok :: "admission_config \<Rightarrow> world \<Rightarrow> bool" where
  "world_ok c w \<longleftrightarrow> gate_ok c (held_by w) (users_of w) (set (w_calls w)) (w_gate w)"

lemma remove1_rest: "set xs - {x} \<subseteq> set (remove1 x xs)"
  by (auto simp: subset_iff)

lemma count_remove1: "x \<in> set xs \<Longrightarrow> count_list (map snd (remove1 x xs)) s = count_list (map snd xs) s - (if snd x = s then 1 else 0)"
proof (induction xs)
  case (Cons y xs)
  have "snd x = s \<Longrightarrow> x \<in> set xs \<Longrightarrow> 0 < count_list (map snd xs) s" by (metis count_notin image_eqI list.set_map neq0_conv count_list_0_iff)
  with Cons show ?case by auto
qed simp

lemma count_positive: "(k, s) \<in> set xs \<Longrightarrow> 0 < count_list (map snd xs) s"
  by (metis count_list_0_iff image_eqI list.set_map neq0_conv snd_conv)

text \<open>A handle or an allocation that is given back.\<close>

lemma given_back:
  "(k, s) \<in> set (w_allocating w) \<Longrightarrow>
     held_by (w\<lparr>w_allocating := remove1 (k, s) (w_allocating w), w_gate := g\<rparr>) = (held_by w)(s := held_by w s - 1)"
  "(k, s) \<in> set (w_live w) \<Longrightarrow>
     held_by (w\<lparr>w_live := remove1 (k, s) (w_live w), w_gate := g\<rparr>) = (held_by w)(s := held_by w s - 1)"
proof -
  show "(k, s) \<in> set (w_allocating w) \<Longrightarrow>
     held_by (w\<lparr>w_allocating := remove1 (k, s) (w_allocating w), w_gate := g\<rparr>) = (held_by w)(s := held_by w s - 1)"
    using count_remove1 [of "(k, s)" "w_allocating w"] count_positive [of k s "w_allocating w"] by (auto simp: held_by_def fun_eq_iff)
  show "(k, s) \<in> set (w_live w) \<Longrightarrow>
     held_by (w\<lparr>w_live := remove1 (k, s) (w_live w), w_gate := g\<rparr>) = (held_by w)(s := held_by w s - 1)"
    using count_remove1 [of "(k, s)" "w_live w"] count_positive [of k s "w_live w"] by (auto simp: held_by_def fun_eq_iff)
qed

lemma held_positive: "x \<in> set (w_allocating w) \<or> x \<in> set (w_live w) \<Longrightarrow> 0 < held_by w (snd x)"
  unfolding held_by_def by (metis count_list_0_iff image_eqI in_set_conv_decomp list.set_map neq0_conv set_append UnCI)

lemma held_used: "0 < held_by w s \<Longrightarrow> \<exists>k. (k, s) \<in> users_of w"
proof -
  assume "0 < held_by w s"
  then have "s \<in> set (map snd (w_allocating w @ w_live w))" unfolding held_by_def by (metis count_list_0_iff neq0_conv)
  then show ?thesis by (auto simp: users_of_def)
qed

lemma step_ok:
  assumes w: "world_ok c w" and p: "perform c e w = Some w'"
  shows "world_ok c w'"
proof (cases e)
  case (Create k)
  obtain s g where e: "create_enter c k (w_gate w) = (s, g)" by (cases "create_enter c k (w_gate w)")
  have w': "w' = w\<lparr>w_gate := g, w_calls := (k, s) # w_calls w\<rparr>" using p Create e by simp
  have "\<And>t. 0 < held_by w t \<Longrightarrow> t < ga_next (w_gate w)"
  proof -
    fix t assume "0 < held_by w t"
    then obtain k where k: "(k, t) \<in> users_of w" using held_used by blast
    have "names_ok (users_of w) (w_gate w)" using w by (simp add: world_ok_def gate_ok_def)
    from names_okD(4) [OF this k] show "t < ga_next (w_gate w)" .
  qed
  from enter_ok [OF w [unfolded world_ok_def] e this]
  show ?thesis by (simp add: world_ok_def w' held_by_def [abs_def] users_of_def)
next
  case (Resume k s)
  then have c: "(k, s) \<in> set (w_calls w)" using p by (auto split: if_splits)
  have u: "(k, s) \<in> users_of w" using c by (simp add: users_of_def)
  have sub: "set (w_calls w) - {(k, s)} \<subseteq> set (remove1 (k, s) (w_calls w))" "set (remove1 (k, s) (w_calls w)) \<subseteq> set (w_calls w)"
    by (rule remove1_rest, rule set_remove1_subset)
  show ?thesis
  proof (cases "as_admission (ga_sessions (w_gate w) s)")
    case Granted
    then have w': "w' = w\<lparr>w_calls := remove1 (k, s) (w_calls w), w_gate := create_admitted c s (w_gate w), w_allocating := (k, s) # w_allocating w\<rparr>"
      using p Resume c by (simp add: Let_def)
    have ok': "gate_ok c ((held_by w)(s := held_by w s + 1)) (users_of w) (set (w_calls w')) (create_admitted c s (w_gate w))"
      by (rule admitted_ok [OF w [unfolded world_ok_def], where k = k]) (use Granted sub in \<open>simp_all add: granted_def w'\<close>)
    have u': "users_of w' \<subseteq> users_of w" using sub(2) u by (auto simp: users_of_def w')
    have "gate_ok c ((held_by w)(s := held_by w s + 1)) (users_of w') (set (w_calls w')) (create_admitted c s (w_gate w))"
      by (rule gate_calls [OF ok' u']) (rule counts_onlyif(3) [OF ok'])
    moreover have "held_by w' = (held_by w)(s := held_by w s + 1)" by (auto simp: held_by_def w' fun_eq_iff)
    ultimately show ?thesis by (simp add: world_ok_def) (simp add: w')
  next
    case (Refused r)
    then have w': "w' = w\<lparr>w_calls := remove1 (k, s) (w_calls w), w_gate := create_refused c k s (w_gate w)\<rparr>"
      using p Resume c by (simp add: Let_def)
    have "users_of w' \<subseteq> users_of w" using sub(2) by (auto simp: users_of_def w')
    from refused_ok [OF w [unfolded world_ok_def] Refused u _ this, of "set (w_calls w')"] sub(1)
    show ?thesis by (simp add: world_ok_def w' held_by_def [abs_def])
  qed (use p Resume c in \<open>simp add: Let_def\<close>)
next
  case (Allocated k s)
  then have a: "(k, s) \<in> set (w_allocating w)" and w': "w' = w\<lparr>w_allocating := remove1 (k, s) (w_allocating w), w_live := (k, s) # w_live w\<rparr>"
    using p by (auto split: if_splits)
  have "0 < count_list (map snd (w_allocating w)) s" using a by (metis count_list_0_iff image_eqI list.set_map neq0_conv snd_conv)
  then have "held_by w' = held_by w" using count_remove1 [OF a] by (auto simp: held_by_def w' fun_eq_iff)
  moreover have "users_of w' \<subseteq> users_of w"
    using a set_remove1_subset [of "(k, s)" "w_allocating w"] by (auto simp: users_of_def w')
  ultimately show ?thesis
    using w gate_calls [of c "held_by w" "users_of w" "set (w_calls w)" "w_gate w" "users_of w'" "set (w_calls w)"]
      counts_onlyif(3) [OF w [unfolded world_ok_def]] by (simp add: world_ok_def w')
next
  case (AllocationFailed k s)
  then have a: "(k, s) \<in> set (w_allocating w)" and w': "w' = release_in c k s (w\<lparr>w_allocating := remove1 (k, s) (w_allocating w)\<rparr>)"
    using p by (auto split: if_splits)
  have "held_by w' = (held_by w)(s := held_by w s - 1)" "users_of w' \<subseteq> users_of w" "w_calls w' = w_calls w"
    using given_back(1) [OF a] set_remove1_subset [of "(k, s)" "w_allocating w"]
    by (auto simp: w' release_in_def users_of_def)
  with release_ok [OF w [unfolded world_ok_def], of k s "users_of w'"] a held_positive [of "(k, s)" w]
  show ?thesis by (simp add: world_ok_def w' release_in_def users_of_def)
next
  case (ShutDown k s)
  then have a: "(k, s) \<in> set (w_live w)" and w': "w' = release_in c k s (w\<lparr>w_live := remove1 (k, s) (w_live w)\<rparr>)"
    using p by (auto split: if_splits)
  have "held_by w' = (held_by w)(s := held_by w s - 1)" "users_of w' \<subseteq> users_of w" "w_calls w' = w_calls w"
    using given_back(2) [OF a] set_remove1_subset [of "(k, s)" "w_live w"]
    by (auto simp: w' release_in_def users_of_def)
  with release_ok [OF w [unfolded world_ok_def], of k s "users_of w'"] a held_positive [of "(k, s)" w]
  show ?thesis by (simp add: world_ok_def w' release_in_def users_of_def)
next
  case (WaiterTimeout s)
  then have "s \<in> set (ga_waiters (w_gate w))" "w' = w\<lparr>w_gate := waiter_timeout c s (w_gate w)\<rparr>"
    using p by (auto split: if_splits)
  with timeout_ok [OF w [unfolded world_ok_def]] show ?thesis by (simp add: world_ok_def held_by_def [abs_def] users_of_def)
qed

lemma reachable_ok: "reachable c w \<Longrightarrow> world_ok c w"
proof (induction rule: reachable.induct)
  case start
  show ?case by (simp add: world_ok_def gate_defs new_world_def new_gate_def users_of_def)
qed (rule step_ok)

subsection \<open>What the gate promises\<close>

text \<open>A session that the map knows and that has a sandbox, or is about to get one.\<close>

definition running_sessions :: "world \<Rightarrow> nat set" where
  "running_sessions w = {s \<in> active_ids (w_gate w). 0 < held_by w s}"

text \<open>C39 (permits_never_exceed_the_limit)
  In every interleaving of calls, backend answers, shutdowns and timeouts: the permits in use are the
  sessions that were granted one, at most the limit, and each of them has a sandbox or a call about to
  use it, so that no permit is lost; the sessions that are still in the map of active ones and have a sandbox are at
  most the limit; the line holds at most its bound, each waiting session once; and while anyone waits every permit is in
  use.  This bounds the permits, not every live sandbox: one whose session has left the map is not counted, and
  detached_sandbox_exceeds_the_limit shows that such a sandbox can be one too many.\<close>

theorem permits_never_exceed_the_limit:
  assumes "reachable c w"
  shows "ga_permits (w_gate w) = int (card (permit_holders (w_gate w))) \<and> card (permit_holders (w_gate w)) \<le> ac_limit c \<and>
    card (running_sessions w) \<le> ac_limit c \<and>
    permit_holders (w_gate w) \<subseteq> {s. 0 < held_by w s} \<union> snd ` set (w_calls w) \<and>
    length (ga_waiters (w_gate w)) \<le> ac_maxQueued c \<and> distinct (ga_waiters (w_gate w)) \<and>
    (ga_waiters (w_gate w) = [] \<or> ga_permits (w_gate w) = int (ac_limit c))"
proof -
  let ?g = "w_gate w"
  have ok: "gate_ok c (held_by w) (users_of w) (set (w_calls w)) ?g" using reachable_ok [OF assms] by (simp add: world_ok_def)
  then have p: "permits_ok c ?g" and l: "line_ok ?g" by (simp_all add: gate_ok_def)
  have lim: "card (permit_holders ?g) \<le> ac_limit c" using p by (auto simp: permits_ok_def)
  have "running_sessions w \<subseteq> permit_holders ?g"
    using counts_onlyif(2) [OF ok] by (auto simp: running_sessions_def permit_holders_def active_ids_def)
  then have "card (running_sessions w) \<le> ac_limit c" using lim card_mono [OF active_finite(2)] by (metis order_trans)
  moreover have "permit_holders ?g \<subseteq> {s. 0 < held_by w s} \<union> snd ` set (w_calls w)"
  proof
    fix s assume "s \<in> permit_holders ?g"
    then obtain k where a: "(k, s) \<in> set (ga_active ?g)" by (auto simp: permit_holders_def active_ids_def)
    show "s \<in> {s. 0 < held_by w s} \<union> snd ` set (w_calls w)"
      using counts_onlyif(3) [OF ok a] by (cases "held_by w s = 0") (force, simp)
  qed
  ultimately show ?thesis using p l lim by (auto simp: permits_ok_def line_ok_def)
qed

definition one_sandbox :: admission_config where
  "one_sandbox = \<lparr>ac_limit = 1, ac_maxQueued = 4\<rparr>"

theorem permits_never_exceed_the_limit_witness:
  "\<exists>w. perform_all one_sandbox [Create ''a'', Create ''b'', Resume ''a'' 0, Allocated ''a'' 0, ShutDown ''a'' 0] new_world = Some w \<and>
     card (running_sessions w) \<le> 1 \<and> ga_permits (w_gate w) = 1 \<and> ga_waiters (w_gate w) = []"
proof -
  let ?es = "[Create ''a'', Create ''b'', Resume ''a'' 0, Allocated ''a'' 0, ShutDown ''a'' 0]"
  obtain w where w: "perform_all one_sandbox ?es new_world = Some w"
  proof -
    have "perform_all one_sandbox ?es new_world \<noteq> None" by code_simp
    then show thesis using that by auto
  qed
  have "map_option (\<lambda>w. (ga_permits (w_gate w), ga_waiters (w_gate w))) (perform_all one_sandbox ?es new_world) = Some (1, [])" by code_simp
  with w have "ga_permits (w_gate w) = 1" "ga_waiters (w_gate w) = []" by auto
  moreover have "card (running_sessions w) \<le> ac_limit one_sandbox"
    using permits_never_exceed_the_limit [OF perform_all_reachable [OF reachable.start w]] by (elim conjE)
  ultimately show ?thesis using w by (auto simp: one_sandbox_def)
qed

text \<open>Remark (detached_sandbox_exceeds_the_limit)
  A call that finds a session active waits for a promise that is already settled.  If the session's last
  handle is shut down before the call is resumed, the call goes on with a session that is no longer in
  the map: its sandbox starts without a permit, and with a limit of one, two sandboxes run.\<close>

theorem detached_sandbox_exceeds_the_limit:
  "map_option (\<lambda>w. (map fst (w_live w), ga_permits (w_gate w)))
     (perform_all one_sandbox [Create ''a'', Resume ''a'' 0, Allocated ''a'' 0, Create ''a'', ShutDown ''a'' 0, Create ''b'',
       Resume ''a'' 0, Resume ''b'' 1, Allocated ''a'' 0, Allocated ''b'' 1] new_world) = Some ([''b'', ''a''], 1)"
  by code_simp

subsection \<open>When granted calls are resumed first\<close>

text \<open>A run in which no session is given up while a call on it is about to be resumed.\<close>

definition gives_back :: "event \<Rightarrow> nat option" where
  "gives_back e = (case e of ShutDown k s \<Rightarrow> Some s | AllocationFailed k s \<Rightarrow> Some s | _ \<Rightarrow> None)"

definition prompt :: "world \<Rightarrow> event \<Rightarrow> bool" where
  "prompt w e \<longleftrightarrow> (case gives_back e of None \<Rightarrow> True | Some s \<Rightarrow> list_all (\<lambda>(k, t). t \<noteq> s) (w_calls w))"

inductive promptly :: "admission_config \<Rightarrow> world \<Rightarrow> bool" for c where
  start: "promptly c new_world"
| step: "promptly c w \<Longrightarrow> prompt w e \<Longrightarrow> perform c e w = Some w' \<Longrightarrow> promptly c w'"

lemma promptly_reachable: "promptly c w \<Longrightarrow> reachable c w"
  by (induction rule: promptly.induct) (auto intro: reachable.intros)

text \<open>Whoever holds a session, or will when it is resumed, holds one the map knows.\<close>

definition attached :: "world \<Rightarrow> bool" where
  "attached w \<longleftrightarrow> (\<forall>s. 0 < held_by w s \<longrightarrow> s \<in> active_ids (w_gate w)) \<and>
     (\<forall>(k, s) \<in> set (w_calls w). s \<in> active_ids (w_gate w) \<or> (\<exists>r. as_admission (ga_sessions (w_gate w) s) = Refused r))"

lemma release_leaves:
  assumes ok: "gate_ok c held users calls g" and u: "(k, s) \<in> users" and a: "s \<in> active_ids g" and h: "0 < held s"
  shows "active_ids (release c k s g) = (if 1 < held s then active_ids g else active_ids g - {s})"
    and "as_admission (ga_sessions g t) = Refused r \<Longrightarrow> as_admission (ga_sessions (release c k s g) t) = Refused r"
proof -
  have m: "map_of (ga_active g) k = Some s" by (rule active_key [OF ok u a])
  then have e: "(k, s) \<in> set (ga_active g)" using active_get [OF ok] by simp
  have r: "references g s = held s" using counts_onlyif(1) [OF ok e] .
  have pos: "0 < references g s" using h r by simp
  note d = deleted_facts [OF ok e]
  have del: "active_ids (delete_key k (dropped s g)) = active_ids g - {s}"
    using d(1,2) by (simp add: active_ids_def delete_key_def dropped_def update_session_def)
  show "active_ids (release c k s g) = (if 1 < held s then active_ids g else active_ids g - {s})"
    using del unfolding release_cases [OF m pos] r
    by (simp add: active_ids_def Let_def op_defs split: list.split)
  have w: "w \<in> set (ga_waiters g) \<Longrightarrow> as_admission (ga_sessions g w) = Pending" for w
    using ok by (auto simp: gate_ok_def line_ok_def waiting_def)
  assume t: "as_admission (ga_sessions g t) = Refused r"
  have t': "as_admission (ga_sessions (dropped s g) t) = Refused r" using t by (auto simp: dropped_sessions)
  have "t \<notin> set (ga_waiters g)" using w [of t] t by auto
  then show "as_admission (ga_sessions (release c k s g) t) = Refused r"
    unfolding release_cases [OF m pos] using t' by (auto simp: Let_def settle_def update_session_def delete_key_def split: list.split)
qed

lemma held_user: "0 < held_by w s \<Longrightarrow> (k, s) \<in> set (w_allocating w) \<union> set (w_live w) \<Longrightarrow> (k, s) \<in> users_of w"
  by (auto simp: users_of_def)

lemma release_attached:
  assumes ok: "world_ok c w" and at: "attached w" and u: "(k, s) \<in> set (w_allocating w) \<union> set (w_live w)"
    and p: "list_all (\<lambda>(k, t). t \<noteq> s) (w_calls w)"
    and w': "w_gate w' = release c k s (w_gate w)" "w_calls w' = w_calls w" "held_by w' = (held_by w)(s := held_by w s - 1)"
  shows "attached w'"
proof -
  have h: "0 < held_by w s" using held_positive [of "(k, s)" w] u by auto
  have a: "s \<in> active_ids (w_gate w)" using at h by (simp add: attached_def)
  note l = release_leaves [OF ok [unfolded world_ok_def] held_user [OF h u] a h]
  have "t \<in> active_ids (w_gate w')" if "0 < held_by w' t" for t
    using that at by (auto simp: w' l(1) attached_def split: if_splits)
  moreover have "t \<in> active_ids (w_gate w') \<or> (\<exists>r. as_admission (ga_sessions (w_gate w') t) = Refused r)" if t: "(k', t) \<in> set (w_calls w)" for k' t
  proof -
    have "t \<noteq> s" using p t by (auto simp: list_all_iff)
    moreover have "t \<in> active_ids (w_gate w) \<or> (\<exists>r. as_admission (ga_sessions (w_gate w) t) = Refused r)"
      using at t by (auto simp: attached_def)
    ultimately show ?thesis using l by (auto simp: w')
  qed
  ultimately show ?thesis by (auto simp: attached_def w'(2))
qed

lemma enter_keeps:
  assumes ok: "gate_ok c held users calls g" and e: "create_enter c k g = (s, g')"
  shows "s \<in> active_ids g'" and "active_ids g \<subseteq> active_ids g'"
    and "(k', t) \<in> users \<Longrightarrow> ga_sessions g' t = ga_sessions g t"
proof -
  have "s \<in> active_ids g' \<and> active_ids g \<subseteq> active_ids g' \<and> ((k', t) \<in> users \<longrightarrow> ga_sessions g' t = ga_sessions g t)"
  proof (cases "map_of (ga_active g) k")
    case (Some s')
    with e have s: "s' = s" "g' = g" by (simp_all add: create_enter_def)
    then show ?thesis using Some active_get [OF ok] active_idsI by auto
  next
    case None
    let ?h = "g\<lparr>ga_next := Suc (ga_next g), ga_sessions := (ga_sessions g)(ga_next g := fresh_session)\<rparr>"
    have a: "ga_active (acquire c s ?h) = ga_active g" for s by (simp add: acquire_def op_defs)
    have s: "s = ga_next g" "g' = (acquire c s ?h)\<lparr>ga_active := ga_active g @ [(k, s)]\<rparr>"
      using e None a by (auto simp: create_enter_def Let_def)
    have "names_ok users g" using ok by (simp add: gate_ok_def)
    then have "(k', t) \<in> users \<Longrightarrow> t \<noteq> s" using names_okD(4) s(1) by blast
    moreover have "active_ids g' = insert s (active_ids g)" by (simp add: active_ids_def s(2))
    moreover have "t \<noteq> s \<Longrightarrow> ga_sessions g' t = ga_sessions g t" by (simp add: s acquire_def op_defs)
    ultimately show ?thesis by blast
  qed
  then show "s \<in> active_ids g'" "active_ids g \<subseteq> active_ids g'" "(k', t) \<in> users \<Longrightarrow> ga_sessions g' t = ga_sessions g t" by blast+
qed

lemma attached_step:
  assumes ok: "world_ok c w" and at: "attached w" and pr: "prompt w e" and p: "perform c e w = Some w'"
  shows "attached w'"
proof (cases e)
  case (Create k)
  obtain s g where e: "create_enter c k (w_gate w) = (s, g)" by (cases "create_enter c k (w_gate w)")
  have w': "w' = w\<lparr>w_gate := g, w_calls := (k, s) # w_calls w\<rparr>" using p Create e by simp
  note k = enter_keeps [OF ok [unfolded world_ok_def] e]
  have "t \<in> active_ids g \<or> (\<exists>r. as_admission (ga_sessions g t) = Refused r)" if t: "(k', t) \<in> set (w_calls w)" for k' t
  proof -
    have "ga_sessions g t = ga_sessions (w_gate w) t" by (rule k(3) [of k']) (use t in \<open>simp add: users_of_def\<close>)
    then show ?thesis using at t k(2) by (auto simp: attached_def)
  qed
  then show ?thesis using at k(1,2) by (auto simp: attached_def w' held_by_def)
next
  case (Resume k s)
  then have c: "(k, s) \<in> set (w_calls w)" using p by (auto split: if_splits)
  have sub: "set (remove1 (k, s) (w_calls w)) \<subseteq> set (w_calls w)" by (rule set_remove1_subset)
  show ?thesis
  proof (cases "as_admission (ga_sessions (w_gate w) s)")
    case Granted
    then have w': "w' = w\<lparr>w_calls := remove1 (k, s) (w_calls w), w_gate := create_admitted c s (w_gate w), w_allocating := (k, s) # w_allocating w\<rparr>"
      using p Resume c by (simp add: Let_def)
    have s: "s \<in> active_ids (w_gate w)" using at c Granted by (fastforce simp: attached_def)
    have same: "active_ids (create_admitted c s (w_gate w)) = active_ids (w_gate w)"
      "as_admission (ga_sessions (create_admitted c s (w_gate w)) t) = as_admission (ga_sessions (w_gate w) t)" for t
      by (simp_all add: create_admitted_def active_ids_def op_defs)
    show ?thesis using at s sub by (fastforce simp: attached_def w' same held_by_def split: if_splits)
  next
    case (Refused r)
    then have w': "w' = w\<lparr>w_calls := remove1 (k, s) (w_calls w), w_gate := create_refused c k s (w_gate w)\<rparr>"
      using p Resume c by (simp add: Let_def)
    have g: "gate_ok c (held_by w) (users_of w) (set (w_calls w)) (w_gate w)" using ok by (simp add: world_ok_def)
    have u: "(k, s) \<in> users_of w" using c by (simp add: users_of_def)
    have sess: "ga_sessions (create_refused c k s (w_gate w)) = ga_sessions (w_gate w)" by (simp add: create_refused_def op_defs)
    have ids: "active_ids (w_gate w) - {s} \<subseteq> active_ids (create_refused c k s (w_gate w))"
    proof (cases "map_of (ga_active (w_gate w)) k = Some s")
      case True
      then have "(k, s) \<in> set (ga_active (w_gate w))" using active_get [OF g] by simp
      note d = deleted_facts [OF g this]
      show ?thesis using True d(1,2) by (simp add: create_refused_def active_ids_def op_defs)
    qed (simp add: create_refused_def active_ids_def op_defs)
    have "t \<noteq> s" if "0 < held_by w t" for t
    proof
      assume t: "t = s"
      have "s \<in> active_ids (w_gate w)" using at that t by (simp add: attached_def)
      then obtain k' where a: "(k', s) \<in> set (ga_active (w_gate w))" using active_idsE by blast
      show False using counts_onlyif(2) [OF g a] that t Refused by (simp add: granted_def)
    qed
    then have "t \<in> active_ids (w_gate w')" if "0 < held_by w' t" for t
      using that at ids by (auto simp: attached_def w' held_by_def)
    moreover have "t \<in> active_ids (w_gate w') \<or> (\<exists>r. as_admission (ga_sessions (w_gate w') t) = Refused r)"
      if t: "(k', t) \<in> set (w_calls w')" for k' t
    proof -
      have "(k', t) \<in> set (w_calls w)" using t sub by (auto simp: w')
      then have "t \<in> active_ids (w_gate w) \<or> (\<exists>r. as_admission (ga_sessions (w_gate w) t) = Refused r)"
        using at by (auto simp: attached_def)
      then show ?thesis using ids Refused by (cases "t = s") (auto simp: w' sess)
    qed
    ultimately show ?thesis by (auto simp: attached_def)
  qed (use p Resume c in \<open>simp add: Let_def\<close>)
next
  case (Allocated k s)
  then have a: "(k, s) \<in> set (w_allocating w)" and w': "w' = w\<lparr>w_allocating := remove1 (k, s) (w_allocating w), w_live := (k, s) # w_live w\<rparr>"
    using p by (auto split: if_splits)
  have "0 < held_by w s" using held_positive [of "(k, s)" w] a by simp
  then have "0 < held_by w' t \<Longrightarrow> 0 < held_by w t" for t
    using count_remove1 [OF a, of t] by (auto simp: held_by_def w' split: if_splits)
  then show ?thesis using at by (auto simp: attached_def w')
next
  case (AllocationFailed k s)
  then have a: "(k, s) \<in> set (w_allocating w)" and w': "w' = release_in c k s (w\<lparr>w_allocating := remove1 (k, s) (w_allocating w)\<rparr>)"
    using p by (auto split: if_splits)
  show ?thesis
    by (rule release_attached [OF ok at, of k s])
      (use a pr AllocationFailed given_back(1) [OF a] in \<open>simp_all add: w' release_in_def prompt_def gives_back_def\<close>)
next
  case (ShutDown k s)
  then have a: "(k, s) \<in> set (w_live w)" and w': "w' = release_in c k s (w\<lparr>w_live := remove1 (k, s) (w_live w)\<rparr>)"
    using p by (auto split: if_splits)
  show ?thesis
    by (rule release_attached [OF ok at, of k s])
      (use a pr ShutDown given_back(2) [OF a] in \<open>simp_all add: w' release_in_def prompt_def gives_back_def\<close>)
next
  case (WaiterTimeout s)
  then have w': "w' = w\<lparr>w_gate := waiter_timeout c s (w_gate w)\<rparr>" using p by (auto split: if_splits)
  have "active_ids (waiter_timeout c s (w_gate w)) = active_ids (w_gate w)"
    "as_admission (ga_sessions (waiter_timeout c s (w_gate w)) t) = (if t = s then Refused TimedOut else as_admission (ga_sessions (w_gate w) t))" for t
    by (simp_all add: waiter_timeout_def active_ids_def op_defs)
  with at show ?thesis by (auto simp: attached_def w' held_by_def)
qed

text \<open>Remark (live_sandboxes_stay_within_the_limit)
  If no session is given up while a granted call on it is about to be resumed, every sandbox, live or
  being created, belongs to a session that holds a permit, so at most the limit of sessions have one.\<close>

theorem live_sandboxes_stay_within_the_limit:
  assumes "promptly c w"
  shows "card (snd ` set (w_allocating w @ w_live w)) \<le> ac_limit c"
proof -
  have at: "attached w" using assms
  proof (induction rule: promptly.induct)
    case start
    show ?case by (simp add: attached_def new_world_def held_by_def)
  next
    case (step w e w')
    from attached_step [OF reachable_ok [OF promptly_reachable [OF step(1)]] step(4,2,3)] show ?case .
  qed
  have r: "reachable c w" by (rule promptly_reachable [OF assms])
  have ok: "gate_ok c (held_by w) (users_of w) (set (w_calls w)) (w_gate w)" using reachable_ok [OF r] by (simp add: world_ok_def)
  have "snd ` set (w_allocating w @ w_live w) \<subseteq> permit_holders (w_gate w)"
  proof
    fix s assume "s \<in> snd ` set (w_allocating w @ w_live w)"
    then have h: "0 < held_by w s" using held_positive [of _ w] by auto
    then have "s \<in> active_ids (w_gate w)" using at by (simp add: attached_def)
    then obtain k where a: "(k, s) \<in> set (ga_active (w_gate w))" using active_idsE by blast
    from counts_onlyif(2) [OF ok a h] active_idsI [OF a] show "s \<in> permit_holders (w_gate w)" by (simp add: permit_holders_def)
  qed
  from card_mono [OF active_finite(2) this] ok show ?thesis by (auto simp: gate_ok_def permits_ok_def)
qed

fun perform_promptly :: "admission_config \<Rightarrow> event list \<Rightarrow> world \<Rightarrow> world option" where
  "perform_promptly c [] w = Some w"
| "perform_promptly c (e # es) w =
     (if \<not> prompt w e then None else case perform c e w of None \<Rightarrow> None | Some w' \<Rightarrow> perform_promptly c es w')"

lemma perform_promptly_run: "promptly c w \<Longrightarrow> perform_promptly c es w = Some w' \<Longrightarrow> promptly c w'"
  by (induction es arbitrary: w) (auto split: option.splits if_splits intro: promptly.step)

theorem live_sandboxes_stay_within_the_limit_witness:
  "\<exists>w. perform_promptly one_sandbox [Create ''a'', Create ''b'', Resume ''a'' 0, Allocated ''a'' 0, ShutDown ''a'' 0, Resume ''b'' 1, Allocated ''b'' 1]
     new_world = Some w \<and> map fst (w_live w) = [''b''] \<and> card (snd ` set (w_allocating w @ w_live w)) \<le> 1"
proof -
  let ?es = "[Create ''a'', Create ''b'', Resume ''a'' 0, Allocated ''a'' 0, ShutDown ''a'' 0, Resume ''b'' 1, Allocated ''b'' 1]"
  have e: "map_option (\<lambda>w. map fst (w_live w)) (perform_promptly one_sandbox ?es new_world) = Some [''b'']" by code_simp
  then obtain w where w: "perform_promptly one_sandbox ?es new_world = Some w" "map fst (w_live w) = [''b'']" by auto
  have "card (snd ` set (w_allocating w @ w_live w)) \<le> ac_limit one_sandbox"
    by (rule live_sandboxes_stay_within_the_limit [OF perform_promptly_run [OF promptly.start w(1)]])
  with w show ?thesis by (auto simp: one_sandbox_def)
qed

subsection \<open>The line moves\<close>

definition last_handle :: "gate \<Rightarrow> string \<times> nat \<Rightarrow> bool" where
  "last_handle g p \<longleftrightarrow> (case p of (k, s) \<Rightarrow>
     map_of (ga_active g) k = Some s \<and> references g s = 1 \<and> as_admitted (ga_sessions g s))"

definition release_all :: "admission_config \<Rightarrow> (string \<times> nat) list \<Rightarrow> gate \<Rightarrow> gate" where
  "release_all c rs g = foldl (\<lambda>g (k, s). release c k s g) g rs"

lemma release_serves:
  assumes l: "last_handle g (k, s)" and w: "ga_waiters g = u # us"
  shows "ga_waiters (release c k s g) = us" "granted (release c k s g) u" "ga_permits (release c k s g) = ga_permits g"
    and "granted g t \<Longrightarrow> granted (release c k s g) t"
    and "last_handle g (k', s') \<Longrightarrow> k' \<noteq> k \<Longrightarrow> s' \<noteq> s \<Longrightarrow> last_handle (release c k s g) (k', s')"
proof -
  have m: "map_of (ga_active g) k = Some s" "0 < references g s" "references g s = 1" "as_admitted (ga_sessions g s)"
    using l by (simp_all add: last_handle_def)
  have r: "release c k s g = publishStats c (settle u Granted ((delete_key k (dropped s g))\<lparr>ga_waiters := us, ga_permits := ga_permits g\<rparr>))"
    using release_cases [OF m(1,2), of c] m(3,4) w by (simp add: Let_def)
  have sess: "ga_sessions (release c k s g) = (ga_sessions (dropped s g))(u := (ga_sessions (dropped s g) u)\<lparr>as_admission := Granted\<rparr>)"
    by (simp add: r op_defs)
  show "ga_waiters (release c k s g) = us" "ga_permits (release c k s g) = ga_permits g" by (simp_all add: r op_defs)
  show "granted (release c k s g) u" by (simp add: granted_def sess)
  show "granted g t \<Longrightarrow> granted (release c k s g) t" by (auto simp: granted_def sess dropped_sessions)
  have act: "ga_active (release c k s g) = filter (\<lambda>(k', _). k' \<noteq> k) (ga_active g)" by (simp add: r op_defs)
  have other: "map_of (filter (\<lambda>(k', _). k' \<noteq> k) xs) k' = map_of xs k'" if "k' \<noteq> k" for k' and xs :: "(string \<times> nat) list"
    using that by (induction xs) auto
  show "last_handle g (k', s') \<Longrightarrow> k' \<noteq> k \<Longrightarrow> s' \<noteq> s \<Longrightarrow> last_handle (release c k s g) (k', s')"
    by (auto simp: last_handle_def act other references_def sess dropped_sessions)
qed

lemma releases_serve:
  "list_all (last_handle g) rs \<Longrightarrow> distinct (map fst rs) \<Longrightarrow> distinct (map snd rs) \<Longrightarrow> ga_waiters g = us @ vs \<Longrightarrow> length us = length rs \<Longrightarrow>
     ga_waiters (release_all c rs g) = vs \<and> list_all (granted (release_all c rs g)) us \<and>
     ga_permits (release_all c rs g) = ga_permits g \<and> (\<forall>t. granted g t \<longrightarrow> granted (release_all c rs g) t)"
proof (induction rs arbitrary: g us)
  case (Cons p rs)
  obtain k s where p: "p = (k, s)" by (cases p)
  obtain u us' where us: "us = u # us'" "length us' = length rs" using Cons.prems(5) by (cases us) auto
  have l: "last_handle g (k, s)" using Cons.prems(1) p by simp
  have w: "ga_waiters g = u # (us' @ vs)" using Cons.prems(4) us by simp
  note r = release_serves [where c = c, OF l w]
  have "list_all (last_handle (release c k s g)) rs"
    unfolding list_all_iff
  proof
    fix q assume q: "q \<in> set rs"
    obtain k' s' where e: "q = (k', s')" by (cases q)
    have "k' \<noteq> k" "s' \<noteq> s" using Cons.prems(2,3) q p e by force+
    then show "last_handle (release c k s g) q" using r(5) Cons.prems(1) q e by (simp add: list_all_iff)
  qed
  from Cons.IH [OF this _ _ r(1) us(2)] Cons.prems(2,3)
  show ?case using r us by (auto simp: release_all_def p)
qed (simp add: release_all_def)

text \<open>Remark (waiters_are_served_in_order)
  As many sessions of a reachable state give their last handle back as there are sessions at the front
  of the line: exactly those at the front are granted their permits, in that order, those behind them
  stay in line, and the number of permits in use does not change.\<close>

theorem waiters_are_served_in_order:
  assumes "reachable c w" and "distinct rs" and "ga_waiters (w_gate w) = us @ vs" and "length us = length rs"
    and "\<forall>(k, s) \<in> set rs. (k, s) \<in> set (ga_active (w_gate w)) \<and> held_by w s = 1"
  shows "ga_waiters (release_all c rs (w_gate w)) = vs \<and> list_all (granted (release_all c rs (w_gate w))) us \<and>
    ga_permits (release_all c rs (w_gate w)) = ga_permits (w_gate w)"
proof -
  have ok: "gate_ok c (held_by w) (users_of w) (set (w_calls w)) (w_gate w)" using reachable_ok [OF assms(1)] by (simp add: world_ok_def)
  then have d: "distinct (map fst (ga_active (w_gate w)))" "distinct (map snd (ga_active (w_gate w)))" by (simp_all add: gate_ok_def names_ok_def)
  have sub: "set rs \<subseteq> set (ga_active (w_gate w))" using assms(5) by auto
  have "inj_on fst (set rs)" "inj_on snd (set rs)" using d sub by (auto simp: distinct_map intro: inj_on_subset)
  then have "distinct (map fst rs)" "distinct (map snd rs)" using assms(2) by (simp_all add: distinct_map)
  moreover have "list_all (last_handle (w_gate w)) rs"
    unfolding list_all_iff
  proof
    fix q assume q: "q \<in> set rs"
    obtain k s where e: "q = (k, s)" by (cases q)
    have a: "(k, s) \<in> set (ga_active (w_gate w))" and h: "held_by w s = 1" using assms(5) q e by auto
    show "last_handle (w_gate w) q" using counts_onlyif [OF ok a] h a active_get [OF ok] by (simp add: last_handle_def e)
  qed
  ultimately show ?thesis using releases_serve [OF _ _ _ assms(3,4)] by blast
qed

theorem waiters_are_served_in_order_witness:
  "\<exists>w. perform_all one_sandbox [Create ''a'', Create ''b'', Create ''c'', Resume ''a'' 0, Allocated ''a'' 0] new_world = Some w \<and>
     ga_waiters (w_gate w) = [1, 2] \<and> ga_waiters (release_all one_sandbox [(''a'', 0)] (w_gate w)) = [2] \<and>
     list_all (granted (release_all one_sandbox [(''a'', 0)] (w_gate w))) [1]"
proof -
  let ?es = "[Create ''a'', Create ''b'', Create ''c'', Resume ''a'' 0, Allocated ''a'' 0]"
  have e: "map_option (\<lambda>w. (ga_waiters (w_gate w), ga_active (w_gate w), held_by w 0)) (perform_all one_sandbox ?es new_world)
      = Some ([1, 2], [(''a'', 0), (''b'', 1), (''c'', 2)], 1)" by code_simp
  then obtain w where w: "perform_all one_sandbox ?es new_world = Some w" by auto
  with e have f: "ga_waiters (w_gate w) = [1] @ [2]" "ga_active (w_gate w) = [(''a'', 0), (''b'', 1), (''c'', 2)]" "held_by w 0 = 1" by auto
  have "distinct [(''a'', 0 :: nat)]" "length [1 :: nat] = length [(''a'', 0 :: nat)]"
    "\<forall>(k, s) \<in> set [(''a'', 0)]. (k, s) \<in> set (ga_active (w_gate w)) \<and> held_by w s = 1" using f by simp_all
  from waiters_are_served_in_order [OF perform_all_reachable [OF reachable.start w] this(1) f(1) this(2,3)]
  show ?thesis using w f(1) by simp
qed

text \<open>Remark (deployment_limits_are_accepted)
  Whatever the environment says, the limits the deployment reads are refused there or accepted by the
  gate: the wrapper never throws on them.\<close>

theorem deployment_limits_are_accepted:
  "case readAgentSandboxAdmissionConfig to_number environment of Inl e \<Rightarrow> True
   | Inr l \<Rightarrow> \<exists>c. withSandboxAdmission (al_maxActive l) (al_timeoutMs l) (Some (al_maxQueued l)) = Inr c \<and> 1 \<le> ac_limit c \<and> ac_limit c \<le> 10000"
proof -
  have r: "in_range lo hi v = Some x \<Longrightarrow> is_safe_integer x \<and> lo \<le> x \<and> x \<le> hi" for lo hi v x
    by (auto simp: in_range_def split: option.splits if_splits)
  have b: "1 \<le> x \<Longrightarrow> x \<le> 10000 \<Longrightarrow> 1 \<le> nat \<lfloor>x\<rfloor> \<and> nat \<lfloor>x\<rfloor> \<le> 10000" for x :: rat by linarith
  show ?thesis
    by (auto simp: readAgentSandboxAdmissionConfig_def withSandboxAdmission_def Let_def dest!: r b split: option.splits)
qed

text \<open>Remark (default_line_is_refused_for_large_limits)
  The default bound of the line grows with the limit past the largest one the wrapper accepts, so with
  a limit of 782 or more and no explicit bound the wrapper always throws.\<close>

theorem default_line_is_refused_for_large_limits:
  "withSandboxAdmission 781 30000 None = Inr \<lparr>ac_limit = 781, ac_maxQueued = 99968\<rparr> \<and>
   withSandboxAdmission 782 30000 None = Inl ''sandbox admission maxQueued must be an integer from 1 to 100000.''"
  by (simp add: withSandboxAdmission_def is_safe_integer_def MAX_SAFE_INTEGER_def)

end
