(* ===== verification/Thread_Contract.thy ===== *)
theory Thread_Contract
  imports Thread_Collection
begin

section \<open>The patch contract of thread collections (server/http/thread-collection-contract.ts)\<close>

text \<open>
  A client sends the changes of its collection as a patch: threads to store, threads to delete, events to
  append.  The server parses the patch, applies it, and answers with summaries.  An absent optional list of
  a thread is the empty list, as in Thread_Collection.
\<close>

record contract_append =
  ca_events :: "thread_event list"
  ca_replaceFrom :: "int option"
  ca_threadId :: string

record contract_patch =
  cp_activeThreadId :: "string option"
  cp_deletedThreadIds :: "string list"
  cp_eventAppends :: "contract_append list"
  cp_upsertThreads :: "thread list"

subsection \<open>Parsing\<close>

definition parseStrictThreadCollection :: "(json \<Rightarrow> thread_event) \<Rightarrow> rat \<Rightarrow> json \<Rightarrow> collection option" where
  "parseStrictThreadCollection as_event now v =
     (if \<not> is_record v \<or> (jget ''version'' v \<noteq> Some (JNum 1) \<and> jget ''version'' v \<noteq> Some (JNum 2)) then None
      else case jarray (jget ''threads'' v) of None \<Rightarrow> None
      | Some xs \<Rightarrow> let parsed = parseThreadCollection as_event now v
          in if length (co_threads parsed) = length xs then Some parsed else None)"

definition has_text_id :: "json \<Rightarrow> bool" where
  "has_text_id e \<longleftrightarrow> is_record e \<and> (case jget ''meta'' e of Some m \<Rightarrow> is_record m \<and> jstring (jget ''id'' m) \<noteq> None | None \<Rightarrow> False)"

definition parse_append :: "(json \<Rightarrow> thread_event) \<Rightarrow> json \<Rightarrow> contract_append option" where
  "parse_append as_event v =
     (case (jstring (jget ''threadId'' v), jarray (jget ''events'' v)) of
        (Some t, Some es) \<Rightarrow>
          if t = [] \<or> length t > 200 \<or> \<not> list_all has_text_id es then None
          else (case jget ''replaceFrom'' v of
              None \<Rightarrow> Some \<lparr>ca_events = map as_event es, ca_replaceFrom = None, ca_threadId = t\<rparr>
            | Some r \<Rightarrow> (case jsafe_int (Some r) of
                None \<Rightarrow> None
              | Some n \<Rightarrow> if n < 0 then None else Some \<lparr>ca_events = map as_event es, ca_replaceFrom = Some n, ca_threadId = t\<rparr>))
      | _ \<Rightarrow> None)"

definition parse_deleted :: "json list \<Rightarrow> string list option" where
  "parse_deleted xs = (let ids = List.map_filter (\<lambda>x. case x of JStr s \<Rightarrow> if s \<noteq> [] \<and> length s \<le> 200 then Some s else None | _ \<Rightarrow> None) xs
     in if length ids = length xs then Some ids else None)"

definition parse_active :: "json option \<Rightarrow> string option option" where
  "parse_active v = (case v of Some JNull \<Rightarrow> Some None | Some (JStr s) \<Rightarrow> Some (Some s) | _ \<Rightarrow> None)"

text \<open>All the entries, or nothing when one of them is refused.\<close>

definition all_or_none :: "('a \<Rightarrow> 'b option) \<Rightarrow> 'a list \<Rightarrow> 'b list option" where
  "all_or_none f xs = (if list_all (\<lambda>x. f x \<noteq> None) xs then Some (List.map_filter f xs) else None)"

definition consistent_ids :: "string list \<Rightarrow> string list \<Rightarrow> string list \<Rightarrow> bool" where
  "consistent_ids deleted upserts appends \<longleftrightarrow> distinct deleted \<and> distinct upserts \<and> distinct appends \<and>
     \<not> list_ex (\<lambda>i. i \<in> set upserts \<or> i \<in> set appends) deleted"

definition parseThreadCollectionPatch :: "(json \<Rightarrow> thread_event) \<Rightarrow> rat \<Rightarrow> json \<Rightarrow> contract_patch option" where
  "parseThreadCollectionPatch as_event now v =
     (if \<not> is_record v \<or> jget ''version'' v \<noteq> Some (JNum 2) then None
      else case (parse_active (jget ''activeThreadId'' v), jarray (jget ''deletedThreadIds'' v), jarray (jget ''upsertThreads'' v),
          (case jget ''eventAppends'' v of None \<Rightarrow> Some [] | e \<Rightarrow> jarray e)) of
        (Some active, Some deletions, Some upserts, Some appends) \<Rightarrow>
          (case (parse_deleted deletions,
              parseStrictThreadCollection as_event now (JObj [(''threads'', JArr upserts), (''version'', JNum 2)]),
              all_or_none (parse_append as_event) appends) of
            (Some deleted, Some parsed, Some eventAppends) \<Rightarrow>
              if consistent_ids deleted (map th_id (co_threads parsed)) (map ca_threadId eventAppends)
              then Some \<lparr>cp_activeThreadId = active, cp_deletedThreadIds = deleted, cp_eventAppends = eventAppends,
                cp_upsertThreads = co_threads parsed\<rparr>
              else None
          | _ \<Rightarrow> None)
      | _ \<Rightarrow> None)"

subsection \<open>Applying a patch\<close>

definition authoritative :: "transcript_coverage option \<Rightarrow> bool" where
  "authoritative c \<longleftrightarrow> (case c of Some v \<Rightarrow> cv_authoritative v | None \<Rightarrow> False)"

definition merged_coverage :: "thread \<Rightarrow> thread \<Rightarrow> transcript_coverage option" where
  "merged_coverage current replacement =
     (if edit_in_progress replacement then None
      else if authoritative (th_coverage replacement) then th_coverage replacement
      else if th_coverage replacement \<noteq> None
        then (if authoritative (th_coverage current) then th_coverage current else th_coverage replacement)
      else th_coverage current)"

definition mergeSummary :: "thread \<Rightarrow> thread \<Rightarrow> thread" where
  "mergeSummary current replacement = current\<lparr>
     th_closedInputRequestIds := th_closedInputRequestIds replacement,
     th_submissions := th_submissions replacement,
     th_preferences := th_preferences replacement,
     th_queuedTurns := th_queuedTurns replacement,
     th_revision := th_revision replacement,
     th_sessionId := th_sessionId replacement,
     th_streamIndex := th_streamIndex replacement,
     th_status := th_status replacement,
     th_title := th_title replacement,
     th_updatedAt := th_updatedAt replacement,
     th_draftRestore := th_draftRestore replacement,
     th_interruptedTurns := th_interruptedTurns replacement,
     th_pendingTurn := th_pendingTurn replacement,
     th_retainedContext := th_retainedContext replacement,
     th_window := None,
     th_coverage := merged_coverage current replacement\<rparr>"

definition patched_thread :: "contract_patch \<Rightarrow> thread \<Rightarrow> thread" where
  "patched_thread p t =
     (let next = (case map_of (rev (map (\<lambda>r. (th_id r, r)) (cp_upsertThreads p))) (th_id t) of
            None \<Rightarrow> t
          | Some r \<Rightarrow> if th_summary r then mergeSummary t r else r)
      in case map_of (rev (map (\<lambda>a. (ca_threadId a, a)) (cp_eventAppends p))) (th_id t) of
           None \<Rightarrow> next
         | Some a \<Rightarrow>
             if ca_events a = [] then next
             else next\<lparr>th_events := compactThreadEvents
               (take (case ca_replaceFrom a of None \<Rightarrow> length (th_events next) | Some n \<Rightarrow> min (nat n) (length (th_events next)))
                  (th_events next) @ ca_events a)\<rparr>)"

definition applyThreadCollectionPatch :: "collection \<Rightarrow> contract_patch \<Rightarrow> collection" where
  "applyThreadCollectionPatch current p =
     (let threads = map (patched_thread p) (filter (\<lambda>t. th_id t \<notin> set (cp_deletedThreadIds p)) (co_threads current));
          inserted = filter (\<lambda>t. \<not> th_summary t \<and> th_id t \<notin> th_id ` set threads) (cp_upsertThreads p);
          merged = inserted @ threads
      in \<lparr>co_activeThreadId = (case cp_activeThreadId p of
            Some a \<Rightarrow> if a \<noteq> [] \<and> list_ex (\<lambda>t. th_id t = a) merged then Some a else None
          | None \<Rightarrow> None),
          co_threads = merged\<rparr>)"

subsection \<open>Summaries\<close>

definition summary_of :: "thread \<Rightarrow> thread" where
  "summary_of t = t\<lparr>th_closedInputRequestIds := [], th_draftRestore := None, th_events := [], th_summary := True,
     th_interruptedTurns := [], th_retainedContext := [], th_window := None\<rparr>"

definition selectedThreadNeedsHydration :: "string option \<Rightarrow> thread \<Rightarrow> bool" where
  "selectedThreadNeedsHydration included t \<longleftrightarrow> included = Some (th_id t) \<and>
     th_streamIndex t > of_nat (length (th_events t)) \<and> (\<not> authoritative (th_coverage t) \<or> th_events t = [])"

definition summarizeThreadCollection :: "collection \<Rightarrow> string option \<Rightarrow> collection" where
  "summarizeThreadCollection c included = \<lparr>co_activeThreadId = truthy (co_activeThreadId c),
     co_threads = map (\<lambda>t. if included = Some (th_id t) \<and> \<not> selectedThreadNeedsHydration included t then t else summary_of t)
       (co_threads c)\<rparr>"

end
