(* ===== verification/Thread_Client.thy ===== *)
theory Thread_Client
  imports Thread_Contract
begin

section \<open>The workspace's storage client (packages/agent-ui/src/agent-workspace/http-thread-storage.ts)\<close>

text \<open>
  The client remembers, per storage key, the revision it has read and the collection it believes the server
  has (the baseline), and saves the difference between its collection and the baseline.  The answers of the
  server are arguments of the operations.
\<close>

subsection \<open>Requests\<close>

text \<open>
  One attempt: the status of the response and what reading its body gave, or the error raised; an error
  says whether it is one of those that may be retried (\<^verbatim>\<open>isRetryableReadError\<close>).
\<close>

datatype 'b body_outcome = Body 'b | BodyRaised bool
datatype 'b fetch_outcome = Responded nat "'b body_outcome" | Raised bool
datatype 'b request_result = Returned nat "'b option" | Thrown

definition isRetryableReadStatus :: "nat \<Rightarrow> bool" where
  "isRetryableReadStatus s \<longleftrightarrow> s = 408 \<or> s = 425 \<or> s = 429 \<or> s \<ge> 500"

definition response_ok :: "nat \<Rightarrow> bool" where
  "response_ok s \<longleftrightarrow> 200 \<le> s \<and> s \<le> 299"

text \<open>The loop with its remaining retries; the number of attempts made is returned beside the result.\<close>

fun request_loop :: "bool \<Rightarrow> (nat \<Rightarrow> 'b fetch_outcome) \<Rightarrow> nat \<Rightarrow> nat \<Rightarrow> 'b request_result \<times> nat" where
  "request_loop reads fetch n 0 = (case fetch n of
       Raised r \<Rightarrow> (Thrown, Suc n)
     | Responded s b \<Rightarrow>
         if reads \<and> response_ok s then (case b of Body x \<Rightarrow> (Returned s (Some x), Suc n) | BodyRaised r \<Rightarrow> (Thrown, Suc n))
         else (Returned s None, Suc n))"
| "request_loop reads fetch n (Suc left) = (case fetch n of
       Raised r \<Rightarrow> if r then request_loop reads fetch (Suc n) left else (Thrown, Suc n)
     | Responded s b \<Rightarrow>
         if isRetryableReadStatus s then request_loop reads fetch (Suc n) left
         else if reads \<and> response_ok s then
           (case b of Body x \<Rightarrow> (Returned s (Some x), Suc n)
            | BodyRaised r \<Rightarrow> if r then request_loop reads fetch (Suc n) left else (Thrown, Suc n))
         else (Returned s None, Suc n))"

definition request :: "bool \<Rightarrow> nat \<Rightarrow> string option res \<Rightarrow> bool \<Rightarrow> (nat \<Rightarrow> 'b fetch_outcome) \<Rightarrow> 'b request_result \<times> nat" where
  "request is_get readRetryLimit accessToken reads fetch =
     (case accessToken of Inl e \<Rightarrow> (Thrown, 0)
      | Inr token \<Rightarrow>
          if (case token of Some a \<Rightarrow> js_trim a = [] | None \<Rightarrow> False) then (Thrown, 0)
          else request_loop reads fetch 0 (if is_get then readRetryLimit else 0))"

definition boundedInteger :: "int \<Rightarrow> nat \<Rightarrow> nat \<Rightarrow> string \<Rightarrow> int res" where
  "boundedInteger v minimum maximum name =
     (if \<bar>v\<bar> > MAX_SAFE_INTEGER \<or> v < int minimum \<or> v > int maximum
      then Inl (Error (name @ '' must be an integer from '' @ show_nat minimum @ '' to '' @ show_nat maximum @ ''.'')) else Inr v)"

text \<open>The delay before a retry in milliseconds, less the random part of at most 100.\<close>

definition retry_delay :: "rat option \<Rightarrow> nat \<Rightarrow> rat" where
  "retry_delay retryAfterSeconds n =
     max (case retryAfterSeconds of Some s \<Rightarrow> if s \<ge> 0 then min 5000 (s * 1000) else 0 | None \<Rightarrow> 0)
       (min 2000 (250 * 2 ^ (n - 1)))"

subsection \<open>The difference of two collections\<close>

definition thread_named :: "collection \<Rightarrow> string \<Rightarrow> thread option" where
  "thread_named c i = map_of (rev (map (\<lambda>t. (th_id t, t)) (co_threads c))) i"

definition withoutTranscriptWindow :: "thread \<Rightarrow> thread" where
  "withoutTranscriptWindow t = t\<lparr>th_window := None\<rparr>"

definition withoutSummaryHydration :: "thread \<Rightarrow> thread" where
  "withoutSummaryHydration t = t\<lparr>th_summary := False\<rparr>"

definition metadata_only :: "thread \<Rightarrow> thread" where
  "metadata_only t = withoutTranscriptWindow (t\<lparr>th_events := [], th_summary := True\<rparr>)"

definition first_difference :: "thread_event list \<Rightarrow> thread_event list \<Rightarrow> nat" where
  "first_difference previous next = (case find_index (\<lambda>(a, b). eventIdentity a \<noteq> eventIdentity b) (zip previous next) of
     Some i \<Rightarrow> i | None \<Rightarrow> length previous)"

definition appendOnlyEventDelta :: "thread_event list \<Rightarrow> thread_event list \<Rightarrow> (thread_event list \<times> nat) option" where
  "appendOnlyEventDelta previous next =
     (if length next < length previous then None
      else let first = first_difference previous next
        in if list_all (\<lambda>i. eventIdentity (previous ! i) = eventIdentity (next ! i)) [Suc first..<length previous]
           then Some (drop first next, first) else None)"

definition window_start :: "thread \<Rightarrow> int" where
  "window_start t = (case th_window t of Some w \<Rightarrow> tw_startIndex w | None \<Rightarrow> 0)"

text \<open>What is sent of a thread: an append, and the thread to store.\<close>

definition thread_changes :: "candidate_sort \<Rightarrow> thread option \<Rightarrow> thread \<Rightarrow> contract_append option \<times> thread" where
  "thread_changes js_sort prior t = (case prior of
     None \<Rightarrow> (None, withoutTranscriptWindow t)
   | Some previous \<Rightarrow> (case appendOnlyEventDelta (th_events previous) (th_events t) of
       Some (es, first) \<Rightarrow>
         (if es = [] then None
          else Some \<lparr>ca_events = es,
            ca_replaceFrom = (if first = length (th_events previous) then None else Some (window_start previous + int first)),
            ca_threadId = th_id t\<rparr>, metadata_only t)
     | None \<Rightarrow>
         if sameEventIdentityOrder (th_events previous) (th_events t) then (None, metadata_only t)
         else if \<not> edit_in_progress t then
           (let unseen = filter (\<lambda>e. eventIdentity e \<notin> eventIdentity ` set (th_events previous))
                  (mergeThreadEventSnapshots js_sort (th_events previous) (th_events t))
            in (if unseen = [] then None else Some \<lparr>ca_events = unseen, ca_replaceFrom = None, ca_threadId = th_id t\<rparr>, metadata_only t))
         else (None, withoutTranscriptWindow t)))"

text \<open>
  The last filter of \<^verbatim>\<open>createCollectionPatch\<close> compares each thread to store with the baseline's object; the
  threads to store are new objects, so it keeps them all.
\<close>

definition createCollectionPatch :: "candidate_sort \<Rightarrow> collection \<Rightarrow> collection \<Rightarrow> contract_patch" where
  "createCollectionPatch js_sort baseline c =
     (let changes = map (\<lambda>t. thread_changes js_sort (thread_named baseline (th_id t)) t) (co_threads c)
      in \<lparr>cp_activeThreadId = co_activeThreadId c,
          cp_deletedThreadIds = filter (\<lambda>i. i \<notin> th_id ` set (co_threads c)) (map th_id (co_threads baseline)),
          cp_eventAppends = List.map_filter fst changes,
          cp_upsertThreads = map snd changes\<rparr>)"

subsection \<open>The baseline\<close>

definition sameTranscriptCoordinates :: "thread \<Rightarrow> thread \<Rightarrow> bool" where
  "sameTranscriptCoordinates l r \<longleftrightarrow> th_updatedAt l = th_updatedAt r \<and> th_revision l = th_revision r \<and>
     th_sessionId l = th_sessionId r \<and> th_streamIndex l = th_streamIndex r"

definition baselineAfterIndex :: "collection option \<Rightarrow> collection \<Rightarrow> collection" where
  "baselineAfterIndex previous index = (case previous of None \<Rightarrow> index
   | Some old \<Rightarrow> \<lparr>co_activeThreadId = truthy (co_activeThreadId index),
       co_threads = map (\<lambda>t. case thread_named old (th_id t) of
           None \<Rightarrow> t
         | Some prior \<Rightarrow> if \<not> th_summary t \<or> th_summary prior \<or> \<not> sameTranscriptCoordinates prior t then t
             else t\<lparr>th_events := th_events prior, th_summary := False,
               th_window := (case th_window prior of Some w \<Rightarrow> Some w | None \<Rightarrow> th_window t)\<rparr>) (co_threads index)\<rparr>)"

definition baseline_with :: "collection option \<Rightarrow> thread \<Rightarrow> collection" where
  "baseline_with baseline t = \<lparr>co_activeThreadId = (case baseline of Some b \<Rightarrow> truthy (co_activeThreadId b) | None \<Rightarrow> None),
     co_threads = filter (\<lambda>x. th_id x \<noteq> th_id t) (case baseline of Some b \<Rightarrow> co_threads b | None \<Rightarrow> []) @ [t]\<rparr>"

definition baseline_events :: "collection option \<Rightarrow> string \<Rightarrow> thread_event list" where
  "baseline_events baseline i = (case baseline of None \<Rightarrow> []
     | Some b \<Rightarrow> (case find (\<lambda>t. th_id t = i) (co_threads b) of None \<Rightarrow> [] | Some t \<Rightarrow> th_events t))"

definition baselineAfterWindow :: "candidate_sort \<Rightarrow> collection option \<Rightarrow> thread \<Rightarrow> transcript_window \<Rightarrow> collection" where
  "baselineAfterWindow js_sort baseline hydrated w = baseline_with baseline
     (hydrated\<lparr>th_window := Some w,
       th_events := mergeThreadEventSnapshots js_sort (baseline_events baseline (th_id hydrated)) (th_events hydrated)\<rparr>)"

definition saved_thread :: "collection \<Rightarrow> contract_patch \<Rightarrow> thread \<Rightarrow> thread" where
  "saved_thread previous p t = (case thread_named previous (th_id t) of
     None \<Rightarrow> t
   | Some prior \<Rightarrow>
       if edit_in_progress t then t
       else (case map_of (rev (map (\<lambda>a. (ca_threadId a, a)) (cp_eventAppends p))) (th_id t) of
           None \<Rightarrow> t\<lparr>th_events := th_events prior\<rparr>
         | Some a \<Rightarrow> if ca_events a = [] then t\<lparr>th_events := th_events prior\<rparr>
             else if ca_replaceFrom a = None
               then t\<lparr>th_events := th_events prior @ dedupe_from (map eventIdentity (th_events prior)) (ca_events a)\<rparr>
             else t))"

definition baselineAfterPatch :: "collection \<Rightarrow> collection \<Rightarrow> contract_patch \<Rightarrow> collection" where
  "baselineAfterPatch previous next p = \<lparr>co_activeThreadId = truthy (co_activeThreadId next),
     co_threads = map (saved_thread previous p) (filter (\<lambda>t. th_id t \<notin> set (cp_deletedThreadIds p)) (co_threads next))\<rparr>"

subsection \<open>Operations\<close>

text \<open>
  The closure's state.  A reply carries the status and the body that was read; a body whose revision is not
  a safe non-negative integer is a body without one.
\<close>

record storage_client =
  st_revisions :: "string \<rightharpoonup> int"
  st_baselines :: "string \<rightharpoonup> collection"
  st_preferred :: "string option"

datatype client_error = HttpStatus nat | ConflictAt int "int option" | NotLoaded | InvalidReply | Failed

definition client_load :: "string \<Rightarrow> (int \<times> collection) request_result \<Rightarrow> storage_client \<Rightarrow> (client_error + collection) \<times> storage_client" where
  "client_load key reply cl = (case reply of
     Thrown \<Rightarrow> (Inl Failed, cl)
   | Returned s body \<Rightarrow>
       if s = 304 then (case (st_baselines cl key, st_revisions cl key) of
           (Some c, Some _) \<Rightarrow> (Inr c, cl) | _ \<Rightarrow> (Inl (HttpStatus 304), cl))
       else if \<not> response_ok s then (Inl (HttpStatus s), cl)
       else (case body of None \<Rightarrow> (Inl InvalidReply, cl)
         | Some (n, c) \<Rightarrow> (Inr c, cl\<lparr>st_revisions := (st_revisions cl)(key \<mapsto> n),
             st_baselines := (st_baselines cl)(key \<mapsto> baselineAfterIndex (st_baselines cl key) c)\<rparr>)))"

text \<open>The thread of a reply, parsed as a collection of its own.\<close>

definition parse_one :: "(json \<Rightarrow> thread_event) \<Rightarrow> rat \<Rightarrow> json \<Rightarrow> thread option" where
  "parse_one as_event now v =
     (case co_threads (parseThreadCollection as_event now (JObj [(''threads'', JArr [v]), (''version'', JNum 2)])) of
        [] \<Rightarrow> None | t # _ \<Rightarrow> Some (withoutSummaryHydration t))"

definition present :: "json option \<Rightarrow> json option" where
  "present v = (if v = Some JNull then None else v)"

definition keep_thread :: "string \<Rightarrow> int \<Rightarrow> thread option \<Rightarrow> storage_client \<Rightarrow> storage_client" where
  "keep_thread key n t cl = (let cl' = cl\<lparr>st_revisions := (st_revisions cl)(key \<mapsto> n)\<rparr> in
     case t of None \<Rightarrow> cl'
     | Some h \<Rightarrow> cl'\<lparr>st_baselines := (st_baselines cl)(key \<mapsto> baseline_with (st_baselines cl key) h)\<rparr>)"

text \<open>\<^verbatim>\<open>loadThread\<close>, and \<^verbatim>\<open>repairThread\<close>, for which a missing thread is no error.\<close>

definition client_load_thread ::
  "(json \<Rightarrow> thread_event) \<Rightarrow> rat \<Rightarrow> bool \<Rightarrow> string \<Rightarrow> string \<Rightarrow> (int option \<times> json option) request_result \<Rightarrow> storage_client \<Rightarrow>
     (client_error + thread option) \<times> storage_client" where
  "client_load_thread as_event now repair key tid reply cl0 =
     (let cl = cl0\<lparr>st_preferred := Some tid\<rparr> in case reply of
        Thrown \<Rightarrow> (Inl Failed, cl)
      | Returned s body \<Rightarrow>
          if repair \<and> s = 404 then (Inr None, cl)
          else if \<not> response_ok s then (Inl (HttpStatus s), cl)
          else (case body of
              Some (Some n, v) \<Rightarrow>
                let t = (case present v of None \<Rightarrow> None | Some j \<Rightarrow> parse_one as_event now j)
                in (Inr t, keep_thread key n t cl)
            | _ \<Rightarrow> (Inl InvalidReply, cl)))"

definition isTranscriptWindow :: "json option \<Rightarrow> transcript_window option" where
  "isTranscriptWindow v = (case v of None \<Rightarrow> None | Some w \<Rightarrow>
     (case (jsafe_int (jget ''startIndex'' w), jsafe_int (jget ''endIndex'' w), jsafe_int (jget ''total'' w), jbool (jget ''hasMoreBefore'' w)) of
        (Some a, Some e, Some n, Some m) \<Rightarrow>
          if 0 \<le> a \<and> a \<le> e \<and> e \<le> n
          then Some \<lparr>tw_endIndex = e, tw_hasMoreBefore = m, tw_startIndex = a, tw_total = n\<rparr> else None
      | _ \<Rightarrow> None))"

definition client_load_window ::
  "(json \<Rightarrow> thread_event) \<Rightarrow> rat \<Rightarrow> candidate_sort \<Rightarrow> string \<Rightarrow> string \<Rightarrow>
     (int option \<times> json option \<times> json option) request_result \<Rightarrow> storage_client \<Rightarrow>
     (client_error + (thread \<times> transcript_window) option) \<times> storage_client" where
  "client_load_window as_event now js_sort key tid reply cl0 =
     (let cl = cl0\<lparr>st_preferred := Some tid\<rparr> in case reply of
        Thrown \<Rightarrow> (Inl Failed, cl)
      | Returned s body \<Rightarrow>
          if \<not> response_ok s then (Inl (HttpStatus s), cl)
          else (case body of
              Some (Some n, v, w) \<Rightarrow>
                (case (present v, isTranscriptWindow w) of
                   (Some j, Some window) \<Rightarrow>
                     (case parse_one as_event now j of None \<Rightarrow> (Inr None, cl)
                      | Some h \<Rightarrow> (Inr (Some (h, window)), cl\<lparr>st_revisions := (st_revisions cl)(key \<mapsto> n),
                          st_baselines := (st_baselines cl)(key \<mapsto> baselineAfterWindow js_sort (st_baselines cl key) h window)\<rparr>))
                 | _ \<Rightarrow> (Inr None, cl))
            | _ \<Rightarrow> (Inl InvalidReply, cl)))"

text \<open>A save: the request it sends, and what its reply makes of the state.\<close>

definition save_request :: "candidate_sort \<Rightarrow> string \<Rightarrow> collection \<Rightarrow> storage_client \<Rightarrow> client_error + (int \<times> contract_patch)" where
  "save_request js_sort key c cl = (case (st_revisions cl key, st_baselines cl key) of
     (Some n, Some baseline) \<Rightarrow> Inr (n, createCollectionPatch js_sort baseline c) | _ \<Rightarrow> Inl NotLoaded)"

datatype save_reply = SaveThrown | SaveReply nat "int option" "int option"

definition client_save ::
  "candidate_sort \<Rightarrow> string \<Rightarrow> collection \<Rightarrow> save_reply \<Rightarrow> storage_client \<Rightarrow> (client_error + unit) \<times> storage_client" where
  "client_save js_sort key c reply cl0 =
     (let cl = cl0\<lparr>st_preferred := co_activeThreadId c\<rparr> in
      case (st_revisions cl key, st_baselines cl key) of
        (Some n, Some baseline) \<Rightarrow> (case reply of
            SaveThrown \<Rightarrow> (Inl Failed, cl)
          | SaveReply s etag body \<Rightarrow>
              if s = 409 then (Inl (ConflictAt n etag), cl)
              else if \<not> response_ok s then (Inl (HttpStatus s), cl)
              else (case body of None \<Rightarrow> (Inl InvalidReply, cl)
                | Some m \<Rightarrow> (Inr (), cl\<lparr>st_revisions := (st_revisions cl)(key \<mapsto> m),
                    st_baselines := (st_baselines cl)(key \<mapsto> baselineAfterPatch baseline c (createCollectionPatch js_sort baseline c))\<rparr>)))
      | _ \<Rightarrow> (Inl NotLoaded, cl))"

subsection \<open>Saving with conflict recovery\<close>

text \<open>
  \<^verbatim>\<open>saveThreadCollectionWithConflictRecovery\<close> of the workspace: after a conflict the remote collection is
  loaded and merged, twice at most.  The storage is a pair of operations on a world; the collections sent
  are returned beside the result.
\<close>

datatype save_outcome = SaveOk | SaveConflict | SaveFailed

fun save_with_recovery ::
  "candidate_sort \<Rightarrow> (collection \<Rightarrow> 'w \<Rightarrow> save_outcome \<times> 'w) \<Rightarrow> (collection \<Rightarrow> 'w \<Rightarrow> collection option \<times> 'w) \<Rightarrow>
     nat \<Rightarrow> collection \<Rightarrow> 'w \<Rightarrow> collection list \<times> collection option \<times> 'w" where
  "save_with_recovery js_sort save_op load_op 0 c w = (case save_op c w of
     (SaveOk, w') \<Rightarrow> ([c], Some c, w') | (_, w') \<Rightarrow> ([c], None, w'))"
| "save_with_recovery js_sort save_op load_op (Suc left) c w = (case save_op c w of
     (SaveOk, w') \<Rightarrow> ([c], Some c, w')
   | (SaveFailed, w') \<Rightarrow> ([c], None, w')
   | (SaveConflict, w') \<Rightarrow> (case load_op c w' of
         (None, w'') \<Rightarrow> ([c], None, w'')
       | (Some remote, w'') \<Rightarrow>
           (case save_with_recovery js_sort save_op load_op left (mergeThreadCollectionsForConflict js_sort c remote) w'' of
              (tried, r, w3) \<Rightarrow> (c # tried, r, w3))))"

definition saveThreadCollectionWithConflictRecovery ::
  "candidate_sort \<Rightarrow> (collection \<Rightarrow> 'w \<Rightarrow> save_outcome \<times> 'w) \<Rightarrow> (collection \<Rightarrow> 'w \<Rightarrow> collection option \<times> 'w) \<Rightarrow>
     collection \<Rightarrow> 'w \<Rightarrow> collection list \<times> collection option \<times> 'w" where
  "saveThreadCollectionWithConflictRecovery js_sort save_op load_op c w = save_with_recovery js_sort save_op load_op 2 c w"

end
