(* ===== verification/Thread_Store.thy ===== *)
theory Thread_Store
  imports Json Js_Arrays
begin

section \<open>The store of thread collections (server/data/thread-collection-store.ts)\<close>

text \<open>
  An account's threads are one row with a revision; their events are rows of a log, one per event, with
  an index and an identity.  A writer names the revision it has read.  A transaction is a function of the
  tables that returns them unchanged when it is rolled back.  The cleaning of a text
  (\<^verbatim>\<open>toWellFormed().replaceAll("\u0000", "\uFFFD")\<close>) is a parameter.  The order of the fields of an
  object is not observed; a stored collection has its threads in an array, and an \<^verbatim>\<open>updatedAt\<close> that is
  not a number sorts as 0.
\<close>

subsection \<open>Tables\<close>

type_synonym scope = "string \<times> string \<times> string"

record event_row =
  er_scope :: scope
  er_thread :: string
  er_index :: int
  er_id :: string
  er_event :: json

record thread_db =
  td_collections :: "(scope \<times> int \<times> json) list"
  td_events :: "event_row list"

datatype store_error = Failed js_error | UnsafeReplacement

type_synonym 'a stored = "store_error + 'a"

datatype write_result = Saved int json | Conflict int

definition row_of :: "thread_db \<Rightarrow> scope \<Rightarrow> (int \<times> json) option" where
  "row_of db sc = map_of (td_collections db) sc"

definition in_log :: "scope \<Rightarrow> string \<Rightarrow> event_row \<Rightarrow> bool" where
  "in_log sc t r \<longleftrightarrow> er_scope r = sc \<and> er_thread r = t"

definition log_of :: "thread_db \<Rightarrow> scope \<Rightarrow> string \<Rightarrow> event_row list" where
  "log_of db sc t = filter (in_log sc t) (td_events db)"

text \<open>\<^verbatim>\<open>coalesce(max(event_index) + 1, 0)\<close>\<close>

definition next_index :: "event_row list \<Rightarrow> int" where
  "next_index rs = foldr (\<lambda>r n. max (er_index r + 1) n) rs 0"

subsection \<open>Checks\<close>

definition fail :: "string \<Rightarrow> 'a stored" where
  "fail m = Inl (Failed (Error m))"

definition check_text :: "string \<Rightarrow> string \<Rightarrow> nat \<Rightarrow> unit stored" where
  "check_text v name maximum =
     (if js_trim v = [] \<or> length v > maximum
      then fail (name @ '' must contain between 1 and '' @ show_nat maximum @ '' characters.'') else Inr ())"

definition assertScope :: "scope \<Rightarrow> unit stored" where
  "assertScope sc = (case sc of (tenantId, principalId, storageKey) \<Rightarrow>
     case check_text tenantId ''tenantId'' 512 of Inl e \<Rightarrow> Inl e | Inr _ \<Rightarrow>
     (case check_text principalId ''principalId'' 512 of Inl e \<Rightarrow> Inl e | Inr _ \<Rightarrow> check_text storageKey ''storageKey'' 200))"

definition safe_nonnegative :: "int \<Rightarrow> bool" where
  "safe_nonnegative n \<longleftrightarrow> 0 \<le> n \<and> n \<le> MAX_SAFE_INTEGER"

definition assertRevision :: "int \<Rightarrow> unit stored" where
  "assertRevision n = (if safe_nonnegative n then Inr () else fail ''expectedRevision must be a non-negative safe integer.'')"

definition parseRevision :: "int \<Rightarrow> int stored" where
  "parseRevision n = (if safe_nonnegative n then Inr n else fail ''Stored thread collection revision exceeds the supported range.'')"

definition boundedWindowInteger :: "int option \<Rightarrow> int \<Rightarrow> int \<Rightarrow> int \<Rightarrow> string \<Rightarrow> int stored" where
  "boundedWindowInteger v fallback minimum maximum name =
     (let candidate = (case v of Some n \<Rightarrow> n | None \<Rightarrow> fallback)
      in if \<bar>candidate\<bar> > MAX_SAFE_INTEGER \<or> candidate < minimum \<or> candidate > maximum
         then fail (name @ '' must be an integer from '' @ show_nat (nat minimum) @ '' to '' @ show_nat (nat maximum) @ ''.'')
         else Inr candidate)"

subsection \<open>Objects\<close>

definition jput :: "string \<Rightarrow> json \<Rightarrow> json \<Rightarrow> json" where
  "jput k x v = (case v of JObj kvs \<Rightarrow> JObj (filter (\<lambda>(k', _). k' \<noteq> k) kvs @ [(k, x)]) | _ \<Rightarrow> v)"

definition jdelete :: "string \<Rightarrow> json \<Rightarrow> json" where
  "jdelete k v = (case v of JObj kvs \<Rightarrow> JObj (filter (\<lambda>(k', _). k' \<noteq> k) kvs) | _ \<Rightarrow> v)"

text \<open>A property set to a value that may be \<^verbatim>\<open>undefined\<close>, which \<^verbatim>\<open>JSON.stringify\<close> leaves out.\<close>

definition jassign :: "string \<Rightarrow> json option \<Rightarrow> json \<Rightarrow> json" where
  "jassign k x v = (case x of Some y \<Rightarrow> jput k y v | None \<Rightarrow> jdelete k v)"

definition as_record :: "json option \<Rightarrow> json option" where
  "as_record v = (case v of Some (JObj kvs) \<Rightarrow> Some (JObj kvs) | _ \<Rightarrow> None)"

definition jtruthy :: "json option \<Rightarrow> bool" where
  "jtruthy v = (case v of None \<Rightarrow> False | Some JNull \<Rightarrow> False | Some (JBool b) \<Rightarrow> b | Some (JNum x) \<Rightarrow> x \<noteq> 0
     | Some (JStr s) \<Rightarrow> s \<noteq> [] | Some (JArr _) \<Rightarrow> True | Some (JObj _) \<Rightarrow> True)"

fun normalizeJsonbValue :: "(string \<Rightarrow> string) \<Rightarrow> json \<Rightarrow> json" where
  "normalizeJsonbValue clean (JStr s) = JStr (clean s)"
| "normalizeJsonbValue clean (JArr xs) = JArr (map (normalizeJsonbValue clean) xs)"
| "normalizeJsonbValue clean (JObj kvs) = JObj (map (\<lambda>(k, v). (k, normalizeJsonbValue clean v)) kvs)"
| "normalizeJsonbValue clean JNull = JNull"
| "normalizeJsonbValue clean (JBool b) = JBool b"
| "normalizeJsonbValue clean (JNum x) = JNum x"

definition threadEvents :: "json \<Rightarrow> json list" where
  "threadEvents t = (case jarray (jget ''events'' t) of None \<Rightarrow> [] | Some xs \<Rightarrow> filter is_record xs)"

definition isExplicitTranscriptReplacement :: "json \<Rightarrow> bool" where
  "isExplicitTranscriptReplacement t = (case as_record (jget ''pendingTurn'' t) of None \<Rightarrow> False
     | Some p \<Rightarrow> jget ''state'' p = Some (JStr ''clearing'') \<or> jget ''state'' p = Some (JStr ''resubmitting''))"

text \<open>The identity of an event, and the one it is given when it has none.\<close>

definition event_id :: "json \<Rightarrow> string option" where
  "event_id e = (case as_record (jget ''meta'' e) of None \<Rightarrow> None | Some m \<Rightarrow> truthy (jstring (jget ''id'' m)))"

definition show_index :: "int \<Rightarrow> string" where
  "show_index n = show_nat (nat n)"

definition stored_id :: "string \<Rightarrow> int \<Rightarrow> json \<Rightarrow> string" where
  "stored_id t n e = (case event_id e of Some i \<Rightarrow> i | None \<Rightarrow> ''legacy:'' @ t @ '':'' @ show_index n)"

subsection \<open>Writing the log\<close>

text \<open>
  \<^verbatim>\<open>insert ... where not exists ... on conflict do nothing\<close>: a row whose index or identity the thread
  already has is skipped.
\<close>

definition insert_row :: "event_row \<Rightarrow> event_row list \<Rightarrow> event_row list" where
  "insert_row r rs =
     (if list_ex (\<lambda>x. in_log (er_scope r) (er_thread r) x \<and> (er_id x = er_id r \<or> er_index x = er_index r)) rs then rs else rs @ [r])"

definition insertThreadEvents :: "(string \<Rightarrow> string) \<Rightarrow> scope \<Rightarrow> string \<Rightarrow> (json \<times> int) list \<Rightarrow> thread_db \<Rightarrow> thread_db" where
  "insertThreadEvents clean sc t entries db = db\<lparr>td_events := foldl (\<lambda>rs (e, n).
     insert_row \<lparr>er_scope = sc, er_thread = t, er_index = n, er_id = stored_id t n e, er_event = normalizeJsonbValue clean e\<rparr> rs)
     (td_events db) entries\<rparr>"

definition delete_log :: "scope \<Rightarrow> string \<Rightarrow> int \<Rightarrow> thread_db \<Rightarrow> thread_db" where
  "delete_log sc t from_index db = db\<lparr>td_events := filter (\<lambda>r. \<not> (in_log sc t r \<and> er_index r \<ge> from_index)) (td_events db)\<rparr>"

definition delete_thread :: "scope \<Rightarrow> string \<Rightarrow> thread_db \<Rightarrow> thread_db" where
  "delete_thread sc t db = db\<lparr>td_events := filter (\<lambda>r. \<not> in_log sc t r) (td_events db)\<rparr>"

text \<open>Entries with consecutive indexes.\<close>

definition numbered :: "int \<Rightarrow> json list \<Rightarrow> (json \<times> int) list" where
  "numbered n es = zip es (map (\<lambda>i. n + int i) [0..<length es])"

definition same_stored :: "string \<Rightarrow> nat \<Rightarrow> json \<Rightarrow> event_row \<Rightarrow> bool" where
  "same_stored t i e r \<longleftrightarrow> er_index r = int i \<and>
     (case event_id e of
        Some j \<Rightarrow> er_id r = j
      | None \<Rightarrow> er_id r = ''legacy:'' @ show_nat i \<or> er_id r = ''legacy:'' @ t @ '':'' @ show_nat i)"

definition assertReplacementPrefix :: "scope \<Rightarrow> string \<Rightarrow> json list \<Rightarrow> thread_db \<Rightarrow> unit stored" where
  "assertReplacementPrefix sc t es db =
     (case parseRevision (next_index (log_of db sc t)) of Inl e \<Rightarrow> Inl e | Inr tot \<Rightarrow>
        if tot = 0 then Inr ()
        else if es = [] \<or> int (length es) > tot then Inl UnsafeReplacement
        else let prefix = sort_key er_index (filter (\<lambda>r. er_index r < int (length es)) (log_of db sc t)) in
          if length prefix \<noteq> length es then Inl UnsafeReplacement
          else if list_all (\<lambda>i. same_stored t i (es ! i) (prefix ! i)) [0..<length es] then Inr () else Inl UnsafeReplacement)"

definition replaceThreadEvents :: "(string \<Rightarrow> string) \<Rightarrow> scope \<Rightarrow> string \<Rightarrow> json list \<Rightarrow> thread_db \<Rightarrow> thread_db stored" where
  "replaceThreadEvents clean sc t es db =
     (case assertReplacementPrefix sc t es db of Inl e \<Rightarrow> Inl e
      | Inr _ \<Rightarrow> Inr (insertThreadEvents clean sc t (numbered 0 es) (delete_thread sc t db)))"

record event_append =
  ea_events :: "json list"
  ea_replaceFrom :: "int option"
  ea_threadId :: string

text \<open>The candidates that are neither stored nor repeated.\<close>

fun fresh_events :: "string list \<Rightarrow> (json \<times> string) list \<Rightarrow> json list" where
  "fresh_events seen [] = []"
| "fresh_events seen ((e, i) # cs) = (if i \<in> set seen then fresh_events seen cs else e # fresh_events (i # seen) cs)"

definition appendThreadEvents :: "(string \<Rightarrow> string) \<Rightarrow> scope \<Rightarrow> event_append \<Rightarrow> thread_db \<Rightarrow> thread_db stored" where
  "appendThreadEvents clean sc a db =
     (let t = ea_threadId a; valid = filter is_record (ea_events a) in
      if valid = [] \<and> ea_replaceFrom a = None then Inr db
      else case (case ea_replaceFrom a of Some n \<Rightarrow> Inr n | None \<Rightarrow> parseRevision (next_index (log_of db sc t))) of
          Inl e \<Rightarrow> Inl e
        | Inr start \<Rightarrow>
            let db1 = (case ea_replaceFrom a of Some n \<Rightarrow> delete_log sc t n db | None \<Rightarrow> db);
                candidates = map (\<lambda>(e, n). (e, stored_id t n e)) (numbered start valid);
                fresh = fresh_events (map er_id (log_of db1 sc t)) candidates
            in Inr (insertThreadEvents clean sc t (numbered start fresh) db1))"

subsection \<open>The metadata of a thread\<close>

definition mergeSummaryThread :: "json \<Rightarrow> json \<Rightarrow> json" where
  "mergeSummaryThread current replacement =
     (let copied = foldl (\<lambda>v k. jassign k (jget k replacement) v) current
            [''closedInputRequestIds'', ''inputResponseSubmissions'', ''preferences'', ''queuedTurns'', ''revision'', ''session'',
             ''status'', ''title'', ''updatedAt'', ''draftRestore'', ''interruptedTurns'', ''pendingTurn'', ''retainedContext''];
          next = jdelete ''transcriptWindow'' copied;
          replacementCoverage = as_record (jget ''transcriptCoverage'' replacement);
          currentCoverage = as_record (jget ''transcriptCoverage'' current);
          authoritative = (\<lambda>c. (case c of None \<Rightarrow> False | Some x \<Rightarrow> jget ''authoritative'' x = Some (JBool True)))
      in jassign ''transcriptCoverage''
           (if isExplicitTranscriptReplacement replacement then None
            else if authoritative replacementCoverage then replacementCoverage
            else if replacementCoverage \<noteq> None
              then (if authoritative currentCoverage then currentCoverage else replacementCoverage)
            else currentCoverage) next)"

definition string_id :: "json \<Rightarrow> string option" where
  "string_id t = jstring (jget ''id'' t)"

definition record_threads :: "json \<Rightarrow> json list" where
  "record_threads c = (case jarray (jget ''threads'' c) of None \<Rightarrow> [] | Some xs \<Rightarrow> filter is_record xs)"

record thread_patch =
  pa_activeThreadId :: "string option option"
  pa_deletedThreadIds :: "string list"
  pa_eventAppends :: "event_append list"
  pa_upsertThreads :: "json list"

definition assertThreadPatch :: "thread_patch \<Rightarrow> unit stored" where
  "assertThreadPatch p = (case pa_activeThreadId p of
      Some (Some a) \<Rightarrow> if js_trim a = [] \<or> length a > 200 then fail ''Invalid active thread id.'' else Inr ()
    | _ \<Rightarrow> Inr ())"

definition with_ids :: "json list \<Rightarrow> (string \<times> json) list" where
  "with_ids ts = List.map_filter (\<lambda>t. map_option (\<lambda>i. (i, t)) (string_id t)) ts"

definition without_events :: "json \<Rightarrow> json" where
  "without_events t = jput ''events'' (JArr []) t"

definition patched_threads :: "json list \<Rightarrow> thread_patch \<Rightarrow> json list" where
  "patched_threads current p =
     (let replacements = with_ids (pa_upsertThreads p);
          kept = List.map_filter (\<lambda>t. (case truthy (string_id t) of None \<Rightarrow> None
            | Some i \<Rightarrow> if i \<in> set (pa_deletedThreadIds p) then None
                else Some (without_events (case map_of (rev replacements) i of None \<Rightarrow> t
                  | Some r \<Rightarrow> if jget ''hydration'' r = Some (JStr ''summary'') then mergeSummaryThread t r else r)))) current;
          added = List.map_filter (\<lambda>(i, r). if i \<in> set (map fst (with_ids current)) \<or> i \<in> set (pa_deletedThreadIds p) then None
            else Some (without_events r)) (map_values (map (\<lambda>(i, r). (i, (i, r))) replacements))
      in kept @ added)"

definition patched_collection :: "(string \<Rightarrow> string) \<Rightarrow> json option \<Rightarrow> thread_patch \<Rightarrow> json" where
  "patched_collection clean stored p =
     (let current = (case as_record stored of Some c \<Rightarrow> c | None \<Rightarrow> JObj [(''threads'', JArr []), (''version'', JNum 2)]);
          active = (case pa_activeThreadId p of None \<Rightarrow> jstring (jget ''activeThreadId'' current) | Some a \<Rightarrow> a)
      in normalizeJsonbValue clean (JObj ((case truthy active of None \<Rightarrow> [] | Some a \<Rightarrow> [(''activeThreadId'', JStr a)]) @
           [(''threads'', JArr (patched_threads (record_threads current) p)), (''version'', JNum 2)])))"

subsection \<open>Writers\<close>

text \<open>The loops of a transaction stop at the first error.\<close>

fun each :: "('a \<Rightarrow> thread_db \<Rightarrow> thread_db stored) \<Rightarrow> 'a list \<Rightarrow> thread_db \<Rightarrow> thread_db stored" where
  "each f [] db = Inr db"
| "each f (x # xs) db = (case f x db of Inl e \<Rightarrow> Inl e | Inr db' \<Rightarrow> each f xs db')"

definition put_row :: "scope \<Rightarrow> int \<Rightarrow> json \<Rightarrow> thread_db \<Rightarrow> thread_db" where
  "put_row sc n c db = db\<lparr>td_collections := (sc, n, c) # filter (\<lambda>(sc', _). sc' \<noteq> sc) (td_collections db)\<rparr>"

definition replace_transcript :: "(string \<Rightarrow> string) \<Rightarrow> scope \<Rightarrow> json \<Rightarrow> thread_db \<Rightarrow> thread_db stored" where
  "replace_transcript clean sc t db = (case string_id t of None \<Rightarrow> Inr db
     | Some i \<Rightarrow> let es = threadEvents t in
         if es = [] \<and> \<not> isExplicitTranscriptReplacement t then Inr db else replaceThreadEvents clean sc i es db)"

definition patch_tx :: "(string \<Rightarrow> string) \<Rightarrow> scope \<Rightarrow> int \<Rightarrow> thread_patch \<Rightarrow> thread_db \<Rightarrow> (write_result \<times> thread_db) stored" where
  "patch_tx clean sc expected p db =
     (case (case row_of db sc of None \<Rightarrow> Inr 0 | Some (n, _) \<Rightarrow> parseRevision n) of Inl e \<Rightarrow> Inl e | Inr revision \<Rightarrow>
      if expected \<noteq> revision then Inr (Conflict revision, db)
      else let next = patched_collection clean (map_option snd (row_of db sc)) p;
               db1 = put_row sc (case row_of db sc of None \<Rightarrow> 1 | Some (n, _) \<Rightarrow> n + 1) next db;
               db2 = foldl (\<lambda>d t. delete_thread sc t d) db1 (pa_deletedThreadIds p)
        in (case each (replace_transcript clean sc) (pa_upsertThreads p) db2 of Inl e \<Rightarrow> Inl e | Inr db3 \<Rightarrow>
           (case each (appendThreadEvents clean sc) (pa_eventAppends p) db3 of Inl e \<Rightarrow> Inl e
            | Inr db4 \<Rightarrow> Inr (Saved (expected + 1) next, db4))))"

text \<open>A transaction that is rolled back leaves the tables as they were.\<close>

definition transacted :: "(write_result \<times> thread_db) stored \<Rightarrow> thread_db \<Rightarrow> write_result stored \<times> thread_db" where
  "transacted r db = (case r of Inl e \<Rightarrow> (Inl e, db) | Inr (Conflict n, _) \<Rightarrow> (Inr (Conflict n), db) | Inr (w, db') \<Rightarrow> (Inr w, db'))"

definition patch :: "(string \<Rightarrow> string) \<Rightarrow> scope \<Rightarrow> int \<Rightarrow> thread_patch \<Rightarrow> thread_db \<Rightarrow> write_result stored \<times> thread_db" where
  "patch clean sc expected p db =
     (case assertScope sc of Inl e \<Rightarrow> (Inl e, db) | Inr _ \<Rightarrow>
     (case assertRevision expected of Inl e \<Rightarrow> (Inl e, db) | Inr _ \<Rightarrow>
     (case assertThreadPatch p of Inl e \<Rightarrow> (Inl e, db) | Inr _ \<Rightarrow> transacted (patch_tx clean sc expected p db) db)))"

definition save_tx :: "(string \<Rightarrow> string) \<Rightarrow> scope \<Rightarrow> int \<Rightarrow> json \<Rightarrow> thread_db \<Rightarrow> (write_result \<times> thread_db) stored" where
  "save_tx clean sc expected c db =
     (let normalized = normalizeJsonbValue clean c;
          saved = (if expected = 0 then (if row_of db sc = None then Some 1 else None)
                   else (case row_of db sc of Some (n, _) \<Rightarrow> if n = expected then Some (n + 1) else None | None \<Rightarrow> None))
      in case saved of
           None \<Rightarrow> (case (case row_of db sc of None \<Rightarrow> Inr 0 | Some (n, _) \<Rightarrow> parseRevision n) of Inl e \<Rightarrow> Inl e | Inr n \<Rightarrow> Inr (Conflict n, db))
         | Some n \<Rightarrow> (case each (replace_transcript clean sc) (record_threads normalized) (put_row sc n normalized db) of Inl e \<Rightarrow> Inl e
             | Inr db' \<Rightarrow> Inr (Saved n normalized, db')))"

text \<open>The revision is read after the commit.\<close>

definition save :: "(string \<Rightarrow> string) \<Rightarrow> scope \<Rightarrow> int \<Rightarrow> json \<Rightarrow> thread_db \<Rightarrow> write_result stored \<times> thread_db" where
  "save clean sc expected c db =
     (case assertScope sc of Inl e \<Rightarrow> (Inl e, db) | Inr _ \<Rightarrow>
     (case assertRevision expected of Inl e \<Rightarrow> (Inl e, db) | Inr _ \<Rightarrow>
     (case transacted (save_tx clean sc expected c db) db of
        (Inr (Saved n stored), db') \<Rightarrow> (case parseRevision n of Inl e \<Rightarrow> (Inl e, db') | Inr m \<Rightarrow> (Inr (Saved m stored), db'))
      | other \<Rightarrow> other)))"

subsection \<open>Readers\<close>

definition load :: "scope \<Rightarrow> thread_db \<Rightarrow> (int \<times> json) option stored" where
  "load sc db = (case assertScope sc of Inl e \<Rightarrow> Inl e | Inr _ \<Rightarrow>
     (case row_of db sc of None \<Rightarrow> Inr None
      | Some (n, c) \<Rightarrow> (case parseRevision n of Inl e \<Rightarrow> Inl e | Inr m \<Rightarrow> Inr (Some (m, c)))))"

definition readRevision :: "scope \<Rightarrow> thread_db \<Rightarrow> int option stored" where
  "readRevision sc db = (case assertScope sc of Inl e \<Rightarrow> Inl e | Inr _ \<Rightarrow>
     (case row_of db sc of None \<Rightarrow> Inr None | Some (n, c) \<Rightarrow> (case parseRevision n of Inl e \<Rightarrow> Inl e | Inr m \<Rightarrow> Inr (Some m))))"

record window_bounds =
  wb_endIndex :: int
  wb_hasMoreBefore :: bool
  wb_startIndex :: int
  wb_total :: int

record window_result =
  wr_revision :: int
  wr_thread :: json
  wr_window :: window_bounds

definition legacy_events :: "json \<Rightarrow> json list" where
  "legacy_events t = (case jarray (jget ''events'' t) of None \<Rightarrow> [] | Some xs \<Rightarrow> xs)"

text \<open>The bounds of the window before an index (the end of the log by default), and its events.\<close>

definition window_of :: "int \<Rightarrow> int option \<Rightarrow> int \<Rightarrow> window_bounds" where
  "window_of tot before limit =
     (let final = min tot (case before of Some b \<Rightarrow> b | None \<Rightarrow> tot); first = max 0 (final - limit)
      in \<lparr>wb_endIndex = final, wb_hasMoreBefore = (first > 0), wb_startIndex = first, wb_total = tot\<rparr>)"

definition window_events :: "event_row list \<Rightarrow> json list \<Rightarrow> window_bounds \<Rightarrow> int \<Rightarrow> json list" where
  "window_events rs legacy b limit =
     (let rows = take (nat limit) (sort_key er_index (filter (\<lambda>r. wb_startIndex b \<le> er_index r \<and> er_index r < wb_endIndex b) rs))
      in if rows \<noteq> [] then map er_event rows
         else take (nat (wb_endIndex b - wb_startIndex b)) (drop (nat (wb_startIndex b)) legacy))"

definition loadThreadWindow :: "scope \<Rightarrow> string \<Rightarrow> int option \<Rightarrow> int option \<Rightarrow> thread_db \<Rightarrow> window_result option stored" where
  "loadThreadWindow sc t before0 limit0 db =
     (case assertScope sc of Inl e \<Rightarrow> Inl e | Inr _ \<Rightarrow>
     (case check_text t ''threadId'' 200 of Inl e \<Rightarrow> Inl e | Inr _ \<Rightarrow>
     (case boundedWindowInteger limit0 256 1 1000 ''limit'' of Inl e \<Rightarrow> Inl e | Inr limit \<Rightarrow>
     (case (case before0 of None \<Rightarrow> Inr None | Some b \<Rightarrow> map_sum id Some (boundedWindowInteger (Some b) 0 0 MAX_SAFE_INTEGER ''before'')) of
        Inl e \<Rightarrow> Inl e | Inr before \<Rightarrow>
     (case row_of db sc of None \<Rightarrow> Inr None | Some (n, c) \<Rightarrow>
     (case find (\<lambda>x. string_id x = Some t) (case jarray (jget ''threads'' c) of None \<Rightarrow> [] | Some xs \<Rightarrow> xs) of None \<Rightarrow> Inr None | Some target \<Rightarrow>
        let rs = log_of db sc t; legacy = legacy_events target;
            tot = (if rs = [] then int (length legacy) else next_index rs);
            b = window_of tot before limit;
            metadata = jdelete ''transcriptWindow'' (jdelete ''hydration'' (jdelete ''events'' target))
        in (case parseRevision tot of Inl e \<Rightarrow> Inl e | Inr _ \<Rightarrow>
           (case parseRevision n of Inl e \<Rightarrow> Inl e | Inr revision \<Rightarrow>
              Inr (Some \<lparr>wr_revision = revision, wr_thread = jput ''events'' (JArr (window_events rs legacy b limit)) metadata, wr_window = b\<rparr>)))))))))"

definition json_window :: "window_bounds \<Rightarrow> json" where
  "json_window b = JObj [(''endIndex'', JNum (of_int (wb_endIndex b))), (''hasMoreBefore'', JBool (wb_hasMoreBefore b)),
     (''startIndex'', JNum (of_int (wb_startIndex b))), (''total'', JNum (of_int (wb_total b)))]"

definition loadThread :: "scope \<Rightarrow> string \<Rightarrow> thread_db \<Rightarrow> (int \<times> json) option stored" where
  "loadThread sc t db = map_sum id (map_option (\<lambda>r. (wr_revision r,
     if is_record (wr_thread r) then jput ''transcriptWindow'' (json_window (wr_window r)) (wr_thread r) else wr_thread r)))
     (loadThreadWindow sc t None (Some 256) db)"

text \<open>The index of an account: the metadata of each thread, newest first, a missing field as null.\<close>

definition jfield :: "string \<Rightarrow> json \<Rightarrow> json" where
  "jfield k t = (case jget k t of Some v \<Rightarrow> v | None \<Rightarrow> JNull)"

definition index_thread :: "json \<Rightarrow> json" where
  "index_thread t = JObj ([(''closedInputRequestIds'', JArr []), (''createdAt'', jfield ''createdAt'' t), (''events'', JArr []),
     (''hydration'', JStr ''summary''), (''id'', jfield ''id'' t)] @
     map (\<lambda>k. (k, jfield k t)) [''inputResponseSubmissions'', ''pendingTurn'', ''preferences''] @
     [(''queuedTurns'', case jget ''queuedTurns'' t of Some v \<Rightarrow> v | None \<Rightarrow> JArr [])] @
     map (\<lambda>k. (k, jfield k t)) [''revision'', ''session'', ''status'', ''transcriptCoverage'', ''title'', ''updatedAt''])"

definition updated_at :: "json \<Rightarrow> rat" where
  "updated_at t = (case jget ''updatedAt'' t of Some (JNum x) \<Rightarrow> x | _ \<Rightarrow> 0)"

definition loadIndex :: "scope \<Rightarrow> thread_db \<Rightarrow> (int \<times> json) option stored" where
  "loadIndex sc db = (case assertScope sc of Inl e \<Rightarrow> Inl e | Inr _ \<Rightarrow>
     (case row_of db sc of None \<Rightarrow> Inr None
      | Some (n, c) \<Rightarrow> (case parseRevision n of Inl e \<Rightarrow> Inl e | Inr m \<Rightarrow>
          Inr (Some (m, JObj [(''activeThreadId'', jfield ''activeThreadId'' c),
            (''threads'', JArr (map index_thread (sort_key (\<lambda>t. - updated_at t) (case jarray (jget ''threads'' c) of None \<Rightarrow> [] | Some xs \<Rightarrow> xs)))),
            (''version'', case jget ''version'' c of Some v \<Rightarrow> v | None \<Rightarrow> JNum 2)])))))"

end
