(* ===== verification/Thread_Store_Theorems.thy ===== *)
theory Thread_Store_Theorems
  imports Thread_Store
begin

section \<open>Properties of the store of thread collections\<close>

text \<open>
  The log of a thread is contiguous and its identities are distinct; a transcript is replaced only by a
  proven prefix of itself; a write is a compare-and-set on the revision of its own scope; and paging
  backwards reads the whole log.
\<close>

subsection \<open>Logs of other threads\<close>

lemma log_of_insert_row:
  "filter (in_log sc t) (insert_row r rs) = (if in_log sc t r then insert_row r (filter (in_log sc t) rs) else filter (in_log sc t) rs)"
  by (auto simp: insert_row_def in_log_def list_ex_iff)

lemma insert_log_other:
  "(sc, t) \<noteq> (sc', t') \<Longrightarrow> log_of (insertThreadEvents clean sc t entries db) sc' t' = log_of db sc' t'"
proof -
  assume o: "(sc, t) \<noteq> (sc', t')"
  have "filter (in_log sc' t') (foldl (\<lambda>rs (e, n). insert_row \<lparr>er_scope = sc, er_thread = t, er_index = n, er_id = stored_id t n e,
      er_event = normalizeJsonbValue clean e\<rparr> rs) rs entries) = filter (in_log sc' t') rs" for rs
    using o by (induction entries arbitrary: rs) (auto simp: log_of_insert_row in_log_def)
  then show ?thesis by (simp add: log_of_def insertThreadEvents_def)
qed

lemma insert_log_same:
  "log_of (insertThreadEvents clean sc t entries db) sc t =
    foldl (\<lambda>rs (e, n). insert_row \<lparr>er_scope = sc, er_thread = t, er_index = n, er_id = stored_id t n e, er_event = normalizeJsonbValue clean e\<rparr> rs)
      (log_of db sc t) entries"
proof -
  have "filter (in_log sc t) (foldl (\<lambda>rs (e, n). insert_row \<lparr>er_scope = sc, er_thread = t, er_index = n, er_id = stored_id t n e,
      er_event = normalizeJsonbValue clean e\<rparr> rs) rs entries) =
     foldl (\<lambda>rs (e, n). insert_row \<lparr>er_scope = sc, er_thread = t, er_index = n, er_id = stored_id t n e, er_event = normalizeJsonbValue clean e\<rparr> rs)
      (filter (in_log sc t) rs) entries" for rs
    by (induction entries arbitrary: rs) (auto simp: log_of_insert_row in_log_def)
  then show ?thesis by (simp add: log_of_def insertThreadEvents_def)
qed

lemma delete_log_of:
  "log_of (delete_log sc t k db) sc' t' =
     (if (sc, t) = (sc', t') then filter (\<lambda>r. er_index r < k) (log_of db sc t) else log_of db sc' t')"
  "log_of (delete_thread sc t db) sc' t' = (if (sc, t) = (sc', t') then [] else log_of db sc' t')"
proof -
  show "log_of (delete_log sc t k db) sc' t' =
     (if (sc, t) = (sc', t') then filter (\<lambda>r. er_index r < k) (log_of db sc t) else log_of db sc' t')"
    by (auto simp: log_of_def delete_log_def in_log_def not_le intro!: filter_cong)
  show "log_of (delete_thread sc t db) sc' t' = (if (sc, t) = (sc', t') then [] else log_of db sc' t')"
    by (auto simp: log_of_def delete_thread_def in_log_def intro!: filter_cong)
qed

lemma collections_kept [simp]:
  "td_collections (insertThreadEvents clean sc t es db) = td_collections db" "td_collections (delete_log sc t k db) = td_collections db"
  "td_collections (delete_thread sc t db) = td_collections db"
  by (simp_all add: insertThreadEvents_def delete_log_def delete_thread_def)

subsection \<open>Contiguous logs\<close>

text \<open>The rows stand in the order of their indexes, which have no gap, and no identity is stored twice.\<close>

definition log_ok :: "event_row list \<Rightarrow> bool" where
  "log_ok rs \<longleftrightarrow> map er_index rs = map int [0..<length rs] \<and> distinct (map er_id rs)"

definition contiguous :: "thread_db \<Rightarrow> bool" where
  "contiguous db \<longleftrightarrow> (\<forall>sc t. log_ok (log_of db sc t))"

lemma contiguousI: "(\<And>sc t. log_ok (log_of db sc t)) \<Longrightarrow> contiguous db"
  unfolding contiguous_def by blast

lemma contiguousD: "contiguous db \<Longrightarrow> log_ok (log_of db sc t)"
  unfolding contiguous_def by blast

lemma next_index_ok: "log_ok rs \<Longrightarrow> next_index rs = int (length rs)"
proof -
  have "map er_index rs = map int [k..<k + length rs] \<Longrightarrow> foldr (\<lambda>r n. max (er_index r + 1) n) rs 0 = (if rs = [] then 0 else int (k + length rs))" for k
  proof (induction rs arbitrary: k)
    case (Cons r rs)
    have e: "[k..<k + length (r # rs)] = k # [Suc k..<Suc k + length rs]" by (simp add: upt_conv_Cons del: upt_Suc)
    have r: "er_index r = int k" "map er_index rs = map int [Suc k..<Suc k + length rs]"
      using Cons.prems unfolding e by simp_all
    from Cons.IH [OF r(2)] r(1) show ?case by auto
  qed simp
  from this [of 0] show "log_ok rs \<Longrightarrow> next_index rs = int (length rs)" by (simp add: log_ok_def next_index_def)
qed

lemma nth_index: "log_ok rs \<Longrightarrow> i < length rs \<Longrightarrow> er_index (rs ! i) = int i"
proof -
  assume ok: "log_ok rs" and i: "i < length rs"
  have "er_index (rs ! i) = map er_index rs ! i" using i by simp
  also have "\<dots> = map int [0..<length rs] ! i" using ok by (simp add: log_ok_def)
  finally show ?thesis using i by simp
qed

lemma log_below: "log_ok rs \<Longrightarrow> filter (\<lambda>r. er_index r < int k) rs = take k rs"
proof (induction rs rule: rev_induct)
  case (snoc r rs)
  have "map er_index rs @ [er_index r] = map int [0..<length rs] @ [int (length rs)]" "distinct (map er_id rs)"
    using snoc.prems by (simp_all add: log_ok_def)
  then have ok: "log_ok rs" and r: "er_index r = int (length rs)" by (simp_all add: log_ok_def)
  show ?case
  proof (cases "length rs < k")
    case True
    have "filter (\<lambda>r. er_index r < int k) rs = rs" using snoc.IH [OF ok] True by simp
    with True show ?thesis by (simp add: r)
  qed (use snoc.IH [OF ok] in \<open>simp add: r\<close>)
qed simp

lemma log_ok_take: "log_ok rs \<Longrightarrow> log_ok (take k rs)"
  by (simp add: log_ok_def take_map [symmetric] take_upt min_def) (simp add: take_map)

text \<open>Rows with fresh identities at the next indexes are all added.\<close>

definition row_for :: "(string \<Rightarrow> string) \<Rightarrow> scope \<Rightarrow> string \<Rightarrow> json \<times> int \<Rightarrow> event_row" where
  "row_for clean sc t p = \<lparr>er_scope = sc, er_thread = t, er_index = snd p, er_id = stored_id t (snd p) (fst p), er_event = normalizeJsonbValue clean (fst p)\<rparr>"

lemma numbered_Cons: "numbered n (e # es) = (e, n) # numbered (n + 1) es"
proof -
  have "map (\<lambda>i. n + int i) [0..<Suc k] = n # map (\<lambda>i. (n + 1) + int i) [0..<k]" for k
  proof -
    have "[0..<Suc k] = 0 # map Suc [0..<k]" by (simp add: upt_conv_Cons map_Suc_upt del: upt_Suc)
    then show ?thesis by (simp add: o_def add.assoc del: upt_Suc)
  qed
  then show ?thesis by (simp add: numbered_def del: upt_Suc)
qed

lemma numbered_Nil [simp]: "numbered n [] = []"
  by (simp add: numbered_def)

definition stored_ids :: "string \<Rightarrow> (json \<times> int) list \<Rightarrow> string list" where
  "stored_ids t = map (\<lambda>p. stored_id t (snd p) (fst p))"

lemma row_for_simps [simp]:
  "er_id (row_for clean sc t p) = stored_id t (snd p) (fst p)" "er_index (row_for clean sc t p) = snd p"
  "in_log sc t (row_for clean sc t p)" "er_scope (row_for clean sc t p) = sc" "er_thread (row_for clean sc t p) = t"
  by (simp_all add: row_for_def in_log_def)

lemma insert_as_rows:
  "insertThreadEvents clean sc t entries db = db\<lparr>td_events := foldl (\<lambda>rs p. insert_row (row_for clean sc t p) rs) (td_events db) entries\<rparr>"
  by (simp add: insertThreadEvents_def row_for_def case_prod_unfold)

lemma log_ok_snoc:
  assumes "log_ok rs" and "er_index r = int (length rs)" and "er_id r \<notin> er_id ` set rs"
  shows "log_ok (rs @ [r])"
  using assms by (simp add: log_ok_def)

lemma insert_rows:
  assumes "log_ok (filter (in_log sc t) rows)"
    and "distinct (map er_id (filter (in_log sc t) rows) @ stored_ids t (numbered (int (length (filter (in_log sc t) rows))) es))"
  shows "foldl (\<lambda>rs p. insert_row (row_for clean sc t p) rs) rows (numbered (int (length (filter (in_log sc t) rows))) es) =
      rows @ map (row_for clean sc t) (numbered (int (length (filter (in_log sc t) rows))) es) \<and>
    log_ok (filter (in_log sc t) rows @ map (row_for clean sc t) (numbered (int (length (filter (in_log sc t) rows))) es))"
  using assms
proof (induction es arbitrary: rows)
  case (Cons e es)
  define n where "n = int (length (filter (in_log sc t) rows))"
  define r where "r = row_for clean sc t (e, n)"
  have f: "er_id r = stored_id t n e" "er_index r = n" "in_log sc t r" "er_scope r = sc" "er_thread r = t"
    by (simp_all add: r_def)
  have d: "distinct (map er_id (filter (in_log sc t) rows) @ stored_id t n e # stored_ids t (numbered (n + 1) es))"
    using Cons.prems(2) by (simp add: n_def numbered_Cons stored_ids_def)
  have new: "stored_id t n e \<notin> er_id ` set (filter (in_log sc t) rows)" using d by simp
  have small: "er_index x < n" if "x \<in> set rows" "in_log sc t x" for x
  proof -
    from that have "x \<in> set (filter (in_log sc t) rows)" by simp
    then show ?thesis using nth_index [OF Cons.prems(1)] unfolding n_def in_set_conv_nth by (metis of_nat_less_iff)
  qed
  have "\<not> list_ex (\<lambda>x. in_log sc t x \<and> (er_id x = stored_id t n e \<or> er_index x = n)) rows"
  proof -
    have "\<not> (er_id x = stored_id t n e \<or> er_index x = n)" if "x \<in> set rows" "in_log sc t x" for x
    proof -
      have "x \<in> set (filter (in_log sc t) rows)" using that by simp
      then have "er_id x \<noteq> stored_id t n e" using new by (metis imageI)
      with small [OF that] show ?thesis by simp
    qed
    then show ?thesis by (simp add: list_ex_iff)
  qed
  then have ins: "insert_row r rows = rows @ [r]" by (simp add: insert_row_def f)
  have log': "filter (in_log sc t) (rows @ [r]) = filter (in_log sc t) rows @ [r]" by (simp add: f)
  have len: "int (length (filter (in_log sc t) (rows @ [r]))) = n + 1" unfolding log' by (simp add: n_def)
  have ok: "log_ok (filter (in_log sc t) (rows @ [r]))"
    unfolding log' by (rule log_ok_snoc [OF Cons.prems(1)]) (use new in \<open>simp_all add: f n_def\<close>)
  have "distinct (map er_id (filter (in_log sc t) (rows @ [r])) @ stored_ids t (numbered (int (length (filter (in_log sc t) (rows @ [r])))) es))"
    using d unfolding len unfolding log' by (simp add: f)
  from Cons.IH [OF ok this] show ?case
    unfolding len unfolding log' n_def [symmetric] numbered_Cons by (simp add: r_def [symmetric] ins)
qed simp

text \<open>Events that carry an identity are stored under it.\<close>

definition named :: "json list \<Rightarrow> bool" where
  "named es \<longleftrightarrow> list_all (\<lambda>e. event_id e \<noteq> None) es"

definition ident :: "json \<Rightarrow> string" where
  "ident e = (case event_id e of Some i \<Rightarrow> i | None \<Rightarrow> [])"

lemma stored_ident: "event_id e \<noteq> None \<Longrightarrow> stored_id t n e = ident e"
  by (auto simp: stored_id_def ident_def)

lemma named_simps [simp]: "named []" "named (e # es) \<longleftrightarrow> event_id e \<noteq> None \<and> named es" "named (xs @ ys) \<longleftrightarrow> named xs \<and> named ys"
  by (simp_all add: named_def)

lemma stored_ids_named: "named es \<Longrightarrow> stored_ids t (numbered n es) = map ident es"
  by (induction es arbitrary: n) (simp_all add: stored_ids_def numbered_Cons stored_ident)

lemma log_insert:
  fixes clean sc t es db
  assumes "log_ok (log_of db sc t)" and "named es" and "distinct (map er_id (log_of db sc t) @ map ident es)"
  defines "rows \<equiv> map (row_for clean sc t) (numbered (int (length (log_of db sc t))) es)"
  shows "insertThreadEvents clean sc t (numbered (int (length (log_of db sc t))) es) db = db\<lparr>td_events := td_events db @ rows\<rparr>"
    and "log_ok (log_of db sc t @ rows)" and "map er_id rows = map ident es"
proof -
  from insert_rows [of sc t "td_events db" es] assms(1,3) stored_ids_named [OF assms(2)]
  show "insertThreadEvents clean sc t (numbered (int (length (log_of db sc t))) es) db = db\<lparr>td_events := td_events db @ rows\<rparr>"
    and "log_ok (log_of db sc t @ rows)"
    unfolding rows_def insert_as_rows log_of_def by simp_all
  have "map er_id rows = stored_ids t (numbered (int (length (log_of db sc t))) es)"
    by (simp add: rows_def stored_ids_def)
  then show "map er_id rows = map ident es" by (simp add: stored_ids_named [OF assms(2)])
qed

lemma log_of_rows:
  "log_of (db\<lparr>td_events := td_events db @ map (row_for clean sc t) ps\<rparr>) sc' t' =
     log_of db sc' t' @ (if (sc, t) = (sc', t') then map (row_for clean sc t) ps else [])"
  by (auto simp: log_of_def filter_map o_def in_log_def row_for_def filter_empty_conv)

subsection \<open>Appending\<close>

lemma fresh_events_props:
  assumes "list_all (\<lambda>(e, i). i = f e) cs"
  shows "set (fresh_events seen cs) \<subseteq> fst ` set cs"
    and "distinct (map f (fresh_events seen cs))"
    and "f ` set (fresh_events seen cs) \<inter> set seen = {}"
    and "f ` set (fresh_events seen cs) \<union> set seen = f ` fst ` set cs \<union> set seen"
proof -
  have "set (fresh_events seen cs) \<subseteq> fst ` set cs \<and> distinct (map f (fresh_events seen cs)) \<and>
     f ` set (fresh_events seen cs) \<inter> set seen = {} \<and> f ` set (fresh_events seen cs) \<union> set seen = f ` fst ` set cs \<union> set seen"
    using assms by (induction seen cs rule: fresh_events.induct) auto
  then show "set (fresh_events seen cs) \<subseteq> fst ` set cs" "distinct (map f (fresh_events seen cs))"
    "f ` set (fresh_events seen cs) \<inter> set seen = {}" "f ` set (fresh_events seen cs) \<union> set seen = f ` fst ` set cs \<union> set seen"
    by blast+
qed

lemma fresh_events_cong: "set seen = set seen' \<Longrightarrow> fresh_events seen cs = fresh_events seen' cs"
  by (induction seen cs arbitrary: seen' rule: fresh_events.induct) simp_all

lemma fresh_events_append:
  "list_all (\<lambda>(e, i). i = f e) cs \<Longrightarrow>
   fresh_events seen (cs @ ds) = fresh_events seen cs @ fresh_events (rev (map f (fresh_events seen cs)) @ seen) ds"
  by (induction seen cs rule: fresh_events.induct) auto

lemma fresh_events_seen: "snd ` set cs \<subseteq> set seen \<Longrightarrow> fresh_events seen (cs @ ds) = fresh_events seen ds"
  by (induction seen cs rule: fresh_events.induct) auto

lemma candidates_named:
  "named es \<Longrightarrow> map (\<lambda>(e, n). (e, stored_id t n e)) (numbered n es) = map (\<lambda>e. (e, ident e)) es"
  by (induction es arbitrary: n) (simp_all add: numbered_Cons stored_ident)

definition fresh_of :: "event_row list \<Rightarrow> json list \<Rightarrow> json list" where
  "fresh_of rs es = fresh_events (map er_id rs) (map (\<lambda>e. (e, ident e)) es)"

lemma fresh_of_props:
  assumes "named es"
  shows "named (fresh_of rs es)" and "distinct (map ident (fresh_of rs es))"
    and "ident ` set (fresh_of rs es) \<inter> er_id ` set rs = {}"
    and "ident ` set (fresh_of rs es) \<union> er_id ` set rs = ident ` set es \<union> er_id ` set rs"
proof -
  have l: "list_all (\<lambda>(e, i). i = ident e) (map (\<lambda>e. (e, ident e)) es)" by (simp add: list_all_iff)
  note p = fresh_events_props [OF l, of "map er_id rs"]
  have "set (fresh_of rs es) \<subseteq> set es" using p(1) by (auto simp: fresh_of_def)
  then show "named (fresh_of rs es)" using assms by (auto simp: named_def list_all_iff)
  show "distinct (map ident (fresh_of rs es))" using p(2) by (simp add: fresh_of_def)
  show "ident ` set (fresh_of rs es) \<inter> er_id ` set rs = {}" using p(3) by (simp add: fresh_of_def)
  show "ident ` set (fresh_of rs es) \<union> er_id ` set rs = ident ` set es \<union> er_id ` set rs"
    using p(4) by (simp add: fresh_of_def image_image)
qed

lemma log_insert_fresh:
  fixes clean sc t es db
  assumes "log_ok (log_of db sc t)" and "named es"
  defines "fresh \<equiv> fresh_of (log_of db sc t) es"
  defines "rows \<equiv> map (row_for clean sc t) (numbered (int (length (log_of db sc t))) fresh)"
  shows "insertThreadEvents clean sc t (numbered (int (length (log_of db sc t))) fresh) db = db\<lparr>td_events := td_events db @ rows\<rparr>"
    and "log_ok (log_of db sc t @ rows)" and "map er_id rows = map ident fresh"
proof -
  note p = fresh_of_props [OF assms(2), of "log_of db sc t", folded fresh_def]
  have "distinct (map er_id (log_of db sc t) @ map ident fresh)"
    using p(2,3) assms(1) by (auto simp: log_ok_def)
  from log_insert [OF assms(1) p(1) this, of clean, folded rows_def]
  show "insertThreadEvents clean sc t (numbered (int (length (log_of db sc t))) fresh) db = db\<lparr>td_events := td_events db @ rows\<rparr>"
    and "log_ok (log_of db sc t @ rows)" and "map er_id rows = map ident fresh" by simp_all
qed

text \<open>What an append without a replacement makes of the tables.\<close>

lemma append_eq:
  assumes "log_ok (log_of db sc (ea_threadId a))" and "named (filter is_record (ea_events a))"
    and "ea_replaceFrom a = None" and "safe_nonnegative (int (length (log_of db sc (ea_threadId a))))"
  shows "appendThreadEvents clean sc a db = Inr (db\<lparr>td_events := td_events db @ map (row_for clean sc (ea_threadId a))
      (numbered (int (length (log_of db sc (ea_threadId a)))) (fresh_of (log_of db sc (ea_threadId a)) (filter is_record (ea_events a))))\<rparr>)"
proof (cases "filter is_record (ea_events a) = []")
  case True
  then show ?thesis using assms(3) by (simp add: appendThreadEvents_def fresh_of_def)
next
  case False
  then show ?thesis
    using assms(3,4) candidates_named [OF assms(2)] log_insert_fresh(1) [OF assms(1,2)]
    by (simp add: appendThreadEvents_def Let_def next_index_ok [OF assms(1)] parseRevision_def fresh_of_def)
qed

lemma append_replacing:
  assumes "log_ok (log_of db sc (ea_threadId a))" and "named (filter is_record (ea_events a))"
    and "ea_replaceFrom a = Some (int k)" and "k \<le> length (log_of db sc (ea_threadId a))"
  defines "base \<equiv> delete_log sc (ea_threadId a) (int k) db"
  shows "log_of base sc (ea_threadId a) = take k (log_of db sc (ea_threadId a))"
    and "appendThreadEvents clean sc a db = Inr (base\<lparr>td_events := td_events base @ map (row_for clean sc (ea_threadId a))
      (numbered (int k) (fresh_of (log_of base sc (ea_threadId a)) (filter is_record (ea_events a))))\<rparr>)"
proof -
  let ?t = "ea_threadId a"
  show log: "log_of base sc ?t = take k (log_of db sc ?t)"
    by (simp add: base_def delete_log_of log_below [OF assms(1)])
  then have ok: "log_ok (log_of base sc ?t)" using log_ok_take [OF assms(1)] by simp
  have len: "int (length (log_of base sc ?t)) = int k" using log assms(4) by simp
  from candidates_named [OF assms(2)] log_insert_fresh(1) [OF ok assms(2), unfolded len, of clean]
  show "appendThreadEvents clean sc a db = Inr (base\<lparr>td_events := td_events base @ map (row_for clean sc ?t)
      (numbered (int k) (fresh_of (log_of base sc ?t) (filter is_record (ea_events a))))\<rparr>)"
    by (simp add: appendThreadEvents_def Let_def assms(3) base_def [symmetric] fresh_of_def)
qed

lemma append_Inr:
  assumes "log_ok (log_of db sc (ea_threadId a))" and "named (filter is_record (ea_events a))"
    and "ea_replaceFrom a = None" and "appendThreadEvents clean sc a db = Inr db'"
  shows "db' = db\<lparr>td_events := td_events db @ map (row_for clean sc (ea_threadId a))
      (numbered (int (length (log_of db sc (ea_threadId a)))) (fresh_of (log_of db sc (ea_threadId a)) (filter is_record (ea_events a))))\<rparr>"
proof (cases "filter is_record (ea_events a) = []")
  case True
  then show ?thesis using assms(3,4) by (simp add: appendThreadEvents_def fresh_of_def)
next
  case False
  then have "safe_nonnegative (int (length (log_of db sc (ea_threadId a))))"
    using assms(3,4) by (auto simp: appendThreadEvents_def Let_def next_index_ok [OF assms(1)] parseRevision_def fail_def split: if_splits)
  from append_eq [OF assms(1-3) this, of clean] assms(4) show ?thesis by simp
qed

lemma append_log:
  assumes "log_ok (log_of db sc (ea_threadId a))" and "named (filter is_record (ea_events a))"
    and "ea_replaceFrom a = None" and "appendThreadEvents clean sc a db = Inr db'"
  shows "log_ok (log_of db' sc (ea_threadId a))"
    and "map er_id (log_of db' sc (ea_threadId a)) = map er_id (log_of db sc (ea_threadId a)) @
      map ident (fresh_of (log_of db sc (ea_threadId a)) (filter is_record (ea_events a)))"
    and "(sc, ea_threadId a) \<noteq> (sc', t') \<Longrightarrow> log_of db' sc' t' = log_of db sc' t'"
    and "log_of db' sc (ea_threadId a) = log_of db sc (ea_threadId a) @ map (row_for clean sc (ea_threadId a))
      (numbered (int (length (log_of db sc (ea_threadId a)))) (fresh_of (log_of db sc (ea_threadId a)) (filter is_record (ea_events a))))"
  using append_Inr [OF assms] log_insert_fresh(2,3) [OF assms(1,2), of clean]
  by (auto simp: log_of_rows)

subsection \<open>Replacing\<close>

lemma log_sorted: "log_ok rs \<Longrightarrow> sort_key er_index rs = rs"
proof (rule sort_key_id_if_sorted)
  assume "log_ok rs"
  then have "map er_index rs = map int [0..<length rs]" by (simp add: log_ok_def)
  then show "sorted (map er_index rs)" by (simp add: sorted_iff_nth_mono_less)
qed

lemma prefix_proven:
  assumes "log_ok (log_of db sc t)" and "assertReplacementPrefix sc t es db = Inr u" and "log_of db sc t \<noteq> []"
  shows "es \<noteq> []" and "length es \<le> length (log_of db sc t)"
    and "i < length es \<Longrightarrow> same_stored t i (es ! i) (log_of db sc t ! i)"
proof -
  have l: "filter (\<lambda>r. er_index r < int (length es)) (log_of db sc t) = take (length es) (log_of db sc t)"
    by (rule log_below [OF assms(1)])
  have s: "sort_key er_index (take (length es) (log_of db sc t)) = take (length es) (log_of db sc t)"
    by (rule log_sorted [OF log_ok_take [OF assms(1)]])
  note u = assms(2) [unfolded assertReplacementPrefix_def next_index_ok [OF assms(1)] l s]
  from u assms(3) show "es \<noteq> []" and len: "length es \<le> length (log_of db sc t)"
    by (auto simp: parseRevision_def fail_def split: if_splits)
  assume "i < length es"
  with u assms(3) len show "same_stored t i (es ! i) (log_of db sc t ! i)"
    by (auto simp: parseRevision_def fail_def Let_def list_all_iff split: if_splits)
qed

lemma prefix_identities:
  assumes "log_ok (log_of db sc t)" and "assertReplacementPrefix sc t es db = Inr u" and "log_of db sc t \<noteq> []" and "named es"
  shows "map ident es = take (length es) (map er_id (log_of db sc t))"
proof (rule nth_equalityI)
  note p = prefix_proven [OF assms(1-3)]
  show "length (map ident es) = length (take (length es) (map er_id (log_of db sc t)))" using p(2) by simp
  fix i assume "i < length (map ident es)"
  then have i: "i < length es" by simp
  have "event_id (es ! i) \<noteq> None" using assms(4) i by (simp add: named_def list_all_length)
  with p(3) [OF i] have "er_id (log_of db sc t ! i) = ident (es ! i)" by (auto simp: same_stored_def ident_def)
  with i p(2) show "map ident es ! i = take (length es) (map er_id (log_of db sc t)) ! i" by simp
qed

lemma replace_log:
  assumes "log_ok (log_of db sc t)" and "named es" and "distinct (map ident es)"
    and "replaceThreadEvents clean sc t es db = Inr db'"
  shows "log_ok (log_of db' sc t)" and "map er_id (log_of db' sc t) = map ident es"
    and "(sc, t) \<noteq> (sc', t') \<Longrightarrow> log_of db' sc' t' = log_of db sc' t'"
    and "log_of db sc t \<noteq> [] \<Longrightarrow> es \<noteq> [] \<and> map ident es = take (length es) (map er_id (log_of db sc t))"
    and "log_of db' sc t = map (row_for clean sc t) (numbered 0 es)"
proof -
  from assms(4) obtain u where u: "assertReplacementPrefix sc t es db = Inr u"
    and db': "db' = insertThreadEvents clean sc t (numbered 0 es) (delete_thread sc t db)"
    by (auto simp: replaceThreadEvents_def split: sum.splits)
  have e: "log_of (delete_thread sc t db) sc t = []" by (simp add: delete_log_of)
  have "log_ok (log_of (delete_thread sc t db) sc t)" unfolding e by (simp add: log_ok_def)
  from log_insert [OF this assms(2), of clean] assms(3)
  have i: "db' = (delete_thread sc t db)\<lparr>td_events := td_events (delete_thread sc t db) @ map (row_for clean sc t) (numbered 0 es)\<rparr>"
    "log_ok (map (row_for clean sc t) (numbered 0 es))" "map er_id (map (row_for clean sc t) (numbered 0 es)) = map ident es"
    unfolding e db' by simp_all
  show "log_ok (log_of db' sc t)" "map er_id (log_of db' sc t) = map ident es" "log_of db' sc t = map (row_for clean sc t) (numbered 0 es)"
    using i by (simp_all add: log_of_rows e)
  show "(sc, t) \<noteq> (sc', t') \<Longrightarrow> log_of db' sc' t' = log_of db sc' t'"
    by (auto simp: i(1) log_of_rows delete_log_of)
  show "log_of db sc t \<noteq> [] \<Longrightarrow> es \<noteq> [] \<and> map ident es = take (length es) (map er_id (log_of db sc t))"
    using prefix_proven(1) [OF assms(1) u] prefix_identities [OF assms(1) u _ assms(2)] by simp
qed

subsection \<open>Patches\<close>

text \<open>
  A patch is regular when its events carry identities, none twice in a new transcript, and its appends do
  not overwrite: such is what the client sends of a stream.
\<close>

definition regular_thread :: "json \<Rightarrow> bool" where
  "regular_thread t \<longleftrightarrow> named (threadEvents t) \<and> distinct (map ident (threadEvents t))"

definition regular_append :: "event_append \<Rightarrow> bool" where
  "regular_append a \<longleftrightarrow> ea_replaceFrom a = None \<and> named (filter is_record (ea_events a))"

definition regular_patch :: "thread_patch \<Rightarrow> bool" where
  "regular_patch p \<longleftrightarrow> list_all regular_thread (pa_upsertThreads p) \<and> list_all regular_append (pa_eventAppends p)"

text \<open>What a log retains: everything, or at least its first event and what follows it up to some point.\<close>

definition retains :: "bool \<Rightarrow> 'a list \<Rightarrow> 'a list \<Rightarrow> bool" where
  "retains whole old new \<longleftrightarrow> (\<exists>k extra. new = take k old @ extra \<and> (old \<noteq> [] \<longrightarrow> 0 < k) \<and> (whole \<longrightarrow> length old \<le> k))"

lemma retains_refl: "retains whole old old"
  by (auto simp: retains_def intro!: exI [of _ "Suc (length old)"])

lemma retains_append: "retains whole old (old @ extra)"
  by (auto simp: retains_def intro!: exI [of _ "Suc (length old)"])

lemma retains_take: "old = [] \<or> k > 0 \<Longrightarrow> retains False old (take k old)"
  by (auto simp: retains_def intro!: exI [of _ k])

lemma retains_trans:
  assumes "retains w a b" and "retains w b c"
  shows "retains w a c"
proof -
  from assms(1) obtain k e where b: "b = take k a @ e" "a \<noteq> [] \<longrightarrow> 0 < k" "w \<longrightarrow> length a \<le> k" by (auto simp: retains_def)
  from assms(2) obtain l f where c: "c = take l b @ f" "b \<noteq> [] \<longrightarrow> 0 < l" "w \<longrightarrow> length b \<le> l" by (auto simp: retains_def)
  have "c = take (min l k) a @ (take (l - min k (length a)) e @ f)" using b(1) c(1) by (simp add: min.commute)
  moreover have "a \<noteq> [] \<longrightarrow> 0 < min l k" using b c(2) by auto
  moreover have "w \<longrightarrow> length a \<le> min l k" using b c(3) by auto
  ultimately show ?thesis unfolding retains_def by blast
qed

lemma each_inv:
  assumes "\<And>x d d'. \<lbrakk>x \<in> set xs; P d; f x d = Inr d'\<rbrakk> \<Longrightarrow> P d'"
  shows "\<lbrakk>each f xs d = Inr d'; P d\<rbrakk> \<Longrightarrow> P d'"
  using assms
proof (induction xs arbitrary: d)
  case (Cons x xs)
  from Cons.prems(1) obtain d1 where d1: "f x d = Inr d1" "each f xs d1 = Inr d'" by (auto split: sum.splits)
  have "P d1" by (rule Cons.prems(3) [OF _ Cons.prems(2) d1(1)]) simp
  with Cons.IH [OF d1(2)] Cons.prems(3) show ?case by (meson list.set_intros(2))
qed simp

definition replaces :: "string \<Rightarrow> json \<Rightarrow> bool" where
  "replaces t u \<longleftrightarrow> string_id u = Some t \<and> (threadEvents u \<noteq> [] \<or> isExplicitTranscriptReplacement u)"

lemma transcript_step:
  assumes "contiguous db" and "regular_thread u" and "replace_transcript clean sc u db = Inr db'"
  shows "contiguous db'"
    and "retains (\<not> (sc' = sc \<and> replaces t u)) (map er_id (log_of db sc' t)) (map er_id (log_of db' sc' t))"
proof -
  have "contiguous db' \<and> retains (\<not> (sc' = sc \<and> replaces t u)) (map er_id (log_of db sc' t)) (map er_id (log_of db' sc' t))"
  proof (cases "\<exists>i. string_id u = Some i \<and> (threadEvents u \<noteq> [] \<or> isExplicitTranscriptReplacement u)")
    case False
    then have "db' = db" using assms(3) by (auto simp: replace_transcript_def Let_def split: option.splits if_splits)
    then show ?thesis using assms(1) by (simp add: retains_refl)
  next
    case True
    then obtain i where i: "string_id u = Some i" "threadEvents u \<noteq> [] \<or> isExplicitTranscriptReplacement u" by blast
    have r: "replaceThreadEvents clean sc i (threadEvents u) db = Inr db'"
      using assms(3) i by (auto simp: replace_transcript_def Let_def split: if_splits)
    have ok: "log_ok (log_of db sc i)" by (rule contiguousD [OF assms(1)])
    from assms(2) have n: "named (threadEvents u)" "distinct (map ident (threadEvents u))" by (simp_all add: regular_thread_def)
    note l = replace_log [OF ok n r]
    have "log_ok (log_of db' s j)" for s j
      using l(1) l(3) [of s j] contiguousD [OF assms(1), of s j] by (cases "(sc, i) = (s, j)") auto
    moreover have "retains (\<not> (sc' = sc \<and> replaces t u)) (map er_id (log_of db sc' t)) (map er_id (log_of db' sc' t))"
    proof (cases "(sc, i) = (sc', t)")
      case True
      then have "replaces t u" using i by (simp add: replaces_def)
      moreover have "retains False (map er_id (log_of db sc t)) (map er_id (log_of db' sc t))" if "(sc, i) = (sc, t)"
      proof (cases "log_of db sc t = []")
        case True
        then show ?thesis by (auto simp: retains_def intro: exI [of _ 0])
      next
        case False
        with l(4) that have "threadEvents u \<noteq> []" "map ident (threadEvents u) = take (length (threadEvents u)) (map er_id (log_of db sc t))" by auto
        moreover have "map er_id (log_of db' sc t) = map ident (threadEvents u)" using l(2) that by simp
        ultimately show ?thesis by (simp add: retains_take)
      qed
      ultimately show ?thesis using True by simp
    qed (simp add: l(3) retains_refl)
    ultimately show ?thesis by (blast intro: contiguousI)
  qed
  then show "contiguous db'" "retains (\<not> (sc' = sc \<and> replaces t u)) (map er_id (log_of db sc' t)) (map er_id (log_of db' sc' t))"
    by blast+
qed

lemma append_step:
  assumes "contiguous db" and "regular_append a" and "appendThreadEvents clean sc a db = Inr db'"
  shows "contiguous db'" and "retains True (map er_id (log_of db sc' t)) (map er_id (log_of db' sc' t))"
proof -
  have ok: "log_ok (log_of db sc (ea_threadId a))" by (rule contiguousD [OF assms(1)])
  from assms(2) have r: "ea_replaceFrom a = None" "named (filter is_record (ea_events a))" by (simp_all add: regular_append_def)
  note l = append_log [OF ok r(2) r(1) assms(3)]
  have "log_ok (log_of db' s j)" for s j
    using l(1) l(3) [of s j] contiguousD [OF assms(1), of s j] by (cases "(sc, ea_threadId a) = (s, j)") auto
  then show "contiguous db'" by (rule contiguousI)
  show "retains True (map er_id (log_of db sc' t)) (map er_id (log_of db' sc' t))"
  proof (cases "(sc, ea_threadId a) = (sc', t)")
    case True
    then show ?thesis using l(2) by (auto simp: retains_append)
  qed (simp add: l(3) retains_refl)
qed

text \<open>The entries of a log with their bodies, and an entry as a client sends it.\<close>

definition entry_of :: "event_row \<Rightarrow> string \<times> json" where
  "entry_of r = (er_id r, er_event r)"

definition sent_entry :: "(string \<Rightarrow> string) \<Rightarrow> json \<Rightarrow> string \<times> json" where
  "sent_entry clean e = (ident e, normalizeJsonbValue clean e)"

lemma entry_ids: "map fst (map entry_of rs) = map er_id rs"
  by (simp add: entry_of_def)

lemma row_entries: "named es \<Longrightarrow> map entry_of (map (row_for clean sc t) (numbered n es)) = map (sent_entry clean) es"
  by (induction es arbitrary: n) (simp_all add: numbered_Cons row_for_def entry_of_def sent_entry_def stored_ident)

lemma transcript_entries:
  assumes "contiguous db" and "regular_thread u" and "replace_transcript clean sc u db = Inr db'"
  shows "log_of db' sc' t = log_of db sc' t \<or>
    sc' = sc \<and> replaces t u \<and> map entry_of (log_of db' sc' t) = map (sent_entry clean) (threadEvents u)"
proof (cases "\<exists>i. string_id u = Some i \<and> (threadEvents u \<noteq> [] \<or> isExplicitTranscriptReplacement u)")
  case False
  then have "db' = db" using assms(3) by (auto simp: replace_transcript_def Let_def split: option.splits if_splits)
  then show ?thesis by simp
next
  case True
  then obtain i where i: "string_id u = Some i" "threadEvents u \<noteq> [] \<or> isExplicitTranscriptReplacement u" by blast
  have r: "replaceThreadEvents clean sc i (threadEvents u) db = Inr db'"
    using assms(3) i by (auto simp: replace_transcript_def Let_def split: if_splits)
  from assms(2) have n: "named (threadEvents u)" "distinct (map ident (threadEvents u))" by (simp_all add: regular_thread_def)
  note l = replace_log [OF contiguousD [OF assms(1)] n r]
  show ?thesis
  proof (cases "(sc, i) = (sc', t)")
    case True
    with l(5) row_entries [OF n(1)] i show ?thesis by (auto simp: replaces_def)
  next
    case False
    with l(3) show ?thesis by blast
  qed
qed

lemma append_entries:
  assumes "contiguous db" and "regular_append a" and "appendThreadEvents clean sc a db = Inr db'"
  shows "log_of db' sc' t = log_of db sc' t \<or> sc' = sc \<and> ea_threadId a = t \<and>
    (\<exists>es. set es \<subseteq> set (ea_events a) \<and> map entry_of (log_of db' sc' t) = map entry_of (log_of db sc' t) @ map (sent_entry clean) es)"
proof (cases "(sc, ea_threadId a) = (sc', t)")
  case True
  let ?rs = "log_of db sc (ea_threadId a)" and ?es = "filter is_record (ea_events a)"
  from assms(2) have r: "ea_replaceFrom a = None" "named ?es" by (simp_all add: regular_append_def)
  note l = append_log [OF contiguousD [OF assms(1)] r(2) r(1) assms(3)]
  have "set (fresh_of ?rs ?es) \<subseteq> set (ea_events a)"
    using fresh_events_props(1) [of ident "map (\<lambda>e. (e, ident e)) ?es" "map er_id ?rs"] by (auto simp: fresh_of_def list_all_iff)
  moreover have "map entry_of (log_of db' sc (ea_threadId a)) = map entry_of ?rs @ map (sent_entry clean) (fresh_of ?rs ?es)"
    unfolding l(4) map_append row_entries [OF fresh_of_props(1) [OF r(2)]] ..
  ultimately show ?thesis using True by blast
next
  case False
  from assms(2) have r: "ea_replaceFrom a = None" "named (filter is_record (ea_events a))" by (simp_all add: regular_append_def)
  from append_log(3) [OF contiguousD [OF assms(1)] r(2) r(1) assms(3) False] show ?thesis by blast
qed

text \<open>What a patch sends of a thread.\<close>

definition sent_of :: "scope \<Rightarrow> thread_patch \<Rightarrow> scope \<Rightarrow> string \<Rightarrow> json list" where
  "sent_of sc p sc' t = (if sc' = sc then concat (map threadEvents (filter (replaces t) (pa_upsertThreads p))) @
     concat (map ea_events (filter (\<lambda>a. ea_threadId a = t) (pa_eventAppends p))) else [])"

text \<open>
  A log kept by a patch: its identities, all or a prefix of them, with new ones behind; where it keeps all, the
  stored bodies too; and every entry it holds stood there before, or was sent as it is stored.
\<close>

definition kept_log :: "(string \<Rightarrow> string) \<Rightarrow> bool \<Rightarrow> json list \<Rightarrow> (string \<times> json) list \<Rightarrow> (string \<times> json) list \<Rightarrow> bool" where
  "kept_log clean whole sent old new \<longleftrightarrow> retains whole (map fst old) (map fst new) \<and> (whole \<longrightarrow> (\<exists>extra. new = old @ extra)) \<and>
     set new \<subseteq> set old \<union> sent_entry clean ` set sent"

lemma kept_log_refl: "kept_log clean whole sent old old"
  by (simp add: kept_log_def retains_refl)

lemma kept_log_trans: "kept_log clean w sent a b \<Longrightarrow> kept_log clean w sent b c \<Longrightarrow> kept_log clean w sent a c"
  unfolding kept_log_def by (intro conjI impI) (blast intro: retains_trans, fastforce, blast)

text \<open>A deletion empties the log of its own thread.\<close>

lemma deletions:
  "log_of (foldl (\<lambda>d t. delete_thread sc t d) db ts) sc' t' = (if sc' = sc \<and> t' \<in> set ts then [] else log_of db sc' t')"
  "td_collections (foldl (\<lambda>d t. delete_thread sc t d) db ts) = td_collections db"
  by (induction ts arbitrary: db) (auto simp: delete_log_of)

lemma log_of_put_row [simp]: "log_of (put_row sc n c db) sc' t = log_of db sc' t"
  by (simp add: log_of_def put_row_def)

lemma row_of_put_row: "row_of (put_row sc n c db) sc' = (if sc' = sc then Some (n, c) else row_of db sc')"
proof -
  have "map_of (filter (\<lambda>(s, _). s \<noteq> sc) xs) sc' = map_of xs sc'" if "sc' \<noteq> sc" for xs :: "(scope \<times> int \<times> json) list"
    using that by (induction xs) auto
  then show ?thesis by (simp add: row_of_def put_row_def)
qed

text \<open>The steps of a transaction leave the rows and the logs of other scopes alone.\<close>

definition framed :: "scope \<Rightarrow> thread_db \<Rightarrow> thread_db \<Rightarrow> bool" where
  "framed sc d d' \<longleftrightarrow> td_collections d' = td_collections d \<and> (\<forall>sc' t. sc' \<noteq> sc \<longrightarrow> log_of d' sc' t = log_of d sc' t)"

lemma framedI: "\<lbrakk>td_collections d' = td_collections d; \<And>sc' t. sc' \<noteq> sc \<Longrightarrow> log_of d' sc' t = log_of d sc' t\<rbrakk> \<Longrightarrow> framed sc d d'"
  unfolding framed_def by blast

lemma framedD: "framed sc d d' \<Longrightarrow> td_collections d' = td_collections d" "framed sc d d' \<Longrightarrow> sc' \<noteq> sc \<Longrightarrow> log_of d' sc' t = log_of d sc' t"
  unfolding framed_def by blast+

lemma framed_trans: "framed sc a b \<Longrightarrow> framed sc b c \<Longrightarrow> framed sc a c"
  unfolding framed_def by metis

lemma framed_refl: "framed sc d d"
  by (rule framedI) simp_all

lemma transcript_frame: "replace_transcript clean sc u db = Inr db' \<Longrightarrow> framed sc db db'"
  by (rule framedI)
    (auto simp: replace_transcript_def Let_def replaceThreadEvents_def insert_log_other delete_log_of split: option.splits if_splits sum.splits)

lemma append_frame: "appendThreadEvents clean sc a db = Inr db' \<Longrightarrow> framed sc db db'"
  by (rule framedI)
    (auto simp: appendThreadEvents_def Let_def insert_log_other delete_log_of split: option.splits if_splits sum.splits)

lemma each_frame:
  assumes "\<And>x d d'. f x d = Inr d' \<Longrightarrow> framed sc d d'" and "each f xs d = Inr d'"
  shows "framed sc d d'"
  by (rule each_inv [where P = "framed sc d", OF _ assms(2) framed_refl]) (blast intro: framed_trans assms(1))

text \<open>The result of a transaction that saves.\<close>

lemma patch_saved:
  assumes "patch clean sc expected p db = (Inr (Saved n c), db')"
  obtains d1 d2 d3 where "expected = (case row_of db sc of None \<Rightarrow> 0 | Some (m, _) \<Rightarrow> m)" and "n = expected + 1"
    and "d1 = put_row sc (expected + 1) c db"
    and "d2 = foldl (\<lambda>d t. delete_thread sc t d) d1 (pa_deletedThreadIds p)"
    and "each (replace_transcript clean sc) (pa_upsertThreads p) d2 = Inr d3"
    and "each (appendThreadEvents clean sc) (pa_eventAppends p) d3 = Inr db'"
  using assms
  by (cases "row_of db sc")
    (auto simp: patch_def patch_tx_def transacted_def Let_def parseRevision_def fail_def split: sum.splits if_splits write_result.splits prod.splits)

lemma patch_refused: "patch clean sc expected p db = (r, db') \<Longrightarrow> (\<And>n c. r \<noteq> Inr (Saved n c)) \<Longrightarrow> db' = db"
  by (auto simp: patch_def transacted_def split: sum.splits if_splits write_result.splits prod.splits)

text \<open>C19 (patches_keep_transcripts) Let every log be without holes and repeated identities, and let a patch be regular:
  its events carry identities, none twice in one transcript, and its appends do not overwrite.  Whatever the outcome
  of the patch, every log is again without holes and repetitions.  The log of a thread the patch does not delete
  keeps its identities in order - all of them, with their stored bodies, unless the patch carries a transcript for
  that thread, and then a non-empty prefix of them - with new entries behind.  And every entry it then holds is one it held before,
  body included, or one the patch sent for that identity, stored as the store normalises it; so a transcript that is
  carried can give an identity another body, and nothing else can.
\<close>

theorem patches_keep_transcripts:
  assumes "contiguous db" and "regular_patch p" and "patch clean sc expected p db = (r, db')"
    and "sc' \<noteq> sc \<or> t \<notin> set (pa_deletedThreadIds p)"
  shows "contiguous db' \<and>
    kept_log clean (sc' \<noteq> sc \<or> \<not> list_ex (replaces t) (pa_upsertThreads p)) (sent_of sc p sc' t)
      (map entry_of (log_of db sc' t)) (map entry_of (log_of db' sc' t))"
proof -
  let ?w = "sc' \<noteq> sc \<or> \<not> list_ex (replaces t) (pa_upsertThreads p)"
  let ?kept = "\<lambda>d d'. kept_log clean ?w (sent_of sc p sc' t) (map entry_of (log_of d sc' t)) (map entry_of (log_of d' sc' t))"
  show "contiguous db' \<and> ?kept db db'"
  proof (cases "\<exists>n c. r = Inr (Saved n c)")
    case False
    then have "db' = db" using patch_refused [OF assms(3)] by blast
    with assms(1) show ?thesis by (simp add: kept_log_refl)
  next
    case True
    then obtain n c where "r = Inr (Saved n c)" by blast
    with assms(3) obtain d1 d2 d3 where d1: "d1 = put_row sc (expected + 1) c db"
      and d2: "d2 = foldl (\<lambda>d t. delete_thread sc t d) d1 (pa_deletedThreadIds p)"
      and d3: "each (replace_transcript clean sc) (pa_upsertThreads p) d2 = Inr d3"
      and d4: "each (appendThreadEvents clean sc) (pa_eventAppends p) d3 = Inr db'"
      by (auto elim: patch_saved)
    define P where "P d \<longleftrightarrow> contiguous d \<and> ?kept db d" for d
    have "log_ok (log_of d2 s j)" for s j
      using contiguousD [OF assms(1), of s j] by (simp add: d2 d1 deletions log_ok_def)
    then have p2: "P d2" unfolding P_def
      using assms(4) by (auto simp: d2 d1 deletions kept_log_refl intro: contiguousI)
    have "P d3"
    proof (rule each_inv [where P = P, OF _ d3 p2])
      fix u d d' assume u: "u \<in> set (pa_upsertThreads p)" and d: "P d" and r: "replace_transcript clean sc u d = Inr d'"
      have reg: "regular_thread u" using assms(2) u by (simp add: regular_patch_def list_all_iff)
      have c: "contiguous d" using d by (simp add: P_def)
      have "?kept d d'"
      proof (cases "log_of d' sc' t = log_of d sc' t")
        case True
        then show ?thesis by (simp add: kept_log_refl)
      next
        case False
        with transcript_entries [OF c reg r, of sc' t] have new: "sc' = sc" "replaces t u"
          "map entry_of (log_of d' sc' t) = map (sent_entry clean) (threadEvents u)" by blast+
        have w: "\<not> ?w" using new(1,2) u by (auto simp: list_ex_iff)
        have sent: "set (threadEvents u) \<subseteq> set (sent_of sc p sc' t)" using new(1,2) u by (auto simp: sent_of_def)
        have "retains False (map er_id (log_of d sc' t)) (map er_id (log_of d' sc' t))"
          using transcript_step(2) [OF c reg r, of sc' t] new(1,2) by simp
        then have "retains ?w (map fst (map entry_of (log_of d sc' t))) (map fst (map entry_of (log_of d' sc' t)))"
          using w unfolding entry_ids by simp
        moreover have "set (map entry_of (log_of d' sc' t)) \<subseteq> set (map entry_of (log_of d sc' t)) \<union> sent_entry clean ` set (sent_of sc p sc' t)"
          unfolding new(3) using sent by auto
        ultimately show ?thesis using w unfolding kept_log_def by blast
      qed
      then show "P d'" using transcript_step(1) [OF c reg r] d unfolding P_def by (blast intro: kept_log_trans)
    qed
    then have "P db'"
    proof (rule each_inv [where P = P, OF _ d4, rotated])
      fix a d d' assume a: "a \<in> set (pa_eventAppends p)" and d: "P d" and r: "appendThreadEvents clean sc a d = Inr d'"
      have reg: "regular_append a" using assms(2) a by (simp add: regular_patch_def list_all_iff)
      have c: "contiguous d" using d by (simp add: P_def)
      have "?kept d d'"
      proof (cases "log_of d' sc' t = log_of d sc' t")
        case True
        then show ?thesis by (simp add: kept_log_refl)
      next
        case False
        with append_entries [OF c reg r, of sc' t] obtain es where new: "sc' = sc" "ea_threadId a = t" "set es \<subseteq> set (ea_events a)"
          "map entry_of (log_of d' sc' t) = map entry_of (log_of d sc' t) @ map (sent_entry clean) es" by blast
        have "set es \<subseteq> set (sent_of sc p sc' t)" using new(1-3) a by (auto simp: sent_of_def)
        then show ?thesis unfolding kept_log_def new(4) map_append by (auto simp: retains_append)
      qed
      then show "P d'" using append_step(1) [OF c reg r] d unfolding P_def by (blast intro: kept_log_trans)
    qed
    then show ?thesis by (simp add: P_def)
  qed
qed

end
