(* ===== verification/Thread_Store_World.thy ===== *)
theory Thread_Store_World
  imports Thread_Store_Theorems
begin

section \<open>Writers and readers of the store of thread collections\<close>

text \<open>
  A request saves a whole collection or patches it, at the revision its client has read.  The store is a
  register with a revision per scope: this is the interface the clients use, and both writers provide it.
\<close>

subsection \<open>Registers with revisions\<close>

locale revisioned_register =
  fixes revision :: "'db \<Rightarrow> 'scope \<Rightarrow> int"
    and write_at :: "'scope \<Rightarrow> int \<Rightarrow> 'w \<Rightarrow> 'db \<Rightarrow> 'r \<times> 'db"
    and stored_as :: "'r \<Rightarrow> int option"
  assumes saved: "write_at sc n w db = (r, db') \<Longrightarrow> stored_as r = Some m \<Longrightarrow> revision db sc = n \<and> m = n + 1 \<and> revision db' sc = m"
    and grows: "write_at sc n w db = (r, db') \<Longrightarrow> revision db sc' \<le> revision db' sc'"
begin

definition run_all :: "('scope \<times> int \<times> 'w) list \<Rightarrow> 'db \<Rightarrow> 'db" where
  "run_all ws db = foldl (\<lambda>d (sc, n, w). snd (write_at sc n w d)) db ws"

lemma run_all_grows: "revision db sc \<le> revision (run_all ws db) sc"
proof (induction ws arbitrary: db)
  case (Cons x ws)
  obtain sc' n w where x: "x = (sc', n, w)" by (cases x)
  have "revision db sc \<le> revision (snd (write_at sc' n w db)) sc"
    by (rule grows) (rule prod.collapse [symmetric])
  also have "\<dots> \<le> revision (run_all ws (snd (write_at sc' n w db))) sc" by (rule Cons.IH)
  finally show ?case by (simp add: x run_all_def)
qed (simp add: run_all_def)

lemma revision_used_once:
  assumes "write_at sc n w db = (r, db')" and "stored_as r = Some m" and "n' \<le> n"
  shows "stored_as (fst (write_at sc n' w' (run_all ws db'))) = None"
proof (rule ccontr)
  assume "stored_as (fst (write_at sc n' w' (run_all ws db'))) \<noteq> None"
  then obtain m' where m': "stored_as (fst (write_at sc n' w' (run_all ws db'))) = Some m'" by blast
  have "revision (run_all ws db') sc = n'"
    using saved [of sc n' w' "run_all ws db'" _ _ m', OF prod.collapse [symmetric] m'] by simp
  moreover have "revision db' sc = n + 1" using saved [OF assms(1,2)] by simp
  ultimately show False using run_all_grows [of db' sc ws] assms(3) by simp
qed

end

subsection \<open>The two writers\<close>

definition revision_of :: "thread_db \<Rightarrow> scope \<Rightarrow> int" where
  "revision_of db sc = (case row_of db sc of None \<Rightarrow> 0 | Some (n, _) \<Rightarrow> n)"

datatype checkpoint = Snapshot json | Changes thread_patch

definition checkpoint :: "(string \<Rightarrow> string) \<Rightarrow> scope \<Rightarrow> int \<Rightarrow> checkpoint \<Rightarrow> thread_db \<Rightarrow> write_result stored \<times> thread_db" where
  "checkpoint clean sc n w db = (case w of Snapshot c \<Rightarrow> save clean sc n c db | Changes p \<Rightarrow> patch clean sc n p db)"

fun saved_revision :: "write_result stored \<Rightarrow> int option" where
  "saved_revision (Inr (Saved n c)) = Some n"
| "saved_revision _ = None"

text \<open>What a transaction that commits has done to the row of its scope, and to nothing else.\<close>

definition committed :: "scope \<Rightarrow> int \<Rightarrow> json \<Rightarrow> thread_db \<Rightarrow> thread_db \<Rightarrow> bool" where
  "committed sc n c db db' \<longleftrightarrow> revision_of db sc = n \<and> framed sc (put_row sc (n + 1) c db) db'"

lemma deletions_frame: "framed sc d (foldl (\<lambda>d t. delete_thread sc t d) d ts)"
  by (rule framedI) (simp_all add: deletions)

lemma transcripts_frame: "each (replace_transcript clean sc) us d = Inr d' \<Longrightarrow> framed sc d d'"
  by (erule each_frame [rotated]) (rule transcript_frame)

lemma appends_frame: "each (appendThreadEvents clean sc) as d = Inr d' \<Longrightarrow> framed sc d d'"
  by (erule each_frame [rotated]) (rule append_frame)

lemma patch_committed:
  assumes "patch clean sc n p db = (Inr (Saved m c), db')"
  shows "committed sc n c db db'" and "m = n + 1"
proof -
  from assms obtain d1 d2 d3 where n: "n = (case row_of db sc of None \<Rightarrow> 0 | Some (k, _) \<Rightarrow> k)" and m: "m = n + 1"
    and d1: "d1 = put_row sc (n + 1) c db" and d2: "d2 = foldl (\<lambda>d t. delete_thread sc t d) d1 (pa_deletedThreadIds p)"
    and d3: "each (replace_transcript clean sc) (pa_upsertThreads p) d2 = Inr d3"
    and d4: "each (appendThreadEvents clean sc) (pa_eventAppends p) d3 = Inr db'"
    by (rule patch_saved)
  have "framed sc d1 db'"
    using deletions_frame [of sc d1 "pa_deletedThreadIds p", folded d2] transcripts_frame [OF d3] appends_frame [OF d4]
    by (blast intro: framed_trans)
  then show "committed sc n c db db'" "m = n + 1" by (simp_all add: committed_def revision_of_def n [symmetric] d1 m)
qed

lemma save_committed:
  assumes "save clean sc n c db = (r, db')"
  shows "db' = db \<and> saved_revision r = None \<or> committed sc n (normalizeJsonbValue clean c) db db' \<and>
     (if safe_nonnegative (n + 1) then r = Inr (Saved (n + 1) (normalizeJsonbValue clean c)) else saved_revision r = None)"
proof -
  let ?c = "normalizeJsonbValue clean c"
  have tx: "revision_of db sc = n \<and> m = n + 1 \<and> c' = ?c \<and> framed sc (put_row sc (n + 1) ?c db) d"
    if "save_tx clean sc n c db = Inr (Saved m c', d)" for m c' d
    using that transcripts_frame [of clean sc _ _ d]
    by (cases "row_of db sc") (auto simp: save_tx_def Let_def revision_of_def split: if_splits sum.splits)
  show ?thesis
    using assms by (auto simp: save_def transacted_def committed_def parseRevision_def fail_def split: sum.splits write_result.splits if_splits dest!: tx)
qed

lemma committed_rows:
  assumes "committed sc n c db db'"
  shows "revision_of db sc = n" and "row_of db' sc = Some (n + 1, c)" and "revision_of db' sc = n + 1"
    and "sc' \<noteq> sc \<Longrightarrow> row_of db' sc' = row_of db sc'" and "sc' \<noteq> sc \<Longrightarrow> log_of db' sc' t = log_of db sc' t"
proof -
  from assms have f: "framed sc (put_row sc (n + 1) c db) db'" and n: "revision_of db sc = n" by (simp_all add: committed_def)
  have r: "row_of db' sc' = row_of (put_row sc (n + 1) c db) sc'" for sc' using framedD(1) [OF f] by (simp add: row_of_def)
  show "revision_of db sc = n" by (rule n)
  show "row_of db' sc = Some (n + 1, c)" "revision_of db' sc = n + 1" by (simp_all add: r row_of_put_row revision_of_def)
  show "sc' \<noteq> sc \<Longrightarrow> row_of db' sc' = row_of db sc'" by (simp add: r row_of_put_row)
  show "sc' \<noteq> sc \<Longrightarrow> log_of db' sc' t = log_of db sc' t" using framedD(2) [OF f] by simp
qed

lemma checkpoint_cases:
  assumes "checkpoint clean sc n w db = (r, db')"
  obtains "db' = db" and "saved_revision r = None"
    | c where "committed sc n c db db'" and "saved_revision r = Some (n + 1)"
    | c where "committed sc n c db db'" and "saved_revision r = None" and "\<not> safe_nonnegative (n + 1)"
proof (cases w)
  case (Snapshot c)
  with assms have "save clean sc n c db = (r, db')" by (simp add: checkpoint_def)
  from save_committed [OF this] that show ?thesis by (auto split: if_splits)
next
  case (Changes p)
  with assms have p: "patch clean sc n p db = (r, db')" by (simp add: checkpoint_def)
  show ?thesis
  proof (cases "\<exists>m c. r = Inr (Saved m c)")
    case True
    then obtain m c where r: "r = Inr (Saved m c)" by blast
    from patch_committed [OF p [unfolded r]] that(2) r show ?thesis by auto
  next
    case False
    then have "saved_revision r = None" by (cases r rule: saved_revision.cases) auto
    with patch_refused [OF p] False that(1) show ?thesis by blast
  qed
qed

lemma checkpoint_revision: "checkpoint clean sc n w db = (r, db') \<Longrightarrow> revision_of db sc' \<le> revision_of db' sc'"
proof (erule checkpoint_cases)
  fix c assume "committed sc n c db db'"
  from committed_rows(1,3) [OF this] committed_rows(4) [OF this, of sc'] show "revision_of db sc' \<le> revision_of db' sc'"
    by (cases "sc' = sc") (auto simp: revision_of_def)
next
  fix c assume "committed sc n c db db'"
  from committed_rows(1,3) [OF this] committed_rows(4) [OF this, of sc'] show "revision_of db sc' \<le> revision_of db' sc'"
    by (cases "sc' = sc") (auto simp: revision_of_def)
qed simp

interpretation collections: revisioned_register revision_of "checkpoint clean" saved_revision
  for clean :: "string \<Rightarrow> string"
proof unfold_locales
  fix sc n w db r db' m assume "checkpoint clean sc n w db = (r, db')" and m: "saved_revision r = Some m"
  then show "revision_of db sc = n \<and> m = n + 1 \<and> revision_of db' sc = m"
    by (cases rule: checkpoint_cases) (auto dest: committed_rows(1,3))
qed (rule checkpoint_revision)

definition checkpoints :: "(string \<Rightarrow> string) \<Rightarrow> (scope \<times> int \<times> checkpoint) list \<Rightarrow> thread_db \<Rightarrow> thread_db" where
  "checkpoints clean ws db = foldl (\<lambda>d (sc, n, w). snd (checkpoint clean sc n w d)) db ws"

text \<open>C20 (no_checkpoint_is_lost) Once a checkpoint has been saved at a revision, no other checkpoint that its
  client based on that revision or an earlier one is ever saved, whatever requests of whatever accounts
  come between them: a client cannot overwrite threads it has not read.
\<close>

theorem no_checkpoint_is_lost:
  assumes "checkpoint clean sc n w db = (r, db1)" and "saved_revision r = Some m" and "n' \<le> n"
  shows "saved_revision (fst (checkpoint clean sc n' w' (checkpoints clean ws db1))) = None"
  using collections.revision_used_once [OF assms] by (simp add: collections.run_all_def checkpoints_def)

text \<open>C21 (checkpoints_stay_in_their_scope) A checkpoint either leaves the tables as they were, with an error or
  a conflict, or advances the revision of its own scope by one from the revision its client named; the
  collections and logs of every other tenant, principal and key are unchanged either way.
\<close>

theorem checkpoints_stay_in_their_scope:
  assumes "checkpoint clean sc n w db = (r, db')"
  shows "(db' = db \<and> saved_revision r = None \<or>
      revision_of db sc = n \<and> revision_of db' sc = n + 1 \<and> (n < MAX_SAFE_INTEGER \<and> 0 \<le> n \<longrightarrow> saved_revision r = Some (n + 1))) \<and>
    (sc' \<noteq> sc \<longrightarrow> row_of db' sc' = row_of db sc' \<and> log_of db' sc' t = log_of db sc' t)"
  using assms by (cases rule: checkpoint_cases) (auto dest: committed_rows simp: safe_nonnegative_def)

subsection \<open>Resent events\<close>

lemma fresh_of_append:
  "fresh_of rs (xs @ ys) = fresh_of rs xs @ fresh_events (rev (map ident (fresh_of rs xs)) @ map er_id rs) (map (\<lambda>e. (e, ident e)) ys)"
  unfolding fresh_of_def map_append by (rule fresh_events_append) (simp add: list_all_iff)

lemma fresh_of_resent:
  assumes "named (xs @ ys)" and "map er_id rs' = map er_id rs @ map ident (fresh_of rs (xs @ ys))"
  shows "fresh_of rs' (ys @ zs) = fresh_events (map er_id rs') (map (\<lambda>e. (e, ident e)) zs)"
    and "fresh_of rs (xs @ ys @ zs) = fresh_of rs (xs @ ys) @ fresh_of rs' (ys @ zs)"
proof -
  have ids: "set (map er_id rs') = ident ` set (fresh_of rs (xs @ ys)) \<union> er_id ` set rs"
    unfolding assms(2) by auto
  have "ident ` set ys \<subseteq> set (map er_id rs')"
    using fresh_of_props(4) [OF assms(1), of rs] unfolding ids by auto
  then show r: "fresh_of rs' (ys @ zs) = fresh_events (map er_id rs') (map (\<lambda>e. (e, ident e)) zs)"
    unfolding fresh_of_def map_append by (intro fresh_events_seen) (simp add: image_image)
  have "fresh_of rs (xs @ ys @ zs) = fresh_of rs (xs @ ys) @
      fresh_events (rev (map ident (fresh_of rs (xs @ ys))) @ map er_id rs) (map (\<lambda>e. (e, ident e)) zs)"
    using fresh_of_append [of rs "xs @ ys" zs] by simp
  also have "fresh_events (rev (map ident (fresh_of rs (xs @ ys))) @ map er_id rs) (map (\<lambda>e. (e, ident e)) zs) = fresh_of rs' (ys @ zs)"
    unfolding r by (rule fresh_events_cong) (auto simp: assms(2))
  finally show "fresh_of rs (xs @ ys @ zs) = fresh_of rs (xs @ ys) @ fresh_of rs' (ys @ zs)" .
qed

lemma numbered_append: "numbered n (xs @ ys) = numbered n xs @ numbered (n + int (length xs)) ys"
  by (induction xs arbitrary: n) (simp_all add: numbered_Cons add.assoc)

text \<open>C24 (resent_events_are_absorbed) Let a log be numbered from zero without a hole and repeat no identity, and let
  every event sent be an object with an identity of its own (a non-empty \<^verbatim>\<open>meta.id\<close>; the store identifies any other by its
  position, and would store it again).  A client that lost the response to an append of \<open>xs\<close> and \<open>ys\<close>, and sends
  \<open>ys\<close> again followed by new events \<open>zs\<close>, leaves the tables as if it had sent \<open>xs\<close>, \<open>ys\<close> and \<open>zs\<close> at once: both
  succeed with the same tables, whose log again has no hole and no repetition and holds the identities it held before
  and those of the events sent, no others.  (The length of the log is within the safe integers, as the store requires.)
\<close>

theorem resent_events_are_absorbed:
  assumes "log_ok (log_of db sc t)" and "list_all is_record (xs @ ys @ zs)" and "named (xs @ ys @ zs)"
    and "appendThreadEvents clean sc \<lparr>ea_events = xs @ ys, ea_replaceFrom = None, ea_threadId = t\<rparr> db = Inr db1"
    and "int (length (log_of db sc t) + length (xs @ ys)) \<le> MAX_SAFE_INTEGER"
  shows "\<exists>db2. appendThreadEvents clean sc \<lparr>ea_events = ys @ zs, ea_replaceFrom = None, ea_threadId = t\<rparr> db1 = Inr db2 \<and>
    appendThreadEvents clean sc \<lparr>ea_events = xs @ ys @ zs, ea_replaceFrom = None, ea_threadId = t\<rparr> db = Inr db2 \<and>
    log_ok (log_of db2 sc t) \<and> er_id ` set (log_of db2 sc t) = er_id ` set (log_of db sc t) \<union> ident ` set (xs @ ys @ zs)"
proof -
  let ?rs = "log_of db sc t"
  have f: "filter is_record (xs @ ys) = xs @ ys" "filter is_record (ys @ zs) = ys @ zs" "filter is_record (xs @ ys @ zs) = xs @ ys @ zs"
    using assms(2) by (simp_all add: list_all_iff)
  have n: "named (xs @ ys)" "named (ys @ zs)" using assms(3) by simp_all
  define new where "new = fresh_of ?rs (xs @ ys)"
  have db1: "db1 = db\<lparr>td_events := td_events db @ map (row_for clean sc t) (numbered (int (length ?rs)) new)\<rparr>"
    using append_Inr [OF _ _ _ assms(4)] assms(1) n f by (simp add: new_def)
  have ok1: "log_ok (log_of db1 sc t)" and ids: "map er_id (log_of db1 sc t) = map er_id ?rs @ map ident new"
    using append_log(1,2) [OF _ _ _ assms(4)] assms(1) n f by (simp_all add: new_def)
  have len: "length (log_of db1 sc t) = length ?rs + length new" using arg_cong [OF ids, of length] by simp
  have short: "length new \<le> length (xs @ ys)"
  proof -
    have "length (fresh_events seen cs) \<le> length cs" for seen :: "string list" and cs
      by (induction seen cs rule: fresh_events.induct) auto
    from this [of "map er_id ?rs" "map (\<lambda>e. (e, ident e)) (xs @ ys)"] show ?thesis by (simp add: new_def fresh_of_def)
  qed
  have safe: "safe_nonnegative (int (length ?rs))" "safe_nonnegative (int (length (log_of db1 sc t)))"
    using assms(5) short by (simp_all add: safe_nonnegative_def len)
  note r = fresh_of_resent(2) [OF n(1) ids [unfolded new_def], of zs, folded new_def]
  let ?db2 = "db1\<lparr>td_events := td_events db1 @ map (row_for clean sc t) (numbered (int (length (log_of db1 sc t))) (fresh_of (log_of db1 sc t) (ys @ zs)))\<rparr>"
  have resent: "appendThreadEvents clean sc \<lparr>ea_events = ys @ zs, ea_replaceFrom = None, ea_threadId = t\<rparr> db1 = Inr ?db2"
    using append_eq [of db1 sc "\<lparr>ea_events = ys @ zs, ea_replaceFrom = None, ea_threadId = t\<rparr>" clean] ok1 n(2) safe(2) f by simp
  have "Inr ?db2 = Inr (db\<lparr>td_events := td_events db @ map (row_for clean sc t) (numbered (int (length ?rs)) (new @ fresh_of (log_of db1 sc t) (ys @ zs)))\<rparr>)"
    by (simp add: db1 [symmetric] len numbered_append) (simp add: db1)
  also have "\<dots> = appendThreadEvents clean sc \<lparr>ea_events = xs @ ys @ zs, ea_replaceFrom = None, ea_threadId = t\<rparr> db"
    using append_eq [of db sc "\<lparr>ea_events = xs @ ys @ zs, ea_replaceFrom = None, ea_threadId = t\<rparr>" clean] assms(1,3) safe(1) f r by simp
  finally have once: "appendThreadEvents clean sc \<lparr>ea_events = xs @ ys @ zs, ea_replaceFrom = None, ea_threadId = t\<rparr> db = Inr ?db2" by (rule sym)
  have ok2: "log_ok (log_of ?db2 sc t)" and ids2: "map er_id (log_of ?db2 sc t) = map er_id ?rs @ map ident (fresh_of ?rs (xs @ ys @ zs))"
    using append_log(1,2) [OF _ _ _ once] assms(1,3) f by simp_all
  have "er_id ` set (log_of ?db2 sc t) = er_id ` set ?rs \<union> ident ` set (fresh_of ?rs (xs @ ys @ zs))"
    using arg_cong [OF ids2, of set] by simp
  also have "\<dots> = er_id ` set ?rs \<union> ident ` set (xs @ ys @ zs)" using fresh_of_props(4) [OF assms(3), of ?rs] by blast
  finally have "er_id ` set (log_of ?db2 sc t) = er_id ` set ?rs \<union> ident ` set (xs @ ys @ zs)" .
  with resent once ok2 show ?thesis by blast
qed

subsection \<open>Reading backwards\<close>

lemma log_from: "log_ok rs \<Longrightarrow> filter (\<lambda>r. int k \<le> er_index r) rs = drop k rs"
proof (induction rs rule: rev_induct)
  case (snoc r rs)
  have "map er_index rs @ [er_index r] = map int [0..<length rs] @ [int (length rs)]" "distinct (map er_id rs)"
    using snoc.prems by (simp_all add: log_ok_def)
  then have ok: "log_ok rs" and r: "er_index r = int (length rs)" by (simp_all add: log_ok_def)
  show ?case using snoc.IH [OF ok] by (simp add: r)
qed simp

lemma log_between: "log_ok rs \<Longrightarrow> filter (\<lambda>r. int a \<le> er_index r \<and> er_index r < int b) rs = drop a (take b rs)"
proof -
  assume ok: "log_ok rs"
  have "filter (\<lambda>r. int a \<le> er_index r \<and> er_index r < int b) rs = filter (\<lambda>r. int a \<le> er_index r) (filter (\<lambda>r. er_index r < int b) rs)"
    by (simp add: conj_commute)
  then show ?thesis by (simp add: log_below [OF ok] log_from [OF log_ok_take [OF ok]])
qed

lemma sorted_slice: "log_ok rs \<Longrightarrow> sort_key er_index (drop a (take b rs)) = drop a (take b rs)"
proof (rule sort_key_id_if_sorted)
  assume "log_ok rs"
  then have "map er_index (take b rs) = map int [0..<length (take b rs)]" using log_ok_take by (simp add: log_ok_def)
  then have "sorted (map er_index (take b rs))" by (simp add: sorted_iff_nth_mono_less)
  then show "sorted (map er_index (drop a (take b rs)))" by (simp only: drop_map [symmetric] sorted_wrt_drop)
qed

lemma window_slice:
  assumes "log_ok rs" and "a \<le> b" and "b \<le> length rs" and "int (b - a) \<le> limit"
    and "w = \<lparr>wb_endIndex = int b, wb_hasMoreBefore = m, wb_startIndex = int a, wb_total = k\<rparr>"
  shows "window_events rs legacy w limit = map er_event (drop a (take b rs))"
proof -
  have "take (nat limit) (drop a (take b rs)) = drop a (take b rs)" using assms(2-4) by simp
  then have "window_events rs legacy w limit =
     (if drop a (take b rs) \<noteq> [] then map er_event (drop a (take b rs)) else take (b - a) (drop a legacy))"
    by (simp add: window_events_def assms(5) log_between [OF assms(1)] sorted_slice [OF assms(1)] Let_def nat_diff_distrib' del: drop_eq_Nil drop_eq_Nil2)
  moreover have "b - a = 0" if "drop a (take b rs) = []" using that assms(2,3) by simp
  ultimately show ?thesis by auto
qed

text \<open>A thread that can be read.\<close>

definition readable :: "scope \<Rightarrow> string \<Rightarrow> thread_db \<Rightarrow> bool" where
  "readable sc t db \<longleftrightarrow> assertScope sc = Inr () \<and> check_text t ''threadId'' 200 = Inr () \<and>
     (case row_of db sc of None \<Rightarrow> False | Some (n, c) \<Rightarrow> safe_nonnegative n \<and>
        (case jarray (jget ''threads'' c) of None \<Rightarrow> False | Some ts \<Rightarrow> list_ex (\<lambda>x. string_id x = Some t) ts)) \<and>
     log_of db sc t \<noteq> [] \<and> int (length (log_of db sc t)) \<le> MAX_SAFE_INTEGER"

definition events_read :: "window_result \<Rightarrow> json list" where
  "events_read r = (case jarray (jget ''events'' (wr_thread r)) of Some es \<Rightarrow> es | None \<Rightarrow> [])"

lemma find_ex: "list_ex P xs \<Longrightarrow> \<exists>x. find P xs = Some x \<and> P x"
  by (induction xs) auto

lemma jget_jput: "is_record v \<Longrightarrow> jget k (jput k x v) = Some x"
proof -
  have "map_of (filter (\<lambda>(k', _). k' \<noteq> k) kvs) k = None" for kvs :: "(string \<times> json) list"
    by (induction kvs) auto
  then show "is_record v \<Longrightarrow> jget k (jput k x v) = Some x"
    by (cases v) (simp_all add: jput_def jget_def is_record_def map_add_def)
qed

lemma jdelete_record [simp]: "is_record (jdelete k v) = is_record v"
  by (cases v) (simp_all add: jdelete_def is_record_def)

lemma jget_record: "jget k v \<noteq> None \<Longrightarrow> is_record v"
  by (cases v) (simp_all add: jget_def is_record_def)

lemma jarray_JArr [simp]: "jarray (Some (JArr xs)) = Some xs"
  by (simp add: jarray_def)

lemma window_read:
  assumes ok: "log_ok (log_of db sc t)" and r: "readable sc t db" and e: "e \<le> length (log_of db sc t)" and limit: "0 < limit" "limit \<le> 1000"
    and before: "before = Some (int e) \<or> before = None \<and> e = length (log_of db sc t)"
  defines "a \<equiv> e - limit"
  shows "\<exists>w. loadThreadWindow sc t before (Some (int limit)) db = Inr (Some w) \<and>
     events_read w = map er_event (drop a (take e (log_of db sc t))) \<and> wb_startIndex (wr_window w) = int a \<and>
     wb_hasMoreBefore (wr_window w) = (a > 0) \<and> wb_endIndex (wr_window w) = int e \<and> wb_total (wr_window w) = int (length (log_of db sc t))"
proof -
  let ?rs = "log_of db sc t"
  from r obtain n c ts where row: "row_of db sc = Some (n, c)" and n: "safe_nonnegative n" and ts: "jarray (jget ''threads'' c) = Some ts"
    and ex: "list_ex (\<lambda>x. string_id x = Some t) ts" and ne: "?rs \<noteq> []" and len: "int (length ?rs) \<le> MAX_SAFE_INTEGER"
    and s: "assertScope sc = Inr ()" "check_text t ''threadId'' 200 = Inr ()"
    by (auto simp: readable_def split: option.splits)
  from find_ex [OF ex] obtain target where target: "find (\<lambda>x. string_id x = Some t) ts = Some target" "string_id target = Some t" by blast
  then have id: "jget ''id'' target \<noteq> None" by (auto simp: string_id_def jstring_def split: option.splits)
  have l: "boundedWindowInteger (Some (int limit)) 256 1 1000 ''limit'' = Inr (int limit)"
    using limit by (simp add: boundedWindowInteger_def MAX_SAFE_INTEGER_def)
  have b: "(case before of None \<Rightarrow> Inr None | Some b \<Rightarrow> map_sum id Some (boundedWindowInteger (Some b) 0 0 MAX_SAFE_INTEGER ''before'')) = Inr before"
    using before e len by (auto simp: boundedWindowInteger_def)
  have f: "min (int (length ?rs)) (case before of Some b \<Rightarrow> b | None \<Rightarrow> int (length ?rs)) = int e" using before e by auto
  have w: "window_of (int (length ?rs)) before (int limit) =
      \<lparr>wb_endIndex = int e, wb_hasMoreBefore = (a > 0), wb_startIndex = int a, wb_total = int (length ?rs)\<rparr>"
    unfolding window_of_def f by (auto simp: a_def Let_def of_nat_diff max_def)
  have "int (e - a) \<le> int limit" "a \<le> e" by (simp_all add: a_def)
  from window_slice [OF ok this(2) e this(1) w]
  have we: "window_events ?rs legacy (window_of (int (length ?rs)) before (int limit)) (int limit) = map er_event (drop a (take e ?rs))" for legacy .
  have p: "parseRevision (int (length ?rs)) = Inr (int (length ?rs))" "parseRevision n = Inr n"
    using n len by (simp_all add: parseRevision_def safe_nonnegative_def)
  show ?thesis
    unfolding loadThreadWindow_def s l b row
    by (simp add: ts target ne next_index_ok [OF ok] p Let_def we events_read_def jget_jput jget_record [OF id]) (simp add: w)
qed

text \<open>A reader that asks for earlier windows until none is left.\<close>

fun read_back :: "nat \<Rightarrow> scope \<Rightarrow> string \<Rightarrow> nat \<Rightarrow> int option \<Rightarrow> json list \<Rightarrow> thread_db \<Rightarrow> json list option" where
  "read_back 0 sc t limit before later db = None"
| "read_back (Suc k) sc t limit before later db =
     (case loadThreadWindow sc t before (Some (int limit)) db of
        Inr (Some w) \<Rightarrow> let es = events_read w @ later in
          if wb_hasMoreBefore (wr_window w) then read_back k sc t limit (Some (wb_startIndex (wr_window w))) es db else Some es
      | _ \<Rightarrow> None)"

lemma read_back_from:
  assumes "log_ok (log_of db sc t)" and "readable sc t db" and "0 < limit" "limit \<le> 1000"
  shows "\<lbrakk>e \<le> length (log_of db sc t); e \<le> limit * k; 0 < k; before = Some (int e) \<or> before = None \<and> e = length (log_of db sc t)\<rbrakk> \<Longrightarrow>
    read_back k sc t limit before later db = Some (map er_event (take e (log_of db sc t)) @ later)"
proof (induction k arbitrary: e before later)
  case (Suc k)
  let ?rs = "log_of db sc t" and ?a = "e - limit"
  from window_read [OF assms(1,2) Suc.prems(1) assms(3,4) Suc.prems(4)] obtain w where
    w: "loadThreadWindow sc t before (Some (int limit)) db = Inr (Some w) \<and> events_read w = map er_event (drop ?a (take e ?rs)) \<and>
      wb_startIndex (wr_window w) = int ?a \<and> wb_hasMoreBefore (wr_window w) = (?a > 0) \<and> wb_endIndex (wr_window w) = int e \<and>
      wb_total (wr_window w) = int (length ?rs)" by (rule exE)
  show ?case
  proof (cases "?a > 0")
    case True
    have k: "?a \<le> limit * k" using Suc.prems(2) by simp
    have "0 < k" using Suc.prems(2) True by (cases "k = 0") simp_all
    note k = k this
    have "take ?a (take e ?rs) @ drop ?a (take e ?rs) = take e ?rs" by (rule append_take_drop_id)
    then have "map er_event (take ?a ?rs) @ map er_event (drop ?a (take e ?rs)) = map er_event (take e ?rs)"
      by (simp add: map_append [symmetric] min_def del: map_append)
    then show ?thesis
      using Suc.IH [OF _ k, of "Some (int ?a)" "map er_event (drop ?a (take e ?rs)) @ later"] Suc.prems(1) True
      by (simp add: w Let_def)
  next
    case False
    then show ?thesis by (simp add: w Let_def)
  qed
qed simp

text \<open>C30 (reading_back_ends) Let the log of a thread be numbered from zero without a hole and repeat no identity (as
  patches_keep_transcripts keeps it; an append past the end can break it), let it be readable - scope and thread
  identity valid, the stored collection lists the thread at a safe revision, the log not empty and its length a safe
  integer - and let the store accept the page size, one to a thousand.  A reader that starts at the end and asks each time for the window before the one it has is done after
  as many requests as the log has pages, and holds the whole transcript in order.
\<close>

theorem reading_back_ends:
  assumes "log_ok (log_of db sc t)" and "readable sc t db" and "0 < limit" and "limit \<le> 1000"
    and "length (log_of db sc t) \<le> limit * k" and "0 < k"
  shows "read_back k sc t limit None [] db = Some (map er_event (log_of db sc t))"
  using read_back_from [OF assms(1-4) order_refl assms(5,6), of None "[]"] by simp

subsection \<open>Examples\<close>

definition ex_scope :: scope where
  "ex_scope = (''t'', ''p'', ''k'')"

definition ex_event :: "string \<Rightarrow> json" where
  "ex_event i = JObj [(''meta'', JObj [(''id'', JStr i)])]"

definition ex_append :: "string list \<Rightarrow> event_append" where
  "ex_append is = \<lparr>ea_events = map ex_event is, ea_replaceFrom = None, ea_threadId = ''a''\<rparr>"

definition ex_patch :: thread_patch where
  "ex_patch = \<lparr>pa_activeThreadId = None, pa_deletedThreadIds = [], pa_eventAppends = [ex_append [''x'', ''y'', ''z'']],
     pa_upsertThreads = [JObj [(''id'', JStr ''a''), (''events'', JArr [])]]\<rparr>"

definition ex_empty :: thread_db where
  "ex_empty = \<lparr>td_collections = [], td_events = []\<rparr>"

definition ex_db :: thread_db where
  "ex_db = snd (patch id ex_scope 0 ex_patch ex_empty)"

lemma ex_empty_contiguous: "contiguous ex_empty"
  by (rule contiguousI) (simp add: ex_empty_def log_of_def log_ok_def)

theorem patches_keep_transcripts_witness:
  "contiguous ex_db \<and> kept_log id (ex_scope \<noteq> ex_scope \<or> \<not> list_ex (replaces ''a'') (pa_upsertThreads ex_patch)) (sent_of ex_scope ex_patch ex_scope ''a'')
      (map entry_of (log_of ex_empty ex_scope ''a'')) (map entry_of (log_of ex_db ex_scope ''a'')) \<and>
    map er_id (log_of ex_db ex_scope ''a'') = [''x'', ''y'', ''z'']"
proof -
  have r: "regular_patch ex_patch" by code_simp
  have i: "map er_id (log_of ex_db ex_scope ''a'') = [''x'', ''y'', ''z'']" by code_simp
  have d: "ex_scope \<noteq> ex_scope \<or> ''a'' \<notin> set (pa_deletedThreadIds ex_patch)" by (simp add: ex_patch_def)
  show ?thesis
    using patches_keep_transcripts [where sc' = ex_scope and t = "''a''", OF ex_empty_contiguous r prod.collapse [symmetric, of "patch id ex_scope 0 ex_patch ex_empty"] d] i by (simp add: ex_db_def)
qed

theorem no_checkpoint_is_lost_witness:
  "saved_revision (fst (checkpoint id ex_scope 0 (Snapshot (JObj [])) (checkpoints id [] (snd (checkpoint id ex_scope 0 (Changes ex_patch) ex_empty))))) = None"
proof -
  have "saved_revision (fst (checkpoint id ex_scope 0 (Changes ex_patch) ex_empty)) = Some 1" by code_simp
  from no_checkpoint_is_lost [OF prod.collapse [symmetric] this order_refl] show ?thesis .
qed

theorem checkpoints_stay_in_their_scope_witness:
  "row_of (snd (checkpoint id ex_scope 0 (Changes ex_patch) ex_empty)) (''o'', ''p'', ''k'') = None"
  using checkpoints_stay_in_their_scope [OF prod.collapse [symmetric], of id ex_scope 0 "Changes ex_patch" ex_empty "(''o'', ''p'', ''k'')"]
  by (simp add: ex_scope_def ex_empty_def row_of_def)

theorem resent_events_are_absorbed_witness:
  "appendThreadEvents id ex_scope (ex_append [''y'', ''z'']) (snd (Inl 0, ex_empty\<lparr>td_events := map (row_for id ex_scope ''a'') [(ex_event ''x'', 0), (ex_event ''y'', 1)]\<rparr>)) =
    appendThreadEvents id ex_scope (ex_append [''x'', ''y'', ''z'']) ex_empty"
proof -
  have a: "appendThreadEvents id ex_scope \<lparr>ea_events = [ex_event ''x''] @ [ex_event ''y''], ea_replaceFrom = None, ea_threadId = ''a''\<rparr> ex_empty =
      Inr (ex_empty\<lparr>td_events := map (row_for id ex_scope ''a'') [(ex_event ''x'', 0), (ex_event ''y'', 1)]\<rparr>)" by code_simp
  have b: "list_all is_record ([ex_event ''x''] @ [ex_event ''y''] @ [ex_event ''z''])" "named ([ex_event ''x''] @ [ex_event ''y''] @ [ex_event ''z''])"
    by code_simp+
  have c: "log_ok (log_of ex_empty ex_scope ''a'')" by (rule contiguousD [OF ex_empty_contiguous])
  have d: "int (length (log_of ex_empty ex_scope ''a'') + length ([ex_event ''x''] @ [ex_event ''y''])) \<le> MAX_SAFE_INTEGER"
    by (simp add: ex_empty_def log_of_def MAX_SAFE_INTEGER_def)
  from resent_events_are_absorbed [OF c b a d] show ?thesis by (elim exE conjE) (simp add: ex_append_def)
qed

theorem reading_back_ends_witness:
  "read_back 2 ex_scope ''a'' 2 None [] ex_db = Some (map er_event (log_of ex_db ex_scope ''a'')) \<and> length (log_of ex_db ex_scope ''a'') = 3"
proof -
  have c: "log_ok (log_of ex_db ex_scope ''a'')" by code_simp
  have l: "length (log_of ex_db ex_scope ''a'') = 3" by code_simp
  have ne: "log_of ex_db ex_scope ''a'' \<noteq> []" using l by auto
  have r: "readable ex_scope ''a'' ex_db"
    unfolding readable_def using ne l by (simp add: MAX_SAFE_INTEGER_def) code_simp
  from reading_back_ends [OF c r, of 2 2] l show ?thesis by simp
qed

subsection \<open>Holes\<close>

text \<open>Remark (append_past_the_end_leaves_a_hole) An append that replaces from an index past the end of the log
  is accepted and leaves the indexes between them empty: the window over them returns fewer events than its
  bounds say.
\<close>

theorem append_past_the_end_leaves_a_hole:
  "map_sum id (\<lambda>d. map er_index (log_of d ex_scope ''a'')) (appendThreadEvents id ex_scope
     \<lparr>ea_events = [ex_event ''x''], ea_replaceFrom = Some 5, ea_threadId = ''a''\<rparr> ex_empty) = Inr [5]"
  by code_simp

text \<open>Remark (repeated_event_leaves_a_hole) A new transcript that repeats an identity is stored with the index of
  the repetition missing, while an append of the same events is stored without a hole.
\<close>

theorem repeated_event_leaves_a_hole:
  "map_sum id (\<lambda>d. map er_index (log_of d ex_scope ''a''))
     (replaceThreadEvents id ex_scope ''a'' (map ex_event [''x'', ''x'', ''y'']) ex_empty) = Inr [0, 2] \<and>
   map_sum id (\<lambda>d. map er_index (log_of d ex_scope ''a''))
     (appendThreadEvents id ex_scope (ex_append [''x'', ''x'', ''y'']) ex_empty) = Inr [0, 1]"
  by code_simp

end
