(* ===== verification/Thread_Client_Theorems.thy ===== *)
theory Thread_Client_Theorems
  imports Thread_Client Thread_Store_World Thread_Collection_Theorems
begin

section \<open>Properties of the storage client\<close>

text \<open>
  A save is sent once; a checkpoint never drops more than the snapshot it replaces; and the baseline of a
  thread mirrors the tail of the server's log from the start of its window on, before and after a save.
\<close>

subsection \<open>Requests\<close>

lemma request_loop_attempts: "snd (request_loop reads fetch n left) \<le> Suc n + left"
proof (induction left arbitrary: n)
  case 0
  then show ?case by (auto split: fetch_outcome.splits body_outcome.splits)
next
  case (Suc left)
  then show ?case using Suc.IH [of "Suc n"] by (auto split: fetch_outcome.splits body_outcome.splits)
qed

text \<open>Remark (writes_are_sent_once) Whatever the network does, a request that is not a read is sent at most once,
  and a read at most once more than its retry limit; without a usable access token nothing is sent.\<close>

theorem writes_are_sent_once:
  "snd (request is_get limit token reads fetch) \<le> (if is_get then Suc limit else 1) \<and>
   ((\<exists>e. token = Inl e) \<or> token = Inr (Some []) \<longrightarrow> snd (request is_get limit token reads fetch) = 0)"
  using request_loop_attempts [of reads fetch 0 "if is_get then limit else 0"]
  by (auto simp: request_def js_trim_def split: sum.splits)

theorem writes_are_sent_once_witness:
  "snd (request False 3 (Inr (Some [])) False (\<lambda>n. Raised True :: unit fetch_outcome)) = 0"
  using writes_are_sent_once [of False 3 "Inr (Some [])" False "\<lambda>n. Raised True :: unit fetch_outcome"] by simp

subsection \<open>Differences\<close>

lemma find_index_None: "find_index P xs = None \<longleftrightarrow> list_all (\<lambda>x. \<not> P x) xs"
  by (induction xs) auto

lemma find_index_Some: "find_index P xs = Some i \<Longrightarrow> i < length xs \<and> P (xs ! i) \<and> list_all (\<lambda>x. \<not> P x) (take i xs)"
  by (induction xs arbitrary: i) (auto split: if_splits)

lemma first_difference:
  assumes "length previous \<le> length next"
  shows "first_difference previous next \<le> length previous"
    and "map eventIdentity (take (first_difference previous next) next) = map eventIdentity (take (first_difference previous next) previous)"
proof -
  let ?z = "zip previous next" and ?P = "\<lambda>(a, b). eventIdentity a \<noteq> eventIdentity b"
  have len: "length ?z = length previous" using assms by simp
  have "\<exists>i. first_difference previous next = i \<and> i \<le> length previous \<and> list_all (\<lambda>x. \<not> ?P x) (take i ?z)"
  proof (cases "find_index ?P ?z")
    case None
    then have "first_difference previous next = length previous" by (simp add: first_difference_def)
    moreover have "list_all (\<lambda>x. \<not> ?P x) (take (length previous) ?z)"
      using None [unfolded find_index_None] len by simp
    ultimately show ?thesis by simp
  next
    case (Some i)
    then have "first_difference previous next = i" by (simp add: first_difference_def)
    with find_index_Some [OF Some] len show ?thesis by simp
  qed
  then obtain i where i: "first_difference previous next = i" "i \<le> length previous" "list_all (\<lambda>x. \<not> ?P x) (take i ?z)" by blast
  have "eventIdentity (next ! j) = eventIdentity (previous ! j)" if "j < i" for j
  proof -
    have "(take i ?z) ! j \<in> set (take i ?z)" using that i(2) assms by (intro nth_mem) simp
    then show ?thesis using i(2,3) that assms by (auto simp: list_all_iff)
  qed
  then have "map eventIdentity (take i next) = map eventIdentity (take i previous)"
    using i(2) assms by (intro nth_equalityI) simp_all
  with i show "first_difference previous next \<le> length previous"
    "map eventIdentity (take (first_difference previous next) next) = map eventIdentity (take (first_difference previous next) previous)"
    by simp_all
qed

lemma delta_facts:
  assumes "appendOnlyEventDelta previous next = Some (es, first)"
  shows "first \<le> length previous" and "es = drop first next" and "length previous \<le> length next"
    and "map eventIdentity (take first next) = map eventIdentity (take first previous)"
    and "\<lbrakk>first < i; i < length previous\<rbrakk> \<Longrightarrow> eventIdentity (previous ! i) = eventIdentity (next ! i)"
proof -
  from assms have len: "length previous \<le> length next" and f: "first = first_difference previous next" "es = drop first next"
    and l: "list_all (\<lambda>i. eventIdentity (previous ! i) = eventIdentity (next ! i)) [Suc first..<length previous]"
    by (auto simp: appendOnlyEventDelta_def Let_def split: if_splits)
  show "length previous \<le> length next" "es = drop first next" by (rule len f(2))+
  show "first \<le> length previous" "map eventIdentity (take first next) = map eventIdentity (take first previous)"
    using first_difference [OF len] f(1) by simp_all
  show "\<lbrakk>first < i; i < length previous\<rbrakk> \<Longrightarrow> eventIdentity (previous ! i) = eventIdentity (next ! i)"
    using l by (simp add: list_all_iff)
qed

subsection \<open>The client and the log of the server\<close>

text \<open>The identity an event carries, and the events as the server receives them.\<close>

definition eid :: "thread_event \<Rightarrow> string" where
  "eid e = (case se_metaId e of Some i \<Rightarrow> i | None \<Rightarrow> [])"

definition identified :: "thread_event \<Rightarrow> bool" where
  "identified e \<longleftrightarrow> truthy (se_metaId e) \<noteq> None"

definition faithful :: "(thread_event \<Rightarrow> json) \<Rightarrow> bool" where
  "faithful enc \<longleftrightarrow> (\<forall>e. is_record (enc e) \<and> event_id (enc e) = truthy (se_metaId e))"

definition sent :: "(thread_event \<Rightarrow> json) \<Rightarrow> contract_append \<Rightarrow> event_append" where
  "sent enc a = \<lparr>ea_events = map enc (ca_events a), ea_replaceFrom = ca_replaceFrom a, ea_threadId = ca_threadId a\<rparr>"

text \<open>The events of a window that starts at an index are the log from that index on.\<close>

definition mirrors :: "nat \<Rightarrow> string list \<Rightarrow> thread_event list \<Rightarrow> bool" where
  "mirrors s ids es \<longleftrightarrow> s \<le> length ids \<and> drop s ids = map eid es"

lemma identified_eid: "identified e \<Longrightarrow> se_metaId e = Some (eid e) \<and> eid e \<noteq> [] \<and> eventIdentity e = MetaId (eid e)"
  by (auto simp: identified_def eid_def eventIdentity_def truthy_def split: option.splits if_splits)

lemma enc_facts:
  assumes "faithful enc" and "identified e"
  shows "is_record (enc e)" and "event_id (enc e) = Some (eid e)" and "ident (enc e) = eid e"
proof -
  show "is_record (enc e)" using assms(1) by (simp add: faithful_def)
  show i: "event_id (enc e) = Some (eid e)"
    using assms(1) identified_eid [OF assms(2)] by (simp add: faithful_def truthy_def)
  then show "ident (enc e) = eid e" by (simp add: ident_def)
qed

lemma enc_list:
  assumes "faithful enc" and "list_all identified es"
  shows "filter is_record (map enc es) = map enc es" and "named (map enc es)" and "map ident (map enc es) = map eid es"
  using assms(2) by (induction es) (simp_all add: enc_facts [OF assms(1)])

lemma eids_identities:
  assumes "list_all identified xs" and "list_all identified ys" and "map eventIdentity xs = map eventIdentity ys"
  shows "map eid xs = map eid ys"
proof (rule nth_equalityI)
  have len: "length xs = length ys" using arg_cong [OF assms(3), of length] by simp
  then show "length (map eid xs) = length (map eid ys)" by simp
  fix i assume "i < length (map eid xs)"
  then have i: "i < length xs" "i < length ys" using len by simp_all
  have "eventIdentity (xs ! i) = eventIdentity (ys ! i)" using assms(3) i by (metis nth_map)
  moreover have "eventIdentity (xs ! i) = MetaId (eid (xs ! i))" "eventIdentity (ys ! i) = MetaId (eid (ys ! i))"
    using assms(1,2) i identified_eid by (simp_all add: list_all_length)
  ultimately show "map eid xs ! i = map eid ys ! i" using i by simp
qed

lemma fresh_dedupe:
  assumes "faithful enc" and "list_all identified es" and "\<And>e. e \<in> set es \<Longrightarrow> eid e \<in> set seen \<longleftrightarrow> MetaId (eid e) \<in> set ids"
  shows "map ident (fresh_events seen (map (\<lambda>e. (e, ident e)) (map enc es))) = map eid (dedupe_from ids es)"
  using assms(2,3)
proof (induction es arbitrary: seen ids)
  case (Cons e es)
  note f = enc_facts [OF assms(1)] identified_eid
  from Cons.prems(1) have e: "identified e" "list_all identified es" by simp_all
  have h: "eid e \<in> set seen \<longleftrightarrow> MetaId (eid e) \<in> set ids" using Cons.prems(2) by simp
  show ?case
  proof (cases "eid e \<in> set seen")
    case True
    then show ?thesis using Cons.IH [OF e(2), of seen ids] Cons.prems(2) h e by (simp add: f o_def)
  next
    case False
    then show ?thesis
      using Cons.IH [OF e(2), of "eid e # seen" "MetaId (eid e) # ids"] Cons.prems(2) h e by (auto simp: f o_def)
  qed
qed simp

lemma fresh_eids:
  assumes "faithful enc" and "list_all identified es" and "list_all identified prior"
    and "map er_id rs = older @ map eid prior" and "eid ` set es \<inter> set older = {}"
  shows "map ident (fresh_of rs (map enc es)) = map eid (dedupe_from (map eventIdentity prior) es)"
  unfolding fresh_of_def
proof (rule fresh_dedupe [OF assms(1,2)])
  fix e assume e: "e \<in> set es"
  have "set (map eventIdentity prior) = MetaId ` eid ` set prior"
    using assms(3) identified_eid by (force simp: list_all_iff image_iff)
  then have "MetaId (eid e) \<in> set (map eventIdentity prior) \<longleftrightarrow> eid e \<in> eid ` set prior" by auto
  moreover have "eid e \<in> set (map er_id rs) \<longleftrightarrow> eid e \<in> eid ` set prior" using assms(4,5) e by auto
  ultimately show "eid e \<in> set (map er_id rs) \<longleftrightarrow> MetaId (eid e) \<in> set (map eventIdentity prior)" by simp
qed

lemma dedupe_new:
  assumes "list_all identified (xs @ ys)" and "distinct (map eid (xs @ ys))"
  shows "dedupe_from (map eventIdentity xs) ys = ys"
proof (rule dedupe_distinct)
  have m: "map eventIdentity zs = map MetaId (map eid zs)" if "list_all identified zs" for zs
    using that identified_eid by (induction zs) simp_all
  have "inj_on MetaId (set (map eid (xs @ ys)))" by (simp add: inj_on_def)
  with assms(2) have "distinct (map MetaId (map eid (xs @ ys)))" by (simp only: distinct_map [of MetaId "map eid (xs @ ys)"] conj_commute)
  then have "distinct (map eventIdentity (xs @ ys))" by (simp only: m [OF assms(1)])
  then show "distinct (map eventIdentity ys)" "eventIdentity ` set ys \<inter> set (map eventIdentity xs) = {}" by auto
qed

lemma sent_simps [simp]:
  "ea_events (sent enc a) = map enc (ca_events a)" "ea_replaceFrom (sent enc a) = ca_replaceFrom a" "ea_threadId (sent enc a) = ca_threadId a"
  by (simp_all add: sent_def)

text \<open>What the log holds after an append the client has sent.\<close>

lemma appended_ids:
  assumes "faithful enc" and "log_ok (log_of db sc i)" and "list_all identified (ca_events a)" and "ca_threadId a = i"
    and "ca_replaceFrom a = None" and "appendThreadEvents clean sc (sent enc a) db = Inr db'"
  shows "map er_id (log_of db' sc i) = map er_id (log_of db sc i) @ map ident (fresh_of (log_of db sc i) (map enc (ca_events a)))"
  using append_log(2) [of db sc "sent enc a" clean db'] assms enc_list [OF assms(1,3)] by simp

lemma replaced_ids:
  assumes "faithful enc" and "log_ok (log_of db sc i)" and "list_all identified (ca_events a)" and "ca_threadId a = i"
    and "ca_replaceFrom a = Some (int k)" and "k \<le> length (log_of db sc i)" and "appendThreadEvents clean sc (sent enc a) db = Inr db'"
  shows "map er_id (log_of db' sc i) = map er_id (take k (log_of db sc i)) @ map ident (fresh_of (take k (log_of db sc i)) (map enc (ca_events a)))"
proof -
  let ?base = "delete_log sc i (int k) db"
  have n: "named (map enc (ca_events a))" "filter is_record (map enc (ca_events a)) = map enc (ca_events a)"
    using enc_list [OF assms(1,3)] by simp_all
  have b: "log_of ?base sc i = take k (log_of db sc i)"
    "appendThreadEvents clean sc (sent enc a) db = Inr (?base\<lparr>td_events := td_events ?base @ map (row_for clean sc i)
      (numbered (int k) (fresh_of (log_of ?base sc i) (map enc (ca_events a))))\<rparr>)"
    using append_replacing [where a = "sent enc a" and k = k and db = db and sc = sc] assms(2,4,5,6) n by simp_all
  have db': "db' = ?base\<lparr>td_events := td_events ?base @ map (row_for clean sc i) (numbered (int k) (fresh_of (log_of ?base sc i) (map enc (ca_events a))))\<rparr>"
    using assms(7) b(2) by simp
  have "log_ok (log_of ?base sc i)" "int (length (log_of ?base sc i)) = int k"
    using b(1) log_ok_take [OF assms(2)] assms(6) by simp_all
  from log_insert_fresh(3) [OF this(1) n(1), of clean] this(2)
  show ?thesis by (simp add: db' log_of_rows b(1))
qed

lemma saved_events:
  assumes "thread_named baseline (th_id t) = Some prior"
    and "map_of (rev (map (\<lambda>a. (ca_threadId a, a)) (cp_eventAppends p))) (th_id t) = Some a" and "ca_events a \<noteq> []"
  shows "th_events (saved_thread baseline p t) =
    (if edit_in_progress t \<or> ca_replaceFrom a \<noteq> None then th_events t
     else th_events prior @ dedupe_from (map eventIdentity (th_events prior)) (ca_events a))"
  using assms by (simp add: saved_thread_def)

lemma delta_next_ids:
  assumes "appendOnlyEventDelta previous next = Some (es, first)" and "list_all identified previous" and "list_all identified next"
  shows "map eid next = map eid (take first previous) @ map eid es"
proof -
  note d = delta_facts [OF assms(1)]
  have "map eid (take first next) = map eid (take first previous)"
    by (rule eids_identities [OF _ _ d(4)]) (use assms(2,3) in \<open>auto simp: list_all_iff dest: in_set_takeD\<close>)
  then have "map eid (take first next) @ map eid (drop first next) = map eid (take first previous) @ map eid es" by (simp add: d(2))
  then show ?thesis by (simp only: map_append [symmetric] append_take_drop_id)
qed

lemma saved_window: "window_start (saved_thread baseline p t) = window_start t"
  by (simp add: saved_thread_def window_start_def split: option.splits)

text \<open>C22 (saved_baseline_mirrors_the_log) Let the client's baseline of a thread be the server's log from the start of
  its window on, and let the thread that is saved still have a window with that start, events that all have an
  identity and none twice, and none that the log holds before the window.  Let the log have no hole and no repetition,
  and let events travel as JSON that keeps their identity.  Then once the server has accepted the
  append of a save, the baseline the client keeps is again the log from the start of its own window on, and that
  start has not moved: client and server agree on the identity of every event and on the index the next
  replacement counts from.  (A thread saved without its window would restart the count at zero.)\<close>

theorem saved_baseline_mirrors_the_log:
  assumes enc: "faithful enc" and ok: "log_ok (log_of db sc (th_id t))"
    and prior: "thread_named baseline (th_id t) = Some prior" and start: "window_start prior = int s"
    and mirror: "mirrors s (map er_id (log_of db sc (th_id t))) (th_events prior)"
    and window: "window_start t = int s"
    and changes: "thread_changes js_sort (Some prior) t = (Some a, u)"
    and ids: "list_all identified (th_events t @ ca_events a @ th_events prior)" and dist: "distinct (map eid (th_events t))"
    and newer: "eid ` set (th_events t @ ca_events a) \<inter> set (take s (map er_id (log_of db sc (th_id t)))) = {}"
    and p: "map_of (rev (map (\<lambda>a. (ca_threadId a, a)) (cp_eventAppends p))) (th_id t) = Some a"
    and stored: "appendThreadEvents clean sc (sent enc a) db = Inr db'"
  shows "mirrors s (map er_id (log_of db' sc (th_id t))) (th_events (saved_thread baseline p t)) \<and>
    window_start (saved_thread baseline p t) = int s"
proof (rule conjI [OF _ trans [OF saved_window window]])
  let ?rs = "log_of db sc (th_id t)"
  define older where "older = take s (map er_id ?rs)"
  from mirror have s: "s \<le> length ?rs" and tl: "drop s (map er_id ?rs) = map eid (th_events prior)" by (simp_all add: mirrors_def)
  have log: "map er_id ?rs = older @ map eid (th_events prior)" unfolding older_def tl [symmetric] by simp
  have len: "length older = s" using s by (simp add: older_def)
  from changes have a: "ca_threadId a = th_id t" "ca_events a \<noteq> []"
    by (auto simp: thread_changes_def Let_def split: option.splits if_splits prod.splits)
  from ids have idl: "list_all identified (th_events t)" "list_all identified (ca_events a)" "list_all identified (th_events prior)" by simp_all
  note ev = saved_events [OF prior p a(2)]
  have none: "map eid (dedupe_from (map eventIdentity (th_events prior)) (ca_events a)) = map ident (fresh_of ?rs (map enc (ca_events a)))"
    by (rule fresh_eids [OF enc idl(2,3) log, symmetric]) (use newer in \<open>auto simp: older_def\<close>)
  show "mirrors s (map er_id (log_of db' sc (th_id t))) (th_events (saved_thread baseline p t))"
  proof (cases "appendOnlyEventDelta (th_events prior) (th_events t)")
    case None
    with changes have n: "ca_replaceFrom a = None" "\<not> edit_in_progress t"
      by (auto simp: thread_changes_def Let_def split: if_splits)
    have "map er_id (log_of db' sc (th_id t)) = older @ map eid (th_events (saved_thread baseline p t))"
      unfolding appended_ids [OF enc ok idl(2) a(1) n(1) stored] ev log by (simp add: n none)
    then show ?thesis by (simp add: mirrors_def len)
  next
    case (Some d)
    obtain es first where d: "d = (es, first)" by (cases d)
    note delta = Some [unfolded d]
    note f = delta_facts [OF delta]
    from changes have es: "ca_events a = es"
      and r: "ca_replaceFrom a = (if first = length (th_events prior) then None else Some (int (s + first)))"
      by (auto simp: thread_changes_def delta start split: if_splits)
    note nxt = delta_next_ids [OF delta idl(3,1)]
    show ?thesis
    proof (cases "first = length (th_events prior)")
      case True
      have n: "ca_replaceFrom a = None" using r True by simp
      have nx: "map eid (th_events prior @ es) = map eid (th_events t)" using nxt True by simp
      have "dedupe_from (map eventIdentity (th_events prior)) es = es"
        by (rule dedupe_new) (use nx dist idl es in \<open>simp_all\<close>)
      then have "map eid (th_events (saved_thread baseline p t)) = map eid (th_events prior) @ map ident (fresh_of ?rs (map enc (ca_events a)))"
        unfolding ev none [symmetric] using n es nx by simp
      then have "map er_id (log_of db' sc (th_id t)) = older @ map eid (th_events (saved_thread baseline p t))"
        unfolding appended_ids [OF enc ok idl(2) a(1) n stored] log by simp
      then show ?thesis by (simp add: mirrors_def len)
    next
      case False
      have n: "ca_replaceFrom a = Some (int (s + first))" using r False by simp
      have k: "s + first \<le> length ?rs" using f(1) arg_cong [OF log, of length] len by simp
      have t: "map er_id (take (s + first) ?rs) = older @ map eid (take first (th_events prior))"
        unfolding take_map [symmetric] log by (simp add: len take_map)
      have "map ident (fresh_of (take (s + first) ?rs) (map enc (ca_events a))) =
          map eid (dedupe_from (map eventIdentity (take first (th_events prior))) (ca_events a))"
        by (rule fresh_eids [OF enc idl(2) _ t]) (use idl(3) newer in \<open>auto simp: older_def list_all_iff dest: in_set_takeD\<close>)
      also have "dedupe_from (map eventIdentity (take first (th_events prior))) (ca_events a) = ca_events a"
        by (rule dedupe_new)
          (use nxt dist idl es in \<open>auto simp: list_all_iff simp del: distinct_append dest: in_set_takeD\<close>)
      finally have "map er_id (log_of db' sc (th_id t)) = older @ map eid (th_events t)"
        unfolding replaced_ids [OF enc ok idl(2) a(1) n k stored] t nxt es by simp
      moreover have "th_events (saved_thread baseline p t) = th_events t" unfolding ev using n by simp
      ultimately show ?thesis by (simp add: mirrors_def len)
    qed
  qed
qed

subsection \<open>What a save means\<close>

text \<open>The state of a thread other than its transcript, its creation and its coverage.\<close>

definition same_state :: "thread \<Rightarrow> thread \<Rightarrow> bool" where
  "same_state r t \<longleftrightarrow> th_id r = th_id t \<and> th_closedInputRequestIds r = th_closedInputRequestIds t \<and> th_submissions r = th_submissions t \<and>
     th_preferences r = th_preferences t \<and> th_queuedTurns r = th_queuedTurns t \<and> th_revision r = th_revision t \<and>
     th_sessionId r = th_sessionId t \<and> th_streamIndex r = th_streamIndex t \<and> th_status r = th_status t \<and> th_title r = th_title t \<and>
     th_updatedAt r = th_updatedAt t \<and> th_draftRestore r = th_draftRestore t \<and> th_interruptedTurns r = th_interruptedTurns t \<and>
     th_pendingTurn r = th_pendingTurn t \<and> th_retainedContext r = th_retainedContext t"

lemma upsert_kinds:
  "th_id (snd (thread_changes js_sort prior t)) = th_id t"
  "same_state (snd (thread_changes js_sort prior t)) t"
  by (auto simp: thread_changes_def metadata_only_def withoutTranscriptWindow_def same_state_def Let_def split: option.splits)

lemma merged_state: "th_id cur = th_id r \<Longrightarrow> same_state (mergeSummary cur r) r"
  by (simp add: mergeSummary_def same_state_def)

lemma same_state_trans: "same_state a b \<Longrightarrow> same_state b c \<Longrightarrow> same_state a c"
  by (simp add: same_state_def)

lemma same_state_id: "same_state a b \<Longrightarrow> th_id a = th_id b"
  by (simp add: same_state_def)

lemma map_of_keyed:
  assumes "distinct (map key xs)" and "x \<in> set xs"
  shows "map_of (rev (map (\<lambda>x. (key x, x)) xs)) (key x) = Some x"
proof -
  have "distinct (map fst (rev (map (\<lambda>x. (key x, x)) xs)))" using assms(1) by (simp add: rev_map [symmetric] o_def)
  moreover have "(key x, x) \<in> set (rev (map (\<lambda>x. (key x, x)) xs))" using assms(2) by simp
  ultimately show ?thesis by (rule map_of_is_SomeI)
qed

lemma map_of_keyed_None: "k \<notin> key ` set xs \<Longrightarrow> map_of (rev (map (\<lambda>x. (key x, x)) xs)) k = None"
  by (auto simp: map_of_eq_None_iff image_image)

lemma patched_state:
  assumes "map_of (rev (map (\<lambda>r. (th_id r, r)) (cp_upsertThreads p))) (th_id cur) = Some u" and "th_id u = th_id cur"
  shows "same_state (patched_thread p cur) u"
proof -
  have "same_state (if th_summary u then mergeSummary cur u else u) u"
    using assms(2) merged_state [of cur u] by (simp add: same_state_def)
  then show ?thesis
    by (auto simp: patched_thread_def assms(1) Let_def same_state_def split: option.splits)
qed

lemma patched_id: "th_id (patched_thread p t) = th_id t"
proof (cases "map_of (rev (map (\<lambda>r. (th_id r, r)) (cp_upsertThreads p))) (th_id t)")
  case None
  then show ?thesis by (auto simp: patched_thread_def Let_def split: option.splits)
next
  case (Some u)
  then have "th_id u = th_id t" by (auto dest!: map_of_SomeD)
  from same_state_id [OF patched_state [OF Some this]] this show ?thesis by simp
qed

text \<open>
  What becomes of the fields a save does not simply copy.  A thread that is new to the server is stored as it is.
  Of one the server has, the creation time stays and the coverage marker is the merge of both, unless an edit
  replaces the whole thread.
\<close>

definition kept_marks :: "thread option \<Rightarrow> thread \<Rightarrow> thread \<Rightarrow> bool" where
  "kept_marks known r t \<longleftrightarrow> (case known of
     None \<Rightarrow> r = withoutTranscriptWindow t
   | Some b \<Rightarrow> th_createdAt r = th_createdAt b \<and> th_coverage r = merged_coverage b t \<or>
       edit_in_progress t \<and> th_createdAt r = th_createdAt t \<and> th_coverage r = th_coverage t)"

lemma change_shape:
  "snd (thread_changes js_sort (Some b) t) = metadata_only t \<or> snd (thread_changes js_sort (Some b) t) = withoutTranscriptWindow t \<and> edit_in_progress t"
  by (auto simp: thread_changes_def Let_def split: option.splits)

lemma patched_marks:
  assumes "map_of (rev (map (\<lambda>r. (th_id r, r)) (cp_upsertThreads p))) (th_id b) = Some u"
  shows "th_createdAt (patched_thread p b) = (if th_summary u then th_createdAt b else th_createdAt u)"
    and "th_coverage (patched_thread p b) = (if th_summary u then merged_coverage b u else th_coverage u)"
  by (auto simp: patched_thread_def assms Let_def mergeSummary_def split: option.splits)

lemma sent_coverage:
  "merged_coverage b (metadata_only t) = merged_coverage b t" "merged_coverage b (withoutTranscriptWindow t) = merged_coverage b t"
  by (simp_all add: merged_coverage_def edit_in_progress_def metadata_only_def withoutTranscriptWindow_def)

lemma marks_of_change:
  assumes "u = metadata_only t \<or> u = withoutTranscriptWindow t \<and> edit_in_progress t"
    and "map_of (rev (map (\<lambda>r. (th_id r, r)) (cp_upsertThreads p))) (th_id b) = Some u"
  shows "kept_marks (Some b) (patched_thread p b) t"
proof (cases "th_summary u")
  case True
  have "merged_coverage b u = merged_coverage b t" using assms(1) by (elim disjE conjE) (simp_all add: sent_coverage)
  with True patched_marks [OF assms(2)] show ?thesis by (simp add: kept_marks_def)
next
  case False
  then have "u = withoutTranscriptWindow t" "edit_in_progress t" using assms(1) by (auto simp: metadata_only_def withoutTranscriptWindow_def)
  with False patched_marks [OF assms(2)] show ?thesis by (simp add: kept_marks_def withoutTranscriptWindow_def)
qed

text \<open>C23 (a_save_means_the_collection) Let the server hold what the client's baseline describes, no identity repeat in
  either collection, and a thread the baseline does not have not be a bare index entry.  Then the patch of a save
  yields exactly the threads of the client's collection: nothing the client deleted stays and nothing it created is
  missing.  Each has the client's title, status, session and cursor, revision, preferences, queued, pending and
  stopped turns, answers, closed requests, draft, kept context and update time.  A new thread is stored whole, but for its window.  Of
  a thread the server had, the creation time stays and the coverage marker is the server's merge of both markers
  (which does not give up an authoritative one but for an edit), unless an edit replaces the thread.  What becomes of
  its transcript is the subject of saved_baseline_mirrors_the_log.\<close>

theorem a_save_means_the_collection:
  fixes js_sort base c
  assumes "distinct (map th_id (co_threads c))" and "distinct (map th_id (co_threads base))"
    and "\<And>t. \<lbrakk>t \<in> set (co_threads c); th_id t \<notin> th_id ` set (co_threads base)\<rbrakk> \<Longrightarrow> \<not> th_summary t"
  defines "server \<equiv> applyThreadCollectionPatch base (createCollectionPatch js_sort base c)"
  shows "th_id ` set (co_threads server) = th_id ` set (co_threads c) \<and>
    list_all (\<lambda>t. list_ex (\<lambda>r. same_state r t \<and> kept_marks (thread_named base (th_id t)) r t) (co_threads server)) (co_threads c)"
proof -
  let ?p = "createCollectionPatch js_sort base c"
  let ?change = "\<lambda>t. snd (thread_changes js_sort (thread_named base (th_id t)) t)"
  have ups: "cp_upsertThreads ?p = map ?change (co_threads c)" by (simp add: createCollectionPatch_def Let_def)
  have del: "i \<in> set (cp_deletedThreadIds ?p) \<longleftrightarrow> i \<in> th_id ` set (co_threads base) \<and> i \<notin> th_id ` set (co_threads c)" for i
    by (auto simp: createCollectionPatch_def Let_def)
  have "map th_id (cp_upsertThreads ?p) = map th_id (co_threads c)" by (simp add: ups upsert_kinds)
  with assms(1) have dist: "distinct (map th_id (cp_upsertThreads ?p))" by simp
  have up: "map_of (rev (map (\<lambda>r. (th_id r, r)) (cp_upsertThreads ?p))) (th_id t) = Some (?change t)" if "t \<in> set (co_threads c)" for t
    using map_of_keyed [OF dist, of "?change t"] that upsert_kinds(1) by (simp add: ups)
  define kept where "kept = map (patched_thread ?p) (filter (\<lambda>t. th_id t \<notin> set (cp_deletedThreadIds ?p)) (co_threads base))"
  define added where "added = filter (\<lambda>t. \<not> th_summary t \<and> th_id t \<notin> th_id ` set kept) (cp_upsertThreads ?p)"
  have server: "co_threads server = added @ kept"
    by (simp add: server_def applyThreadCollectionPatch_def Let_def kept_def added_def)
  have kept_ids: "th_id ` set kept = th_id ` set (co_threads base) \<inter> th_id ` set (co_threads c)"
  proof -
    have "th_id ` set kept = {i \<in> th_id ` set (co_threads base). i \<notin> set (cp_deletedThreadIds ?p)}"
      by (auto simp: kept_def image_image patched_id)
    then show ?thesis by (auto simp: del)
  qed
  have each: "\<exists>r \<in> set (co_threads server). same_state r t \<and> kept_marks (thread_named base (th_id t)) r t"
    if t: "t \<in> set (co_threads c)" for t
  proof (cases "th_id t \<in> th_id ` set (co_threads base)")
    case True
    then obtain cur where cur: "cur \<in> set (co_threads base)" "th_id cur = th_id t" by auto
    have "th_id cur \<notin> set (cp_deletedThreadIds ?p)" using cur t by (auto simp: del)
    with cur have "patched_thread ?p cur \<in> set kept" by (simp add: kept_def)
    moreover have "same_state (patched_thread ?p cur) (?change t)"
      by (rule patched_state) (use up [OF t] cur(2) upsert_kinds(1) in simp_all)
    then have "same_state (patched_thread ?p cur) t" by (rule same_state_trans) (rule upsert_kinds(2))
    moreover have known: "thread_named base (th_id t) = Some cur"
      using map_of_keyed [OF assms(2) cur(1)] by (simp add: thread_named_def cur(2))
    moreover have "kept_marks (Some cur) (patched_thread ?p cur) t"
      by (rule marks_of_change [OF change_shape]) (use up [OF t] known cur(2) in simp)
    ultimately show ?thesis unfolding server by auto
  next
    case False
    then have n: "thread_named base (th_id t) = None" unfolding thread_named_def by (rule map_of_keyed_None)
    have w: "?change t = withoutTranscriptWindow t" by (simp add: thread_changes_def n)
    have "\<not> th_summary t" by (rule assms(3) [OF t False])
    moreover have "?change t \<in> set (cp_upsertThreads ?p)" unfolding ups using t by (simp add: image_eqI)
    moreover have "th_summary (?change t) = th_summary t" by (simp add: w withoutTranscriptWindow_def)
    ultimately have "?change t \<in> set added" using False kept_ids unfolding added_def by (simp add: upsert_kinds)
    moreover have "kept_marks (thread_named base (th_id t)) (?change t) t" unfolding w unfolding n by (simp add: kept_marks_def)
    ultimately show ?thesis using upsert_kinds(2) server by auto
  qed
  have "th_id ` set (co_threads server) \<subseteq> th_id ` set (co_threads c)"
    using kept_ids upsert_kinds(1) by (auto simp: server added_def ups)
  moreover have "th_id ` set (co_threads c) \<subseteq> th_id ` set (co_threads server)"
  proof
    fix i assume "i \<in> th_id ` set (co_threads c)"
    then obtain t where t: "t \<in> set (co_threads c)" "i = th_id t" by blast
    from each [OF t(1)] obtain r where "r \<in> set (co_threads server)" "same_state r t" by blast
    with t(2) show "i \<in> th_id ` set (co_threads server)" using same_state_id [of r t] by (metis imageI)
  qed
  ultimately show ?thesis using each by (auto simp: list_all_iff list_ex_iff)
qed

text \<open>Remark (an_index_save_erases_state) A client that has read only the index of a collection and saves it back
  unchanged, as it does with every checkpoint of any thread, erases the closed requests, the draft to
  restore, the interrupted turns and the retained context of every thread of the collection.\<close>

theorem an_index_save_erases_state:
  assumes "distinct (map th_id (co_threads c))"
  defines "index \<equiv> summarizeThreadCollection c None"
  shows "list_all (\<lambda>t. th_closedInputRequestIds t = [] \<and> th_draftRestore t = None \<and> th_interruptedTurns t = [] \<and> th_retainedContext t = [])
    (co_threads (applyThreadCollectionPatch c (createCollectionPatch js_sort index index)))"
proof -
  let ?p = "createCollectionPatch js_sort index index"
  have ix: "co_threads index = map summary_of (co_threads c)" by (simp add: index_def summarizeThreadCollection_def)
  have sid: "th_id (summary_of t) = th_id t" for t by (simp add: summary_of_def)
  have ups: "cp_upsertThreads ?p = map (\<lambda>t. snd (thread_changes js_sort (thread_named index (th_id t)) t)) (co_threads index)"
    by (simp add: createCollectionPatch_def Let_def)
  define ok where "ok t \<longleftrightarrow> th_closedInputRequestIds t = [] \<and> th_draftRestore t = None \<and> th_interruptedTurns t = [] \<and> th_retainedContext t = []" for t :: thread
  have st: "ok a" if "same_state a b" "ok b" for a b using that by (simp add: ok_def same_state_def)
  have sum: "ok u" if u: "u \<in> set (cp_upsertThreads ?p)" for u
  proof -
    from u ups ix obtain t where "u = snd (thread_changes js_sort (thread_named index (th_id (summary_of t))) (summary_of t))" by auto
    then have "same_state u (summary_of t)" using upsert_kinds(2) by simp
    then show ?thesis by (rule st) (simp add: ok_def summary_of_def)
  qed
  have ids: "map th_id (cp_upsertThreads ?p) = map th_id (co_threads c)" by (simp add: ups ix upsert_kinds sid)
  have "ok (patched_thread ?p t)" if t: "t \<in> set (co_threads c)" for t
  proof -
    have "th_id t \<in> set (map th_id (cp_upsertThreads ?p))" using t ids by simp
    then obtain u where u: "u \<in> set (cp_upsertThreads ?p)" "th_id u = th_id t" by auto
    have "distinct (map th_id (cp_upsertThreads ?p))" using assms(1) ids by simp
    from map_of_keyed [OF this u(1)] u(2) have "map_of (rev (map (\<lambda>r. (th_id r, r)) (cp_upsertThreads ?p))) (th_id t) = Some u" by simp
    from patched_state [OF this u(2)] sum [OF u(1)] show ?thesis by (rule st)
  qed
  then have "list_all ok (co_threads (applyThreadCollectionPatch c ?p))"
    using sum by (auto simp: applyThreadCollectionPatch_def Let_def list_all_iff)
  then show ?thesis by (simp add: ok_def [abs_def])
qed

subsection \<open>Conflict recovery\<close>

text \<open>The next collection to try: the one just refused, merged with what was loaded then.\<close>

definition merged_next ::
  "candidate_sort \<Rightarrow> (collection \<Rightarrow> 'w \<Rightarrow> collection option \<times> 'w) \<Rightarrow> collection \<Rightarrow> collection \<Rightarrow> bool" where
  "merged_next js_sort load_op x y \<longleftrightarrow> (\<exists>remote v v'. load_op x v = (Some remote, v') \<and> y = mergeThreadCollectionsForConflict js_sort x remote)"

definition saved_last :: "(collection \<Rightarrow> 'w \<Rightarrow> save_outcome \<times> 'w) \<Rightarrow> collection list \<Rightarrow> collection option \<Rightarrow> 'w \<Rightarrow> bool" where
  "saved_last save_op tried r w' \<longleftrightarrow> (case r of
     Some x \<Rightarrow> x = last tried \<and> (\<exists>v. save_op x v = (SaveOk, w'))
   | None \<Rightarrow> \<exists>v. fst (save_op (last tried) v) \<noteq> SaveOk)"

lemma recovery_keeps_threads:
  assumes "\<And>c w r w'. load_op c w = (Some r, w') \<Longrightarrow> distinct (map th_id (co_threads r))"
  shows "\<lbrakk>distinct (map th_id (co_threads c)); save_with_recovery js_sort save_op load_op left c w = (tried, r, w')\<rbrakk> \<Longrightarrow>
    tried \<noteq> [] \<and> hd tried = c \<and> length tried \<le> Suc left \<and> saved_last save_op tried r w' \<and> successively (merged_next js_sort load_op) tried \<and>
    list_all (\<lambda>x. th_id ` set (co_threads c) \<subseteq> th_id ` set (co_threads x) \<and> distinct (map th_id (co_threads x))) tried"
proof (induction left arbitrary: c w tried r w')
  case 0
  obtain out w1 where s: "save_op c w = (out, w1)" by fastforce
  have "fst (save_op c w) = out" by (simp add: s)
  with 0 s show ?case by (cases out) (auto simp: saved_last_def intro!: exI [of _ w])
next
  case (Suc left)
  show ?case
  proof (cases "\<exists>w1 remote w2. save_op c w = (SaveConflict, w1) \<and> load_op c w1 = (Some remote, w2)")
    case False
    obtain out w1 where s: "save_op c w = (out, w1)" by fastforce
    have o': "fst (save_op c w) = out" by (simp add: s)
    show ?thesis
    proof (cases out)
      case SaveOk
      with Suc.prems s show ?thesis by (auto simp: saved_last_def)
    next
      case SaveConflict
      obtain x w2 where "load_op c w1 = (x, w2)" by fastforce
      with False s SaveConflict have l: "load_op c w1 = (None, w2)" by (cases x) auto
      show ?thesis using Suc.prems s SaveConflict l o' by (auto simp: saved_last_def intro!: exI [of _ w])
    next
      case SaveFailed
      with Suc.prems s o' show ?thesis by (auto simp: saved_last_def intro!: exI [of _ w])
    qed
  next
    case True
    then obtain w1 remote w2 where c: "save_op c w = (SaveConflict, w1)" "load_op c w1 = (Some remote, w2)" by blast
    let ?m = "mergeThreadCollectionsForConflict js_sort c remote"
    from Suc.prems(2) c obtain rest where rest: "save_with_recovery js_sort save_op load_op left ?m w2 = (rest, r, w')" "tried = c # rest"
      by (auto split: prod.splits)
    note f = merged_threads_facts(1,2) [OF Suc.prems(1) assms [OF c(2)], of js_sort, unfolded merged_threads_def]
    note ih = Suc.IH [OF f(1) rest(1)]
    have "merged_next js_sort load_op c ?m" using c(2) unfolding merged_next_def by blast
    then have "successively (merged_next js_sort load_op) tried" using ih by (cases rest) (auto simp: rest(2))
    moreover have "saved_last save_op tried r w'" using ih by (auto simp: rest(2) saved_last_def split: option.splits)
    ultimately show ?thesis using ih f(2) Suc.prems(1) by (auto simp: rest(2) list_all_iff)
  qed
qed

text \<open>C40 (recovery_keeps_every_thread) Suppose neither the client's collection nor any that is loaded repeats a
  thread identity.  Saving with recovery sends the collection at most three times, first as it is, then each time the
  one just refused merged with what was loaded after the refusal; every one of them has each thread of the client's
  collection, once.  It returns a collection only if the storage accepted that very collection, in the last call it
  made, and it throws only if the last collection sent was not accepted.\<close>

theorem recovery_keeps_every_thread:
  assumes "\<And>c w r w'. load_op c w = (Some r, w') \<Longrightarrow> distinct (map th_id (co_threads r))"
    and "distinct (map th_id (co_threads c))"
    and "saveThreadCollectionWithConflictRecovery js_sort save_op load_op c w = (tried, r, w')"
  shows "tried \<noteq> [] \<and> hd tried = c \<and> length tried \<le> 3 \<and> saved_last save_op tried r w' \<and> successively (merged_next js_sort load_op) tried \<and>
    list_all (\<lambda>x. th_id ` set (co_threads c) \<subseteq> th_id ` set (co_threads x) \<and> distinct (map th_id (co_threads x))) tried"
  using recovery_keeps_threads [where load_op = load_op and left = 2, OF assms(1) assms(2) assms(3) [unfolded saveThreadCollectionWithConflictRecovery_def]]
  by simp

theorem recovery_keeps_every_thread_witness:
  "saved_last (\<lambda>c w. (if w = (0::nat) then SaveConflict else SaveOk, Suc w))
      (fst (saveThreadCollectionWithConflictRecovery sort_by (\<lambda>c w. (if w = 0 then SaveConflict else SaveOk, Suc w)) (\<lambda>c w. (Some demo_remote, w)) demo_local 0))
      (fst (snd (saveThreadCollectionWithConflictRecovery sort_by (\<lambda>c w. (if w = 0 then SaveConflict else SaveOk, Suc w)) (\<lambda>c w. (Some demo_remote, w)) demo_local 0))) 2 \<and>
    length (fst (saveThreadCollectionWithConflictRecovery sort_by (\<lambda>c w. (if w = 0 then SaveConflict else SaveOk, Suc w))
      (\<lambda>c w. (Some demo_remote, w)) demo_local 0)) = 2"
proof
  let ?f = "saveThreadCollectionWithConflictRecovery sort_by (\<lambda>c w. (if w = 0 then SaveConflict else SaveOk, Suc w)) (\<lambda>c w. (Some demo_remote, w)) demo_local 0"
  have d: "distinct (map th_id (co_threads demo_remote))" "distinct (map th_id (co_threads demo_local))"
    by (simp_all add: demo_remote_def demo_local_def demo_thread_def createAgentThread_def)
  show "length (fst ?f) = 2" by (simp add: saveThreadCollectionWithConflictRecovery_def numeral_2_eq_2)
  obtain t r v where f: "?f = (t, r, v)" by (cases ?f)
  have "snd (snd ?f) = 2" by (simp add: saveThreadCollectionWithConflictRecovery_def numeral_2_eq_2)
  with f have v: "v = 2" by simp
  have "t \<noteq> [] \<and> hd t = demo_local \<and> length t \<le> 3 \<and> saved_last (\<lambda>c w. (if w = 0 then SaveConflict else SaveOk, Suc w)) t r v \<and>
    successively (merged_next sort_by (\<lambda>c w. (Some demo_remote, w :: nat))) t \<and>
    list_all (\<lambda>x. th_id ` set (co_threads demo_local) \<subseteq> th_id ` set (co_threads x) \<and> distinct (map th_id (co_threads x))) t"
    by (rule recovery_keeps_every_thread [OF _ d(2) f]) (use d(1) in simp)
  then show "saved_last (\<lambda>c w. (if w = (0::nat) then SaveConflict else SaveOk, Suc w)) (fst ?f) (fst (snd ?f)) 2" by (simp add: f v)
qed

subsection \<open>Examples\<close>

definition ex_stream :: "string \<Rightarrow> thread_event" where
  "ex_stream i = stream_event.extend ((bare_event MessageReceived)\<lparr>se_metaId := Some i\<rparr>) \<lparr>te_cursor = None\<rparr>"

definition ex_enc :: "thread_event \<Rightarrow> json" where
  "ex_enc e = JObj [(''meta'', JObj (case se_metaId e of Some i \<Rightarrow> [(''id'', JStr i)] | None \<Rightarrow> []))]"

definition ex_thread :: "int \<Rightarrow> string list \<Rightarrow> thread" where
  "ex_thread start ids = (createAgentThread ''a'' 0 ''A'' \<lparr>tp_executionMode = ModeStandard, tp_modelId = ''m'', tp_reasoning = ''medium''\<rparr>)
     \<lparr>th_events := map ex_stream ids, th_window := Some \<lparr>tw_endIndex = 3, tw_hasMoreBefore = (start > 0), tw_startIndex = start, tw_total = 3\<rparr>\<rparr>"

definition ex_baseline :: "int \<Rightarrow> string list \<Rightarrow> collection" where
  "ex_baseline start ids = \<lparr>co_activeThreadId = Some ''a'', co_threads = [ex_thread start ids]\<rparr>"

definition ex_sort :: candidate_sort where
  "ex_sort cmp xs = xs"

lemma ex_enc_faithful: "faithful ex_enc"
  by (auto simp: faithful_def ex_enc_def is_record_def event_id_def jget_def as_record_def jstring_def truthy_def split: option.splits)

theorem saved_baseline_mirrors_the_log_witness:
  "mirrors 1 (map er_id (log_of (case appendThreadEvents id ex_scope (sent ex_enc
        \<lparr>ca_events = [ex_stream ''w''], ca_replaceFrom = Some 2, ca_threadId = ''a''\<rparr>) ex_db of Inr d \<Rightarrow> d | Inl _ \<Rightarrow> ex_db) ex_scope ''a''))
     (th_events (saved_thread (ex_baseline 1 [''y'', ''z'']) (createCollectionPatch ex_sort (ex_baseline 1 [''y'', ''z'']) (ex_baseline 1 [''y'', ''w'']))
        (ex_thread 1 [''y'', ''w'']))) \<and>
   window_start (saved_thread (ex_baseline 1 [''y'', ''z'']) (createCollectionPatch ex_sort (ex_baseline 1 [''y'', ''z'']) (ex_baseline 1 [''y'', ''w'']))
        (ex_thread 1 [''y'', ''w''])) = 1"
proof -
  let ?a = "\<lparr>ca_events = [ex_stream ''w''], ca_replaceFrom = Some 2, ca_threadId = ''a''\<rparr>"
  let ?t = "ex_thread 1 [''y'', ''w'']" and ?b = "ex_baseline 1 [''y'', ''z'']"
  have i: "th_id ?t = ''a''" by (simp add: ex_thread_def createAgentThread_def)
  have ids: "map er_id (log_of ex_db ex_scope ''a'') = [''x'', ''y'', ''z'']" by code_simp
  have ok: "log_ok (log_of ex_db ex_scope ''a'')" by code_simp
  have prior: "thread_named ?b ''a'' = Some (ex_thread 1 [''y'', ''z''])"
    by (simp add: thread_named_def ex_baseline_def ex_thread_def createAgentThread_def)
  have start: "window_start (ex_thread 1 [''y'', ''z'']) = int 1" by (simp add: window_start_def ex_thread_def)
  have window: "window_start ?t = int 1" by (simp add: window_start_def ex_thread_def)
  have ev: "th_events (ex_thread n js) = map ex_stream js" for n js by (simp add: ex_thread_def)
  have eid: "eid (ex_stream j) = j" "identified (ex_stream j) \<longleftrightarrow> j \<noteq> []" for j
    by (simp_all add: eid_def identified_def truthy_def ex_stream_def stream_event.defs bare_event_def)
  have mirror: "mirrors 1 (map er_id (log_of ex_db ex_scope ''a'')) (th_events (ex_thread 1 [''y'', ''z'']))"
    by (simp add: mirrors_def ids ev eid)
  obtain u where changes: "thread_changes ex_sort (Some (ex_thread 1 [''y'', ''z''])) ?t = (Some ?a, u)"
    by (simp add: thread_changes_def appendOnlyEventDelta_def first_difference_def ev start i eventIdentity_def ex_stream_def
        stream_event.defs bare_event_def)
  have idl: "list_all identified (th_events ?t @ ca_events ?a @ th_events (ex_thread 1 [''y'', ''z'']))" by (simp add: ev eid)
  have dist: "distinct (map eid (th_events ?t))" by (simp add: ev eid)
  have newer: "eid ` set (th_events ?t @ ca_events ?a) \<inter> set (take 1 (map er_id (log_of ex_db ex_scope ''a''))) = {}"
    by (simp add: ids ev eid)
  let ?p = "createCollectionPatch ex_sort ?b (ex_baseline 1 [''y'', ''w''])"
  have p: "map_of (rev (map (\<lambda>a. (ca_threadId a, a)) (cp_eventAppends ?p))) ''a'' = Some ?a"
    using changes prior i by (simp add: createCollectionPatch_def ex_baseline_def Let_def List.map_filter_simps)
  have st: "appendThreadEvents id ex_scope (sent ex_enc ?a) ex_db = Inr (case appendThreadEvents id ex_scope (sent ex_enc ?a) ex_db of Inr d \<Rightarrow> d | Inl _ \<Rightarrow> ex_db)"
    by (simp add: appendThreadEvents_def sent_def Let_def)
  from saved_baseline_mirrors_the_log [of ex_enc ex_db ex_scope ?t ?b, unfolded i,
      OF ex_enc_faithful ok prior start mirror window changes idl dist newer p st] show ?thesis unfolding int_ops(2) .
qed

theorem a_save_means_the_collection_witness:
  "th_id ` set (co_threads (applyThreadCollectionPatch (ex_baseline 0 [''x'']) (createCollectionPatch ex_sort (ex_baseline 0 [''x'']) (ex_baseline 0 [''x'', ''y''])))) = {''a''}"
  using a_save_means_the_collection [of "ex_baseline 0 [''x'', ''y'']" "ex_baseline 0 [''x'']" ex_sort]
  by (simp add: ex_baseline_def ex_thread_def createAgentThread_def)

theorem an_index_save_erases_state_witness:
  "list_all (\<lambda>t. th_interruptedTurns t = []) (co_threads (applyThreadCollectionPatch
     (empty_collection\<lparr>co_threads := [(ex_thread 0 [])\<lparr>th_interruptedTurns := [\<lparr>it_eventCount = 0, it_settled = None, it_streamIndex = 0, it_turnId = ''t''\<rparr>]\<rparr>]\<rparr>)
     (let index = summarizeThreadCollection (empty_collection\<lparr>co_threads := [(ex_thread 0 [])\<lparr>th_interruptedTurns :=
        [\<lparr>it_eventCount = 0, it_settled = None, it_streamIndex = 0, it_turnId = ''t''\<rparr>]\<rparr>]\<rparr>) None
      in createCollectionPatch ex_sort index index)))"
  using an_index_save_erases_state [of "empty_collection\<lparr>co_threads := [(ex_thread 0 [])\<lparr>th_interruptedTurns :=
      [\<lparr>it_eventCount = 0, it_settled = None, it_streamIndex = 0, it_turnId = ''t''\<rparr>]\<rparr>]\<rparr>" ex_sort]
  by (simp add: Let_def list_all_iff)

text \<open>Remark (a_reloaded_window_shifts_the_baseline) When the last window of a thread is loaded again, its
  baseline keeps the older events it had but takes the start of the window: it no longer mirrors the log,
  and the next snapshot that replaces an event is sent with an index past the end of the log.\<close>

theorem a_reloaded_window_shifts_the_baseline:
  "let baseline = ex_baseline 0 [''x'', ''y'', ''z'']; window = \<lparr>tw_endIndex = 3, tw_hasMoreBefore = True, tw_startIndex = 2, tw_total = 3\<rparr>;
       reloaded = baselineAfterWindow ex_sort (Some baseline) (ex_thread 2 [''z'']) window
   in map (\<lambda>t. (window_start t, map eid (th_events t))) (co_threads reloaded) = [(2, [''x'', ''y'', ''z''])] \<and>
      map ca_replaceFrom (cp_eventAppends (createCollectionPatch ex_sort reloaded (ex_baseline 2 [''x'', ''y'', ''w'']))) = [Some 4]"
  by code_simp

end
