(* ===== verification/Approval_Store.thy ===== *)
theory Approval_Store
  imports Json Js_Arrays
begin

section \<open>Approvals of tool calls (server/agent-sessions/approval.ts)\<close>

text \<open>
  A tool call that needs an approval is a request in a store; events of the session's stream create requests
  and resolve them.  The store is an interface with two providers: a map in memory and a table.  Its
  operations are actions on the provider's state.  The clock, the order of two times and the conversion of
  a time by the database (which refuses a malformed one) are parameters.
\<close>

datatype approval_status = Requested | Approved | RejectedApproval | Expired | CancelledApproval
datatype selection = Approve | Reject

record approval =
  ap_requestId :: string
  ap_sessionId :: string
  ap_turnId :: "string option"
  ap_toolCallId :: string
  ap_toolName :: string
  ap_input :: json
  ap_status :: approval_status
  ap_selection :: "selection option"
  ap_createdAt :: string
  ap_resolvedAt :: "string option"

definition sameRequest :: "approval \<Rightarrow> approval \<Rightarrow> bool" where
  "sameRequest l r \<longleftrightarrow> ap_requestId l = ap_requestId r \<and> ap_sessionId l = ap_sessionId r \<and> ap_turnId l = ap_turnId r \<and>
     ap_toolCallId l = ap_toolCallId r \<and> ap_toolName l = ap_toolName r"

definition resolved :: "selection \<Rightarrow> string \<Rightarrow> approval \<Rightarrow> approval" where
  "resolved s now a = a\<lparr>ap_resolvedAt := Some now, ap_selection := Some s,
     ap_status := (case s of Approve \<Rightarrow> Approved | Reject \<Rightarrow> RejectedApproval)\<rparr>"

definition pending_in :: "string \<Rightarrow> approval \<Rightarrow> bool" where
  "pending_in session a \<longleftrightarrow> ap_sessionId a = session \<and> ap_status a = Requested"

definition of_call :: "string \<Rightarrow> string \<Rightarrow> approval \<Rightarrow> bool" where
  "of_call session call a \<longleftrightarrow> ap_sessionId a = session \<and> ap_toolCallId a = call"

record 'w approval_store =
  as_get :: "string \<Rightarrow> ('w, approval option) act"
  as_findByToolCall :: "string \<Rightarrow> string \<Rightarrow> ('w, approval option) act"
  as_listPending :: "string \<Rightarrow> ('w, approval list) act"
  as_put :: "approval \<Rightarrow> ('w, approval) act"
  as_resolve :: "string \<Rightarrow> selection \<Rightarrow> string option \<Rightarrow> ('w, approval option) act"

definition already_bound :: js_error where
  "already_bound = Error ''The approval request id is already bound to another request.''"

subsection \<open>The map in memory\<close>

type_synonym approval_map = "(string \<times> approval) list"

definition mem_get :: "string \<Rightarrow> (approval_map, approval option) act" where
  "mem_get i m = (Inr (map_of m i), m)"

definition mem_findByToolCall :: "string \<Rightarrow> string \<Rightarrow> (approval_map, approval option) act" where
  "mem_findByToolCall session call m = (Inr (find (of_call session call) (map snd m)), m)"

definition mem_listPending :: "(string \<Rightarrow> string \<Rightarrow> int) \<Rightarrow> string \<Rightarrow> (approval_map, approval list) act" where
  "mem_listPending localeCompare session m =
     (Inr (sort_by (\<lambda>l r. localeCompare (ap_createdAt l) (ap_createdAt r)) (filter (pending_in session) (map snd m))), m)"

definition mem_put :: "approval \<Rightarrow> (approval_map, approval) act" where
  "mem_put a m = (case map_of m (ap_requestId a) of
     Some e \<Rightarrow> if \<not> sameRequest e a then (Inl already_bound, m) else (Inr e, map_set (ap_requestId a) e m)
   | None \<Rightarrow> (Inr a, map_set (ap_requestId a) a m))"

definition mem_resolve :: "string \<Rightarrow> string \<Rightarrow> selection \<Rightarrow> string option \<Rightarrow> (approval_map, approval option) act" where
  "mem_resolve now i s at_time m = (case map_of m i of
     None \<Rightarrow> (Inr None, m)
   | Some a \<Rightarrow> if ap_status a \<noteq> Requested then (Inr (Some a), m)
       else let a' = resolved s (case at_time of Some t \<Rightarrow> t | None \<Rightarrow> now) a in (Inr (Some a'), map_set i a' m))"

definition memory_approvals :: "(string \<Rightarrow> string \<Rightarrow> int) \<Rightarrow> string \<Rightarrow> approval_map approval_store" where
  "memory_approvals localeCompare now = \<lparr>as_get = mem_get, as_findByToolCall = mem_findByToolCall,
     as_listPending = mem_listPending localeCompare, as_put = mem_put, as_resolve = mem_resolve now\<rparr>"

subsection \<open>The table\<close>

text \<open>\<^verbatim>\<open>toApproval\<close>: the fields the mapping of a row changes.\<close>

definition toApproval :: "approval \<Rightarrow> approval" where
  "toApproval r = r\<lparr>ap_turnId := truthy (ap_turnId r), ap_input := (if is_record (ap_input r) then ap_input r else JObj []),
     ap_resolvedAt := truthy (ap_resolvedAt r)\<rparr>"

definition valid_field :: "string \<Rightarrow> string option \<Rightarrow> unit res" where
  "valid_field key v = (case v of None \<Rightarrow> Inr ()
     | Some s \<Rightarrow> if js_trim s = [] \<or> length s > 1000000 then Inl (Error (key @ '' is invalid.'')) else Inr ())"

definition assertApprovalRequest :: "approval \<Rightarrow> unit res" where
  "assertApprovalRequest a = checks [valid_field ''requestId'' (Some (ap_requestId a)), valid_field ''sessionId'' (Some (ap_sessionId a)),
     valid_field ''turnId'' (ap_turnId a), valid_field ''toolCallId'' (Some (ap_toolCallId a)), valid_field ''toolName'' (Some (ap_toolName a)),
     valid_field ''createdAt'' (Some (ap_createdAt a)), valid_field ''resolvedAt'' (ap_resolvedAt a)]"

definition with_id :: "string \<Rightarrow> approval list \<Rightarrow> approval option" where
  "with_id i rows = find (\<lambda>r. ap_requestId r = i) rows"

definition sql_get :: "string \<Rightarrow> (approval list, approval option) act" where
  "sql_get i rows = (Inr (map_option toApproval (with_id i rows)), rows)"

text \<open>\<^verbatim>\<open>limit 1\<close> without an order: \<open>pick\<close> is the database's choice of a position among the rows that match.\<close>

definition sql_findByToolCall :: "(approval list \<Rightarrow> nat) \<Rightarrow> string \<Rightarrow> string \<Rightarrow> (approval list, approval option) act" where
  "sql_findByToolCall pick session call rows =
     (let matching = filter (of_call session call) rows
      in (Inr (if matching = [] then None else Some (toApproval (matching ! (pick matching mod length matching)))), rows))"

definition sql_listPending :: "(string \<Rightarrow> string \<Rightarrow> int) \<Rightarrow> string \<Rightarrow> (approval list, approval list) act" where
  "sql_listPending by_time session rows =
     (Inr (map toApproval (sort_by (\<lambda>l r. by_time (ap_createdAt l) (ap_createdAt r)) (filter (pending_in session) rows))), rows)"

text \<open>A time as the database stores it, or its refusal.\<close>

definition stored_time :: "(string \<Rightarrow> string option) \<Rightarrow> string \<Rightarrow> string res" where
  "stored_time to_time t = (case to_time t of None \<Rightarrow> Inl (Error ''invalid input syntax for type timestamp with time zone'') | Some u \<Rightarrow> Inr u)"

definition stored_row :: "(string \<Rightarrow> string option) \<Rightarrow> approval \<Rightarrow> approval res" where
  "stored_row to_time a = (case stored_time to_time (ap_createdAt a) of Inl e \<Rightarrow> Inl e | Inr c \<Rightarrow>
     (case ap_resolvedAt a of None \<Rightarrow> Inr (a\<lparr>ap_createdAt := c\<rparr>)
      | Some t \<Rightarrow> (case stored_time to_time t of Inl e \<Rightarrow> Inl e | Inr u \<Rightarrow> Inr (a\<lparr>ap_createdAt := c, ap_resolvedAt := Some u\<rparr>))))"

definition sql_put :: "(string \<Rightarrow> string option) \<Rightarrow> approval \<Rightarrow> (approval list, approval) act" where
  "sql_put to_time a rows = (case assertApprovalRequest a of Inl e \<Rightarrow> (Inl e, rows) | Inr _ \<Rightarrow>
     (case stored_row to_time a of Inl e \<Rightarrow> (Inl e, rows) | Inr new \<Rightarrow>
        let (row, rows') = (case with_id (ap_requestId a) rows of Some r \<Rightarrow> (r, rows) | None \<Rightarrow> (new, rows @ [new]));
            persisted = toApproval row
        in (if \<not> sameRequest persisted a then Inl already_bound else Inr persisted, rows')))"

text \<open>The row a resolution leaves: \<^verbatim>\<open>case when status = 'requested'\<close> in each column.\<close>

definition resolve_row :: "string \<Rightarrow> selection \<Rightarrow> string \<Rightarrow> approval \<Rightarrow> approval" where
  "resolve_row i s u r = (if ap_requestId r = i \<and> ap_status r = Requested then resolved s u r else r)"

definition sql_resolve :: "(string \<Rightarrow> string option) \<Rightarrow> string \<Rightarrow> string \<Rightarrow> selection \<Rightarrow> string option \<Rightarrow> (approval list, approval option) act" where
  "sql_resolve to_time now i s at_time rows =
     (case stored_time to_time (case at_time of Some t \<Rightarrow> t | None \<Rightarrow> now) of Inl e \<Rightarrow> (Inl e, rows) | Inr u \<Rightarrow>
        let rows' = map (resolve_row i s u) rows
        in (Inr (map_option toApproval (with_id i rows')), rows'))"

definition postgres_approvals ::
  "(approval list \<Rightarrow> nat) \<Rightarrow> (string \<Rightarrow> string \<Rightarrow> int) \<Rightarrow> (string \<Rightarrow> string option) \<Rightarrow> string \<Rightarrow> approval list approval_store" where
  "postgres_approvals pick by_time to_time now = \<lparr>as_get = sql_get, as_findByToolCall = sql_findByToolCall pick,
     as_listPending = sql_listPending by_time, as_put = sql_put to_time, as_resolve = sql_resolve to_time now\<rparr>"

subsection \<open>Following the stream\<close>

record session_event =
  sv_type :: string
  sv_data :: "json option"
  sv_meta :: "json option"

definition metaAt :: "session_event \<Rightarrow> string option" where
  "metaAt e = (case sv_meta e of None \<Rightarrow> None | Some m \<Rightarrow> jstring (jget ''at'' m))"

definition record_of :: "json option \<Rightarrow> json option" where
  "record_of v = (case v of Some j \<Rightarrow> if is_record j then Some j else None | None \<Rightarrow> None)"

definition payload :: "session_event \<Rightarrow> string \<Rightarrow> json option" where
  "payload e k = (case record_of (sv_data e) of None \<Rightarrow> None | Some d \<Rightarrow> jget k d)"

text \<open>The request an entry of \<^verbatim>\<open>input.requested\<close> describes, when it is one for an approval.\<close>

definition requested_approval :: "string \<Rightarrow> string \<Rightarrow> session_event \<Rightarrow> json \<Rightarrow> approval option" where
  "requested_approval now session e v =
     (case (jstring (jget ''requestId'' v), jget ''kind'' v, record_of (jget ''action'' v)) of
        (Some i, Some (JStr kind), Some action) \<Rightarrow>
          (case (jstring (jget ''callId'' action), jstring (jget ''toolName'' action), record_of (jget ''input'' action)) of
             (Some call, Some tool, Some input) \<Rightarrow>
               if kind \<noteq> ''tool-approval'' then None
               else Some \<lparr>ap_requestId = i, ap_sessionId = session, ap_turnId = jstring (payload e ''turnId''), ap_toolCallId = call,
                 ap_toolName = tool, ap_input = input, ap_status = Requested, ap_selection = None,
                 ap_createdAt = (case metaAt e of Some t \<Rightarrow> t | None \<Rightarrow> now), ap_resolvedAt = None\<rparr>
           | _ \<Rightarrow> None)
      | _ \<Rightarrow> None)"

text \<open>The answer an entry of \<^verbatim>\<open>message.received\<close> gives: a request and a selection.\<close>

definition answer_of :: "json \<Rightarrow> (string \<times> selection) option" where
  "answer_of v = (case jstring (jget ''requestId'' v) of None \<Rightarrow> None
     | Some i \<Rightarrow> Some (i, if jget ''optionId'' v = Some (JStr ''approve'') then Approve else Reject))"

text \<open>The call an \<^verbatim>\<open>action.result\<close> is about, and the decision its status shows.\<close>

definition result_call :: "session_event \<Rightarrow> string option" where
  "result_call e = (case record_of (payload e ''result'') of None \<Rightarrow> None
     | Some r \<Rightarrow> if jget ''kind'' r = Some (JStr ''tool-result'') then jstring (jget ''callId'' r) else None)"

definition result_selection :: "session_event \<Rightarrow> selection option" where
  "result_selection e = (case jstring (payload e ''status'') of None \<Rightarrow> None
     | Some s \<Rightarrow> if s = ''rejected'' then Some Reject else if s = ''completed'' \<or> s = ''failed'' then Some Approve else None)"

type_synonym calls = "(string \<times> approval) list"

fun each_request :: "'w approval_store \<Rightarrow> approval list \<Rightarrow> calls \<Rightarrow> ('w, calls) act" where
  "each_request store [] byCall = ret byCall"
| "each_request store (a # as) byCall =
     bind_act (as_put store a) (\<lambda>p. each_request store as (map_set (ap_toolCallId a) p byCall))"

fun each_answer :: "'w approval_store \<Rightarrow> string option \<Rightarrow> (string \<times> selection) list \<Rightarrow> calls \<Rightarrow> ('w, calls) act" where
  "each_answer store t [] byCall = ret byCall"
| "each_answer store t ((i, s) # as) byCall =
     bind_act (as_resolve store i s t) (\<lambda>r. each_answer store t as
       (case r of None \<Rightarrow> byCall | Some a \<Rightarrow> map_set (ap_toolCallId a) a byCall))"

definition entries :: "session_event \<Rightarrow> string \<Rightarrow> json list" where
  "entries e k = (case jarray (payload e k) of None \<Rightarrow> [] | Some xs \<Rightarrow> xs)"

definition sync_result :: "'w approval_store \<Rightarrow> string \<Rightarrow> session_event \<Rightarrow> calls \<Rightarrow> ('w, calls) act" where
  "sync_result store session e byCall = (case result_call e of None \<Rightarrow> ret byCall | Some call \<Rightarrow>
     bind_act (case map_of byCall call of Some a \<Rightarrow> ret (Some a) | None \<Rightarrow> as_findByToolCall store session call) (\<lambda>current.
       case current of None \<Rightarrow> ret byCall | Some a \<Rightarrow>
         if ap_status a \<noteq> Requested then ret byCall
         else (case result_selection e of None \<Rightarrow> ret byCall | Some s \<Rightarrow>
           bind_act (as_resolve store (ap_requestId a) s (metaAt e)) (\<lambda>r.
             ret (case r of None \<Rightarrow> byCall | Some b \<Rightarrow> map_set (ap_toolCallId a) b byCall)))))"

definition sync_event :: "'w approval_store \<Rightarrow> string \<Rightarrow> string \<Rightarrow> session_event \<Rightarrow> calls \<Rightarrow> ('w, calls) act" where
  "sync_event store now session e byCall =
     (if sv_type e = ''input.requested''
      then each_request store (List.map_filter (requested_approval now session e) (entries e ''requests'')) byCall
      else if sv_type e = ''message.received''
      then each_answer store (metaAt e) (List.map_filter answer_of (entries e ''inputResponses'')) byCall
      else if sv_type e = ''action.result'' then sync_result store session e byCall
      else ret byCall)"

fun sync_events :: "'w approval_store \<Rightarrow> string \<Rightarrow> string \<Rightarrow> session_event list \<Rightarrow> calls \<Rightarrow> ('w, calls) act" where
  "sync_events store now session [] byCall = ret byCall"
| "sync_events store now session (e # es) byCall =
     bind_act (sync_event store now session e byCall) (sync_events store now session es)"

definition syncAgentSessionApprovalsFromEvents ::
  "'w approval_store \<Rightarrow> string \<Rightarrow> string \<Rightarrow> session_event list \<Rightarrow> ('w, approval list) act" where
  "syncAgentSessionApprovalsFromEvents store now session es =
     bind_act (as_listPending store session) (\<lambda>pending.
     bind_act (sync_events store now session es (foldl (\<lambda>m a. map_set (ap_toolCallId a) a m) [] pending)) (\<lambda>_.
     as_listPending store session))"

end
