(* ===== verification/Sandbox_Deletion.thy ===== *)
theory Sandbox_Deletion
  imports Mailbox_Store Js_Arrays
begin

section \<open>Deletion of sandboxes (server/data/sandbox-deletion-store.ts)\<close>

text \<open>
  The rows of \<^verbatim>\<open>agent_sandbox_deletions\<close>, one per retired session, with every method of the store: a
  request records a deletion, a worker claims it under a lease, and completes it or reports a failure with
  the token of its claim.  The owners' rows are those of the session ownership store.  Times are
  milliseconds, \<open>now\<close> is the time of the transaction and \<open>uuid\<close> the fresh value of \<^verbatim>\<open>randomUUID()\<close>.
\<close>

datatype deletion_status = DelAuthorized | DelClaimed | DelCompleted | DelFailed

record deletion =
  dl_attemptCount :: nat
  dl_claimExpiresAt :: "int option"
  dl_claimToken :: "string option"
  dl_completedAt :: "int option"
  dl_containerId :: "string option"
  dl_containerName :: "string option"
  dl_lastError :: "string option"
  dl_notBefore :: int
  dl_principalId :: string
  dl_reason :: string
  dl_requestedAt :: int
  dl_requestedBy :: string
  dl_sessionId :: string
  dl_status :: deletion_status
  dl_tenantId :: string
  dl_updatedAt :: int

record deletion_db =
  dd_owners :: "(string \<times> session_owner) list"
  dd_rows :: "deletion list"

datatype request_result = DelRecord deletion bool | DelForbidden | DelMissing

text \<open>\<^verbatim>\<open>toRecord\<close>: an optional field of a row that is empty is left out.\<close>

definition deletion_record :: "deletion \<Rightarrow> deletion" where
  "deletion_record r = r\<lparr>dl_claimToken := truthy (dl_claimToken r), dl_containerId := truthy (dl_containerId r),
     dl_containerName := truthy (dl_containerName r), dl_lastError := truthy (dl_lastError r)\<rparr>"

definition changed_unexpectedly :: js_error where
  "changed_unexpectedly = Error ''Sandbox deletion persistence state changed unexpectedly.''"

definition parseTimestamp :: "(string \<Rightarrow> int option) \<Rightarrow> string \<Rightarrow> string \<Rightarrow> int res" where
  "parseTimestamp date_parse v name = (case date_parse v of None \<Rightarrow> Inl (Error (name @ '' must be an ISO timestamp.'')) | Some t \<Rightarrow> Inr t)"

subsection \<open>The owner's methods\<close>

definition owned_deletion :: "string \<Rightarrow> session_owner \<Rightarrow> deletion \<Rightarrow> bool" where
  "owned_deletion sid ow r \<longleftrightarrow> dl_sessionId r = sid \<and> dl_tenantId r = ow_tenantId ow \<and> dl_principalId r = ow_principalId ow"

definition findOwned_deletion :: "string \<Rightarrow> session_owner \<Rightarrow> (deletion_db, deletion option) act" where
  "findOwned_deletion sid ow =
     bind_act (lift_res (checks [assertText sid ''sessionId'' 512, assertText (ow_tenantId ow) ''tenantId'' 512,
       assertText (ow_principalId ow) ''principalId'' 512]))
     (\<lambda>_ db. (Inr (map_option deletion_record (find (owned_deletion sid ow) (dd_rows db))), db))"

text \<open>The row \<^verbatim>\<open>insert\<close> writes, with the defaults of the table.\<close>

definition requested_row :: "string \<Rightarrow> session_owner \<Rightarrow> string \<Rightarrow> string \<Rightarrow> int \<Rightarrow> int \<Rightarrow> deletion" where
  "requested_row sid ow requestedBy reason notBefore now = \<lparr>dl_attemptCount = 0, dl_claimExpiresAt = None, dl_claimToken = None,
     dl_completedAt = None, dl_containerId = None, dl_containerName = None, dl_lastError = None, dl_notBefore = notBefore,
     dl_principalId = ow_principalId ow, dl_reason = reason, dl_requestedAt = now, dl_requestedBy = requestedBy, dl_sessionId = sid,
     dl_status = DelAuthorized, dl_tenantId = ow_tenantId ow, dl_updatedAt = now\<rparr>"

definition same_tenant_principal :: "string \<Rightarrow> string \<Rightarrow> session_owner \<Rightarrow> bool" where
  "same_tenant_principal tenant pr ow \<longleftrightarrow> tenant = ow_tenantId ow \<and> pr = ow_principalId ow"

definition request_tx :: "string \<Rightarrow> session_owner \<Rightarrow> string \<Rightarrow> string \<Rightarrow> int option \<Rightarrow> int \<Rightarrow> (deletion_db, request_result) act" where
  "request_tx sid ow requestedBy reason notBefore now db = (case map_of (dd_owners db) sid of
     None \<Rightarrow> (Inr DelMissing, db)
   | Some o' \<Rightarrow> if \<not> same_tenant_principal (ow_tenantId o') (ow_principalId o') ow then (Inr DelForbidden, db)
       else (case find (\<lambda>r. dl_sessionId r = sid) (dd_rows db) of
         None \<Rightarrow> let r = requested_row sid ow requestedBy reason (case notBefore of None \<Rightarrow> now | Some t \<Rightarrow> t) now
           in (Inr (DelRecord (deletion_record r) True), db\<lparr>dd_rows := dd_rows db @ [r]\<rparr>)
       | Some r \<Rightarrow> if \<not> same_tenant_principal (dl_tenantId r) (dl_principalId r) ow then (Inr DelForbidden, db)
           else (Inr (DelRecord (deletion_record r) False), db)))"

definition request_deletion ::
  "(string \<Rightarrow> int option) \<Rightarrow> string \<Rightarrow> session_owner \<Rightarrow> string \<Rightarrow> string \<Rightarrow> string option \<Rightarrow> int \<Rightarrow> (deletion_db, request_result) act" where
  "request_deletion date_parse sid ow requestedBy reason notBefore now =
     bind_act (lift_res (checks [assertText sid ''sessionId'' 512, assertText (ow_tenantId ow) ''tenantId'' 512,
       assertText (ow_principalId ow) ''principalId'' 512, assertText requestedBy ''requestedBy'' 512, assertText reason ''reason'' 1000]))
     (\<lambda>_. bind_act (lift_res (case truthy notBefore of None \<Rightarrow> Inr None | Some v \<Rightarrow> map_sum id Some (parseTimestamp date_parse v ''notBefore'')))
     (\<lambda>t. transaction (request_tx sid ow requestedBy reason t now)))"

subsection \<open>The worker's methods\<close>

text \<open>The rows a claim may take: \<^verbatim>\<open>where ... not_before <= now() and (status in ...)\<close>.\<close>

definition ready_deletion :: "int \<Rightarrow> deletion \<Rightarrow> bool" where
  "ready_deletion now r \<longleftrightarrow> dl_notBefore r \<le> now \<and>
     (dl_status r \<in> {DelAuthorized, DelFailed} \<or> dl_status r = DelClaimed \<and> sql_before (dl_claimExpiresAt r) now)"

definition claimed_row :: "string \<Rightarrow> int \<Rightarrow> string \<Rightarrow> string \<Rightarrow> int \<Rightarrow> deletion \<Rightarrow> deletion" where
  "claimed_row token leaseMs container name now r = r\<lparr>dl_status := DelClaimed, dl_claimToken := Some token,
     dl_claimExpiresAt := Some (now + leaseMs), dl_containerId := Some container, dl_containerName := Some name,
     dl_attemptCount := dl_attemptCount r + 1, dl_lastError := None, dl_updatedAt := now\<rparr>"

text \<open>An \<^verbatim>\<open>update\<close> of one session's row with its \<^verbatim>\<open>returning\<close> clause.\<close>

definition update_deletion :: "(deletion \<Rightarrow> bool) \<Rightarrow> (deletion \<Rightarrow> deletion) \<Rightarrow> (deletion_db, deletion option) act" where
  "update_deletion P f db =
     (Inr (map_option deletion_record (returning P f (dd_rows db))), db\<lparr>dd_rows := update_where P f (dd_rows db)\<rparr>)"

definition claim_deletion :: "string \<Rightarrow> string \<Rightarrow> string \<Rightarrow> string \<Rightarrow> int option \<Rightarrow> int \<Rightarrow> (deletion_db, deletion option) act" where
  "claim_deletion uuid sid container name leaseMs now =
     bind_act (lift_res (checks [assertText sid ''sessionId'' 512, assertText container ''containerId'' 512,
       assertText name ''containerName'' 512]))
     (\<lambda>_. let lease = (case leaseMs of None \<Rightarrow> 60000 | Some l \<Rightarrow> l)
          in if lease < 1000 \<or> lease > 15 * 60000 then throw (Error ''leaseMs must be an integer from 1000 to 900000.'')
             else update_deletion (\<lambda>r. dl_sessionId r = sid \<and> ready_deletion now r) (claimed_row uuid lease container name now))"

definition required :: "(deletion_db, deletion option) act \<Rightarrow> (deletion_db, deletion) act" where
  "required m = bind_act m (\<lambda>r. case r of None \<Rightarrow> throw changed_unexpectedly | Some d \<Rightarrow> ret d)"

definition holds_claim :: "string \<Rightarrow> string \<Rightarrow> deletion \<Rightarrow> bool" where
  "holds_claim sid token r \<longleftrightarrow> dl_sessionId r = sid \<and> dl_status r = DelClaimed \<and> dl_claimToken r = Some token"

definition completed_row :: "int \<Rightarrow> deletion \<Rightarrow> deletion" where
  "completed_row now r = r\<lparr>dl_status := DelCompleted, dl_claimToken := None, dl_claimExpiresAt := None,
     dl_completedAt := Some now, dl_updatedAt := now\<rparr>"

definition complete_deletion :: "string \<Rightarrow> string \<Rightarrow> int \<Rightarrow> (deletion_db, deletion) act" where
  "complete_deletion sid token now =
     bind_act (lift_res (checks [assertText sid ''sessionId'' 512, assertText token ''claimToken'' 512]))
     (\<lambda>_. required (update_deletion (holds_claim sid token) (completed_row now)))"

definition missing_row :: "int \<Rightarrow> deletion \<Rightarrow> deletion" where
  "missing_row now r = r\<lparr>dl_status := DelCompleted, dl_claimToken := None, dl_claimExpiresAt := None, dl_containerId := None,
     dl_containerName := None, dl_attemptCount := dl_attemptCount r + 1, dl_lastError := None, dl_completedAt := Some now,
     dl_updatedAt := now\<rparr>"

text \<open>Its own \<^verbatim>\<open>where\<close> clause, beside that of a claim.\<close>

definition missing_ready :: "int \<Rightarrow> deletion \<Rightarrow> bool" where
  "missing_ready now r \<longleftrightarrow> dl_notBefore r \<le> now \<and>
     (dl_status r = DelAuthorized \<or> dl_status r = DelFailed \<or> dl_status r = DelClaimed \<and> sql_before (dl_claimExpiresAt r) now)"

definition completeMissing :: "string \<Rightarrow> int \<Rightarrow> (deletion_db, deletion option) act" where
  "completeMissing sid now =
     bind_act (lift_res (assertText sid ''sessionId'' 512))
     (\<lambda>_. update_deletion (\<lambda>r. dl_sessionId r = sid \<and> missing_ready now r) (missing_row now))"

definition failed_row :: "string \<Rightarrow> int \<Rightarrow> deletion \<Rightarrow> deletion" where
  "failed_row message now r = r\<lparr>dl_status := DelFailed, dl_claimToken := None, dl_claimExpiresAt := None,
     dl_lastError := Some message, dl_updatedAt := now\<rparr>"

definition compact_message :: "string \<Rightarrow> string" where
  "compact_message m = (let s = take 2000 (js_trim m) in if s = [] then ''Sandbox deletion failed.'' else s)"

definition fail_deletion :: "string \<Rightarrow> string \<Rightarrow> string \<Rightarrow> int \<Rightarrow> (deletion_db, deletion) act" where
  "fail_deletion sid token message now =
     bind_act (lift_res (checks [assertText sid ''sessionId'' 512, assertText token ''claimToken'' 512]))
     (\<lambda>_. required (update_deletion (holds_claim sid token) (failed_row (compact_message message) now)))"

subsection \<open>The worker's query (lib/sandbox-cleanup-query.ts)\<close>

text \<open>The \<^verbatim>\<open>where\<close> clause of the query, a text of its own in another file.\<close>

definition query_ready :: "int \<Rightarrow> deletion \<Rightarrow> bool" where
  "query_ready now r \<longleftrightarrow> dl_notBefore r \<le> now \<and>
     (dl_status r = DelAuthorized \<or> dl_status r = DelFailed \<or> dl_status r = DelClaimed \<and> sql_before (dl_claimExpiresAt r) now)"

definition ready_order :: "deletion \<Rightarrow> deletion \<Rightarrow> int" where
  "ready_order a b = (if dl_notBefore a < dl_notBefore b then -1 else if dl_notBefore b < dl_notBefore a then 1
     else if dl_requestedAt a < dl_requestedAt b then -1 else if dl_requestedAt b < dl_requestedAt a then 1 else 0)"

definition ready_sessions :: "int \<Rightarrow> nat \<Rightarrow> deletion_db \<Rightarrow> string list" where
  "ready_sessions now limit db = map dl_sessionId (take limit (sort_by ready_order (filter (query_ready now) (dd_rows db))))"

subsection \<open>Runs of the store\<close>

datatype deletion_cmd =
    DRequest "string \<Rightarrow> int option" string session_owner string string "string option" int
  | DClaim string string string string "int option" int
  | DComplete string string int
  | DMissing string int
  | DFail string string string int

fun exec_deletion :: "deletion_cmd \<Rightarrow> deletion_db \<Rightarrow> deletion_db" where
  "exec_deletion (DRequest dp sid ow by rs nb now) db = snd (request_deletion dp sid ow by rs nb now db)"
| "exec_deletion (DClaim uuid sid c n l now) db = snd (claim_deletion uuid sid c n l now db)"
| "exec_deletion (DComplete sid t now) db = snd (complete_deletion sid t now db)"
| "exec_deletion (DMissing sid now) db = snd (completeMissing sid now db)"
| "exec_deletion (DFail sid t m now) db = snd (fail_deletion sid t m now db)"

definition run_deletions :: "deletion_cmd list \<Rightarrow> deletion_db \<Rightarrow> deletion_db" where
  "run_deletions cs db = fold exec_deletion cs db"

end
