(* ===== verification/Session_Service.thy ===== *)
theory Session_Service
  imports Approval_Store Sandbox_Deletion
begin

section \<open>Agent sessions (server/agent-sessions/service.ts)\<close>

text \<open>
  Reading a session's events a page at a time, cancelling its turn and retiring it.  The Eve runtime and the
  stores are actions on a world; the runtime is outside the repository and a parameter.
\<close>

subsection \<open>The state a page shows\<close>

datatype session_status = SessUnknown | SessRunning | SessWaiting | SessCompleted | SessFailed | SessCancelled

record session_snapshot =
  sn_eventCursor :: int
  sn_sessionId :: string
  sn_activeTurnId :: "string option"
  sn_status :: session_status

record session_entry =
  en_cursor :: int
  en_data :: "json option"
  en_meta :: "json option"
  en_type :: string

definition projectSessionEvent :: "session_event \<Rightarrow> int \<Rightarrow> session_entry" where
  "projectSessionEvent e cursor = \<lparr>en_cursor = cursor, en_data = sv_data e, en_meta = sv_meta e, en_type = sv_type e\<rparr>"

definition event_turnId :: "session_event \<Rightarrow> string option" where
  "event_turnId e = (case jstring (payload e ''turnId'') of None \<Rightarrow> None | Some t \<Rightarrow> if js_trim t = [] then None else Some t)"

fun snapshot_step :: "session_event \<Rightarrow> session_status \<times> string option \<Rightarrow> session_status \<times> string option" where
  "snapshot_step e (status, turn) =
     (let t = sv_type e in
      if t = ''turn.started'' then (SessRunning, event_turnId e)
      else if t = ''step.started'' \<or> t = ''message.appended'' \<or> t = ''reasoning.appended'' \<or> t = ''actions.requested'' then (SessRunning, turn)
      else if t = ''turn.completed'' then (SessWaiting, None)
      else if t = ''turn.cancelled'' then (SessCancelled, None)
      else if t = ''session.waiting'' then (SessWaiting, None)
      else if t = ''session.completed'' then (SessCompleted, None)
      else if t = ''session.failed'' \<or> t = ''turn.failed'' then (SessFailed, None)
      else (status, turn))"

definition projectSessionSnapshot :: "string \<Rightarrow> int \<Rightarrow> session_event list \<Rightarrow> session_snapshot" where
  "projectSessionSnapshot sid cursor es = (case fold snapshot_step es (SessUnknown, None) of (status, turn) \<Rightarrow>
     \<lparr>sn_eventCursor = cursor, sn_sessionId = sid, sn_activeTurnId = truthy turn, sn_status = status\<rparr>)"

definition lifecycle_types :: "string list" where
  "lifecycle_types = [''turn.started'', ''turn.completed'', ''turn.cancelled'', ''turn.failed'', ''session.waiting'', ''session.completed'', ''session.failed'']"

definition hasLifecycleBoundary :: "session_event list \<Rightarrow> bool" where
  "hasLifecycleBoundary es = list_ex (\<lambda>e. sv_type e \<in> set lifecycle_types) es"

datatype terminal_status = TermCompleted | TermFailed
datatype eve_boundary = BoundRunning "string option" | BoundWaiting | BoundTerminal "terminal_status option"

fun applyRuntimeBoundary :: "session_snapshot \<Rightarrow> eve_boundary \<Rightarrow> session_snapshot" where
  "applyRuntimeBoundary s (BoundRunning turn) = s\<lparr>sn_activeTurnId := turn, sn_status := SessRunning\<rparr>"
| "applyRuntimeBoundary s BoundWaiting = s\<lparr>sn_activeTurnId := None, sn_status := SessWaiting\<rparr>"
| "applyRuntimeBoundary s (BoundTerminal t) = s\<lparr>sn_activeTurnId := None, sn_status := (if t = Some TermFailed then SessFailed else SessCompleted)\<rparr>"

subsection \<open>Arguments\<close>

definition assertSessionId :: "string \<Rightarrow> unit res" where
  "assertSessionId sid = assert_that (\<not> (js_trim sid = [] \<or> length sid > 512 \<or> list_ex is_js_space sid))
     (OperationError 400 ''agent_session_id_invalid'' ''The Agent session id is invalid.'')"

definition parseSessionCursor :: "int \<Rightarrow> int res" where
  "parseSessionCursor v = (if \<bar>v\<bar> > MAX_SAFE_INTEGER \<or> v < 0
     then Inl (OperationError 400 ''agent_session_cursor_invalid'' ''The Agent session cursor is invalid.'') else Inr v)"

definition parseSessionPageLimit :: "int \<Rightarrow> int res" where
  "parseSessionPageLimit v = (if \<bar>v\<bar> > MAX_SAFE_INTEGER \<or> v < 1 \<or> v > 1000
     then Inl (OperationError 400 ''agent_session_limit_invalid'' ''The Agent session page limit must be between 1 and 1000.'') else Inr v)"

subsection \<open>Reading and cancelling\<close>

datatype cancel_status = TurnCancelAccepted | NoActiveTurn

record 'w session_runtime =
  sr_readEvents :: "string \<Rightarrow> int \<Rightarrow> int \<Rightarrow> ('w, session_event list) act"
  sr_cancel :: "string \<Rightarrow> string option \<Rightarrow> ('w, cancel_status) act"
  sr_inspect :: "(session_owner \<Rightarrow> string \<Rightarrow> ('w, eve_boundary) act) option"

record session_history =
  hi_events :: "session_entry list"
  hi_hasMore :: bool
  hi_nextCursor :: int
  hi_owner :: session_owner
  hi_session :: session_snapshot

type_synonym 'w verifier = "string \<Rightarrow> session_owner \<Rightarrow> ('w, ownership) act"

definition project_page :: "int \<Rightarrow> session_event list \<Rightarrow> session_entry list" where
  "project_page after es = map (\<lambda>(i, e). projectSessionEvent e (after + int i + 1)) (enumerate 0 es)"

definition reconcile_boundary :: "'w session_runtime \<Rightarrow> session_owner \<Rightarrow> int \<Rightarrow> session_event list \<Rightarrow> session_snapshot \<Rightarrow> ('w, session_snapshot) act" where
  "reconcile_boundary rt who limit es s = (case sr_inspect rt of None \<Rightarrow> ret s
   | Some inspect \<Rightarrow> if \<not> hasLifecycleBoundary es \<and> (int (length es) < limit \<or> es = [])
       then catch_act (bind_act (inspect who (sn_sessionId s)) (\<lambda>b. ret (applyRuntimeBoundary s b))) (\<lambda>_. ret s)
       else ret s)"

definition readAgentSession ::
  "'w verifier \<Rightarrow> 'w session_runtime \<Rightarrow> session_owner \<Rightarrow> string \<Rightarrow> int option \<Rightarrow> int option \<Rightarrow> ('w, session_history option) act" where
  "readAgentSession verify rt who sid after' limit' =
     bind_act (lift_res (assertSessionId sid)) (\<lambda>_.
     bind_act (verify sid who) (\<lambda>own. if own \<noteq> Owned then ret None else
     bind_act (lift_res (parseSessionCursor (case after' of None \<Rightarrow> 0 | Some a \<Rightarrow> a))) (\<lambda>after.
     bind_act (lift_res (parseSessionPageLimit (case limit' of None \<Rightarrow> 200 | Some l \<Rightarrow> l))) (\<lambda>limit.
     bind_act (sr_readEvents rt sid after limit) (\<lambda>es.
     bind_act (reconcile_boundary rt who limit es (projectSessionSnapshot sid (after + int (length es)) es)) (\<lambda>session.
     ret (Some \<lparr>hi_events = project_page after es, hi_hasMore = (limit \<le> int (length es)), hi_nextCursor = after + int (length es),
       hi_owner = who, hi_session = session\<rparr>)))))))"

definition cancelAgentSession ::
  "'w verifier \<Rightarrow> 'w session_runtime \<Rightarrow> session_owner \<Rightarrow> string \<Rightarrow> string option \<Rightarrow> ('w, (string \<times> cancel_status) option) act" where
  "cancelAgentSession verify rt who sid turn =
     bind_act (lift_res (assertSessionId sid)) (\<lambda>_.
     bind_act (verify sid who) (\<lambda>own. if own \<noteq> Owned then ret None else
     bind_act (sr_cancel rt sid (truthy turn)) (\<lambda>s. ret (Some (sid, s)))))"

subsection \<open>Retiring a session\<close>

datatype reset_status = NoActiveSession | WasReset

record deletion_outcome =
  do_deletion :: deletion
  do_already :: bool
  do_reset :: reset_status

record 'w deletion_store =
  ds_verify :: "'w verifier"
  ds_findOwned :: "string \<Rightarrow> session_owner \<Rightarrow> ('w, deletion option) act"
  ds_request :: "string \<Rightarrow> session_owner \<Rightarrow> string \<Rightarrow> string \<Rightarrow> ('w, request_result) act"

definition retirement_failed :: js_error where
  "retirement_failed = OperationError 502 ''agent_session_retirement_failed''
     ''The Agent runtime could not retire this session. Its sandbox was left intact.''"

definition ownership_changed :: js_error where
  "ownership_changed = OperationError 409 ''agent_session_ownership_changed''
     ''The Agent session ownership changed while deletion was being authorized.''"

definition requester :: "session_owner \<Rightarrow> string" where
  "requester who = ''host:'' @ ow_principalType who"

definition authorize_deletion :: "'w deletion_store \<Rightarrow> session_owner \<Rightarrow> string \<Rightarrow> reset_status \<Rightarrow> ('w, deletion_outcome option) act" where
  "authorize_deletion store who sid reset =
     bind_act (ds_request store sid who (requester who) ''user-requested-session-deletion'') (\<lambda>a. case a of
       DelRecord d created \<Rightarrow> ret (Some \<lparr>do_deletion = d, do_already = (\<not> created), do_reset = reset\<rparr>)
     | _ \<Rightarrow> throw ownership_changed)"

definition deleteAgentSession ::
  "'w deletion_store \<Rightarrow> (string \<Rightarrow> string \<Rightarrow> ('w, reset_status) act) \<Rightarrow> string \<Rightarrow> session_owner \<Rightarrow> string \<Rightarrow> ('w, deletion_outcome option) act" where
  "deleteAgentSession store reset uuid who sid =
     bind_act (lift_res (assertSessionId sid)) (\<lambda>_.
     bind_act (ds_verify store sid who) (\<lambda>own. if own \<noteq> Owned then ret None else
     bind_act (ds_findOwned store sid who) (\<lambda>existing. case existing of
       Some d \<Rightarrow> ret (Some \<lparr>do_deletion = d, do_already = True, do_reset = NoActiveSession\<rparr>)
     | None \<Rightarrow> bind_act (catch_act (reset sid (''delete-'' @ uuid)) (\<lambda>_. throw retirement_failed))
         (authorize_deletion store who sid))))"

text \<open>The stores as tables of one database, beside a runtime with a state of its own.\<close>

record 'r retirement_world =
  rw_db :: deletion_db
  rw_runtime :: 'r

definition on_db :: "(deletion_db, 'a) act \<Rightarrow> ('r retirement_world, 'a) act" where
  "on_db m w = (case m (rw_db w) of (r, db) \<Rightarrow> (r, w\<lparr>rw_db := db\<rparr>))"

definition on_runtime :: "('r, 'a) act \<Rightarrow> ('r retirement_world, 'a) act" where
  "on_runtime m w = (case m (rw_runtime w) of (r, s) \<Rightarrow> (r, w\<lparr>rw_runtime := s\<rparr>))"

definition verify_owner :: "string \<Rightarrow> session_owner \<Rightarrow> (deletion_db, ownership) act" where
  "verify_owner sid ow db = (fst (verifyOwnership sid ow \<lparr>db_owners = dd_owners db, db_items = []\<rparr>), db)"

definition table_deletions :: "(string \<Rightarrow> int option) \<Rightarrow> int \<Rightarrow> 'r retirement_world deletion_store" where
  "table_deletions date_parse now = \<lparr>ds_verify = (\<lambda>sid ow. on_db (verify_owner sid ow)), ds_findOwned = (\<lambda>sid ow. on_db (findOwned_deletion sid ow)),
     ds_request = (\<lambda>sid ow by' reason. on_db (request_deletion date_parse sid ow by' reason None now))\<rparr>"

subsection \<open>The approvals of a session (app/api/agent/sessions/[sessionId]/approvals/route.ts)\<close>

definition as_stream_event :: "session_entry \<Rightarrow> session_event" where
  "as_stream_event e = \<lparr>sv_type = en_type e, sv_data = en_data e, sv_meta = en_meta e\<rparr>"

text \<open>The loop over at most \<open>k\<close> further pages of 1000 events; no history is \<open>None\<close>.\<close>

fun approval_pages :: "nat \<Rightarrow> (int \<Rightarrow> ('w, session_history option) act) \<Rightarrow> int \<Rightarrow> session_entry list \<Rightarrow> session_history option \<Rightarrow>
    ('w, session_entry list \<times> session_history option) act" where
  "approval_pages 0 read after pages history = ret (pages, history)"
| "approval_pages (Suc k) read after pages history = bind_act (read after) (\<lambda>h. case h of
     None \<Rightarrow> ret (pages, None)
   | Some hist \<Rightarrow> if \<not> hi_hasMore hist then ret (pages @ hi_events hist, Some hist)
       else approval_pages k read (hi_nextCursor hist) (pages @ hi_events hist) (Some hist))"

definition approvals_get ::
  "'w verifier \<Rightarrow> 'w session_runtime \<Rightarrow> 'w approval_store \<Rightarrow> string \<Rightarrow> session_owner \<Rightarrow> string \<Rightarrow> ('w, (approval list \<times> session_snapshot) option) act" where
  "approvals_get verify rt store now who sid =
     bind_act (approval_pages 100 (\<lambda>after. readAgentSession verify rt who sid (Some after) (Some 1000)) 0 [] None) (\<lambda>(pages, history).
       case history of None \<Rightarrow> ret None
       | Some h \<Rightarrow> bind_act (syncAgentSessionApprovalsFromEvents store now sid (map as_stream_event pages)) (\<lambda>pending. ret (Some (pending, hi_session h))))"

end
