(* ===== verification/Sandbox_Deletion_Theorems.thy ===== *)
theory Sandbox_Deletion_Theorems
  imports Sandbox_Deletion
begin

section \<open>Properties of the deletion of sandboxes\<close>

text \<open>
  A deletion is a small state machine; its steps, the rows of a run, and what they give: a lease excludes
  every other worker, a worker that lost its claim cannot settle the deletion, a completed deletion is final,
  and the worker's query lists exactly what can be claimed.
\<close>

subsection \<open>Steps of a deletion\<close>

inductive del_step :: "deletion_cmd \<Rightarrow> deletion \<Rightarrow> deletion \<Rightarrow> bool" where
  claim: "\<lbrakk>dl_sessionId r = sid; ready_deletion now r; lease \<ge> 1000\<rbrakk> \<Longrightarrow>
    del_step (DClaim uuid sid c n l now) r (claimed_row uuid lease c n now r)"
| completed: "holds_claim sid t r \<Longrightarrow> del_step (DComplete sid t now) r (completed_row now r)"
| missing: "\<lbrakk>dl_sessionId r = sid; missing_ready now r\<rbrakk> \<Longrightarrow> del_step (DMissing sid now) r (missing_row now r)"
| failed: "holds_claim sid t r \<Longrightarrow> del_step (DFail sid t m now) r (failed_row (compact_message m) now r)"

inductive_cases claim_stepE: "del_step (DClaim uuid sid c n l now) r r'"

lemmas row_updates = claimed_row_def completed_row_def missing_row_def failed_row_def

lemma del_step_id: "del_step c r r' \<Longrightarrow> dl_sessionId r' = dl_sessionId r"
  by (induction rule: del_step.induct) (simp_all add: row_updates)

definition deletion_of :: "string \<Rightarrow> deletion_db \<Rightarrow> deletion option" where
  "deletion_of sid db = find (\<lambda>r. dl_sessionId r = sid) (dd_rows db)"

lemma deletion_of_id: "deletion_of sid db = Some r \<Longrightarrow> r \<in> set (dd_rows db) \<and> dl_sessionId r = sid"
  by (auto simp: deletion_of_def find_Some_iff)

text \<open>What a command does to the table: nothing, a new row, or a step of the rows that match.\<close>

inductive moves :: "deletion_cmd \<Rightarrow> deletion_db \<Rightarrow> deletion_db \<Rightarrow> bool" where
  stay: "moves c db db"
| new: "\<lbrakk>deletion_of sid db = None; map_of (dd_owners db) sid = Some o'; same_tenant_principal (ow_tenantId o') (ow_principalId o') ow\<rbrakk> \<Longrightarrow>
    moves c db (db\<lparr>dd_rows := dd_rows db @ [requested_row sid ow who rs nb now]\<rparr>)"
| step: "(\<And>r. P r \<Longrightarrow> del_step c r (f r)) \<Longrightarrow> moves c db (db\<lparr>dd_rows := update_where P f (dd_rows db)\<rparr>)"

lemma required_snd: "snd (required (update_deletion P f) db) = snd (update_deletion P f db)"
  by (simp add: required_def bind_act_def update_deletion_def throw_def ret_def split: option.splits)

lemma lift_bind_snd: "snd (bind_act (lift_res x) f db) = (case x of Inl e \<Rightarrow> db | Inr y \<Rightarrow> snd (f y db))"
  by (cases x) (simp_all add: bind_act_def lift_res_def)

lemma snd_update_deletion: "snd (update_deletion P f db) = db\<lparr>dd_rows := update_where P f (dd_rows db)\<rparr>"
  by (simp add: update_deletion_def)

lemma request_moves: "moves c db (snd (request_tx sid ow who rs nb now db))"
proof (cases "map_of (dd_owners db) sid")
  case (Some o')
  show ?thesis
  proof (cases "deletion_of sid db")
    case None
    with Some show ?thesis by (auto simp: request_tx_def deletion_of_def Let_def intro: moves.intros)
  next
    case (Some r)
    then show ?thesis by (auto simp: request_tx_def deletion_of_def intro: moves.intros split: option.splits)
  qed
qed (simp add: request_tx_def moves.stay)

lemma transaction_snd: "snd (transaction m db) = (case m db of (Inl e, _) \<Rightarrow> db | (Inr x, db') \<Rightarrow> db')"
  by (auto simp: transaction_def split: prod.splits sum.splits)

lemma exec_moves: "moves c db (exec_deletion c db)"
proof (cases c)
  case (DRequest dp sid ow who rs nb now)
  have "moves c db (snd (transaction (request_tx sid ow who rs t now) db))" for t
    using request_moves [of c db sid ow who rs t now] by (auto simp: transaction_snd moves.stay split: prod.splits sum.splits)
  then show ?thesis by (auto simp: DRequest request_deletion_def lift_bind_snd moves.stay split: sum.splits)
next
  case (DClaim uuid sid cc n l now)
  have "moves c db (snd (update_deletion (\<lambda>r. dl_sessionId r = sid \<and> ready_deletion now r) (claimed_row uuid lease cc n now) db))" if "lease \<ge> 1000" for lease
    unfolding snd_update_deletion DClaim by (rule moves.step) (use that in \<open>auto intro: del_step.claim\<close>)
  then show ?thesis by (auto simp: DClaim claim_deletion_def lift_bind_snd Let_def throw_def moves.stay split: sum.splits)
next
  case (DComplete sid t now)
  have "moves c db (snd (update_deletion (holds_claim sid t) (completed_row now) db))"
    unfolding snd_update_deletion DComplete by (rule moves.step) (rule del_step.completed)
  then show ?thesis by (auto simp: DComplete complete_deletion_def lift_bind_snd required_snd moves.stay split: sum.splits)
next
  case (DMissing sid now)
  have "moves c db (snd (update_deletion (\<lambda>r. dl_sessionId r = sid \<and> missing_ready now r) (missing_row now) db))"
    unfolding snd_update_deletion DMissing by (rule moves.step) (auto intro: del_step.missing)
  then show ?thesis by (auto simp: DMissing completeMissing_def lift_bind_snd moves.stay split: sum.splits)
next
  case (DFail sid t m now)
  have "moves c db (snd (update_deletion (holds_claim sid t) (failed_row (compact_message m) now) db))"
    unfolding snd_update_deletion DFail by (rule moves.step) (rule del_step.failed)
  then show ?thesis by (auto simp: DFail fail_deletion_def lift_bind_snd required_snd moves.stay split: sum.splits)
qed

lemma find_appendI: "find P xs = Some r \<Longrightarrow> find P (xs @ ys) = Some r"
  by (induction xs) auto

lemma find_update_where:
  "(\<And>r. P r \<Longrightarrow> key (f r) = key r) \<Longrightarrow> find (\<lambda>r. key r = k) (update_where P f rs) = map_option (\<lambda>r. if P r then f r else r) (find (\<lambda>r. key r = k) rs)"
  by (induction rs) (auto simp: update_where_def)

lemma moves_row:
  assumes "moves c db db'" and "deletion_of sid db = Some r"
  shows "\<exists>r'. deletion_of sid db' = Some r' \<and> (r' = r \<or> del_step c r r')"
  using assms
proof (induction rule: moves.induct)
  case (new sid' db o' ow c who rs nb now)
  then show ?case by (auto simp: deletion_of_def intro: find_appendI)
next
  case (step P c f db)
  have id: "P r \<Longrightarrow> dl_sessionId (f r) = dl_sessionId r" for r using step.hyps del_step_id by blast
  show ?case using step by (auto simp: deletion_of_def find_update_where [where key = dl_sessionId, OF id])
qed simp

lemma run_deletions_simps [simp]:
  "run_deletions [] db = db" "run_deletions (c # cs) db = run_deletions cs (exec_deletion c db)"
  by (simp_all add: run_deletions_def)

text \<open>A property of a session's row that every step of the commands keeps holds after a run.\<close>

lemma run_row:
  assumes "deletion_of sid db = Some r" and "Q r" and "\<And>c r r'. c \<in> set cs \<Longrightarrow> del_step c r r' \<Longrightarrow> dl_sessionId r = sid \<Longrightarrow> Q r \<Longrightarrow> Q r'"
  shows "\<exists>r'. deletion_of sid (run_deletions cs db) = Some r' \<and> Q r'"
  using assms
proof (induction cs arbitrary: db r)
  case (Cons c cs)
  from moves_row [OF exec_moves Cons.prems(1)] obtain r' where r': "deletion_of sid (exec_deletion c db) = Some r'" "r' = r \<or> del_step c r r'" by blast
  then have "Q r'" using Cons.prems(2) Cons.prems(3) [of c r r'] deletion_of_id [OF Cons.prems(1)] by auto
  with Cons.IH [OF r'(1)] Cons.prems(3) show ?case by (metis list.set_intros(2) run_deletions_simps(2))
qed simp

subsection \<open>The table\<close>

definition deletion_ok :: "deletion \<Rightarrow> bool" where
  "deletion_ok r \<longleftrightarrow> (dl_status r = DelClaimed) = (dl_claimToken r \<noteq> None) \<and> (dl_status r = DelClaimed) = (dl_claimExpiresAt r \<noteq> None) \<and>
     (dl_status r = DelCompleted) = (dl_completedAt r \<noteq> None)"

definition deletions_ok :: "deletion_db \<Rightarrow> bool" where
  "deletions_ok db \<longleftrightarrow> distinct (map dl_sessionId (dd_rows db)) \<and> list_all deletion_ok (dd_rows db) \<and>
     list_all (\<lambda>r. \<exists>o'. map_of (dd_owners db) (dl_sessionId r) = Some o' \<and> dl_tenantId r = ow_tenantId o' \<and> dl_principalId r = ow_principalId o') (dd_rows db)"

lemma del_step_ok: "del_step c r r' \<Longrightarrow> deletion_ok r \<Longrightarrow> deletion_ok r'"
  by (induction rule: del_step.induct) (auto simp: deletion_ok_def row_updates ready_deletion_def missing_ready_def holds_claim_def)

lemma del_step_owner: "del_step c r r' \<Longrightarrow> dl_tenantId r' = dl_tenantId r \<and> dl_principalId r' = dl_principalId r"
  by (induction rule: del_step.induct) (simp_all add: row_updates)

lemma keys_update_where: "(\<And>r. P r \<Longrightarrow> key (f r) = key r) \<Longrightarrow> map key (update_where P f rs) = map key rs"
  by (induction rs) (auto simp: update_where_def)

lemma moves_ok: "moves c db db' \<Longrightarrow> deletions_ok db \<Longrightarrow> deletions_ok db'"
proof (induction rule: moves.induct)
  case (new sid db o' ow c who rs nb now)
  then have "sid \<notin> dl_sessionId ` set (dd_rows db)" by (auto simp: deletion_of_def find_None_iff)
  with new show ?case
    by (auto simp: deletions_ok_def requested_row_def deletion_ok_def same_tenant_principal_def)
next
  case (step P c f db)
  have id: "P r \<Longrightarrow> dl_sessionId (f r) = dl_sessionId r" for r using step.hyps del_step_id by blast
  have owner: "P r \<Longrightarrow> dl_tenantId (f r) = dl_tenantId r \<and> dl_principalId (f r) = dl_principalId r" for r
    using step.hyps del_step_owner by blast
  have "list_all deletion_ok (update_where P f (dd_rows db))"
    using step.prems step.hyps del_step_ok by (intro list_all_update_where) (auto simp: deletions_ok_def)
  moreover have "list_all (\<lambda>r. \<exists>o'. map_of (dd_owners db) (dl_sessionId r) = Some o' \<and> dl_tenantId r = ow_tenantId o' \<and> dl_principalId r = ow_principalId o')
      (update_where P f (dd_rows db))"
    using step.prems owner id by (intro list_all_update_where) (auto simp: deletions_ok_def)
  ultimately show ?case using step.prems by (simp add: deletions_ok_def keys_update_where [where key = dl_sessionId, OF id])
qed simp

lemma run_deletions_ok: "deletions_ok db \<Longrightarrow> deletions_ok (run_deletions cs db)"
proof (induction cs arbitrary: db)
  case (Cons c cs)
  then show ?case using moves_ok [OF exec_moves] by simp
qed simp

text \<open>Remark (deletion_table_ok)  Whatever methods are called, the table holds one row per session, a claim token and
  its expiry exactly while the row is claimed, a completion time exactly when it is completed, and only
  deletions whose tenant and principal own the session.\<close>

theorem deletion_table_ok: "deletions_ok (run_deletions cs \<lparr>dd_owners = owners, dd_rows = []\<rparr>)"
  by (rule run_deletions_ok) (simp add: deletions_ok_def)

subsection \<open>Leases\<close>

fun cmd_time :: "deletion_cmd \<Rightarrow> int" where
  "cmd_time (DRequest dp sid ow who rs nb now) = now"
| "cmd_time (DClaim uuid sid c n l now) = now"
| "cmd_time (DComplete sid t now) = now"
| "cmd_time (DMissing sid now) = now"
| "cmd_time (DFail sid t m now) = now"

fun settles :: "string \<Rightarrow> string \<Rightarrow> deletion_cmd \<Rightarrow> bool" where
  "settles sid t (DComplete s u now) \<longleftrightarrow> s = sid \<and> u = t"
| "settles sid t (DFail s u m now) \<longleftrightarrow> s = sid \<and> u = t"
| "settles sid t _ = False"

lemma lease_step:
  "\<lbrakk>del_step c r r'; holds_claim sid t r; dl_claimExpiresAt r = Some x; cmd_time c \<le> x; \<not> settles sid t c\<rbrakk> \<Longrightarrow> r' = r"
  by (induction rule: del_step.induct) (auto simp: holds_claim_def ready_deletion_def missing_ready_def sql_before_def)

lemma lease_run:
  assumes "deletion_of sid db = Some r" and "holds_claim sid t r" and "dl_claimExpiresAt r = Some x"
    and "list_all (\<lambda>c. cmd_time c \<le> x \<and> \<not> settles sid t c) cs"
  shows "deletion_of sid (run_deletions cs db) = Some r"
proof -
  have "\<exists>r'. deletion_of sid (run_deletions cs db) = Some r' \<and> r' = r"
    by (rule run_row [OF assms(1)]) (use assms(2-4) lease_step in \<open>auto simp: list_all_iff\<close>)
  then show ?thesis by simp
qed

lemma find_conj:
  assumes "distinct (map key rs)" and "find (\<lambda>r. key r = k) rs = Some r"
  shows "find (\<lambda>r. key r = k \<and> R r) rs = (if R r then Some r else None)"
  using assms by (induction rs) (auto simp: find_None_iff image_iff split: if_splits)

lemma find_conj_None: "find (\<lambda>r. key r = k) rs = None \<Longrightarrow> find (\<lambda>r. key r = k \<and> R r) rs = None"
  by (induction rs) (auto split: if_splits)

lemma claim_result:
  assumes "claim_deletion uuid sid c n l now db = (Inr (Some d), db')"
  shows "\<exists>r \<in> set (dd_rows db). dl_sessionId r = sid \<and> ready_deletion now r"
  using assms
  by (auto simp: claim_deletion_def bind_act_def lift_res_def Let_def throw_def update_deletion_def returning_def find_Some_iff
      split: sum.splits if_splits)

text \<open>C15 (a_lease_excludes_other_workers)  While a claim's lease runs and its holder does not settle the deletion,
  no sequence of calls by other workers changes the row, and every attempt to claim it gets nothing.\<close>

theorem a_lease_excludes_other_workers:
  assumes "deletions_ok db" and "deletion_of sid db = Some r" and "holds_claim sid t r" and "dl_claimExpiresAt r = Some x"
    and "list_all (\<lambda>c. cmd_time c \<le> x \<and> \<not> settles sid t c) cs" and "now \<le> x"
  shows "deletion_of sid (run_deletions cs db) = Some r \<and> fst (claim_deletion uuid sid c n l now (run_deletions cs db)) \<noteq> Inr (Some d)"
proof
  show row: "deletion_of sid (run_deletions cs db) = Some r" by (rule lease_run [OF assms(2-5)])
  show "fst (claim_deletion uuid sid c n l now (run_deletions cs db)) \<noteq> Inr (Some d)"
  proof
    assume "fst (claim_deletion uuid sid c n l now (run_deletions cs db)) = Inr (Some d)"
    then have "claim_deletion uuid sid c n l now (run_deletions cs db) = (Inr (Some d), snd (claim_deletion uuid sid c n l now (run_deletions cs db)))"
      by (simp add: prod_eq_iff)
    from claim_result [OF this] obtain q where q: "q \<in> set (dd_rows (run_deletions cs db))" "dl_sessionId q = sid" "ready_deletion now q" by blast
    have "distinct (map dl_sessionId (dd_rows (run_deletions cs db)))" using run_deletions_ok [OF assms(1)] by (simp add: deletions_ok_def)
    from find_key_distinct [OF this q(1)] row q(2) have "q = r" by (simp add: deletion_of_def)
    with q(3) assms(3,4,6) show False by (simp add: ready_deletion_def holds_claim_def sql_before_def)
  qed
qed

text \<open>A row whose token is another one never gets the token back, unless a claim draws it again.\<close>

lemma lost_step: "del_step c r r' \<Longrightarrow> dl_claimToken r \<noteq> Some t \<Longrightarrow> (\<forall>sid cc n l now. c \<noteq> DClaim t sid cc n l now) \<Longrightarrow> dl_claimToken r' \<noteq> Some t"
  by (induction rule: del_step.induct) (auto simp: row_updates)

lemma settle_fails:
  assumes "deletions_ok db" and "deletion_of sid db = Some r" and "dl_claimToken r \<noteq> Some t"
  shows "\<exists>e. complete_deletion sid t now db = (Inl e, db)" "\<exists>e. fail_deletion sid t m now db = (Inl e, db)"
proof -
  have "\<not> holds_claim sid t q" if "q \<in> set (dd_rows db)" for q
  proof
    assume h: "holds_claim sid t q"
    have "distinct (map dl_sessionId (dd_rows db))" using assms(1) by (simp add: deletions_ok_def)
    from find_key_distinct [OF this that] h assms(2) have "q = r" by (simp add: deletion_of_def holds_claim_def)
    with h assms(3) show False by (simp add: holds_claim_def)
  qed
  then have "find (holds_claim sid t) (dd_rows db) = None" "update_where (holds_claim sid t) f (dd_rows db) = dd_rows db" for f
    by (auto simp: find_None_iff update_where_def intro!: map_idI)
  then have u: "required (update_deletion (holds_claim sid t) f) db = (Inl changed_unexpectedly, db)" for f
    by (simp add: required_def bind_act_def update_deletion_def returning_def throw_def)
  show "\<exists>e. complete_deletion sid t now db = (Inl e, db)" "\<exists>e. fail_deletion sid t m now db = (Inl e, db)"
    by (auto simp: complete_deletion_def fail_deletion_def bind_act_def lift_res_def u split: sum.splits)
qed

text \<open>Remark (a_lost_claim_stays_lost)  A worker whose claim was taken over, or whose deletion was settled, can never
  complete or fail it, however many calls are made in between (unless a claim draws its token a second time).\<close>

theorem a_lost_claim_stays_lost:
  assumes "deletions_ok db" and "deletion_of sid db = Some r" and "dl_claimToken r \<noteq> Some t"
    and "list_all (\<lambda>c. \<forall>s cc n l now. c \<noteq> DClaim t s cc n l now) cs"
  shows "(\<exists>e. complete_deletion sid t now (run_deletions cs db) = (Inl e, run_deletions cs db)) \<and>
    (\<exists>e. fail_deletion sid t m now (run_deletions cs db) = (Inl e, run_deletions cs db))"
proof -
  have "\<exists>r'. deletion_of sid (run_deletions cs db) = Some r' \<and> dl_claimToken r' \<noteq> Some t"
    by (rule run_row [where Q = "\<lambda>r. dl_claimToken r \<noteq> Some t", OF assms(2,3)]) (use assms(4) lost_step in \<open>auto simp: list_all_iff\<close>)
  then obtain r' where "deletion_of sid (run_deletions cs db) = Some r'" "dl_claimToken r' \<noteq> Some t" by blast
  from settle_fails [OF run_deletions_ok [OF assms(1)] this] show ?thesis by blast
qed

lemma completed_step: "del_step c r r' \<Longrightarrow> dl_status r = DelCompleted \<Longrightarrow> r' = r"
  by (induction rule: del_step.induct) (auto simp: ready_deletion_def missing_ready_def holds_claim_def)

text \<open>Remark (completed_deletions_are_final)  No call changes a completed deletion: its sandbox is never claimed again.\<close>

theorem completed_deletions_are_final:
  assumes "deletion_of sid db = Some r" and "dl_status r = DelCompleted"
  shows "deletion_of sid (run_deletions cs db) = Some r"
proof -
  have "\<exists>r'. deletion_of sid (run_deletions cs db) = Some r' \<and> r' = r"
    by (rule run_row [OF assms(1)]) (use assms(2) completed_step in auto)
  then show ?thesis by simp
qed

subsection \<open>The worker's query\<close>

lemma update_returning: "update_deletion P f db = (Inr None, db') \<longleftrightarrow> find P (dd_rows db) = None \<and> db' = db\<lparr>dd_rows := update_where P f (dd_rows db)\<rparr>"
  by (auto simp: update_deletion_def returning_def)

text \<open>The three texts of the condition agree: the query's, the claim's and that of \<^verbatim>\<open>completeMissing\<close>.\<close>

lemma query_ready_is_claimable: "query_ready now r \<longleftrightarrow> ready_deletion now r"
  by (auto simp: query_ready_def ready_deletion_def)

lemma missing_ready_is_claimable: "missing_ready now r \<longleftrightarrow> ready_deletion now r"
  by (auto simp: missing_ready_def ready_deletion_def)

lemma update_takes:
  "(\<exists>d. fst (update_deletion P f db) = Inr (Some d)) \<longleftrightarrow> (\<exists>r \<in> set (dd_rows db). P r)"
proof -
  have "(\<exists>d. fst (update_deletion P f db) = Inr (Some d)) \<longleftrightarrow> find P (dd_rows db) \<noteq> None"
    by (auto simp: update_deletion_def returning_def)
  then show ?thesis unfolding find_None_iff by blast
qed

text \<open>C29 (ready_sessions_are_claimable)  The worker's query and the two updates that act on its answer are three
  SQL texts, in two files.  They select the same rows: at one moment, with room for every row and for a session
  and a container whose identifiers the store accepts (1 to 512 characters) and a lease it accepts (a second to
  fifteen minutes), the query lists a session exactly when a claim of it succeeds, and exactly when completing it
  as missing does.\<close>

theorem ready_sessions_are_claimable:
  assumes "checks [assertText sid ''sessionId'' 512, assertText c ''containerId'' 512, assertText n ''containerName'' 512] = Inr ()"
    and "1000 \<le> lease" and "lease \<le> 900000"
  shows "(sid \<in> set (ready_sessions now (length (dd_rows db)) db) \<longleftrightarrow> (\<exists>d. fst (claim_deletion uuid sid c n (Some lease) now db) = Inr (Some d))) \<and>
    (sid \<in> set (ready_sessions now (length (dd_rows db)) db) \<longleftrightarrow> (\<exists>d. fst (completeMissing sid now db) = Inr (Some d)))"
proof -
  have ok: "assertText sid ''sessionId'' 512 = Inr ()" using assms(1) by (simp add: checks_ok_iff)
  have "length (sort_by ready_order (filter (query_ready now) (dd_rows db))) \<le> length (dd_rows db)"
    by (metis length_filter_le mset_sort_by size_mset)
  then have q: "sid \<in> set (ready_sessions now (length (dd_rows db)) db) \<longleftrightarrow> (\<exists>r \<in> set (dd_rows db). dl_sessionId r = sid \<and> ready_deletion now r)"
    by (auto simp: ready_sessions_def query_ready_is_claimable)
  have "claim_deletion uuid sid c n (Some lease) now db =
      update_deletion (\<lambda>r. dl_sessionId r = sid \<and> ready_deletion now r) (claimed_row uuid lease c n now) db"
    using assms by (simp add: claim_deletion_def bind_act_def lift_res_def)
  moreover have "completeMissing sid now db = update_deletion (\<lambda>r. dl_sessionId r = sid \<and> ready_deletion now r) (missing_row now) db"
    using ok by (simp add: completeMissing_def bind_act_def lift_res_def missing_ready_is_claimable)
  ultimately show ?thesis unfolding q by (simp add: update_takes)
qed

lemma insert_by_map: "(\<And>a b. cmp (f a) (f b) = cmp a b) \<Longrightarrow> insert_by cmp (f x) (map f xs) = map f (insert_by cmp x xs)"
  by (induction xs) auto

lemma sort_by_map: "(\<And>a b. cmp (f a) (f b) = cmp a b) \<Longrightarrow> sort_by cmp (map f xs) = map f (sort_by cmp xs)"
  by (induction xs) (simp_all add: sort_by_def insert_by_map)

lemma ready_sessions_map:
  assumes "\<And>r. dl_notBefore (f r) = dl_notBefore r" and "\<And>r. dl_requestedAt (f r) = dl_requestedAt r" and "\<And>r. dl_sessionId (f r) = dl_sessionId r"
    and "\<And>r. ready_deletion now (f r) = ready_deletion now r"
  shows "ready_sessions now k (db\<lparr>dd_rows := map f (dd_rows db)\<rparr>) = ready_sessions now k db"
proof -
  have "sort_by ready_order (filter (query_ready now) (map f (dd_rows db))) = map f (sort_by ready_order (filter (query_ready now) (dd_rows db)))"
    unfolding filter_map comp_def query_ready_is_claimable assms(4) by (rule sort_by_map) (simp add: ready_order_def assms)
  then show ?thesis by (simp add: ready_sessions_def take_map comp_def assms(3))
qed

lemma claim_success:
  assumes "claim_deletion uuid sid c n l now db = (Inr (Some d), db1)"
  obtains lease where "db1 = db\<lparr>dd_rows := update_where (\<lambda>r. dl_sessionId r = sid \<and> ready_deletion now r) (claimed_row uuid lease c n now) (dd_rows db)\<rparr>"
  using assms by (auto simp: claim_deletion_def bind_act_def lift_res_def Let_def throw_def update_deletion_def split: sum.splits if_splits)

lemma fail_success:
  assumes "fail_deletion sid t m now db = (Inr d, db1)"
  shows "db1 = db\<lparr>dd_rows := update_where (holds_claim sid t) (failed_row (compact_message m) now) (dd_rows db)\<rparr>"
proof (cases "checks [assertText sid ''sessionId'' 512, assertText t ''claimToken'' 512]")
  case (Inl e)
  then show ?thesis using assms by (simp add: fail_deletion_def bind_act_def lift_res_def)
next
  case (Inr u)
  have "db1 = snd (fail_deletion sid t m now db)" using assms by simp
  also have "\<dots> = snd (required (update_deletion (holds_claim sid t) (failed_row (compact_message m) now)) db)"
    unfolding fail_deletion_def lift_bind_snd Inr by simp
  finally show ?thesis by (simp only: required_snd snd_update_deletion)
qed

lemma ready_later: "ready_deletion now r \<Longrightarrow> now \<le> later \<Longrightarrow> ready_deletion later r"
  by (auto simp: ready_deletion_def sql_before_def split: option.splits)

text \<open>Remark (a_failed_deletion_keeps_its_place)  A deletion that was claimed and reported as failed is listed again at
  the same place at once.  The query takes a bounded number from the front, so as many deletions that fail
  every time hold up all later ones.\<close>

theorem a_failed_deletion_keeps_its_place:
  assumes "deletions_ok db" and "claim_deletion uuid sid c n l now db = (Inr (Some d), db1)"
    and "fail_deletion sid uuid m now' db1 = (Inr d', db2)" and "now \<le> later"
  shows "ready_sessions later k db2 = ready_sessions later k db"
proof -
  obtain lease where db1: "db1 = db\<lparr>dd_rows := update_where (\<lambda>r. dl_sessionId r = sid \<and> ready_deletion now r) (claimed_row uuid lease c n now) (dd_rows db)\<rparr>"
    by (rule claim_success [OF assms(2)])
  obtain q where q: "q \<in> set (dd_rows db)" "dl_sessionId q = sid" "ready_deletion now q" using claim_result [OF assms(2)] by blast
  let ?f = "\<lambda>r. if dl_sessionId r = sid \<and> ready_deletion now r then failed_row (compact_message m) now' (claimed_row uuid lease c n now r) else r"
  have key: "distinct (map dl_sessionId (dd_rows db))" using assms(1) by (simp add: deletions_ok_def)
  let ?g = "\<lambda>r. if dl_sessionId r = sid \<and> ready_deletion now r then claimed_row uuid lease c n now r else r"
  have one: "(if holds_claim sid uuid (?g r) then failed_row (compact_message m) now' (?g r) else ?g r) = ?f r" if r: "r \<in> set (dd_rows db)" for r
  proof (cases "dl_sessionId r = sid")
    case True
    from find_key_distinct [OF key r] find_key_distinct [OF key q(1)] True q(2) have "r = q" by simp
    with q have "ready_deletion now r" by simp
    with True show ?thesis by (simp add: holds_claim_def claimed_row_def)
  qed (simp add: holds_claim_def)
  have "dd_rows db2 = map ?f (dd_rows db)"
    unfolding fail_success [OF assms(3)] db1 update_where_def using one by simp
  moreover have "dd_owners db2 = dd_owners db" unfolding fail_success [OF assms(3)] db1 by simp
  ultimately have db2: "db2 = db\<lparr>dd_rows := map ?f (dd_rows db)\<rparr>" by (cases db2) simp
  have ready: "ready_deletion later (?f r) = ready_deletion later r" for r
    using ready_later [OF _ assms(4)] by (auto simp: row_updates ready_deletion_def)
  show ?thesis unfolding db2 by (rule ready_sessions_map) (use ready in \<open>simp_all add: row_updates\<close>)
qed

subsection \<open>Two deletions\<close>

definition demo_owner :: session_owner where
  "demo_owner = \<lparr>ow_issuer = None, ow_principalId = ''p'', ow_principalType = ''user'', ow_tenantId = ''t''\<rparr>"

definition demo_deletion :: "string \<Rightarrow> int \<Rightarrow> deletion" where
  "demo_deletion sid t = requested_row sid demo_owner ''host:user'' ''r'' t t"

definition demo_claimed :: deletion where
  "demo_claimed = claimed_row ''u1'' 1000 ''c'' ''n'' 10 (demo_deletion ''s1'' 1)"

definition demo_deletions :: "deletion \<Rightarrow> deletion_db" where
  "demo_deletions r = \<lparr>dd_owners = [(''s1'', demo_owner), (''s2'', demo_owner)], dd_rows = [r, demo_deletion ''s2'' 2]\<rparr>"

lemma demo_deletions_ok: "deletions_ok (demo_deletions (demo_deletion ''s1'' 1))" "deletions_ok (demo_deletions demo_claimed)"
  "deletions_ok (demo_deletions (completed_row 20 demo_claimed))"
  by (simp_all add: deletions_ok_def demo_deletions_def demo_deletion_def demo_claimed_def requested_row_def row_updates deletion_ok_def demo_owner_def)

lemma demo_of: "dl_sessionId r = ''s1'' \<Longrightarrow> deletion_of ''s1'' (demo_deletions r) = Some r"
  by (simp add: deletion_of_def demo_deletions_def)

lemma demo_claimed_simps: "dl_sessionId demo_claimed = ''s1''" "holds_claim ''s1'' ''u1'' demo_claimed" "dl_claimExpiresAt demo_claimed = Some 1010"
  "dl_claimToken demo_claimed = Some ''u1''"
  by (simp_all add: demo_claimed_def holds_claim_def claimed_row_def demo_deletion_def requested_row_def)

lemma a_lease_excludes_other_workers_witness:
  "deletion_of ''s1'' (run_deletions [DMissing ''s1'' 500, DComplete ''s1'' ''u2'' 600] (demo_deletions demo_claimed)) = Some demo_claimed"
  using a_lease_excludes_other_workers [OF demo_deletions_ok(2) demo_of [OF demo_claimed_simps(1)] demo_claimed_simps(2,3),
    of "[DMissing ''s1'' 500, DComplete ''s1'' ''u2'' 600]" 700] by simp

lemma a_lost_claim_stays_lost_witness:
  "\<exists>e. complete_deletion ''s1'' ''u0'' 2000 (run_deletions [DComplete ''s1'' ''u1'' 600] (demo_deletions demo_claimed)) =
     (Inl e, run_deletions [DComplete ''s1'' ''u1'' 600] (demo_deletions demo_claimed))"
  using a_lost_claim_stays_lost [OF demo_deletions_ok(2) demo_of [OF demo_claimed_simps(1)], of "''u0''" "[DComplete ''s1'' ''u1'' 600]" 2000]
  by (simp add: demo_claimed_simps)

lemma completed_deletions_are_final_witness:
  "deletion_of ''s1'' (run_deletions [DClaim ''u3'' ''s1'' ''c'' ''n'' None 5000, DMissing ''s1'' 6000] (demo_deletions (completed_row 20 demo_claimed))) =
     Some (completed_row 20 demo_claimed)"
  by (rule completed_deletions_are_final [OF demo_of]) (simp_all add: completed_row_def demo_claimed_simps)

lemma ready_sessions_are_claimable_witness:
  "''s1'' \<in> set (ready_sessions 10 2 (demo_deletions (demo_deletion ''s1'' 1))) \<and>
   (\<exists>d. fst (claim_deletion ''u1'' ''s1'' ''c'' ''n'' (Some 1000) 10 (demo_deletions (demo_deletion ''s1'' 1))) = Inr (Some d))"
proof -
  have "''s1'' \<in> set (ready_sessions 10 2 (demo_deletions (demo_deletion ''s1'' 1)))" by code_simp
  moreover have "length (dd_rows (demo_deletions (demo_deletion ''s1'' 1))) = 2" by (simp add: demo_deletions_def)
  moreover have "checks [assertText ''s1'' ''sessionId'' 512, assertText ''c'' ''containerId'' 512, assertText ''n'' ''containerName'' 512] = Inr ()" by code_simp
  ultimately show ?thesis using ready_sessions_are_claimable [of "''s1''" "''c''" "''n''" 1000 10 "demo_deletions (demo_deletion ''s1'' 1)" "''u1''"] by simp
qed

text \<open>With a limit of one, the deletion of the first session is tried again and again, and the second waits.\<close>

lemma a_failed_deletion_keeps_its_place_witness:
  "ready_sessions 30 1 (snd (fail_deletion ''s1'' ''u1'' ''busy'' 20 (snd (claim_deletion ''u1'' ''s1'' ''c'' ''n'' (Some 1000) 10
     (demo_deletions (demo_deletion ''s1'' 1)))))) = [''s1'']"
proof -
  let ?db = "demo_deletions (demo_deletion ''s1'' 1)"
  have c: "claim_deletion ''u1'' ''s1'' ''c'' ''n'' (Some 1000) 10 ?db = (Inr (Some demo_claimed), demo_deletions demo_claimed)" by code_simp
  have f: "fail_deletion ''s1'' ''u1'' ''busy'' 20 (demo_deletions demo_claimed) =
      (Inr (failed_row ''busy'' 20 demo_claimed), demo_deletions (failed_row ''busy'' 20 demo_claimed))" by code_simp
  have "ready_sessions 30 1 (demo_deletions (failed_row ''busy'' 20 demo_claimed)) = ready_sessions 30 1 ?db"
    by (rule a_failed_deletion_keeps_its_place [OF demo_deletions_ok(1) c f]) simp
  also have "\<dots> = [''s1'']" by code_simp
  finally show ?thesis by (simp add: c f)
qed

end
