(* ===== verification/Approval_Theorems.thy ===== *)
theory Approval_Theorems
  imports Approval_Store
begin

section \<open>Properties of the approvals of tool calls\<close>

text \<open>
  What following a stream may do to a store, proved for any store with the laws of the interface and used for
  both providers: a decision is never changed, none is made that the stream does not show, and an answer to
  a known request always decides it.
\<close>

subsection \<open>Decisions of a stream\<close>

definition status_of :: "selection \<Rightarrow> approval_status" where
  "status_of s = (case s of Approve \<Rightarrow> Approved | Reject \<Rightarrow> RejectedApproval)"

text \<open>An event that decides the request of an identity, or of a call.\<close>

definition answers :: "session_event \<Rightarrow> (string \<times> selection) list" where
  "answers e = (if sv_type e = ''message.received'' then List.map_filter answer_of (entries e ''inputResponses'') else [])"

definition decides :: "selection \<Rightarrow> approval \<Rightarrow> session_event \<Rightarrow> bool" where
  "decides s b e \<longleftrightarrow> (ap_requestId b, s) \<in> set (answers e) \<or>
     sv_type e = ''action.result'' \<and> result_call e = Some (ap_toolCallId b) \<and> result_selection e = Some s"

definition justified :: "session_event list \<Rightarrow> approval \<Rightarrow> bool" where
  "justified es b \<longleftrightarrow> ap_status b = Requested \<or> list_ex (\<lambda>e. ap_status b = Approved \<and> decides Approve b e \<or> ap_status b = RejectedApproval \<and> decides Reject b e) es"

text \<open>What may become of an entry: it stays, or it is decided by an event, or it is new.\<close>

fun changes :: "session_event list \<Rightarrow> approval option \<Rightarrow> approval option \<Rightarrow> bool" where
  "changes es None None = True"
| "changes es None (Some b) = justified es b"
| "changes es (Some a) (Some b) \<longleftrightarrow> b = a \<or> ap_status a = Requested \<and> sameRequest b a \<and> justified es b"
| "changes es (Some a) None = False"

lemma changes_refl: "changes es x x"
  by (cases x) simp_all

lemma changes_trans: "changes es x y \<Longrightarrow> changes es y z \<Longrightarrow> changes es x z"
  by (cases x; cases y; cases z) (auto simp: sameRequest_def)

lemma resolved_same: "sameRequest (resolved s u a) a"
  by (simp add: sameRequest_def resolved_def)

lemma sameRequest_refl: "sameRequest a a"
  by (simp add: sameRequest_def)

lemma resolved_simps [simp]:
  "ap_requestId (resolved s u a) = ap_requestId a" "ap_toolCallId (resolved s u a) = ap_toolCallId a"
  "ap_sessionId (resolved s u a) = ap_sessionId a" "ap_status (resolved s u a) = status_of s"
  by (simp_all add: resolved_def status_of_def)

lemma resolved_turn [simp]: "ap_turnId (resolved s u a) = ap_turnId a" "ap_toolName (resolved s u a) = ap_toolName a"
  by (simp_all add: resolved_def)

lemma decides_justified:
  "\<lbrakk>decides s a e; e \<in> set es; sameRequest b a; ap_status b = status_of s\<rbrakk> \<Longrightarrow> justified es b"
  by (cases s) (auto simp: justified_def decides_def list_ex_iff status_of_def sameRequest_def)

lemma requested_status: "requested_approval now session e v = Some a \<Longrightarrow> ap_status a = Requested"
  by (auto simp: requested_approval_def split: option.splits json.splits if_splits)

subsection \<open>The interface\<close>

locale approval_provider =
  fixes store :: "'w approval_store"
    and lookup :: "'w \<Rightarrow> string \<Rightarrow> approval option"
    and inv :: "'w \<Rightarrow> bool"
  assumes lookup_id: "inv w \<Longrightarrow> lookup w i = Some a \<Longrightarrow> ap_requestId a = i"
    and put_inv: "inv w \<Longrightarrow> as_put store a w = (rp, w') \<Longrightarrow> inv w'"
    and put_other: "inv w \<Longrightarrow> as_put store a w = (rp, w') \<Longrightarrow> i \<noteq> ap_requestId a \<Longrightarrow> lookup w' i = lookup w i"
    and put_known: "inv w \<Longrightarrow> as_put store a w = (rp, w') \<Longrightarrow> lookup w (ap_requestId a) = Some e \<Longrightarrow> lookup w' (ap_requestId a) = Some e"
    and put_new: "inv w \<Longrightarrow> as_put store a w = (rp, w') \<Longrightarrow> lookup w (ap_requestId a) = None \<Longrightarrow>
      lookup w' (ap_requestId a) = Some b \<Longrightarrow> ap_status b = ap_status a"
    and put_value: "inv w \<Longrightarrow> as_put store a w = (Inr p, w') \<Longrightarrow> lookup w' (ap_requestId a) = Some p \<and> sameRequest p a"
    and resolve_inv: "inv w \<Longrightarrow> as_resolve store i s t w = (rr, w') \<Longrightarrow> inv w'"
    and resolve_other: "inv w \<Longrightarrow> as_resolve store i s t w = (rr, w') \<Longrightarrow> j \<noteq> i \<Longrightarrow> lookup w' j = lookup w j"
    and resolve_this: "inv w \<Longrightarrow> as_resolve store i s t w = (rr, w') \<Longrightarrow> lookup w' i = lookup w i \<or>
      (\<exists>a b. lookup w i = Some a \<and> ap_status a = Requested \<and> lookup w' i = Some b \<and> sameRequest b a \<and> ap_status b = status_of s)"
    and resolve_value: "inv w \<Longrightarrow> as_resolve store i s t w = (Inr x, w') \<Longrightarrow> x = lookup w' i \<and> (\<forall>a. x = Some a \<longrightarrow> ap_status a \<noteq> Requested)"
    and find_call: "inv w \<Longrightarrow> as_findByToolCall store session call w = (rf, w') \<Longrightarrow> w' = w \<and>
      (\<exists>x. rf = Inr x \<and> (\<forall>a. x = Some a \<longrightarrow> lookup w (ap_requestId a) = Some a \<and> of_call session call a))"
    and list_pending: "inv w \<Longrightarrow> as_listPending store session w = (rl, w') \<Longrightarrow> w' = w \<and>
      (\<exists>as. rl = Inr as \<and> (\<forall>a. a \<in> set as \<longleftrightarrow> lookup w (ap_requestId a) = Some a \<and> pending_in session a))"
begin

text \<open>What holds of the state while a stream is followed from a state \<open>w0\<close>, with and without the map by call.\<close>

definition reached :: "session_event list \<Rightarrow> 'w \<Rightarrow> 'w \<Rightarrow> bool" where
  "reached es w0 w \<longleftrightarrow> inv w \<and> (\<forall>i. changes es (lookup w0 i) (lookup w i))"

definition mapped :: "calls \<Rightarrow> 'w \<Rightarrow> bool" where
  "mapped byCall w \<longleftrightarrow> (\<forall>c a. map_of byCall c = Some a \<longrightarrow> ap_toolCallId a = c \<and> (\<exists>b. lookup w (ap_requestId a) = Some b \<and> ap_toolCallId b = c))"

lemma mapped_set:
  "\<lbrakk>mapped m w; ap_toolCallId p = c; lookup w (ap_requestId p) = Some b; ap_toolCallId b = c\<rbrakk> \<Longrightarrow> mapped (map_set c p m) w"
  by (auto simp: mapped_def map_of_map_set)

lemma mapped_keep:
  assumes "mapped m w" and "\<And>i. changes es (lookup w i) (lookup w' i)"
  shows "mapped m w'"
  unfolding mapped_def
proof (intro allI impI)
  fix c a assume "map_of m c = Some a"
  with assms(1) obtain b where b: "ap_toolCallId a = c" "lookup w (ap_requestId a) = Some b" "ap_toolCallId b = c" by (auto simp: mapped_def)
  with assms(2) [of "ap_requestId a"] show "ap_toolCallId a = c \<and> (\<exists>b. lookup w' (ap_requestId a) = Some b \<and> ap_toolCallId b = c)"
    by (cases "lookup w' (ap_requestId a)") (auto simp: sameRequest_def)
qed

lemma reached_step: "\<lbrakk>reached es w0 w; inv w'; \<And>i. changes es (lookup w i) (lookup w' i)\<rbrakk> \<Longrightarrow> reached es w0 w'"
  unfolding reached_def by (blast intro: changes_trans)

lemma put_changes:
  assumes "inv w" and "as_put store a w = (r, w')" and "ap_status a = Requested"
  shows "changes es (lookup w i) (lookup w' i)"
proof (cases "i = ap_requestId a")
  case True
  show ?thesis
  proof (cases "lookup w i")
    case None
    then show ?thesis using put_new [OF assms(1,2)] assms(3) True by (cases "lookup w' i") (auto simp: justified_def)
  next
    case (Some e)
    then show ?thesis using put_known [OF assms(1,2)] True by (simp add: changes_refl)
  qed
qed (simp add: put_other [OF assms(1,2)] changes_refl)

lemma resolve_changes:
  assumes "inv w" and "as_resolve store i s t w = (r, w')" and "\<And>a. lookup w i = Some a \<Longrightarrow> \<exists>e \<in> set es. decides s a e"
  shows "changes es (lookup w j) (lookup w' j)"
proof (cases "j = i")
  case True
  from resolve_this [OF assms(1,2)] show ?thesis
  proof
    assume "\<exists>a b. lookup w i = Some a \<and> ap_status a = Requested \<and> lookup w' i = Some b \<and> sameRequest b a \<and> ap_status b = status_of s"
    then obtain a b where a: "lookup w i = Some a" "ap_status a = Requested" "lookup w' i = Some b" "sameRequest b a" "ap_status b = status_of s"
      by blast
    from assms(3) [OF a(1)] obtain e where "e \<in> set es" "decides s a e" by blast
    with a decides_justified show ?thesis using True by simp
  qed (simp add: True changes_refl)
qed (simp add: resolve_other [OF assms(1,2)] changes_refl)

text \<open>Each step of the stream keeps both.\<close>

definition following :: "session_event list \<Rightarrow> 'w \<Rightarrow> calls \<Rightarrow> 'w \<Rightarrow> bool" where
  "following es w0 byCall w \<longleftrightarrow> reached es w0 w \<and> mapped byCall w"

lemma put_triple:
  assumes "ap_status a = Requested"
  shows "triple (following es w0 m) (as_put store a) (\<lambda>p. following es w0 (map_set (ap_toolCallId a) p m)) (\<lambda>_. reached es w0)"
proof (rule tripleI)
  fix w p w' assume f: "following es w0 m w" and c: "as_put store a w = (Inr p, w')"
  then have inv: "inv w" by (simp add: following_def reached_def)
  note ch = put_changes [OF inv c assms, of es]
  have "reached es w0 w'" using f put_inv [OF inv c] ch by (auto simp: following_def intro: reached_step)
  moreover have "mapped m w'" using f ch by (auto simp: following_def intro: mapped_keep)
  then have "mapped (map_set (ap_toolCallId a) p m) w'"
    by (rule mapped_set [where b = p]) (use put_value [OF inv c] in \<open>simp_all add: sameRequest_def\<close>)
  ultimately show "following es w0 (map_set (ap_toolCallId a) p m) w'" by (simp add: following_def)
next
  fix w e w' assume f: "following es w0 m w" and c: "as_put store a w = (Inl e, w')"
  then have inv: "inv w" by (simp add: following_def reached_def)
  show "reached es w0 w'"
    using f put_inv [OF inv c] put_changes [OF inv c assms, of es] by (auto simp: following_def intro: reached_step)
qed

text \<open>A resolution the events justify; \<open>C\<close> holds of the call of the request, when it is known.\<close>

lemma resolve_triple:
  assumes f: "\<And>w. P w \<Longrightarrow> following es w0 m w"
    and d: "\<And>w a. P w \<Longrightarrow> lookup w i = Some a \<Longrightarrow> \<exists>e \<in> set es. decides s a e"
    and k: "\<And>w call. P w \<Longrightarrow> C call \<Longrightarrow> \<exists>b. lookup w i = Some b \<and> ap_toolCallId b = call"
  shows "triple P (as_resolve store i s t)
    (\<lambda>x w. following es w0 m w \<and> x = lookup w i \<and> (\<forall>b. x = Some b \<longrightarrow> ap_requestId b = i) \<and>
       (\<forall>call. C call \<longrightarrow> (\<exists>b. lookup w i = Some b \<and> ap_toolCallId b = call))) (\<lambda>_. reached es w0)"
proof (rule tripleI)
  fix w x w' assume w: "P w" and c: "as_resolve store i s t w = (Inr x, w')"
  then have inv: "inv w" using f by (simp add: following_def reached_def)
  note ch = resolve_changes [OF inv c d [OF w]]
  have "reached es w0 w'" using f [OF w] resolve_inv [OF inv c] ch by (auto simp: following_def intro: reached_step)
  moreover have "mapped m w'" using f [OF w] ch by (auto simp: following_def intro: mapped_keep)
  moreover have "\<exists>b. lookup w' i = Some b \<and> ap_toolCallId b = call" if "C call" for call
    using k [OF w that] ch [of i] by (cases "lookup w' i") (auto simp: sameRequest_def)
  ultimately show "following es w0 m w' \<and> x = lookup w' i \<and> (\<forall>b. x = Some b \<longrightarrow> ap_requestId b = i) \<and>
      (\<forall>call. C call \<longrightarrow> (\<exists>b. lookup w' i = Some b \<and> ap_toolCallId b = call))"
    using resolve_value [OF inv c] lookup_id [OF resolve_inv [OF inv c]] by (simp add: following_def)
next
  fix w e w' assume w: "P w" and c: "as_resolve store i s t w = (Inl e, w')"
  then have inv: "inv w" using f by (simp add: following_def reached_def)
  show "reached es w0 w'"
    using f [OF w] resolve_inv [OF inv c] resolve_changes [OF inv c d [OF w]] by (auto simp: following_def intro: reached_step)
qed

lemma following_set:
  "\<lbrakk>following es w0 m w; lookup w (ap_requestId b) = Some b; ap_toolCallId b = c\<rbrakk> \<Longrightarrow> following es w0 (map_set c b m) w"
  by (auto simp: following_def intro: mapped_set)

lemma requests_triple:
  "list_all (\<lambda>a. ap_status a = Requested) as \<Longrightarrow>
   triple (following es w0 m) (each_request store as m) (\<lambda>m'. following es w0 m') (\<lambda>_. reached es w0)"
proof (induction as arbitrary: m)
  case Nil
  show ?case by (simp add: triple_ret)
next
  case (Cons a as)
  show ?case unfolding each_request.simps
    by (rule triple_bind [OF put_triple]) (use Cons in simp_all)
qed

lemma answers_triple:
  "\<lbrakk>e \<in> set es; set as \<subseteq> set (answers e)\<rbrakk> \<Longrightarrow>
   triple (following es w0 m) (each_answer store t as m) (\<lambda>m'. following es w0 m') (\<lambda>_. reached es w0)"
proof (induction as arbitrary: m)
  case Nil
  show ?case by (simp add: triple_ret)
next
  case (Cons p as)
  obtain i s where p: "p = (i, s)" by (cases p)
  have d: "\<exists>e \<in> set es. decides s a e" if "following es w0 m w" "lookup w i = Some a" for w a
    using Cons.prems lookup_id [OF _ that(2)] that(1) by (auto simp: p decides_def following_def reached_def)
  have step: "triple (following es w0 m) (as_resolve store i s t)
      (\<lambda>x w. following es w0 m w \<and> x = lookup w i \<and> (\<forall>b. x = Some b \<longrightarrow> ap_requestId b = i)) (\<lambda>_. reached es w0)"
    by (rule triple_weaken [OF resolve_triple [where C = "\<lambda>_. False" and P = "following es w0 m", OF _ d]]) auto
  have rest: "triple (\<lambda>w. following es w0 m w \<and> x = lookup w i \<and> (\<forall>b. x = Some b \<longrightarrow> ap_requestId b = i))
      (each_answer store t as (case x of None \<Rightarrow> m | Some a \<Rightarrow> map_set (ap_toolCallId a) a m)) (following es w0) (\<lambda>_. reached es w0)" for x
    by (rule triple_weaken [OF Cons.IH]) (use Cons.prems in \<open>auto split: option.splits intro: following_set\<close>)
  show ?case unfolding p each_answer.simps by (rule triple_bind [OF step rest])
qed

lemma result_triple:
  assumes "e \<in> set es" and "sv_type e = ''action.result''"
  shows "triple (following es w0 m) (sync_result store session e m) (\<lambda>m'. following es w0 m') (\<lambda>_. reached es w0)"
proof (cases "result_call e")
  case None
  then show ?thesis by (simp add: sync_result_def triple_ret)
next
  case (Some call)
  let ?found = "\<lambda>x w. following es w0 m w \<and> (\<forall>a. x = Some a \<longrightarrow> ap_toolCallId a = call \<and>
      (\<exists>b. lookup w (ap_requestId a) = Some b \<and> ap_toolCallId b = call))"
  have find: "triple (following es w0 m) (case map_of m call of Some a \<Rightarrow> ret (Some a) | None \<Rightarrow> as_findByToolCall store session call)
      ?found (\<lambda>_. reached es w0)"
  proof (cases "map_of m call")
    case None
    have "triple (following es w0 m) (as_findByToolCall store session call) ?found (\<lambda>_. reached es w0)"
    proof (rule tripleI)
      fix w x w' assume f: "following es w0 m w" and c: "as_findByToolCall store session call w = (Inr x, w')"
      then have "inv w" by (simp add: following_def reached_def)
      from find_call [OF this c] f show "?found x w'" by (auto simp: of_call_def)
    next
      fix w e w' assume f: "following es w0 m w" and c: "as_findByToolCall store session call w = (Inl e, w')"
      then have "inv w" by (simp add: following_def reached_def)
      from find_call [OF this c] f show "reached es w0 w'" by auto
    qed
    then show ?thesis by (simp add: None)
  next
    case (Some a)
    then show ?thesis by (auto intro!: triple_ret simp: following_def mapped_def)
  qed
  have keep: "triple (?found x) (ret m) (following es w0) (\<lambda>_. reached es w0)" for x by (rule triple_ret) simp
  have resolve: "triple (?found (Some a)) (bind_act (as_resolve store (ap_requestId a) s t)
      (\<lambda>r. ret (case r of None \<Rightarrow> m | Some b \<Rightarrow> map_set (ap_toolCallId a) b m))) (following es w0) (\<lambda>_. reached es w0)"
    if sel: "result_selection e = Some s" for a s t
  proof -
    have d: "\<exists>e \<in> set es. decides s b e" if "?found (Some a) w" "lookup w (ap_requestId a) = Some b" for w b
    proof -
      from that have "ap_toolCallId b = call" by simp
      with assms Some sel show ?thesis by (auto simp: decides_def)
    qed
    let ?R = "\<lambda>x w. following es w0 m w \<and> x = lookup w (ap_requestId a) \<and> (\<forall>b. x = Some b \<longrightarrow> ap_requestId b = ap_requestId a) \<and>
      (\<exists>b. lookup w (ap_requestId a) = Some b \<and> ap_toolCallId b = ap_toolCallId a)"
    have step: "triple (?found (Some a)) (as_resolve store (ap_requestId a) s t) ?R (\<lambda>_. reached es w0)"
      by (rule triple_weaken [OF resolve_triple [where C = "\<lambda>c. c = ap_toolCallId a" and P = "?found (Some a)", OF _ d]]) auto
    have rest: "triple (?R x) (ret (case x of None \<Rightarrow> m | Some b \<Rightarrow> map_set (ap_toolCallId a) b m)) (following es w0) (\<lambda>_. reached es w0)" for x
      by (rule triple_ret) (auto split: option.splits intro: following_set)
    show ?thesis by (rule triple_bind [OF step rest])
  qed
  show ?thesis
    unfolding sync_result_def Some option.case
  proof (rule triple_bind [OF find])
    fix x
    show "triple (?found x) (case x of None \<Rightarrow> ret m | Some a \<Rightarrow> if ap_status a \<noteq> Requested then ret m
        else (case result_selection e of None \<Rightarrow> ret m | Some s \<Rightarrow> bind_act (as_resolve store (ap_requestId a) s (metaAt e))
          (\<lambda>r. ret (case r of None \<Rightarrow> m | Some b \<Rightarrow> map_set (ap_toolCallId a) b m)))) (following es w0) (\<lambda>_. reached es w0)"
    proof (cases x)
      case None
      then show ?thesis using keep [of x] by simp
    next
      case (Some a)
      show ?thesis
      proof (cases "result_selection e")
        case None
        then show ?thesis using keep [of x] by (simp add: Some)
      next
        case sel: (Some s)
        show ?thesis unfolding Some option.case sel using keep [of "Some a"] resolve [OF sel, of a "metaAt e"] by (cases "ap_status a \<noteq> Requested") presburger+
      qed
    qed
  qed
qed

lemma event_triple:
  assumes "e \<in> set es"
  shows "triple (following es w0 m) (sync_event store now session e m) (following es w0) (\<lambda>_. reached es w0)"
  unfolding sync_event_def
proof (split if_split, intro conjI impI)
  show "triple (following es w0 m) (each_request store (List.map_filter (requested_approval now session e) (entries e ''requests'')) m)
      (following es w0) (\<lambda>_. reached es w0)"
    by (rule requests_triple) (auto simp: list_all_iff List.map_filter_def dest: requested_status)
next
  assume "sv_type e \<noteq> ''input.requested''"
  show "triple (following es w0 m)
      (if sv_type e = ''message.received'' then each_answer store (metaAt e) (List.map_filter answer_of (entries e ''inputResponses'')) m
       else if sv_type e = ''action.result'' then sync_result store session e m else ret m) (following es w0) (\<lambda>_. reached es w0)"
    using answers_triple [OF assms] result_triple [OF assms] by (auto simp: answers_def intro: triple_ret)
qed

lemma events_triple:
  "set ds \<subseteq> set es \<Longrightarrow> triple (following es w0 m) (sync_events store now session ds m) (\<lambda>_. reached es w0) (\<lambda>_. reached es w0)"
proof (induction ds arbitrary: m)
  case Nil
  show ?case unfolding sync_events.simps by (rule triple_ret) (simp add: following_def)
next
  case (Cons d ds)
  show ?case unfolding sync_events.simps
    by (rule triple_bind [OF event_triple]) (use Cons in simp_all)
qed

lemma empty_mapped: "mapped [] w"
  by (simp add: mapped_def)

lemma pending_mapped:
  "(\<And>a. a \<in> set as \<Longrightarrow> lookup w (ap_requestId a) = Some a) \<Longrightarrow> mapped m w \<Longrightarrow> mapped (foldl (\<lambda>m a. map_set (ap_toolCallId a) a m) m as) w"
  by (induction as arbitrary: m) (simp_all add: mapped_set)

text \<open>What a whole stream does, and what it returns.\<close>

lemma sync_triple:
  assumes "inv w0"
  shows "triple (\<lambda>w. w = w0) (syncAgentSessionApprovalsFromEvents store now session es)
    (\<lambda>as w. reached es w0 w \<and> (\<forall>a. a \<in> set as \<longleftrightarrow> lookup w (ap_requestId a) = Some a \<and> pending_in session a)) (\<lambda>_. reached es w0)"
  unfolding syncAgentSessionApprovalsFromEvents_def
proof (rule triple_bind)
  let ?P = "\<lambda>as w. w = w0 \<and> (\<forall>a. a \<in> set as \<longleftrightarrow> lookup w (ap_requestId a) = Some a \<and> pending_in session a)"
  have r0: "reached es w0 w0" using assms by (simp add: reached_def changes_refl)
  show "triple (\<lambda>w. w = w0) (as_listPending store session) ?P (\<lambda>_. reached es w0)"
    by (rule tripleI) (use assms r0 list_pending in \<open>fastforce+\<close>)
  fix as
  have "triple (?P as) (sync_events store now session es (foldl (\<lambda>m a. map_set (ap_toolCallId a) a m) [] as))
      (\<lambda>_. reached es w0) (\<lambda>_. reached es w0)"
    by (rule triple_weaken [OF events_triple]) (auto simp: following_def r0 intro!: pending_mapped empty_mapped)
  then show "triple (?P as) (bind_act (sync_events store now session es (foldl (\<lambda>m a. map_set (ap_toolCallId a) a m) [] as))
      (\<lambda>_. as_listPending store session))
      (\<lambda>as w. reached es w0 w \<and> (\<forall>a. a \<in> set as \<longleftrightarrow> lookup w (ap_requestId a) = Some a \<and> pending_in session a)) (\<lambda>_. reached es w0)"
  proof (rule triple_bind)
    show "triple (reached es w0) (as_listPending store session)
      (\<lambda>as w. reached es w0 w \<and> (\<forall>a. a \<in> set as \<longleftrightarrow> lookup w (ap_requestId a) = Some a \<and> pending_in session a)) (\<lambda>_. reached es w0)"
      by (rule tripleI) (use list_pending in \<open>fastforce simp: reached_def\<close>)+
  qed
qed

text \<open>The state a stream ends in, whether it is followed to the end or not.\<close>

lemma sync_reached: "inv w \<Longrightarrow> syncAgentSessionApprovalsFromEvents store now session es w = (r, w') \<Longrightarrow> reached es w w'"
  by (cases r) (auto dest: tripleD [OF sync_triple] tripleE [OF sync_triple])

lemma sync_changes:
  "inv w \<Longrightarrow> syncAgentSessionApprovalsFromEvents store now session es w = (r, w') \<Longrightarrow> changes es (lookup w i) (lookup w' i)"
  using sync_reached by (auto simp: reached_def)

lemma sync_pending:
  "inv w \<Longrightarrow> syncAgentSessionApprovalsFromEvents store now session es w = (Inr as, w') \<Longrightarrow>
   a \<in> set as \<longleftrightarrow> lookup w' (ap_requestId a) = Some a \<and> pending_in session a"
  using tripleD [OF sync_triple] by blast

text \<open>A request that is decided stays decided; an answer decides it.\<close>

definition decided :: "string \<Rightarrow> 'w \<Rightarrow> bool" where
  "decided i w \<longleftrightarrow> (\<exists>b. lookup w i = Some b \<and> ap_status b \<noteq> Requested)"

lemma decided_keep: "changes es (lookup w i) (lookup w' i) \<Longrightarrow> decided i w \<Longrightarrow> decided i w'"
  by (cases "lookup w' i") (auto simp: decided_def)

lemma known_keep: "changes es (lookup w i) (lookup w' i) \<Longrightarrow> lookup w i = Some a \<Longrightarrow> \<exists>b. lookup w' i = Some b"
  by (cases "lookup w' i") auto

lemma restart: "following es w0 m w \<Longrightarrow> following es w m w"
  by (simp add: following_def reached_def changes_refl)

lemma answer_step:
  assumes "following es w m w" and "e \<in> set es" and "(i, s) \<in> set (answers e)" and "as_resolve store i s t w = (Inr x, w')"
  shows "following es w' (case x of None \<Rightarrow> m | Some a \<Rightarrow> map_set (ap_toolCallId a) a m) w' \<and> (\<forall>j. changes es (lookup w j) (lookup w' j)) \<and>
    (lookup w i \<noteq> None \<longrightarrow> decided i w')"
proof -
  have inv: "inv w" using assms(1) by (simp add: following_def reached_def)
  have d: "\<exists>e \<in> set es. decides s a e" if "following es w m v" "lookup v i = Some a" for v a
    using assms(2,3) lookup_id [OF _ that(2)] that(1) by (auto simp: decides_def following_def reached_def)
  have t: "triple (following es w m) (as_resolve store i s t)
      (\<lambda>x v. following es w m v \<and> x = lookup v i \<and> (\<forall>b. x = Some b \<longrightarrow> ap_requestId b = i) \<and>
       (\<forall>call. False \<longrightarrow> (\<exists>b. lookup v i = Some b \<and> ap_toolCallId b = call))) (\<lambda>_. reached es w)"
    by (rule resolve_triple [where C = "\<lambda>_. False" and P = "following es w m", OF _ d]) simp_all
  from tripleD [OF t assms(1,4)] have f: "following es w m w'" and x: "x = lookup w' i" "\<forall>b. x = Some b \<longrightarrow> ap_requestId b = i" by simp_all
  from f have ch: "\<forall>j. changes es (lookup w j) (lookup w' j)" by (simp add: following_def reached_def)
  have "following es w (case x of None \<Rightarrow> m | Some a \<Rightarrow> map_set (ap_toolCallId a) a m) w'"
    using f x by (auto split: option.splits intro: following_set)
  moreover have "decided i w'" if "lookup w i \<noteq> None"
  proof -
    from that known_keep ch obtain b where "lookup w' i = Some b" by blast
    with resolve_value [OF inv assms(4)] x show ?thesis by (simp add: decided_def)
  qed
  ultimately show ?thesis using ch restart by blast
qed

lemma each_answer_decides:
  "\<lbrakk>following es w m w; e \<in> set es; set as \<subseteq> set (answers e); i \<in> fst ` set as; lookup w i \<noteq> None;
    each_answer store t as m w = (Inr m', w')\<rbrakk> \<Longrightarrow> decided i w'"
proof (induction as arbitrary: m w)
  case (Cons p as)
  obtain j s where p: "p = (j, s)" by (cases p)
  let ?m = "\<lambda>x. case x of None \<Rightarrow> m | Some a \<Rightarrow> map_set (ap_toolCallId a) a m"
  obtain x v where r: "as_resolve store j s t w = (Inr x, v)" and rest: "each_answer store t as (?m x) v = (Inr m', w')"
    using Cons.prems(6) by (cases "as_resolve store j s t w"; cases "fst (as_resolve store j s t w)") (auto simp: p bind_act_def)
  have ps: "(j, s) \<in> set (answers e)" and sub: "set as \<subseteq> set (answers e)" using Cons.prems(3) by (auto simp: p)
  from answer_step [OF Cons.prems(1,2) ps r] have f: "following es v (?m x) v" and ch: "\<forall>i. changes es (lookup w i) (lookup v i)"
    and dec: "lookup w j \<noteq> None \<longrightarrow> decided j v" by blast+
  show ?case
  proof (cases "i = j")
    case True
    from tripleD [OF answers_triple [OF Cons.prems(2) sub] f rest] have "changes es (lookup v i) (lookup w' i)"
      by (simp add: following_def reached_def)
    with dec Cons.prems(5) True decided_keep show ?thesis by blast
  next
    case False
    from Cons.prems(5) ch known_keep have "lookup v i \<noteq> None" by blast
    moreover have "i \<in> fst ` set as" using Cons.prems(4) False by (simp add: p)
    ultimately show ?thesis using Cons.IH [OF f Cons.prems(2) sub _ _ rest] by blast
  qed
qed simp

lemma sync_events_decides:
  "\<lbrakk>following es w m w; set ds \<subseteq> set es; d \<in> set ds; i \<in> fst ` set (answers d); lookup w i \<noteq> None;
    sync_events store now session ds m w = (Inr m', w')\<rbrakk> \<Longrightarrow> decided i w'"
proof (induction ds arbitrary: m w)
  case (Cons e ds)
  obtain m1 v where r: "sync_event store now session e m w = (Inr m1, v)" and rest: "sync_events store now session ds m1 v = (Inr m', w')"
    using Cons.prems(6) by (cases "sync_event store now session e m w"; cases "fst (sync_event store now session e m w)") (auto simp: bind_act_def)
  have e: "e \<in> set es" and ds: "set ds \<subseteq> set es" using Cons.prems(2) by simp_all
  from tripleD [OF event_triple [OF e] Cons.prems(1) r] have fv: "following es w m1 v" .
  then have f: "following es v m1 v" and ch: "\<forall>i. changes es (lookup w i) (lookup v i)" using restart by (auto simp: following_def reached_def)
  show ?case
  proof (cases "i \<in> fst ` set (answers e)")
    case True
    then have "answers e \<noteq> []" by auto
    then have "each_answer store (metaAt e) (answers e) m w = (Inr m1, v)"
      using r by (auto simp: sync_event_def answers_def split: if_splits)
    from each_answer_decides [OF Cons.prems(1) e subset_refl True Cons.prems(5) this] have "decided i v" .
    moreover from tripleD [OF events_triple [OF ds] f rest] have "changes es (lookup v i) (lookup w' i)" by (simp add: reached_def)
    ultimately show ?thesis using decided_keep by blast
  next
    case False
    with Cons.prems(3,4) have "d \<in> set ds" by auto
    moreover from Cons.prems(5) ch known_keep have "lookup v i \<noteq> None" by blast
    ultimately show ?thesis using Cons.IH [OF f ds _ Cons.prems(4) _ rest] by blast
  qed
qed simp

lemma sync_decides:
  assumes "inv w" and "d \<in> set es" and "i \<in> fst ` set (answers d)" and "lookup w i = Some a"
    and run: "syncAgentSessionApprovalsFromEvents store now session es w = (Inr as, w')"
  shows "\<exists>b. lookup w' i = Some b \<and> ap_status b \<noteq> Requested"
proof -
  obtain p where p: "as_listPending store session w = (Inr p, w)" "\<forall>a. a \<in> set p \<longleftrightarrow> lookup w (ap_requestId a) = Some a \<and> pending_in session a"
    using list_pending [OF assms(1)] by (cases "as_listPending store session w") blast
  let ?m = "foldl (\<lambda>m a. map_set (ap_toolCallId a) a m) [] p"
  obtain m' v where s: "sync_events store now session es ?m w = (Inr m', v)" and l: "as_listPending store session v = (Inr as, w')"
    using run p(1) unfolding syncAgentSessionApprovalsFromEvents_def
    by (cases "sync_events store now session es ?m w"; cases "fst (sync_events store now session es ?m w)") (auto simp: bind_act_def)
  have f: "following es w ?m w" using assms(1) p(2)
    by (auto simp: following_def reached_def changes_refl intro!: pending_mapped empty_mapped)
  from tripleD [OF events_triple [OF subset_refl] f s] have "inv v" by (simp add: reached_def)
  with list_pending l have "w' = v" by blast
  with sync_events_decides [OF f subset_refl assms(2,3) _ s] assms(4) show ?thesis by (simp add: decided_def)
qed

end

subsection \<open>The map in memory provides it\<close>

definition map_ok :: "approval_map \<Rightarrow> bool" where
  "map_ok m \<longleftrightarrow> distinct (map fst m) \<and> list_all (\<lambda>(k, a). ap_requestId a = k) m"

lemma map_ok_lookup: "map_ok m \<Longrightarrow> map_of m i = Some a \<Longrightarrow> ap_requestId a = i"
  by (auto simp: map_ok_def list_all_iff dest!: map_of_SomeD)

lemma map_ok_value: "map_ok m \<Longrightarrow> a \<in> snd ` set m \<longleftrightarrow> map_of m (ap_requestId a) = Some a"
  by (force simp: map_ok_def list_all_iff dest: map_of_SomeD)

lemma map_ok_set: "map_ok m \<Longrightarrow> ap_requestId a = i \<Longrightarrow> map_ok (map_set i a m)"
  by (auto simp: map_ok_def keys_map_set list_all_iff dest!: map_set_entry)

interpretation memory: approval_provider "memory_approvals lc now" map_of map_ok for lc now
proof
  fix m i a show "map_ok m \<Longrightarrow> map_of m i = Some a \<Longrightarrow> ap_requestId a = i" by (rule map_ok_lookup)
next
  fix m a r m' assume "map_ok m" "as_put (memory_approvals lc now) a m = (r, m')"
  then show "map_ok m'" by (auto simp: memory_approvals_def mem_put_def intro: map_ok_set dest: map_ok_lookup split: option.splits if_splits)
next
  fix m a r m' i assume "map_ok m" "as_put (memory_approvals lc now) a m = (r, m')" "i \<noteq> ap_requestId a"
  then show "map_of m' i = map_of m i" by (auto simp: memory_approvals_def mem_put_def map_of_map_set split: option.splits if_splits)
next
  fix m a r m' e assume "map_ok m" "as_put (memory_approvals lc now) a m = (r, m')" "map_of m (ap_requestId a) = Some e"
  then show "map_of m' (ap_requestId a) = Some e" by (auto simp: memory_approvals_def mem_put_def map_of_map_set split: option.splits if_splits)
next
  fix m a r m' b assume "map_ok m" "as_put (memory_approvals lc now) a m = (r, m')" "map_of m (ap_requestId a) = None" "map_of m' (ap_requestId a) = Some b"
  then show "ap_status b = ap_status a" by (auto simp: memory_approvals_def mem_put_def map_of_map_set)
next
  fix m a p m' assume "map_ok m" "as_put (memory_approvals lc now) a m = (Inr p, m')"
  then show "map_of m' (ap_requestId a) = Some p \<and> sameRequest p a"
    by (auto simp: memory_approvals_def mem_put_def map_of_map_set sameRequest_refl split: option.splits if_splits)
next
  fix m i s t r m' assume "map_ok m" "as_resolve (memory_approvals lc now) i s t m = (r, m')"
  then show "map_ok m'" by (auto simp: memory_approvals_def mem_resolve_def Let_def intro!: map_ok_set dest: map_ok_lookup split: option.splits if_splits)
next
  fix m i s t r m' j assume "map_ok m" "as_resolve (memory_approvals lc now) i s t m = (r, m')" "j \<noteq> i"
  then show "map_of m' j = map_of m j" by (auto simp: memory_approvals_def mem_resolve_def Let_def map_of_map_set split: option.splits if_splits)
next
  fix m i s t r m' assume "map_ok m" "as_resolve (memory_approvals lc now) i s t m = (r, m')"
  then show "map_of m' i = map_of m i \<or> (\<exists>a b. map_of m i = Some a \<and> ap_status a = Requested \<and> map_of m' i = Some b \<and> sameRequest b a \<and> ap_status b = status_of s)"
    by (auto simp: memory_approvals_def mem_resolve_def Let_def map_of_map_set resolved_same split: option.splits if_splits)
next
  fix m i s t x m' assume "map_ok m" "as_resolve (memory_approvals lc now) i s t m = (Inr x, m')"
  then show "x = map_of m' i \<and> (\<forall>a. x = Some a \<longrightarrow> ap_status a \<noteq> Requested)"
    by (cases s) (auto simp: memory_approvals_def mem_resolve_def Let_def map_of_map_set status_of_def split: option.splits if_splits)
next
  fix m session call r m' assume "map_ok m" "as_findByToolCall (memory_approvals lc now) session call m = (r, m')"
  then show "m' = m \<and> (\<exists>x. r = Inr x \<and> (\<forall>a. x = Some a \<longrightarrow> map_of m (ap_requestId a) = Some a \<and> of_call session call a))"
    by (auto simp: memory_approvals_def mem_findByToolCall_def find_Some_iff map_ok_value [symmetric])
next
  fix m session r m' assume "map_ok m" "as_listPending (memory_approvals lc now) session m = (r, m')"
  then show "m' = m \<and> (\<exists>as. r = Inr as \<and> (\<forall>a. a \<in> set as \<longleftrightarrow> map_of m (ap_requestId a) = Some a \<and> pending_in session a))"
    by (auto simp: memory_approvals_def mem_listPending_def set_sort_by map_ok_value [symmetric])
qed

subsection \<open>The table provides it\<close>

definition row_at :: "approval list \<Rightarrow> string \<Rightarrow> approval option" where
  "row_at rows i = map_option toApproval (with_id i rows)"

definition table_ok :: "approval list \<Rightarrow> bool" where
  "table_ok rows \<longleftrightarrow> distinct (map ap_requestId rows)"

lemma toApproval_simps [simp]:
  "ap_requestId (toApproval r) = ap_requestId r" "ap_status (toApproval r) = ap_status r" "ap_sessionId (toApproval r) = ap_sessionId r"
  "ap_toolCallId (toApproval r) = ap_toolCallId r" "ap_toolName (toApproval r) = ap_toolName r" "ap_turnId (toApproval r) = truthy (ap_turnId r)"
  by (simp_all add: toApproval_def)

lemma with_id_SomeD: "with_id i rows = Some r \<Longrightarrow> r \<in> set rows \<and> ap_requestId r = i"
  by (auto simp: with_id_def find_Some_iff)

lemma with_id_None: "with_id i rows = None \<longleftrightarrow> i \<notin> ap_requestId ` set rows"
  by (auto simp: with_id_def find_None_iff)

lemma with_id_row: "table_ok rows \<Longrightarrow> r \<in> set rows \<Longrightarrow> with_id (ap_requestId r) rows = Some r"
  by (induction rows) (auto simp: table_ok_def with_id_def)

lemma with_id_append: "with_id i (rows @ [r]) = (case with_id i rows of Some x \<Rightarrow> Some x | None \<Rightarrow> if ap_requestId r = i then Some r else None)"
  by (induction rows) (auto simp: with_id_def)

lemma with_id_map: "(\<And>r. ap_requestId (f r) = ap_requestId r) \<Longrightarrow> with_id i (map f rows) = map_option f (with_id i rows)"
  by (induction rows) (auto simp: with_id_def)

lemma stored_row_same: "stored_row to_time a = Inr r \<Longrightarrow> ap_requestId r = ap_requestId a \<and> ap_status r = ap_status a"
  by (auto simp: stored_row_def split: sum.splits option.splits)

lemma row_at_same: "table_ok rows \<Longrightarrow> r \<in> set rows \<Longrightarrow> row_at rows (ap_requestId (toApproval r)) = Some (toApproval r)"
  by (simp add: row_at_def with_id_row)

text \<open>The cases of a write, and what a resolution does to a row.\<close>

lemma sql_put_cases:
  assumes "sql_put to_time a rows = (r, rows')"
  obtains (refused) e where "r = Inl e" "rows' = rows"
  | (known) row where "with_id (ap_requestId a) rows = Some row" "rows' = rows"
      "r = (if sameRequest (toApproval row) a then Inr (toApproval row) else Inl already_bound)"
  | (new) row where "with_id (ap_requestId a) rows = None" "rows' = rows @ [row]" "ap_requestId row = ap_requestId a" "ap_status row = ap_status a"
      "r = (if sameRequest (toApproval row) a then Inr (toApproval row) else Inl already_bound)"
proof (cases "assertApprovalRequest a")
  case (Inl e)
  with assms have "r = Inl e" "rows' = rows" by (simp_all add: sql_put_def)
  then show ?thesis by (rule refused)
next
  case ok: (Inr x)
  show ?thesis
  proof (cases "stored_row to_time a")
    case (Inl e)
    with assms ok have "r = Inl e" "rows' = rows" by (simp_all add: sql_put_def)
    then show ?thesis by (rule refused)
  next
    case row: (Inr new_row)
    show ?thesis
    proof (cases "with_id (ap_requestId a) rows")
      case None
      with assms ok row stored_row_same [OF row] show ?thesis by (intro new [of new_row]) (auto simp: sql_put_def Let_def)
    next
      case (Some r')
      with assms ok row show ?thesis by (intro known [of r']) (auto simp: sql_put_def Let_def)
    qed
  qed
qed

lemma sql_resolve_cases:
  assumes "sql_resolve to_time now i s t rows = (r, rows')"
  obtains (refused) e where "r = Inl e" "rows' = rows"
  | (written) u where "rows' = map (resolve_row i s u) rows" "r = Inr (row_at rows' i)"
  using assms unfolding sql_resolve_def row_at_def by (auto simp: Let_def split: sum.splits)

lemma resolve_row_id [simp]: "ap_requestId (resolve_row i s u r) = ap_requestId r"
  by (simp add: resolve_row_def)

lemma resolved_ids: "map ap_requestId (map (resolve_row i s u) rows) = map ap_requestId rows"
  by (induction rows) simp_all

lemma with_id_resolved [simp]: "with_id j (map (resolve_row i s u) rows) = map_option (resolve_row i s u) (with_id j rows)"
  by (rule with_id_map) simp

lemma resolved_row_at: "row_at (map (resolve_row i s u) rows) j = map_option (\<lambda>r. toApproval (resolve_row i s u r)) (with_id j rows)"
  by (simp add: row_at_def option.map_comp comp_def)

lemma resolved_row_other: "j \<noteq> i \<Longrightarrow> row_at (map (resolve_row i s u) rows) j = row_at rows j"
  by (cases "with_id j rows") (auto simp: resolved_row_at resolve_row_def row_at_def dest: with_id_SomeD)

lemma resolved_row_this:
  "row_at (map (resolve_row i s u) rows) i = row_at rows i \<or>
   (\<exists>a b. row_at rows i = Some a \<and> ap_status a = Requested \<and> row_at (map (resolve_row i s u) rows) i = Some b \<and> sameRequest b a \<and> ap_status b = status_of s)"
proof (cases "with_id i rows")
  case (Some r)
  then have "row_at rows i = Some (toApproval r)" "row_at (map (resolve_row i s u) rows) i = Some (toApproval (resolve_row i s u r))"
    by (simp_all add: row_at_def resolved_row_at)
  then show ?thesis by (cases "ap_requestId r = i \<and> ap_status r = Requested") (auto simp: resolve_row_def sameRequest_def)
qed (simp add: row_at_def resolved_row_at)

lemma resolved_row_decided: "row_at (map (resolve_row i s u) rows) i = Some a \<Longrightarrow> ap_status a \<noteq> Requested"
proof -
  assume "row_at (map (resolve_row i s u) rows) i = Some a"
  then obtain r where r: "with_id i rows = Some r" "a = toApproval (resolve_row i s u r)" by (auto simp: row_at_def)
  from with_id_SomeD [OF r(1)] show ?thesis unfolding r(2) by (cases s) (simp_all add: resolve_row_def status_of_def)
qed

lemma choice_of_call:
  "filter (of_call session call) rows \<noteq> [] \<Longrightarrow>
   let r = filter (of_call session call) rows ! (pick (filter (of_call session call) rows) mod length (filter (of_call session call) rows))
   in r \<in> set rows \<and> of_call session call (toApproval r)"
proof -
  let ?m = "filter (of_call session call) rows"
  assume "?m \<noteq> []"
  then have "?m ! (pick ?m mod length ?m) \<in> set ?m" by (intro nth_mem) simp
  then have "?m ! (pick ?m mod length ?m) \<in> set rows \<and> of_call session call (?m ! (pick ?m mod length ?m))"
    unfolding set_filter mem_Collect_eq .
  then show ?thesis unfolding Let_def of_call_def toApproval_simps .
qed

lemma pending_rows:
  assumes "table_ok rows"
  shows "a \<in> toApproval ` {r \<in> set rows. pending_in session r} \<longleftrightarrow> row_at rows (ap_requestId a) = Some a \<and> pending_in session a"
proof
  assume "a \<in> toApproval ` {r \<in> set rows. pending_in session r}"
  then obtain r where "r \<in> set rows" "pending_in session r" "a = toApproval r" by blast
  with row_at_same [OF assms] show "row_at rows (ap_requestId a) = Some a \<and> pending_in session a"
    by (simp add: pending_in_def)
next
  assume "row_at rows (ap_requestId a) = Some a \<and> pending_in session a"
  then obtain r where r: "with_id (ap_requestId a) rows = Some r" "toApproval r = a" and p: "pending_in session a"
    unfolding row_at_def by (cases "with_id (ap_requestId a) rows") simp_all
  from p have "pending_in session r" unfolding r(2) [symmetric] pending_in_def by simp
  with r with_id_SomeD [OF r(1)] show "a \<in> toApproval ` {r \<in> set rows. pending_in session r}" by blast
qed

interpretation table: approval_provider "postgres_approvals pick by_time to_time now" row_at table_ok for pick by_time to_time now
proof
  fix rows i a show "table_ok rows \<Longrightarrow> row_at rows i = Some a \<Longrightarrow> ap_requestId a = i" by (auto simp: row_at_def dest: with_id_SomeD)
next
  fix rows a r rows' assume "table_ok rows" "as_put (postgres_approvals pick by_time to_time now) a rows = (r, rows')"
  then show "table_ok rows'" unfolding postgres_approvals_def
    by (auto elim!: sql_put_cases simp: table_ok_def with_id_None)
next
  fix rows a r rows' i assume "table_ok rows" "as_put (postgres_approvals pick by_time to_time now) a rows = (r, rows')" "i \<noteq> ap_requestId a"
  then show "row_at rows' i = row_at rows i" unfolding postgres_approvals_def
    by (auto elim!: sql_put_cases simp: row_at_def with_id_append split: option.splits)
next
  fix rows a r rows' e assume "table_ok rows" "as_put (postgres_approvals pick by_time to_time now) a rows = (r, rows')" "row_at rows (ap_requestId a) = Some e"
  then show "row_at rows' (ap_requestId a) = Some e" unfolding postgres_approvals_def
    by (auto elim!: sql_put_cases simp: row_at_def with_id_append split: option.splits)
next
  fix rows a r rows' b
  assume "table_ok rows" "as_put (postgres_approvals pick by_time to_time now) a rows = (r, rows')" "row_at rows (ap_requestId a) = None"
    "row_at rows' (ap_requestId a) = Some b"
  then show "ap_status b = ap_status a" unfolding postgres_approvals_def
    by (auto elim!: sql_put_cases simp: row_at_def with_id_append)
next
  fix rows a p rows' assume "table_ok rows" "as_put (postgres_approvals pick by_time to_time now) a rows = (Inr p, rows')"
  then show "row_at rows' (ap_requestId a) = Some p \<and> sameRequest p a" unfolding postgres_approvals_def
    by (auto elim!: sql_put_cases simp: row_at_def with_id_append split: if_splits)
next
  fix rows i s t r rows' assume "table_ok rows" "as_resolve (postgres_approvals pick by_time to_time now) i s t rows = (r, rows')"
  then show "table_ok rows'" unfolding postgres_approvals_def
    by (auto elim!: sql_resolve_cases simp: table_ok_def resolved_ids simp del: map_map)
next
  fix rows i s t r rows' j assume "table_ok rows" "as_resolve (postgres_approvals pick by_time to_time now) i s t rows = (r, rows')" "j \<noteq> i"
  then show "row_at rows' j = row_at rows j" unfolding postgres_approvals_def
    by (auto elim!: sql_resolve_cases simp: resolved_row_other)
next
  fix rows i s t r rows' assume "table_ok rows" "as_resolve (postgres_approvals pick by_time to_time now) i s t rows = (r, rows')"
  then have "sql_resolve to_time now i s t rows = (r, rows')" by (simp add: postgres_approvals_def)
  then show "row_at rows' i = row_at rows i \<or>
    (\<exists>a b. row_at rows i = Some a \<and> ap_status a = Requested \<and> row_at rows' i = Some b \<and> sameRequest b a \<and> ap_status b = status_of s)"
    by (rule sql_resolve_cases) (use resolved_row_this in simp_all)
next
  fix rows i s t x rows' assume "table_ok rows" "as_resolve (postgres_approvals pick by_time to_time now) i s t rows = (Inr x, rows')"
  then show "x = row_at rows' i \<and> (\<forall>a. x = Some a \<longrightarrow> ap_status a \<noteq> Requested)" unfolding postgres_approvals_def
    by (auto elim!: sql_resolve_cases dest: resolved_row_decided)
next
  fix rows session call r rows' assume "table_ok rows" "as_findByToolCall (postgres_approvals pick by_time to_time now) session call rows = (r, rows')"
  then show "rows' = rows \<and> (\<exists>x. r = Inr x \<and> (\<forall>a. x = Some a \<longrightarrow> row_at rows (ap_requestId a) = Some a \<and> of_call session call a))"
    using choice_of_call [of session call rows pick] row_at_same
    by (auto simp: postgres_approvals_def sql_findByToolCall_def Let_def)
next
  fix rows session r rows' assume ok: "table_ok rows" and "as_listPending (postgres_approvals pick by_time to_time now) session rows = (r, rows')"
  then have "rows' = rows" "r = Inr (map toApproval (sort_by (\<lambda>l r. by_time (ap_createdAt l) (ap_createdAt r)) (filter (pending_in session) rows)))"
    by (auto simp: postgres_approvals_def sql_listPending_def)
  then show "rows' = rows \<and> (\<exists>as. r = Inr as \<and> (\<forall>a. a \<in> set as \<longleftrightarrow> row_at rows (ap_requestId a) = Some a \<and> pending_in session a))"
    using pending_rows [where session = session, OF ok] by auto
qed

subsection \<open>What following a stream does\<close>

text \<open>C14 (approvals_changes)  Following a stream over the table, to its end or to a failure, never changes a
  decision and never drops or rebinds a request; a request becomes decided only when an event of the stream
  answers it with that decision or shows the result of its call.  The list returned is exactly the session's
  requests that are still pending.\<close>

theorem approvals_changes:
  assumes "table_ok rows" and "syncAgentSessionApprovalsFromEvents (postgres_approvals pick by_time to_time now) now' session es rows = (r, rows')"
  shows "table_ok rows' \<and> changes es (row_at rows i) (row_at rows' i) \<and>
    (case r of Inl _ \<Rightarrow> True | Inr as \<Rightarrow> (a \<in> set as) = (row_at rows' (ap_requestId a) = Some a \<and> pending_in session a))"
proof (intro conjI)
  have t: "table.reached es rows rows'" by (rule table.sync_reached [OF assms])
  then show "table_ok rows'" "changes es (row_at rows i) (row_at rows' i)" by (simp_all add: table.reached_def)
  show "case r of Inl _ \<Rightarrow> True | Inr as \<Rightarrow> (a \<in> set as) = (row_at rows' (ap_requestId a) = Some a \<and> pending_in session a)"
    using table.sync_pending [OF assms(1)] assms(2) by (cases r) auto
qed

text \<open>C26 (approvals_decided)  A request the table knows and an event of the stream answers is decided when the
  stream was followed to its end: no answer is lost.\<close>

theorem approvals_decided:
  assumes "table_ok rows" and "e \<in> set es" and "i \<in> fst ` set (answers e)" and "row_at rows i = Some a"
    and "syncAgentSessionApprovalsFromEvents (postgres_approvals pick by_time to_time now) now' session es rows = (Inr as, rows')"
  shows "\<exists>b. row_at rows' i = Some b \<and> ap_status b \<noteq> Requested"
  by (rule table.sync_decides [OF assms])

text \<open>Remark (memory_approvals_changes)  The same for the map in memory.\<close>

theorem memory_approvals_changes:
  assumes "map_ok m" and "syncAgentSessionApprovalsFromEvents (memory_approvals lc now) now' session es m = (r, m')"
  shows "map_ok m' \<and> changes es (map_of m i) (map_of m' i)"
  using memory.sync_reached [OF assms] by (simp add: memory.reached_def)

subsection \<open>A session on concrete events\<close>

definition demo_request :: "string \<Rightarrow> string \<Rightarrow> approval" where
  "demo_request session i = \<lparr>ap_requestId = i, ap_sessionId = session, ap_turnId = None, ap_toolCallId = ''c1'', ap_toolName = ''bash'',
     ap_input = JObj [], ap_status = Requested, ap_selection = None, ap_createdAt = ''T1'', ap_resolvedAt = None\<rparr>"

definition demo_asked :: "string \<Rightarrow> session_event" where
  "demo_asked i = \<lparr>sv_type = ''input.requested'', sv_data = Some (JObj [(''requests'', JArr [JObj [(''requestId'', JStr i),
     (''kind'', JStr ''tool-approval''), (''action'', JObj [(''callId'', JStr ''c1''), (''toolName'', JStr ''bash''), (''input'', JObj [])])]])]),
     sv_meta = Some (JObj [(''at'', JStr ''T1'')])\<rparr>"

definition demo_answered :: "string \<Rightarrow> session_event" where
  "demo_answered i = \<lparr>sv_type = ''message.received'', sv_data = Some (JObj [(''inputResponses'',
     JArr [JObj [(''requestId'', JStr i), (''optionId'', JStr ''approve'')]])]), sv_meta = Some (JObj [(''at'', JStr ''T2'')])\<rparr>"

definition demo_table :: "approval list approval_store" where
  "demo_table = postgres_approvals (\<lambda>_. 0) (\<lambda>_ _. 0) Some ''T9''"

definition demo_memory :: "approval_map approval_store" where
  "demo_memory = memory_approvals (\<lambda>_ _. 0) ''T9''"

lemma approvals_changes_witness:
  "changes [demo_answered ''r1''] (row_at [demo_request ''s1'' ''r1''] ''r1'')
     (row_at (snd (syncAgentSessionApprovalsFromEvents (postgres_approvals (\<lambda>_. 0) (\<lambda>_ _. 0) Some ''T9'') ''T9'' ''s1'' [demo_answered ''r1'']
       [demo_request ''s1'' ''r1''])) ''r1'')"
  using approvals_changes [of "[demo_request ''s1'' ''r1'']" "\<lambda>_. 0" "\<lambda>_ _. 0" Some "''T9''" "''T9''" "''s1''" "[demo_answered ''r1'']",
    OF _ surjective_pairing, of "''r1''"] by (simp add: table_ok_def)

lemma approvals_decided_witness:
  "\<exists>b. row_at (snd (syncAgentSessionApprovalsFromEvents demo_table ''T9'' ''s1'' [demo_answered ''r1''] [demo_request ''s1'' ''r1''])) ''r1'' = Some b \<and>
     ap_status b \<noteq> Requested"
proof (unfold demo_table_def, rule approvals_decided [where a = "demo_request ''s1'' ''r1''" and es = "[demo_answered ''r1'']"])
  show "table_ok [demo_request ''s1'' ''r1'']" by (simp add: table_ok_def)
  show "demo_answered ''r1'' \<in> set [demo_answered ''r1'']" by simp
  show "''r1'' \<in> fst ` set (answers (demo_answered ''r1''))" by code_simp
  show "row_at [demo_request ''s1'' ''r1''] ''r1'' = Some (demo_request ''s1'' ''r1'')" by code_simp
  show "syncAgentSessionApprovalsFromEvents (postgres_approvals (\<lambda>_. 0) (\<lambda>_ _. 0) Some ''T9'') ''T9'' ''s1'' [demo_answered ''r1''] [demo_request ''s1'' ''r1''] =
      (Inr [], snd (syncAgentSessionApprovalsFromEvents (postgres_approvals (\<lambda>_. 0) (\<lambda>_ _. 0) Some ''T9'') ''T9'' ''s1'' [demo_answered ''r1''] [demo_request ''s1'' ''r1'']))"
    by code_simp
qed

lemma memory_approvals_changes_witness:
  "map_ok (snd (syncAgentSessionApprovalsFromEvents (memory_approvals (\<lambda>_ _. 0) ''T9'') ''T9'' ''s1'' [demo_asked ''r1''] []))"
  using memory_approvals_changes [of "[]", OF _ surjective_pairing] by (simp add: map_ok_def)

text \<open>Remark (answer_of_another_session)  An answer in one session's stream decides a request of another session:
  \<^verbatim>\<open>resolve\<close> looks a request up by its identity alone.\<close>

theorem answer_of_another_session:
  "map_option ap_status (row_at (snd (syncAgentSessionApprovalsFromEvents demo_table ''T9'' ''s1'' [demo_answered ''r2''] [demo_request ''s2'' ''r2''])) ''r2'') =
     Some Approved"
  by code_simp

text \<open>Remark (pages_out_of_order)  A page with the answer followed before the page with the request leaves the
  request pending until the answer is followed again; in the order of the stream nothing is pending.\<close>

theorem pages_out_of_order:
  "map ap_requestId (projr (fst (syncAgentSessionApprovalsFromEvents demo_memory ''T9'' ''s1'' [demo_asked ''r1'']
       (snd (syncAgentSessionApprovalsFromEvents demo_memory ''T9'' ''s1'' [demo_answered ''r1''] []))))) = [''r1''] \<and>
   syncAgentSessionApprovalsFromEvents demo_memory ''T9'' ''s1'' [demo_asked ''r1'', demo_answered ''r1''] [] =
     (Inr [], [(''r1'', resolved Approve ''T2'' (demo_request ''s1'' ''r1''))])"
  by code_simp

end
