(* ===== verification/Session_Theorems.thy ===== *)
theory Session_Theorems
  imports Session_Service Sandbox_Deletion_Theorems Approval_Theorems
begin

section \<open>Properties of agent sessions\<close>

text \<open>
  A page with a lifecycle event shows the state of the whole stream; reading page by page reads the stream; a
  session's sandbox is only deleted for its owner, and only after the runtime gave the session up.
\<close>

subsection \<open>The state a page shows\<close>

lemma boundary_step: "sv_type e \<in> set lifecycle_types \<Longrightarrow> snapshot_step e st = snapshot_step e st'"
  by (cases st; cases st') (auto simp: lifecycle_types_def Let_def)

lemma boundary_fold: "hasLifecycleBoundary es \<Longrightarrow> fold snapshot_step es st = fold snapshot_step es st'"
proof (induction es arbitrary: st st')
  case (Cons e es)
  show ?case
  proof (cases "sv_type e \<in> set lifecycle_types")
    case True
    from boundary_step [OF this] have "snapshot_step e st = snapshot_step e st'" .
    then show ?thesis by simp
  next
    case False
    with Cons.prems have "hasLifecycleBoundary es" by (simp add: hasLifecycleBoundary_def)
    from Cons.IH [OF this] show ?thesis by simp
  qed
qed (simp add: hasLifecycleBoundary_def)

text \<open>Remark (a_boundary_page_shows_the_session)  The status and the active turn projected from a page that holds a
  lifecycle event are those of the whole stream up to the end of the page.\<close>

theorem a_boundary_page_shows_the_session:
  assumes "hasLifecycleBoundary page"
  shows "projectSessionSnapshot sid cursor (earlier @ page) = projectSessionSnapshot sid cursor page"
  using boundary_fold [OF assms, of "fold snapshot_step earlier (SessUnknown, None)" "(SessUnknown, None)"]
  by (simp add: projectSessionSnapshot_def)

lemma a_boundary_page_shows_the_session_witness:
  "sn_status (projectSessionSnapshot ''s1'' 2 ([\<lparr>sv_type = ''turn.started'', sv_data = None, sv_meta = None\<rparr>] @
     [\<lparr>sv_type = ''turn.cancelled'', sv_data = None, sv_meta = None\<rparr>])) = SessCancelled"
proof -
  let ?page = "[\<lparr>sv_type = ''turn.cancelled'', sv_data = None, sv_meta = None\<rparr>] :: session_event list"
  have "hasLifecycleBoundary ?page" by code_simp
  moreover have "sn_status (projectSessionSnapshot ''s1'' 2 ?page) = SessCancelled" by code_simp
  ultimately show ?thesis by (subst a_boundary_page_shows_the_session) simp_all
qed

subsection \<open>Reading the stream page by page\<close>

text \<open>
  A runtime that serves the events of a stream by position, and a principal that owns the session.  Neither the
  verification nor the requests to the runtime write to the tables.
\<close>

definition serves :: "'w session_runtime \<Rightarrow> string \<Rightarrow> session_event list \<Rightarrow> bool" where
  "serves rt sid es \<longleftrightarrow> (\<forall>after limit w. sr_readEvents rt sid after limit w = (Inr (take (nat limit) (drop (nat after) es)), w)) \<and>
     (\<forall>inspect who sid w. sr_inspect rt = Some inspect \<longrightarrow> snd (inspect who sid w) = w)"

definition owns :: "'w verifier \<Rightarrow> string \<Rightarrow> session_owner \<Rightarrow> bool" where
  "owns verify sid who \<longleftrightarrow> (\<forall>w. verify sid who w = (Inr Owned, w))"

lemma reconcile_total:
  assumes "serves rt sid es'"
  shows "\<exists>s'. reconcile_boundary rt who limit es s w = (Inr s', w)"
proof (cases "sr_inspect rt")
  case (Some inspect)
  obtain r where "inspect who (sn_sessionId s) w = (r, w)"
    using assms Some unfolding serves_def by (metis prod.collapse)
  then show ?thesis by (cases r) (simp_all add: Some reconcile_boundary_def catch_act_def bind_act_def ret_def)
qed (simp add: reconcile_boundary_def ret_def)

lemma page_events: "map as_stream_event (project_page after es) = es"
  by (rule nth_equalityI) (simp_all add: project_page_def nth_enumerate_eq as_stream_event_def projectSessionEvent_def)

lemma page_cursors: "map en_cursor (project_page after es) = map (\<lambda>i. after + int i + 1) [0..<length es]"
  by (rule nth_equalityI) (simp_all add: project_page_def nth_enumerate_eq projectSessionEvent_def)

lemma read_page:
  assumes "assertSessionId sid = Inr ()" and "owns verify sid who" and "serves rt sid es" and "int a \<le> MAX_SAFE_INTEGER"
  shows "\<exists>h. readAgentSession verify rt who sid (Some (int a)) (Some 1000) w = (Inr (Some h), w) \<and>
    hi_events h = project_page (int a) (take 1000 (drop a es)) \<and> hi_hasMore h = (1000 \<le> length (take 1000 (drop a es))) \<and>
    hi_nextCursor h = int (a + length (take 1000 (drop a es)))"
proof -
  have v: "verify sid who w = (Inr Owned, w)" using assms(2) by (auto simp: owns_def)
  have r: "sr_readEvents rt sid (int a) 1000 w = (Inr (take 1000 (drop a es)), w)"
    using assms(3) unfolding serves_def by simp
  let ?es = "take 1000 (drop a es)"
  obtain s where b: "reconcile_boundary rt who 1000 ?es (projectSessionSnapshot sid (int a + int (length ?es)) ?es) w = (Inr s, w)"
    using reconcile_total [OF assms(3), of who 1000 ?es "projectSessionSnapshot sid (int a + int (length ?es)) ?es" w] by (elim exE)
  have c: "parseSessionCursor (int a) = Inr (int a)" using assms(4) by (simp add: parseSessionCursor_def)
  have l: "parseSessionPageLimit 1000 = Inr 1000" by (simp add: parseSessionPageLimit_def MAX_SAFE_INTEGER_def)
  show ?thesis unfolding readAgentSession_def option.case
    by (simp add: bind_act_def lift_res_def ret_def v r b assms(1) c l del: length_take)
qed

lemma pages_loop:
  assumes sid: "assertSessionId sid = Inr ()" and own: "owns verify sid who" and rt: "serves rt sid es"
  shows "int (a + 1000 * k) \<le> MAX_SAFE_INTEGER \<Longrightarrow>
    \<exists>ps h. approval_pages k (\<lambda>after. readAgentSession verify rt who sid (Some after) (Some 1000)) (int a) acc hist w = (Inr (acc @ ps, h), w) \<and>
      map as_stream_event ps = take (1000 * k) (drop a es) \<and> map en_cursor ps = map (\<lambda>i. int a + int i + 1) [0..<length ps] \<and>
      (k > 0 \<or> hist \<noteq> None \<longrightarrow> h \<noteq> None)"
proof (induction k arbitrary: a acc hist)
  case 0
  show ?case by (simp add: ret_def)
next
  case (Suc k)
  let ?read = "\<lambda>after. readAgentSession verify rt who sid (Some after) (Some 1000)"
  let ?page = "take 1000 (drop a es)"
  have "int a \<le> MAX_SAFE_INTEGER" using Suc.prems by simp
  from read_page [OF sid own rt this] obtain h where read: "?read (int a) w = (Inr (Some h), w)" and ev: "hi_events h = project_page (int a) ?page"
    and more: "hi_hasMore h = (1000 \<le> length ?page)" and nxt: "hi_nextCursor h = int (a + length ?page)" by blast
  show ?case
  proof (cases "hi_hasMore h")
    case False
    then have short: "length (drop a es) < 1000" using more by simp
    then have "approval_pages (Suc k) ?read (int a) acc hist w = (Inr (acc @ project_page (int a) ?page, Some h), w)"
      by (simp add: bind_act_def read False ev ret_def)
    moreover have "map as_stream_event (project_page (int a) ?page) = take (1000 * Suc k) (drop a es)" using short by (simp add: page_events)
    moreover have "length (project_page (int a) ?page) = length ?page" by (simp add: project_page_def)
    ultimately show ?thesis using page_cursors by (metis option.distinct(1))
  next
    case True
    then have len: "length ?page = 1000" using more by simp
    have bound: "int (a + 1000 + 1000 * k) \<le> MAX_SAFE_INTEGER" using Suc.prems by simp
    from Suc.IH [OF bound, of "acc @ project_page (int a) ?page" "Some h"] obtain ps h' where
      loop: "approval_pages k ?read (int (a + 1000)) (acc @ project_page (int a) ?page) (Some h) w = (Inr ((acc @ project_page (int a) ?page) @ ps, h'), w)"
      and ps: "map as_stream_event ps = take (1000 * k) (drop (a + 1000) es)" "map en_cursor ps = map (\<lambda>i. int (a + 1000) + int i + 1) [0..<length ps]"
      and h': "h' \<noteq> None" by blast
    let ?ps = "project_page (int a) ?page @ ps"
    have "approval_pages (Suc k) ?read (int a) acc hist w = (Inr (acc @ ?ps, h'), w)"
      using loop nxt len by (simp add: bind_act_def read True ev)
    moreover have "map as_stream_event ?ps = take (1000 * Suc k) (drop a es)"
    proof -
      have "take (1000 * Suc k) (drop a es) = take 1000 (drop a es) @ take (1000 * k) (drop 1000 (drop a es))"
        unfolding mult_Suc_right by (rule take_add)
      then show ?thesis by (simp add: page_events ps(1) add.commute)
    qed
    moreover have "map en_cursor ?ps = map (\<lambda>i. int a + int i + 1) [0..<length ?ps]"
    proof -
      have l: "length (project_page (int a) ?page) = 1000" using len by (simp add: project_page_def)
      have "map (\<lambda>i. int a + int i + 1) [0..<length ?ps] = map (\<lambda>i. int a + int i + 1) [0..<1000] @ map (\<lambda>i. int a + int i + 1) [1000..<1000 + length ps]"
        unfolding map_append [symmetric] length_append l by (subst upt_add_eq_append) simp_all
      also have "map (\<lambda>i. int a + int i + 1) [1000..<1000 + length ps] = map (\<lambda>i. int (a + 1000) + int i + 1) [0..<length ps]"
        by (rule nth_equalityI) simp_all
      finally show ?thesis unfolding map_append page_cursors len ps(2) by simp
    qed
    ultimately show ?thesis using h' by blast
  qed
qed

text \<open>C27 (approvals_follow_the_stream)  For a session with a valid identifier whose owner the
  principal is, over a runtime that serves its stream by position, and where neither the check of the owner nor the
  runtime's requests change anything, the approvals request does from the state it finds
  exactly what following the stream once does: the events of its pages in order, up to the bound of 100 pages of
  1000 events.  Its answer is what that one call returns, and its only effect on the tables is that call's.
  Events beyond the bound are not followed by it.\<close>

theorem approvals_follow_the_stream:
  assumes "assertSessionId sid = Inr ()" and "owns verify sid who" and "serves rt sid es"
  shows "\<exists>s. approvals_get verify rt store now who sid w =
    bind_act (syncAgentSessionApprovalsFromEvents store now sid (take 100000 es)) (\<lambda>pending. ret (Some (pending, s))) w"
proof -
  have "int (0 + 1000 * 100) \<le> MAX_SAFE_INTEGER" by (simp add: MAX_SAFE_INTEGER_def)
  from pages_loop [OF assms this, of "[]" None w] obtain ps h where
    loop: "approval_pages 100 (\<lambda>after. readAgentSession verify rt who sid (Some after) (Some 1000)) 0 [] None w = (Inr (ps, Some h), w)"
    and ps: "map as_stream_event ps = take 100000 es" by auto
  have "approvals_get verify rt store now who sid w =
      bind_act (syncAgentSessionApprovalsFromEvents store now sid (take 100000 es)) (\<lambda>pending. ret (Some (pending, hi_session h))) w"
    unfolding approvals_get_def by (simp add: bind_act_def loop ps)
  then show ?thesis by blast
qed

definition demo_runtime :: "session_event list \<Rightarrow> 'w session_runtime" where
  "demo_runtime es = \<lparr>sr_readEvents = (\<lambda>sid after limit. ret (take (nat limit) (drop (nat after) es))), sr_cancel = (\<lambda>sid turn. ret NoActiveTurn),
     sr_inspect = None\<rparr>"

definition demo_page_event :: session_event where
  "demo_page_event = \<lparr>sv_type = ''session.started'', sv_data = None, sv_meta = None\<rparr>"

definition demo_approvals :: "approval list approval_store" where
  "demo_approvals = postgres_approvals (\<lambda>_. 0) (\<lambda>_ _. 0) Some ''T9''"

definition demo_reader :: session_owner where
  "demo_reader = \<lparr>ow_issuer = None, ow_principalId = ''p'', ow_principalType = ''user'', ow_tenantId = ''t''\<rparr>"

lemma approvals_follow_the_stream_witness:
  "\<exists>s. approvals_get (\<lambda>sid who. ret Owned) (demo_runtime [demo_page_event]) demo_approvals ''T9'' demo_reader ''s1'' [] =
    bind_act (syncAgentSessionApprovalsFromEvents demo_approvals ''T9'' ''s1'' [demo_page_event]) (\<lambda>pending. ret (Some (pending, s))) []"
proof -
  have "assertSessionId ''s1'' = Inr ()" by code_simp
  moreover have "owns (\<lambda>sid who. ret Owned) ''s1'' demo_reader" by (simp add: owns_def ret_def)
  moreover have "serves (demo_runtime [demo_page_event]) ''s1'' [demo_page_event]" by (simp add: serves_def demo_runtime_def ret_def)
  ultimately show ?thesis using approvals_follow_the_stream [of "''s1''" "\<lambda>sid who. ret Owned" demo_reader "demo_runtime [demo_page_event]" "[demo_page_event]"] by simp
qed

subsection \<open>Retiring a session\<close>

text \<open>
  What retiring relies on: the verification and the search change nothing, an owner is one the store knows,
  and a request keeps the rows of other sessions and an existing row, and returns the row it leaves, which is
  the principal's.
\<close>

definition for_owner :: "session_owner \<Rightarrow> deletion \<Rightarrow> bool" where
  "for_owner who d \<longleftrightarrow> same_tenant_principal (dl_tenantId d) (dl_principalId d) who"

locale deletion_provider =
  fixes store :: "'w deletion_store"
    and owner_of :: "'w \<Rightarrow> string \<Rightarrow> session_owner option"
    and row :: "'w \<Rightarrow> string \<Rightarrow> deletion option"
    and keyed :: "'w \<Rightarrow> bool"
  assumes verify_keeps: "ds_verify store sid who w = (rv, w') \<Longrightarrow> w' = w \<and>
      (rv = Inr Owned \<longrightarrow> (\<exists>o'. owner_of w sid = Some o' \<and> same_tenant_principal (ow_tenantId o') (ow_principalId o') who))"
    and find_keeps: "keyed w \<Longrightarrow> ds_findOwned store sid who w = (rf, w') \<Longrightarrow> w' = w \<and>
      (\<forall>d. rf = Inr (Some d) \<longrightarrow> (\<exists>x. row w sid = Some x \<and> d = deletion_record x \<and> for_owner who x))"
    and request_other: "ds_request store sid who by' reason w = (rr, w') \<Longrightarrow> sid' \<noteq> sid \<Longrightarrow> row w' sid' = row w sid'"
    and request_keeps: "ds_request store sid who by' reason w = (rr, w') \<Longrightarrow> row w sid = Some x \<Longrightarrow> row w' sid = Some x"
    and request_record: "ds_request store sid who by' reason w = (Inr (DelRecord d b), w') \<Longrightarrow>
      \<exists>x. row w' sid = Some x \<and> d = deletion_record x \<and> for_owner who x"
    and request_owned: "ds_request store sid who by' reason w = (rr, w') \<Longrightarrow> row w sid = None \<Longrightarrow> row w' sid \<noteq> None \<Longrightarrow>
      \<exists>o'. owner_of w sid = Some o' \<and> same_tenant_principal (ow_tenantId o') (ow_principalId o') who"
begin

lemma authorize_outcome:
  assumes "authorize_deletion store who sid rs w = (r, w')"
  shows "(\<forall>out. r = Inr (Some out) \<longrightarrow> do_reset out = rs \<and> (\<exists>x. row w' sid = Some x \<and> do_deletion out = deletion_record x \<and> for_owner who x)) \<and>
    r \<noteq> Inr None \<and> (\<forall>s. s \<noteq> sid \<longrightarrow> row w' s = row w s)"
proof -
  obtain a v where a: "ds_request store sid who (requester who) ''user-requested-session-deletion'' w = (a, v)" by fastforce
  show ?thesis
  proof (cases a)
    case (Inl e)
    with assms a request_other [OF a] show ?thesis by (auto simp: authorize_deletion_def bind_act_def)
  next
    case (Inr res)
    show ?thesis
    proof (cases res)
      case (DelRecord d created)
      from a have a': "ds_request store sid who (requester who) ''user-requested-session-deletion'' w = (Inr (DelRecord d created), v)"
        by (simp add: Inr DelRecord)
      from assms have "w' = v" "r = Inr (Some \<lparr>do_deletion = d, do_already = (\<not> created), do_reset = rs\<rparr>)"
        by (simp_all add: authorize_deletion_def bind_act_def a' ret_def)
      with request_record [OF a'] request_other [OF a'] show ?thesis by simp
    qed (use assms a Inr request_other [OF a] in \<open>auto simp: authorize_deletion_def bind_act_def throw_def\<close>)
  qed
qed

text \<open>The cases of a deletion, in the order of the code.\<close>

lemma delete_cases:
  assumes "keyed w" and "deleteAgentSession store reset uuid who sid w = (r, w')"
  obtains (refused) "w' = w" "\<forall>out. r \<noteq> Inr (Some out)"
  | (known) d x where "w' = w" "r = Inr (Some \<lparr>do_deletion = d, do_already = True, do_reset = NoActiveSession\<rparr>)"
      "row w sid = Some x" "d = deletion_record x" "for_owner who x"
  | (kept) e o' where "reset sid (''delete-'' @ uuid) w = (Inl e, w')" "r = Inl retirement_failed"
      "owner_of w sid = Some o'" "same_tenant_principal (ow_tenantId o') (ow_principalId o') who"
  | (retired) rs w1 o' where "reset sid (''delete-'' @ uuid) w = (Inr rs, w1)" "authorize_deletion store who sid rs w1 = (r, w')"
      "owner_of w sid = Some o'" "same_tenant_principal (ow_tenantId o') (ow_principalId o') who"
proof (cases "assertSessionId sid")
  case (Inl e)
  with assms have "w' = w" "\<forall>out. r \<noteq> Inr (Some out)" by (auto simp: deleteAgentSession_def bind_act_def lift_res_def)
  then show ?thesis by (rule refused)
next
  case ok: (Inr u)
  obtain rv wv where v: "ds_verify store sid who w = (rv, wv)" by fastforce
  from verify_keeps [OF v] have wv: "wv = w" by blast
  show ?thesis
  proof (cases "rv = Inr Owned")
    case False
    then have "w' = w" "\<forall>out. r \<noteq> Inr (Some out)" using assms ok v wv
      by (cases rv; auto simp: deleteAgentSession_def bind_act_def lift_res_def ret_def)+
    then show ?thesis by (rule refused)
  next
    case True
    from verify_keeps [OF v] True obtain o' where o': "owner_of w sid = Some o'" "same_tenant_principal (ow_tenantId o') (ow_principalId o') who" by blast
    obtain rf wf where f: "ds_findOwned store sid who w = (rf, wf)" by fastforce
    from find_keeps [OF assms(1) f] have wf: "wf = w" by blast
    have step: "deleteAgentSession store reset uuid who sid w = (case rf of Inl e \<Rightarrow> (Inl e, w) | Inr None \<Rightarrow>
        bind_act (catch_act (reset sid (''delete-'' @ uuid)) (\<lambda>_. throw retirement_failed)) (authorize_deletion store who sid) w
      | Inr (Some d) \<Rightarrow> (Inr (Some \<lparr>do_deletion = d, do_already = True, do_reset = NoActiveSession\<rparr>), w))"
      using ok v wv True f wf by (simp add: deleteAgentSession_def bind_act_def lift_res_def ret_def split: sum.splits option.splits)
    show ?thesis
    proof (cases rf)
      case (Inl e)
      with step assms have "w' = w" "\<forall>out. r \<noteq> Inr (Some out)" by auto
      then show ?thesis by (rule refused)
    next
      case (Inr found)
      show ?thesis
      proof (cases found)
        case (Some d)
        from find_keeps [OF assms(1) f] Inr Some obtain x where "row w sid = Some x" "d = deletion_record x" "for_owner who x" by blast
        with step assms Inr Some show ?thesis by (intro known) simp_all
      next
        case None
        obtain q w1 where q: "reset sid (''delete-'' @ uuid) w = (q, w1)" by fastforce
        show ?thesis
        proof (cases q)
          case (Inl e)
          with q step assms \<open>rf = Inr found\<close> None o' show ?thesis by (intro kept) (auto simp: bind_act_def catch_act_def throw_def)
        next
          case (Inr rs)
          with q step assms \<open>rf = Inr found\<close> None o' show ?thesis by (intro retired) (auto simp: bind_act_def catch_act_def throw_def)
        qed
      qed
    qed
  qed
qed

lemma delete_outcome:
  assumes "keyed w" and "deleteAgentSession store reset uuid who sid w = (Inr (Some out), w')"
  shows "\<exists>x. row w' sid = Some x \<and> do_deletion out = deletion_record x \<and> for_owner who x"
  using assms(1,2) by (rule delete_cases) (use authorize_outcome in \<open>fastforce+\<close>)

lemma delete_authorized:
  assumes "keyed w" and "deleteAgentSession store reset uuid who sid w = (r, w')" and "row w sid = None" and "row w' sid \<noteq> None"
    and keeps: "\<And>q w1. reset sid (''delete-'' @ uuid) w = (q, w1) \<Longrightarrow> row w1 = row w"
  shows "\<exists>rs w1 o'. reset sid (''delete-'' @ uuid) w = (Inr rs, w1) \<and> owner_of w sid = Some o' \<and>
    same_tenant_principal (ow_tenantId o') (ow_principalId o') who"
  using assms(1,2) by (rule delete_cases) (use assms(3,4) keeps in \<open>auto simp: fun_eq_iff\<close>)

lemma delete_other:
  assumes "keyed w" and "deleteAgentSession store reset uuid who sid w = (r, w')" and "s \<noteq> sid"
    and keeps: "\<And>q w1. reset sid (''delete-'' @ uuid) w = (q, w1) \<Longrightarrow> row w1 = row w"
  shows "row w' s = row w s"
  using assms(1,2)
proof (rule delete_cases)
  fix rs w1 assume "reset sid (''delete-'' @ uuid) w = (Inr rs, w1)" and "authorize_deletion store who sid rs w1 = (r, w')"
  with authorize_outcome keeps assms(3) show ?thesis by metis
qed (use keeps in simp_all)

end

subsection \<open>The tables provide it\<close>

lemma on_db_pair: "on_db m w = (r, w') \<longleftrightarrow> m (rw_db w) = (r, rw_db w') \<and> w' = w\<lparr>rw_db := rw_db w'\<rparr>"
  by (auto simp: on_db_def split: prod.splits)

lemma verify_owner_pair:
  "verify_owner sid who db = (r, db') \<Longrightarrow> db' = db \<and>
     (r = Inr Owned \<longrightarrow> (\<exists>o'. map_of (dd_owners db) sid = Some o' \<and> same_tenant_principal (ow_tenantId o') (ow_principalId o') who))"
  by (auto simp: verify_owner_def verifyOwnership_def same_tenant_principal_def split: option.splits if_splits)

lemma find_deletion_pair:
  assumes "findOwned_deletion sid who db = (r, db')" and "distinct (map dl_sessionId (dd_rows db))"
  shows "db' = db \<and> (\<forall>d. r = Inr (Some d) \<longrightarrow> (\<exists>x. deletion_of sid db = Some x \<and> d = deletion_record x \<and> for_owner who x))"
proof -
  have "deletion_of sid db = Some x" if "find (owned_deletion sid who) (dd_rows db) = Some x" for x
    using find_key_distinct [OF assms(2), of x] that by (auto simp: find_Some_iff deletion_of_def owned_deletion_def)
  moreover have "for_owner who x" if "find (owned_deletion sid who) (dd_rows db) = Some x" for x
    using that by (auto simp: find_Some_iff owned_deletion_def for_owner_def same_tenant_principal_def)
  ultimately show ?thesis using assms(1) by (auto simp: findOwned_deletion_def bind_act_def lift_res_def split: sum.splits)
qed

lemma find_append_None: "find P xs = None \<Longrightarrow> find P (xs @ [x]) = (if P x then Some x else None)"
  by (induction xs) (auto split: if_splits)

lemma find_append_other: "\<not> P x \<Longrightarrow> find P (xs @ [x]) = find P xs"
  by (induction xs) auto

lemma request_deletion_pair:
  assumes "request_deletion dp sid who by' reason nb now db = (r, db')"
  shows "(s \<noteq> sid \<longrightarrow> deletion_of s db' = deletion_of s db) \<and> (\<forall>x. deletion_of sid db = Some x \<longrightarrow> deletion_of sid db' = Some x) \<and>
    (\<forall>d b. r = Inr (DelRecord d b) \<longrightarrow> (\<exists>x. deletion_of sid db' = Some x \<and> d = deletion_record x \<and> for_owner who x)) \<and>
    (deletion_of sid db = None \<longrightarrow> deletion_of sid db' \<noteq> None \<longrightarrow>
       (\<exists>o'. map_of (dd_owners db) sid = Some o' \<and> same_tenant_principal (ow_tenantId o') (ow_principalId o') who))"
    (is "?P r db'")
proof -
  have tx: "?P q db1" if t: "request_tx sid who by' reason t now db = (q, db1)" for q db1 t
  proof (cases "map_of (dd_owners db) sid")
    case None
    with t show ?thesis by (auto simp: request_tx_def)
  next
    case (Some o')
    show ?thesis
    proof (cases "find (\<lambda>r. dl_sessionId r = sid) (dd_rows db)")
      case None
      then have fresh: "find (\<lambda>r. dl_sessionId r = sid) (dd_rows db @ [x]) = (if dl_sessionId x = sid then Some x else None)" for x
        by (rule find_append_None)
      have other: "find (\<lambda>r. dl_sessionId r = s) (dd_rows db @ [x]) = find (\<lambda>r. dl_sessionId r = s) (dd_rows db)" if "dl_sessionId x \<noteq> s" for s x
        using that by (simp add: find_append_other)
      from t Some None fresh other show ?thesis
        by (auto simp: request_tx_def deletion_of_def Let_def requested_row_def for_owner_def same_tenant_principal_def split: if_splits)
    next
      case row: (Some x)
      with t Some show ?thesis by (auto simp: request_tx_def deletion_of_def for_owner_def split: if_splits)
    qed
  qed
  have same: "?P (Inl e) db" for e by simp
  have tr: "?P q db1" if t: "transaction (request_tx sid who by' reason t now) db = (q, db1)" for q db1 t
  proof -
    obtain q' db' where q': "request_tx sid who by' reason t now db = (q', db')" by fastforce
    show ?thesis using t tx [OF q'] same by (cases q') (auto simp: transaction_def q')
  qed
  show ?thesis using assms tr same
    by (auto simp: request_deletion_def bind_act_def lift_res_def split: sum.splits)
qed

definition keyed_world :: "'r retirement_world \<Rightarrow> bool" where
  "keyed_world w \<longleftrightarrow> distinct (map dl_sessionId (dd_rows (rw_db w)))"

interpretation retirement: deletion_provider "table_deletions dp now" "\<lambda>w sid. map_of (dd_owners (rw_db w)) sid" "\<lambda>w sid. deletion_of sid (rw_db w)"
  keyed_world for dp now
proof
  fix sid who and w w' :: "'r retirement_world" and r
  assume "ds_verify (table_deletions dp now) sid who w = (r, w')"
  then have "verify_owner sid who (rw_db w) = (r, rw_db w')" "w' = w\<lparr>rw_db := rw_db w'\<rparr>"
    by (simp_all add: table_deletions_def on_db_pair)
  with verify_owner_pair [OF this(1)] show "w' = w \<and> (r = Inr Owned \<longrightarrow>
      (\<exists>o'. map_of (dd_owners (rw_db w)) sid = Some o' \<and> same_tenant_principal (ow_tenantId o') (ow_principalId o') who))" by simp
next
  fix sid who and w w' :: "'r retirement_world" and r
  assume k: "keyed_world w" and "ds_findOwned (table_deletions dp now) sid who w = (r, w')"
  then have f: "findOwned_deletion sid who (rw_db w) = (r, rw_db w')" and w': "w' = w\<lparr>rw_db := rw_db w'\<rparr>"
    by (simp_all add: table_deletions_def on_db_pair)
  from find_deletion_pair [OF f k [unfolded keyed_world_def]] w' show "w' = w \<and> (\<forall>d. r = Inr (Some d) \<longrightarrow>
      (\<exists>x. deletion_of sid (rw_db w) = Some x \<and> d = deletion_record x \<and> for_owner who x))" by simp
next
  fix sid who by' reason and w w' :: "'r retirement_world" and r sid'
  assume "ds_request (table_deletions dp now) sid who by' reason w = (r, w')" and "sid' \<noteq> sid"
  with request_deletion_pair [where s = sid'] show "deletion_of sid' (rw_db w') = deletion_of sid' (rw_db w)"
    unfolding table_deletions_def deletion_store.select_convs on_db_pair by blast
next
  fix sid who by' reason and w w' :: "'r retirement_world" and r x
  assume "ds_request (table_deletions dp now) sid who by' reason w = (r, w')" and "deletion_of sid (rw_db w) = Some x"
  with request_deletion_pair show "deletion_of sid (rw_db w') = Some x"
    unfolding table_deletions_def deletion_store.select_convs on_db_pair by blast
next
  fix sid who by' reason and w w' :: "'r retirement_world" and d b
  assume "ds_request (table_deletions dp now) sid who by' reason w = (Inr (DelRecord d b), w')"
  with request_deletion_pair show "\<exists>x. deletion_of sid (rw_db w') = Some x \<and> d = deletion_record x \<and> for_owner who x"
    unfolding table_deletions_def deletion_store.select_convs on_db_pair by blast
next
  fix sid who by' reason and w w' :: "'r retirement_world" and r
  assume "ds_request (table_deletions dp now) sid who by' reason w = (r, w')" and "deletion_of sid (rw_db w) = None" and "deletion_of sid (rw_db w') \<noteq> None"
  with request_deletion_pair show "\<exists>o'. map_of (dd_owners (rw_db w)) sid = Some o' \<and> same_tenant_principal (ow_tenantId o') (ow_principalId o') who"
    unfolding table_deletions_def deletion_store.select_convs on_db_pair by blast
qed

lemma on_runtime_keeps: "on_runtime m w = (q, w1) \<Longrightarrow> rw_db w1 = rw_db w"
  by (auto simp: on_runtime_def split: prod.splits)

text \<open>C13 (retired_before_deleted)  A deletion is recorded only for the session asked for, only when the principal
  owns it, and only after the runtime gave the session up; when the runtime fails, no sandbox is marked for
  deletion.  What the call returns is the recorded row, and it is the principal's.\<close>

theorem retired_before_deleted:
  assumes "keyed_world w" and "deleteAgentSession (table_deletions dp now) (\<lambda>s c. on_runtime (reset s c)) uuid who sid w = (r, w')"
  shows "(s \<noteq> sid \<longrightarrow> deletion_of s (rw_db w') = deletion_of s (rw_db w)) \<and>
    (deletion_of sid (rw_db w) = None \<and> deletion_of sid (rw_db w') \<noteq> None \<longrightarrow>
      (\<exists>rs v. reset sid (''delete-'' @ uuid) (rw_runtime w) = (Inr rs, v)) \<and>
      (\<exists>o'. map_of (dd_owners (rw_db w)) sid = Some o' \<and> same_tenant_principal (ow_tenantId o') (ow_principalId o') who)) \<and>
    (\<forall>out. r = Inr (Some out) \<longrightarrow> (\<exists>x. deletion_of sid (rw_db w') = Some x \<and> do_deletion out = deletion_record x \<and> for_owner who x))"
proof (intro conjI impI allI)
  show "deletion_of s (rw_db w') = deletion_of s (rw_db w)" if "s \<noteq> sid" for s
    by (rule retirement.delete_other [OF assms that]) (drule on_runtime_keeps, simp)
  assume n: "deletion_of sid (rw_db w) = None \<and> deletion_of sid (rw_db w') \<noteq> None"
  have "\<exists>rs w1 o'. on_runtime (reset sid (''delete-'' @ uuid)) w = (Inr rs, w1) \<and> map_of (dd_owners (rw_db w)) sid = Some o' \<and>
      same_tenant_principal (ow_tenantId o') (ow_principalId o') who"
    by (rule retirement.delete_authorized [OF assms]) (use n in simp, use n in simp, drule on_runtime_keeps, simp)
  then obtain rs w1 o' where r: "on_runtime (reset sid (''delete-'' @ uuid)) w = (Inr rs, w1)"
    and o': "map_of (dd_owners (rw_db w)) sid = Some o'" "same_tenant_principal (ow_tenantId o') (ow_principalId o') who"
    by (elim exE conjE)
  from r show "\<exists>rs v. reset sid (''delete-'' @ uuid) (rw_runtime w) = (Inr rs, v)" by (auto simp: on_runtime_def split: prod.splits)
  from o' show "\<exists>o'. map_of (dd_owners (rw_db w)) sid = Some o' \<and> same_tenant_principal (ow_tenantId o') (ow_principalId o') who" by blast
next
  fix out assume "r = Inr (Some out)"
  then show "\<exists>x. deletion_of sid (rw_db w') = Some x \<and> do_deletion out = deletion_record x \<and> for_owner who x"
    using retirement.delete_outcome [OF assms(1)] assms(2) by blast
qed

definition demo_retirement :: "unit retirement_world" where
  "demo_retirement = \<lparr>rw_db = \<lparr>dd_owners = [(''s1'', demo_owner)], dd_rows = []\<rparr>, rw_runtime = ()\<rparr>"

lemma retired_before_deleted_witness:
  "deletion_of ''s1'' (rw_db (snd (deleteAgentSession (table_deletions (\<lambda>_. None) 5) (\<lambda>s c. on_runtime (throw (Error ''down''))) ''u'' demo_owner ''s1'' demo_retirement))) = None \<and>
   deletion_of ''s1'' (rw_db (snd (deleteAgentSession (table_deletions (\<lambda>_. None) 5) (\<lambda>s c. on_runtime (ret WasReset)) ''u'' demo_owner ''s1'' demo_retirement))) \<noteq> None"
proof
  have k: "keyed_world demo_retirement" by (simp add: keyed_world_def demo_retirement_def)
  have d: "deletion_of ''s1'' (rw_db demo_retirement) = None" by (simp add: demo_retirement_def deletion_of_def)
  show "deletion_of ''s1'' (rw_db (snd (deleteAgentSession (table_deletions (\<lambda>_. None) 5) (\<lambda>s c. on_runtime (throw (Error ''down''))) ''u'' demo_owner ''s1'' demo_retirement))) = None"
    using retired_before_deleted [where reset = "\<lambda>s c. throw (Error ''down'')" and sid = "''s1''" and s = "''s2''", OF k surjective_pairing] d
    by (auto simp: throw_def)
  show "deletion_of ''s1'' (rw_db (snd (deleteAgentSession (table_deletions (\<lambda>_. None) 5) (\<lambda>s c. on_runtime (ret WasReset)) ''u'' demo_owner ''s1'' demo_retirement))) \<noteq> None"
    by code_simp
qed

end
