(* ===== verification/Subagent_Store.thy ===== *)
theory Subagent_Store
  imports Approval_Store Mailbox_Store
begin

section \<open>Sub-agents of a session (server/data/agent-subagent-store.ts)\<close>

text \<open>
  The record of every child session a session delegates to, kept for its owner by a map in memory or a table.
  Times are ISO strings; \<open>now\<close> is the clock of the process and \<open>dbnow\<close> that of the database.
\<close>

datatype sub_status = SubStarting | SubRunning | SubWaiting | SubCompleted | SubFailed | SubInterrupted | SubClosed
datatype wait_policy = Wait | NoWait

record subagent =
  sa_childSessionId :: string
  sa_agentId :: "string option"
  sa_parentSessionId :: string
  sa_callId :: "string option"
  sa_toolName :: "string option"
  sa_name :: "string option"
  sa_nickname :: string
  sa_task :: "string option"
  sa_status :: sub_status
  sa_waitPolicy :: wait_policy
  sa_depth :: int
  sa_createdAt :: string
  sa_updatedAt :: string
  sa_startedAt :: "string option"
  sa_finishedAt :: "string option"
  sa_lastError :: "string option"

record create_subagent =
  cs_childSessionId :: string
  cs_agentId :: "string option"
  cs_parentSessionId :: string
  cs_callId :: "string option"
  cs_toolName :: "string option"
  cs_name :: "string option"
  cs_nickname :: "string option"
  cs_task :: "string option"
  cs_status :: "sub_status option"
  cs_waitPolicy :: "wait_policy option"
  cs_depth :: "int option"
  cs_owner :: session_owner

text \<open>A field that may be absent, \<^verbatim>\<open>null\<close> or a text is an option of an option.\<close>

record update_subagent =
  us_agentId :: "string option"
  us_name :: "string option"
  us_nickname :: "string option"
  us_task :: "string option"
  us_status :: "sub_status option"
  us_waitPolicy :: "wait_policy option"
  us_lastError :: "string option option"
  us_startedAt :: "string option"
  us_finishedAt :: "string option option"

definition no_update :: update_subagent where
  "no_update = \<lparr>us_agentId = None, us_name = None, us_nickname = None, us_task = None, us_status = None, us_waitPolicy = None,
     us_lastError = None, us_startedAt = None, us_finishedAt = None\<rparr>"

definition set_status :: "sub_status \<Rightarrow> update_subagent" where
  "set_status s = no_update\<lparr>us_status := Some s\<rparr>"

record 'w subagent_store =
  ss_create :: "create_subagent \<Rightarrow> ('w, subagent) act"
  ss_findOwned :: "session_owner \<Rightarrow> string \<Rightarrow> ('w, subagent option) act"
  ss_listOwned :: "session_owner \<Rightarrow> string \<Rightarrow> ('w, subagent list) act"
  ss_updateOwned :: "session_owner \<Rightarrow> string \<Rightarrow> update_subagent \<Rightarrow> ('w, subagent option) act"

subsection \<open>Checks and names\<close>

definition sameOwner :: "session_owner \<Rightarrow> session_owner \<Rightarrow> bool" where
  "sameOwner a b \<longleftrightarrow> ow_tenantId a = ow_tenantId b \<and> ow_principalId a = ow_principalId b \<and> ow_principalType a = ow_principalType b \<and>
     issuer_text a = issuer_text b"

definition owner_field :: "string \<Rightarrow> string \<Rightarrow> unit res" where
  "owner_field key v = assert_that (\<not> (js_trim v = [] \<or> length v > 512)) (Error (key @ '' is invalid.''))"

definition assertSubagentOwner :: "session_owner \<Rightarrow> unit res" where
  "assertSubagentOwner o' = checks [(case ow_issuer o' of None \<Rightarrow> Inr () | Some i \<Rightarrow> owner_field ''issuer'' i),
     owner_field ''principalId'' (ow_principalId o'), owner_field ''principalType'' (ow_principalType o'), owner_field ''tenantId'' (ow_tenantId o')]"

definition session_field :: "string \<Rightarrow> string \<Rightarrow> unit res" where
  "session_field key v = assert_that (\<not> (js_trim v = [] \<or> length v > 512 \<or> list_ex is_js_space v)) (Error (key @ '' is invalid.''))"

definition assertCreate :: "create_subagent \<Rightarrow> unit res" where
  "assertCreate i = checks [assertSubagentOwner (cs_owner i), session_field ''childSessionId'' (cs_childSessionId i),
     session_field ''parentSessionId'' (cs_parentSessionId i),
     (case cs_depth i of None \<Rightarrow> Inr () | Some d \<Rightarrow> assert_that (1 \<le> d \<and> d \<le> 32) (Error ''depth must be between 1 and 32.''))]"

definition nickname_char :: "char \<Rightarrow> bool" where
  "nickname_char c \<longleftrightarrow> is_alnum c \<or> c = CHR ''_'' \<or> c = CHR ''-''"

text \<open>\<^verbatim>\<open>replace(/[^a-z0-9_-]+/gi, "-")\<close>: each longest run of other characters becomes one dash.\<close>

fun dash_runs :: "bool \<Rightarrow> string \<Rightarrow> string" where
  "dash_runs inside [] = []"
| "dash_runs inside (c # cs) = (if nickname_char c then c # dash_runs False cs
     else if inside then dash_runs True cs else CHR ''-'' # dash_runs True cs)"

text \<open>\<^verbatim>\<open>replace(/^-|-$/g, "")\<close>: one dash at either end.\<close>

definition drop_end_dashes :: "string \<Rightarrow> string" where
  "drop_end_dashes s = (let t = (if s \<noteq> [] \<and> hd s = CHR ''-'' then tl s else s)
     in if t \<noteq> [] \<and> last t = CHR ''-'' then butlast t else t)"

definition or_else :: "string \<Rightarrow> string \<Rightarrow> string" where
  "or_else s t = (if s = [] then t else s)"

definition take_end :: "nat \<Rightarrow> string \<Rightarrow> string" where
  "take_end n s = drop (length s - n) s"

definition lower_eq :: "string \<Rightarrow> char \<Rightarrow> bool" where
  "lower_eq cs c \<longleftrightarrow> c \<in> set cs"

text \<open>\<^verbatim>\<open>replace(/^ses[_-]/i, "")\<close>\<close>

definition without_ses :: "string \<Rightarrow> string" where
  "without_ses s = (if length s \<ge> 4 \<and> lower_eq ''sS'' (s ! 0) \<and> lower_eq ''eE'' (s ! 1) \<and> lower_eq ''sS'' (s ! 2) \<and> lower_eq ''_-'' (s ! 3)
     then drop 4 s else s)"

definition makeNickname :: "string option \<Rightarrow> string \<Rightarrow> string" where
  "makeNickname name child = (let base = or_else (take 24 (drop_end_dashes (dash_runs False
       (or_else (case name of None \<Rightarrow> [] | Some n \<Rightarrow> js_trim n) ''subagent'')))) ''subagent'';
     suffix = or_else (take_end 16 (without_ses child)) (take_end 8 child)
   in take 48 (base @ ''-'' @ suffix))"

definition nickname_of :: "create_subagent \<Rightarrow> string" where
  "nickname_of i = or_else (case cs_nickname i of None \<Rightarrow> [] | Some n \<Rightarrow> js_trim n) (makeNickname (cs_name i) (cs_childSessionId i))"

definition default_to :: "'a \<Rightarrow> 'a option \<Rightarrow> 'a" where
  "default_to d v = (case v of None \<Rightarrow> d | Some x \<Rightarrow> x)"

definition new_record :: "string \<Rightarrow> create_subagent \<Rightarrow> subagent" where
  "new_record now i = \<lparr>sa_childSessionId = cs_childSessionId i, sa_agentId = truthy (cs_agentId i), sa_parentSessionId = cs_parentSessionId i,
     sa_callId = truthy (cs_callId i), sa_toolName = truthy (cs_toolName i), sa_name = truthy (cs_name i), sa_nickname = nickname_of i,
     sa_task = truthy (cs_task i), sa_status = default_to SubStarting (cs_status i), sa_waitPolicy = default_to Wait (cs_waitPolicy i),
     sa_depth = default_to 1 (cs_depth i), sa_createdAt = now, sa_updatedAt = now,
     sa_startedAt = (if cs_status i = Some SubRunning then Some now else None), sa_finishedAt = None, sa_lastError = None\<rparr>"

definition owned_elsewhere :: js_error where
  "owned_elsewhere = Error ''The child session is owned by another principal.''"

definition idle_status :: "sub_status \<Rightarrow> bool" where
  "idle_status s \<longleftrightarrow> s \<in> {SubWaiting, SubCompleted, SubFailed, SubInterrupted, SubClosed}"

subsection \<open>The map in memory\<close>

type_synonym subagent_map = "(string \<times> session_owner \<times> subagent) list"

definition updated_record :: "string \<Rightarrow> update_subagent \<Rightarrow> subagent \<Rightarrow> subagent" where
  "updated_record now p r =
     (let status = default_to (sa_status r) (us_status p);
          startedAt = coalesce (coalesce (us_startedAt p) (sa_startedAt r)) (if status = SubRunning then Some now else None);
          finishedAt = (if us_finishedAt p = Some None \<or> status = SubRunning \<or> status = SubStarting then None
            else coalesce (coalesce (default_to None (us_finishedAt p)) (sa_finishedAt r)) (if idle_status status then Some now else None));
          lastError = (if us_lastError p = Some None \<or> status = SubRunning then None
            else coalesce (default_to None (us_lastError p)) (sa_lastError r))
      in r\<lparr>sa_agentId := coalesce (truthy (us_agentId p)) (sa_agentId r), sa_name := coalesce (truthy (us_name p)) (sa_name r),
           sa_nickname := default_to (sa_nickname r) (truthy (us_nickname p)), sa_task := coalesce (truthy (us_task p)) (sa_task r),
           sa_status := status, sa_waitPolicy := default_to (sa_waitPolicy r) (us_waitPolicy p), sa_updatedAt := now,
           sa_lastError := truthy lastError, sa_startedAt := truthy startedAt, sa_finishedAt := truthy finishedAt\<rparr>)"

definition mem_updateOwned :: "string \<Rightarrow> session_owner \<Rightarrow> string \<Rightarrow> update_subagent \<Rightarrow> (subagent_map, subagent option) act" where
  "mem_updateOwned now o' child p m = (case map_of m child of None \<Rightarrow> (Inr None, m)
   | Some (o'', r) \<Rightarrow> if \<not> sameOwner o'' o' then (Inr None, m)
       else let r' = updated_record now p r in (Inr (Some r'), map_set child (o'', r') m))"

definition mem_create :: "string \<Rightarrow> create_subagent \<Rightarrow> (subagent_map, subagent) act" where
  "mem_create now i =
     bind_act (lift_res (assertCreate i)) (\<lambda>_ m. case map_of m (cs_childSessionId i) of
       Some (o', r) \<Rightarrow> if \<not> sameOwner o' (cs_owner i) then (Inl owned_elsewhere, m)
         else if cs_status i = Some SubRunning \<and> (sa_status r = SubStarting \<or> sa_status r = SubWaiting)
         then bind_act (mem_updateOwned now (cs_owner i) (cs_childSessionId i) (set_status SubRunning)) (\<lambda>u. ret (default_to r u)) m
         else (Inr r, m)
     | None \<Rightarrow> (Inr (new_record now i), map_set (cs_childSessionId i) (cs_owner i, new_record now i) m))"

definition mem_findOwned :: "session_owner \<Rightarrow> string \<Rightarrow> (subagent_map, subagent option) act" where
  "mem_findOwned o' child m = (Inr (case map_of m child of None \<Rightarrow> None
     | Some (o'', r) \<Rightarrow> if sameOwner o'' o' then Some r else None), m)"

definition mem_listOwned :: "(string \<Rightarrow> string \<Rightarrow> int) \<Rightarrow> session_owner \<Rightarrow> string \<Rightarrow> (subagent_map, subagent list) act" where
  "mem_listOwned localeCompare o' parent m = (Inr (sort_by (\<lambda>a b. localeCompare (sa_createdAt a) (sa_createdAt b))
     (map snd (filter (\<lambda>(o'', r). sameOwner o'' o' \<and> sa_parentSessionId r = parent) (map snd m)))), m)"

definition memory_subagents :: "(string \<Rightarrow> string \<Rightarrow> int) \<Rightarrow> string \<Rightarrow> subagent_map subagent_store" where
  "memory_subagents localeCompare now = \<lparr>ss_create = mem_create now, ss_findOwned = mem_findOwned,
     ss_listOwned = mem_listOwned localeCompare, ss_updateOwned = mem_updateOwned now\<rparr>"

subsection \<open>The table\<close>

record subagent_table =
  st_sessions :: "string list"
  st_rows :: "(session_owner \<times> subagent) list"

definition subagent_record :: "subagent \<Rightarrow> subagent" where
  "subagent_record r = r\<lparr>sa_agentId := truthy (sa_agentId r), sa_callId := truthy (sa_callId r), sa_toolName := truthy (sa_toolName r),
     sa_name := truthy (sa_name r), sa_task := truthy (sa_task r), sa_startedAt := truthy (sa_startedAt r),
     sa_finishedAt := truthy (sa_finishedAt r), sa_lastError := truthy (sa_lastError r)\<rparr>"

definition sub_changed :: js_error where
  "sub_changed = Error ''The Agent subagent persistence state changed unexpectedly.''"

definition row_of :: "string \<Rightarrow> session_owner \<times> subagent \<Rightarrow> bool" where
  "row_of child = (\<lambda>(o', r). sa_childSessionId r = child)"

definition owned_row :: "session_owner \<Rightarrow> string \<Rightarrow> session_owner \<times> subagent \<Rightarrow> bool" where
  "owned_row o' child = (\<lambda>(o'', r). sa_childSessionId r = child \<and> sameOwner o'' o')"

text \<open>The row of the insert: what is given is stored as it is, and an absent field is \<^verbatim>\<open>null\<close>.\<close>

definition inserted_row :: "string \<Rightarrow> create_subagent \<Rightarrow> subagent" where
  "inserted_row now i = (new_record now i)\<lparr>sa_agentId := cs_agentId i, sa_callId := cs_callId i, sa_toolName := cs_toolName i,
     sa_name := cs_name i, sa_task := cs_task i\<rparr>"

text \<open>\<^verbatim>\<open>on conflict (child_session_id) do update set\<close>\<close>

definition conflict_row :: "string \<Rightarrow> create_subagent \<Rightarrow> subagent \<Rightarrow> subagent" where
  "conflict_row dbnow i r = r\<lparr>sa_agentId := coalesce (cs_agentId i) (sa_agentId r), sa_name := coalesce (cs_name i) (sa_name r),
     sa_nickname := or_else (nickname_of i) (sa_nickname r), sa_task := coalesce (cs_task i) (sa_task r),
     sa_status := (if (sa_status r = SubStarting \<or> sa_status r = SubWaiting) \<and> default_to SubStarting (cs_status i) = SubRunning
       then SubRunning else sa_status r), sa_updatedAt := dbnow\<rparr>"

definition sql_create :: "string \<Rightarrow> string \<Rightarrow> create_subagent \<Rightarrow> (subagent_table, subagent) act" where
  "sql_create now dbnow i =
     bind_act (lift_res (assertCreate i)) (\<lambda>_ t. case find (row_of (cs_childSessionId i)) (st_rows t) of
       Some (o', r) \<Rightarrow> if \<not> sameOwner o' (cs_owner i) then (Inl sub_changed, t)
         else (Inr (subagent_record (conflict_row dbnow i r)),
           t\<lparr>st_rows := update_where (row_of (cs_childSessionId i)) (\<lambda>(o', r). (o', conflict_row dbnow i r)) (st_rows t)\<rparr>)
     | None \<Rightarrow> if cs_parentSessionId i \<notin> set (st_sessions t) then (Inl (Error ''violates foreign key constraint''), t)
         else (Inr (subagent_record (inserted_row now i)), t\<lparr>st_rows := st_rows t @ [(cs_owner i, inserted_row now i)]\<rparr>))"

definition sql_findOwned :: "session_owner \<Rightarrow> string \<Rightarrow> (subagent_table, subagent option) act" where
  "sql_findOwned o' child = bind_act (lift_res (assertSubagentOwner o'))
     (\<lambda>_ t. (Inr (map_option (\<lambda>x. subagent_record (snd x)) (find (owned_row o' child) (st_rows t))), t))"

definition sql_listOwned :: "(string \<Rightarrow> string \<Rightarrow> int) \<Rightarrow> session_owner \<Rightarrow> string \<Rightarrow> (subagent_table, subagent list) act" where
  "sql_listOwned by_time o' parent = bind_act (lift_res (assertSubagentOwner o'))
     (\<lambda>_ t. (Inr (map subagent_record (sort_by (\<lambda>a b. by_time (sa_createdAt a) (sa_createdAt b))
       (map snd (filter (\<lambda>(o'', r). sameOwner o'' o' \<and> sa_parentSessionId r = parent) (st_rows t))))), t))"

definition no_fields :: "update_subagent \<Rightarrow> bool" where
  "no_fields p \<longleftrightarrow> truthy (us_agentId p) = None \<and> truthy (us_name p) = None \<and> truthy (us_nickname p) = None \<and> truthy (us_task p) = None \<and>
     us_status p = None \<and> us_waitPolicy p = None \<and> us_lastError p = None \<and> us_startedAt p = None \<and> us_finishedAt p = None"

text \<open>The row after \<^verbatim>\<open>update ... set\<close>, with the times as the database stores them.\<close>

definition set_fields :: "string \<Rightarrow> update_subagent \<Rightarrow> subagent \<Rightarrow> subagent" where
  "set_fields dbnow p r =
     (let running = (us_status p = Some SubRunning);
          idle = (case us_status p of None \<Rightarrow> False | Some s \<Rightarrow> idle_status s)
      in r\<lparr>sa_agentId := coalesce (truthy (us_agentId p)) (sa_agentId r), sa_name := coalesce (truthy (us_name p)) (sa_name r),
           sa_nickname := default_to (sa_nickname r) (truthy (us_nickname p)), sa_task := coalesce (truthy (us_task p)) (sa_task r),
           sa_status := default_to (sa_status r) (us_status p), sa_waitPolicy := default_to (sa_waitPolicy r) (us_waitPolicy p),
           sa_lastError := (case us_lastError p of Some e \<Rightarrow> e | None \<Rightarrow> if running then None else sa_lastError r),
           sa_startedAt := (case us_startedAt p of Some s \<Rightarrow> Some s | None \<Rightarrow> if running then coalesce (sa_startedAt r) (Some dbnow) else sa_startedAt r),
           sa_finishedAt := (case us_finishedAt p of Some f \<Rightarrow> f
             | None \<Rightarrow> if running then None else if idle then coalesce (sa_finishedAt r) (Some dbnow) else sa_finishedAt r),
           sa_updatedAt := dbnow\<rparr>)"

definition stored_update :: "(string \<Rightarrow> string option) \<Rightarrow> update_subagent \<Rightarrow> update_subagent res" where
  "stored_update to_time p = (case us_startedAt p of
     None \<Rightarrow> (case us_finishedAt p of Some (Some f) \<Rightarrow> map_sum id (\<lambda>v. p\<lparr>us_finishedAt := Some (Some v)\<rparr>) (stored_time to_time f) | _ \<Rightarrow> Inr p)
   | Some s \<Rightarrow> (case stored_time to_time s of Inl e \<Rightarrow> Inl e | Inr u \<Rightarrow>
       (case us_finishedAt p of Some (Some f) \<Rightarrow> map_sum id (\<lambda>v. p\<lparr>us_startedAt := Some u, us_finishedAt := Some (Some v)\<rparr>) (stored_time to_time f)
        | _ \<Rightarrow> Inr (p\<lparr>us_startedAt := Some u\<rparr>))))"

definition sql_updateOwned :: "(string \<Rightarrow> string option) \<Rightarrow> string \<Rightarrow> session_owner \<Rightarrow> string \<Rightarrow> update_subagent \<Rightarrow> (subagent_table, subagent option) act" where
  "sql_updateOwned to_time dbnow o' child p =
     bind_act (lift_res (assertSubagentOwner o')) (\<lambda>_. if no_fields p then sql_findOwned o' child
       else bind_act (lift_res (stored_update to_time p)) (\<lambda>q t.
         let f = (\<lambda>(o'', r). (o'', set_fields dbnow q r))
         in (Inr (map_option (\<lambda>x. subagent_record (snd x)) (returning (owned_row o' child) f (st_rows t))),
             t\<lparr>st_rows := update_where (owned_row o' child) f (st_rows t)\<rparr>)))"

definition table_subagents ::
  "(string \<Rightarrow> string \<Rightarrow> int) \<Rightarrow> (string \<Rightarrow> string option) \<Rightarrow> string \<Rightarrow> string \<Rightarrow> subagent_table subagent_store" where
  "table_subagents by_time to_time now dbnow = \<lparr>ss_create = sql_create now dbnow, ss_findOwned = sql_findOwned,
     ss_listOwned = sql_listOwned by_time, ss_updateOwned = sql_updateOwned to_time dbnow\<rparr>"

end
