(* ===== verification/Subagent_Service.thy ===== *)
theory Subagent_Service
  imports Subagent_Store Session_Service Mailbox_Service Run_Service
begin

section \<open>Supervising sub-agents (server/agent-sessions/subagents.ts)\<close>

text \<open>
  Listing, inspecting, following, spawning, messaging, waiting for, interrupting and closing the children of
  a session.  The stores and the runtime are those of the options of the code; a child's own session is
  authoritative for its state.  Errors with a status are \<open>OperationError\<close>.  Requests the code sends
  together (the inspections of a list) are made in order.
\<close>

datatype runtime_status = RtRunning | RtWaiting | RtCompleted | RtFailed | RtCancelled

record spawn_input =
  pi_owner :: session_owner
  pi_parentSessionId :: string
  pi_depth :: int
  pi_task :: string
  pi_name :: "string option"
  pi_waitPolicy :: wait_policy

record spawned =
  sd_childSessionId :: string
  sd_agentId :: "string option"
  sd_name :: "string option"

record 'w subagent_runtime =
  sx_spawn :: "(spawn_input \<Rightarrow> ('w, spawned) act) option"
  sx_inspect :: "session_owner \<Rightarrow> string \<Rightarrow> ('w, runtime_status \<times> string option) act"
  sx_cancel :: "string \<Rightarrow> ('w, cancel_status) act"
  sx_reset :: "(string \<Rightarrow> string \<Rightarrow> ('w, reset_status) act) option"

text \<open>\<^verbatim>\<open>eveAgentSubagentRuntime.inspect\<close>: the state of a child from the boundary of its session.\<close>

fun inspection :: "eve_boundary \<Rightarrow> runtime_status \<times> string option" where
  "inspection (BoundRunning turn) = (RtRunning, truthy turn)"
| "inspection (BoundTerminal t) = (if t = Some TermFailed then RtFailed else RtCompleted, None)"
| "inspection BoundWaiting = (RtWaiting, None)"

record 'w run_access =
  ra_store :: "'w run_store_if"
  ra_findOwnedBySession :: "(string \<Rightarrow> string \<Rightarrow> string \<Rightarrow> ('w, run_row option) act) option"
  ra_runtime :: "'w run_runtime"
  ra_policy :: "'w submission_policy res"
  ra_fingerprint :: "start_request \<Rightarrow> string"

record 'w supervisor =
  su_identity :: session_owner
  su_verify :: "'w verifier"
  su_store :: "'w subagent_store"
  su_runStore :: "'w run_access option"
  su_mailbox :: "('w mailbox_if \<times> (string \<Rightarrow> mail_payload \<Rightarrow> string)) option"
  su_runtime :: "'w subagent_runtime"
  su_configured :: bool
  su_uuid :: "nat \<Rightarrow> 'w \<Rightarrow> string"
  su_now :: "'w \<Rightarrow> int"
  su_delay :: "int \<Rightarrow> ('w, unit) act"

fun mapRuntimeStatus :: "runtime_status \<Rightarrow> sub_status" where
  "mapRuntimeStatus RtCancelled = SubInterrupted"
| "mapRuntimeStatus RtRunning = SubRunning"
| "mapRuntimeStatus RtWaiting = SubWaiting"
| "mapRuntimeStatus RtCompleted = SubCompleted"
| "mapRuntimeStatus RtFailed = SubFailed"

definition active_child :: "subagent \<Rightarrow> bool" where
  "active_child c \<longleftrightarrow> sa_status c \<in> {SubStarting, SubRunning, SubWaiting}"

definition inspect_child :: "'w supervisor \<Rightarrow> string \<Rightarrow> ('w, runtime_status \<times> string option) act" where
  "inspect_child sv child = sx_inspect (su_runtime sv) (su_identity sv) child"

definition update_child :: "'w supervisor \<Rightarrow> string \<Rightarrow> update_subagent \<Rightarrow> ('w, subagent option) act" where
  "update_child sv child p = ss_updateOwned (su_store sv) (su_identity sv) child p"

definition ownedChild :: "'w supervisor \<Rightarrow> string \<Rightarrow> ('w, subagent option) act" where
  "ownedChild sv child = bind_act (ss_findOwned (su_store sv) (su_identity sv) child) (\<lambda>c. case c of None \<Rightarrow> ret None
     | Some c \<Rightarrow> bind_act (su_verify sv (sa_parentSessionId c) (su_identity sv)) (\<lambda>own. ret (if own = Owned then Some c else None)))"

text \<open>An action that reads the clock or draws a random identity first.\<close>

definition reading :: "('w \<Rightarrow> ('w, 'a) act) \<Rightarrow> ('w, 'a) act" where
  "reading f w = f w w"

subsection \<open>Listing and inspecting\<close>

definition inspectAgentSubagent :: "'w supervisor \<Rightarrow> string \<Rightarrow> ('w, subagent option) act" where
  "inspectAgentSubagent sv child = bind_act (ownedChild sv child) (\<lambda>c. case c of None \<Rightarrow> ret None
     | Some c \<Rightarrow> bind_act (attempt (inspect_child sv (sa_childSessionId c))) (\<lambda>r. case r of Inl _ \<Rightarrow> ret (Some c)
       | Inr (s, _) \<Rightarrow> bind_act (update_child sv (sa_childSessionId c) (set_status (mapRuntimeStatus s))) (\<lambda>u. ret (Some (default_to c u)))))"

record subagent_snapshot =
  sp_parentSessionId :: string
  sp_children :: "subagent list"
  sp_activeCount :: nat
  sp_revision :: int

definition child_snapshot :: "(string \<Rightarrow> int option) \<Rightarrow> string \<Rightarrow> subagent list \<Rightarrow> subagent_snapshot" where
  "child_snapshot date_parse parent cs = \<lparr>sp_parentSessionId = parent, sp_children = cs, sp_activeCount = length (filter active_child cs),
     sp_revision = foldl (\<lambda>m c. max m (default_to 0 (date_parse (sa_updatedAt c)))) 0 cs\<rparr>"

fun refresh_children :: "'w supervisor \<Rightarrow> subagent list \<Rightarrow> ('w, subagent list) act" where
  "refresh_children sv [] = ret []"
| "refresh_children sv (c # cs) = bind_act (inspectAgentSubagent sv (sa_childSessionId c))
     (\<lambda>r. bind_act (refresh_children sv cs) (\<lambda>rs. ret (default_to c r # rs)))"

definition listAgentSubagents :: "(string \<Rightarrow> int option) \<Rightarrow> 'w supervisor \<Rightarrow> string \<Rightarrow> ('w, subagent_snapshot option) act" where
  "listAgentSubagents date_parse sv parent = bind_act (su_verify sv parent (su_identity sv)) (\<lambda>own. if own \<noteq> Owned then ret None
     else bind_act (ss_listOwned (su_store sv) (su_identity sv) parent) (\<lambda>cs.
       if \<not> su_configured sv then ret (Some (child_snapshot date_parse parent cs))
       else bind_act (refresh_children sv cs) (\<lambda>rs. ret (Some (child_snapshot date_parse parent rs)))))"

subsection \<open>Following the parent's stream\<close>

record follow_state =
  fs_children :: "(string \<times> subagent) list"
  fs_byCall :: "(string \<times> subagent) list"
  fs_agentIds :: "(string \<times> string) list"

definition follow_start :: "subagent list \<Rightarrow> follow_state" where
  "follow_start cs = \<lparr>fs_children = foldl (\<lambda>m c. map_set (sa_childSessionId c) c m) [] cs,
     fs_byCall = foldl (\<lambda>m c. case truthy (sa_callId c) of None \<Rightarrow> m | Some k \<Rightarrow> map_set k c m) []
       (map snd (foldl (\<lambda>m c. map_set (sa_childSessionId c) c m) [] cs)), fs_agentIds = []\<rparr>"

definition action_agent :: "json \<Rightarrow> (string \<times> string) option" where
  "action_agent a = (case (jstring (jget ''callId'' a), record_of (jget ''input'' a)) of
     (Some call, Some input) \<Rightarrow> (case jstring (jget ''agentId'' input) of None \<Rightarrow> None
       | Some i \<Rightarrow> if js_trim i = [] then None else Some (call, js_trim i))
   | _ \<Rightarrow> None)"

definition agent_of_call :: "follow_state \<Rightarrow> string option \<Rightarrow> string option" where
  "agent_of_call fs call = truthy (map_of (fs_agentIds fs) (default_to [] call))"

definition first_of :: "'a option \<Rightarrow> 'a option \<Rightarrow> 'a option" where
  "first_of x y = (case x of Some a \<Rightarrow> Some a | None \<Rightarrow> y)"

definition called_input :: "'w supervisor \<Rightarrow> string \<Rightarrow> follow_state \<Rightarrow> session_event \<Rightarrow> string \<Rightarrow> create_subagent" where
  "called_input sv parent fs e child =
     (let call = jstring (payload e ''callId'') in
      \<lparr>cs_childSessionId = child,
       cs_agentId = first_of (jstring (payload e ''agentId'')) (case call of None \<Rightarrow> None | Some c \<Rightarrow> truthy (map_of (fs_agentIds fs) c)),
       cs_parentSessionId = parent, cs_callId = call, cs_toolName = jstring (payload e ''toolName''), cs_name = jstring (payload e ''name''),
       cs_nickname = None,
       cs_task = first_of (jstring (payload e ''task'')) (case payload e ''input'' of None \<Rightarrow> None | Some i \<Rightarrow> jstring (jget ''message'' i)),
       cs_status = Some SubRunning,
       cs_waitPolicy = Some (if payload e ''waitPolicy'' = Some (JStr ''no-wait'') then NoWait else Wait),
       cs_depth = Some (default_to 1 (jsafe_int (payload e ''depth''))), cs_owner = su_identity sv\<rparr>)"

definition follow_called :: "'w supervisor \<Rightarrow> string \<Rightarrow> session_event \<Rightarrow> string \<Rightarrow> follow_state \<Rightarrow> ('w, follow_state) act" where
  "follow_called sv parent e child fs = bind_act (ss_create (su_store sv) (called_input sv parent fs e child)) (\<lambda>c.
     ret (fs\<lparr>fs_children := map_set child c (fs_children fs),
       fs_byCall := (case truthy (sa_callId c) of None \<Rightarrow> fs_byCall fs | Some k \<Rightarrow> map_set k c (fs_byCall fs))\<rparr>))"

definition result_failed :: "json option \<Rightarrow> bool" where
  "result_failed r = (case record_of r of None \<Rightarrow> False | Some v \<Rightarrow>
     jget ''status'' v = Some (JStr ''failed'') \<or> jget ''isError'' v = Some (JBool True) \<or> jstring (jget ''error'' v) \<noteq> None)"

definition statusAfterSubagentCompletion :: "'w supervisor \<Rightarrow> subagent \<Rightarrow> string option \<Rightarrow> ('w, sub_status) act" where
  "statusAfterSubagentCompletion sv c agentId = bind_act (attempt (inspect_child sv (sa_childSessionId c))) (\<lambda>r. case r of
     Inl _ \<Rightarrow> ret (if truthy agentId \<noteq> None then SubWaiting else SubCompleted)
   | Inr (s, _) \<Rightarrow> ret (mapRuntimeStatus s))"

definition completed_child :: "session_event \<Rightarrow> follow_state \<Rightarrow> subagent option" where
  "completed_child e fs = first_of (case truthy (jstring (payload e ''callId'')) of None \<Rightarrow> None | Some k \<Rightarrow> map_of (fs_byCall fs) k)
     (case jstring (payload e ''childSessionId'') of None \<Rightarrow> None | Some k \<Rightarrow> map_of (fs_children fs) k)"

definition put_child :: "subagent option \<Rightarrow> follow_state \<Rightarrow> follow_state" where
  "put_child u fs = (case u of None \<Rightarrow> fs | Some c \<Rightarrow> fs\<lparr>fs_children := map_set (sa_childSessionId c) c (fs_children fs)\<rparr>)"

definition follow_completed :: "'w supervisor \<Rightarrow> session_event \<Rightarrow> follow_state \<Rightarrow> ('w, follow_state) act" where
  "follow_completed sv e fs = (case completed_child e fs of None \<Rightarrow> ret fs | Some c \<Rightarrow>
     (let failed = result_failed (payload e ''result''); agent = agent_of_call fs (jstring (payload e ''callId'')) in
      bind_act (if failed then ret SubFailed else statusAfterSubagentCompletion sv c agent) (\<lambda>s.
      bind_act (update_child sv (sa_childSessionId c) ((set_status s)\<lparr>us_agentId := agent,
          us_lastError := (if failed then map_option (\<lambda>m. Some (take 2000 m)) (case record_of (payload e ''result'') of None \<Rightarrow> None | Some r \<Rightarrow> jstring (jget ''error'' r)) else None)\<rparr>))
        (\<lambda>u. ret (put_child u fs)))))"

definition follow_event :: "'w supervisor \<Rightarrow> string \<Rightarrow> session_event \<Rightarrow> follow_state \<Rightarrow> ('w, follow_state) act" where
  "follow_event sv parent e fs = (case record_of (sv_data e) of None \<Rightarrow> ret fs | Some data \<Rightarrow>
     if sv_type e = ''actions.requested'' \<and> jarray (jget ''actions'' data) \<noteq> None
     then ret (fs\<lparr>fs_agentIds := foldl (\<lambda>m (k, v). map_set k v m) (fs_agentIds fs) (List.map_filter action_agent (entries e ''actions''))\<rparr>)
     else if sv_type e = ''subagent.called'' \<and> (case jstring (jget ''childSessionId'' data) of None \<Rightarrow> False | Some i \<Rightarrow> js_trim i \<noteq> [])
     then (case jstring (jget ''childSessionId'' data) of None \<Rightarrow> ret fs | Some child \<Rightarrow> follow_called sv parent e child fs)
     else if sv_type e = ''subagent.completed'' then follow_completed sv e fs
     else ret fs)"

fun follow_events :: "'w supervisor \<Rightarrow> string \<Rightarrow> session_event list \<Rightarrow> follow_state \<Rightarrow> ('w, follow_state) act" where
  "follow_events sv parent [] fs = ret fs"
| "follow_events sv parent (e # es) fs = bind_act (follow_event sv parent e fs) (follow_events sv parent es)"

text \<open>The state a child is left in when its parent was cancelled or ended, if it is known.\<close>

definition settled_status :: "'w supervisor \<Rightarrow> bool \<Rightarrow> subagent \<Rightarrow> ('w, sub_status option) act" where
  "settled_status sv cancelled c = (if \<not> cancelled then ret (Some SubFailed)
     else bind_act (attempt (inspect_child sv (sa_childSessionId c))) (\<lambda>r. case r of Inl _ \<Rightarrow> ret None
       | Inr (s, _) \<Rightarrow> ret (Some (if mapRuntimeStatus s = SubWaiting then SubInterrupted else mapRuntimeStatus s))))"

fun settle_children :: "'w supervisor \<Rightarrow> bool \<Rightarrow> bool \<Rightarrow> subagent list \<Rightarrow> follow_state \<Rightarrow> ('w, follow_state) act" where
  "settle_children sv cancelled ended [] fs = ret fs"
| "settle_children sv cancelled ended (c # cs) fs =
     (if \<not> active_child c \<or> ended \<and> sa_waitPolicy c = NoWait then settle_children sv cancelled ended cs fs
      else bind_act (settled_status sv cancelled c) (\<lambda>s.
        bind_act (case s of None \<Rightarrow> ret None | Some s \<Rightarrow> update_child sv (sa_childSessionId c) (set_status s)) (\<lambda>u.
        settle_children sv cancelled ended cs (put_child u fs))))"

definition syncAgentSubagentsFromEvents ::
  "(string \<Rightarrow> string \<Rightarrow> int) \<Rightarrow> 'w supervisor \<Rightarrow> string \<Rightarrow> session_event list \<Rightarrow> ('w, subagent list) act" where
  "syncAgentSubagentsFromEvents localeCompare sv parent es =
     bind_act (su_verify sv parent (su_identity sv)) (\<lambda>own. if own \<noteq> Owned then ret [] else
     bind_act (ss_listOwned (su_store sv) (su_identity sv) parent) (\<lambda>cs.
     bind_act (follow_events sv parent es (follow_start cs)) (\<lambda>fs.
       let cancelled = list_ex (\<lambda>e. sv_type e = ''turn.cancelled'') es;
           ended = list_ex (\<lambda>e. sv_type e = ''session.failed'' \<or> sv_type e = ''session.completed'') es
       in bind_act (if cancelled \<or> ended then settle_children sv cancelled ended (map snd (fs_children fs)) fs else ret fs)
         (\<lambda>fs. ret (sort_by (\<lambda>a b. localeCompare (sa_createdAt a) (sa_createdAt b)) (map snd (fs_children fs)))))))"

subsection \<open>Retiring, spawning\<close>

text \<open>\<^verbatim>\<open>for (let attempt = 1; attempt <= 3; ...)\<close>: \<open>k\<close> attempts are left after this one.\<close>

fun retire_loop :: "nat \<Rightarrow> int \<Rightarrow> 'w supervisor \<Rightarrow> ('w, reset_status) act \<Rightarrow> ('w, unit) act" where
  "retire_loop 0 pause sv reset = bind_act (attempt reset) (\<lambda>r. case r of Inl e \<Rightarrow> throw e | Inr _ \<Rightarrow> ret ())"
| "retire_loop (Suc k) pause sv reset = bind_act (attempt reset) (\<lambda>r. case r of
     Inl e \<Rightarrow> bind_act (su_delay sv pause) (\<lambda>_. retire_loop k (2 * pause) sv reset) | Inr _ \<Rightarrow> ret ())"

definition retireChildSession :: "'w supervisor \<Rightarrow> string \<Rightarrow> string \<Rightarrow> ('w, unit) act" where
  "retireChildSession sv reason child = (case sx_reset (su_runtime sv) of
     None \<Rightarrow> throw (Error ''The Agent runtime does not expose terminal session retirement.'')
   | Some reset \<Rightarrow> retire_loop 2 50 sv (reset reason child))"

definition subagent_error :: "nat \<Rightarrow> string \<Rightarrow> string \<Rightarrow> js_error" where
  "subagent_error status code message = OperationError status code message"

definition spawn_unsupported :: js_error where
  "spawn_unsupported = subagent_error 501 ''agent_subagent_spawn_unsupported''
     ''The active Agent runtime does not expose external subagent spawning; ask the parent Agent to delegate the task.''"

definition spawnSessionOnlySubagent :: "'w supervisor \<Rightarrow> string \<Rightarrow> string \<Rightarrow> string option \<Rightarrow> wait_policy \<Rightarrow> int \<Rightarrow> ('w, spawned) act" where
  "spawnSessionOnlySubagent sv parent task name wp depth = (case sx_spawn (su_runtime sv) of None \<Rightarrow> throw spawn_unsupported
     | Some spawn \<Rightarrow> spawn \<lparr>pi_owner = su_identity sv, pi_parentSessionId = parent, pi_depth = depth, pi_task = task,
         pi_name = truthy name, pi_waitPolicy = wp\<rparr>)"

definition lineage_metadata :: "string \<Rightarrow> string \<Rightarrow> wait_policy \<Rightarrow> json" where
  "lineage_metadata parent runId wp = JObj [(''openAgent'', JObj [(''kind'', JStr ''external-subagent''), (''parentSessionId'', JStr parent),
     (''parentRunId'', JStr runId), (''waitPolicy'', JStr (case wp of Wait \<Rightarrow> ''wait'' | NoWait \<Rightarrow> ''no-wait''))])]"

definition run_request :: "string \<Rightarrow> string \<Rightarrow> run_row \<Rightarrow> string \<Rightarrow> string \<Rightarrow> wait_policy \<Rightarrow> int \<Rightarrow> start_request" where
  "run_request u1 u2 run parent task wp depth = \<lparr>sr_correlationId = ''subagent-'' @ u1, sr_idempotencyKey = ''subagent-'' @ u2,
     sr_metadata = Some (lineage_metadata parent (rr_runId run) wp),
     sr_parent = Some \<lparr>rp_depth = depth, rp_parentRunId = rr_runId run,
       rp_rootRunId = (case rr_parent run of None \<Rightarrow> rr_runId run | Some p \<Rightarrow> rp_rootRunId p), rp_source = ''agent''\<rparr>,
     sr_policy = Some (rr_policy run), sr_profile = rr_profile run, sr_message = task\<rparr>"

definition run_not_started :: "disposition_start \<Rightarrow> js_error" where
  "run_not_started d = (if d = StartAmbiguous
     then subagent_error 503 ''agent_subagent_run_not_started'' ''The child AgentRun submission is ambiguous and was not attached to a session.''
     else subagent_error 502 ''agent_subagent_run_not_started'' ''The child AgentRun did not return a session.'')"

definition spawnPersistedAgentRun ::
  "'w supervisor \<Rightarrow> 'w run_access \<Rightarrow> run_row \<Rightarrow> string \<Rightarrow> string \<Rightarrow> string option \<Rightarrow> wait_policy \<Rightarrow> int \<Rightarrow> ('w, spawned) act" where
  "spawnPersistedAgentRun sv ra run parent task name wp depth = reading (\<lambda>w.
     bind_act (startAgentRun (ra_fingerprint ra) (ra_store ra) (ra_runtime ra) (ra_policy ra)
         \<lparr>id_principalId = ow_principalId (su_identity sv), id_tenantId = ow_tenantId (su_identity sv)\<rparr>
         (run_request (su_uuid sv 0 w) (su_uuid sv 1 w) run parent task wp depth))
       (\<lambda>(d, r). case truthy (rr_sessionId r) of None \<Rightarrow> throw (run_not_started d)
         | Some child \<Rightarrow> ret \<lparr>sd_childSessionId = child, sd_agentId = None, sd_name = truthy name\<rparr>))"

definition parent_run :: "'w supervisor \<Rightarrow> string \<Rightarrow> ('w, run_row option) act" where
  "parent_run sv parent = (case su_runStore sv of None \<Rightarrow> ret None | Some ra \<Rightarrow> (case ra_findOwnedBySession ra of None \<Rightarrow> ret None
     | Some search \<Rightarrow> search (ow_tenantId (su_identity sv)) (ow_principalId (su_identity sv)) parent))"

definition can_spawn :: "'w supervisor \<Rightarrow> bool" where
  "can_spawn sv \<longleftrightarrow> sx_spawn (su_runtime sv) \<noteq> None \<or> (case su_runStore sv of None \<Rightarrow> False | Some ra \<Rightarrow> ra_findOwnedBySession ra \<noteq> None)"

definition start_child :: "'w supervisor \<Rightarrow> string \<Rightarrow> string \<Rightarrow> string option \<Rightarrow> wait_policy \<Rightarrow> int \<Rightarrow> ('w, spawned) act" where
  "start_child sv parent task name wp depth = bind_act (parent_run sv parent) (\<lambda>run. case (run, su_runStore sv) of
     (Some run, Some ra) \<Rightarrow> spawnPersistedAgentRun sv ra run parent task name wp depth
   | _ \<Rightarrow> spawnSessionOnlySubagent sv parent task name wp depth)"

definition orphan_error :: "string \<Rightarrow> js_error" where
  "orphan_error child = subagent_error 503 ''agent_subagent_orphan_retirement_failed''
     (''The subagent projection failed and the child could not be retired ('' @ child @ ''). Operator reconciliation is required before retrying.'')"

definition record_child ::
  "'w supervisor \<Rightarrow> string \<Rightarrow> string \<Rightarrow> string option \<Rightarrow> string option \<Rightarrow> wait_policy \<Rightarrow> int \<Rightarrow> spawned \<Rightarrow> ('w, subagent) act" where
  "record_child sv parent task name nickname wp depth child =
     catch_act (ss_create (su_store sv) \<lparr>cs_childSessionId = sd_childSessionId child, cs_agentId = truthy (sd_agentId child),
         cs_parentSessionId = parent, cs_callId = None, cs_toolName = None,
         cs_name = (if truthy name \<noteq> None \<or> truthy (sd_name child) \<noteq> None then first_of name (sd_name child) else None),
         cs_nickname = truthy nickname, cs_task = Some task, cs_status = Some SubStarting, cs_waitPolicy = Some wp, cs_depth = Some depth,
         cs_owner = su_identity sv\<rparr>)
       (\<lambda>e. bind_act (catch_act (retireChildSession sv ''subagent-projection-persistence-failed'' (sd_childSessionId child))
              (\<lambda>_. throw (orphan_error (sd_childSessionId child)))) (\<lambda>_. throw e))"

definition spawnAgentSubagent ::
  "'w supervisor \<Rightarrow> string \<Rightarrow> string \<Rightarrow> string option \<Rightarrow> string option \<Rightarrow> wait_policy option \<Rightarrow> ('w, subagent) act" where
  "spawnAgentSubagent sv parent task' name nickname wp' =
     bind_act (su_verify sv parent (su_identity sv)) (\<lambda>own.
       if own \<noteq> Owned then throw (subagent_error (if own = OwnMissing then 404 else 403) ''agent_session_not_found'' ''The parent Agent session is not available.'')
       else let task = js_trim task'; wp = default_to Wait wp' in
       if task = [] \<or> length task > 100000
       then throw (subagent_error 400 ''agent_subagent_task_invalid'' ''The subagent task must contain between 1 and 100000 characters.'')
       else if \<not> can_spawn sv then throw spawn_unsupported
       else bind_act (ss_listOwned (su_store sv) (su_identity sv) parent) (\<lambda>cs.
         if length (filter active_child cs) \<ge> 16
         then throw (subagent_error 429 ''agent_subagent_limit_reached'' ''A session may have at most sixteen active subagents.'')
         else bind_act (ss_findOwned (su_store sv) (su_identity sv) parent) (\<lambda>p.
           let depth = (case p of None \<Rightarrow> 0 | Some r \<Rightarrow> sa_depth r) + 1 in
           if depth > 8 then throw (subagent_error 429 ''agent_subagent_depth_limit_reached'' ''The maximum nested subagent depth is eight.'')
           else bind_act (start_child sv parent task name wp depth) (record_child sv parent task name nickname wp depth))))"

subsection \<open>Messages\<close>

definition not_resumable :: js_error where
  "not_resumable = subagent_error 409 ''agent_subagent_not_resumable'' ''This subagent is not accepting messages in its current state.''"

text \<open>The kind of the message and the turn it steers, from the state of the child.\<close>

definition message_kind :: "'w supervisor \<Rightarrow> bool \<Rightarrow> subagent \<Rightarrow> ('w, op_kind \<times> string option) act" where
  "message_kind sv resume c = (if \<not> resume \<and> sa_status c = SubRunning
     then bind_act (inspect_child sv (sa_childSessionId c)) (\<lambda>(s, turn). case truthy turn of
         Some t \<Rightarrow> if s = RtRunning then ret (Steer, Some t)
           else throw (subagent_error 409 ''agent_subagent_busy'' ''The subagent is still starting its active turn. Try again when it reaches a turn boundary.'')
       | None \<Rightarrow> throw (subagent_error 409 ''agent_subagent_busy'' ''The subagent is still starting its active turn. Try again when it reaches a turn boundary.''))
     else ret (Send, None))"

definition message_rejected :: "nat \<Rightarrow> js_error" where
  "message_rejected status = subagent_error status ''agent_subagent_message_rejected'' ''The subagent did not accept the message.''"

definition message_options :: "session_owner \<Rightarrow> string \<Rightarrow> string \<Rightarrow> string \<Rightarrow> string option \<Rightarrow> op_kind \<times> string option \<Rightarrow> string \<Rightarrow> enqueue_options" where
  "message_options who child u1 u2 operationId kind message = \<lparr>eo_beforeTurnId = None, eo_clientMessageId = ''subagent-'' @ u2,
     eo_clientContext = None, eo_expectedTurnId = snd kind, eo_inputResponses = None,
     eo_operationId = Some (or_else (case operationId of None \<Rightarrow> [] | Some i \<Rightarrow> js_trim i) (''subagent-'' @ u1)),
     eo_operationKind = Some (fst kind), eo_message = Some message, eo_owner = who, eo_preferences = None, eo_sessionId = child\<rparr>"

definition deliver_message ::
  "'w supervisor \<Rightarrow> 'w mailbox_if \<times> (string \<Rightarrow> mail_payload \<Rightarrow> string) \<Rightarrow> subagent \<Rightarrow> string \<Rightarrow> string option \<Rightarrow> op_kind \<times> string option \<Rightarrow> ('w, subagent option) act" where
  "deliver_message sv mb c message operationId kind = reading (\<lambda>w.
     bind_act (enqueueAgentMailboxMessage (snd mb) (fst mb)
        (message_options (su_identity sv) (sa_childSessionId c) (su_uuid sv 0 w) (su_uuid sv 1 w) operationId kind message))
      (\<lambda>r. if r = Full then throw (message_rejected 429)
        else if r \<in> {Forbidden, MissingSession, UnsupportedEdit} then throw (message_rejected 409)
        else update_child sv (sa_childSessionId c) (set_status SubRunning)))"

definition hand_over :: "'w supervisor \<Rightarrow> string \<Rightarrow> bool \<Rightarrow> string option \<Rightarrow> subagent \<Rightarrow> ('w, subagent option) act" where
  "hand_over sv message' resume operationId c = (case su_mailbox sv of
     None \<Rightarrow> throw (subagent_error 503 ''agent_mailbox_unavailable'' ''The Agent mailbox is not configured.'')
   | Some mb \<Rightarrow> let message = js_trim message' in
       if message = [] \<or> length message > 100000 then throw (subagent_error 400 ''agent_subagent_message_invalid'' ''The subagent message is invalid.'')
       else bind_act (message_kind sv resume c) (deliver_message sv mb c message operationId))"

definition sendAgentSubagentMessage :: "'w supervisor \<Rightarrow> string \<Rightarrow> string \<Rightarrow> bool \<Rightarrow> string option \<Rightarrow> ('w, subagent option) act" where
  "sendAgentSubagentMessage sv child message' resume operationId = bind_act (ownedChild sv child) (\<lambda>c. case c of None \<Rightarrow> ret None | Some c \<Rightarrow>
     bind_act (if resume \<and> (sa_status c = SubCompleted \<or> sa_status c = SubInterrupted)
         then bind_act (inspectAgentSubagent sv child) (\<lambda>i. ret (default_to c i)) else ret c) (\<lambda>c.
       if sa_status c = SubClosed \<or> sa_status c = SubCompleted \<or> sa_status c = SubInterrupted \<and> \<not> resume then throw not_resumable
       else hand_over sv message' resume operationId c))"

subsection \<open>Waiting, interrupting, closing\<close>

definition wait_timeout :: "int option \<Rightarrow> int" where
  "wait_timeout t = min (max (default_to 30000 t) 0) 300000"

text \<open>The loop over the clock; \<open>fuel\<close> bounds its rounds, and \<open>None\<close> is a bound that was too small.\<close>

fun wait_loop :: "nat \<Rightarrow> 'w supervisor \<Rightarrow> string \<Rightarrow> int \<Rightarrow> int \<Rightarrow> subagent \<Rightarrow> ('w, subagent option) act" where
  "wait_loop 0 sv child timeout deadline current = ret None"
| "wait_loop (Suc fuel) sv child timeout deadline current = reading (\<lambda>w.
     if su_now sv w > deadline then ret (Some current) else
     bind_act (inspect_child sv child) (\<lambda>(s, _).
     bind_act (update_child sv child (set_status (mapRuntimeStatus s))) (\<lambda>u.
       if idle_status (mapRuntimeStatus s) \<or> timeout = 0 then ret (Some (default_to current u))
       else bind_act (reading (\<lambda>v. su_delay sv (min 500 (max 20 (deadline - su_now sv v)))))
         (\<lambda>_. wait_loop fuel sv child timeout deadline (default_to current u)))))"

definition wait_rounds :: nat where
  "wait_rounds = 15002"

text \<open>\<open>Some None\<close> is no child; \<open>None\<close> is a bound on the rounds that was too small.\<close>

definition waitForAgentSubagent :: "'w supervisor \<Rightarrow> string \<Rightarrow> int option \<Rightarrow> ('w, subagent option option) act" where
  "waitForAgentSubagent sv child timeout = bind_act (ownedChild sv child) (\<lambda>c. case c of None \<Rightarrow> ret (Some None) | Some c \<Rightarrow>
     bind_act (reading (\<lambda>w. wait_loop wait_rounds sv (sa_childSessionId c) (wait_timeout timeout) (su_now sv w + wait_timeout timeout) c))
       (\<lambda>r. ret (map_option Some r)))"

definition interrupted_or :: "bool \<Rightarrow> runtime_status \<Rightarrow> sub_status" where
  "interrupted_or accepted s = (if accepted \<and> mapRuntimeStatus s = SubWaiting then SubInterrupted else mapRuntimeStatus s)"

definition interruptAgentSubagent :: "'w supervisor \<Rightarrow> string \<Rightarrow> ('w, subagent option) act" where
  "interruptAgentSubagent sv child = bind_act (ownedChild sv child) (\<lambda>c. case c of None \<Rightarrow> ret None | Some c \<Rightarrow>
     bind_act (sx_cancel (su_runtime sv) (sa_childSessionId c)) (\<lambda>r.
     catch_act (bind_act (inspect_child sv (sa_childSessionId c)) (\<lambda>(s, _).
         bind_act (update_child sv (sa_childSessionId c) (set_status (interrupted_or (r = TurnCancelAccepted) s))) (\<lambda>u. ret (Some (default_to c u)))))
       (\<lambda>_. ret (Some c))))"

definition closeAgentSubagent :: "'w supervisor \<Rightarrow> string \<Rightarrow> ('w, subagent option) act" where
  "closeAgentSubagent sv child = bind_act (ownedChild sv child) (\<lambda>c. case c of None \<Rightarrow> ret None | Some c \<Rightarrow>
     bind_act (retireChildSession sv ''subagent-closed-by-owner'' (sa_childSessionId c)) (\<lambda>_.
     update_child sv (sa_childSessionId c) (set_status SubClosed)))"

end
