(* ===== verification/Subagent_Theorems.thy ===== *)
theory Subagent_Theorems
  imports Subagent_Service
begin

section \<open>Properties of sub-agents\<close>

text \<open>
  Whatever a principal does with its sub-agents, through whichever store: the records of other principals
  are untouched, and what identifies a child (its parent, its call, its depth) is written once.
\<close>

subsection \<open>What may become of a record\<close>

definition same_child :: "subagent \<Rightarrow> subagent \<Rightarrow> bool" where
  "same_child a b \<longleftrightarrow> sa_childSessionId a = sa_childSessionId b \<and> sa_parentSessionId a = sa_parentSessionId b \<and> sa_callId a = sa_callId b \<and>
     sa_toolName a = sa_toolName b \<and> sa_depth a = sa_depth b \<and> sa_createdAt a = sa_createdAt b"

type_synonym entry = "session_owner \<times> subagent"

fun evolves :: "session_owner \<Rightarrow> entry option \<Rightarrow> entry option \<Rightarrow> bool" where
  "evolves who None None = True"
| "evolves who None (Some (o', b)) = sameOwner o' who"
| "evolves who (Some (o1, a)) (Some (o2, b)) \<longleftrightarrow> o2 = o1 \<and> (b = a \<or> sameOwner o1 who \<and> same_child a b)"
| "evolves who (Some a) None = False"

lemma same_child_trans: "same_child a b \<Longrightarrow> same_child b c \<Longrightarrow> same_child a c"
  by (simp add: same_child_def)

lemma evolves_refl: "evolves who x x"
  by (cases x) auto

lemma evolves_trans: "evolves who x y \<Longrightarrow> evolves who y z \<Longrightarrow> evolves who x z"
  by (cases x; cases y; cases z) (auto intro: same_child_trans)

lemma sameOwner_refl: "sameOwner o' o'"
  by (simp add: sameOwner_def)

lemma sameOwner_eq: "sameOwner a who \<Longrightarrow> sameOwner a b \<longleftrightarrow> sameOwner who b" "sameOwner a b \<longleftrightarrow> sameOwner b a"
  by (auto simp: sameOwner_def)

subsection \<open>The interface\<close>

locale subagent_provider =
  fixes store :: "'w subagent_store"
    and lookup :: "'w \<Rightarrow> string \<Rightarrow> entry option"
    and inv :: "'w \<Rightarrow> bool"
  assumes create_keeps: "inv w \<Longrightarrow> ss_create store i w = (rc, w') \<Longrightarrow> inv w' \<and> (\<forall>k. evolves (cs_owner i) (lookup w k) (lookup w' k)) \<and>
      (\<forall>k. k \<noteq> cs_childSessionId i \<longrightarrow> lookup w' k = lookup w k)"
    and create_value: "inv w \<Longrightarrow> ss_create store i w = (Inr c, w') \<Longrightarrow>
      \<exists>o'. lookup w' (cs_childSessionId i) = Some (o', c) \<and> sameOwner o' (cs_owner i)"
    and create_new: "inv w \<Longrightarrow> ss_create store i w = (Inr c, w') \<Longrightarrow> lookup w (cs_childSessionId i) = None \<Longrightarrow>
      sa_depth c = default_to 1 (cs_depth i)"
    and update_keeps: "inv w \<Longrightarrow> ss_updateOwned store who k p w = (ru, w') \<Longrightarrow> inv w' \<and> (\<forall>j. evolves who (lookup w j) (lookup w' j)) \<and>
      (\<forall>j. j \<noteq> k \<longrightarrow> lookup w' j = lookup w j)"
    and update_value: "inv w \<Longrightarrow> ss_updateOwned store who k p w = (Inr (Some c), w') \<Longrightarrow>
      (\<exists>o'. lookup w' k = Some (o', c) \<and> sameOwner o' who) \<and> (\<forall>s. us_status p = Some s \<longrightarrow> sa_status c = s)"
    and find_keeps: "inv w \<Longrightarrow> ss_findOwned store who k w = (rf, w') \<Longrightarrow> w' = w \<and>
      (\<forall>c. rf = Inr (Some c) \<longrightarrow> (\<exists>o'. lookup w k = Some (o', c) \<and> sameOwner o' who))"
    and list_keeps: "inv w \<Longrightarrow> ss_listOwned store who parent w = (rl, w') \<Longrightarrow> w' = w \<and>
      (\<forall>cs c. rl = Inr cs \<longrightarrow> (c \<in> set cs \<longleftrightarrow> (\<exists>o'. lookup w (sa_childSessionId c) = Some (o', c) \<and> sameOwner o' who \<and> sa_parentSessionId c = parent)))"
    and lookup_id: "inv w \<Longrightarrow> lookup w k = Some (o', c) \<Longrightarrow> sa_childSessionId c = k"
begin

text \<open>The states a principal can reach from \<open>w0\<close>.\<close>

definition since :: "session_owner \<Rightarrow> 'w \<Rightarrow> 'w \<Rightarrow> bool" where
  "since who w0 w \<longleftrightarrow> inv w \<and> (\<forall>k. evolves who (lookup w0 k) (lookup w k))"

lemma since_refl: "inv w \<Longrightarrow> since who w w"
  by (simp add: since_def evolves_refl)

lemma since_step: "since who w0 w \<Longrightarrow> inv w' \<Longrightarrow> (\<And>k. evolves who (lookup w k) (lookup w' k)) \<Longrightarrow> since who w0 w'"
  unfolding since_def by (blast intro: evolves_trans)

lemma keepsI: "(\<And>w r w'. I w \<Longrightarrow> m w = (r, w') \<Longrightarrow> I w') \<Longrightarrow> keeps I m"
  unfolding keeps_def by (metis surjective_pairing)

lemma create_since: "cs_owner i = who \<Longrightarrow> keeps (since who w0) (ss_create store i)"
  by (rule keepsI) (metis create_keeps since_def since_step)

lemma update_since: "keeps (since who w0) (ss_updateOwned store who k p)"
  by (rule keepsI) (metis update_keeps since_def since_step)

lemma find_since: "keeps (since who w0) (ss_findOwned store who k)"
  by (rule keepsI) (metis find_keeps since_def)

lemma list_since: "keeps (since who w0) (ss_listOwned store who parent)"
  by (rule keepsI) (metis list_keeps since_def)

end

subsection \<open>The map in memory provides it\<close>

definition submap_ok :: "subagent_map \<Rightarrow> bool" where
  "submap_ok m \<longleftrightarrow> distinct (map fst m) \<and> list_all (\<lambda>(k, o', c). sa_childSessionId c = k) m"

lemma submap_ok_lookup: "submap_ok m \<Longrightarrow> map_of m k = Some (o', c) \<Longrightarrow> sa_childSessionId c = k"
  by (auto simp: submap_ok_def list_all_iff dest!: map_of_SomeD)

lemma submap_ok_value: "submap_ok m \<Longrightarrow> (o', c) \<in> snd ` set m \<longleftrightarrow> map_of m (sa_childSessionId c) = Some (o', c)"
  by (force simp: submap_ok_def list_all_iff dest: map_of_SomeD)

lemma submap_ok_set: "submap_ok m \<Longrightarrow> sa_childSessionId c = k \<Longrightarrow> submap_ok (map_set k (o', c) m)"
  by (auto simp: submap_ok_def keys_map_set list_all_iff dest!: map_set_entry)

lemma updated_same: "same_child r (updated_record now p r)" "sa_childSessionId (updated_record now p r) = sa_childSessionId r"
  "sa_status (updated_record now p r) = default_to (sa_status r) (us_status p)"
  by (simp_all add: updated_record_def same_child_def Let_def)

lemma mem_update_cases:
  assumes "mem_updateOwned now who k p m = (r, m')"
  obtains (none) "r = Inr None" "m' = m"
  | (some) o' c where "map_of m k = Some (o', c)" "sameOwner o' who" "r = Inr (Some (updated_record now p c))"
      "m' = map_set k (o', updated_record now p c) m"
  using assms unfolding mem_updateOwned_def by (auto simp: Let_def split: option.splits if_splits)

lemma mem_create_cases:
  assumes "mem_create now i m = (r, m')"
  obtains (refused) e where "r = Inl e" "m' = m"
  | (old) o' c where "map_of m (cs_childSessionId i) = Some (o', c)" "sameOwner o' (cs_owner i)" "r = Inr c" "m' = m"
  | (running) o' c where "map_of m (cs_childSessionId i) = Some (o', c)" "sameOwner o' (cs_owner i)"
      "r = Inr (updated_record now (set_status SubRunning) c)" "m' = map_set (cs_childSessionId i) (o', updated_record now (set_status SubRunning) c) m"
  | (new) "map_of m (cs_childSessionId i) = None" "r = Inr (new_record now i)" "m' = map_set (cs_childSessionId i) (cs_owner i, new_record now i) m"
proof (cases "assertCreate i")
  case (Inl e)
  with assms refused show ?thesis by (auto simp: mem_create_def bind_act_def lift_res_def)
next
  case ok: (Inr u)
  show ?thesis
  proof (cases "map_of m (cs_childSessionId i)")
    case None
    with assms ok new show ?thesis by (auto simp: mem_create_def bind_act_def lift_res_def)
  next
    case (Some e)
    obtain o' c where e: "e = (o', c)" by (cases e)
    show ?thesis
    proof (cases "sameOwner o' (cs_owner i)")
      case False
      with assms ok Some e refused show ?thesis by (auto simp: mem_create_def bind_act_def lift_res_def)
    next
      case same: True
      show ?thesis
      proof (cases "cs_status i = Some SubRunning \<and> (sa_status c = SubStarting \<or> sa_status c = SubWaiting)")
        case True
        have "mem_updateOwned now (cs_owner i) (cs_childSessionId i) (set_status SubRunning) m =
            (Inr (Some (updated_record now (set_status SubRunning) c)), map_set (cs_childSessionId i) (o', updated_record now (set_status SubRunning) c) m)"
          using Some e same by (simp add: mem_updateOwned_def Let_def)
        with assms ok Some e same True show ?thesis
          by (intro running) (auto simp: mem_create_def bind_act_def lift_res_def ret_def default_to_def)
      next
        case False
        with assms ok Some e same show ?thesis by (intro old) (auto simp: mem_create_def bind_act_def lift_res_def)
      qed
    qed
  qed
qed

lemma snd_filtered: "c \<in> snd ` {x \<in> A. P x} \<longleftrightarrow> (\<exists>o'. (o', c) \<in> A \<and> P (o', c))"
  by force

lemma mem_list_set:
  "mem_listOwned lc who parent m = (Inr cs, m') \<Longrightarrow> m' = m \<and>
     (c \<in> set cs \<longleftrightarrow> (\<exists>o'. (o', c) \<in> snd ` set m \<and> sameOwner o' who \<and> sa_parentSessionId c = parent))"
proof -
  assume l: "mem_listOwned lc who parent m = (Inr cs, m')"
  then have "set cs = snd ` {x \<in> snd ` set m. case x of (o'', r) \<Rightarrow> sameOwner o'' who \<and> sa_parentSessionId r = parent}"
    unfolding mem_listOwned_def by (simp only: prod.inject sum.inject set_sort_by set_map set_filter) (elim conjE, drule sym, simp)
  moreover from l have "m' = m" by (simp add: mem_listOwned_def)
  ultimately show ?thesis unfolding snd_filtered by (auto simp: snd_filtered)
qed

interpretation memory_children: subagent_provider "memory_subagents lc now" map_of submap_ok for lc now
proof
  fix m i r m' assume ok: "submap_ok m" and c: "ss_create (memory_subagents lc now) i m = (r, m')"
  from c have "mem_create now i m = (r, m')" by (simp add: memory_subagents_def)
  then show "submap_ok m' \<and> (\<forall>k. evolves (cs_owner i) (map_of m k) (map_of m' k)) \<and> (\<forall>k. k \<noteq> cs_childSessionId i \<longrightarrow> map_of m' k = map_of m k)"
    by (rule mem_create_cases) (use ok updated_same submap_ok_lookup [OF ok] in
      \<open>auto simp: evolves_refl map_of_map_set sameOwner_refl new_record_def intro!: submap_ok_set\<close>)
next
  fix m i c m' assume ok: "submap_ok m" and c: "ss_create (memory_subagents lc now) i m = (Inr c, m')"
  from c have "mem_create now i m = (Inr c, m')" by (simp add: memory_subagents_def)
  then show "\<exists>o'. map_of m' (cs_childSessionId i) = Some (o', c) \<and> sameOwner o' (cs_owner i)"
    by (rule mem_create_cases) (auto simp: map_of_map_set sameOwner_refl)
next
  fix m i c m' assume c: "ss_create (memory_subagents lc now) i m = (Inr c, m')" and n: "map_of m (cs_childSessionId i) = None"
  from c have "mem_create now i m = (Inr c, m')" by (simp add: memory_subagents_def)
  then show "sa_depth c = default_to 1 (cs_depth i)"
    by (rule mem_create_cases) (use n in \<open>auto simp: new_record_def\<close>)
next
  fix m who k p r m' assume ok: "submap_ok m" and c: "ss_updateOwned (memory_subagents lc now) who k p m = (r, m')"
  from c have "mem_updateOwned now who k p m = (r, m')" by (simp add: memory_subagents_def)
  then show "submap_ok m' \<and> (\<forall>j. evolves who (map_of m j) (map_of m' j)) \<and> (\<forall>j. j \<noteq> k \<longrightarrow> map_of m' j = map_of m j)"
    by (rule mem_update_cases) (use ok updated_same submap_ok_lookup [OF ok] in \<open>auto simp: evolves_refl map_of_map_set intro!: submap_ok_set\<close>)
next
  fix m who k p c m' assume ok: "submap_ok m" and c: "ss_updateOwned (memory_subagents lc now) who k p m = (Inr (Some c), m')"
  from c have "mem_updateOwned now who k p m = (Inr (Some c), m')" by (simp add: memory_subagents_def)
  then show "(\<exists>o'. map_of m' k = Some (o', c) \<and> sameOwner o' who) \<and> (\<forall>s. us_status p = Some s \<longrightarrow> sa_status c = s)"
    by (rule mem_update_cases) (auto simp: map_of_map_set updated_same default_to_def)
next
  fix m who k r m' assume "submap_ok m" and "ss_findOwned (memory_subagents lc now) who k m = (r, m')"
  then show "m' = m \<and> (\<forall>c. r = Inr (Some c) \<longrightarrow> (\<exists>o'. map_of m k = Some (o', c) \<and> sameOwner o' who))"
    by (auto simp: memory_subagents_def mem_findOwned_def split: option.splits if_splits)
next
  fix m who parent r m' assume ok: "submap_ok m" and l: "ss_listOwned (memory_subagents lc now) who parent m = (r, m')"
  show "m' = m \<and> (\<forall>cs c. r = Inr cs \<longrightarrow> (c \<in> set cs \<longleftrightarrow>
      (\<exists>o'. map_of m (sa_childSessionId c) = Some (o', c) \<and> sameOwner o' who \<and> sa_parentSessionId c = parent)))"
  proof (cases r)
    case (Inl e)
    with l show ?thesis by (simp add: memory_subagents_def mem_listOwned_def)
  next
    case (Inr cs)
    with l have "mem_listOwned lc who parent m = (Inr cs, m')" by (simp add: memory_subagents_def)
    from mem_list_set [OF this] Inr show ?thesis unfolding submap_ok_value [OF ok] by blast
  qed
next
  fix m k o' c show "submap_ok m \<Longrightarrow> map_of m k = Some (o', c) \<Longrightarrow> sa_childSessionId c = k" by (rule submap_ok_lookup)
qed

subsection \<open>The table provides it\<close>

definition as_entry :: "entry \<Rightarrow> entry" where
  "as_entry e = (fst e, subagent_record (snd e))"

definition row_child :: "entry \<Rightarrow> string" where
  "row_child e = sa_childSessionId (snd e)"

definition child_row :: "subagent_table \<Rightarrow> string \<Rightarrow> entry option" where
  "child_row t k = map_option as_entry (find (\<lambda>e. row_child e = k) (st_rows t))"

definition subtable_ok :: "subagent_table \<Rightarrow> bool" where
  "subtable_ok t \<longleftrightarrow> distinct (map row_child (st_rows t))"

lemma row_of_child: "row_of k = (\<lambda>e. row_child e = k)"
  by (auto simp: row_of_def row_child_def)

lemma owned_row_child: "owned_row who k = (\<lambda>e. row_child e = k \<and> sameOwner (fst e) who)"
  by (auto simp: owned_row_def row_child_def)

lemma record_simps [simp]:
  "sa_childSessionId (subagent_record r) = sa_childSessionId r" "sa_parentSessionId (subagent_record r) = sa_parentSessionId r"
  "sa_status (subagent_record r) = sa_status r" "sa_depth (subagent_record r) = sa_depth r" "sa_createdAt (subagent_record r) = sa_createdAt r"
  "sa_callId (subagent_record r) = truthy (sa_callId r)" "sa_toolName (subagent_record r) = truthy (sa_toolName r)"
  by (simp_all add: subagent_record_def)

lemma record_same: "same_child a b \<Longrightarrow> same_child (subagent_record a) (subagent_record b)"
  by (simp add: same_child_def)

lemma conflict_same: "same_child r (conflict_row dbnow i r)"
  by (simp add: conflict_row_def same_child_def)

lemma set_fields_same: "same_child r (set_fields dbnow p r)" "sa_status (set_fields dbnow p r) = default_to (sa_status r) (us_status p)"
  by (simp_all add: set_fields_def same_child_def Let_def)

lemma stored_update_status: "stored_update to_time p = Inr q \<Longrightarrow> us_status q = us_status p"
  by (auto simp: stored_update_def stored_time_def split: option.splits)

text \<open>An update of one row of the table.\<close>

definition change_row :: "(entry \<Rightarrow> bool) \<Rightarrow> (subagent \<Rightarrow> subagent) \<Rightarrow> entry \<Rightarrow> entry" where
  "change_row P f e = (if P e then (fst e, f (snd e)) else e)"

lemma change_row_update: "update_where P (\<lambda>(o', r). (o', f r)) rows = map (change_row P f) rows"
  by (auto simp: update_where_def change_row_def)

lemma find_SomeD: "find P xs = Some x \<Longrightarrow> x \<in> set xs \<and> P x"
  by (induction xs) (auto split: if_splits)

lemma child_with_key: "find (\<lambda>e. key e = k) rows = Some e \<Longrightarrow> key e = k"
  by (induction rows) (auto split: if_splits)

lemma find_map_key: "(\<And>e. key (f e) = key e) \<Longrightarrow> find (\<lambda>e. key e = k) (map f rows) = map_option f (find (\<lambda>e. key e = k) rows)"
  by (induction rows) auto

lemma change_row_child: "(\<And>r. same_child r (f r)) \<Longrightarrow> row_child (change_row P f e) = row_child e"
  by (simp add: change_row_def row_child_def same_child_def)

lemma changed_row:
  assumes "\<And>r. same_child r (f r)"
  shows "child_row (t\<lparr>st_rows := map (change_row P f) (st_rows t)\<rparr>) k = map_option (\<lambda>e. as_entry (change_row P f e)) (find (\<lambda>e. row_child e = k) (st_rows t))"
  by (simp add: child_row_def find_map_key [where key = row_child, OF change_row_child [OF assms]] option.map_comp comp_def)

lemma changed_evolves:
  assumes same: "\<And>r. same_child r (f r)" and own: "\<And>e. P e \<Longrightarrow> sameOwner (fst e) who"
  shows "evolves who (child_row t k) (child_row (t\<lparr>st_rows := map (change_row P f) (st_rows t)\<rparr>) k)"
  unfolding changed_row [OF same]
  by (cases "find (\<lambda>e. row_child e = k) (st_rows t)")
    (use record_same [OF same] own in \<open>auto simp: child_row_def as_entry_def change_row_def\<close>)

lemma changed_other:
  assumes same: "\<And>r. same_child r (f r)" and P: "\<And>e. P e \<Longrightarrow> row_child e = k" and "j \<noteq> k"
  shows "child_row (t\<lparr>st_rows := map (change_row P f) (st_rows t)\<rparr>) j = child_row t j"
  unfolding changed_row [OF same]
proof (cases "find (\<lambda>e. row_child e = j) (st_rows t)")
  case (Some e)
  from child_with_key [OF Some] P assms(3) have "\<not> P e" by blast
  with Some show "map_option (\<lambda>e. as_entry (change_row P f e)) (find (\<lambda>e. row_child e = j) (st_rows t)) = child_row t j"
    by (simp add: child_row_def change_row_def)
qed (simp add: child_row_def)

lemma changed_ok: "(\<And>r. same_child r (f r)) \<Longrightarrow> subtable_ok t \<Longrightarrow> subtable_ok (t\<lparr>st_rows := map (change_row P f) (st_rows t)\<rparr>)"
  by (simp add: subtable_ok_def comp_def change_row_child)

lemma child_row_append: "child_row (t\<lparr>st_rows := st_rows t @ [e]\<rparr>) k =
    (case child_row t k of Some x \<Rightarrow> Some x | None \<Rightarrow> if row_child e = k then Some (as_entry e) else None)"
proof -
  have "find (\<lambda>e. row_child e = k) (rows @ [e]) = (case find (\<lambda>e. row_child e = k) rows of Some x \<Rightarrow> Some x | None \<Rightarrow> if row_child e = k then Some e else None)" for rows
    by (induction rows) auto
  then show ?thesis by (auto simp: child_row_def split: option.splits)
qed

lemma sql_create_cases:
  assumes "sql_create now dbnow i t = (r, t')"
  obtains (refused) e where "r = Inl e" "t' = t"
  | (old) e where "find (\<lambda>e. row_child e = cs_childSessionId i) (st_rows t) = Some e" "sameOwner (fst e) (cs_owner i)"
      "r = Inr (subagent_record (conflict_row dbnow i (snd e)))"
      "t' = t\<lparr>st_rows := map (change_row (\<lambda>e. row_child e = cs_childSessionId i) (conflict_row dbnow i)) (st_rows t)\<rparr>"
  | (new) "child_row t (cs_childSessionId i) = None" "r = Inr (subagent_record (inserted_row now i))"
      "t' = t\<lparr>st_rows := st_rows t @ [(cs_owner i, inserted_row now i)]\<rparr>"
proof (cases "assertCreate i")
  case (Inl e)
  with assms refused show ?thesis by (auto simp: sql_create_def bind_act_def lift_res_def)
next
  case ok: (Inr u)
  show ?thesis
  proof (cases "find (\<lambda>e. row_child e = cs_childSessionId i) (st_rows t)")
    case None
    with assms ok new refused show ?thesis
      by (auto simp: sql_create_def bind_act_def lift_res_def row_of_child child_row_def split: if_splits)
  next
    case (Some e)
    obtain o' c where e: "e = (o', c)" by (cases e)
    show ?thesis
    proof (cases "sameOwner o' (cs_owner i)")
      case False
      with assms ok Some e refused show ?thesis by (auto simp: sql_create_def bind_act_def lift_res_def row_of_child)
    next
      case True
      with assms ok Some e show ?thesis
        by (intro old) (auto simp: sql_create_def bind_act_def lift_res_def row_of_child change_row_update)
    qed
  qed
qed

lemma sql_update_cases:
  assumes "sql_updateOwned to_time dbnow who k p t = (r, t')" and "subtable_ok t"
  obtains (none) "\<forall>c. r \<noteq> Inr (Some c)" "t' = t"
  | (found) e where "find (\<lambda>e. row_child e = k) (st_rows t) = Some e" "sameOwner (fst e) who" "r = Inr (Some (subagent_record (snd e)))" "t' = t"
      "no_fields p"
  | (changed) q where "us_status q = us_status p" "t' = t\<lparr>st_rows := map (change_row (\<lambda>e. row_child e = k \<and> sameOwner (fst e) who) (set_fields dbnow q)) (st_rows t)\<rparr>"
      "\<forall>c. r = Inr (Some c) \<longrightarrow> (\<exists>e. find (\<lambda>e. row_child e = k) (st_rows t) = Some e \<and> sameOwner (fst e) who \<and> c = subagent_record (set_fields dbnow q (snd e)))"
proof (cases "assertSubagentOwner who")
  case (Inl e)
  with assms none show ?thesis by (auto simp: sql_updateOwned_def bind_act_def lift_res_def)
next
  case ok: (Inr u)
  have unique: "find (\<lambda>e. row_child e = k) (st_rows t) = Some e \<and> sameOwner (fst e) who" if "find (owned_row who k) (st_rows t) = Some e" for e
    using assms(2) that find_key_distinct [of row_child "st_rows t" e] by (auto simp: owned_row_child subtable_ok_def find_Some_iff)
  show ?thesis
  proof (cases "no_fields p")
    case True
    with assms ok have r: "r = Inr (map_option (\<lambda>x. subagent_record (snd x)) (find (owned_row who k) (st_rows t)))" "t' = t"
      by (auto simp: sql_updateOwned_def sql_findOwned_def bind_act_def lift_res_def)
    show ?thesis
    proof (cases "find (owned_row who k) (st_rows t)")
      case None
      with r none show ?thesis by simp
    next
      case (Some e)
      with r unique [OF Some] True found show ?thesis by simp
    qed
  next
    case False
    show ?thesis
    proof (cases "stored_update to_time p")
      case (Inl e)
      with assms ok False none show ?thesis by (auto simp: sql_updateOwned_def bind_act_def lift_res_def)
    next
      case (Inr q)
      let ?P = "\<lambda>e. row_child e = k \<and> sameOwner (fst e) who"
      from assms(1) ok False Inr have "t' = t\<lparr>st_rows := update_where ?P (\<lambda>(o', r). (o', set_fields dbnow q r)) (st_rows t)\<rparr>"
        and r: "r = Inr (map_option (\<lambda>x. subagent_record (snd x)) (returning (owned_row who k) (\<lambda>(o', r). (o', set_fields dbnow q r)) (st_rows t)))"
        by (auto simp: sql_updateOwned_def bind_act_def lift_res_def owned_row_child Let_def)
      moreover have "\<exists>e. find (\<lambda>e. row_child e = k) (st_rows t) = Some e \<and> sameOwner (fst e) who \<and> c = subagent_record (set_fields dbnow q (snd e))"
        if "r = Inr (Some c)" for c
      proof -
        from that r obtain e where e: "find (owned_row who k) (st_rows t) = Some e" "c = subagent_record (set_fields dbnow q (snd e))"
          by (auto simp: returning_def split: prod.splits)
        with unique [OF e(1)] show ?thesis by blast
      qed
      ultimately show ?thesis using stored_update_status [OF Inr] changed [of q] unfolding change_row_update by blast
    qed
  qed
qed

lemma sql_list_set:
  assumes "sql_listOwned by_time who parent t = (Inr cs, t')" and "subtable_ok t"
  shows "c \<in> set cs \<longleftrightarrow> (\<exists>o'. child_row t (sa_childSessionId c) = Some (o', c) \<and> sameOwner o' who \<and> sa_parentSessionId c = parent)"
proof -
  let ?A = "{e \<in> set (st_rows t). sameOwner (fst e) who \<and> sa_parentSessionId (snd e) = parent}"
  have "set cs = (\<lambda>e. subagent_record (snd e)) ` ?A"
  proof (cases "assertSubagentOwner who")
    case (Inl e)
    with assms(1) show ?thesis by (simp add: sql_listOwned_def bind_act_def lift_res_def)
  next
    case (Inr u)
    with assms(1) have cs: "cs = map subagent_record (sort_by (\<lambda>a b. by_time (sa_createdAt a) (sa_createdAt b))
        (map snd (filter (\<lambda>(o'', r). sameOwner o'' who \<and> sa_parentSessionId r = parent) (st_rows t))))"
      by (auto simp: sql_listOwned_def bind_act_def lift_res_def)
    show ?thesis unfolding cs set_map set_sort_by set_filter image_image by (rule image_cong) auto
  qed
  moreover have "c \<in> (\<lambda>e. subagent_record (snd e)) ` ?A \<longleftrightarrow>
      (\<exists>o'. child_row t (sa_childSessionId c) = Some (o', c) \<and> sameOwner o' who \<and> sa_parentSessionId c = parent)" (is "?L \<longleftrightarrow> ?R")
  proof
    assume ?L
    then obtain e where e: "e \<in> set (st_rows t)" "sameOwner (fst e) who" "sa_parentSessionId (snd e) = parent" "c = subagent_record (snd e)" by blast
    from find_key_distinct [OF assms(2) [unfolded subtable_ok_def] e(1)] have "child_row t (row_child e) = Some (as_entry e)" by (simp add: child_row_def)
    with e show ?R by (auto simp: row_child_def as_entry_def)
  next
    assume ?R
    then obtain o' where o': "child_row t (sa_childSessionId c) = Some (o', c)" "sameOwner o' who" "sa_parentSessionId c = parent" by blast
    then obtain e where "find (\<lambda>e. row_child e = sa_childSessionId c) (st_rows t) = Some e" "as_entry e = (o', c)" by (auto simp: child_row_def)
    then have "e \<in> set (st_rows t)" "fst e = o'" "subagent_record (snd e) = c" by (auto simp: as_entry_def find_Some_iff)
    with o' show ?L by force
  qed
  ultimately show ?thesis by simp
qed

interpretation table_children: subagent_provider "table_subagents by_time to_time now dbnow" child_row subtable_ok for by_time to_time now dbnow
proof
  fix t i r t' assume ok: "subtable_ok t" and "ss_create (table_subagents by_time to_time now dbnow) i t = (r, t')"
  then have c: "sql_create now dbnow i t = (r, t')" by (simp add: table_subagents_def)
  let ?k = "cs_childSessionId i"
  from c show "subtable_ok t' \<and> (\<forall>k. evolves (cs_owner i) (child_row t k) (child_row t' k)) \<and> (\<forall>k. k \<noteq> ?k \<longrightarrow> child_row t' k = child_row t k)"
  proof (rule sql_create_cases)
    fix e assume e: "find (\<lambda>e. row_child e = ?k) (st_rows t) = Some e" "sameOwner (fst e) (cs_owner i)"
      and t': "t' = t\<lparr>st_rows := map (change_row (\<lambda>e. row_child e = ?k) (conflict_row dbnow i)) (st_rows t)\<rparr>"
    have "evolves (cs_owner i) (child_row t k) (child_row t' k)" for k
    proof (cases "k = ?k")
      case True
      with e show ?thesis unfolding t' changed_row [OF conflict_same]
        using child_with_key [OF e(1)] record_same [OF conflict_same] by (auto simp: child_row_def as_entry_def change_row_def)
    next
      case False
      have "child_row t' k = child_row t k" unfolding t' by (rule changed_other [OF conflict_same _ False]) simp
      then show ?thesis by (simp add: evolves_refl)
    qed
    moreover have "child_row t' k = child_row t k" if "k \<noteq> ?k" for k
      unfolding t' by (rule changed_other [OF conflict_same _ that]) simp
    ultimately show ?thesis using changed_ok [OF conflict_same ok] by (simp add: t')
  next
    assume n: "child_row t ?k = None" "t' = t\<lparr>st_rows := st_rows t @ [(cs_owner i, inserted_row now i)]\<rparr>"
    have "find (\<lambda>e. row_child e = ?k) (st_rows t) = None" using n(1) by (simp add: child_row_def)
    then have "?k \<notin> row_child ` set (st_rows t)" unfolding find_None_iff by (simp add: image_iff) (metis prod.collapse)
    let ?e = "(cs_owner i, inserted_row now i)"
    have key: "row_child ?e = ?k" by (simp add: row_child_def inserted_row_def new_record_def)
    have ok': "subtable_ok t'" using ok \<open>?k \<notin> _\<close> key n(2) by (simp add: subtable_ok_def)
    have row: "child_row t' k = (if k = ?k then Some (as_entry ?e) else child_row t k)" for k
      unfolding n(2) child_row_append key using n(1) by (cases "child_row t k") auto
    have "evolves (cs_owner i) (child_row t k) (child_row t' k)" for k
      using n(1) by (cases "k = ?k") (simp_all add: row as_entry_def sameOwner_refl evolves_refl)
    moreover have "k \<noteq> ?k \<longrightarrow> child_row t' k = child_row t k" for k by (simp add: row)
    ultimately show ?thesis using ok' by blast
  qed (use ok in \<open>simp_all add: evolves_refl\<close>)
next
  fix t i c t' assume ok: "subtable_ok t" and "ss_create (table_subagents by_time to_time now dbnow) i t = (Inr c, t')"
  then have c: "sql_create now dbnow i t = (Inr c, t')" by (simp add: table_subagents_def)
  then show "\<exists>o'. child_row t' (cs_childSessionId i) = Some (o', c) \<and> sameOwner o' (cs_owner i)"
  proof (rule sql_create_cases)
    fix e assume e: "find (\<lambda>e. row_child e = cs_childSessionId i) (st_rows t) = Some e" "sameOwner (fst e) (cs_owner i)"
      and t': "Inr c = Inr (subagent_record (conflict_row dbnow i (snd e)))" "t' = t\<lparr>st_rows := map (change_row (\<lambda>e. row_child e = cs_childSessionId i) (conflict_row dbnow i)) (st_rows t)\<rparr>"
    with child_with_key [OF e(1)] show ?thesis unfolding t'(2) changed_row [OF conflict_same] by (simp add: as_entry_def change_row_def)
  qed (auto simp: child_row_append row_child_def inserted_row_def new_record_def as_entry_def sameOwner_refl)
next
  fix t i c t' assume n: "child_row t (cs_childSessionId i) = None" and "ss_create (table_subagents by_time to_time now dbnow) i t = (Inr c, t')"
  then have c: "sql_create now dbnow i t = (Inr c, t')" by (simp add: table_subagents_def)
  then show "sa_depth c = default_to 1 (cs_depth i)"
    by (rule sql_create_cases) (use n in \<open>auto simp: child_row_def inserted_row_def new_record_def\<close>)
next
  fix t who k p r t' assume ok: "subtable_ok t" and "ss_updateOwned (table_subagents by_time to_time now dbnow) who k p t = (r, t')"
  then have c: "sql_updateOwned to_time dbnow who k p t = (r, t')" by (simp add: table_subagents_def)
  from c ok show "subtable_ok t' \<and> (\<forall>j. evolves who (child_row t j) (child_row t' j)) \<and> (\<forall>j. j \<noteq> k \<longrightarrow> child_row t' j = child_row t j)"
  proof (rule sql_update_cases)
    fix q assume t': "t' = t\<lparr>st_rows := map (change_row (\<lambda>e. row_child e = k \<and> sameOwner (fst e) who) (set_fields dbnow q)) (st_rows t)\<rparr>"
    have "evolves who (child_row t j) (child_row t' j)" for j unfolding t' by (rule changed_evolves [OF set_fields_same(1)]) simp
    moreover have "child_row t' j = child_row t j" if "j \<noteq> k" for j unfolding t' by (rule changed_other [OF set_fields_same(1) _ that]) simp
    ultimately show ?thesis using changed_ok [OF set_fields_same(1) ok] by (simp add: t')
  qed (use ok in \<open>simp_all add: evolves_refl\<close>)
next
  fix t who k p c t' assume ok: "subtable_ok t" and "ss_updateOwned (table_subagents by_time to_time now dbnow) who k p t = (Inr (Some c), t')"
  then have c: "sql_updateOwned to_time dbnow who k p t = (Inr (Some c), t')" by (simp add: table_subagents_def)
  from c ok show "(\<exists>o'. child_row t' k = Some (o', c) \<and> sameOwner o' who) \<and> (\<forall>s. us_status p = Some s \<longrightarrow> sa_status c = s)"
  proof (rule sql_update_cases)
    fix e assume "find (\<lambda>e. row_child e = k) (st_rows t) = Some e" "sameOwner (fst e) who" "(Inr (Some c) :: js_error + subagent option) = Inr (Some (subagent_record (snd e)))" "t' = t"
      "no_fields p"
    then show ?thesis by (auto simp: child_row_def as_entry_def no_fields_def)
  next
    fix q assume q: "us_status q = us_status p" and t': "t' = t\<lparr>st_rows := map (change_row (\<lambda>e. row_child e = k \<and> sameOwner (fst e) who) (set_fields dbnow q)) (st_rows t)\<rparr>"
      and "\<forall>d. (Inr (Some c) :: js_error + subagent option) = Inr (Some d) \<longrightarrow> (\<exists>e. find (\<lambda>e. row_child e = k) (st_rows t) = Some e \<and> sameOwner (fst e) who \<and> d = subagent_record (set_fields dbnow q (snd e)))"
    then obtain e where e: "find (\<lambda>e. row_child e = k) (st_rows t) = Some e" "sameOwner (fst e) who" "c = subagent_record (set_fields dbnow q (snd e))" by blast
    with child_with_key [OF e(1)] q show ?thesis unfolding t' changed_row [OF set_fields_same(1)]
      by (auto simp: as_entry_def change_row_def set_fields_same default_to_def)
  qed simp
next
  fix t who k r t' assume ok: "subtable_ok t" and "ss_findOwned (table_subagents by_time to_time now dbnow) who k t = (r, t')"
  then have f: "sql_findOwned who k t = (r, t')" by (simp add: table_subagents_def)
  have found: "\<exists>o'. child_row t k = Some (o', subagent_record (snd e)) \<and> sameOwner o' who" if "find (owned_row who k) (st_rows t) = Some e" for e
  proof -
    from find_SomeD [OF that] have e: "e \<in> set (st_rows t)" "row_child e = k" "sameOwner (fst e) who" by (simp_all add: owned_row_child)
    from find_key_distinct [OF ok [unfolded subtable_ok_def] e(1)] e(2,3) show ?thesis by (simp add: child_row_def as_entry_def)
  qed
  show "t' = t \<and> (\<forall>c. r = Inr (Some c) \<longrightarrow> (\<exists>o'. child_row t k = Some (o', c) \<and> sameOwner o' who))"
  proof (cases "assertSubagentOwner who")
    case (Inl e)
    with f show ?thesis by (auto simp: sql_findOwned_def bind_act_def lift_res_def)
  next
    case (Inr u)
    with f have r: "t' = t" "r = Inr (map_option (\<lambda>x. subagent_record (snd x)) (find (owned_row who k) (st_rows t)))"
      by (auto simp: sql_findOwned_def bind_act_def lift_res_def)
    show ?thesis
    proof (cases "find (owned_row who k) (st_rows t)")
      case (Some e)
      with r found [OF Some] show ?thesis by simp
    qed (simp add: r)
  qed
next
  fix t who parent r t' assume ok: "subtable_ok t" and "ss_listOwned (table_subagents by_time to_time now dbnow) who parent t = (r, t')"
  then have l: "sql_listOwned by_time who parent t = (r, t')" by (simp add: table_subagents_def)
  then have "t' = t" by (auto simp: sql_listOwned_def bind_act_def lift_res_def split: sum.splits)
  moreover have "c \<in> set cs \<longleftrightarrow> (\<exists>o'. child_row t (sa_childSessionId c) = Some (o', c) \<and> sameOwner o' who \<and> sa_parentSessionId c = parent)"
    if "r = Inr cs" for cs c by (rule sql_list_set [OF _ ok]) (use l that in simp)
  ultimately show "t' = t \<and> (\<forall>cs c. r = Inr cs \<longrightarrow> (c \<in> set cs \<longleftrightarrow>
      (\<exists>o'. child_row t (sa_childSessionId c) = Some (o', c) \<and> sameOwner o' who \<and> sa_parentSessionId c = parent)))" by blast
next
  fix t k o' c show "subtable_ok t \<Longrightarrow> child_row t k = Some (o', c) \<Longrightarrow> sa_childSessionId c = k"
    by (auto simp: child_row_def as_entry_def row_child_def dest: child_with_key)
qed

subsection \<open>What the supervisor does to the records\<close>


lemma keeps_option: "keeps I m \<Longrightarrow> (\<And>x. keeps I (f x)) \<Longrightarrow> keeps I (case v of None \<Rightarrow> m | Some x \<Rightarrow> f x)"
  by (cases v) simp_all

lemma keeps_sum: "(\<And>e. keeps I (f e)) \<Longrightarrow> (\<And>x. keeps I (g x)) \<Longrightarrow> keeps I (case v of Inl e \<Rightarrow> f e | Inr x \<Rightarrow> g x)"
  by (cases v) simp_all

lemma keeps_prod: "(\<And>x y. keeps I (f x y)) \<Longrightarrow> keeps I (case v of (x, y) \<Rightarrow> f x y)"
  by (cases v) simp_all

lemma keeps_reading: "(\<And>v. keeps I (f v)) \<Longrightarrow> keeps I (reading f)"
  by (simp add: keeps_def reading_def)

lemma keeps_let: "(\<And>x. keeps I (f x)) \<Longrightarrow> keeps I (let x = v in f x)"
  by simp

lemmas keeps_rules = keeps_bind keeps_catch keeps_attempt keeps_ret keeps_throw keeps_lift keeps_if keeps_option keeps_sum keeps_prod keeps_let keeps_reading

locale supervision = subagent_provider store lookup inv
  for store :: "'w subagent_store" and lookup :: "'w \<Rightarrow> string \<Rightarrow> entry option" and inv :: "'w \<Rightarrow> bool" +
  fixes sv :: "'w supervisor"
    and quiet :: "('w \<Rightarrow> 'w) \<Rightarrow> bool"
  assumes own_store: "su_store sv = store"
    and quiet_def: "quiet f \<longleftrightarrow> (\<forall>w. inv w \<longrightarrow> inv (f w) \<and> lookup (f w) = lookup w)"
    and quiet_inspect: "quiet (\<lambda>w. snd (sx_inspect (su_runtime sv) who k w))"
    and quiet_cancel: "quiet (\<lambda>w. snd (sx_cancel (su_runtime sv) k w))"
    and quiet_reset: "sx_reset (su_runtime sv) = Some res \<Longrightarrow> quiet (\<lambda>w. snd (res reason k w))"
    and quiet_spawn: "sx_spawn (su_runtime sv) = Some sp \<Longrightarrow> quiet (\<lambda>w. snd (sp i w))"
    and quiet_verify: "quiet (\<lambda>w. snd (su_verify sv sid who w))"
    and quiet_delay: "quiet (\<lambda>w. snd (su_delay sv ms w))"
    and quiet_run: "su_runStore sv = Some ra \<Longrightarrow> quiet (\<lambda>w. snd (startAgentRun (ra_fingerprint ra) (ra_store ra) (ra_runtime ra) (ra_policy ra) idn rq w))"
    and quiet_find_run: "su_runStore sv = Some ra \<Longrightarrow> ra_findOwnedBySession ra = Some search \<Longrightarrow> quiet (\<lambda>w. snd (search t p sid w))"
    and quiet_enqueue: "su_mailbox sv = Some mb \<Longrightarrow> quiet (\<lambda>w. snd (enqueueAgentMailboxMessage (snd mb) (fst mb) opts w))"
begin

lemma quiet_since: "quiet (\<lambda>w. snd (m w)) \<Longrightarrow> keeps (since who w0) m"
  unfolding quiet_def keeps_def since_def by simp

lemmas quiet_rules = quiet_since [OF quiet_inspect] quiet_since [OF quiet_cancel] quiet_since [OF quiet_verify] quiet_since [OF quiet_delay]

abbreviation reached :: "'w \<Rightarrow> 'w \<Rightarrow> bool" where
  "reached \<equiv> since (su_identity sv)"

lemma inspect_child_reached: "keeps (reached w0) (inspect_child sv k)"
  unfolding inspect_child_def by (rule quiet_rules)

lemma update_child_reached: "keeps (reached w0) (update_child sv k p)"
  unfolding update_child_def own_store by (rule update_since)

lemma ownedChild_reached: "keeps (reached w0) (ownedChild sv k)"
  unfolding ownedChild_def own_store by (intro keeps_rules find_since quiet_rules)

lemma inspect_reached: "keeps (reached w0) (inspectAgentSubagent sv k)"
  unfolding inspectAgentSubagent_def
  by (intro keeps_rules ownedChild_reached inspect_child_reached update_child_reached)

lemma refresh_reached: "keeps (reached w0) (refresh_children sv cs)"
  by (induction cs) (auto intro!: keeps_rules inspect_reached)

lemma list_reached: "keeps (reached w0) (listAgentSubagents date_parse sv parent)"
  unfolding listAgentSubagents_def own_store by (intro keeps_rules quiet_rules list_since refresh_reached)

lemma called_reached: "keeps (reached w0) (follow_called sv parent e child fs)"
  unfolding follow_called_def own_store by (intro keeps_rules create_since) (simp add: called_input_def Let_def)

lemma completed_reached: "keeps (reached w0) (follow_completed sv e fs)"
  unfolding follow_completed_def statusAfterSubagentCompletion_def Let_def
  by (intro keeps_rules inspect_child_reached update_child_reached)

lemma follow_event_reached: "keeps (reached w0) (follow_event sv parent e fs)"
  unfolding follow_event_def by (intro keeps_rules called_reached completed_reached)

lemma follow_events_reached: "keeps (reached w0) (follow_events sv parent es fs)"
  by (induction es arbitrary: fs) (auto intro!: keeps_rules follow_event_reached)

lemma settle_reached: "keeps (reached w0) (settle_children sv cancelled ended cs fs)"
  by (induction cs arbitrary: fs) (auto simp: settled_status_def intro!: keeps_rules inspect_child_reached update_child_reached)

lemma sync_reached: "keeps (reached w0) (syncAgentSubagentsFromEvents lc sv parent es)"
  unfolding syncAgentSubagentsFromEvents_def own_store
  by (intro keeps_rules quiet_rules list_since follow_events_reached settle_reached)

lemma retire_loop_reached: "keeps (reached w0) res \<Longrightarrow> keeps (reached w0) (retire_loop k pause sv res)"
proof (induction k arbitrary: pause)
  case 0
  show ?case unfolding retire_loop.simps by (intro keeps_rules 0)
next
  case (Suc k)
  show ?case unfolding retire_loop.simps by (intro keeps_rules quiet_rules Suc.prems Suc.IH)
qed

lemma retire_reached: "keeps (reached w0) (retireChildSession sv reason k)"
proof (cases "sx_reset (su_runtime sv)")
  case (Some res)
  show ?thesis unfolding retireChildSession_def Some option.case
    by (rule retire_loop_reached [OF quiet_since [OF quiet_reset [OF Some]]])
qed (simp add: retireChildSession_def)

lemma record_reached: "keeps (reached w0) (record_child sv parent task name nickname wp depth child)"
  unfolding record_child_def own_store by (intro keeps_rules create_since retire_reached) simp

text \<open>Starting a child leaves the records; stated for any property that such actions keep.\<close>

lemma start_keeps:
  assumes calm: "\<And>f w. quiet f \<Longrightarrow> I w \<Longrightarrow> I (f w)"
  shows "keeps I (start_child sv parent task name wp depth)"
proof -
  have persisted: "keeps I (spawnPersistedAgentRun sv ra run parent task name wp depth)" if "su_runStore sv = Some ra" for ra run
    using calm [OF quiet_run [OF that]] unfolding spawnPersistedAgentRun_def by (intro keeps_rules) (simp add: keeps_def)
  have session: "keeps I (spawnSessionOnlySubagent sv parent task name wp depth)"
    using calm [OF quiet_spawn] by (cases "sx_spawn (su_runtime sv)") (auto simp: spawnSessionOnlySubagent_def keeps_def throw_def)
  have parent: "keeps I (parent_run sv parent)"
    using calm [OF quiet_find_run] by (auto simp: parent_run_def keeps_def ret_def split: option.splits)
  show ?thesis unfolding start_child_def
    by (intro keeps_bind parent) (auto split: option.splits intro!: session persisted)
qed

lemma start_reached: "keeps (reached w0) (start_child sv parent task name wp depth)"
  by (rule start_keeps) (simp add: quiet_def since_def)

lemma spawn_reached: "keeps (reached w0) (spawnAgentSubagent sv parent task name nickname wp)"
  unfolding spawnAgentSubagent_def own_store
  by (intro keeps_rules quiet_rules list_since find_since start_reached record_reached)

lemma message_reached: "keeps (reached w0) (message_kind sv resume c)"
  unfolding message_kind_def by (intro keeps_rules inspect_child_reached)

lemma deliver_reached: "su_mailbox sv = Some mb \<Longrightarrow> keeps (reached w0) (deliver_message sv mb c message operationId kind)"
  unfolding deliver_message_def by (intro keeps_rules quiet_since [OF quiet_enqueue] update_child_reached)

lemma hand_over_reached: "keeps (reached w0) (hand_over sv message resume operationId c)"
  by (cases "su_mailbox sv") (auto simp: hand_over_def Let_def intro!: keeps_bind message_reached deliver_reached)

lemma send_reached: "keeps (reached w0) (sendAgentSubagentMessage sv child message resume operationId)"
  unfolding sendAgentSubagentMessage_def by (intro keeps_rules ownedChild_reached inspect_reached hand_over_reached)

lemma wait_loop_reached: "keeps (reached w0) (wait_loop fuel sv child timeout deadline current)"
proof (induction fuel arbitrary: current)
  case 0
  show ?case unfolding wait_loop.simps by (rule keeps_ret)
next
  case (Suc fuel)
  show ?case unfolding wait_loop.simps
    by (intro keeps_rules inspect_child_reached update_child_reached quiet_rules Suc.IH)
qed

lemma waiting_reached: "keeps (reached w0) (waitForAgentSubagent sv child timeout)"
  unfolding waitForAgentSubagent_def by (intro keeps_rules ownedChild_reached wait_loop_reached)

lemma interrupt_reached: "keeps (reached w0) (interruptAgentSubagent sv child)"
  unfolding interruptAgentSubagent_def by (intro keeps_rules ownedChild_reached quiet_rules inspect_child_reached update_child_reached)

lemma close_reached: "keeps (reached w0) (closeAgentSubagent sv child)"
  unfolding closeAgentSubagent_def by (intro keeps_rules ownedChild_reached retire_reached update_child_reached)

subsection \<open>Limits of spawning\<close>

definition active_children :: "'w \<Rightarrow> string \<Rightarrow> string set" where
  "active_children w parent = {k. \<exists>o' c. lookup w k = Some (o', c) \<and> sameOwner o' (su_identity sv) \<and> sa_parentSessionId c = parent \<and> active_child c}"

lemma listed_children:
  assumes "inv w" and "ss_listOwned store (su_identity sv) parent w = (Inr cs, w')"
  shows "active_children w parent = sa_childSessionId ` set (filter active_child cs)"
proof -
  have cs: "c \<in> set cs \<longleftrightarrow> (\<exists>o'. lookup w (sa_childSessionId c) = Some (o', c) \<and> sameOwner o' (su_identity sv) \<and> sa_parentSessionId c = parent)" for c
    using list_keeps [OF assms] by blast
  show ?thesis unfolding active_children_def set_filter using cs lookup_id [OF assms(1)] by (auto simp: image_iff) metis
qed

lemma record_child_created:
  "record_child sv parent task name nickname wp depth child w = (Inr c, w') \<Longrightarrow>
   \<exists>i. cs_childSessionId i = sd_childSessionId child \<and> cs_owner i = su_identity sv \<and> cs_depth i = Some depth \<and> ss_create store i w = (Inr c, w')"
  unfolding record_child_def own_store
  by (auto simp: catch_act_def bind_act_def throw_def split: prod.splits sum.splits) (metis create_subagent.select_convs)+

lemma spawn_steps:
  assumes "inv w" and "spawnAgentSubagent sv parent task name nickname wp w = (Inr c, w')"
  shows "\<exists>w1 cs w2 child depth w3. inv w1 \<and> lookup w1 = lookup w \<and> ss_listOwned store (su_identity sv) parent w1 = (Inr cs, w2) \<and>
    length (filter active_child cs) < 16 \<and> depth \<le> 8 \<and> inv w3 \<and> lookup w3 = lookup w \<and>
    record_child sv parent (js_trim task) name nickname (default_to Wait wp) depth child w3 = (Inr c, w')"
proof -
  obtain rv w1 where v: "su_verify sv parent (su_identity sv) w = (rv, w1)" by fastforce
  have w1: "inv w1" "lookup w1 = lookup w" using quiet_verify [unfolded quiet_def, rule_format, OF assms(1)] v by (metis snd_conv)+
  obtain rl w2 where l: "ss_listOwned store (su_identity sv) parent w1 = (rl, w2)" by fastforce
  from list_keeps [OF w1(1) l] have w2: "w2 = w1" by blast
  obtain rf w2' where f: "ss_findOwned store (su_identity sv) parent w1 = (rf, w2')" by fastforce
  from find_keeps [OF w1(1) f] have w2': "w2' = w1" by blast
  obtain cs where cs: "rl = Inr cs" "length (filter active_child cs) < 16"
    using assms(2) v l unfolding spawnAgentSubagent_def own_store
    by (cases rv; cases rl) (auto simp: bind_act_def throw_def Let_def split: if_splits)
  obtain q where q: "rf = Inr q" "(case q of None \<Rightarrow> 0 | Some r \<Rightarrow> sa_depth r) + 1 \<le> 8"
    and run: "bind_act (start_child sv parent (js_trim task) name (default_to Wait wp) ((case q of None \<Rightarrow> 0 | Some r \<Rightarrow> sa_depth r) + 1))
      (record_child sv parent (js_trim task) name nickname (default_to Wait wp) ((case q of None \<Rightarrow> 0 | Some r \<Rightarrow> sa_depth r) + 1)) w1 = (Inr c, w')"
    using assms(2) v l f cs w2 w2' unfolding spawnAgentSubagent_def own_store
    by (cases rv; cases rf) (auto simp: bind_act_def throw_def Let_def not_less split: if_splits)
  let ?d = "(case q of None \<Rightarrow> 0 | Some r \<Rightarrow> sa_depth r) + 1"
  obtain rs w3 where s: "start_child sv parent (js_trim task) name (default_to Wait wp) ?d w1 = (rs, w3)" by fastforce
  have "keeps (\<lambda>v. inv v \<and> lookup v = lookup w) (start_child sv parent (js_trim task) name (default_to Wait wp) ?d)"
    by (rule start_keeps) (simp add: quiet_def)
  from keepsD [OF this _ s] w1 have w3: "inv w3" "lookup w3 = lookup w" by simp_all
  obtain child where "rs = Inr child" "record_child sv parent (js_trim task) name nickname (default_to Wait wp) ?d child w3 = (Inr c, w')"
    using run s by (cases rs) (auto simp: bind_act_def)
  with w1 w3 l cs q(2) w2 show ?thesis by blast
qed

lemma spawn_limits:
  assumes "inv w" and "spawnAgentSubagent sv parent task name nickname wp w = (Inr c, w')"
  shows "card (active_children w' parent) \<le> 16 \<and> (lookup w (sa_childSessionId c) = None \<longrightarrow> sa_depth c \<le> 8)"
proof -
  obtain w1 cs w2 child depth w3 where w1: "inv w1" "lookup w1 = lookup w" and l: "ss_listOwned store (su_identity sv) parent w1 = (Inr cs, w2)"
    and n: "length (filter active_child cs) < 16" and d: "depth \<le> 8" and w3: "inv w3" "lookup w3 = lookup w"
    and r: "record_child sv parent (js_trim task) name nickname (default_to Wait wp) depth child w3 = (Inr c, w')"
    using spawn_steps [OF assms] by blast
  obtain i where i: "cs_childSessionId i = sd_childSessionId child" "cs_owner i = su_identity sv" "cs_depth i = Some depth" "ss_create store i w3 = (Inr c, w')"
    using record_child_created [OF r] by blast
  from create_keeps [OF w3(1) i(4)] have inv': "inv w'" and other: "\<forall>k. k \<noteq> cs_childSessionId i \<longrightarrow> lookup w' k = lookup w k" using w3(2) by auto
  have "active_children w parent = sa_childSessionId ` set (filter active_child cs)"
    using listed_children [OF w1(1) l] w1(2) by (simp add: active_children_def)
  then have fin: "finite (active_children w parent)" and small: "card (active_children w parent) < 16"
    using n card_image_le [of "set (filter active_child cs)" sa_childSessionId] card_length [of "filter active_child cs"] by auto
  have "active_children w' parent \<subseteq> insert (cs_childSessionId i) (active_children w parent)"
    using other by (auto simp: active_children_def)
  then have "card (active_children w' parent) \<le> card (insert (cs_childSessionId i) (active_children w parent))"
    using fin by (intro card_mono) simp_all
  also have "\<dots> \<le> 16" using small card_insert_le_m1 [of 16 "active_children w parent" "cs_childSessionId i"] by simp
  finally have "card (active_children w' parent) \<le> 16" .
  moreover have "sa_depth c \<le> 8" if "lookup w (sa_childSessionId c) = None"
  proof -
    from create_value [OF w3(1) i(4)] lookup_id [OF inv'] have "sa_childSessionId c = cs_childSessionId i" by blast
    with create_new [OF w3(1) i(4)] that w3(2) i(3) d show ?thesis by (simp add: default_to_def)
  qed
  ultimately show ?thesis by blast
qed

end

end
