(* ===== verification/Subagent_World.thy ===== *)
theory Subagent_World
  imports Subagent_Theorems
begin

section \<open>Sub-agents beside the rest of the system\<close>

text \<open>
  The table of sub-agents beside everything else the supervisor calls (runs, mailbox, ownership, runtime,
  clock), each with a state of its own; the properties of the supervisor over it.
\<close>

subsection \<open>The world\<close>

record 'r children_world =
  cw_table :: subagent_table
  cw_rest :: 'r

definition on_table :: "(subagent_table, 'a) act \<Rightarrow> ('r children_world, 'a) act" where
  "on_table m w = (case m (cw_table w) of (r, t) \<Rightarrow> (r, w\<lparr>cw_table := t\<rparr>))"

definition on_rest :: "('r, 'a) act \<Rightarrow> ('r children_world, 'a) act" where
  "on_rest m w = (case m (cw_rest w) of (r, s) \<Rightarrow> (r, w\<lparr>cw_rest := s\<rparr>))"

definition rest_runs :: "'r run_store_if \<Rightarrow> 'r children_world run_store_if" where
  "rest_runs s = \<lparr>si_attachSession = (\<lambda>a b. on_rest (si_attachSession s a b)),
     si_bindSubmissionSession = map_option (\<lambda>f a b. on_rest (f a b)) (si_bindSubmissionSession s),
     si_findOwned = (\<lambda>a b c. on_rest (si_findOwned s a b c)), si_markCancelled = (\<lambda>a. on_rest (si_markCancelled s a)),
     si_markCancellationRequested = (\<lambda>a. on_rest (si_markCancellationRequested s a)),
     si_markSubmissionFailed = (\<lambda>a b. on_rest (si_markSubmissionFailed s a b)),
     si_markSubmissionAmbiguous = (\<lambda>a b. on_rest (si_markSubmissionAmbiguous s a b)),
     si_listStaleSubmissions = map_option (\<lambda>f a b. on_rest (f a b)) (si_listStaleSubmissions s),
     si_reserve = (\<lambda>i. on_rest (si_reserve s i)), si_updateProjection = (\<lambda>a b. on_rest (si_updateProjection s a b))\<rparr>"

definition rest_runtime :: "'r run_runtime \<Rightarrow> 'r children_world run_runtime" where
  "rest_runtime r = \<lparr>rn_cancel = (\<lambda>a b c. on_rest (rn_cancel r a b c)), rn_readEvents = (\<lambda>a b c d e. on_rest (rn_readEvents r a b c d e)),
     rn_respond = (\<lambda>a b c d. on_rest (rn_respond r a b c d)), rn_reset = (\<lambda>a b c. on_rest (rn_reset r a b c)),
     rn_start = (\<lambda>a b. on_rest (rn_start r a b)), rn_synchronizationPageSize = rn_synchronizationPageSize r\<rparr>"

definition rest_policy :: "'r submission_policy \<Rightarrow> 'r children_world submission_policy" where
  "rest_policy p = \<lparr>sp_attachAttempts = sp_attachAttempts p, sp_cleanupAttempts = sp_cleanupAttempts p, sp_sleep = (\<lambda>d. on_rest (sp_sleep p d))\<rparr>"

definition rest_access :: "'r run_access \<Rightarrow> 'r children_world run_access" where
  "rest_access a = \<lparr>ra_store = rest_runs (ra_store a), ra_findOwnedBySession = map_option (\<lambda>f t p s. on_rest (f t p s)) (ra_findOwnedBySession a),
     ra_runtime = rest_runtime (ra_runtime a), ra_policy = map_sum id rest_policy (ra_policy a), ra_fingerprint = ra_fingerprint a\<rparr>"

definition rest_mailbox :: "'r mailbox_if \<Rightarrow> 'r children_world mailbox_if" where
  "rest_mailbox m = \<lparr>mi_enqueue = (\<lambda>i. on_rest (mi_enqueue m i)), mi_claimNext = (\<lambda>a. on_rest (mi_claimNext m a)),
     mi_beginAdmission = (\<lambda>a b c. on_rest (mi_beginAdmission m a b c)), mi_defer = (\<lambda>a b c d. on_rest (mi_defer m a b c d)),
     mi_deferRejectedAdmission = (\<lambda>a b c d. on_rest (mi_deferRejectedAdmission m a b c d)), mi_accept = (\<lambda>a b c. on_rest (mi_accept m a b c)),
     mi_commit = (\<lambda>a b. on_rest (mi_commit m a b)), mi_fail = (\<lambda>a b c. on_rest (mi_fail m a b c)),
     mi_markSubmissionAmbiguous = (\<lambda>a b c. on_rest (mi_markSubmissionAmbiguous m a b c)),
     mi_findOwned = (\<lambda>a b. on_rest (mi_findOwned m a b))\<rparr>"

definition rest_children :: "'r subagent_runtime \<Rightarrow> 'r children_world subagent_runtime" where
  "rest_children r = \<lparr>sx_spawn = map_option (\<lambda>f i. on_rest (f i)) (sx_spawn r), sx_inspect = (\<lambda>a b. on_rest (sx_inspect r a b)),
     sx_cancel = (\<lambda>a. on_rest (sx_cancel r a)), sx_reset = map_option (\<lambda>f a b. on_rest (f a b)) (sx_reset r)\<rparr>"

definition table_store :: "subagent_table subagent_store \<Rightarrow> 'r children_world subagent_store" where
  "table_store s = \<lparr>ss_create = (\<lambda>i. on_table (ss_create s i)), ss_findOwned = (\<lambda>a b. on_table (ss_findOwned s a b)),
     ss_listOwned = (\<lambda>a b. on_table (ss_listOwned s a b)), ss_updateOwned = (\<lambda>a b p. on_table (ss_updateOwned s a b p))\<rparr>"

text \<open>The supervisor of the production server: the table of sub-agents, and the rest of its options.\<close>

definition production :: "subagent_table subagent_store \<Rightarrow> 'r supervisor \<Rightarrow> 'r children_world supervisor" where
  "production s r = \<lparr>su_identity = su_identity r, su_verify = (\<lambda>a b. on_rest (su_verify r a b)), su_store = table_store s,
     su_runStore = map_option rest_access (su_runStore r), su_mailbox = map_option (\<lambda>(m, f). (rest_mailbox m, f)) (su_mailbox r),
     su_runtime = rest_children (su_runtime r), su_configured = su_configured r, su_uuid = (\<lambda>n w. su_uuid r n (cw_rest w)),
     su_now = (\<lambda>w. su_now r (cw_rest w)), su_delay = (\<lambda>d. on_rest (su_delay r d))\<rparr>"

subsection \<open>Actions on the rest leave the table\<close>

lemma keeps_on_rest: "keeps (\<lambda>w. cw_table w = t) (on_rest m)"
  by (simp add: keeps_def on_rest_def split: prod.splits)

lemma attach_leaves: "keeps (\<lambda>w. cw_table w = t) (attach_attempts (rest_runs s) a b (rest_policy p) n e)"
  by (induction n arbitrary: e) (auto simp: rest_runs_def rest_policy_def intro!: keeps_rules keeps_on_rest)

lemma reset_leaves: "keeps (\<lambda>w. cw_table w = t) (reset_attempts (rest_runtime r) a b c (rest_policy p) n)"
  by (induction n) (auto simp: rest_runtime_def rest_policy_def intro!: keeps_rules keeps_on_rest)

lemma validate_leaves: "keeps (\<lambda>w. cw_table w = t) (validateParent (rest_runs s) idn rq)"
  unfolding validateParent_def Let_def by (intro keeps_rules) (simp add: rest_runs_def keeps_on_rest)

lemma current_leaves: "keeps (\<lambda>w. cw_table w = t) (current_or_reserved (rest_runs s) idn r)"
  unfolding current_or_reserved_def by (intro keeps_rules) (simp add: rest_runs_def keeps_on_rest)

lemma release_accepted_leaves: "keeps (\<lambda>w. cw_table w = t) (release_accepted (rest_runs s) (rest_runtime r) idn (rest_policy p) row sid)"
  unfolding release_accepted_def resetAcceptedSessionWithRetry_def
  by (intro keeps_rules reset_leaves current_leaves) (simp add: rest_runs_def keeps_on_rest)

lemma attach_failed_leaves: "keeps (\<lambda>w. cw_table w = t) (attach_failed (rest_runs s) (rest_runtime r) idn (rest_policy p) row sid)"
proof -
  have "keeps (\<lambda>w. cw_table w = t) (attempt (case si_bindSubmissionSession (rest_runs s) of None \<Rightarrow> ret None
      | Some b \<Rightarrow> bind_act (b (rr_runId row) sid) (\<lambda>r. ret (Some r))))"
    by (auto simp: rest_runs_def split: option.splits intro!: keeps_rules keeps_on_rest)
  then show ?thesis unfolding attach_failed_def by (rule keeps_bind) (intro keeps_rules release_accepted_leaves)
qed

lemma submission_failed_leaves: "keeps (\<lambda>w. cw_table w = t) (submission_failed (rest_runs s) row e)"
  unfolding submission_failed_def by (intro keeps_rules) (simp_all add: rest_runs_def keeps_on_rest)

lemma submit_leaves: "keeps (\<lambda>w. cw_table w = t) (submit_reserved (rest_runs s) (rest_runtime r) idn (rest_policy p) rq row)"
  unfolding submit_reserved_def attachSessionWithRetry_def
  by (intro keeps_rules submission_failed_leaves attach_failed_leaves attach_leaves) (simp add: rest_runtime_def keeps_on_rest)

lemma start_leaves: "keeps (\<lambda>w. cw_table w = t) (startAgentRun fp (rest_runs s) (rest_runtime r) (map_sum id rest_policy pol) idn rq)"
proof (cases pol)
  case (Inl e)
  then show ?thesis by (simp add: startAgentRun_def keeps_def bind_act_def lift_res_def)
next
  case (Inr p)
  have "keeps (\<lambda>w. cw_table w = t) (si_reserve (rest_runs s) i)" for i by (simp add: rest_runs_def keeps_on_rest)
  then have "keeps (\<lambda>w. cw_table w = t) (bind_act (validateParent (rest_runs s) idn rq) (\<lambda>_.
      bind_act (si_reserve (rest_runs s) (reserve_request fp idn rq)) (\<lambda>reservation. case reservation of
        Conflicting _ \<Rightarrow> throw (OperationError 409 ''agent_run_idempotency_conflict''
          ''This idempotency key was already used for a different AgentRun request.'')
      | Capacity _ activeTenantCount _ maxPerTenant \<Rightarrow> throw (capacity_error activeTenantCount maxPerTenant)
      | Replayed r \<Rightarrow> ret (StartReplayed, r)
      | Reserved row \<Rightarrow> submit_reserved (rest_runs s) (rest_runtime r) idn (rest_policy p) rq row)))"
    by (intro keeps_bind validate_leaves) (auto split: reserve_result.splits intro: submit_leaves)
  then show ?thesis by (simp add: startAgentRun_def Inr keeps_def bind_act_def [of "lift_res x" for x] lift_res_def)
qed

lemma enqueue_leaves: "keeps (\<lambda>w. cw_table w = t) (enqueueAgentMailboxMessage fp (rest_mailbox m) opts)"
  unfolding enqueueAgentMailboxMessage_def Let_def by (intro keeps_rules) (simp add: rest_mailbox_def keeps_on_rest)

subsection \<open>The supervisor over its table\<close>

definition world_child :: "'r children_world \<Rightarrow> string \<Rightarrow> entry option" where
  "world_child w = child_row (cw_table w)"

definition world_ok :: "'r children_world \<Rightarrow> bool" where
  "world_ok w \<longleftrightarrow> subtable_ok (cw_table w)"

definition leaves_table :: "('r children_world \<Rightarrow> 'r children_world) \<Rightarrow> bool" where
  "leaves_table f \<longleftrightarrow> (\<forall>w. world_ok w \<longrightarrow> world_ok (f w) \<and> world_child (f w) = world_child w)"

lemma leaves_tableI: "(\<And>t. keeps (\<lambda>w. cw_table w = t) m) \<Longrightarrow> leaves_table (\<lambda>w. snd (m w))"
  by (simp add: leaves_table_def keeps_def world_ok_def world_child_def)

lemma leaves_on_rest: "leaves_table (\<lambda>w. snd (on_rest m w))"
  by (rule leaves_tableI) (rule keeps_on_rest)

lemma on_table_pair: "on_table m w = (r, w') \<Longrightarrow> m (cw_table w) = (r, cw_table w') \<and> cw_rest w' = cw_rest w"
  by (auto simp: on_table_def split: prod.splits)

lemma same_world: "cw_table w' = cw_table w \<Longrightarrow> cw_rest w' = cw_rest w \<Longrightarrow> w' = (w :: 'r children_world)"
  by simp

text \<open>A provider on the table is one on the world.\<close>

interpretation production: supervision "table_store (table_subagents by_time to_time now dbnow)" world_child world_ok
  "production (table_subagents by_time to_time now dbnow) r" leaves_table for by_time to_time now dbnow and r :: "'r supervisor"
proof
  let ?s = "table_subagents by_time to_time now dbnow"
  {
    fix w :: "'r children_world" and i res w' assume ok: "world_ok w" and "ss_create (table_store ?s) i w = (res, w')"
    then have "ss_create ?s i (cw_table w) = (res, cw_table w')" by (simp add: table_store_def on_table_pair)
    from table_children.create_keeps [OF ok [unfolded world_ok_def] this]
    show "world_ok w' \<and> (\<forall>k. evolves (cs_owner i) (world_child w k) (world_child w' k)) \<and>
      (\<forall>k. k \<noteq> cs_childSessionId i \<longrightarrow> world_child w' k = world_child w k)" by (simp add: world_ok_def world_child_def)
  next
    fix w :: "'r children_world" and i c w' assume ok: "world_ok w" and "ss_create (table_store ?s) i w = (Inr c, w')"
    then have "ss_create ?s i (cw_table w) = (Inr c, cw_table w')" by (simp add: table_store_def on_table_pair)
    from table_children.create_value [OF ok [unfolded world_ok_def] this]
    show "\<exists>o'. world_child w' (cs_childSessionId i) = Some (o', c) \<and> sameOwner o' (cs_owner i)" by (simp add: world_child_def)
  next
    fix w :: "'r children_world" and i c w' assume ok: "world_ok w" and "ss_create (table_store ?s) i w = (Inr c, w')" and n: "world_child w (cs_childSessionId i) = None"
    then have "ss_create ?s i (cw_table w) = (Inr c, cw_table w')" by (simp add: table_store_def on_table_pair)
    from table_children.create_new [OF ok [unfolded world_ok_def] this] n
    show "sa_depth c = default_to 1 (cs_depth i)" by (simp add: world_child_def)
  next
    fix w :: "'r children_world" and who k p res w' assume ok: "world_ok w" and "ss_updateOwned (table_store ?s) who k p w = (res, w')"
    then have "ss_updateOwned ?s who k p (cw_table w) = (res, cw_table w')" by (simp add: table_store_def on_table_pair)
    from table_children.update_keeps [OF ok [unfolded world_ok_def] this]
    show "world_ok w' \<and> (\<forall>j. evolves who (world_child w j) (world_child w' j)) \<and> (\<forall>j. j \<noteq> k \<longrightarrow> world_child w' j = world_child w j)"
      by (simp add: world_ok_def world_child_def)
  next
    fix w :: "'r children_world" and who k p c w' assume ok: "world_ok w" and "ss_updateOwned (table_store ?s) who k p w = (Inr (Some c), w')"
    then have "ss_updateOwned ?s who k p (cw_table w) = (Inr (Some c), cw_table w')" by (simp add: table_store_def on_table_pair)
    from table_children.update_value [OF ok [unfolded world_ok_def] this]
    show "(\<exists>o'. world_child w' k = Some (o', c) \<and> sameOwner o' who) \<and> (\<forall>s. us_status p = Some s \<longrightarrow> sa_status c = s)" by (simp add: world_child_def)
  next
    fix w :: "'r children_world" and who k res w' assume ok: "world_ok w" and f: "ss_findOwned (table_store ?s) who k w = (res, w')"
    then have t: "ss_findOwned ?s who k (cw_table w) = (res, cw_table w')" "cw_rest w' = cw_rest w" by (simp_all add: table_store_def on_table_pair)
    from table_children.find_keeps [OF ok [unfolded world_ok_def] t(1)] same_world [OF _ t(2)]
    show "w' = w \<and> (\<forall>c. res = Inr (Some c) \<longrightarrow> (\<exists>o'. world_child w k = Some (o', c) \<and> sameOwner o' who))" by (simp add: world_child_def)
  next
    fix w :: "'r children_world" and who parent res w' assume ok: "world_ok w" and f: "ss_listOwned (table_store ?s) who parent w = (res, w')"
    then have t: "ss_listOwned ?s who parent (cw_table w) = (res, cw_table w')" "cw_rest w' = cw_rest w" by (simp_all add: table_store_def on_table_pair)
    from table_children.list_keeps [OF ok [unfolded world_ok_def] t(1)] same_world [OF _ t(2)]
    show "w' = w \<and> (\<forall>cs c. res = Inr cs \<longrightarrow> (c \<in> set cs \<longleftrightarrow>
      (\<exists>o'. world_child w (sa_childSessionId c) = Some (o', c) \<and> sameOwner o' who \<and> sa_parentSessionId c = parent)))" by (simp add: world_child_def)
  next
    fix w :: "'r children_world" and k o' c assume "world_ok w" and "world_child w k = Some (o', c)"
    then show "sa_childSessionId c = k" unfolding world_ok_def world_child_def by (rule table_children.lookup_id)
  }
qed (auto simp: production_def rest_children_def rest_access_def leaves_table_def [symmetric] intro!: leaves_tableI keeps_on_rest start_leaves enqueue_leaves)

subsection \<open>Runs of the supervisor\<close>

datatype child_cmd =
    ChList "string \<Rightarrow> int option" string
  | ChInspect string
  | ChFollow "string \<Rightarrow> string \<Rightarrow> int" string "session_event list"
  | ChSpawn string string "string option" "string option" "wait_policy option"
  | ChSend string string bool "string option"
  | ChWait string "int option"
  | ChInterrupt string
  | ChClose string

fun exec_child :: "'w supervisor \<Rightarrow> child_cmd \<Rightarrow> 'w \<Rightarrow> 'w" where
  "exec_child sv (ChList dp parent) w = snd (listAgentSubagents dp sv parent w)"
| "exec_child sv (ChInspect k) w = snd (inspectAgentSubagent sv k w)"
| "exec_child sv (ChFollow lc parent es) w = snd (syncAgentSubagentsFromEvents lc sv parent es w)"
| "exec_child sv (ChSpawn parent task name nick wp) w = snd (spawnAgentSubagent sv parent task name nick wp w)"
| "exec_child sv (ChSend k m resume i) w = snd (sendAgentSubagentMessage sv k m resume i w)"
| "exec_child sv (ChWait k t) w = snd (waitForAgentSubagent sv k t w)"
| "exec_child sv (ChInterrupt k) w = snd (interruptAgentSubagent sv k w)"
| "exec_child sv (ChClose k) w = snd (closeAgentSubagent sv k w)"

definition run_children :: "'w supervisor \<Rightarrow> child_cmd list \<Rightarrow> 'w \<Rightarrow> 'w" where
  "run_children sv cs w = fold (exec_child sv) cs w"

lemmas production_keeps = production.list_reached production.inspect_reached production.sync_reached production.spawn_reached
  production.send_reached production.waiting_reached production.interrupt_reached production.close_reached

lemma exec_child_reached:
  "production.reached by_time to_time now dbnow r w0 w \<Longrightarrow>
   production.reached by_time to_time now dbnow r w0 (exec_child (production (table_subagents by_time to_time now dbnow) r) c w)"
  by (cases c) (simp_all add: production_keeps [unfolded keeps_def, rule_format])

lemma run_children_reached:
  "production.reached by_time to_time now dbnow r w0 w \<Longrightarrow>
   production.reached by_time to_time now dbnow r w0 (run_children (production (table_subagents by_time to_time now dbnow) r) cs w)"
  by (induction cs arbitrary: w) (simp_all add: run_children_def exec_child_reached)

text \<open>C12 (subagents_stay_with_their_owner)  Whatever a principal asks the supervisor to do, in any order and
  whatever the runtime, the runs and the mailbox answer: no record of another principal changes, no record
  disappears, a new record is its own, and the parent, the call and the depth of a child are written once.\<close>

theorem subagents_stay_with_their_owner:
  assumes "world_ok w"
  shows "world_ok (run_children (production (table_subagents by_time to_time now dbnow) r) cs w) \<and>
    evolves (su_identity r) (world_child w k) (world_child (run_children (production (table_subagents by_time to_time now dbnow) r) cs w) k)"
proof -
  have "production.reached by_time to_time now dbnow r w w" by (rule production.since_refl [OF assms])
  from run_children_reached [OF this, of cs] show ?thesis by (simp add: production.since_def production_def)
qed

text \<open>C25 (spawning_is_bounded)  A spawn that nothing overlaps - between its listing of the children and the row it
  writes, the runs, the runtime and everything else it calls leave the table of sub-agents alone - leaves its session
  with at most sixteen active children, and a child it adds is at most eight levels deep.  The code holds no lock
  there; overlapping_spawns_pass_the_limit shows that two spawns that do overlap pass the sixteen.\<close>

theorem spawning_is_bounded:
  assumes "world_ok w"
    and "spawnAgentSubagent (production (table_subagents by_time to_time now dbnow) r) parent task name nickname wp w = (Inr c, w')"
  shows "card {k. \<exists>o' c. world_child w' k = Some (o', c) \<and> sameOwner o' (su_identity r) \<and> sa_parentSessionId c = parent \<and> active_child c} \<le> 16 \<and>
    (world_child w (sa_childSessionId c) = None \<longrightarrow> sa_depth c \<le> 8)"
proof -
  have idn: "su_identity (production (table_subagents by_time to_time now dbnow) r) = su_identity r" by (simp add: production_def)
  show ?thesis using production.spawn_limits [OF assms] unfolding production.active_children_def idn by blast
qed

subsection \<open>Waiting ends\<close>

text \<open>
  A clock that does not run backwards, requests that take at most \<open>c\<close> milliseconds each, and timers that fire
  no earlier than they are asked to and at most \<open>c\<close> late.
\<close>

definition took :: "int \<Rightarrow> 'w supervisor \<Rightarrow> 'w \<Rightarrow> 'w \<Rightarrow> bool" where
  "took c sv w w' \<longleftrightarrow> su_now sv w \<le> su_now sv w' \<and> su_now sv w' \<le> su_now sv w + c"

definition punctual :: "int \<Rightarrow> 'w supervisor \<Rightarrow> bool" where
  "punctual c sv \<longleftrightarrow> 0 \<le> c \<and> (\<forall>k w. took c sv w (snd (ownedChild sv k w))) \<and> (\<forall>k w. took c sv w (snd (inspect_child sv k w))) \<and>
     (\<forall>k p w. took c sv w (snd (update_child sv k p w))) \<and>
     (\<forall>d w. su_now sv w + d \<le> su_now sv (snd (su_delay sv d w)) \<and> su_now sv (snd (su_delay sv d w)) \<le> su_now sv w + d + c)"

text \<open>The runtime says of a child that it does not run.\<close>

definition reports_idle :: "'w supervisor \<Rightarrow> string \<Rightarrow> bool" where
  "reports_idle sv k \<longleftrightarrow> (\<exists>v s t v'. inspect_child sv k v = (Inr (s, t), v') \<and> idle_status (mapRuntimeStatus s))"

definition ends_well :: "int \<Rightarrow> 'w supervisor \<Rightarrow> string \<Rightarrow> int \<Rightarrow> int \<Rightarrow> subagent option res \<Rightarrow> 'w \<Rightarrow> bool" where
  "ends_well c sv k timeout deadline res w' \<longleftrightarrow> res \<noteq> Inr None \<and> su_now sv w' \<le> deadline + 3 * c + 20 \<and>
     (isl res \<or> timeout = 0 \<or> deadline < su_now sv w' \<or> reports_idle sv k)"

lemma punctualD:
  assumes "punctual c sv"
  shows "inspect_child sv k w = (ri, w1) \<Longrightarrow> took c sv w w1" and "update_child sv k p w = (ru, w2) \<Longrightarrow> took c sv w w2"
    and "ownedChild sv k w = (ro, w3) \<Longrightarrow> took c sv w w3"
    and "su_delay sv d w = (rd, w4) \<Longrightarrow> su_now sv w + d \<le> su_now sv w4 \<and> su_now sv w4 \<le> su_now sv w + d + c"
  using assms unfolding punctual_def by (metis snd_conv)+

lemma wait_loop_ends:
  "\<lbrakk>punctual c sv; 0 < fuel; deadline - su_now sv w < 20 * (int fuel - 1); su_now sv w \<le> deadline + 3 * c + 20;
    wait_loop fuel sv k timeout deadline current w = (res, w')\<rbrakk> \<Longrightarrow> ends_well c sv k timeout deadline res w'"
proof (induction fuel arbitrary: current w)
  case 0
  then show ?case by simp
next
  case (Suc fuel)
  have c: "0 \<le> c" using Suc.prems(1) by (simp add: punctual_def)
  show ?case
  proof (cases "su_now sv w > deadline")
    case True
    with Suc.prems(4,5) show ?thesis by (auto simp: ends_well_def reading_def ret_def)
  next
    case False
    obtain ri w1 where i: "inspect_child sv k w = (ri, w1)" by fastforce
    note ti = punctualD(1) [OF Suc.prems(1) i, unfolded took_def]
    show ?thesis
    proof (cases ri)
      case (Inl e)
      with Suc.prems(5) False i have "res = Inl e" "w' = w1" by (auto simp: reading_def bind_act_def)
      with ti c False show ?thesis by (simp add: ends_well_def)
    next
      case (Inr st)
      obtain s t where st: "st = (s, t)" by fastforce
      obtain ru w2 where u: "update_child sv k (set_status (mapRuntimeStatus s)) w1 = (ru, w2)" by fastforce
      note tu = punctualD(2) [OF Suc.prems(1) u, unfolded took_def]
      show ?thesis
      proof (cases ru)
        case (Inl e)
        with Suc.prems(5) False i Inr st u have "res = Inl e" "w' = w2" by (auto simp: reading_def bind_act_def)
        with ti tu c False show ?thesis by (simp add: ends_well_def)
      next
        case q: (Inr q)
        show ?thesis
        proof (cases "idle_status (mapRuntimeStatus s) \<or> timeout = 0")
          case True
          with Suc.prems(5) False i Inr st u q have "res = Inr (Some (default_to current q))" "w' = w2"
            by (auto simp: reading_def bind_act_def ret_def)
          moreover have "timeout = 0 \<or> reports_idle sv k" using True i Inr st unfolding reports_idle_def by blast
          ultimately show ?thesis using ti tu c False by (auto simp: ends_well_def)
        next
          case busy: False
          let ?d = "min 500 (max 20 (deadline - su_now sv w2))"
          obtain rd w3 where d: "su_delay sv ?d w2 = (rd, w3)" by fastforce
          note td = punctualD(4) [OF Suc.prems(1) d]
          have d': "20 \<le> ?d" "?d \<le> max 20 (deadline - su_now sv w2)" by simp_all
          then have late: "su_now sv w3 \<le> deadline + 3 * c + 20" using ti tu td c False by linarith
          show ?thesis
          proof (cases rd)
            case (Inl e)
            with Suc.prems(5) False i Inr st u q busy d have "res = Inl e" "w' = w3" by (auto simp: reading_def bind_act_def)
            with late show ?thesis by (simp add: ends_well_def)
          next
            case (Inr x)
            have rest: "wait_loop fuel sv k timeout deadline (default_to current q) w3 = (res, w')"
              using Suc.prems(5) False i \<open>ri = Inr st\<close> st u q busy d Inr by (auto simp: reading_def bind_act_def)
            have "su_now sv w + 20 \<le> su_now sv w3" using ti tu td d'(1) by linarith
            then have "deadline - su_now sv w3 < 20 * (int fuel - 1)" using Suc.prems(3) by simp
            moreover have "0 < fuel" using Suc.prems(3) False by (cases fuel) auto
            ultimately show ?thesis using Suc.IH [OF Suc.prems(1)] late rest by blast
          qed
        qed
      qed
    qed
  qed
qed

text \<open>C28 (waiting_ends)  Suppose every request takes at most \<open>c\<close> milliseconds, the clock does not run backwards and
  timers fire no earlier than asked and at most \<open>c\<close> late.  Then waiting for a child always returns (the bound on
  the rounds of its loop is never reached), whatever the runtime answers and whatever timeout is asked for: at most
  \<open>4 c + 20\<close> milliseconds after the timeout, clamped to the range from zero to five minutes, has passed.  And it does not
  give up early: unless the timeout is zero, a child whose runtime never reports it idle is returned only after the
  whole timeout.\<close>

theorem waiting_ends:
  assumes "punctual c sv" and "waitForAgentSubagent sv child timeout w = (res, w')"
  shows "res \<noteq> Inr None \<and> su_now sv w' \<le> su_now sv w + wait_timeout timeout + 4 * c + 20 \<and>
    (\<forall>r. res = Inr (Some (Some r)) \<longrightarrow> wait_timeout timeout = 0 \<or> su_now sv w + wait_timeout timeout < su_now sv w' \<or>
       (\<exists>c0. fst (ownedChild sv child w) = Inr (Some c0) \<and> reports_idle sv (sa_childSessionId c0))) \<and>
    0 \<le> wait_timeout timeout \<and> wait_timeout timeout \<le> 300000"
proof -
  let ?t = "wait_timeout timeout"
  have t: "0 \<le> ?t" "?t \<le> 300000" by (simp_all add: wait_timeout_def)
  obtain rc w1 where o': "ownedChild sv child w = (rc, w1)" by fastforce
  note to' = punctualD(3) [OF assms(1) o', unfolded took_def]
  have c: "0 \<le> c" using assms(1) by (simp add: punctual_def)
  consider (stop) "w' = w1" "res \<noteq> Inr None" "\<And>r. res \<noteq> Inr (Some (Some r))" | (loop) c0 where "rc = Inr (Some c0)"
    using assms(2) o' by (cases rc) (auto simp: waitForAgentSubagent_def bind_act_def ret_def split: option.splits)
  then show ?thesis
  proof cases
    case stop
    with t to' c show ?thesis by auto
  next
    case loop
    obtain q w2 where l: "wait_loop wait_rounds sv (sa_childSessionId c0) ?t (su_now sv w1 + ?t) c0 w1 = (q, w2)" by fastforce
    have q: "ends_well c sv (sa_childSessionId c0) ?t (su_now sv w1 + ?t) q w2"
      by (rule wait_loop_ends [OF assms(1) _ _ _ l]) (use t c in \<open>simp_all add: wait_rounds_def\<close>)
    have "w' = w2" "res = (case q of Inl e \<Rightarrow> Inl e | Inr r \<Rightarrow> Inr (map_option Some r))"
      using assms(2) o' loop l by (auto simp: waitForAgentSubagent_def bind_act_def ret_def reading_def split: sum.splits)
    moreover have "fst (ownedChild sv child w) = Inr (Some c0)" using o' loop by simp
    ultimately show ?thesis using q t to' c by (cases q) (auto simp: ends_well_def)
  qed
qed

subsection \<open>A small system\<close>

text \<open>A system whose rest is a clock: the runtime gives the same answer about every child, and starts \<open>s2\<close>.\<close>

definition delegator :: session_owner where
  "delegator = \<lparr>ow_issuer = None, ow_principalId = ''p'', ow_principalType = ''user'', ow_tenantId = ''t''\<rparr>"

definition demo_rest :: "runtime_status \<Rightarrow> int supervisor" where
  "demo_rest answer = \<lparr>su_identity = delegator, su_verify = (\<lambda>sid who. ret Owned),
     su_store = \<lparr>ss_create = (\<lambda>i. throw (Error ''unused'')), ss_findOwned = (\<lambda>a b. ret None), ss_listOwned = (\<lambda>a b. ret []),
       ss_updateOwned = (\<lambda>a b p. ret None)\<rparr>, su_runStore = None, su_mailbox = None,
     su_runtime = \<lparr>sx_spawn = Some (\<lambda>i. ret \<lparr>sd_childSessionId = ''s2'', sd_agentId = None, sd_name = None\<rparr>),
       sx_inspect = (\<lambda>a b. ret (answer, None)), sx_cancel = (\<lambda>a. ret TurnCancelAccepted), sx_reset = Some (\<lambda>a b. ret WasReset)\<rparr>,
     su_configured = True, su_uuid = (\<lambda>n w. ''u''), su_now = (\<lambda>w. w), su_delay = (\<lambda>d w. (Inr (), w + d))\<rparr>"

definition demo_store :: "subagent_table subagent_store" where
  "demo_store = table_subagents (\<lambda>_ _. 0) Some ''T1'' ''T2''"

definition demo_children :: "runtime_status \<Rightarrow> int children_world supervisor" where
  "demo_children answer = production demo_store (demo_rest answer)"

definition demo_child :: "string \<Rightarrow> sub_status \<Rightarrow> subagent" where
  "demo_child k s = \<lparr>sa_childSessionId = k, sa_agentId = None, sa_parentSessionId = ''s1'', sa_callId = None, sa_toolName = None,
     sa_name = None, sa_nickname = ''scout'', sa_task = None, sa_status = s, sa_waitPolicy = Wait, sa_depth = 1,
     sa_createdAt = ''T0'', sa_updatedAt = ''T0'', sa_startedAt = None, sa_finishedAt = None, sa_lastError = None\<rparr>"

definition stranger :: session_owner where
  "stranger = delegator\<lparr>ow_principalId := ''q''\<rparr>"

definition demo_family :: "sub_status \<Rightarrow> int children_world" where
  "demo_family s = \<lparr>cw_table = \<lparr>st_sessions = [''s1''], st_rows = [(stranger, demo_child ''s9'' SubRunning), (delegator, demo_child ''s3'' s)]\<rparr>,
     cw_rest = 0\<rparr>"

lemma demo_family_ok: "world_ok (demo_family s)"
  by (simp add: world_ok_def subtable_ok_def demo_family_def row_child_def demo_child_def)

lemma subagents_stay_with_their_owner_witness:
  "world_child (run_children (demo_children RtWaiting) [ChInterrupt ''s9'', ChSpawn ''s1'' ''look'' None None None, ChClose ''s9''] (demo_family SubRunning)) ''s9'' =
     Some (stranger, demo_child ''s9'' SubRunning)"
proof -
  have who: "su_identity (demo_rest RtWaiting) = delegator" by (simp add: demo_rest_def)
  have before: "world_child (demo_family SubRunning) ''s9'' = Some (stranger, demo_child ''s9'' SubRunning)"
    by (simp add: world_child_def demo_family_def child_row_def row_child_def as_entry_def subagent_record_def demo_child_def truthy_def)
  have other: "\<not> sameOwner stranger delegator" by (simp add: stranger_def sameOwner_def delegator_def)
  let ?after = "world_child (run_children (demo_children RtWaiting) [ChInterrupt ''s9'', ChSpawn ''s1'' ''look'' None None None, ChClose ''s9'']
    (demo_family SubRunning)) ''s9''"
  from subagents_stay_with_their_owner [OF demo_family_ok, of "\<lambda>_ _. 0" Some "''T1''" "''T2''" "demo_rest RtWaiting"
      "[ChInterrupt ''s9'', ChSpawn ''s1'' ''look'' None None None, ChClose ''s9'']" SubRunning "''s9''"]
  have "evolves delegator (Some (stranger, demo_child ''s9'' SubRunning)) ?after"
    unfolding before who demo_children_def demo_store_def by blast
  then show ?thesis using other by (cases ?after) auto
qed

lemma right_result:
  assumes "isl (fst x) = False"
  obtains u w where "x = (Inr u, w)"
  using assms by (cases x, cases "fst x") auto

lemma spawning_is_bounded_witness:
  "\<exists>c w'. spawnAgentSubagent (demo_children RtRunning) ''s1'' ''look'' None None None (demo_family SubRunning) = (Inr c, w') \<and>
     card {k. \<exists>o' c. world_child w' k = Some (o', c) \<and> sameOwner o' delegator \<and> sa_parentSessionId c = ''s1'' \<and> active_child c} \<le> 16"
proof -
  let ?sv = "demo_children RtRunning" and ?w = "demo_family SubRunning" and ?new = "\<lparr>sd_childSessionId = ''s2'', sd_agentId = None, sd_name = None\<rparr>"
  have "su_verify ?sv ''s1'' (su_identity ?sv) ?w = (Inr Owned, ?w)" "js_trim ''look'' = ''look''" "can_spawn ?sv"
    "ss_listOwned (su_store ?sv) (su_identity ?sv) ''s1'' ?w = (Inr [demo_child ''s3'' SubRunning], ?w)"
    "ss_findOwned (su_store ?sv) (su_identity ?sv) ''s1'' ?w = (Inr None, ?w)"
    "start_child ?sv ''s1'' ''look'' None Wait 1 ?w = (Inr ?new, ?w)" by code_simp+
  moreover have "isl (fst (record_child ?sv ''s1'' ''look'' None None Wait 1 ?new ?w)) = False" by code_simp
  then obtain c w' where "record_child ?sv ''s1'' ''look'' None None Wait 1 ?new ?w = (Inr c, w')" by (rule right_result)
  ultimately have s: "spawnAgentSubagent ?sv ''s1'' ''look'' None None None ?w = (Inr c, w')"
    by (simp add: spawnAgentSubagent_def bind_act_def Let_def default_to_def)
  have "su_identity (demo_rest RtRunning) = delegator" by (simp add: demo_rest_def)
  with spawning_is_bounded [OF demo_family_ok s [unfolded demo_children_def demo_store_def]] s show ?thesis by auto
qed

lemma demo_punctual: "punctual 0 (demo_children answer)"
proof -
  have "took 0 (demo_children answer) w (snd (ownedChild (demo_children answer) k w))" for k w
    by (auto simp: took_def ownedChild_def bind_act_def ret_def demo_children_def production_def demo_rest_def table_store_def on_rest_def on_table_def
        split: prod.splits sum.splits option.splits)
  then show ?thesis
    by (auto simp: punctual_def took_def demo_children_def production_def demo_rest_def inspect_child_def update_child_def rest_children_def
        on_rest_def ret_def table_store_def on_table_def split: prod.splits)
qed

lemma demo_now: "su_now (demo_children answer) (demo_family s) = 0"
  by (simp add: demo_children_def production_def demo_rest_def demo_family_def)

lemma waiting_ends_witness:
  "su_now (demo_children RtRunning) (snd (waitForAgentSubagent (demo_children RtRunning) ''s3'' (Some 5000) (demo_family SubStarting))) \<le> 5020"
proof -
  let ?w = "demo_family SubStarting" and ?sv = "demo_children RtRunning"
  have "su_now ?sv (snd (waitForAgentSubagent ?sv ''s3'' (Some 5000) ?w)) \<le> su_now ?sv ?w + wait_timeout (Some 5000) + 4 * 0 + 20"
    using waiting_ends [OF demo_punctual surjective_pairing, of RtRunning "''s3''" "Some 5000" ?w] by (elim conjE)
  then show ?thesis by (simp add: wait_timeout_def default_to_def demo_now)
qed

subsection \<open>Where the supervisor differs from what it says\<close>

lemma spawn_admitted:
  assumes "su_verify sv parent (su_identity sv) w = (Inr Owned, w)" and "js_trim task = task" and "task \<noteq> []" and "length task \<le> 100000"
    and "can_spawn sv" and "ss_listOwned (su_store sv) (su_identity sv) parent w = (Inr cs, w)" and "length (filter active_child cs) < 16"
    and "ss_findOwned (su_store sv) (su_identity sv) parent w = (Inr None, w)" and "start_child sv parent task name wp 1 w = (Inr child, w2)"
  shows "spawnAgentSubagent sv parent task name nickname (Some wp) w = record_child sv parent task name nickname wp 1 child w2"
  using assms by (simp add: spawnAgentSubagent_def bind_act_def Let_def default_to_def)

definition fifteen_children :: "int children_world" where
  "fifteen_children = \<lparr>cw_table = \<lparr>st_sessions = [''s1''], st_rows = map (\<lambda>i. (delegator, demo_child [CHR ''c'', i] SubRunning)) ''abcdefghijklmno''\<rparr>,
     cw_rest = 0\<rparr>"

text \<open>A supervisor whose runtime is slow: before it answers, another spawn of the same session comes and goes.\<close>

definition overlapped :: "int children_world supervisor" where
  "overlapped = (demo_children RtRunning)\<lparr>su_runtime := (su_runtime (demo_children RtRunning))\<lparr>sx_spawn :=
     Some (\<lambda>i. bind_act (spawnAgentSubagent (demo_children RtRunning) ''s1'' ''second'' None None (Some Wait))
       (\<lambda>_. ret \<lparr>sd_childSessionId = ''s3'', sd_agentId = None, sd_name = None\<rparr>))\<rparr>\<rparr>"

text \<open>Remark (overlapping_spawns_pass_the_limit)  Two spawns that overlap both count fifteen active children, both
  succeed, and leave seventeen.\<close>

theorem overlapping_spawns_pass_the_limit:
  "\<exists>c w'. spawnAgentSubagent overlapped ''s1'' ''first'' None None (Some Wait) fifteen_children = (Inr c, w') \<and>
     (case ss_listOwned (su_store overlapped) delegator ''s1'' w' of (Inr cs, _) \<Rightarrow> length (filter active_child cs) = 17 | _ \<Rightarrow> False)"
proof -
  let ?in = "demo_children RtRunning" and ?w = fifteen_children
  let ?s2 = "\<lparr>sd_childSessionId = ''s2'', sd_agentId = None, sd_name = None\<rparr>" and ?s3 = "\<lparr>sd_childSessionId = ''s3'', sd_agentId = None, sd_name = None\<rparr>"
  let ?cs = "map (\<lambda>i. demo_child [CHR ''c'', i] SubRunning) ''abcdefghijklmno''"
  have few: "length (filter active_child ?cs) < 16" by code_simp
  have 1: "su_verify ?in ''s1'' (su_identity ?in) ?w = (Inr Owned, ?w)" "js_trim ''second'' = ''second''" "can_spawn ?in"
    "ss_listOwned (su_store ?in) (su_identity ?in) ''s1'' ?w = (Inr ?cs, ?w)"
    "ss_findOwned (su_store ?in) (su_identity ?in) ''s1'' ?w = (Inr None, ?w)"
    "start_child ?in ''s1'' ''second'' None Wait 1 ?w = (Inr ?s2, ?w)" by code_simp+
  have inner: "spawnAgentSubagent ?in ''s1'' ''second'' None None (Some Wait) ?w = record_child ?in ''s1'' ''second'' None None Wait 1 ?s2 ?w"
    by (rule spawn_admitted [OF 1(1,2) _ _ 1(3,4) few 1(5,6)]) simp_all
  have "isl (fst (record_child ?in ''s1'' ''second'' None None Wait 1 ?s2 ?w)) = False" by code_simp
  then obtain c2 w2 where c2: "record_child ?in ''s1'' ''second'' None None Wait 1 ?s2 ?w = (Inr c2, w2)" by (rule right_result)
  have 2: "su_verify overlapped ''s1'' (su_identity overlapped) ?w = (Inr Owned, ?w)" "js_trim ''first'' = ''first''" "can_spawn overlapped"
    "ss_listOwned (su_store overlapped) (su_identity overlapped) ''s1'' ?w = (Inr ?cs, ?w)"
    "ss_findOwned (su_store overlapped) (su_identity overlapped) ''s1'' ?w = (Inr None, ?w)" by code_simp+
  have "su_runStore overlapped = None" by (simp add: overlapped_def demo_children_def production_def demo_rest_def)
  then have start: "start_child overlapped ''s1'' ''first'' None Wait 1 ?w = (Inr ?s3, w2)"
    by (simp add: start_child_def parent_run_def spawnSessionOnlySubagent_def bind_act_def ret_def inner c2 overlapped_def)
  have outer: "spawnAgentSubagent overlapped ''s1'' ''first'' None None (Some Wait) ?w = record_child overlapped ''s1'' ''first'' None None Wait 1 ?s3 w2"
    by (rule spawn_admitted [OF 2(1,2) _ _ 2(3,4) few 2(5) start]) simp_all
  have w2: "w2 = snd (record_child ?in ''s1'' ''second'' None None Wait 1 ?s2 ?w)" by (simp add: c2)
  have "isl (fst (record_child overlapped ''s1'' ''first'' None None Wait 1 ?s3 w2)) = False" unfolding w2 by code_simp
  then obtain c w' where c: "record_child overlapped ''s1'' ''first'' None None Wait 1 ?s3 w2 = (Inr c, w')" by (rule right_result)
  then have w': "w' = snd (record_child overlapped ''s1'' ''first'' None None Wait 1 ?s3 w2)" by simp
  have "case ss_listOwned (su_store overlapped) delegator ''s1'' w' of (Inr cs, _) \<Rightarrow> length (filter active_child cs) = 17 | _ \<Rightarrow> False"
    unfolding w' w2 by code_simp
  with outer c show ?thesis by auto
qed

text \<open>Remark (closing_is_forgotten)  A closed child does not stay closed: the next refresh of its record reads the
  boundary of its retired session and stores that instead, here \<^verbatim>\<open>completed\<close>.\<close>

theorem closing_is_forgotten:
  "case closeAgentSubagent (demo_children RtCompleted) ''s3'' (demo_family SubWaiting) of
     (Inr (Some c), w) \<Rightarrow> sa_status c = SubClosed \<and>
       (case inspectAgentSubagent (demo_children RtCompleted) ''s3'' w of (Inr (Some d), _) \<Rightarrow> sa_status d = SubCompleted | _ \<Rightarrow> False)
   | _ \<Rightarrow> False"
  by code_simp

definition demo_create :: "string option \<Rightarrow> create_subagent" where
  "demo_create nick = \<lparr>cs_childSessionId = ''s2'', cs_agentId = None, cs_parentSessionId = ''s1'', cs_callId = None, cs_toolName = None,
     cs_name = None, cs_nickname = nick, cs_task = None, cs_status = None, cs_waitPolicy = None, cs_depth = None, cs_owner = delegator\<rparr>"

text \<open>Remark (a_nickname_is_overwritten)  A second \<^verbatim>\<open>create\<close> without a nickname keeps the chosen one in memory, and
  replaces it by a generated one in the table.\<close>

theorem a_nickname_is_overwritten:
  "sa_nickname (snd (the (map_of (snd (mem_create ''T1'' (demo_create None) (snd (mem_create ''T1'' (demo_create (Some ''scout'')) [])))) ''s2''))) = ''scout'' \<and>
   map (sa_nickname \<circ> snd) (st_rows (snd (sql_create ''T1'' ''T2'' (demo_create None)
     (snd (sql_create ''T1'' ''T2'' (demo_create (Some ''scout'')) \<lparr>st_sessions = [''s1''], st_rows = []\<rparr>))))) = [''subagent-s2'']"
  by code_simp

text \<open>Remark (depths_must_agree)  A spawn takes the depth from the record of the session as a sub-agent, the run store
  from the parent run: where they differ, for instance when the session of a nested run has no such record, the
  spawn is refused as an invalid request.\<close>

theorem depths_must_agree:
  assumes "si_findOwned s (id_tenantId idn) (id_principalId idn) (rr_runId run) w = (Inr (Some run), w')"
    and "depth \<noteq> (case rr_parent run of None \<Rightarrow> 0 | Some p \<Rightarrow> rp_depth p) + 1"
  shows "validateParent s idn (run_request u1 u2 run parent task wp depth) w =
    (Inl (OperationError 400 ''agent_run_parent_invalid'' ''The AgentRun parent depth or root lineage is invalid.''), w')"
  using assms by (simp add: validateParent_def run_request_def bind_act_def throw_def Let_def)

definition demo_called :: session_event where
  "demo_called = \<lparr>sv_type = ''subagent.called'', sv_data = Some (JObj [(''childSessionId'', JStr ''s3'')]), sv_meta = None\<rparr>"

text \<open>Remark (a_replay_revives_a_child)  Following the same page of events again is not idempotent: a child that waits is
  recorded as running once more.\<close>

theorem a_replay_revives_a_child:
  "case syncAgentSubagentsFromEvents (\<lambda>_ _. 0) (demo_children RtWaiting) ''s1'' [demo_called] (demo_family SubWaiting) of
     (Inr cs, _) \<Rightarrow> map sa_status cs = [SubRunning] | _ \<Rightarrow> False"
  by code_simp

text \<open>Remark (long_messages_are_refused)  The supervisor admits messages of up to 100000 characters, the mailbox none above
  65536: such a message fails with an error that has no status.\<close>

theorem long_messages_are_refused:
  assumes "65536 < length (js_trim message)"
  shows "\<nexists>u w'. deliver_message sv mb c message operationId kind w = (Inr u, w')"
proof -
  let ?o = "message_options (su_identity sv) (sa_childSessionId c) (su_uuid sv 0 w) (su_uuid sv 1 w) operationId kind message"
  obtain e where "parseMailboxContent ?o = Inl e"
    using assms by (cases "fst kind = Respond") (simp_all add: parseMailboxContent_def message_options_def parseMessage_def Let_def)
  then have "\<exists>e. enqueueAgentMailboxMessage (snd mb) (fst mb) ?o w = (Inl e, w)"
    by (cases "parseClientMessageId (eo_clientMessageId ?o)"; cases "parseSessionId (eo_sessionId ?o)")
      (simp_all add: enqueueAgentMailboxMessage_def bind_act_def lift_res_def)
  then show ?thesis by (auto simp: deliver_message_def reading_def bind_act_def)
qed

end
