(* ===== verification/Spec2Isabelle.thy ===== *)
theory Spec2Isabelle
  imports Mailbox_Outcome Session_Operation Run_Safety Patch_World Run_Policy_Theorems Thread_Hydration Sandbox_Theorems Thread_Client_Theorems
    Session_Theorems Subagent_World
begin

text \<open>
  Verification of Open Agent (TypeScript, src/): a server that admits messages to durable agent
  sessions, starts and follows agent runs, and a workspace in the browser that keeps their transcripts.

  How the parts interact.  The workspace enqueues a message or an edit in the mailbox
  (server/agent-mailbox), whose PostgreSQL store (server/data/agent-mailbox-store.ts) orders the items of
  a session; a dispatcher claims one item at a time, records that admission begins, hands it to the agent
  runtime, and commits it.  A tenant's program starts a run through server/agent-runs: a reservation is
  written first, the runtime is called once, the session is attached, and the event stream is folded into
  the row of the run.  Inside a session the agent edits files with the patch tool
  (agent/tools/apply_patch.ts) and is held to a policy (agent/lib/run-policy.ts); it delegates to sub-agents,
  sessions of their own that server/agent-sessions/subagents.ts starts through agent runs, messages through the
  mailbox and records in a table; the requests for approval in its stream are followed into another
  (approval.ts).  A session is deleted by retiring it first (service.ts); its deletion and that of its
  sandbox are rows that workers claim under a lease (sandbox-deletion-store.ts).  The workspace
  (packages/agent-ui/src/agent-workspace) merges live and recovered transcripts, keeps them in a stored
  collection and writes down the context of a stopped turn for the messages that follow.

  The theories, in the order of their imports:
  \<^item> Prelude: results with errors, the state-and-exception actions of the asynchronous services, triples over
    them, JavaScript strings.  Js_Arrays: Map, sort and searches of arrays.  Json: JSON values and stream events.
  \<^item> Mailbox_Store (agent-mailbox-store.ts, client-context.ts), Mailbox_Service (service.ts, the ownership
    store), Session_Operation (operation.ts).  A table is a list of rows, a transaction a function of the table.
    Mailbox_Invariant and Mailbox_Runs prove the invariant of the table over every sequence of store
    calls; Mailbox_Theorems states what it gives; Mailbox_World, Mailbox_Safety and Mailbox_Dispatch
    prove the service against an outside runtime; Mailbox_Outcome says what one dispatch does.
  \<^item> Run_Store (agent-run-store.ts, agent-run-input-store.ts), Run_Service (service.ts, reconcile.ts),
    Run_Projection (projection.ts).  Run_Invariant, Run_Theorems: the table; Run_World, Run_Safety: the service.
  \<^item> Patch_Text (parser and text update), Patch_Apply (planning and commits on the sandbox's files);
    Patch_Theorems and Patch_Roundtrip on text and parser, Patch_Safety and Patch_World on the files.
  \<^item> Run_Policy and Run_Policy_Theorems (run-policy.ts and its hooks).
  \<^item> Thread_Events (thread-storage.ts, thread-transcript-repair.ts: identity, compaction, append, merge, edit
    projection), Thread_Compaction, Thread_Merge, Thread_Edits: their properties.  Thread_Collection: the parsing
    and merging of stored collections, with Thread_Collection_Theorems and Thread_Hydration.
  \<^item> Thread_Store (thread-collection-store.ts): the collections and the event log the server keeps, every reader
    and writer; Thread_Store_Theorems: the log and its transcripts; Thread_Store_World: revisions, resent
    events, reading backwards.
  \<^item> Thread_Contract (thread-collection-contract.ts), Thread_Client (http-thread-storage.ts and the conflict
    recovery of agent-workspace.tsx), Thread_Client_Theorems: the patches the browser sends, what the server
    makes of them, and that the client's baseline follows the server's log.
  \<^item> Sandbox_Admission (lib/sandbox-admission-backend.ts), Sandbox_Theorems: permits, waiters and sessions under
    every interleaving of calls.
  \<^item> Approval_Store (approval.ts) and Approval_Theorems: what following a stream does to the approvals, in memory
    and in the table.  Sandbox_Deletion (sandbox-deletion-store.ts, sandbox-cleanup-query.ts) and
    Sandbox_Deletion_Theorems: leases and the states of a deletion over every sequence of calls.
    Session_Service (agent-sessions/service.ts, the approvals route) and Session_Theorems: snapshots, paging
    and retirement.
  \<^item> Subagent_Store (agent-subagent-store.ts), Subagent_Service (subagents.ts), Subagent_Theorems and
    Subagent_World: the supervisor over either store, then beside runs, mailbox and runtime.
  \<^item> Utf16_Text, Retained_Context, Retained_Theorems (retained-context.ts) on 16-bit code units.

  Conventions.  A TypeScript object is a record, with an optional field as an option; a thrown error is a
  value of a sum type; an asynchronous function is an action on an explicit world.  Numbers that may be
  fractional are rationals, safe integers are int, code units are 16-bit words and the edit hash uses 32-bit words.
  A loop over pages is bounded as in the code (the 49 further pages a run synchronisation reads,
  the 100 pages of 1000 events behind the approvals, the three attempts to retire a child).  Waiting for a
  child has 15002 rounds of fuel: a round lasts at least 20 ms and the timeout is at most 300000 ms, and
  waiting_ends shows that the fuel is never used up and bounds the time the wait takes.

  Concurrency.  The statements of a database transaction are one step.  So are three places where the
  source has more than one: claimNext sends three statements of its own (expire edits, release leases, claim),
  which are one step here; the advisory lock and the row locks are taken to serialise their transactions, so the branches
  of the source for an insert that lost a race (run reservation, first save of a collection) are never
  taken; and a spawn runs undisturbed from the listing of the children to the record of the new one, which
  the source does not ensure (overlapping_spawns_pass_the_limit shows what overlapping spawns do).  Between any
  two calls of a dispatcher, of a run's start, or of the thread store's writers, on the other hand, other
  processes may run any commands.

  Failures.  A call may fail before or after its effect, and a start of the runtime may be accepted
  with its answer lost.  A write of a sandbox file that fails may leave any text there; removals and renames
  happen or do not.

  Text.  Strings are lists of 8-bit characters, in events and in stored JSON too, and so hold no surrogate;
  only the contexts kept for stopped turns are texts of 16-bit units (Utf16_Text), where the lone
  surrogates of lone_surrogates_overrun_the_budget live.

  Interfaces are locales, interpreted on the code's own definitions: the mailbox and run tables' invariants,
  the sandbox and the runtime as the services see them, the merge of two keyed maps (interpreted on answers
  and on threads), the register with a revision that the writers of the thread store implement, the approval
  store and the store of sub-agents (each interpreted on the map in memory and on the table), the deletion table
  as a session's retirement sees it, and the supervisor beside the rest of the system.

  Parameters, with only documented behaviour assumed: the agent runtime and the sandbox, SHA-256 and the random
  identities, the clock, JSON.parse and JSON.stringify, localeCompare, the printing of numbers, the engine's sort
  (a permutation of its input), parseAssetPrompt.

  Not modelled: the single-query writes of a thread store whose pool has no connect(); HTTP handlers, authentication and fetch calls; React components; pools, schema statements and
  migrations; object stores; timers; configuration of the Eve framework, which is not in the repository;
  generated packages, scripts and tests.
\<close>

end
